(* ===== verification/Prelude.thy ===== *)
theory Prelude
  imports "HOL-Library.Word" "HOL-Library.Monad_Syntax"
begin

text \<open>
  Types and helper lemmas shared by every component of the MACsec development.

  A C buffer is a list of bytes. Accesses to a buffer whose size or contents an attacker or a
  caller controls go through \<open>buf_at\<close> and \<open>buf_put\<close>, which give \<open>None\<close> where the C code
  would touch memory outside the object. A failed \<open>macsec_assert\<close> (a call of
  \<open>macsec_sysPanic\<close>, which does not return) is \<open>None\<close> as well. A theorem that an
  operation is not \<open>None\<close> therefore says that it neither panics nor leaves its buffers.
\<close>

unbundle bit_operations_syntax

subsection \<open>Machine types\<close>

type_synonym u8 = "8 word"
type_synonym u16 = "16 word"
type_synonym u32 = "32 word"
type_synonym u64 = "64 word"
type_synonym bytes = "8 word list"

named_theorems buf_simps \<open>accesses inside the bounds of a buffer\<close>
named_theorems byte_simps \<open>bytes of words and words of bytes\<close>
named_theorems xor_simps \<open>cancellation of exclusive or\<close>

subsection \<open>Bounded accesses\<close>

definition buf_at :: "bytes \<Rightarrow> nat \<Rightarrow> nat \<Rightarrow> bytes option" where
  "buf_at f i n = (if i + n \<le> length f then Some (take n (drop i f)) else None)"

definition byte_at :: "bytes \<Rightarrow> nat \<Rightarrow> u8 option" where
  "byte_at f i = (if i < length f then Some (f ! i) else None)"

definition buf_put :: "bytes \<Rightarrow> nat \<Rightarrow> bytes \<Rightarrow> bytes option" where
  "buf_put f i bs =
     (if i + length bs \<le> length f then Some (take i f @ bs @ drop (i + length bs) f) else None)"

text \<open>\<open>arr_put a bs\<close> is a \<open>memcpy\<close> of \<open>bs\<close> to the start of a fixed array field of a context.\<close>

definition arr_put :: "bytes \<Rightarrow> bytes \<Rightarrow> bytes" where
  "arr_put a bs = bs @ drop (length bs) a"

lemma buf_at_Some [buf_simps]: "i + n \<le> length f \<Longrightarrow> buf_at f i n = Some (take n (drop i f))"
  by (simp add: buf_at_def)

lemma byte_at_Some [buf_simps]: "i < length f \<Longrightarrow> byte_at f i = Some (f ! i)"
  by (simp add: byte_at_def)

lemma buf_put_Some [buf_simps]:
  "i + length bs \<le> length f \<Longrightarrow> buf_put f i bs = Some (take i f @ bs @ drop (i + length bs) f)"
  by (simp add: buf_put_def)

lemma buf_at_length: "buf_at f i n = Some b \<Longrightarrow> length b = n"
  by (auto simp: buf_at_def split: if_splits)

lemma buf_put_length: "buf_put f i bs = Some g \<Longrightarrow> length g = length f"
  by (auto simp: buf_put_def split: if_splits)

lemma buf_at_None_iff: "buf_at f i n = None \<longleftrightarrow> length f < i + n"
  by (auto simp: buf_at_def)

lemma arr_put_length [simp]: "length bs \<le> length a \<Longrightarrow> length (arr_put a bs) = length a"
  by (simp add: arr_put_def)

lemma take_arr_put [simp]: "n = length bs \<Longrightarrow> take n (arr_put a bs) = bs"
  by (simp add: arr_put_def)

subsection \<open>Exclusive or\<close>

lemma xor_left_cancel_word [xor_simps, simp]: "(a :: 'a::len word) XOR (a XOR b) = b"
  by (simp add: xor.assoc [symmetric])

lemma xor_right_cancel_word [xor_simps, simp]: "((b :: 'a::len word) XOR a) XOR a = b"
  by (simp add: xor.assoc)

lemma xor_eq_zero_iff [xor_simps]: "(a :: 'a::len word) XOR b = 0 \<longleftrightarrow> a = b"
  by (metis xor_left_cancel_word xor.right_neutral xor_self_eq)

definition xor_bytes :: "bytes \<Rightarrow> bytes \<Rightarrow> bytes" where
  "xor_bytes xs ys = map2 (XOR) xs ys"

lemma length_xor_bytes [simp]: "length (xor_bytes xs ys) = min (length xs) (length ys)"
  by (simp add: xor_bytes_def)

lemma nth_xor_bytes: "i < length xs \<Longrightarrow> i < length ys \<Longrightarrow> xor_bytes xs ys ! i = xs ! i XOR ys ! i"
  by (simp add: xor_bytes_def)

lemma xor_bytes_cancel [xor_simps]:
  "length ys \<le> length xs \<Longrightarrow> xor_bytes xs (xor_bytes xs ys) = ys"
  by (rule nth_equalityI) (auto simp: nth_xor_bytes)

text \<open>\<open>for (i = 0; i < n; i++) a[i] ^= p[i]\<close> with \<open>n\<close> the length of \<open>p\<close>.\<close>

definition arr_xor :: "bytes \<Rightarrow> bytes \<Rightarrow> bytes" where
  "arr_xor a p = xor_bytes a p @ drop (length p) a"

lemma length_arr_xor [simp]: "length p \<le> length a \<Longrightarrow> length (arr_xor a p) = length a"
  by (simp add: arr_xor_def)

subsection \<open>Bytes of words\<close>

text \<open>
  A byte shifted into place and read back: the rules that cancel a big- or little-endian read
  against the matching write, whatever the width.
\<close>

lemma byte_bit_bound: "8 \<le> n \<Longrightarrow> \<not> bit (b :: u8) n"
  by (auto dest: bit_imp_le_length)

lemma byte_ucast_or [byte_simps]: "(ucast (v OR w) :: u8) = ucast v OR ucast w"
  by (rule bit_word_eqI) (simp add: bit_simps)

lemma byte_drop_or [byte_simps]:
  "(ucast (drop_bit i (v OR w)) :: u8) = ucast (drop_bit i v) OR ucast (drop_bit i w)"
  by (rule bit_word_eqI) (auto simp add: bit_simps)

lemma byte_shift [byte_simps]:
  fixes b :: u8
  assumes "LENGTH('a::len) \<ge> j + 8"
  shows "i = j \<Longrightarrow> (ucast (drop_bit i (push_bit j (ucast b :: 'a word))) :: u8) = b"
    and "j + 8 \<le> i \<Longrightarrow> (ucast (drop_bit i (push_bit j (ucast b :: 'a word))) :: u8) = 0"
    and "i + 8 \<le> j \<Longrightarrow> (ucast (drop_bit i (push_bit j (ucast b :: 'a word))) :: u8) = 0"
  using assms by (auto intro!: bit_word_eqI simp: bit_simps byte_bit_bound)

lemmas byte_shift_right [byte_simps] = byte_shift [where j = 0, unfolded push_bit_0_id id_def]
lemmas byte_shift_left [byte_simps] = byte_shift [where i = 0, unfolded drop_bit_0 id_def]

lemma byte_ucast_ucast [byte_simps]:
  "LENGTH('a::len) \<ge> 8 \<Longrightarrow> (ucast (ucast (b :: u8) :: 'a word) :: u8) = b"
  using byte_shift_right(1) [where 'a = 'a and i = 0] by simp

text \<open>Two words with the same bytes are equal.\<close>

lemma word_eqI_bytes:
  fixes v w :: "'a::len word"
  assumes "\<And>k. 8 * k < LENGTH('a) \<Longrightarrow> (ucast (drop_bit (8 * k) v) :: u8) = ucast (drop_bit (8 * k) w)"
  shows "v = w"
proof (rule bit_word_eqI)
  fix n assume n: "n < LENGTH('a)"
  have "bit (ucast (drop_bit (8 * (n div 8)) v) :: u8) (n mod 8) =
        bit (ucast (drop_bit (8 * (n div 8)) w) :: u8) (n mod 8)"
    using assms [of "n div 8"] n by simp
  with n show "bit v n = bit w n"
    by (simp add: bit_simps)
qed

end
