(* ===== verification/Common.thy ===== *)
theory Common
  imports Prelude
begin

text \<open>
  \<open>macsec_common.h\<close> and \<open>macsec_common.c\<close>: return codes, big-endian reads and writes,
  erasing and comparing buffers, and the hexadecimal decoder. Pointer arguments are byte lists;
  \<open>size_t\<close> lengths are the lengths of those lists.
\<close>

subsection \<open>Return codes\<close>

datatype macsec_ret =
    MACSEC_ERR_OK | MACSEC_ERR_PARAM | MACSEC_ERR_BUFFER | MACSEC_ERR_CRYPTO | MACSEC_ERR_STATE
  | MACSEC_ERR_REPLAY | MACSEC_ERR_UNSUPPORTED | MACSEC_ERR_AUTH | MACSEC_ERR_TIMEOUT
  | MACSEC_ERR_NOT_READY | MACSEC_ERR_BUSY

subsection \<open>Byte order\<close>

definition macsec_rd_be16 :: "bytes \<Rightarrow> u16" where
  "macsec_rd_be16 p = push_bit 8 (ucast (p ! 0)) OR ucast (p ! 1)"

definition macsec_rd_be32 :: "bytes \<Rightarrow> u32" where
  "macsec_rd_be32 p =
     push_bit 24 (ucast (p ! 0)) OR push_bit 16 (ucast (p ! 1)) OR push_bit 8 (ucast (p ! 2)) OR
     ucast (p ! 3)"

definition macsec_rd_be64 :: "bytes \<Rightarrow> u64" where
  "macsec_rd_be64 p =
     push_bit 56 (ucast (p ! 0)) OR push_bit 48 (ucast (p ! 1)) OR push_bit 40 (ucast (p ! 2)) OR
     push_bit 32 (ucast (p ! 3)) OR push_bit 24 (ucast (p ! 4)) OR push_bit 16 (ucast (p ! 5)) OR
     push_bit 8 (ucast (p ! 6)) OR ucast (p ! 7)"

text \<open>The writers give the bytes stored at \<open>p\<close>.\<close>

definition macsec_wr_be16 :: "u16 \<Rightarrow> bytes" where
  "macsec_wr_be16 v = [ucast (drop_bit 8 v), ucast v]"

definition macsec_wr_be32 :: "u32 \<Rightarrow> bytes" where
  "macsec_wr_be32 v = [ucast (drop_bit 24 v), ucast (drop_bit 16 v), ucast (drop_bit 8 v), ucast v]"

definition macsec_wr_be64 :: "u64 \<Rightarrow> bytes" where
  "macsec_wr_be64 v =
     [ucast (drop_bit 56 v), ucast (drop_bit 48 v), ucast (drop_bit 40 v), ucast (drop_bit 32 v),
      ucast (drop_bit 24 v), ucast (drop_bit 16 v), ucast (drop_bit 8 v), ucast v]"

subsection \<open>Buffers\<close>

text \<open>\<open>while (len > 0) { *p++ = 0; len--; }\<close>: the first \<open>len\<close> bytes become zero.\<close>

fun macsec_zeroize :: "bytes \<Rightarrow> nat \<Rightarrow> bytes" where
  "macsec_zeroize p 0 = p"
| "macsec_zeroize (_ # p) (Suc len) = 0 # macsec_zeroize p len"
| "macsec_zeroize [] (Suc len) = []"

text \<open>
  The C function returns \<open>(int) diff\<close> where \<open>diff\<close> is the OR of all byte differences, a value
  in \<open>0..255\<close>.
\<close>

definition macsec_compare :: "bytes \<Rightarrow> bytes \<Rightarrow> nat \<Rightarrow> int" where
  "macsec_compare buf1 buf2 len =
     uint (fold (\<lambda>i diff. diff OR (buf1 ! i XOR buf2 ! i)) [0..<len] (0 :: u8))"

subsection \<open>Hexadecimal text\<close>

text \<open>The string is the characters before the terminating NUL.\<close>

definition macsec_hex_value :: "char \<Rightarrow> int" where
  "macsec_hex_value c =
     (let n = of_char c in
      if 48 \<le> n \<and> n \<le> 57 then n - 48
      else if 97 \<le> n \<and> n \<le> 102 then n - 97 + 10
      else if 65 \<le> n \<and> n \<le> 70 then n - 65 + 10
      else -1)"

definition macsec_hex_separator :: "char \<Rightarrow> bool" where
  "macsec_hex_separator c \<longleftrightarrow>
     c = CHR '' '' \<or> c = CHR 0x0A \<or> c = CHR 0x0D \<or> c = CHR 0x09 \<or> c = CHR '':''"

text \<open>
  The loop of \<open>macsec_hex_to_bin\<close>: \<open>hi\<close> is the pending high nibble or negative, \<open>count\<close> the
  bytes written. A checked failure stops it with its code.
\<close>

fun macsec_hex_loop ::
  "string \<Rightarrow> int \<Rightarrow> bytes \<Rightarrow> nat \<Rightarrow> nat \<Rightarrow> (macsec_ret \<times> int \<times> bytes \<times> nat) option" where
  "macsec_hex_loop [] hi out count out_max_len = Some (MACSEC_ERR_OK, hi, out, count)"
| "macsec_hex_loop (c # hex) hi out count out_max_len =
     (if macsec_hex_separator c then macsec_hex_loop hex hi out count out_max_len
      else
        let lo = macsec_hex_value c in
        if \<not> 0 \<le> lo then Some (MACSEC_ERR_PARAM, hi, out, count)
        else if hi < 0 then macsec_hex_loop hex lo out count out_max_len
        else if \<not> count < out_max_len then Some (MACSEC_ERR_BUFFER, hi, out, count)
        else do {
          out' \<leftarrow> buf_put out count [word_of_int (push_bit 4 hi OR lo)];
          macsec_hex_loop hex (-1) out' (count + 1) out_max_len
        })"

text \<open>The result is the return code, the output buffer and the stored output length.\<close>

definition macsec_hex_to_bin ::
  "string \<Rightarrow> bytes \<Rightarrow> nat \<Rightarrow> nat \<Rightarrow> (macsec_ret \<times> bytes \<times> nat) option" where
  "macsec_hex_to_bin hex out out_len out_max_len = do {
     (ret, hi, out', count) \<leftarrow> macsec_hex_loop hex (-1) out 0 out_max_len;
     if ret \<noteq> MACSEC_ERR_OK then Some (ret, out', out_len)
     else if \<not> hi < 0 then Some (MACSEC_ERR_PARAM, out', out_len)
     else Some (MACSEC_ERR_OK, out', count)
   }"

subsection \<open>Laws of the helpers\<close>

lemma length_wr_be [simp]:
  "length (macsec_wr_be16 a) = 2" "length (macsec_wr_be32 b) = 4" "length (macsec_wr_be64 c) = 8"
  by (simp_all add: macsec_wr_be16_def macsec_wr_be32_def macsec_wr_be64_def)

lemma wr_rd_be16: "macsec_wr_be16 (macsec_rd_be16 [a, b]) = [a, b]"
  by (simp add: macsec_rd_be16_def macsec_wr_be16_def byte_simps)

lemma wr_rd_be32: "macsec_wr_be32 (macsec_rd_be32 [a, b, c, d]) = [a, b, c, d]"
  by (simp add: macsec_rd_be32_def macsec_wr_be32_def byte_simps)

lemma wr_rd_be64: "macsec_wr_be64 (macsec_rd_be64 [a, b, c, d, e, f, g, h]) = [a, b, c, d, e, f, g, h]"
  by (simp add: macsec_rd_be64_def macsec_wr_be64_def byte_simps)

lemma rd_wr_be16 [simp]: "macsec_rd_be16 (macsec_wr_be16 v) = v"
proof (rule word_eqI_bytes)
  fix k :: nat assume "8 * k < LENGTH(16)"
  then have "k = 0 \<or> k = 1" by simp arith
  with wr_rd_be16 show "(ucast (drop_bit (8 * k) (macsec_rd_be16 (macsec_wr_be16 v))) :: u8) = ucast (drop_bit (8 * k) v)"
    by (auto simp: macsec_wr_be16_def)
qed

lemma rd_wr_be32 [simp]: "macsec_rd_be32 (macsec_wr_be32 v) = v"
proof (rule word_eqI_bytes)
  fix k :: nat assume "8 * k < LENGTH(32)"
  then have "k = 0 \<or> k = 1 \<or> k = 2 \<or> k = 3" by simp arith
  with wr_rd_be32 show "(ucast (drop_bit (8 * k) (macsec_rd_be32 (macsec_wr_be32 v))) :: u8) = ucast (drop_bit (8 * k) v)"
    by (auto simp: macsec_wr_be32_def)
qed

lemma rd_wr_be64 [simp]: "macsec_rd_be64 (macsec_wr_be64 v) = v"
proof (rule word_eqI_bytes)
  fix k :: nat assume "8 * k < LENGTH(64)"
  then have "k = 0 \<or> k = 1 \<or> k = 2 \<or> k = 3 \<or> k = 4 \<or> k = 5 \<or> k = 6 \<or> k = 7" by simp arith
  with wr_rd_be64 show "(ucast (drop_bit (8 * k) (macsec_rd_be64 (macsec_wr_be64 v))) :: u8) = ucast (drop_bit (8 * k) v)"
    by (auto simp: macsec_wr_be64_def)
qed

lemma macsec_zeroize_eq: "len \<le> length p \<Longrightarrow> macsec_zeroize p len = replicate len 0 @ drop len p"
  by (induction p len rule: macsec_zeroize.induct) auto

lemma macsec_zeroize_all [simp]: "macsec_zeroize p (length p) = replicate (length p) 0"
  by (simp add: macsec_zeroize_eq)

lemma length_macsec_zeroize [simp]: "length (macsec_zeroize p len) = length p"
  by (induction p len rule: macsec_zeroize.induct) auto

lemma or_fold_zero:
  "fold (\<lambda>i diff. diff OR f i) xs (d :: u8) = 0 \<longleftrightarrow> d = 0 \<and> (\<forall>i \<in> set xs. f i = 0)"
  by (induction xs arbitrary: d) (auto simp: or_eq_0_iff)

lemma macsec_compare_eq_0:
  "macsec_compare a b n = 0 \<longleftrightarrow> (\<forall>i < n. a ! i = b ! i)"
proof -
  have "macsec_compare a b n = 0 \<longleftrightarrow> (\<forall>i \<in> set [0..<n]. a ! i XOR b ! i = 0)"
    by (simp add: macsec_compare_def uint_0_iff or_fold_zero)
  also have "\<dots> \<longleftrightarrow> (\<forall>i < n. a ! i = b ! i)"
    by (auto simp: xor_eq_zero_iff)
  finally show ?thesis .
qed

lemma macsec_compare_take:
  "n \<le> length a \<Longrightarrow> n \<le> length b \<Longrightarrow> macsec_compare a b n = 0 \<longleftrightarrow> take n a = take n b"
  by (auto simp: macsec_compare_eq_0 list_eq_iff_nth_eq)

lemma macsec_compare_refl [simp]: "macsec_compare a a n = 0"
  by (simp add: macsec_compare_eq_0)

lemma macsec_compare_nonneg: "0 \<le> macsec_compare a b n"
  by (simp add: macsec_compare_def)

end
