(* ===== verification/Aes.thy ===== *)
theory Aes
  imports AesTables
begin

text \<open>
  \<open>math/aes.c\<close>: key schedules and the table-driven AES block cipher. The context keeps the number
  of rounds and the round-key buffer \<open>buf\<close>; \<open>round_keys\<close> always points to \<open>buf\<close> and is not a
  separate field, and the scratch arrays of the table generation are in theory \<open>AesTables\<close>.
  A block is a list of 16 bytes, a state a list of 4 words.
\<close>

subsection \<open>Macros\<close>

definition AES_GET_LE32 :: "bytes \<Rightarrow> nat \<Rightarrow> u32" where
  "AES_GET_LE32 p index = AES_U32_LE (p ! (index + 0)) (p ! (index + 1)) (p ! (index + 2)) (p ! (index + 3))"

definition AES_PUT_LE32 :: "u32 \<Rightarrow> bytes" where
  "AES_PUT_LE32 v = [AES_BYTE0 v, AES_BYTE1 v, AES_BYTE2 v, AES_BYTE3 v]"

definition AES_SUBWORD :: "u32 \<Rightarrow> u32" where
  "AES_SUBWORD x =
     AES_U32_LE (FORWARD_S_BOX ! unat (AES_BYTE0 x)) (FORWARD_S_BOX ! unat (AES_BYTE1 x))
                (FORWARD_S_BOX ! unat (AES_BYTE2 x)) (FORWARD_S_BOX ! unat (AES_BYTE3 x))"

definition AES_SUBWORD_ROT :: "u32 \<Rightarrow> u32" where
  "AES_SUBWORD_ROT x =
     AES_U32_LE (FORWARD_S_BOX ! unat (AES_BYTE1 x)) (FORWARD_S_BOX ! unat (AES_BYTE2 x))
                (FORWARD_S_BOX ! unat (AES_BYTE3 x)) (FORWARD_S_BOX ! unat (AES_BYTE0 x))"

definition AES_INV_MIX_KEY :: "u32 \<Rightarrow> u32" where
  "AES_INV_MIX_KEY x =
     (REVERSE_TABLES_0 ! unat (FORWARD_S_BOX ! unat (AES_BYTE0 x))) XOR
     (REVERSE_TABLES_1 ! unat (FORWARD_S_BOX ! unat (AES_BYTE1 x))) XOR
     (REVERSE_TABLES_2 ! unat (FORWARD_S_BOX ! unat (AES_BYTE2 x))) XOR
     (REVERSE_TABLES_3 ! unat (FORWARD_S_BOX ! unat (AES_BYTE3 x)))"

definition AES_FORWARD_ROUND_WORD :: "u32 \<Rightarrow> u32 \<Rightarrow> u32 \<Rightarrow> u32 \<Rightarrow> u32 \<Rightarrow> u32" where
  "AES_FORWARD_ROUND_WORD rk a b c d =
     rk XOR (FORWARD_TABLES_0 ! unat (AES_BYTE0 a)) XOR (FORWARD_TABLES_1 ! unat (AES_BYTE1 b)) XOR
     (FORWARD_TABLES_2 ! unat (AES_BYTE2 c)) XOR (FORWARD_TABLES_3 ! unat (AES_BYTE3 d))"

definition AES_FORWARD_FINAL_WORD :: "u32 \<Rightarrow> u32 \<Rightarrow> u32 \<Rightarrow> u32 \<Rightarrow> u32 \<Rightarrow> u32" where
  "AES_FORWARD_FINAL_WORD rk a b c d =
     rk XOR AES_U32_LE (FORWARD_S_BOX ! unat (AES_BYTE0 a)) (FORWARD_S_BOX ! unat (AES_BYTE1 b))
                       (FORWARD_S_BOX ! unat (AES_BYTE2 c)) (FORWARD_S_BOX ! unat (AES_BYTE3 d))"

definition AES_REVERSE_ROUND_WORD :: "u32 \<Rightarrow> u32 \<Rightarrow> u32 \<Rightarrow> u32 \<Rightarrow> u32 \<Rightarrow> u32" where
  "AES_REVERSE_ROUND_WORD rk a b c d =
     rk XOR (REVERSE_TABLES_0 ! unat (AES_BYTE0 a)) XOR (REVERSE_TABLES_1 ! unat (AES_BYTE1 b)) XOR
     (REVERSE_TABLES_2 ! unat (AES_BYTE2 c)) XOR (REVERSE_TABLES_3 ! unat (AES_BYTE3 d))"

definition AES_REVERSE_FINAL_WORD :: "u32 \<Rightarrow> u32 \<Rightarrow> u32 \<Rightarrow> u32 \<Rightarrow> u32 \<Rightarrow> u32" where
  "AES_REVERSE_FINAL_WORD rk a b c d =
     rk XOR AES_U32_LE (REVERSE_S_BOX ! unat (AES_BYTE0 a)) (REVERSE_S_BOX ! unat (AES_BYTE1 b))
                       (REVERSE_S_BOX ! unat (AES_BYTE2 c)) (REVERSE_S_BOX ! unat (AES_BYTE3 d))"

subsection \<open>Context\<close>

record math_aes_context =
  number_of_rounds :: nat
  rk_buf :: "u32 list"

definition math_aes_init :: math_aes_context where
  "math_aes_init = \<lparr>number_of_rounds = 0, rk_buf = replicate 68 0\<rparr>"

definition math_aes_free :: "math_aes_context \<Rightarrow> math_aes_context" where
  "math_aes_free ctx = ctx\<lparr>number_of_rounds := 0, rk_buf := replicate (length (rk_buf ctx)) 0\<rparr>"

subsection \<open>Key schedules\<close>

definition aes_expand_word :: "nat \<Rightarrow> u32 list \<Rightarrow> nat \<Rightarrow> u32" where
  "aes_expand_word key_words round_keys i =
     (let temp = round_keys ! (i - 1);
          temp = (if i mod key_words = 0
                  then AES_SUBWORD_ROT temp XOR RCON ! (i div key_words - 1)
                  else if key_words = 8 \<and> i mod key_words = 4
                  then AES_SUBWORD temp
                  else temp)
      in round_keys ! (i - key_words) XOR temp)"

definition math_aes_setenckey :: "math_aes_context \<Rightarrow> bytes \<Rightarrow> nat \<Rightarrow> int \<times> math_aes_context" where
  "math_aes_setenckey ctx key keybits =
     (if keybits = 128 \<or> keybits = 192 \<or> keybits = 256 then
        let (key_words, rounds) =
              (if keybits = 128 then (4, 10) else if keybits = 192 then (6, 12) else (8, 14));
            rk = fold (\<lambda>i rk. rk[i := AES_GET_LE32 key (i * 4)]) [0..<key_words] (rk_buf ctx);
            total_words = 4 * (rounds + 1);
            rk = fold (\<lambda>i rk. rk[i := aes_expand_word key_words rk i]) [key_words..<total_words] rk
        in (0, ctx\<lparr>number_of_rounds := rounds, rk_buf := rk\<rparr>)
      else (-1, ctx))"

definition math_aes_setdeckey :: "math_aes_context \<Rightarrow> bytes \<Rightarrow> nat \<Rightarrow> int \<times> math_aes_context" where
  "math_aes_setdeckey ctx key keybits =
     (let (ret, encryption_ctx) = math_aes_setenckey math_aes_init key keybits in
      if ret = 0 then
        let nr = number_of_rounds encryption_ctx;
            ek = rk_buf encryption_ctx;
            buf = fold (\<lambda>word buf. buf[word := ek ! (nr * 4 + word)]) [0..<4] (rk_buf ctx);
            (destination_index, buf) =
              fold (\<lambda>round (destination_index, buf).
                      (destination_index + 4,
                       fold (\<lambda>word buf. buf[destination_index + word :=
                                               AES_INV_MIX_KEY (ek ! (round * 4 + word))])
                            [0..<4] buf))
                   (rev [1..<nr]) (4, buf);
            buf = fold (\<lambda>word buf. buf[destination_index + word := ek ! word]) [0..<4] buf
        in (ret, ctx\<lparr>number_of_rounds := nr, rk_buf := buf\<rparr>)
      else (ret, ctx))"

subsection \<open>Block cipher\<close>

definition aes_forward_round :: "u32 list \<Rightarrow> nat \<Rightarrow> u32 list \<Rightarrow> u32 list" where
  "aes_forward_round round_keys key_index state =
     map (\<lambda>column. AES_FORWARD_ROUND_WORD (round_keys ! (key_index + column)) (state ! column)
            (state ! ((column + 1) mod 4)) (state ! ((column + 2) mod 4)) (state ! ((column + 3) mod 4)))
         [0..<4]"

definition aes_forward_final :: "u32 list \<Rightarrow> nat \<Rightarrow> u32 list \<Rightarrow> u32 list" where
  "aes_forward_final round_keys key_index state =
     map (\<lambda>column. AES_FORWARD_FINAL_WORD (round_keys ! (key_index + column)) (state ! column)
            (state ! ((column + 1) mod 4)) (state ! ((column + 2) mod 4)) (state ! ((column + 3) mod 4)))
         [0..<4]"

definition math_aes_encrypt :: "math_aes_context \<Rightarrow> bytes \<Rightarrow> int \<times> bytes" where
  "math_aes_encrypt ctx input =
     (let round_keys = rk_buf ctx;
          state = map (\<lambda>column. AES_GET_LE32 input (column * 4) XOR round_keys ! column) [0..<4];
          (key_index, state) =
            fold (\<lambda>_ (key_index, state). (key_index + 4, aes_forward_round round_keys key_index state))
                 [1..<number_of_rounds ctx] (4, state);
          transformed = aes_forward_final round_keys key_index state
      in (0, concat (map AES_PUT_LE32 transformed)))"

definition aes_reverse_round :: "u32 list \<Rightarrow> nat \<Rightarrow> u32 list \<Rightarrow> u32 list" where
  "aes_reverse_round round_keys key_index state =
     map (\<lambda>column. AES_REVERSE_ROUND_WORD (round_keys ! (key_index + column)) (state ! column)
            (state ! ((column + 3) mod 4)) (state ! ((column + 2) mod 4)) (state ! ((column + 1) mod 4)))
         [0..<4]"

definition aes_reverse_final :: "u32 list \<Rightarrow> nat \<Rightarrow> u32 list \<Rightarrow> u32 list" where
  "aes_reverse_final round_keys key_index state =
     map (\<lambda>column. AES_REVERSE_FINAL_WORD (round_keys ! (key_index + column)) (state ! column)
            (state ! ((column + 3) mod 4)) (state ! ((column + 2) mod 4)) (state ! ((column + 1) mod 4)))
         [0..<4]"

definition math_aes_decrypt :: "math_aes_context \<Rightarrow> bytes \<Rightarrow> int \<times> bytes" where
  "math_aes_decrypt ctx input =
     (let round_keys = rk_buf ctx;
          state = map (\<lambda>column. AES_GET_LE32 input (column * 4) XOR round_keys ! column) [0..<4];
          (key_index, state) =
            fold (\<lambda>_ (key_index, state). (key_index + 4, aes_reverse_round round_keys key_index state))
                 [1..<number_of_rounds ctx] (4, state);
          transformed = aes_reverse_final round_keys key_index state
      in (0, concat (map AES_PUT_LE32 transformed)))"

end
