(* ===== verification/AesInverse.thy ===== *)
theory AesInverse
  imports Aes
begin

text \<open>
  The AES round trip: \<open>math_aes_decrypt\<close> under the schedule of \<open>math_aes_setdeckey\<close> undoes
  \<open>math_aes_encrypt\<close> under the schedule of \<open>math_aes_setenckey\<close>. The table lookups are related to
  SubBytes and MixColumns on words (\<open>xt\<close>, \<open>mix\<close>, \<open>inv_mix\<close>); the tables are evaluated once.
\<close>

subsection \<open>The tables in terms of doubling in GF(256)\<close>

definition xt :: "u8 \<Rightarrow> u8" where
  "xt x = push_bit 1 x XOR (if bit x 7 then 0x1B else 0)"

lemma xt_xor: "xt (x XOR y) = xt x XOR xt y"
  by (auto simp: xt_def bit_simps xor.assoc xor.left_commute xor.commute)

lemma length_sboxes [simp]: "length FORWARD_S_BOX = 256" "length REVERSE_S_BOX = 256"
  by (simp_all add: FORWARD_S_BOX_def REVERSE_S_BOX_def)

lemma reverse_forward_list:
  "map (\<lambda>x. REVERSE_S_BOX ! unat x) FORWARD_S_BOX = map of_nat [0..<256]"
  by (simp add: FORWARD_S_BOX_def, simp add: REVERSE_S_BOX_def, simp add: upt_rec_numeral upt_conv_Cons)

lemma forward_tables_eq:
  "FORWARD_TABLES = map (\<lambda>s. (xt s XOR s, s, s, xt s)) FORWARD_S_BOX"
  by (simp add: FORWARD_TABLES_def FORWARD_S_BOX_def xt_def)

lemma reverse_tables_eq:
  "REVERSE_TABLES = map (\<lambda>s. let s2 = xt s; s4 = xt s2; s8 = xt s4 in
     (s8 XOR s2 XOR s, s8 XOR s4 XOR s, s8 XOR s, s8 XOR s4 XOR s2)) REVERSE_S_BOX"
  by (simp add: REVERSE_TABLES_def REVERSE_S_BOX_def xt_def Let_def)

lemma unat_u8_less [simp]: "unat (x :: u8) < 256"
proof -
  have "unat x < 2 ^ LENGTH(8)" by (rule unsigned_less)
  then show ?thesis by simp
qed

lemma reverse_forward_sbox [simp]: "REVERSE_S_BOX ! unat (FORWARD_S_BOX ! unat x) = (x :: u8)"
proof -
  have "map (\<lambda>x. REVERSE_S_BOX ! unat x) FORWARD_S_BOX ! unat x = map of_nat [0..<256] ! unat x"
    by (simp only: reverse_forward_list)
  then show ?thesis by simp
qed

subsection \<open>Words and their bytes\<close>

lemmas aes_byte_defs = AES_BYTE0_def AES_BYTE1_def AES_BYTE2_def AES_BYTE3_def

lemma aes_bytes_u32_le [simp]:
  "AES_BYTE0 (AES_U32_LE a b c d) = a" "AES_BYTE1 (AES_U32_LE a b c d) = b"
  "AES_BYTE2 (AES_U32_LE a b c d) = c" "AES_BYTE3 (AES_U32_LE a b c d) = d"
  by (simp_all add: aes_byte_defs AES_U32_LE_def byte_simps)

lemma aes_bytes_xor [simp]:
  "AES_BYTE0 (v XOR w) = AES_BYTE0 v XOR AES_BYTE0 w" "AES_BYTE1 (v XOR w) = AES_BYTE1 v XOR AES_BYTE1 w"
  "AES_BYTE2 (v XOR w) = AES_BYTE2 v XOR AES_BYTE2 w" "AES_BYTE3 (v XOR w) = AES_BYTE3 v XOR AES_BYTE3 w"
  by (auto simp: aes_byte_defs bit_simps intro!: bit_word_eqI)

lemma aes_word_eqI:
  assumes "AES_BYTE0 v = AES_BYTE0 w" "AES_BYTE1 v = AES_BYTE1 w"
    and "AES_BYTE2 v = AES_BYTE2 w" "AES_BYTE3 v = AES_BYTE3 w"
  shows "v = w"
proof (rule word_eqI_bytes)
  fix k :: nat assume "8 * k < LENGTH(32)"
  then have "k = 0 \<or> k = 1 \<or> k = 2 \<or> k = 3" by simp arith
  with assms show "(ucast (drop_bit (8 * k) v) :: u8) = ucast (drop_bit (8 * k) w)"
    by (auto simp: aes_byte_defs)
qed

lemma aes_u32_le_bytes [simp]: "AES_U32_LE (AES_BYTE0 w) (AES_BYTE1 w) (AES_BYTE2 w) (AES_BYTE3 w) = w"
  by (rule aes_word_eqI) simp_all

lemma aes_u32_be_le: "AES_U32_BE a b c d = AES_U32_LE d c b a"
  by (simp add: AES_U32_BE_def AES_U32_LE_def or.assoc or.commute or.left_commute)

subsection \<open>MixColumns\<close>

definition mix :: "u32 \<Rightarrow> u32" where
  "mix w =
     (let a = AES_BYTE0 w; b = AES_BYTE1 w; c = AES_BYTE2 w; d = AES_BYTE3 w in
      AES_U32_LE (xt a XOR xt b XOR b XOR c XOR d) (a XOR xt b XOR xt c XOR c XOR d)
                 (a XOR b XOR xt c XOR xt d XOR d) (xt a XOR a XOR b XOR c XOR xt d))"

definition mul9 :: "u8 \<Rightarrow> u8" where "mul9 s = xt (xt (xt s)) XOR s"

definition mulB :: "u8 \<Rightarrow> u8" where "mulB s = xt (xt (xt s)) XOR xt s XOR s"

definition mulD :: "u8 \<Rightarrow> u8" where "mulD s = xt (xt (xt s)) XOR xt (xt s) XOR s"

definition mulE :: "u8 \<Rightarrow> u8" where "mulE s = xt (xt (xt s)) XOR xt (xt s) XOR xt s"

definition inv_mix :: "u32 \<Rightarrow> u32" where
  "inv_mix w =
     (let a = AES_BYTE0 w; b = AES_BYTE1 w; c = AES_BYTE2 w; d = AES_BYTE3 w in
      AES_U32_LE (mulE a XOR mulB b XOR mulD c XOR mul9 d) (mul9 a XOR mulE b XOR mulB c XOR mulD d)
                 (mulD a XOR mul9 b XOR mulE c XOR mulB d) (mulB a XOR mulD b XOR mul9 c XOR mulE d))"

lemmas mul_defs = mul9_def mulB_def mulD_def mulE_def

lemma xor_ac_word:
  "(a XOR b) XOR c = a XOR (b XOR c)" "a XOR b = b XOR a" "a XOR (b XOR c) = b XOR (a XOR c)"
  "a XOR (a XOR b) = (b :: 'a::len word)"
  by (simp_all add: xor.assoc xor.commute xor.left_commute)

lemma inv_mix_mix [simp]: "inv_mix (mix w) = w"
  by (rule aes_word_eqI) (simp_all add: inv_mix_def mix_def Let_def mul_defs xt_xor xor_ac_word)

lemma inv_mix_xor: "inv_mix (v XOR w) = inv_mix v XOR inv_mix w"
  by (rule aes_word_eqI) (simp_all add: inv_mix_def Let_def mul_defs xt_xor xor_ac_word)

subsection \<open>Rounds\<close>

definition sub_shift :: "u32 list \<Rightarrow> u32 list" where
  "sub_shift st = map (\<lambda>c. AES_U32_LE
     (FORWARD_S_BOX ! unat (AES_BYTE0 (st ! c))) (FORWARD_S_BOX ! unat (AES_BYTE1 (st ! ((c + 1) mod 4))))
     (FORWARD_S_BOX ! unat (AES_BYTE2 (st ! ((c + 2) mod 4))))
     (FORWARD_S_BOX ! unat (AES_BYTE3 (st ! ((c + 3) mod 4))))) [0..<4]"

definition inv_sub_shift :: "u32 list \<Rightarrow> u32 list" where
  "inv_sub_shift st = map (\<lambda>c. AES_U32_LE
     (REVERSE_S_BOX ! unat (AES_BYTE0 (st ! c))) (REVERSE_S_BOX ! unat (AES_BYTE1 (st ! ((c + 3) mod 4))))
     (REVERSE_S_BOX ! unat (AES_BYTE2 (st ! ((c + 2) mod 4))))
     (REVERSE_S_BOX ! unat (AES_BYTE3 (st ! ((c + 1) mod 4))))) [0..<4]"

lemma less_4_cases: "(c :: nat) < 4 \<Longrightarrow> c = 0 \<or> c = 1 \<or> c = 2 \<or> c = 3"
  by arith

lemma length_sub_shift [simp]: "length (sub_shift st) = 4" "length (inv_sub_shift st) = 4"
  by (simp_all add: sub_shift_def inv_sub_shift_def)

lemma sub_shift_nth:
  "c < 4 \<Longrightarrow> sub_shift st ! c = AES_U32_LE
     (FORWARD_S_BOX ! unat (AES_BYTE0 (st ! c))) (FORWARD_S_BOX ! unat (AES_BYTE1 (st ! ((c + 1) mod 4))))
     (FORWARD_S_BOX ! unat (AES_BYTE2 (st ! ((c + 2) mod 4))))
     (FORWARD_S_BOX ! unat (AES_BYTE3 (st ! ((c + 3) mod 4))))"
  "c < 4 \<Longrightarrow> inv_sub_shift st ! c = AES_U32_LE
     (REVERSE_S_BOX ! unat (AES_BYTE0 (st ! c))) (REVERSE_S_BOX ! unat (AES_BYTE1 (st ! ((c + 3) mod 4))))
     (REVERSE_S_BOX ! unat (AES_BYTE2 (st ! ((c + 2) mod 4))))
     (REVERSE_S_BOX ! unat (AES_BYTE3 (st ! ((c + 1) mod 4))))"
  by (simp_all add: inv_sub_shift_def sub_shift_def del: upt_rec_numeral)

lemma shift_back: "(c :: nat) < 4 \<Longrightarrow> ((c + 3) mod 4 + 1) mod 4 = c \<and> ((c + 2) mod 4 + 2) mod 4 = c \<and>
    ((c + 1) mod 4 + 3) mod 4 = c"
  by presburger

lemma inv_sub_shift_sub_shift:
  assumes "length st = 4"
  shows "inv_sub_shift (sub_shift st) = st"
proof (rule nth_equalityI)
  fix c assume "c < length (inv_sub_shift (sub_shift st))"
  then have c: "c < 4" by simp
  then show "inv_sub_shift (sub_shift st) ! c = st ! c"
    by (simp only: sub_shift_nth mod_less_divisor shift_back reverse_forward_sbox aes_bytes_u32_le
        aes_u32_le_bytes zero_less_numeral)
qed (simp add: assms)

lemma table_entries:
  assumes "i < 256"
  shows "FORWARD_TABLES_0 ! i = (let s = FORWARD_S_BOX ! i in AES_U32_LE (xt s) s s (xt s XOR s))"
    and "FORWARD_TABLES_1 ! i = (let s = FORWARD_S_BOX ! i in AES_U32_LE (xt s XOR s) (xt s) s s)"
    and "FORWARD_TABLES_2 ! i = (let s = FORWARD_S_BOX ! i in AES_U32_LE s (xt s XOR s) (xt s) s)"
    and "FORWARD_TABLES_3 ! i = (let s = FORWARD_S_BOX ! i in AES_U32_LE s s (xt s XOR s) (xt s))"
    and "REVERSE_TABLES_0 ! i = (let s = REVERSE_S_BOX ! i in AES_U32_LE (mulE s) (mul9 s) (mulD s) (mulB s))"
    and "REVERSE_TABLES_1 ! i = (let s = REVERSE_S_BOX ! i in AES_U32_LE (mulB s) (mulE s) (mul9 s) (mulD s))"
    and "REVERSE_TABLES_2 ! i = (let s = REVERSE_S_BOX ! i in AES_U32_LE (mulD s) (mulB s) (mulE s) (mul9 s))"
    and "REVERSE_TABLES_3 ! i = (let s = REVERSE_S_BOX ! i in AES_U32_LE (mul9 s) (mulD s) (mulB s) (mulE s))"
  using assms
  by (simp_all add: FORWARD_TABLES_0_def FORWARD_TABLES_1_def FORWARD_TABLES_2_def FORWARD_TABLES_3_def
      REVERSE_TABLES_0_def REVERSE_TABLES_1_def REVERSE_TABLES_2_def REVERSE_TABLES_3_def
      forward_tables_eq reverse_tables_eq aes_u32_be_le Let_def mul_defs xor.commute xor.left_commute)

lemma inv_mix_key: "AES_INV_MIX_KEY x = inv_mix x"
  by (rule aes_word_eqI)
     (simp_all add: AES_INV_MIX_KEY_def table_entries Let_def inv_mix_def xor.assoc)

lemma forward_round_word:
  "AES_FORWARD_ROUND_WORD rk a b c d =
     rk XOR mix (AES_U32_LE (FORWARD_S_BOX ! unat (AES_BYTE0 a)) (FORWARD_S_BOX ! unat (AES_BYTE1 b))
                            (FORWARD_S_BOX ! unat (AES_BYTE2 c)) (FORWARD_S_BOX ! unat (AES_BYTE3 d)))"
  by (rule aes_word_eqI)
     (simp_all add: AES_FORWARD_ROUND_WORD_def table_entries Let_def mix_def xor_ac_word)

lemma reverse_round_word:
  "AES_REVERSE_ROUND_WORD rk a b c d =
     rk XOR inv_mix (AES_U32_LE (REVERSE_S_BOX ! unat (AES_BYTE0 a)) (REVERSE_S_BOX ! unat (AES_BYTE1 b))
                                (REVERSE_S_BOX ! unat (AES_BYTE2 c)) (REVERSE_S_BOX ! unat (AES_BYTE3 d)))"
  by (rule aes_word_eqI)
     (simp_all add: AES_REVERSE_ROUND_WORD_def table_entries Let_def inv_mix_def xor_ac_word)

lemma aes_rounds_eq:
  "aes_forward_round rk ki st = map (\<lambda>c. rk ! (ki + c) XOR mix (sub_shift st ! c)) [0..<4]"
  "aes_forward_final rk ki st = map (\<lambda>c. rk ! (ki + c) XOR sub_shift st ! c) [0..<4]"
  "aes_reverse_round rk ki st = map (\<lambda>c. rk ! (ki + c) XOR inv_mix (inv_sub_shift st ! c)) [0..<4]"
  "aes_reverse_final rk ki st = map (\<lambda>c. rk ! (ki + c) XOR inv_sub_shift st ! c) [0..<4]"
  by (simp_all add: aes_forward_round_def aes_forward_final_def aes_reverse_round_def aes_reverse_final_def
      forward_round_word reverse_round_word AES_FORWARD_FINAL_WORD_def AES_REVERSE_FINAL_WORD_def
      sub_shift_def inv_sub_shift_def)

subsection \<open>Key schedules\<close>

text \<open>A loop that stores \<open>f word\<close> at \<open>d + word\<close> for \<open>word < n\<close>.\<close>

lemma length_fold_update [simp]: "length (fold (\<lambda>w buf. buf[g w := f w buf]) ws buf) = length buf"
  by (induction ws arbitrary: buf) simp_all

lemma nth_fold_update:
  "j < length buf \<Longrightarrow>
   fold (\<lambda>w buf. buf[d + w := f w]) [0..<n] buf ! j =
     (if d \<le> j \<and> j < d + n then f (j - d) else buf ! j)"
  by (induction n) (auto simp: nth_list_update less_Suc_eq)

lemma setenckey_ok:
  assumes "keybits = 128 \<or> keybits = 192 \<or> keybits = 256"
  shows "fst (math_aes_setenckey ctx key keybits) = 0"
    and "number_of_rounds (snd (math_aes_setenckey ctx key keybits)) \<in> {10, 12, 14}"
    and "length (rk_buf (snd (math_aes_setenckey ctx key keybits))) = length (rk_buf ctx)"
  using assms by (auto simp: math_aes_setenckey_def Let_def simp del: upt_rec_numeral)

lemma next_word:
  assumes "4 + 4 * m \<le> i" "i < 8 + 4 * m"
  shows "(nr - Suc m) * 4 + i - (4 + 4 * m) = (nr - i div 4) * 4 + i mod (4 :: nat)"
proof -
  from assms obtain w where w: "i = w + 4 * Suc m" "w < 4"
    by (intro that [of "i - 4 * Suc m"]) auto
  then have "i div 4 = Suc m" "i mod 4 = w"
    using div_mult_self2 [of 4 w "Suc m"] mod_mult_self2 [of w 4 "Suc m"] by simp_all
  with w show ?thesis by simp
qed

lemma setdeckey_middle:
  assumes "m < nr" and "4 * nr + 4 \<le> length buf"
  shows "fold (\<lambda>round (di, buf). (di + 4, fold (\<lambda>word buf. buf[di + word :=
             AES_INV_MIX_KEY (ek ! (round * 4 + word))]) [0..<4] buf))
           (map (\<lambda>k. nr - k) [1..<Suc m]) (4, buf) =
         (4 + 4 * m, map (\<lambda>j. if 4 \<le> j \<and> j < 4 + 4 * m
                             then inv_mix (ek ! ((nr - j div 4) * 4 + j mod 4)) else buf ! j)
                        [0..<length buf])"
  using assms(1)
proof (induction m)
  case 0
  show ?case by (auto intro!: nth_equalityI)
next
  case (Suc m)
  have "map (\<lambda>k. nr - k) [1..<Suc (Suc m)] = map (\<lambda>k. nr - k) [1..<Suc m] @ [nr - Suc m]"
    by simp
  then show ?case
    using Suc.IH Suc.prems assms(2)
    by (auto simp: inv_mix_key nth_fold_update next_word intro!: nth_equalityI simp del: upt_Suc)
qed

lemma setdeckey_nth:
  fixes key :: bytes and keybits :: nat and ctx :: math_aes_context
  assumes kb: "keybits = 128 \<or> keybits = 192 \<or> keybits = 256" and len: "length (rk_buf ctx) = 68"
  defines "e \<equiv> snd (math_aes_setenckey math_aes_init key keybits)"
  defines "d \<equiv> snd (math_aes_setdeckey ctx key keybits)"
  defines "nr \<equiv> number_of_rounds e"
  shows "fst (math_aes_setdeckey ctx key keybits) = 0"
    and "number_of_rounds d = nr"
    and "c < 4 \<Longrightarrow> rk_buf d ! c = rk_buf e ! (4 * nr + c)"
    and "c < 4 \<Longrightarrow> 1 \<le> r \<Longrightarrow> r < nr \<Longrightarrow> rk_buf d ! (4 * r + c) = inv_mix (rk_buf e ! (4 * (nr - r) + c))"
    and "c < 4 \<Longrightarrow> rk_buf d ! (4 * nr + c) = rk_buf e ! c"
proof -
  obtain ret where e: "math_aes_setenckey math_aes_init key keybits = (ret, e)"
    by (metis e_def prod.collapse)
  with setenckey_ok [OF kb, of math_aes_init key] have ret: "ret = 0" and nr: "nr \<in> {10, 12, 14}"
    by (auto simp: nr_def)
  then obtain m where m: "nr = Suc m" "m < nr" "4 * nr + 4 \<le> 68" by auto
  have rounds: "rev [1..<nr] = map (\<lambda>k. nr - k) [1..<Suc m]"
    by (rule nth_equalityI) (auto simp: m rev_nth simp del: upt_Suc)
  let ?b = "fold (\<lambda>word buf. buf[word := rk_buf e ! (nr * 4 + word)]) [0..<4] (rk_buf ctx)"
  note b = nth_fold_update [where d = 0, simplified]
  have mid: "fold (\<lambda>round (di, buf). (di + 4, fold (\<lambda>word buf. buf[di + word :=
             AES_INV_MIX_KEY (rk_buf e ! (round * 4 + word))]) [0..<4] buf)) (rev [1..<nr]) (4, ?b) =
         (4 + 4 * m, map (\<lambda>j. if 4 \<le> j \<and> j < 4 + 4 * m
                             then inv_mix (rk_buf e ! ((nr - j div 4) * 4 + j mod 4)) else ?b ! j)
                        [0..<length ?b])"
    unfolding rounds by (rule setdeckey_middle) (use m len in simp_all)
  have d: "math_aes_setdeckey ctx key keybits =
     (0, ctx\<lparr>number_of_rounds := nr, rk_buf :=
           fold (\<lambda>word buf. buf[4 + 4 * m + word := rk_buf e ! word]) [0..<4]
             (map (\<lambda>j. if 4 \<le> j \<and> j < 4 + 4 * m
                       then inv_mix (rk_buf e ! ((nr - j div 4) * 4 + j mod 4)) else ?b ! j)
                  [0..<length ?b])\<rparr>)"
    unfolding math_aes_setdeckey_def e prod.case ret Let_def nr_def [symmetric] mid by simp
  show "fst (math_aes_setdeckey ctx key keybits) = 0" "number_of_rounds d = nr"
    by (simp_all add: d d_def)
  show "rk_buf d ! c = rk_buf e ! (4 * nr + c)" if "c < 4"
    using that m len by (simp add: d d_def nth_fold_update b mult.commute)
  show "rk_buf d ! (4 * r + c) = inv_mix (rk_buf e ! (4 * (nr - r) + c))" if "c < 4" "1 \<le> r" "r < nr"
    using that m len by (simp add: d d_def nth_fold_update b mult.commute)
  show "rk_buf d ! (4 * nr + c) = rk_buf e ! c" if "c < 4"
    using that m len by (simp add: d d_def nth_fold_update)
qed

subsection \<open>Cipher\<close>

text \<open>The state after the whitening and \<open>n\<close> table rounds of the encryption.\<close>

primrec enc_state :: "u32 list \<Rightarrow> u32 list \<Rightarrow> nat \<Rightarrow> u32 list" where
  "enc_state rk st 0 = st"
| "enc_state rk st (Suc n) = aes_forward_round rk (4 * Suc n) (enc_state rk st n)"

lemma length_rounds [simp]:
  "length (aes_forward_round rk k st) = 4" "length (aes_forward_final rk k st) = 4"
  "length (aes_reverse_round rk k st) = 4" "length (aes_reverse_final rk k st) = 4"
  by (simp_all add: aes_forward_round_def aes_forward_final_def aes_reverse_round_def
      aes_reverse_final_def)

lemma length_enc_state: "length st = 4 \<Longrightarrow> length (enc_state rk st n) = 4"
  by (induction n) simp_all

lemma fold_enc_state:
  "fold (\<lambda>_ (k, st). (k + 4, aes_forward_round rk k st)) [1..<Suc n] (4, st) = (4 * Suc n, enc_state rk st n)"
  by (induction n) simp_all

lemma nth_rounds:
  assumes "c < 4"
  shows "aes_forward_round rk k st ! c = rk ! (k + c) XOR mix (sub_shift st ! c)"
    and "aes_forward_final rk k st ! c = rk ! (k + c) XOR sub_shift st ! c"
    and "aes_reverse_round rk k st ! c = rk ! (k + c) XOR inv_mix (inv_sub_shift st ! c)"
    and "aes_reverse_final rk k st ! c = rk ! (k + c) XOR inv_sub_shift st ! c"
  using assms by (simp_all add: aes_rounds_eq del: upt_rec_numeral)

text \<open>
  \<open>inv_schedule ek dk nr\<close>: \<open>dk\<close> is the schedule of the equivalent inverse cipher for \<open>ek\<close>.
\<close>

definition inv_schedule :: "u32 list \<Rightarrow> u32 list \<Rightarrow> nat \<Rightarrow> bool" where
  "inv_schedule ek dk nr \<longleftrightarrow>
     (\<forall>c < 4. dk ! c = ek ! (4 * nr + c) \<and> dk ! (4 * nr + c) = ek ! c \<and>
        (\<forall>r \<in> {1..<nr}. dk ! (4 * r + c) = inv_mix (ek ! (4 * (nr - r) + c))))"

lemma reverse_undoes_round:
  assumes "inv_schedule ek dk nr" "1 \<le> r" "r < nr" "length st = 4"
  shows "aes_reverse_round dk (4 * r) (sub_shift (aes_forward_round ek (4 * (nr - r)) st)) = sub_shift st"
proof (rule nth_equalityI)
  fix c assume "c < length (aes_reverse_round dk (4 * r) (sub_shift (aes_forward_round ek (4 * (nr - r)) st)))"
  then have c: "c < 4" by simp
  have "dk ! (4 * r + c) = inv_mix (ek ! (4 * (nr - r) + c))"
    using assms c by (simp add: inv_schedule_def)
  then show "aes_reverse_round dk (4 * r) (sub_shift (aes_forward_round ek (4 * (nr - r)) st)) ! c =
      sub_shift st ! c"
    by (simp add: nth_rounds c inv_sub_shift_sub_shift inv_mix_xor)
qed simp

lemma fold_dec_state:
  assumes "inv_schedule ek dk nr" "length st = 4" "n < nr"
  shows "fold (\<lambda>_ (k, st). (k + 4, aes_reverse_round dk k st)) [1..<Suc n]
           (4, sub_shift (enc_state ek st (nr - 1))) =
         (4 * Suc n, sub_shift (enc_state ek st (nr - 1 - n)))"
  using assms(3)
proof (induction n)
  case (Suc n)
  have "nr - 1 - n = Suc (nr - 1 - Suc n)" "4 * Suc (nr - 1 - Suc n) = 4 * (nr - Suc n)"
    using Suc.prems by simp_all
  then have "aes_reverse_round dk (4 * Suc n) (sub_shift (enc_state ek st (nr - 1 - n))) =
      sub_shift (enc_state ek st (nr - 1 - Suc n))"
    using reverse_undoes_round [OF assms(1), of "Suc n"] Suc.prems assms(2)
    by (simp add: length_enc_state)
  with Suc show ?case by simp
qed simp

lemma get_put_block:
  "c < 4 \<Longrightarrow> length st = 4 \<Longrightarrow> AES_GET_LE32 (concat (map AES_PUT_LE32 st)) (c * 4) = st ! c"
  by (auto simp: length_Suc_conv eval_nat_numeral less_Suc_eq AES_GET_LE32_def AES_PUT_LE32_def)

lemma put_get_block:
  assumes "length b = 16"
  shows "concat (map (\<lambda>c. AES_PUT_LE32 (AES_GET_LE32 b (c * 4))) [0..<4]) = b"
  using assms
  by (auto simp: length_Suc_conv eval_nat_numeral AES_GET_LE32_def AES_PUT_LE32_def
      upt_rec)

lemma aes_inverse_schedules:
  assumes sch: "inv_schedule (rk_buf e) (rk_buf d) (number_of_rounds e)"
    and nr: "number_of_rounds d = number_of_rounds e" "0 < number_of_rounds e" and b: "length b = 16"
  shows "math_aes_decrypt d (snd (math_aes_encrypt e b)) = (0, b)"
proof -
  define ek dk nr where "ek = rk_buf e" and "dk = rk_buf d" and "nr = number_of_rounds e"
  obtain m where m: "nr = Suc m" using nr(2) gr0_implies_Suc unfolding nr_def by blast
  have rounds: "[1..<nr] = [1..<Suc m]" "number_of_rounds e = nr" "number_of_rounds d = nr"
    using nr m by (simp_all only: nr_def [symmetric])
  have s: "inv_schedule ek dk nr" using sch by (simp add: ek_def dk_def nr_def)
  define s0 where "s0 = map (\<lambda>c. AES_GET_LE32 b (c * 4) XOR ek ! c) [0..<4]"
  have l0: "length s0 = 4" by (simp add: s0_def)
  define f where "f = aes_forward_final ek (4 * nr) (enc_state ek s0 m)"
  have enc: "snd (math_aes_encrypt e b) = concat (map AES_PUT_LE32 f)"
    unfolding math_aes_encrypt_def Let_def rounds ek_def [symmetric] s0_def [symmetric]
      fold_enc_state prod.case f_def m
    by (simp del: upt_rec_numeral)
  have w: "map (\<lambda>c. AES_GET_LE32 (concat (map AES_PUT_LE32 f)) (c * 4) XOR dk ! c) [0..<4] =
      sub_shift (enc_state ek s0 (nr - 1))"
    using s by (intro nth_equalityI)
      (simp_all add: get_put_block f_def nth_rounds inv_schedule_def xor_ac_word m del: upt_rec_numeral)
  have fin: "aes_reverse_final dk (4 * nr) (sub_shift s0) = map (\<lambda>c. AES_GET_LE32 b (c * 4)) [0..<4]"
    using s l0 by (intro nth_equalityI)
      (simp_all add: nth_rounds inv_sub_shift_sub_shift inv_schedule_def s0_def xor_ac_word del: upt_rec_numeral)
  have "m < nr" by (simp add: m)
  note fold = fold_dec_state [OF s l0 this]
  show ?thesis
    unfolding enc math_aes_decrypt_def Let_def rounds dk_def [symmetric] w fold prod.case
    using fin b by (simp add: m put_get_block comp_def del: upt_rec_numeral upt_Suc)
qed

lemma length_put_le32 [simp]: "length (concat (map AES_PUT_LE32 st)) = 4 * length st"
  by (induction st) (simp_all add: AES_PUT_LE32_def)

lemma length_math_aes [simp]:
  "length (snd (math_aes_encrypt ctx b)) = 16" "length (snd (math_aes_decrypt ctx b)) = 16"
  by (simp_all only: math_aes_encrypt_def math_aes_decrypt_def Let_def split_beta snd_conv
      length_put_le32 length_rounds)

lemma fst_math_aes [simp]: "fst (math_aes_encrypt ctx b) = 0" "fst (math_aes_decrypt ctx b) = 0"
  by (simp_all add: math_aes_encrypt_def math_aes_decrypt_def Let_def split: prod.splits)

lemma aes_schedules_inverse:
  assumes kb: "keybits = 128 \<or> keybits = 192 \<or> keybits = 256"
    and len: "length (rk_buf ctx) = 68" "length b = 16"
  shows "math_aes_decrypt (snd (math_aes_setdeckey ctx key keybits))
           (snd (math_aes_encrypt (snd (math_aes_setenckey math_aes_init key keybits)) b)) = (0, b)"
proof (rule aes_inverse_schedules)
  let ?e = "snd (math_aes_setenckey math_aes_init key keybits)"
  let ?d = "snd (math_aes_setdeckey ctx key keybits)"
  note d = setdeckey_nth [OF kb len(1), where key = key]
  show "inv_schedule (rk_buf ?e) (rk_buf ?d) (number_of_rounds ?e)"
    using d by (simp add: inv_schedule_def)
  show "number_of_rounds ?d = number_of_rounds ?e" by (rule d)
  show "0 < number_of_rounds ?e"
    using setenckey_ok(2) [OF kb, of math_aes_init key] by auto
qed (rule len)

text \<open>
  C16. For every key of 128, 192 or 256 bits and every 16-byte block, \<open>math_aes_decrypt\<close> with the
  schedule that \<open>math_aes_setdeckey\<close> computes returns 0 and gives back the block that
  \<open>math_aes_encrypt\<close> encrypted with the schedule of \<open>math_aes_setenckey\<close>.
\<close>

theorem aes_decrypt_encrypt:
  assumes kb: "keybits = 128 \<or> keybits = 192 \<or> keybits = 256"
    and len: "length (rk_buf ctx) = 68" "length b = 16"
  shows "math_aes_decrypt (snd (math_aes_setdeckey ctx key keybits))
           (snd (math_aes_encrypt (snd (math_aes_setenckey math_aes_init key keybits)) b)) = (0, b)"
  by (rule aes_schedules_inverse [OF kb len])

theorem aes_decrypt_encrypt_witness:
  "math_aes_decrypt (snd (math_aes_setdeckey math_aes_init (replicate 32 7) 256))
     (snd (math_aes_encrypt (snd (math_aes_setenckey math_aes_init (replicate 32 7) 256)) (replicate 16 1))) =
   (0, replicate 16 1)"
  by (rule aes_decrypt_encrypt) (simp_all add: math_aes_init_def)

end
