(* ===== verification/Gcm.thy ===== *)
theory Gcm
  imports AesInverse Common
begin

text \<open>
  \<open>math/gcm.c\<close>: AES-GCM with 4-bit tables. The context is the record \<open>math_gcm_context\<close>; the fixed
  16-byte arrays and the tables are lists of length 16 (\<open>gcm_ok\<close>). The lengths passed beside the
  pointers \<open>iv\<close>, \<open>add\<close> and \<open>input\<close> are the lengths of the lists; \<open>output\<close> and \<open>tag\<close> are the
  contents of the caller's buffers, returned updated. The argument \<open>overlap\<close> of \<open>gcm_update\<close> is the
  outcome of its comparison of the two addresses: output starts inside the input, after its first
  byte.
\<close>

subsection \<open>Macros and tables\<close>

definition GCM_GET_BE32 :: "bytes \<Rightarrow> nat \<Rightarrow> u32" where
  "GCM_GET_BE32 B I =
     push_bit 24 (ucast (B ! (I + 0))) OR push_bit 16 (ucast (B ! (I + 1))) OR
     push_bit 8 (ucast (B ! (I + 2))) OR ucast (B ! (I + 3))"

definition GCM_PUT_BE32 :: "u32 \<Rightarrow> bytes" where
  "GCM_PUT_BE32 V = [ucast (drop_bit 24 V), ucast (drop_bit 16 V), ucast (drop_bit 8 V), ucast V]"

definition GCM_GET_BE64 :: "bytes \<Rightarrow> nat \<Rightarrow> u64" where
  "GCM_GET_BE64 B I = push_bit 32 (ucast (GCM_GET_BE32 B I)) OR ucast (GCM_GET_BE32 B (I + 4))"

definition GCM_PUT_BE64 :: "u64 \<Rightarrow> bytes" where
  "GCM_PUT_BE64 V = GCM_PUT_BE32 (ucast (drop_bit 32 V)) @ GCM_PUT_BE32 (ucast V)"

definition GCM_LO_NIBBLE :: "u8 \<Rightarrow> u8" where
  "GCM_LO_NIBBLE X = X AND 0x0F"

definition GCM_HI_NIBBLE :: "u8 \<Rightarrow> u8" where
  "GCM_HI_NIBBLE X = drop_bit 4 X"

definition gcm_last4 :: "u16 list" where
  "gcm_last4 = [
    0x0000, 0x1C20, 0x3840, 0x2460, 0x7080, 0x6CA0, 0x48C0, 0x54E0,
    0xE100, 0xFD20, 0xD940, 0xC560, 0x9180, 0x8DA0, 0xA9C0, 0xB5E0]"

text \<open>The macro reads the low nibble of the 64-bit \<open>ZL\<close>.\<close>

definition GCM_SHIFT4 :: "u64 \<times> u64 \<Rightarrow> u64 \<times> u64" where
  "GCM_SHIFT4 = (\<lambda>(ZH, ZL).
     let rem = (ucast (ZL AND 0x0F) :: u8);
         ZL = push_bit 60 ZH OR drop_bit 4 ZL;
         ZH = drop_bit 4 ZH;
         ZH = ZH XOR push_bit 48 (ucast (gcm_last4 ! unat rem))
     in (ZH, ZL))"

definition MATH_GCM_ENCRYPT :: int where "MATH_GCM_ENCRYPT = 1"

definition MATH_GCM_DECRYPT :: int where "MATH_GCM_DECRYPT = 0"

definition MATH_ERR_GCM_BAD_INPUT :: int where "MATH_ERR_GCM_BAD_INPUT = -1"

definition MATH_ERR_GCM_AUTH_FAILED :: int where "MATH_ERR_GCM_AUTH_FAILED = -2"

subsection \<open>Context\<close>

record math_gcm_context =
  gcm_aes_ctx :: math_aes_context
  HL :: "u64 list"
  HH :: "u64 list"
  gcm_len :: u64
  gcm_add_len :: u64
  base_ectr :: bytes
  gcm_y :: bytes
  gcm_buf :: bytes
  gcm_mode :: int

definition math_gcm_init :: math_gcm_context where
  "math_gcm_init = \<lparr>gcm_aes_ctx = math_aes_init, HL = replicate 16 0, HH = replicate 16 0,
     gcm_len = 0, gcm_add_len = 0, base_ectr = replicate 16 0, gcm_y = replicate 16 0,
     gcm_buf = replicate 16 0, gcm_mode = 0\<rparr>"

text \<open>\<open>math_gcm_free\<close> erases the whole context.\<close>

definition math_gcm_free :: "math_gcm_context \<Rightarrow> math_gcm_context" where
  "math_gcm_free ctx = math_gcm_init"

definition gcm_aes_encrypt_block :: "math_gcm_context \<Rightarrow> bytes \<Rightarrow> int \<times> bytes" where
  "gcm_aes_encrypt_block ctx input = math_aes_encrypt (gcm_aes_ctx ctx) input"

subsection \<open>Multiplication by the hash key\<close>

definition gcm_mult :: "math_gcm_context \<Rightarrow> bytes \<Rightarrow> bytes" where
  "gcm_mult ctx x =
     (let lo = GCM_LO_NIBBLE (x ! 15);
          (zh, zl) = fold (\<lambda>i (zh, zl).
             let lo = GCM_LO_NIBBLE (x ! i);
                 hi = GCM_HI_NIBBLE (x ! i);
                 (zh, zl) = (if i \<noteq> 15 then
                    let (zh, zl) = GCM_SHIFT4 (zh, zl) in
                    (zh XOR HH ctx ! unat lo, zl XOR HL ctx ! unat lo)
                    else (zh, zl));
                 (zh, zl) = GCM_SHIFT4 (zh, zl)
             in (zh XOR HH ctx ! unat hi, zl XOR HL ctx ! unat hi))
           (rev [0..<16]) (HH ctx ! unat lo, HL ctx ! unat lo)
      in GCM_PUT_BE64 zh @ GCM_PUT_BE64 zl)"

text \<open>The loop of \<open>gcm_increment_counter\<close>: \<open>i\<close> runs down from 16 to 13.\<close>

fun gcm_increment_loop :: "nat list \<Rightarrow> bytes \<Rightarrow> bytes" where
  "gcm_increment_loop [] counter = counter"
| "gcm_increment_loop (i # is) counter =
     (let counter = counter[i - 1 := counter ! (i - 1) + 1] in
      if counter ! (i - 1) \<noteq> 0 then counter else gcm_increment_loop is counter)"

definition gcm_increment_counter :: "bytes \<Rightarrow> bytes" where
  "gcm_increment_counter counter = gcm_increment_loop [16, 15, 14, 13] counter"

subsection \<open>Key\<close>

text \<open>The body of the first loop of \<open>math_gcm_setkey\<close>, and that of its second loop.\<close>

definition gcm_setkey_shift :: "u64 \<times> u64 \<Rightarrow> u64 \<times> u64" where
  "gcm_setkey_shift = (\<lambda>(vh, vl).
     let reduction = (ucast (vl AND 1) :: u32) * 0xE1000000;
         vl = push_bit 63 vh OR drop_bit 1 vl;
         vh = drop_bit 1 vh XOR push_bit 32 (ucast reduction)
     in (vh, vl))"

definition gcm_setkey_row :: "nat \<Rightarrow> u64 list \<times> u64 list \<Rightarrow> u64 list \<times> u64 list" where
  "gcm_setkey_row i = (\<lambda>(hh, hl).
     let vh = hh ! i; vl = hl ! i in
     fold (\<lambda>j (hh, hl). (hh[i + j := vh XOR hh ! j], hl[i + j := vl XOR hl ! j])) [1..<i] (hh, hl))"

definition math_gcm_setkey :: "math_gcm_context \<Rightarrow> bytes \<Rightarrow> nat \<Rightarrow> int \<times> math_gcm_context" where
  "math_gcm_setkey ctx key keybits =
     (if keybits \<noteq> 128 \<and> keybits \<noteq> 192 \<and> keybits \<noteq> 256 then (MATH_ERR_GCM_BAD_INPUT, ctx)
      else
        let (ret, aes) = math_aes_setenckey math_aes_init key keybits;
            ctx = ctx\<lparr>gcm_aes_ctx := aes\<rparr>
        in if ret \<noteq> 0 then (ret, ctx)
           else
             let (ret, h) = gcm_aes_encrypt_block ctx (replicate 16 0) in
             if ret \<noteq> 0 then (ret, ctx)
             else
               let vh = GCM_GET_BE64 h 0;
                   vl = GCM_GET_BE64 h 8;
                   hh = (HH ctx)[8 := vh, 0 := 0];
                   hl = (HL ctx)[8 := vl, 0 := 0];
                   (v, hh, hl) = fold (\<lambda>i (v, hh, hl).
                      let (vh, vl) = gcm_setkey_shift v in ((vh, vl), hh[i := vh], hl[i := vl]))
                      [4, 2, 1] ((vh, vl), hh, hl);
                   (hh, hl) = fold gcm_setkey_row [2, 4, 8] (hh, hl)
               in (0, ctx\<lparr>HL := hl, HH := hh\<rparr>))"

subsection \<open>Start\<close>

text \<open>The loop over an initialization vector that is not 12 bytes long.\<close>

function gcm_iv_loop :: "math_gcm_context \<Rightarrow> bytes \<Rightarrow> math_gcm_context" where
  "gcm_iv_loop ctx p =
     (if p = [] then ctx
      else
        let use_len = (if length p < 16 then length p else 16);
            ctx = ctx\<lparr>gcm_y := arr_xor (gcm_y ctx) (take use_len p)\<rparr>;
            ctx = ctx\<lparr>gcm_y := gcm_mult ctx (gcm_y ctx)\<rparr>
        in gcm_iv_loop ctx (drop use_len p))"
  by pat_completeness auto
termination by (relation "measure (\<lambda>(ctx, p). length p)") auto

declare gcm_iv_loop.simps [simp del]

text \<open>The loop over the additional data.\<close>

function gcm_aad_loop :: "math_gcm_context \<Rightarrow> bytes \<Rightarrow> math_gcm_context" where
  "gcm_aad_loop ctx p =
     (if p = [] then ctx
      else
        let use_len = (if length p < 16 then length p else 16);
            ctx = ctx\<lparr>gcm_buf := arr_xor (gcm_buf ctx) (take use_len p)\<rparr>;
            ctx = (if use_len = 16 then ctx\<lparr>gcm_buf := gcm_mult ctx (gcm_buf ctx)\<rparr> else ctx)
        in gcm_aad_loop ctx (drop use_len p))"
  by pat_completeness auto
termination by (relation "measure (\<lambda>(ctx, p). length p)") auto

declare gcm_aad_loop.simps [simp del]

definition gcm_starts :: "math_gcm_context \<Rightarrow> int \<Rightarrow> bytes \<Rightarrow> bytes \<Rightarrow> int \<times> math_gcm_context" where
  "gcm_starts ctx mode iv add =
     (if mode \<noteq> MATH_GCM_ENCRYPT \<and> mode \<noteq> MATH_GCM_DECRYPT then (MATH_ERR_GCM_BAD_INPUT, ctx)
      else if length iv = 0 \<or> length iv div 2 ^ 61 \<noteq> 0 \<or> length add div 2 ^ 61 \<noteq> 0
      then (MATH_ERR_GCM_BAD_INPUT, ctx)
      else
        let ctx = ctx\<lparr>gcm_y := replicate 16 0, gcm_buf := replicate 16 0, gcm_mode := mode,
                      gcm_len := 0, gcm_add_len := of_nat (length add)\<rparr>;
            ctx = (if length iv = 12 then
                     ctx\<lparr>gcm_y := (arr_put (gcm_y ctx) iv)[15 := 1]\<rparr>
                   else
                     let tmp = replicate 8 0 @ GCM_PUT_BE64 (of_nat (length iv) * 8);
                         ctx = gcm_iv_loop ctx iv;
                         ctx = ctx\<lparr>gcm_y := arr_xor (gcm_y ctx) tmp\<rparr>
                     in ctx\<lparr>gcm_y := gcm_mult ctx (gcm_y ctx)\<rparr>);
            (ret, ectr) = gcm_aes_encrypt_block ctx (gcm_y ctx);
            ctx = ctx\<lparr>base_ectr := ectr\<rparr>
        in if ret \<noteq> 0 then (ret, ctx)
           else
             let ctx = gcm_aad_loop ctx add in
             (0, if unat (gcm_add_len ctx) mod 16 \<noteq> 0
                 then ctx\<lparr>gcm_buf := gcm_mult ctx (gcm_buf ctx)\<rparr> else ctx))"

subsection \<open>Payload\<close>

text \<open>
  The loop of \<open>gcm_update\<close>: the result is the return code, the context and the bytes written at
  \<open>out_p\<close>.
\<close>

function gcm_update_loop :: "math_gcm_context \<Rightarrow> bytes \<Rightarrow> int \<times> math_gcm_context \<times> bytes" where
  "gcm_update_loop ctx p =
     (if p = [] then (0, ctx, [])
      else
        let use_len = (if length p < 16 then length p else 16);
            ctx = ctx\<lparr>gcm_y := gcm_increment_counter (gcm_y ctx)\<rparr>;
            (ret, ectr) = gcm_aes_encrypt_block ctx (gcm_y ctx)
        in if ret \<noteq> 0 then (ret, ctx, [])
           else
             let ctx = (if gcm_mode ctx = MATH_GCM_DECRYPT
                        then ctx\<lparr>gcm_buf := arr_xor (gcm_buf ctx) (take use_len p)\<rparr> else ctx);
                 out_p = xor_bytes (take use_len ectr) (take use_len p);
                 ctx = (if gcm_mode ctx = MATH_GCM_ENCRYPT
                        then ctx\<lparr>gcm_buf := arr_xor (gcm_buf ctx) out_p\<rparr> else ctx);
                 ctx = (if use_len = 16 then ctx\<lparr>gcm_buf := gcm_mult ctx (gcm_buf ctx)\<rparr> else ctx);
                 ctx = ctx\<lparr>gcm_len := gcm_len ctx + of_nat use_len\<rparr>;
                 (ret, ctx, rest) = gcm_update_loop ctx (drop use_len p)
             in (ret, ctx, out_p @ rest))"
  by pat_completeness auto
termination by (relation "measure (\<lambda>(ctx, p). length p)") auto

declare gcm_update_loop.simps [simp del]

definition gcm_update ::
  "bool \<Rightarrow> math_gcm_context \<Rightarrow> bytes \<Rightarrow> bytes \<Rightarrow> int \<times> math_gcm_context \<times> bytes" where
  "gcm_update overlap ctx input output =
     (if length input \<noteq> 0 \<and> overlap then (MATH_ERR_GCM_BAD_INPUT, ctx, output)
      else if gcm_len ctx + of_nat (length input) < gcm_len ctx \<or>
              gcm_len ctx + of_nat (length input) > 0xFFFFFFFE0
      then (MATH_ERR_GCM_BAD_INPUT, ctx, output)
      else
        let (ret, ctx, out) = gcm_update_loop ctx input in (ret, ctx, arr_put output out))"

subsection \<open>Tag\<close>

definition gcm_finish :: "math_gcm_context \<Rightarrow> bytes \<Rightarrow> nat \<Rightarrow> int \<times> math_gcm_context \<times> bytes" where
  "gcm_finish ctx tag tag_len =
     (if tag_len > 16 \<or> tag_len < 4 then (MATH_ERR_GCM_BAD_INPUT, ctx, tag)
      else
        let data_bits = gcm_len ctx * 8;
            add_bits = gcm_add_len ctx * 8;
            ctx = (if unat (gcm_len ctx) mod 16 \<noteq> 0
                   then ctx\<lparr>gcm_buf := gcm_mult ctx (gcm_buf ctx)\<rparr> else ctx);
            tag = arr_put tag (take tag_len (base_ectr ctx));
            tmp = GCM_PUT_BE64 add_bits @ GCM_PUT_BE64 data_bits;
            ctx = ctx\<lparr>gcm_buf := arr_xor (gcm_buf ctx) tmp\<rparr>;
            ctx = ctx\<lparr>gcm_buf := gcm_mult ctx (gcm_buf ctx)\<rparr>
        in (0, ctx, arr_xor tag (take tag_len (gcm_buf ctx))))"

subsection \<open>Entry points\<close>

text \<open>The results are the return code, the context, the output buffer and, first, the tag.\<close>

definition math_gcm_crypt_and_tag ::
  "bool \<Rightarrow> math_gcm_context \<Rightarrow> int \<Rightarrow> bytes \<Rightarrow> bytes \<Rightarrow> bytes \<Rightarrow> bytes \<Rightarrow> nat \<Rightarrow> bytes \<Rightarrow>
   int \<times> math_gcm_context \<times> bytes \<times> bytes" where
  "math_gcm_crypt_and_tag overlap ctx mode iv add input output tag_len tag =
     (let (ret, ctx) = gcm_starts ctx mode iv add in
      if ret \<noteq> 0 then (ret, ctx, output, tag)
      else
        let (ret, ctx, output) = gcm_update overlap ctx input output in
        if ret \<noteq> 0 then (ret, ctx, output, tag)
        else
          let (ret, ctx, tag) = gcm_finish ctx tag tag_len in (ret, ctx, output, tag))"

definition math_gcm_auth_decrypt ::
  "bool \<Rightarrow> math_gcm_context \<Rightarrow> bytes \<Rightarrow> bytes \<Rightarrow> bytes \<Rightarrow> nat \<Rightarrow> bytes \<Rightarrow> bytes \<Rightarrow>
   int \<times> math_gcm_context \<times> bytes" where
  "math_gcm_auth_decrypt overlap ctx iv add tag tag_len input output =
     (let (ret, ctx, output, check_tag) =
            math_gcm_crypt_and_tag overlap ctx MATH_GCM_DECRYPT iv add input output tag_len (replicate 16 0)
      in if ret \<noteq> 0 then (ret, ctx, output)
         else
           let diff = fold (\<lambda>i diff. diff OR uint (tag ! i XOR check_tag ! i)) [0..<tag_len] (0 :: int)
           in if diff \<noteq> 0 then (MATH_ERR_GCM_AUTH_FAILED, ctx, macsec_zeroize output (length input))
              else (0, ctx, output))"

end
