(* ===== verification/GcmSpec.thy ===== *)
theory GcmSpec
  imports Gcm
begin

text \<open>
  AES-GCM as NIST SP 800-38D states it, and the proof that \<open>math/gcm.c\<close> computes it: the 4-bit
  tables give the bit-serial product of GF(2^128) (\<open>gcm_mult_eq\<close>), the counter increment is addition
  modulo 2^32 (\<open>gcm_increment_counter_eq\<close>), and \<open>math_gcm_crypt_and_tag\<close> is counter mode with a
  GHASH over the padded data (\<open>gcm_crypt_spec\<close>). The round trip follows from the specification.
\<close>

subsection \<open>Multiplication in GF(2^128), bit by bit\<close>

text \<open>
  A block is a 128-bit word, its most significant bit first. \<open>gf_mulx\<close> multiplies by the
  indeterminate; \<open>gf_mult\<close> is the bit-serial algorithm of NIST SP 800-38D: \<open>z\<close> collects the
  multiples \<open>v\<close> selected by the bits of the block.
\<close>

type_synonym u128 = "128 word"

definition gf_mulx :: "u128 \<Rightarrow> u128" where
  "gf_mulx v = drop_bit 1 v XOR (if bit v 0 then push_bit 120 0xE1 else 0)"

definition gf_mult :: "bool list \<Rightarrow> u128 \<Rightarrow> u128" where
  "gf_mult x h = fst (fold (\<lambda>b (z, v). (if b then z XOR v else z, gf_mulx v)) x (0, h))"

definition byte_bits :: "u8 \<Rightarrow> bool list" where
  "byte_bits b = [bit b 7, bit b 6, bit b 5, bit b 4, bit b 3, bit b 2, bit b 1, bit b 0]"

definition w128 :: "u64 \<times> u64 \<Rightarrow> u128" where
  "w128 = (\<lambda>(zh, zl). push_bit 64 (ucast zh) OR ucast zl)"

lemma gf_mulx_xor: "gf_mulx (v XOR w) = gf_mulx v XOR gf_mulx w"
  by (auto simp: gf_mulx_def bit_simps xor.assoc xor.left_commute xor.commute)

lemma gf_mulx_0 [simp]: "gf_mulx 0 = 0"
  by (simp add: gf_mulx_def)

lemma gf_mulx_pow_xor: "(gf_mulx ^^ n) (v XOR w) = (gf_mulx ^^ n) v XOR (gf_mulx ^^ n) w"
  by (induction n) (simp_all add: gf_mulx_xor)

text \<open>The same sum by Horner's rule.\<close>

primrec gf_horner :: "bool list \<Rightarrow> u128 \<Rightarrow> u128" where
  "gf_horner [] h = 0"
| "gf_horner (b # bs) h = (if b then h else 0) XOR gf_mulx (gf_horner bs h)"

lemma gf_horner_mulx: "gf_horner bs (gf_mulx h) = gf_mulx (gf_horner bs h)"
  by (induction bs) (simp_all add: gf_mulx_xor)

lemma gf_mult_horner: "gf_mult x h = gf_horner x h"
proof -
  have "fst (fold (\<lambda>b (z, v). (if b then z XOR v else z, gf_mulx v)) x (z, h)) = z XOR gf_horner x h" for z
    by (induction x arbitrary: z h) (simp_all add: gf_horner_mulx xor.assoc)
  from this [of 0] show ?thesis by (simp add: gf_mult_def)
qed

subsection \<open>The table steps\<close>

lemma w128_xor: "w128 (a XOR c, b XOR d) = w128 (a, b) XOR w128 (c, d)"
  by (rule bit_word_eqI) (auto simp: w128_def bit_simps dest: bit_imp_le_length)

lemma w128_0 [simp]: "w128 (0, 0) = 0"
  by (simp add: w128_def)

lemma bit_w128: "bit (w128 (zh, zl)) n = (if n < 64 then bit zl n else bit zh (n - 64))"
  by (auto simp: w128_def bit_simps dest: bit_imp_le_length)

lemma drop_push_drop: "drop_bit m (push_bit m (drop_bit m w)) = drop_bit m (w :: 'a::len word)"
proof (rule bit_word_eqI)
  fix n
  show "bit (drop_bit m (push_bit m (drop_bit m w))) n = bit (drop_bit m w) n"
    using bit_imp_le_length [of w "m + n"] by (auto simp: bit_simps)
qed

lemma gf_mulx_high: "(\<And>k. k < n \<Longrightarrow> \<not> bit v k) \<Longrightarrow> (gf_mulx ^^ n) v = drop_bit n v"
  by (induction n) (auto simp: gf_mulx_def bit_simps)

lemma gf_mulx_low_list:
  "map (\<lambda>r. gf_mulx (gf_mulx (gf_mulx (gf_mulx (of_nat r))))) [0, 1, 2, 3, 4, 5, 6, 7, 8, 9, 10, 11, 12, 13, 14, 15] =
   map (\<lambda>t. push_bit 112 (ucast t)) gcm_last4"
  by (simp add: gcm_last4_def gf_mulx_def)

lemma gf_mulx_low:
  assumes "r < 16"
  shows "(gf_mulx ^^ 4) (of_nat r) = push_bit 112 (ucast (gcm_last4 ! r))"
proof -
  have l: "[0, 1, 2, 3, 4, 5, 6, 7, 8, 9, 10, 11, 12, 13, 14, 15] = [0..<16]"
    by (simp add: upt_rec_numeral upt_conv_Cons)
  have "length gcm_last4 = 16" by (simp add: gcm_last4_def)
  with assms show ?thesis
    using arg_cong [OF gf_mulx_low_list [unfolded l], of "\<lambda>xs. xs ! r"]
    by (simp add: eval_nat_numeral del: upt_rec_numeral upt_Suc)
qed

lemma and_15: "v AND 15 = take_bit 4 (v :: 'a::len word)"
  by (simp add: take_bit_eq_mask mask_eq_exp_minus_1)

lemma gcm_shift4: "w128 (GCM_SHIFT4 (zh, zl)) = (gf_mulx ^^ 4) (w128 (zh, zl))"
proof -
  define w r where "w = w128 (zh, zl)" and "r = take_bit 4 (unat zl)"
  have r: "r < 16" unfolding r_def using take_bit_nat_less_exp [of 4] by simp
  have r': "unat (ucast (zl AND 15) :: u8) = r"
    by (rule bit_eqI) (auto simp: and_15 r_def bit_simps dest: bit_imp_le_length)
  have low: "w AND 15 = of_nat r"
    by (rule bit_word_eqI) (auto simp: and_15 bit_w128 w_def r_def bit_simps)
  have "w = (push_bit 4 (drop_bit 4 w)) XOR (w AND 15)"
    by (rule bit_word_eqI) (auto simp: and_15 bit_simps)
  then have "(gf_mulx ^^ 4) w = (gf_mulx ^^ 4) (push_bit 4 (drop_bit 4 w)) XOR push_bit 112 (ucast (gcm_last4 ! r))"
    by (metis gf_mulx_pow_xor gf_mulx_low r low)
  also have "(gf_mulx ^^ 4) (push_bit 4 (drop_bit 4 w)) = drop_bit 4 w"
    by (subst gf_mulx_high) (auto simp: bit_simps drop_push_drop)
  also have "drop_bit 4 w XOR push_bit 112 (ucast (gcm_last4 ! r)) = w128 (GCM_SHIFT4 (zh, zl))"
    unfolding w_def GCM_SHIFT4_def Let_def prod.case r'
    by (rule bit_word_eqI) (auto simp: bit_w128 bit_simps not_less dest: bit_imp_le_length)
  finally show ?thesis by (simp add: w_def)
qed

lemma suc_minus_64: "64 \<le> n \<Longrightarrow> Suc (n - 64) = n - 63"
  by arith

lemma drop_bit_w128:
  "w128 (drop_bit 1 vh, push_bit 63 vh OR drop_bit 1 vl) = drop_bit 1 (w128 (vh, vl))"
  by (rule bit_word_eqI)
     (auto simp: bit_w128 bit_simps not_less suc_minus_64 dest: bit_imp_le_length)

lemma gcm_table_step:
  "w128 (drop_bit 1 vh XOR push_bit 32 (ucast ((ucast (vl AND 1) :: u32) * 0xE1000000)),
         push_bit 63 vh OR drop_bit 1 vl) = gf_mulx (w128 (vh, vl))"
proof -
  have one: "vl AND 1 = (if bit vl 0 then 1 else 0)"
    by (auto intro!: bit_word_eqI simp: bit_simps bit_1_iff)
  have red: "push_bit 32 (ucast ((ucast (vl AND 1) :: u32) * 0xE1000000)) =
      (if bit vl 0 then 0xE100000000000000 else 0 :: u64)"
    by (simp add: one)
  have "w128 (0xE100000000000000, 0) = push_bit 120 0xE1"
    by (simp add: w128_def)
  moreover have "bit (w128 (vh, vl)) 0 = bit vl 0"
    by (simp add: bit_w128)
  ultimately show ?thesis
    using w128_xor [of "drop_bit 1 vh" "0xE100000000000000" "push_bit 63 vh OR drop_bit 1 vl" 0]
    by (simp add: red gf_mulx_def drop_bit_w128 [simplified] del: push_bit_numeral)
qed

text \<open>The entry of the two tables for a nibble.\<close>

definition gcm_entry :: "math_gcm_context \<Rightarrow> nat \<Rightarrow> u128" where
  "gcm_entry ctx n = w128 (HH ctx ! n, HL ctx ! n)"

text \<open>\<open>gcm_tables ctx h\<close>: the tables hold the multiples of \<open>h\<close> by the sixteen nibbles.\<close>

definition gcm_tables :: "math_gcm_context \<Rightarrow> u128 \<Rightarrow> bool" where
  "gcm_tables ctx h \<longleftrightarrow> length (HH ctx) = 16 \<and> length (HL ctx) = 16 \<and>
     (\<forall>n < 16. gcm_entry ctx n = gf_horner [bit n 3, bit n 2, bit n 1, bit n 0] h)"

lemma w128_shift: "w128 (gcm_setkey_shift v) = gf_mulx (w128 v)"
  using gcm_table_step by (simp add: gcm_setkey_shift_def Let_def split_beta)

lemma setkey_row:
  assumes "k \<le> i" "i + k \<le> length hh" "length hl = length hh" "0 < k"
  shows "fold (\<lambda>j (hh, hl). (hh[i + j := vh XOR hh ! j], hl[i + j := vl XOR hl ! j])) [1..<k] (hh, hl) =
    (map (\<lambda>m. if i < m \<and> m < i + k then vh XOR hh ! (m - i) else hh ! m) [0..<length hh],
     map (\<lambda>m. if i < m \<and> m < i + k then vl XOR hl ! (m - i) else hl ! m) [0..<length hh])"
  using assms(4,1,2,3)
proof (induction k rule: nat_induct_non_zero)
  case 1
  then show ?case by (auto intro!: nth_equalityI)
next
  case (Suc k)
  then show ?case
    by (auto simp: nth_list_update less_Suc_eq intro!: nth_equalityI)
qed

lemma setkey_row_entry:
  assumes "0 < i" "i + i \<le> 16" "length hh = 16" "length hl = 16"
  shows "length (fst (gcm_setkey_row i (hh, hl))) = 16" "length (snd (gcm_setkey_row i (hh, hl))) = 16"
    and "n < 16 \<Longrightarrow> w128 (fst (gcm_setkey_row i (hh, hl)) ! n, snd (gcm_setkey_row i (hh, hl)) ! n) =
        (if i < n \<and> n < i + i then w128 (hh ! i, hl ! i) XOR w128 (hh ! (n - i), hl ! (n - i))
         else w128 (hh ! n, hl ! n))"
  using assms setkey_row [of i i hh hl "hh ! i" "hl ! i"]
  by (auto simp: gcm_setkey_row_def Let_def w128_xor simp del: upt_rec_numeral)

lemma nibble_cases:
  "(n :: nat) < 16 \<Longrightarrow> n \<in> {0, 1, 2, 3, 4, 5, 6, 7, 8, 9, 10, 11, 12, 13, 14, 15}"
  by simp arith

lemma setkey_sums:
  assumes "length hh = 16" "length hl = 16" "hh ! 0 = 0" "hl ! 0 = 0" "n < 16"
  defines "r \<equiv> fold gcm_setkey_row [2, 4, 8] (hh, hl)"
  shows "length (fst r) = 16 \<and> length (snd r) = 16 \<and>
     w128 (fst r ! n, snd r ! n) =
        (if bit n 3 then w128 (hh ! 8, hl ! 8) else 0) XOR (if bit n 2 then w128 (hh ! 4, hl ! 4) else 0) XOR
        (if bit n 1 then w128 (hh ! 2, hl ! 2) else 0) XOR (if bit n 0 then w128 (hh ! 1, hl ! 1) else 0)"
proof -
  obtain h2 l2 where r2: "gcm_setkey_row 2 (hh, hl) = (h2, l2)" by fastforce
  obtain h4 l4 where r4: "gcm_setkey_row 4 (h2, l2) = (h4, l4)" by fastforce
  obtain h8 l8 where r8: "gcm_setkey_row 8 (h4, l4) = (h8, l8)" by fastforce
  have r: "r = (h8, l8)" by (simp only: r_def fold_simps comp_def id_def r2 r4 r8)
  note e2 = setkey_row_entry [of 2 hh hl, unfolded r2 fst_conv snd_conv]
  note e4 = setkey_row_entry [of 4 h2 l2, unfolded r4 fst_conv snd_conv]
  note e8 = setkey_row_entry [of 8 h4 l4, unfolded r8 fst_conv snd_conv]
  have l: "length h2 = 16" "length l2 = 16" "length h4 = 16" "length l4 = 16" "length h8 = 16" "length l8 = 16"
    using assms e2 e4 e8 by simp_all
  from nibble_cases [OF assms(5)] show ?thesis
    using assms(1-4) by (auto simp: r l e2 e4 e8 xor_ac_word bit_Suc_0_iff)
qed

text \<open>The 128-bit word of a block.\<close>

definition block128 :: "bytes \<Rightarrow> u128" where
  "block128 b = w128 (GCM_GET_BE64 b 0, GCM_GET_BE64 b 8)"

lemma math_aes_setenckey_ok:
  "keybits \<in> {128, 192, 256} \<Longrightarrow>
   math_aes_setenckey ctx key keybits = (0, snd (math_aes_setenckey ctx key keybits))"
  using setenckey_ok(1) [of keybits ctx key] by (auto simp: prod_eq_iff)

lemma math_aes_encrypt_ok: "math_aes_encrypt ctx b = (0, snd (math_aes_encrypt ctx b))"
  by (simp add: prod_eq_iff)

lemma gcm_setkey_tables:
  fixes key :: bytes and keybits :: nat and ctx :: math_gcm_context
  assumes kb: "keybits \<in> {128, 192, 256}" and len: "length (HH ctx) = 16" "length (HL ctx) = 16"
  defines "e \<equiv> snd (math_aes_setenckey math_aes_init key keybits)"
  shows "\<exists>hh hl. math_gcm_setkey ctx key keybits = (0, ctx\<lparr>gcm_aes_ctx := e, HL := hl, HH := hh\<rparr>) \<and>
           gcm_tables (ctx\<lparr>gcm_aes_ctx := e, HL := hl, HH := hh\<rparr>)
                      (block128 (snd (math_aes_encrypt e (replicate 16 0))))"
proof -
  define b where "b = snd (math_aes_encrypt e (replicate 16 0))"
  have enc: "math_aes_encrypt e (replicate 16 0) = (0, b)" by (simp add: b_def prod_eq_iff)
  define v8 where "v8 = (GCM_GET_BE64 b 0, GCM_GET_BE64 b 8)"
  let ?v4 = "gcm_setkey_shift v8"
  let ?v2 = "gcm_setkey_shift ?v4"
  let ?v1 = "gcm_setkey_shift ?v2"
  let ?hh = "(HH ctx)[8 := fst v8, 0 := 0, 4 := fst ?v4, 2 := fst ?v2, 1 := fst ?v1]"
  let ?hl = "(HL ctx)[8 := snd v8, 0 := 0, 4 := snd ?v4, 2 := snd ?v2, 1 := snd ?v1]"
  obtain hh hl where r: "fold gcm_setkey_row [2, 4, 8] (?hh, ?hl) = (hh, hl)" by fastforce
  have "fold (\<lambda>i (v, hh, hl).
                      let (vh, vl) = gcm_setkey_shift v in ((vh, vl), hh[i := vh], hl[i := vl]))
          [4, 2, 1] (v8, (HH ctx)[8 := fst v8, 0 := 0], (HL ctx)[8 := snd v8, 0 := 0]) =
        (?v1, ?hh, ?hl)"
    by (simp add: split_beta)
  moreover have "GCM_GET_BE64 b 0 = fst v8" "GCM_GET_BE64 b 8 = snd v8" by (simp_all add: v8_def)
  moreover have "(keybits \<noteq> 128 \<and> keybits \<noteq> 192 \<and> keybits \<noteq> 256) = False" using kb by auto
  ultimately have sk: "math_gcm_setkey ctx key keybits = (0, ctx\<lparr>gcm_aes_ctx := e, HL := hl, HH := hh\<rparr>)"
    using r math_aes_setenckey_ok [OF kb, of math_aes_init key]
    by (auto simp: math_gcm_setkey_def Let_def gcm_aes_encrypt_block_def e_def [symmetric] enc
          split_beta)
  let ?ctx = "ctx\<lparr>gcm_aes_ctx := e, HL := hl, HH := hh\<rparr>"
  have w: "w128 (fst v8, snd v8) = block128 b" by (simp add: block128_def v8_def)
  have sums: "length hh = 16 \<and> length hl = 16 \<and>
     w128 (hh ! n, hl ! n) =
        (if bit n 3 then w128 v8 else 0) XOR (if bit n 2 then w128 ?v4 else 0) XOR
        (if bit n 1 then w128 ?v2 else 0) XOR (if bit n 0 then w128 ?v1 else 0)" if "n < 16" for n
    using setkey_sums [of ?hh ?hl n] len that unfolding r by simp
  have "length hh = 16" "length hl = 16" using sums [of 0] by simp_all
  moreover have "gcm_entry ?ctx n = gf_horner [bit n 3, bit n 2, bit n 1, bit n 0] (block128 b)" if "n < 16" for n
    using sums [OF that] w by (simp add: gcm_entry_def w128_shift gf_mulx_xor xor.assoc if_distrib [of gf_mulx])
  ultimately have "gcm_tables ?ctx (block128 b)"
    by (simp add: gcm_tables_def)
  with sk show ?thesis unfolding b_def by blast
qed

subsection \<open>The table-driven product\<close>

lemma widen_or: "push_bit 32 (ucast (v OR w :: u32)) = push_bit 32 (ucast v :: u64) OR push_bit 32 (ucast w)"
  by (rule bit_word_eqI) (auto simp: bit_simps)

lemma widen_byte:
  "push_bit 32 (ucast (push_bit 24 (ucast (b :: u8)) :: u32) :: u64) = push_bit 56 (ucast b)"
  "push_bit 32 (ucast (push_bit 16 (ucast (b :: u8)) :: u32) :: u64) = push_bit 48 (ucast b)"
  "push_bit 32 (ucast (push_bit 8 (ucast (b :: u8)) :: u32) :: u64) = push_bit 40 (ucast b)"
  "push_bit 32 (ucast (ucast (b :: u8) :: u32) :: u64) = push_bit 32 (ucast b)"
  "(ucast (push_bit 24 (ucast (b :: u8)) :: u32) :: u64) = push_bit 24 (ucast b)"
  "(ucast (push_bit 16 (ucast (b :: u8)) :: u32) :: u64) = push_bit 16 (ucast b)"
  "(ucast (push_bit 8 (ucast (b :: u8)) :: u32) :: u64) = push_bit 8 (ucast b)"
  "(ucast (ucast (b :: u8) :: u32) :: u64) = ucast b"
  by (auto intro!: bit_word_eqI simp: bit_simps dest: bit_imp_le_length)
     (rule ccontr, simp add: byte_bit_bound not_less)+

lemma widen_or': "(ucast (v OR w :: u32) :: u64) = ucast v OR ucast w"
  by (rule bit_word_eqI) (auto simp: bit_simps)

lemma gcm_get_be64: "i + 8 \<le> length B \<Longrightarrow> GCM_GET_BE64 B i = macsec_rd_be64 (take 8 (drop i B))"
  by (simp add: GCM_GET_BE64_def GCM_GET_BE32_def macsec_rd_be64_def widen_or widen_or' widen_byte or.assoc
      ac_simps)

lemma gcm_put_be64: "GCM_PUT_BE64 v = macsec_wr_be64 v"
  by (auto simp: GCM_PUT_BE64_def GCM_PUT_BE32_def macsec_wr_be64_def intro!: bit_word_eqI
      simp: bit_simps)

lemma w128_get_put: "block128 (GCM_PUT_BE64 zh @ GCM_PUT_BE64 zl) = w128 (zh, zl)"
  by (simp add: block128_def gcm_get_be64 gcm_put_be64)

lemma gf_horner_append4:
  "gf_horner ([a, b, c, d] @ bs) h = gf_horner [a, b, c, d] h XOR (gf_mulx ^^ 4) (gf_horner bs h)"
  by (simp add: gf_mulx_xor xor.assoc eval_nat_numeral)

lemma gcm_entry_nibbles:
  assumes "gcm_tables ctx h"
  shows "gcm_entry ctx (unat (GCM_LO_NIBBLE x)) = gf_horner [bit x 3, bit x 2, bit x 1, bit x 0] h"
    and "gcm_entry ctx (unat (GCM_HI_NIBBLE x)) = gf_horner [bit x 7, bit x 6, bit x 5, bit x 4] h"
proof -
  have "unat (GCM_LO_NIBBLE x) = take_bit 4 (unat x)" "unat (GCM_HI_NIBBLE x) = drop_bit 4 (unat x)"
    by (auto simp: GCM_LO_NIBBLE_def GCM_HI_NIBBLE_def and_15 bit_simps intro!: bit_eqI)
  moreover have "take_bit 4 (unat x) < 16" "drop_bit 4 (unat x) < 16"
    using take_bit_nat_less_exp [of 4 "unat x"] unat_u8_less [of x] by (simp_all add: drop_bit_eq_div div_less_iff_less_mult)
  ultimately show "gcm_entry ctx (unat (GCM_LO_NIBBLE x)) = gf_horner [bit x 3, bit x 2, bit x 1, bit x 0] h"
    "gcm_entry ctx (unat (GCM_HI_NIBBLE x)) = gf_horner [bit x 7, bit x 6, bit x 5, bit x 4] h"
    using assms by (simp_all add: gcm_tables_def bit_simps del: gf_horner.simps)
qed

definition gcm_step :: "math_gcm_context \<Rightarrow> nat \<Rightarrow> u64 \<times> u64 \<Rightarrow> u64 \<times> u64" where
  "gcm_step ctx n = (\<lambda>(zh, zl). let (zh, zl) = GCM_SHIFT4 (zh, zl) in (zh XOR HH ctx ! n, zl XOR HL ctx ! n))"

lemma w128_gcm_step: "w128 (gcm_step ctx n z) = gcm_entry ctx n XOR (gf_mulx ^^ 4) (w128 z)"
proof (cases z)
  case (Pair zh zl)
  obtain a b where s: "GCM_SHIFT4 (zh, zl) = (a, b)" by fastforce
  then show ?thesis
    using gcm_shift4 [of zh zl]
    by (simp add: Pair gcm_step_def w128_xor gcm_entry_def xor.commute)
qed

lemma gcm_mult_steps:
  assumes "length x = 16"
  shows "gcm_mult ctx x =
    (let (zh, zl) = foldr (\<lambda>b z. gcm_step ctx (unat (GCM_HI_NIBBLE b)) (gcm_step ctx (unat (GCM_LO_NIBBLE b)) z)) x (0, 0)
     in GCM_PUT_BE64 zh @ GCM_PUT_BE64 zl)"
proof -
  let ?f = "\<lambda>i (zh, zl).
             let lo = GCM_LO_NIBBLE (x ! i);
                 hi = GCM_HI_NIBBLE (x ! i);
                 (zh, zl) = (if i \<noteq> 15 then
                    let (zh, zl) = GCM_SHIFT4 (zh, zl) in
                    (zh XOR HH ctx ! unat lo, zl XOR HL ctx ! unat lo)
                    else (zh, zl));
                 (zh, zl) = GCM_SHIFT4 (zh, zl)
             in (zh XOR HH ctx ! unat hi, zl XOR HL ctx ! unat hi)"
  let ?g = "\<lambda>b z. gcm_step ctx (unat (GCM_HI_NIBBLE b)) (gcm_step ctx (unat (GCM_LO_NIBBLE b)) z)"
  have z: "GCM_SHIFT4 (0, 0) = (0, 0)" by (simp add: GCM_SHIFT4_def gcm_last4_def)
  have f15: "?f 15 (HH ctx ! unat (GCM_LO_NIBBLE (x ! 15)), HL ctx ! unat (GCM_LO_NIBBLE (x ! 15))) =
      ?g (x ! 15) (0, 0)"
    by (simp add: gcm_step_def Let_def z split_beta)
  have f: "?f i z = ?g (x ! i) z" if "i \<noteq> 15" for i z
    using that by (simp add: gcm_step_def Let_def split_beta)
  have u: "[0..<16] = [0..<15] @ [15 :: nat]"
    using upt_Suc_append [of 0 15] by simp
  then have "rev [0..<16] = 15 # rev [0..<15 :: nat]" by simp
  then have "fold ?f (rev [0..<16]) (HH ctx ! unat (GCM_LO_NIBBLE (x ! 15)), HL ctx ! unat (GCM_LO_NIBBLE (x ! 15))) =
      fold ?f (rev [0..<15]) (?g (x ! 15) (0, 0))"
    by (simp only: fold_simps f15)
  also have "\<dots> = fold (\<lambda>i. ?g (x ! i)) (rev [0..<15]) (?g (x ! 15) (0, 0))"
  proof (rule fold_cong)
    fix i :: nat assume "i \<in> set (rev [0..<15])"
    then have "i \<noteq> 15" by simp
    then show "?f i = ?g (x ! i)" by (intro ext f)
  qed simp_all
  also have "\<dots> = fold (\<lambda>i. ?g (x ! i)) (rev [0..<16]) (0, 0)"
    by (simp only: u rev_append rev.simps append.simps fold_simps)
  also have "\<dots> = foldr ?g (map ((!) x) [0..<16]) (0, 0)"
    by (simp only: foldr_conv_fold rev_map fold_map comp_def)
  also have "map ((!) x) [0..<16] = x"
    using map_nth [of x] assms by simp
  finally show ?thesis
    by (simp only: gcm_mult_def Let_def)
qed

lemma gcm_mult_eq:
  assumes "gcm_tables ctx h" "length x = 16"
  shows "block128 (gcm_mult ctx x) = gf_mult (concat (map byte_bits x)) h"
proof -
  let ?g = "\<lambda>b z. gcm_step ctx (unat (GCM_HI_NIBBLE b)) (gcm_step ctx (unat (GCM_LO_NIBBLE b)) z)"
  have "w128 (foldr ?g x (0, 0)) = gf_horner (concat (map byte_bits x)) h"
  proof (induction x)
    case (Cons b x)
    have "byte_bits b @ bs = [bit b 7, bit b 6, bit b 5, bit b 4] @ [bit b 3, bit b 2, bit b 1, bit b 0] @ bs" for bs
      by (simp add: byte_bits_def)
    then show ?case
      by (simp only: foldr.simps comp_def w128_gcm_step gcm_entry_nibbles [OF assms(1)] Cons.IH
          list.map concat.simps gf_horner_append4)
  qed simp
  then show ?thesis
    by (simp add: gcm_mult_steps assms(2) gf_mult_horner w128_get_put split_beta)
qed

subsection \<open>Counter\<close>

definition inc32 :: "bytes \<Rightarrow> bytes" where
  "inc32 y = take 12 y @ macsec_wr_be32 (macsec_rd_be32 (drop 12 y) + 1)"

lemma or_eq_plus: "(v :: u32) AND w = 0 \<Longrightarrow> v OR w = v + w"
  by (simp add: disjunctive_add_eq_or)

lemma rd_be32_sum:
  "macsec_rd_be32 [a, b, c, d] = ucast a * 0x1000000 + ucast b * 0x10000 + ucast c * 0x100 + ucast d"
proof -
  have "ucast c * 0x100 = push_bit 8 (ucast c :: u32)" "ucast b * 0x10000 = push_bit 16 (ucast b :: u32)"
    "ucast a * 0x1000000 = push_bit 24 (ucast a :: u32)"
    by (simp_all add: push_bit_eq_mult)
  moreover have "push_bit 24 (ucast a) OR push_bit 16 (ucast b) OR push_bit 8 (ucast c) OR (ucast d :: u32) =
      push_bit 24 (ucast a) + push_bit 16 (ucast b) + push_bit 8 (ucast c) + ucast d"
    by (subst or_eq_plus, rule bit_word_eqI, force simp: bit_simps dest: bit_imp_le_length)+ simp
  ultimately show ?thesis
    by (simp add: macsec_rd_be32_def)
qed

lemma ucast_inc:
  assumes "(d :: u8) + 1 \<noteq> 0"
  shows "(ucast (d + 1) :: u32) = ucast d + 1"
proof -
  have "unat (d + 1) = Suc (unat d)"
    using assms unatSuc [of d] by (simp add: add.commute)
  then have "(of_nat (unat (d + 1)) :: u32) = of_nat (unat d) + 1"
    by simp
  then show ?thesis by simp
qed

lemma ucast_wrap: "(d :: u8) + 1 = 0 \<Longrightarrow> (ucast d :: u32) = 0xFF"
proof -
  assume "d + 1 = 0"
  then have "d = - 1" by (simp add: eq_neg_iff_add_eq_0)
  also have "- 1 = (255 :: u8)" by simp
  finally show ?thesis by simp
qed

lemma macsec_wr_be32_inject: "macsec_wr_be32 v = macsec_wr_be32 w \<longleftrightarrow> v = w"
  by (metis rd_wr_be32)

lemma gcm_increment_counter_eq:
  assumes "length y = 16"
  shows "gcm_increment_counter y = inc32 y"
proof -
  obtain p a b c d where y: "y = p @ [a, b, c, d]" and p: "length p = 12"
    using assms that [of "take 12 y" "y ! 12" "y ! 13" "y ! 14" "y ! 15"]
    by (auto simp: length_Suc_conv eval_nat_numeral)
  have "inc32 y = p @ macsec_wr_be32 (macsec_rd_be32 [a, b, c, d] + 1)"
    by (simp add: inc32_def y p)
  also have "\<dots> = gcm_increment_counter y"
  proof -
    have *: "macsec_rd_be32 [a, b, c, d] + 1 = macsec_rd_be32 [a', b', c', d'] \<Longrightarrow>
        macsec_wr_be32 (macsec_rd_be32 [a, b, c, d] + 1) = [a', b', c', d']" for a' b' c' d'
      by (simp add: wr_rd_be32)
    consider "d + 1 \<noteq> 0" | "d + 1 = 0" "c + 1 \<noteq> 0" | "d + 1 = 0" "c + 1 = 0" "b + 1 \<noteq> 0"
      | "d + 1 = 0" "c + 1 = 0" "b + 1 = 0" "a + 1 \<noteq> 0" | "d + 1 = 0" "c + 1 = 0" "b + 1 = 0" "a + 1 = 0"
      by blast
    then show ?thesis
    proof cases
      case 1
      then show ?thesis
        by (subst * [of a b c "d + 1"])
           (simp_all add: rd_be32_sum ucast_inc gcm_increment_counter_def y p nth_append list_update_append)
    next
      case 2
      then show ?thesis
        by (subst * [of a b "c + 1" 0])
           (simp_all add: rd_be32_sum ucast_inc ucast_wrap gcm_increment_counter_def y p nth_append list_update_append)
    next
      case 3
      then show ?thesis
        by (subst * [of a "b + 1" 0 0])
           (simp_all add: rd_be32_sum ucast_inc ucast_wrap gcm_increment_counter_def y p nth_append list_update_append)
    next
      case 4
      then show ?thesis
        by (subst * [of "a + 1" 0 0 0])
           (simp_all add: rd_be32_sum ucast_inc ucast_wrap gcm_increment_counter_def y p nth_append list_update_append)
    next
      case 5
      then show ?thesis
        by (subst * [of 0 0 0 0])
           (simp_all add: rd_be32_sum ucast_wrap gcm_increment_counter_def y p nth_append list_update_append)
    qed
  qed
  finally show ?thesis by simp
qed

subsection \<open>Blocks\<close>

text \<open>The 16-byte chunks of a buffer, the last one possibly shorter.\<close>

function chunks16 :: "bytes \<Rightarrow> bytes list" where
  "chunks16 p = (if p = [] then [] else take 16 p # chunks16 (drop 16 p))"
  by pat_completeness auto
termination by (relation "measure length") auto

declare chunks16.simps [simp del]

definition gcm_pad :: "bytes \<Rightarrow> bytes" where
  "gcm_pad p = p @ replicate ((16 - length p mod 16) mod 16) 0"

text \<open>
  The hash over chunks with multiplication \<open>M\<close>: a chunk is added to the front of the accumulator,
  which pads it with zeros.
\<close>

definition ghash_chunks :: "(bytes \<Rightarrow> bytes) \<Rightarrow> bytes list \<Rightarrow> bytes \<Rightarrow> bytes" where
  "ghash_chunks M cs b = fold (\<lambda>c b. M (arr_xor b c)) cs b"

lemma chunks16_Nil [simp]: "chunks16 [] = []"
  by (simp add: chunks16.simps)

lemma chunks16_step: "p \<noteq> [] \<Longrightarrow> chunks16 p = take 16 p # chunks16 (drop 16 p)"
  by (simp add: chunks16.simps [of p])

lemma chunks16_short: "p \<noteq> [] \<Longrightarrow> length p \<le> 16 \<Longrightarrow> chunks16 p = [p]"
  by (simp add: chunks16_step)

lemma chunks16_append: "length a mod 16 = 0 \<Longrightarrow> chunks16 (a @ b) = chunks16 a @ chunks16 b"
proof (induction a rule: chunks16.induct)
  case (1 a)
  show ?case
  proof (cases "a = []")
    case False
    with 1(2) have "16 \<le> length a" by (metis length_0_conv mod_less not_less)
    with 1 False show ?thesis
      by (simp add: chunks16_step le_mod_geq)
  qed simp
qed

lemma gcm_mult_update [simp]:
  "gcm_mult (ctx\<lparr>gcm_buf := x\<rparr>) = gcm_mult ctx" "gcm_mult (ctx\<lparr>gcm_y := x\<rparr>) = gcm_mult ctx"
  "gcm_mult (ctx\<lparr>gcm_len := l\<rparr>) = gcm_mult ctx" "gcm_mult (ctx\<lparr>gcm_add_len := l\<rparr>) = gcm_mult ctx"
  "gcm_mult (ctx\<lparr>gcm_mode := m\<rparr>) = gcm_mult ctx" "gcm_mult (ctx\<lparr>base_ectr := x\<rparr>) = gcm_mult ctx"
  by (simp_all add: gcm_mult_def fun_eq_iff Let_def cong: if_cong)

lemma length_gcm_mult [simp]: "length (gcm_mult ctx x) = 16"
  by (simp add: gcm_mult_def gcm_put_be64 Let_def split_beta)

lemma gcm_iv_loop_eq:
  "gcm_iv_loop ctx p = ctx\<lparr>gcm_y := ghash_chunks (gcm_mult ctx) (chunks16 p) (gcm_y ctx)\<rparr>"
proof (induction ctx p rule: gcm_iv_loop.induct)
  case (1 ctx p)
  show ?case
  proof (cases "p = []")
    case True
    then show ?thesis by (simp add: gcm_iv_loop.simps ghash_chunks_def)
  next
    case False
    let ?n = "if length p < 16 then length p else 16"
    have t: "take ?n p = take 16 p" "drop ?n p = drop 16 p" by auto
    show ?thesis
      by (subst gcm_iv_loop.simps)
         (use 1 [OF False refl refl refl] False in \<open>simp add: Let_def t chunks16_step ghash_chunks_def\<close>)
  qed
qed

lemma gcm_aad_loop_eq:
  "\<exists>b. gcm_aad_loop ctx p = ctx\<lparr>gcm_buf := b\<rparr> \<and>
     (if length p mod 16 \<noteq> 0 then gcm_mult ctx b else b) =
     ghash_chunks (gcm_mult ctx) (chunks16 p) (gcm_buf ctx)"
proof (induction p arbitrary: ctx rule: chunks16.induct)
  case (1 p)
  consider "p = []" | "p \<noteq> []" "length p < 16" | "p \<noteq> []" "16 \<le> length p" by fastforce
  then show ?case
  proof cases
    case 1
    then show ?thesis by (simp add: gcm_aad_loop.simps ghash_chunks_def)
  next
    case 2
    then have "gcm_aad_loop ctx p = ctx\<lparr>gcm_buf := arr_xor (gcm_buf ctx) p\<rparr>"
      by (simp add: gcm_aad_loop.simps [of ctx p]) (simp add: gcm_aad_loop.simps)
    with 2 show ?thesis
      by (auto simp: chunks16_short ghash_chunks_def)
  next
    case 3
    from "1" [OF 3(1), of "ctx\<lparr>gcm_buf := gcm_mult ctx (arr_xor (gcm_buf ctx) (take 16 p))\<rparr>"] 3
    show ?thesis
      by (subst gcm_aad_loop.simps)
         (auto simp: Let_def chunks16_step ghash_chunks_def le_mod_geq)
  qed
qed

text \<open>Counter mode over the block cipher \<open>E\<close>, the counter block incremented before each use.\<close>

function gctr :: "(bytes \<Rightarrow> bytes) \<Rightarrow> bytes \<Rightarrow> bytes \<Rightarrow> bytes" where
  "gctr E y p =
     (if p = [] then [] else xor_bytes (E (inc32 y)) (take 16 p) @ gctr E (inc32 y) (drop 16 p))"
  by pat_completeness auto
termination by (relation "measure (\<lambda>(E, y, p). length p)") auto

declare gctr.simps [simp del]

lemma length_inc32 [simp]: "length y = 16 \<Longrightarrow> length (inc32 y) = 16"
  by (simp add: inc32_def)

lemma gctr_Nil [simp]: "gctr E y [] = []"
  by (simp add: gctr.simps)

lemma gctr_step: "p \<noteq> [] \<Longrightarrow> gctr E y p = xor_bytes (E (inc32 y)) (take 16 p) @ gctr E (inc32 y) (drop 16 p)"
  by (simp add: gctr.simps [of E y p])

lemma length_gctr:
  assumes "\<And>b. length (E b) = 16"
  shows "length (gctr E y p) = length p"
proof (induction p arbitrary: y rule: chunks16.induct)
  case (1 p)
  then show ?case
    by (cases "p = []") (auto simp: gctr_step assms)
qed

lemma gctr_gctr:
  assumes "\<And>b. length (E b) = 16"
  shows "gctr E y (gctr E y p) = p"
proof (induction p arbitrary: y rule: chunks16.induct)
  case (1 p)
  show ?case
  proof (cases "p = []")
    case False
    define o1 o2 where "o1 = xor_bytes (E (inc32 y)) (take 16 p)" and "o2 = gctr E (inc32 y) (drop 16 p)"
    have l: "length o1 = min 16 (length p)" "length o2 = length p - 16"
      by (simp_all add: o1_def o2_def assms length_gctr)
    then have "take 16 (o1 @ o2) = o1" "drop 16 (o1 @ o2) = o2"
      by (cases "16 \<le> length p"; simp)+
    moreover have "o1 @ o2 \<noteq> []" using l False by (cases p) auto
    moreover have "gctr E y p = o1 @ o2" using False by (simp add: gctr_step o1_def o2_def)
    ultimately show ?thesis
      using 1 [OF False, of "inc32 y"] 
      by (simp add: gctr_step [of "o1 @ o2"]) (simp add: o1_def o2_def xor_bytes_cancel assms)
  qed simp
qed

definition aes_block :: "math_gcm_context \<Rightarrow> bytes \<Rightarrow> bytes" where
  "aes_block ctx b = snd (math_aes_encrypt (gcm_aes_ctx ctx) b)"

lemma length_aes_block [simp]: "length (aes_block ctx b) = 16"
  by (simp add: aes_block_def)

lemma aes_block_update [simp]:
  "aes_block (ctx\<lparr>gcm_buf := x\<rparr>) = aes_block ctx" "aes_block (ctx\<lparr>gcm_y := x\<rparr>) = aes_block ctx"
  "aes_block (ctx\<lparr>gcm_len := l\<rparr>) = aes_block ctx" "aes_block (ctx\<lparr>gcm_add_len := l\<rparr>) = aes_block ctx"
  "aes_block (ctx\<lparr>gcm_mode := m\<rparr>) = aes_block ctx" "aes_block (ctx\<lparr>base_ectr := x\<rparr>) = aes_block ctx"
  by (simp_all add: aes_block_def fun_eq_iff)

lemma gcm_aes_encrypt_block_eq: "gcm_aes_encrypt_block ctx b = (0, aes_block ctx b)"
  by (simp add: gcm_aes_encrypt_block_def aes_block_def prod_eq_iff)

lemma xor_bytes_take: "length p \<le> n \<Longrightarrow> xor_bytes (take n e) p = xor_bytes e p"
  by (auto simp: xor_bytes_def list_eq_iff_nth_eq)

lemma gcm_update_step:
  assumes "gcm_mode ctx \<in> {MATH_GCM_ENCRYPT, MATH_GCM_DECRYPT}" "length (gcm_y ctx) = 16" "p \<noteq> []"
  defines "y \<equiv> inc32 (gcm_y ctx)"
  defines "o1 \<equiv> xor_bytes (aes_block ctx y) (take 16 p)"
  defines "b \<equiv> arr_xor (gcm_buf ctx) (if gcm_mode ctx = MATH_GCM_ENCRYPT then o1 else take 16 p)"
  shows "gcm_update_loop ctx p =
    (let (ret, ctx', rest) = gcm_update_loop
          (ctx\<lparr>gcm_y := y, gcm_buf := (if 16 \<le> length p then gcm_mult ctx b else b),
               gcm_len := gcm_len ctx + of_nat (min (length p) 16)\<rparr>) (drop 16 p)
     in (ret, ctx', o1 @ rest))"
proof -
  have t: "take (if length p < 16 then length p else 16) p = take 16 p"
    "drop (if length p < 16 then length p else 16) p = drop 16 p" 
    "(if length p < 16 then length p else 16) = min (length p) 16"
    "min (length p) 16 = 16 \<longleftrightarrow> 16 \<le> length p" by auto
  have m: "MATH_GCM_ENCRYPT \<noteq> MATH_GCM_DECRYPT"
    by (simp add: MATH_GCM_ENCRYPT_def MATH_GCM_DECRYPT_def)
  show ?thesis
    using assms(1-3) m
    by (subst gcm_update_loop.simps)
       (auto simp: Let_def t gcm_aes_encrypt_block_eq gcm_increment_counter_eq xor_bytes_take y_def o1_def b_def
          split_beta)
qed

lemma gcm_update_loop_eq:
  assumes "gcm_mode ctx \<in> {MATH_GCM_ENCRYPT, MATH_GCM_DECRYPT}" "length (gcm_y ctx) = 16"
  shows "\<exists>y b. gcm_update_loop ctx p =
     (0, ctx\<lparr>gcm_y := y, gcm_buf := b, gcm_len := gcm_len ctx + of_nat (length p)\<rparr>,
      gctr (aes_block ctx) (gcm_y ctx) p) \<and>
     (if length p mod 16 \<noteq> 0 then gcm_mult ctx b else b) =
     ghash_chunks (gcm_mult ctx)
       (chunks16 (if gcm_mode ctx = MATH_GCM_ENCRYPT then gctr (aes_block ctx) (gcm_y ctx) p else p))
       (gcm_buf ctx)"
  using assms
proof (induction p arbitrary: ctx rule: chunks16.induct)
  case (1 p)
  show ?case
  proof (cases "p = []")
    case True
    then show ?thesis
      by (intro exI [of _ "gcm_y ctx"] exI [of _ "gcm_buf ctx"])
         (simp add: gcm_update_loop.simps ghash_chunks_def)
  next
    case False
    define y o1 where "y = inc32 (gcm_y ctx)" and "o1 = xor_bytes (aes_block ctx y) (take 16 p)"
    define c1 where "c1 = (if gcm_mode ctx = MATH_GCM_ENCRYPT then o1 else take 16 p)"
    define b1 where "b1 = arr_xor (gcm_buf ctx) c1"
    define ctx1 where "ctx1 = ctx\<lparr>gcm_y := y, gcm_buf := (if 16 \<le> length p then gcm_mult ctx b1 else b1),
               gcm_len := gcm_len ctx + of_nat (min (length p) 16)\<rparr>"
    have step: "gcm_update_loop ctx p =
        (let (ret, ctx', rest) = gcm_update_loop ctx1 (drop 16 p) in (ret, ctx', o1 @ rest))"
      using gcm_update_step [OF 1(2,3) False] by (simp add: y_def o1_def c1_def b1_def ctx1_def)
    have ctx1: "gcm_mode ctx1 = gcm_mode ctx" "gcm_y ctx1 = y" "aes_block ctx1 = aes_block ctx"
      "gcm_mult ctx1 = gcm_mult ctx" "length y = 16"
      using 1(3) by (simp_all add: ctx1_def y_def)
    from 1(1) [OF False, of ctx1] 1(2)
    obtain y' b' where IH: "gcm_update_loop ctx1 (drop 16 p) =
       (0, ctx1\<lparr>gcm_y := y', gcm_buf := b', gcm_len := gcm_len ctx1 + of_nat (length (drop 16 p))\<rparr>,
        gctr (aes_block ctx) y (drop 16 p))"
      "(if length (drop 16 p) mod 16 \<noteq> 0 then gcm_mult ctx b' else b') =
       ghash_chunks (gcm_mult ctx)
         (chunks16 (if gcm_mode ctx = MATH_GCM_ENCRYPT then gctr (aes_block ctx) y (drop 16 p) else drop 16 p))
         (gcm_buf ctx1)"
      unfolding ctx1 by blast
    have g: "gctr (aes_block ctx) (gcm_y ctx) p = o1 @ gctr (aes_block ctx) y (drop 16 p)"
      using False by (simp add: gctr_step y_def o1_def)
    have len: "gcm_len ctx1 + of_nat (length (drop 16 p)) = gcm_len ctx + of_nat (length p)"
    proof -
      have "min (length p) 16 + (length p - 16) = length p" by simp
      then show ?thesis by (simp add: ctx1_def flip: of_nat_add)
    qed
    have c: "(if gcm_mode ctx = MATH_GCM_ENCRYPT then o1 @ r else p) =
        c1 @ (if gcm_mode ctx = MATH_GCM_ENCRYPT then r else drop 16 p)" for r
      by (simp add: c1_def)
    have l1: "length c1 = min 16 (length p)" by (simp add: c1_def o1_def)
    then have c1: "c1 \<noteq> []" "length c1 \<le> 16" using False by (auto simp: min_def split: if_splits)
    have chunk: "ghash_chunks (gcm_mult ctx) (chunks16 (c1 @ r)) (gcm_buf ctx) =
        ghash_chunks (gcm_mult ctx) (chunks16 r) (gcm_mult ctx b1)" if "length p < 16 \<longrightarrow> r = []" for r
    proof -
      have "chunks16 (c1 @ r) = c1 # chunks16 r"
        using that c1 l1 by (cases "length p < 16") (simp_all add: chunks16_append chunks16_short)
      then show ?thesis by (simp add: ghash_chunks_def b1_def)
    qed
    have tail: "length p < 16 \<longrightarrow> (if gcm_mode ctx = MATH_GCM_ENCRYPT then gctr (aes_block ctx) y (drop 16 p)
        else drop 16 p) = []" by simp
    have "(if length p mod 16 \<noteq> 0 then gcm_mult ctx b' else b') =
        ghash_chunks (gcm_mult ctx) (chunks16 (c1 @ (if gcm_mode ctx = MATH_GCM_ENCRYPT
          then gctr (aes_block ctx) y (drop 16 p) else drop 16 p))) (gcm_buf ctx)"
    proof (cases "16 \<le> length p")
      case True
      then show ?thesis
        using IH(2) by (simp add: chunk [OF tail] ctx1_def le_mod_geq)
    next
      case False
      with \<open>p \<noteq> []\<close> IH(2) show ?thesis
        unfolding chunk [OF tail] by (simp add: ctx1_def ghash_chunks_def)
    qed
    then show ?thesis
      unfolding step g c IH(1) len
      by (intro exI [of _ y'] exI [of _ b']) (simp add: ctx1_def split del: if_split)
  qed
qed

subsection \<open>The specification\<close>

definition u128_bytes :: "u128 \<Rightarrow> bytes" where
  "u128_bytes w = macsec_wr_be64 (ucast (drop_bit 64 w)) @ macsec_wr_be64 (ucast w)"

definition gf_block_mult :: "u128 \<Rightarrow> bytes \<Rightarrow> bytes" where
  "gf_block_mult h x = u128_bytes (gf_mult (concat (map byte_bits x)) h)"

definition ghash :: "u128 \<Rightarrow> bytes \<Rightarrow> bytes" where
  "ghash h x = ghash_chunks (gf_block_mult h) (chunks16 x) (replicate 16 0)"

definition gcm_j0 :: "u128 \<Rightarrow> bytes \<Rightarrow> bytes" where
  "gcm_j0 h iv =
     (if length iv = 12 then iv @ [0, 0, 0, 1]
      else ghash h (gcm_pad iv @ replicate 8 0 @ macsec_wr_be64 (of_nat (length iv) * 8)))"

definition gcm_tag :: "(bytes \<Rightarrow> bytes) \<Rightarrow> u128 \<Rightarrow> bytes \<Rightarrow> bytes \<Rightarrow> bytes \<Rightarrow> bytes" where
  "gcm_tag E h iv add c =
     xor_bytes (E (gcm_j0 h iv))
       (ghash h (gcm_pad add @ gcm_pad c @
          macsec_wr_be64 (of_nat (length add) * 8) @ macsec_wr_be64 (of_nat (length c) * 8)))"

text \<open>The block cipher and the hash key of a key.\<close>

definition aes_of_key :: "bytes \<Rightarrow> nat \<Rightarrow> bytes \<Rightarrow> bytes" where
  "aes_of_key key keybits b = snd (math_aes_encrypt (snd (math_aes_setenckey math_aes_init key keybits)) b)"

definition gcm_hash_key :: "bytes \<Rightarrow> nat \<Rightarrow> u128" where
  "gcm_hash_key key keybits = block128 (aes_of_key key keybits (replicate 16 0))"

subsection \<open>The code computes the specification\<close>

lemma length_u128_bytes [simp]: "length (u128_bytes w) = 16"
  by (simp add: u128_bytes_def)

lemma u128_bytes_w128: "u128_bytes (w128 (zh, zl)) = macsec_wr_be64 zh @ macsec_wr_be64 zl"
proof -
  have "ucast (drop_bit 64 (w128 (zh, zl))) = zh"
    by (rule bit_word_eqI) (auto simp: bit_simps bit_w128)
  moreover have "ucast (w128 (zh, zl)) = zl"
    by (rule bit_word_eqI) (auto simp: bit_simps bit_w128)
  ultimately show ?thesis by (simp add: u128_bytes_def)
qed

lemma gcm_mult_block:
  assumes "gcm_tables ctx h" "length x = 16"
  shows "gcm_mult ctx x = gf_block_mult h x"
proof -
  obtain zh zl where g: "gcm_mult ctx x = GCM_PUT_BE64 zh @ GCM_PUT_BE64 zl"
    by (simp add: gcm_mult_def Let_def split_beta)
  then have "w128 (zh, zl) = gf_mult (concat (map byte_bits x)) h"
    using gcm_mult_eq [OF assms] by (simp add: w128_get_put)
  then show ?thesis
    unfolding g gf_block_mult_def by (metis u128_bytes_w128 gcm_put_be64)
qed

lemma length_gf_block_mult [simp]: "length (gf_block_mult h x) = 16"
  by (simp add: gf_block_mult_def)

lemma chunks16_lengths: "c \<in> set (chunks16 p) \<Longrightarrow> length c \<le> 16"
  by (induction p rule: chunks16.induct) (metis chunks16.simps chunks16_Nil chunks16_step length_take
      list.distinct(1) list.set_cases min.cobounded2 set_ConsD)

lemma ghash_chunks_code:
  assumes "gcm_tables ctx h" "length b = 16" "\<forall>c \<in> set cs. length c \<le> 16"
  shows "ghash_chunks (gcm_mult ctx) cs b = ghash_chunks (gf_block_mult h) cs b \<and>
     length (ghash_chunks (gf_block_mult h) cs b) = 16"
  using assms(2,3)
proof (induction cs arbitrary: b)
  case (Cons c cs)
  then show ?case
    using gcm_mult_block [OF assms(1), of "arr_xor b c"] by (simp add: ghash_chunks_def)
qed (simp add: ghash_chunks_def)

lemma arr_xor_pad: "length c + n \<le> length b \<Longrightarrow> arr_xor b (c @ replicate n 0) = arr_xor b c"
  by (rule nth_equalityI) (auto simp: arr_xor_def xor_bytes_def nth_append)

lemma ghash_chunks_pad:
  assumes "length b = 16"
  shows "ghash_chunks (gf_block_mult h) (chunks16 (gcm_pad p)) b = ghash_chunks (gf_block_mult h) (chunks16 p) b"
  using assms
proof (induction p arbitrary: b rule: chunks16.induct)
  case (1 p)
  consider "p = []" | "p \<noteq> []" "length p < 16" | "p \<noteq> []" "16 \<le> length p" by fastforce
  then show ?case
  proof cases
    case 2
    then have "0 < length p" by simp
    with 2 have "gcm_pad p = p @ replicate (16 - length p) 0" by (simp add: gcm_pad_def)
    with 2 "1"(2) show ?thesis
      by (simp add: chunks16_short ghash_chunks_def arr_xor_pad)
  next
    case 3
    then have "gcm_pad p = take 16 p @ gcm_pad (drop 16 p)"
      by (simp add: gcm_pad_def le_mod_geq)
    moreover have "chunks16 (take 16 p @ gcm_pad (drop 16 p)) = take 16 p # chunks16 (gcm_pad (drop 16 p))"
      using 3 by (simp add: chunks16_append chunks16_short)
    ultimately show ?thesis
      using 1(1) [OF 3(1), of "gf_block_mult h (arr_xor b (take 16 p))"] 3
      by (simp add: chunks16_step ghash_chunks_def)
  qed (simp add: gcm_pad_def)
qed

lemma length_gcm_pad: "length (gcm_pad p) mod 16 = 0"
proof -
  have "(length p mod 16 + (16 - length p mod 16)) mod 16 = 0" by simp
  then have "(length p + (16 - length p mod 16) mod 16) mod 16 = 0" by (simp only: mod_add_left_eq mod_add_right_eq)
  then show ?thesis by (simp add: gcm_pad_def)
qed

lemma ghash_chunks_append: "ghash_chunks M (a @ b) x = ghash_chunks M b (ghash_chunks M a x)"
  by (simp add: ghash_chunks_def)

lemma ghash_final:
  assumes "length l = 16"
  shows "ghash h (gcm_pad a @ gcm_pad c @ l) =
    gf_block_mult h (arr_xor (ghash_chunks (gf_block_mult h) (chunks16 c)
      (ghash_chunks (gf_block_mult h) (chunks16 a) (replicate 16 0))) l)"
proof -
  have len: "length (ghash_chunks (gf_block_mult h) cs b) = 16" if "length b = 16" for cs b
    using that by (induction cs arbitrary: b) (simp_all add: ghash_chunks_def)
  have "l \<noteq> []" using assms by auto
  with assms have "chunks16 (gcm_pad a @ gcm_pad c @ l) = chunks16 (gcm_pad a) @ chunks16 (gcm_pad c) @ [l]"
    by (simp add: chunks16_append length_gcm_pad chunks16_short)
  then show ?thesis
    by (simp add: ghash_def ghash_chunks_append ghash_chunks_pad len) (simp add: ghash_chunks_def)
qed

lemma ghash_final_iv:
  "length l = 16 \<Longrightarrow> ghash h (gcm_pad a @ l) =
    gf_block_mult h (arr_xor (ghash_chunks (gf_block_mult h) (chunks16 a) (replicate 16 0)) l)"
  using ghash_final [of l h a "[]"] by (simp add: gcm_pad_def ghash_chunks_def)

lemma gcm_tables_update [simp]:
  "gcm_tables (ctx\<lparr>gcm_buf := x\<rparr>) = gcm_tables ctx" "gcm_tables (ctx\<lparr>gcm_y := x\<rparr>) = gcm_tables ctx"
  "gcm_tables (ctx\<lparr>gcm_len := l\<rparr>) = gcm_tables ctx" "gcm_tables (ctx\<lparr>gcm_add_len := l\<rparr>) = gcm_tables ctx"
  "gcm_tables (ctx\<lparr>gcm_mode := m\<rparr>) = gcm_tables ctx" "gcm_tables (ctx\<lparr>base_ectr := x\<rparr>) = gcm_tables ctx"
  by (simp_all add: gcm_tables_def fun_eq_iff gcm_entry_def)

lemma unat_of_nat_small: "n < 2 ^ LENGTH('a) \<Longrightarrow> unat (of_nat n :: 'a::len word) = n"
  by (simp add: unsigned_of_nat take_bit_nat_eq_self)

text \<open>
  The context after \<open>gcm_starts\<close>: the counter block, its encryption and the hash of the
  additional data.
\<close>

definition gcm_fits :: "bytes \<Rightarrow> bytes \<Rightarrow> bool" where
  "gcm_fits iv add \<longleftrightarrow> iv \<noteq> [] \<and> length iv < 2 ^ 61 \<and> length add < 2 ^ 61"

lemma gcm_starts_eq:
  assumes tab: "gcm_tables ctx h" and mode: "mode \<in> {MATH_GCM_ENCRYPT, MATH_GCM_DECRYPT}"
    and fits: "gcm_fits iv add"
  shows "gcm_starts ctx mode iv add =
    (0, ctx\<lparr>gcm_y := gcm_j0 h iv, base_ectr := aes_block ctx (gcm_j0 h iv), gcm_mode := mode, gcm_len := 0,
            gcm_add_len := of_nat (length add),
            gcm_buf := ghash_chunks (gf_block_mult h) (chunks16 add) (replicate 16 0)\<rparr>)"
proof -
  have guards: "\<not> (mode \<noteq> MATH_GCM_ENCRYPT \<and> mode \<noteq> MATH_GCM_DECRYPT)"
    "\<not> (length iv = 0 \<or> length iv div 2 ^ 61 \<noteq> 0 \<or> length add div 2 ^ 61 \<noteq> 0)"
    using mode fits by (auto simp: gcm_fits_def)
  let ?c0 = "ctx\<lparr>gcm_y := replicate 16 0, gcm_buf := replicate 16 0, gcm_mode := mode,
                      gcm_len := 0, gcm_add_len := of_nat (length add)\<rparr>"
  let ?c1 = "if length iv = 12 then
                     ?c0\<lparr>gcm_y := (arr_put (gcm_y ?c0) iv)[15 := 1]\<rparr>
                   else
                     let tmp = replicate 8 0 @ GCM_PUT_BE64 (of_nat (length iv) * 8);
                         ctx = gcm_iv_loop ?c0 iv;
                         ctx = ctx\<lparr>gcm_y := arr_xor (gcm_y ctx) tmp\<rparr>
                     in ctx\<lparr>gcm_y := gcm_mult ctx (gcm_y ctx)\<rparr>"
  have c1: "?c1 = ?c0\<lparr>gcm_y := gcm_j0 h iv\<rparr>"
  proof (cases "length iv = 12")
    case True
    moreover have "(replicate 4 (0 :: u8))[3 := 1] = [0, 0, 0, 1]" by (simp add: eval_nat_numeral)
    ultimately show ?thesis
      by (simp add: gcm_j0_def arr_put_def list_update_append)
  next
    case False
    have l: "length (ghash_chunks (gf_block_mult h) (chunks16 iv) (replicate 16 0)) = 16"
      "ghash_chunks (gcm_mult ctx) (chunks16 iv) (replicate 16 0) =
       ghash_chunks (gf_block_mult h) (chunks16 iv) (replicate 16 0)"
      using ghash_chunks_code [OF tab, of "replicate 16 0" "chunks16 iv"] chunks16_lengths by auto
    with False show ?thesis
      by (simp add: gcm_j0_def gcm_iv_loop_eq Let_def ghash_final_iv gcm_put_be64 gcm_mult_block [OF tab])
  qed
  have m: "gcm_mult (?c0\<lparr>gcm_y := gcm_j0 h iv, base_ectr := aes_block ctx (gcm_j0 h iv)\<rparr>) = gcm_mult ctx"
    by simp
  obtain b where b: "gcm_aad_loop (?c0\<lparr>gcm_y := gcm_j0 h iv, base_ectr := aes_block ctx (gcm_j0 h iv)\<rparr>) add =
      ?c0\<lparr>gcm_y := gcm_j0 h iv, base_ectr := aes_block ctx (gcm_j0 h iv), gcm_buf := b\<rparr>"
    "(if length add mod 16 \<noteq> 0 then gcm_mult ctx b else b) =
     ghash_chunks (gf_block_mult h) (chunks16 add) (replicate 16 0)"
    using gcm_aad_loop_eq [of "?c0\<lparr>gcm_y := gcm_j0 h iv, base_ectr := aes_block ctx (gcm_j0 h iv)\<rparr>" add]
      ghash_chunks_code [OF tab, of "replicate 16 0" "chunks16 add"] chunks16_lengths
    unfolding m by (fastforce simp del: gcm_mult_update split del: if_split)
  have l: "unat (of_nat (length add) :: u64) mod 16 = length add mod 16"
    using fits by (simp add: gcm_fits_def unat_of_nat_small)
  show ?thesis
    unfolding gcm_starts_def if_not_P [OF guards(1)] if_not_P [OF guards(2)]
    using b c1 l
    by (simp add: Let_def gcm_aes_encrypt_block_eq split: if_splits)
qed

text \<open>Two contexts with the same key schedule and tables.\<close>

definition gcm_same_key :: "math_gcm_context \<Rightarrow> math_gcm_context \<Rightarrow> bool" where
  "gcm_same_key c d \<longleftrightarrow> gcm_aes_ctx c = gcm_aes_ctx d \<and> HL c = HL d \<and> HH c = HH d"

lemma crypt_and_tag_eq:
  assumes tab: "gcm_tables ctx h" and mode: "mode \<in> {MATH_GCM_ENCRYPT, MATH_GCM_DECRYPT}"
    and fits: "gcm_fits iv add" "length input \<le> 0xFFFFFFFE0" and t: "4 \<le> tag_len" "tag_len \<le> 16" "tag_len \<le> length tag"
  defines "out \<equiv> gctr (aes_block ctx) (gcm_j0 h iv) input"
  shows "\<exists>ctx'. math_gcm_crypt_and_tag False ctx mode iv add input output tag_len tag =
    (0, ctx', arr_put output out,
     arr_put tag (take tag_len (gcm_tag (aes_block ctx) h iv add
        (if mode = MATH_GCM_ENCRYPT then out else input)))) \<and> gcm_same_key ctx' ctx"
proof -
  define bA where "bA = ghash_chunks (gf_block_mult h) (chunks16 add) (replicate 16 0)"
  define c1 where "c1 = ctx\<lparr>gcm_y := gcm_j0 h iv, base_ectr := aes_block ctx (gcm_j0 h iv), gcm_mode := mode, gcm_len := 0,
            gcm_add_len := of_nat (length add), gcm_buf := bA\<rparr>"
  have st: "gcm_starts ctx mode iv add = (0, c1)"
    using gcm_starts_eq [OF tab mode fits(1)] by (simp add: c1_def bA_def)
  have lbA: "length bA = 16"
    using ghash_chunks_code [OF tab, of "replicate 16 0" "chunks16 add"] chunks16_lengths by (auto simp: bA_def)
  have lj0: "length (gcm_j0 h iv) = 16"
    using ghash_final_iv [of "replicate 8 0 @ macsec_wr_be64 (of_nat (length iv) * 8)" h iv]
    by (simp add: gcm_j0_def)
  have c1_simps: "gcm_mode c1 = mode" "gcm_y c1 = gcm_j0 h iv" "gcm_mult c1 = gcm_mult ctx" "aes_block c1 = aes_block ctx"
    "gcm_buf c1 = bA" "gcm_len c1 = 0" "gcm_tables c1 = gcm_tables ctx"
    by (simp_all add: c1_def)
  define c where "c = (if mode = MATH_GCM_ENCRYPT then out else input)"
  have lc: "length c = length input" by (simp add: c_def out_def length_gctr)
  obtain y b where up: "gcm_update_loop c1 input =
      (0, c1\<lparr>gcm_y := y, gcm_buf := b, gcm_len := of_nat (length input)\<rparr>, out)"
    "(if length input mod 16 \<noteq> 0 then gcm_mult ctx b else b) = ghash_chunks (gcm_mult ctx) (chunks16 c) bA"
    using gcm_update_loop_eq [of c1 input] mode lj0 unfolding c1_simps c_def out_def by auto
  have n: "unat (of_nat (length input) :: u64) = length input"
    using fits(2) by (simp add: unat_of_nat_small)
  have upd: "gcm_update False c1 input output =
      (0, c1\<lparr>gcm_y := y, gcm_buf := b, gcm_len := of_nat (length input)\<rparr>, arr_put output out)"
    using fits(2) n by (simp add: gcm_update_def c1_simps up(1) word_less_nat_alt word_le_nat_alt not_less)
  define l where "l = macsec_wr_be64 (of_nat (length add) * 8) @ macsec_wr_be64 (of_nat (length c) * 8)"
  define g where "g = ghash_chunks (gf_block_mult h) (chunks16 c) bA"
  have g: "ghash_chunks (gcm_mult ctx) (chunks16 c) bA = g" "length g = 16"
    using ghash_chunks_code [OF tab lbA] chunks16_lengths by (auto simp: g_def)
  have ll: "length l = 16" by (simp add: l_def)
  have tag: "gcm_tag (aes_block ctx) h iv add c = xor_bytes (aes_block ctx (gcm_j0 h iv)) (gcm_mult ctx (arr_xor g l))"
    using ghash_final [OF ll, of h add c] gcm_mult_block [OF tab, of "arr_xor g l"] g(2) ll
    by (simp add: gcm_tag_def l_def g_def bA_def)
  have put: "arr_xor (arr_put tag (take tag_len x)) (take tag_len z) = arr_put tag (take tag_len (xor_bytes x z))"
    if "length x = 16" "length z = 16" for x z
    using that t
    by (intro nth_equalityI) (auto simp: arr_xor_def arr_put_def xor_bytes_def nth_append)
  have fin: "\<exists>b'. gcm_finish (c1\<lparr>gcm_y := y, gcm_buf := b, gcm_len := of_nat (length input)\<rparr>) tag tag_len =
      (0, c1\<lparr>gcm_y := y, gcm_len := of_nat (length input), gcm_buf := b'\<rparr>,
       arr_put tag (take tag_len (gcm_tag (aes_block ctx) h iv add c)))"
    using t g(2) ll n up(2) put
    by (intro exI [of _ "gcm_mult ctx (arr_xor g l)"])
       (simp add: gcm_finish_def Let_def c1_def lc l_def [unfolded lc] tag gcm_put_be64 g(1) split: if_splits)
  then show ?thesis
    unfolding math_gcm_crypt_and_tag_def st prod.case Let_def upd
    by (auto simp: c1_def c_def gcm_same_key_def)
qed

text \<open>What a context keyed with \<open>key\<close> holds.\<close>

definition gcm_keyed :: "math_gcm_context \<Rightarrow> bytes \<Rightarrow> nat \<Rightarrow> bool" where
  "gcm_keyed ctx key keybits \<longleftrightarrow>
     gcm_aes_ctx ctx = snd (math_aes_setenckey math_aes_init key keybits) \<and>
     gcm_tables ctx (gcm_hash_key key keybits)"

lemma gcm_keyed_same: "gcm_same_key c d \<Longrightarrow> gcm_keyed d key kb \<Longrightarrow> gcm_keyed c key kb"
  by (simp add: gcm_keyed_def gcm_same_key_def gcm_tables_def gcm_entry_def)

lemma gcm_keyed_block: "gcm_keyed ctx key kb \<Longrightarrow> aes_block ctx = aes_of_key key kb"
  by (simp add: gcm_keyed_def aes_block_def aes_of_key_def fun_eq_iff)

lemma setkey_keyed:
  assumes "kb \<in> {128, 192, 256}" "length (HH ctx) = 16" "length (HL ctx) = 16"
  shows "fst (math_gcm_setkey ctx key kb) = 0" "gcm_keyed (snd (math_gcm_setkey ctx key kb)) key kb"
  using gcm_setkey_tables [OF assms, of key]
  by (auto simp: gcm_keyed_def gcm_hash_key_def aes_of_key_def)

text \<open>The outputs that the standard gives for a plaintext.\<close>

definition gcm_encrypt_spec :: "bytes \<Rightarrow> nat \<Rightarrow> bytes \<Rightarrow> bytes \<Rightarrow> bytes \<Rightarrow> bytes \<times> bytes" where
  "gcm_encrypt_spec key kb iv add p =
     (let c = gctr (aes_of_key key kb) (gcm_j0 (gcm_hash_key key kb) iv) p
      in (c, gcm_tag (aes_of_key key kb) (gcm_hash_key key kb) iv add c))"

definition gcm_decrypt_spec :: "bytes \<Rightarrow> nat \<Rightarrow> bytes \<Rightarrow> bytes \<Rightarrow> bytes \<Rightarrow> bytes \<Rightarrow> bytes option" where
  "gcm_decrypt_spec key kb iv add c tag =
     (if tag = take (length tag) (gcm_tag (aes_of_key key kb) (gcm_hash_key key kb) iv add c)
      then Some (gctr (aes_of_key key kb) (gcm_j0 (gcm_hash_key key kb) iv) c) else None)"

lemma length_aes_of_key [simp]: "length (aes_of_key key kb b) = 16"
  by (simp add: aes_of_key_def)

lemma length_gcm_tag [simp]: "length (gcm_tag (aes_of_key key kb) h iv add c) = 16"
  using ghash_final [of "macsec_wr_be64 (of_nat (length add) * 8) @ macsec_wr_be64 (of_nat (length c) * 8)" h add c]
  by (simp add: gcm_tag_def)

lemma gcm_spec_inverse:
  assumes "gcm_encrypt_spec key kb iv add p = (c, t)"
  shows "length c = length p" "length t = 16" "n \<le> 16 \<Longrightarrow> gcm_decrypt_spec key kb iv add c (take n t) = Some p"
  using assms by (auto simp: gcm_encrypt_spec_def gcm_decrypt_spec_def Let_def length_gctr gctr_gctr)

lemma gcm_encrypt_code:
  assumes "gcm_keyed ctx key kb" "gcm_fits iv add" "length p \<le> 0xFFFFFFFE0"
    and "4 \<le> tag_len" "tag_len \<le> 16" "tag_len \<le> length tag"
    and "gcm_encrypt_spec key kb iv add p = (c, t)"
  shows "\<exists>ctx'. math_gcm_crypt_and_tag False ctx MATH_GCM_ENCRYPT iv add p output tag_len tag =
    (0, ctx', arr_put output c, arr_put tag (take tag_len t)) \<and> gcm_same_key ctx' ctx"
  using crypt_and_tag_eq [of ctx "gcm_hash_key key kb" MATH_GCM_ENCRYPT iv add p tag_len tag "output"]
    gcm_keyed_block [OF assms(1)] assms
  by (auto simp: gcm_keyed_def gcm_encrypt_spec_def Let_def)

lemma tag_diff:
  "fold (\<lambda>i diff. diff OR uint (a ! i XOR b ! i)) [0..<n] (d :: int) = 0 \<longleftrightarrow>
     d = 0 \<and> (\<forall>i < n. a ! i = (b ! i :: u8))"
  by (induction n) (auto simp: or_eq_0_iff uint_0_iff xor_eq_zero_iff less_Suc_eq)

lemma gcm_decrypt_code:
  assumes "gcm_keyed ctx key kb" "gcm_fits iv add" "length c \<le> 0xFFFFFFFE0" "length c \<le> length output"
    and "4 \<le> length tag" "length tag \<le> 16"
  shows "\<exists>ctx'. math_gcm_auth_decrypt False ctx iv add tag (length tag) c output =
    (case gcm_decrypt_spec key kb iv add c tag of
       Some p \<Rightarrow> (0, ctx', arr_put output p)
     | None \<Rightarrow> (MATH_ERR_GCM_AUTH_FAILED, ctx', arr_put output (replicate (length c) 0))) \<and>
    gcm_same_key ctx' ctx"
proof -
  let ?t = "gcm_tag (aes_of_key key kb) (gcm_hash_key key kb) iv add c"
  let ?p = "gctr (aes_of_key key kb) (gcm_j0 (gcm_hash_key key kb) iv) c"
  obtain ctx' where ct: "math_gcm_crypt_and_tag False ctx MATH_GCM_DECRYPT iv add c output (length tag) (replicate 16 0) =
      (0, ctx', arr_put output ?p, arr_put (replicate 16 0) (take (length tag) ?t))" "gcm_same_key ctx' ctx"
    using crypt_and_tag_eq [of ctx "gcm_hash_key key kb" MATH_GCM_DECRYPT iv add c "length tag" "replicate 16 0" "output"]
      gcm_keyed_block [OF assms(1)] assms
    by (auto simp: gcm_keyed_def MATH_GCM_DECRYPT_def MATH_GCM_ENCRYPT_def)
  have same: "(\<forall>i < length tag. tag ! i = arr_put (replicate 16 0) (take (length tag) ?t) ! i) \<longleftrightarrow>
      tag = take (length tag) ?t"
    using assms(6) by (auto simp: arr_put_def list_eq_iff_nth_eq nth_append)
  have diff: "fold (\<lambda>i diff. diff OR uint (tag ! i XOR arr_put (replicate 16 0) (take (length tag) ?t) ! i))
      [0..<length tag] (0 :: int) = 0 \<longleftrightarrow> tag = take (length tag) ?t"
    unfolding tag_diff same by simp
  have z: "macsec_zeroize (arr_put output ?p) (length c) = arr_put output (replicate (length c) 0)"
    using assms(4) by (simp add: macsec_zeroize_eq arr_put_def length_gctr)
  show ?thesis
    unfolding math_gcm_auth_decrypt_def ct(1) Let_def prod.case diff gcm_decrypt_spec_def z
    using ct(2) by (cases "tag = take (length tag) ?t") (simp_all only: if_True if_False not_True_eq_False
        not_False_eq_True option.case simp_thms, blast+)
qed

subsection \<open>Properties of the entry points\<close>

lemma setkey_init_keyed:
  "kb \<in> {128, 192, 256} \<Longrightarrow> gcm_keyed (snd (math_gcm_setkey math_gcm_init key kb)) key kb"
  by (rule setkey_keyed) (simp_all add: math_gcm_init_def)

text \<open>
  C13. For every key of 128, 192 or 256 bits, \<open>math_gcm_crypt_and_tag\<close> in encrypt
  mode returns 0, writes the ciphertext of the NIST SP 800-38D specification to the front of the
  output and the truncated tag of the specification to the front of the tag buffer. The
  specification multiplies in GF(2^128) bit by bit; the code uses the 4-bit tables of
  \<open>math_gcm_setkey\<close>.
\<close>

theorem gcm_encrypt_conforms:
  assumes "kb \<in> {128, 192, 256}" "gcm_fits iv add" "length p \<le> 0xFFFFFFFE0"
    and "4 \<le> tag_len" "tag_len \<le> 16" "tag_len \<le> length tag"
  shows "let (ret, ctx, output', tag') =
           math_gcm_crypt_and_tag False (snd (math_gcm_setkey math_gcm_init key kb)) MATH_GCM_ENCRYPT
             iv add p output tag_len tag;
           (c, t) = gcm_encrypt_spec key kb iv add p
         in ret = 0 \<and> output' = arr_put output c \<and> tag' = arr_put tag (take tag_len t)"
proof -
  obtain c t where spec: "gcm_encrypt_spec key kb iv add p = (c, t)" by fastforce
  from gcm_encrypt_code [OF setkey_init_keyed [OF assms(1)] assms(2-6) spec, of "output"]
  show ?thesis by (auto simp: spec)
qed

lemma gcm_encrypt_conforms_witness:
  "let (ret, ctx, output', tag') =
     math_gcm_crypt_and_tag False (snd (math_gcm_setkey math_gcm_init (replicate 16 3) 128)) MATH_GCM_ENCRYPT
       [1, 2, 3] [4, 5] [6, 7, 8] [0, 0, 0, 0] 16 (replicate 16 0);
     (c, t) = gcm_encrypt_spec (replicate 16 3) 128 [1, 2, 3] [4, 5] [6, 7, 8]
   in ret = 0 \<and> output' = arr_put [0, 0, 0, 0] c \<and> tag' = arr_put (replicate 16 0) (take 16 t)"
  by (rule gcm_encrypt_conforms) (simp_all add: gcm_fits_def)

text \<open>
  C29. What \<open>math_gcm_crypt_and_tag\<close> encrypted, \<open>math_gcm_auth_decrypt\<close> accepts and
  decrypts, for every key size, initialization vector, additional data and tag length, and even
  though both calls leave their state behind in the context.
\<close>

theorem gcm_decrypt_encrypt:
  assumes "kb \<in> {128, 192, 256}" "gcm_fits iv add" "length p \<le> 0xFFFFFFFE0"
    and "4 \<le> tag_len" "tag_len \<le> 16" "tag_len \<le> length tag" "length p \<le> length plain"
    and "math_gcm_crypt_and_tag False (snd (math_gcm_setkey math_gcm_init key kb)) MATH_GCM_ENCRYPT
           iv add p cipher tag_len tag = (ret, ctx', cipher', tag')"
  shows "\<exists>ctx''. math_gcm_auth_decrypt False ctx' iv add (take tag_len tag') tag_len (take (length p) cipher') plain =
           (0, ctx'', arr_put plain p)"
proof -
  obtain c t where spec: "gcm_encrypt_spec key kb iv add p = (c, t)" by fastforce
  note inv = gcm_spec_inverse [OF spec]
  have e: "cipher' = arr_put cipher c" "tag' = arr_put tag (take tag_len t)" "gcm_keyed ctx' key kb"
    using gcm_encrypt_code [OF setkey_init_keyed [OF assms(1)] assms(2-6) spec, of cipher] assms(8)
      setkey_init_keyed [OF assms(1), of key] gcm_keyed_same by auto
  have t: "take tag_len tag' = take tag_len t" "length (take tag_len t) = tag_len" "take (length p) cipher' = c"
    using assms(5) inv(1,2) by (simp_all add: e arr_put_def)
  show ?thesis
    using gcm_decrypt_code [OF e(3) assms(2), of c plain "take tag_len t"] assms(3-7) inv t
    by auto
qed

lemma gcm_decrypt_encrypt_witness:
  "\<exists>ctx' cipher' tag' ctx''.
     math_gcm_crypt_and_tag False (snd (math_gcm_setkey math_gcm_init (replicate 16 3) 128)) MATH_GCM_ENCRYPT
       [1, 2, 3] [4, 5] [6, 7, 8] [0, 0, 0, 0] 16 (replicate 16 0) = (0, ctx', cipher', tag') \<and>
     math_gcm_auth_decrypt False ctx' [1, 2, 3] [4, 5] (take 16 tag') 16 (take 3 cipher') [0, 0, 0] = (0, ctx'', [6, 7, 8])"
proof -
  obtain c t where spec: "gcm_encrypt_spec (replicate 16 3) 128 [1, 2, 3] [4, 5] [6, 7, 8] = (c, t)" by fastforce
  obtain ctx' cipher' tag' where e:
    "math_gcm_crypt_and_tag False (snd (math_gcm_setkey math_gcm_init (replicate 16 3) 128)) MATH_GCM_ENCRYPT
       [1, 2, 3] [4, 5] [6, 7, 8] [0, 0, 0, 0] 16 (replicate 16 0) = (0, ctx', cipher', tag')"
    using gcm_encrypt_code [OF setkey_init_keyed _ _ _ _ _ spec, of 16 "replicate 16 0" "[0, 0, 0, 0]"]
    by (auto simp: gcm_fits_def)
  from gcm_decrypt_encrypt [OF _ _ _ _ _ _ _ e, of "[0, 0, 0]"] e show ?thesis
    by (auto simp: gcm_fits_def arr_put_def numeral_3_eq_3)
qed

text \<open>
  If the tag is not the tag of the specification for this ciphertext and
  additional data, \<open>math_gcm_auth_decrypt\<close> returns the authentication error and the bytes that
  held the plaintext are zero.
\<close>

theorem gcm_wrong_tag_erases:
  assumes "kb \<in> {128, 192, 256}" "gcm_fits iv add" "length c \<le> 0xFFFFFFFE0" "length c \<le> length plain"
    and "4 \<le> length tag" "length tag \<le> 16"
    and "gcm_decrypt_spec key kb iv add c tag = None"
  shows "let (ret, ctx, plain') =
           math_gcm_auth_decrypt False (snd (math_gcm_setkey math_gcm_init key kb)) iv add tag (length tag) c plain
         in ret = MATH_ERR_GCM_AUTH_FAILED \<and> plain' = replicate (length c) 0 @ drop (length c) plain"
  using gcm_decrypt_code [OF setkey_init_keyed [OF assms(1)] assms(2-6), of key] assms(7)
  by (auto simp: arr_put_def)

lemma gcm_wrong_tag_erases_witness:
  "let tag = map NOT (gcm_tag (aes_of_key (replicate 16 3) 128) (gcm_hash_key (replicate 16 3) 128) [1] [2] [3]);
       (ret, ctx, plain') = math_gcm_auth_decrypt False (snd (math_gcm_setkey math_gcm_init (replicate 16 3) 128))
         [1] [2] tag (length tag) [3] [9, 9]
   in ret = MATH_ERR_GCM_AUTH_FAILED \<and> plain' = [0, 9]"
proof -
  let ?t = "gcm_tag (aes_of_key (replicate 16 3) 128) (gcm_hash_key (replicate 16 3) 128) [1] [2] [3]"
  have "map NOT ?t \<noteq> ?t"
  proof
    assume "map NOT ?t = ?t"
    then have "map NOT ?t ! 0 = ?t ! 0" by simp
    moreover have "map NOT ?t ! 0 = NOT (?t ! 0)" by (rule nth_map) simp
    ultimately have "bit (NOT (?t ! 0)) 0 = bit (?t ! 0) 0" by simp
    then show False by (simp add: bit_not_iff)
  qed
  then have "gcm_decrypt_spec (replicate 16 3) 128 [1] [2] [3] (map NOT ?t) = None"
    by (simp add: gcm_decrypt_spec_def)
  from gcm_wrong_tag_erases [OF _ _ _ _ _ _ this, of "[9, 9]"] show ?thesis
    unfolding Let_def by (simp add: gcm_fits_def)
qed

end
