(* ===== verification/FrameCrypto.thy ===== *)
theory FrameCrypto
  imports GcmSpec
begin

text \<open>
  \<open>frame_crypto.c\<close>: protection and recovery of Ethernet frames. The context
  \<open>macsec_frame_crypto_ctx_t\<close> is a record with one transmit SAK, four receive SAKs (a list of length
  4), the replay configuration and the GCM context with the key it is loaded with. Frames are byte
  lists whose length is the length argument; the output buffers \<open>secure\<close> and \<open>plain\<close> are passed
  with their contents and returned updated, together with the stored output length. The input and
  the output buffer of a call are different objects, so the overlap test of \<open>gcm_update\<close> is false.
  A result \<open>None\<close> is a failed assertion or an access outside a buffer.
\<close>

subsection \<open>Data\<close>

definition MACSEC_FRAME_ETHERTYPE :: u16 where "MACSEC_FRAME_ETHERTYPE = 0x88E5"

definition MACSEC_FRAME_TCI_BASE :: u8 where "MACSEC_FRAME_TCI_BASE = 0x2C"

definition MACSEC_FRAME_TCI_MASK :: u8 where "MACSEC_FRAME_TCI_MASK = 0xFC"

abbreviation (input) MACSEC_FRAME_ETH_HDR_LEN :: nat where "MACSEC_FRAME_ETH_HDR_LEN \<equiv> 14"
abbreviation (input) MACSEC_FRAME_SECTAG_LEN :: nat where "MACSEC_FRAME_SECTAG_LEN \<equiv> 14"
abbreviation (input) MACSEC_FRAME_ICV_LEN :: nat where "MACSEC_FRAME_ICV_LEN \<equiv> 16"
abbreviation (input) MACSEC_FRAME_AAD_LEN :: nat where "MACSEC_FRAME_AAD_LEN \<equiv> 28"
abbreviation (input) MACSEC_FRAME_SCI_LEN :: nat where "MACSEC_FRAME_SCI_LEN \<equiv> 8"
abbreviation (input) MACSEC_FRAME_MAX_SA :: nat where "MACSEC_FRAME_MAX_SA \<equiv> 4"
abbreviation (input) MACSEC_FRAME_MAX_KEY_LEN :: nat where "MACSEC_FRAME_MAX_KEY_LEN \<equiv> 32"
abbreviation (input) MACSEC_FRAME_MAX_REPLAY_WINDOW :: nat where "MACSEC_FRAME_MAX_REPLAY_WINDOW \<equiv> 64"
abbreviation (input) MACSEC_FRAME_MAX_PLAIN_SIZE :: nat where "MACSEC_FRAME_MAX_PLAIN_SIZE \<equiv> 1600"
abbreviation (input) MACSEC_FRAME_MAX_SECURE_SIZE :: nat where "MACSEC_FRAME_MAX_SECURE_SIZE \<equiv> 1700"
abbreviation (input) MACSEC_FRAME_SHORT_LEN_MAX :: nat where "MACSEC_FRAME_SHORT_LEN_MAX \<equiv> 48"

record macsec_frame_sak =
  fs_key :: bytes
  fs_key_len :: u8
  fs_an :: u8
  fs_next_pn :: u32
  fs_lowest_acceptable_pn :: u32
  fs_highest_received_pn :: u32
  fs_replay_bitmap :: u64
  fs_replay_exhausted :: bool
  fs_valid :: bool

record macsec_frame_crypto_ctx =
  fc_local_sci :: bytes
  fc_tx_sak :: macsec_frame_sak
  fc_rx_sak :: "macsec_frame_sak list"
  fc_encrypt :: bool
  fc_replay_protect :: bool
  fc_replay_window :: u32
  fc_gcm :: math_gcm_context
  fc_gcm_initialized :: bool
  fc_current_gcm_key :: bytes
  fc_current_gcm_key_len :: u8
  fc_current_gcm_key_valid :: bool

text \<open>The all-zero record that \<open>memset\<close> and \<open>macsec_zeroize\<close> leave.\<close>

definition frame_sak_zero :: macsec_frame_sak where
  "frame_sak_zero = \<lparr>fs_key = replicate 32 0, fs_key_len = 0, fs_an = 0, fs_next_pn = 0,
     fs_lowest_acceptable_pn = 0, fs_highest_received_pn = 0, fs_replay_bitmap = 0,
     fs_replay_exhausted = False, fs_valid = False\<rparr>"

definition frame_ctx_zero :: macsec_frame_crypto_ctx where
  "frame_ctx_zero = \<lparr>fc_local_sci = replicate 8 0, fc_tx_sak = frame_sak_zero,
     fc_rx_sak = replicate 4 frame_sak_zero, fc_encrypt = False, fc_replay_protect = False,
     fc_replay_window = 0, fc_gcm = math_gcm_init, fc_gcm_initialized = False,
     fc_current_gcm_key = replicate 32 0, fc_current_gcm_key_len = 0, fc_current_gcm_key_valid = False\<rparr>"

subsection \<open>The GCM key cache\<close>

definition macsec_frame_key_len_valid :: "u8 \<Rightarrow> bool" where
  "macsec_frame_key_len_valid key_len \<longleftrightarrow> key_len = 16 \<or> key_len = 32"

definition macsec_frame_gcm_setkey ::
  "macsec_frame_crypto_ctx \<Rightarrow> bytes \<Rightarrow> u8 \<Rightarrow> (macsec_ret \<times> macsec_frame_crypto_ctx) option" where
  "macsec_frame_gcm_setkey ctx key key_len =
     (if \<not> macsec_frame_key_len_valid key_len then None
      else if fc_current_gcm_key_valid ctx \<and> fc_current_gcm_key_len ctx = key_len \<and>
              macsec_compare (fc_current_gcm_key ctx) key (unat key_len) = 0
      then Some (MACSEC_ERR_OK, ctx)
      else
        let ctx = (if fc_gcm_initialized ctx
                   then ctx\<lparr>fc_gcm := math_gcm_free (fc_gcm ctx), fc_gcm_initialized := False\<rparr>
                   else ctx);
            ctx = ctx\<lparr>fc_gcm := math_gcm_init, fc_gcm_initialized := True\<rparr>;
            (ret, gcm) = math_gcm_setkey (fc_gcm ctx) (take (unat key_len) key) (unat key_len * 8);
            ctx = ctx\<lparr>fc_gcm := gcm\<rparr>
        in if ret \<noteq> 0
           then Some (MACSEC_ERR_CRYPTO,
                  ctx\<lparr>fc_current_gcm_key := macsec_zeroize (fc_current_gcm_key ctx) 32,
                      fc_current_gcm_key_len := 0, fc_current_gcm_key_valid := False\<rparr>)
           else
             let cached = arr_put (fc_current_gcm_key ctx) (take (unat key_len) key);
                 cached = (if unat key_len < 32
                           then take (unat key_len) cached @
                                macsec_zeroize (drop (unat key_len) cached) (32 - unat key_len)
                           else cached)
             in Some (MACSEC_ERR_OK,
                  ctx\<lparr>fc_current_gcm_key := cached, fc_current_gcm_key_len := key_len,
                      fc_current_gcm_key_valid := True\<rparr>))"

subsection \<open>Replay window\<close>

definition macsec_frame_replay_mask :: "u32 \<Rightarrow> u64 option" where
  "macsec_frame_replay_mask replay_window =
     (if \<not> replay_window > 0 then None
      else if \<not> unat replay_window \<le> MACSEC_FRAME_MAX_REPLAY_WINDOW then None
      else if unat replay_window = MACSEC_FRAME_MAX_REPLAY_WINDOW then Some (- 1)
      else Some (push_bit (unat replay_window) 1 - 1))"

definition macsec_frame_replay_check ::
  "macsec_frame_crypto_ctx \<Rightarrow> macsec_frame_sak \<Rightarrow> u32 \<Rightarrow> macsec_ret" where
  "macsec_frame_replay_check ctx sak pn =
     (if \<not> fc_replay_protect ctx then MACSEC_ERR_OK
      else if \<not> unat (fc_replay_window ctx) \<le> MACSEC_FRAME_MAX_REPLAY_WINDOW then MACSEC_ERR_UNSUPPORTED
      else if fs_replay_exhausted sak then MACSEC_ERR_REPLAY
      else if pn < fs_lowest_acceptable_pn sak then MACSEC_ERR_REPLAY
      else if fc_replay_window ctx = 0 then MACSEC_ERR_OK
      else if fs_highest_received_pn sak = 0 \<or> pn > fs_highest_received_pn sak then MACSEC_ERR_OK
      else
        let distance = fs_highest_received_pn sak - pn in
        if distance \<ge> fc_replay_window ctx then MACSEC_ERR_REPLAY
        else if fs_replay_bitmap sak AND push_bit (unat distance) 1 \<noteq> 0 then MACSEC_ERR_REPLAY
        else MACSEC_ERR_OK)"

definition macsec_frame_replay_commit ::
  "macsec_frame_crypto_ctx \<Rightarrow> macsec_frame_sak \<Rightarrow> u32 \<Rightarrow> macsec_frame_sak option" where
  "macsec_frame_replay_commit ctx sak pn =
     (if \<not> fc_replay_protect ctx then None
      else if \<not> unat (fc_replay_window ctx) \<le> MACSEC_FRAME_MAX_REPLAY_WINDOW then None
      else if fc_replay_window ctx = 0 then
        let sak = sak\<lparr>fs_highest_received_pn := pn, fs_replay_bitmap := 1\<rparr> in
        Some (if pn = - 1 then sak\<lparr>fs_lowest_acceptable_pn := - 1, fs_replay_exhausted := True\<rparr>
              else sak\<lparr>fs_lowest_acceptable_pn := pn + 1\<rparr>)
      else do {
        mask \<leftarrow> macsec_frame_replay_mask (fc_replay_window ctx);
        let sak =
          (if fs_highest_received_pn sak = 0
           then sak\<lparr>fs_highest_received_pn := pn, fs_replay_bitmap := 1\<rparr>
           else if pn > fs_highest_received_pn sak then
             let shift = pn - fs_highest_received_pn sak;
                 sak = (if shift \<ge> fc_replay_window ctx then sak\<lparr>fs_replay_bitmap := 1\<rparr>
                        else sak\<lparr>fs_replay_bitmap :=
                               (push_bit (unat shift) (fs_replay_bitmap sak) OR 1) AND mask\<rparr>)
             in sak\<lparr>fs_highest_received_pn := pn\<rparr>
           else
             let distance = fs_highest_received_pn sak - pn;
                 sak = sak\<lparr>fs_replay_bitmap := fs_replay_bitmap sak OR push_bit (unat distance) 1\<rparr>
             in sak\<lparr>fs_replay_bitmap := fs_replay_bitmap sak AND mask\<rparr>);
        let new_lowest_pn =
          (if fs_highest_received_pn sak \<ge> fc_replay_window ctx
           then fs_highest_received_pn sak - fc_replay_window ctx + 1 else 1);
        Some (if new_lowest_pn > fs_lowest_acceptable_pn sak
              then sak\<lparr>fs_lowest_acceptable_pn := new_lowest_pn\<rparr> else sak)
      })"

subsection \<open>Context operations\<close>

definition macsec_frame_crypto_init :: "bytes \<Rightarrow> macsec_ret \<times> macsec_frame_crypto_ctx" where
  "macsec_frame_crypto_init local_sci =
     (MACSEC_ERR_OK,
      frame_ctx_zero\<lparr>fc_local_sci := local_sci, fc_encrypt := True, fc_replay_protect := True,
        fc_replay_window := 0, fc_gcm := math_gcm_init, fc_gcm_initialized := True\<rparr>)"

definition macsec_frame_crypto_clear :: "macsec_frame_crypto_ctx \<Rightarrow> macsec_frame_crypto_ctx" where
  "macsec_frame_crypto_clear ctx = frame_ctx_zero"

definition macsec_frame_crypto_set_tx_sak ::
  "macsec_frame_crypto_ctx \<Rightarrow> macsec_frame_sak \<Rightarrow> macsec_ret \<times> macsec_frame_crypto_ctx" where
  "macsec_frame_crypto_set_tx_sak ctx sak =
     (if \<not> fs_valid sak then (MACSEC_ERR_PARAM, ctx)
      else if \<not> macsec_frame_key_len_valid (fs_key_len sak) then (MACSEC_ERR_PARAM, ctx)
      else if \<not> unat (fs_an sak) < MACSEC_FRAME_MAX_SA then (MACSEC_ERR_PARAM, ctx)
      else
        let tx_sak = (if fs_next_pn sak = 0 then sak\<lparr>fs_next_pn := 1\<rparr> else sak);
            tx_sak = tx_sak\<lparr>fs_highest_received_pn := 0, fs_replay_bitmap := 0, fs_replay_exhausted := False\<rparr>
        in (MACSEC_ERR_OK, ctx\<lparr>fc_tx_sak := tx_sak\<rparr>))"

definition macsec_frame_crypto_set_rx_sak ::
  "macsec_frame_crypto_ctx \<Rightarrow> macsec_frame_sak \<Rightarrow> macsec_ret \<times> macsec_frame_crypto_ctx" where
  "macsec_frame_crypto_set_rx_sak ctx sak =
     (if \<not> fs_valid sak then (MACSEC_ERR_PARAM, ctx)
      else if \<not> macsec_frame_key_len_valid (fs_key_len sak) then (MACSEC_ERR_PARAM, ctx)
      else if \<not> unat (fs_an sak) < MACSEC_FRAME_MAX_SA then (MACSEC_ERR_PARAM, ctx)
      else
        let an = unat (fs_an sak);
            rx = (if fs_lowest_acceptable_pn sak = 0 then sak\<lparr>fs_lowest_acceptable_pn := 1\<rparr> else sak);
            rx = (if fs_highest_received_pn rx = 0 \<and> fs_replay_bitmap rx = 0 \<and>
                     fs_lowest_acceptable_pn rx > 1
                  then rx\<lparr>fs_highest_received_pn := fs_lowest_acceptable_pn rx - 1\<rparr> else rx)
        in (MACSEC_ERR_OK, ctx\<lparr>fc_rx_sak := (fc_rx_sak ctx)[an := rx]\<rparr>))"

definition macsec_frame_crypto_ready_tx :: "macsec_frame_crypto_ctx \<Rightarrow> bool" where
  "macsec_frame_crypto_ready_tx ctx \<longleftrightarrow>
     fs_valid (fc_tx_sak ctx) \<and> macsec_frame_key_len_valid (fs_key_len (fc_tx_sak ctx)) \<and>
     fs_next_pn (fc_tx_sak ctx) \<noteq> 0"

definition macsec_frame_crypto_ready_rx :: "macsec_frame_crypto_ctx \<Rightarrow> nat \<Rightarrow> bool" where
  "macsec_frame_crypto_ready_rx ctx an \<longleftrightarrow>
     \<not> an \<ge> MACSEC_FRAME_MAX_SA \<and>
     fs_valid (fc_rx_sak ctx ! an) \<and> macsec_frame_key_len_valid (fs_key_len (fc_rx_sak ctx ! an)) \<and>
     \<not> fs_replay_exhausted (fc_rx_sak ctx ! an)"

definition macsec_frame_is_macsec :: "bytes \<Rightarrow> bool option" where
  "macsec_frame_is_macsec frame =
     (if length frame < MACSEC_FRAME_ETH_HDR_LEN then Some False
      else do {
        t \<leftarrow> buf_at frame 12 2;
        Some (macsec_rd_be16 t = MACSEC_FRAME_ETHERTYPE)
      })"

definition macsec_frame_crypto_remove_tx_sak ::
  "macsec_frame_crypto_ctx \<Rightarrow> macsec_ret \<times> macsec_frame_crypto_ctx" where
  "macsec_frame_crypto_remove_tx_sak ctx =
     (MACSEC_ERR_OK,
      ctx\<lparr>fc_tx_sak := frame_sak_zero,
          fc_current_gcm_key := macsec_zeroize (fc_current_gcm_key ctx) 32,
          fc_current_gcm_key_len := 0, fc_current_gcm_key_valid := False\<rparr>)"

definition macsec_frame_crypto_remove_rx_sak ::
  "macsec_frame_crypto_ctx \<Rightarrow> nat \<Rightarrow> macsec_ret \<times> macsec_frame_crypto_ctx" where
  "macsec_frame_crypto_remove_rx_sak ctx an =
     (if \<not> an < MACSEC_FRAME_MAX_SA then (MACSEC_ERR_PARAM, ctx)
      else
        (MACSEC_ERR_OK,
         ctx\<lparr>fc_rx_sak := (fc_rx_sak ctx)[an := frame_sak_zero],
             fc_current_gcm_key := macsec_zeroize (fc_current_gcm_key ctx) 32,
             fc_current_gcm_key_len := 0, fc_current_gcm_key_valid := False\<rparr>))"

subsection \<open>Transmit\<close>

text \<open>The result is the return code, the context, the output buffer and the stored output length.\<close>

definition macsec_frame_encrypt ::
  "macsec_frame_crypto_ctx \<Rightarrow> bytes \<Rightarrow> bytes \<Rightarrow> nat \<Rightarrow>
   (macsec_ret \<times> macsec_frame_crypto_ctx \<times> bytes \<times> nat) option" where
  "macsec_frame_encrypt ctx plain_eth secure_eth secure_eth_max_len =
     (if \<not> fc_encrypt ctx then Some (MACSEC_ERR_UNSUPPORTED, ctx, secure_eth, 0)
      else if \<not> macsec_frame_crypto_ready_tx ctx then Some (MACSEC_ERR_STATE, ctx, secure_eth, 0)
      else if \<not> length plain_eth \<ge> MACSEC_FRAME_ETH_HDR_LEN then Some (MACSEC_ERR_BUFFER, ctx, secure_eth, 0)
      else if \<not> length plain_eth \<le> MACSEC_FRAME_MAX_PLAIN_SIZE then Some (MACSEC_ERR_BUFFER, ctx, secure_eth, 0)
      else
        let secure_len = length plain_eth - 12;
            out_len = MACSEC_FRAME_ETH_HDR_LEN + MACSEC_FRAME_SECTAG_LEN + secure_len + MACSEC_FRAME_ICV_LEN
        in
        if \<not> out_len \<le> MACSEC_FRAME_MAX_SECURE_SIZE then Some (MACSEC_ERR_BUFFER, ctx, secure_eth, 0)
        else if \<not> out_len \<le> secure_eth_max_len then Some (MACSEC_ERR_BUFFER, ctx, secure_eth, 0)
        else
          let pn = fs_next_pn (fc_tx_sak ctx) in
          if \<not> pn \<noteq> 0 then Some (MACSEC_ERR_STATE, ctx, secure_eth, 0)
          else do {
            addresses \<leftarrow> buf_at plain_eth 0 12;
            secure_data \<leftarrow> buf_at plain_eth 12 secure_len;
            secure \<leftarrow> buf_put secure_eth 0 addresses;
            secure \<leftarrow> buf_put secure 12 (macsec_wr_be16 MACSEC_FRAME_ETHERTYPE);
            secure \<leftarrow> buf_put secure 14 [MACSEC_FRAME_TCI_BASE OR (fs_an (fc_tx_sak ctx) AND 0x03)];
            secure \<leftarrow> buf_put secure 15
              [if secure_len < MACSEC_FRAME_SHORT_LEN_MAX then of_nat secure_len else 0];
            secure \<leftarrow> buf_put secure 16 (macsec_wr_be32 pn);
            secure \<leftarrow> buf_put secure 20 (fc_local_sci ctx);
            pn_bytes \<leftarrow> buf_at secure 16 4;
            let iv = fc_local_sci ctx @ pn_bytes;
            (ret, ctx) \<leftarrow> macsec_frame_gcm_setkey ctx (fs_key (fc_tx_sak ctx)) (fs_key_len (fc_tx_sak ctx));
            (if ret \<noteq> MACSEC_ERR_OK then Some (ret, ctx, macsec_zeroize secure out_len, 0)
             else do {
               aad \<leftarrow> buf_at secure 0 MACSEC_FRAME_AAD_LEN;
               ciphertext \<leftarrow> buf_at secure MACSEC_FRAME_AAD_LEN secure_len;
               icv \<leftarrow> buf_at secure (MACSEC_FRAME_AAD_LEN + secure_len) MACSEC_FRAME_ICV_LEN;
               let (ret, gcm, ciphertext, icv) =
                 math_gcm_crypt_and_tag False (fc_gcm ctx) MATH_GCM_ENCRYPT iv aad secure_data ciphertext
                   MACSEC_FRAME_ICV_LEN icv;
               let ctx = ctx\<lparr>fc_gcm := gcm\<rparr>;
               secure \<leftarrow> buf_put secure MACSEC_FRAME_AAD_LEN ciphertext;
               secure \<leftarrow> buf_put secure (MACSEC_FRAME_AAD_LEN + secure_len) icv;
               (if ret \<noteq> 0 then Some (MACSEC_ERR_CRYPTO, ctx, macsec_zeroize secure out_len, 0)
                else
                  let next_pn = (if pn = - 1 then 0 else pn + 1);
                      ctx = ctx\<lparr>fc_tx_sak := (fc_tx_sak ctx)\<lparr>fs_next_pn := next_pn\<rparr>\<rparr>
                  in Some (MACSEC_ERR_OK, ctx, secure, out_len))
             })
          })"

subsection \<open>Receive\<close>

text \<open>
  \<open>macsec_frame_decrypt\<close> after its checks: key, authenticated decryption and replay commit for the
  frame with association number \<open>an\<close>, packet number \<open>pn\<close> and \<open>ciphertext_len\<close> bytes of ciphertext.
\<close>

definition frame_decrypt_payload ::
  "macsec_frame_crypto_ctx \<Rightarrow> bytes \<Rightarrow> bytes \<Rightarrow> nat \<Rightarrow> u32 \<Rightarrow> nat \<Rightarrow>
   (macsec_ret \<times> macsec_frame_crypto_ctx \<times> bytes \<times> nat) option" where
  "frame_decrypt_payload ctx secure_eth plain_eth an pn ciphertext_len = do {
     let sak = fc_rx_sak ctx ! an;
     sci \<leftarrow> buf_at secure_eth 20 MACSEC_FRAME_SCI_LEN;
     pn_bytes \<leftarrow> buf_at secure_eth 16 4;
     let iv = sci @ pn_bytes;
     addresses \<leftarrow> buf_at secure_eth 0 12;
     plain \<leftarrow> buf_put plain_eth 0 addresses;
     (ret, ctx) \<leftarrow> macsec_frame_gcm_setkey ctx (fs_key sak) (fs_key_len sak);
     (if ret \<noteq> MACSEC_ERR_OK then Some (ret, ctx, macsec_zeroize plain 12, 0)
      else do {
        aad \<leftarrow> buf_at secure_eth 0 MACSEC_FRAME_AAD_LEN;
        icv \<leftarrow> buf_at secure_eth (length secure_eth - MACSEC_FRAME_ICV_LEN) MACSEC_FRAME_ICV_LEN;
        ciphertext \<leftarrow> buf_at secure_eth MACSEC_FRAME_AAD_LEN ciphertext_len;
        output \<leftarrow> buf_at plain 12 ciphertext_len;
        let (ret, gcm, output) =
          math_gcm_auth_decrypt False (fc_gcm ctx) iv aad icv MACSEC_FRAME_ICV_LEN ciphertext output;
        let ctx = ctx\<lparr>fc_gcm := gcm\<rparr>;
        plain \<leftarrow> buf_put plain 12 output;
        (if ret \<noteq> 0 then Some (MACSEC_ERR_AUTH, ctx, macsec_zeroize plain (12 + ciphertext_len), 0)
         else do {
           ctx \<leftarrow> (if fc_replay_protect ctx
                   then do {
                     sak \<leftarrow> macsec_frame_replay_commit ctx sak pn;
                     Some (ctx\<lparr>fc_rx_sak := (fc_rx_sak ctx)[an := sak]\<rparr>)
                   }
                   else Some ctx);
           Some (MACSEC_ERR_OK, ctx, plain, 12 + ciphertext_len)
         })
      })
   }"

definition macsec_frame_decrypt ::
  "macsec_frame_crypto_ctx \<Rightarrow> bytes \<Rightarrow> bytes \<Rightarrow> nat \<Rightarrow>
   (macsec_ret \<times> macsec_frame_crypto_ctx \<times> bytes \<times> nat) option" where
  "macsec_frame_decrypt ctx secure_eth plain_eth plain_eth_max_len =
     (if \<not> length secure_eth \<le> MACSEC_FRAME_MAX_SECURE_SIZE then Some (MACSEC_ERR_BUFFER, ctx, plain_eth, 0)
      else do {
        is_macsec \<leftarrow> macsec_frame_is_macsec secure_eth;
        (if \<not> is_macsec then Some (MACSEC_ERR_PARAM, ctx, plain_eth, 0)
         else if \<not> length secure_eth \<ge> MACSEC_FRAME_AAD_LEN + MACSEC_FRAME_ICV_LEN
         then Some (MACSEC_ERR_BUFFER, ctx, plain_eth, 0)
         else do {
           sectag0 \<leftarrow> byte_at secure_eth 14;
           (if \<not> sectag0 AND MACSEC_FRAME_TCI_MASK = MACSEC_FRAME_TCI_BASE
            then Some (MACSEC_ERR_UNSUPPORTED, ctx, plain_eth, 0)
            else
              let an = unat (sectag0 AND 0x03) in
              if \<not> macsec_frame_crypto_ready_rx ctx an then Some (MACSEC_ERR_STATE, ctx, plain_eth, 0)
              else do {
                pn_bytes \<leftarrow> buf_at secure_eth 16 4;
                let pn = macsec_rd_be32 pn_bytes;
                (if \<not> pn \<noteq> 0 then Some (MACSEC_ERR_REPLAY, ctx, plain_eth, 0)
                 else
                   let ret = macsec_frame_replay_check ctx (fc_rx_sak ctx ! an) pn in
                   if ret \<noteq> MACSEC_ERR_OK then Some (ret, ctx, plain_eth, 0)
                   else
                     let ciphertext_len = length secure_eth - MACSEC_FRAME_AAD_LEN - MACSEC_FRAME_ICV_LEN in
                     if \<not> 12 + ciphertext_len \<le> MACSEC_FRAME_MAX_PLAIN_SIZE
                     then Some (MACSEC_ERR_BUFFER, ctx, plain_eth, 0)
                     else if \<not> 12 + ciphertext_len \<le> plain_eth_max_len
                     then Some (MACSEC_ERR_BUFFER, ctx, plain_eth, 0)
                     else do {
                       sectag1 \<leftarrow> byte_at secure_eth 15;
                       (if \<not> sectag1 = (if ciphertext_len < MACSEC_FRAME_SHORT_LEN_MAX
                                       then of_nat ciphertext_len else 0)
                        then Some (MACSEC_ERR_PARAM, ctx, plain_eth, 0)
                        else frame_decrypt_payload ctx secure_eth plain_eth an pn ciphertext_len)
                     })
              })
         })
      })"

end
