(* ===== verification/FrameFacts.thy ===== *)
theory FrameFacts
  imports FrameCrypto
begin

text \<open>
  What the frame operations of theory \<open>FrameCrypto\<close> do on a well-formed context: the key cache always
  leaves the GCM context keyed with the requested key (\<open>frame_gcm_setkey_ok\<close>), receive has three
  outcomes (\<open>frame_decrypt_outcome\<close>) and transmit two (\<open>frame_encrypt_outcome\<close>).
\<close>

subsection \<open>Well-formed contexts\<close>

text \<open>
  The array sizes, and the coherence of the key cache: while it is marked valid, the GCM context is
  keyed with the cached key.
\<close>

definition frame_wf :: "macsec_frame_crypto_ctx \<Rightarrow> bool" where
  "frame_wf ctx \<longleftrightarrow>
     length (fc_local_sci ctx) = 8 \<and> length (fs_key (fc_tx_sak ctx)) = 32 \<and>
     length (fc_rx_sak ctx) = 4 \<and> (\<forall>sak \<in> set (fc_rx_sak ctx). length (fs_key sak) = 32) \<and>
     length (fc_current_gcm_key ctx) = 32 \<and>
     (fc_current_gcm_key_valid ctx \<longrightarrow>
        macsec_frame_key_len_valid (fc_current_gcm_key_len ctx) \<and>
        gcm_keyed (fc_gcm ctx) (take (unat (fc_current_gcm_key_len ctx)) (fc_current_gcm_key ctx))
          (unat (fc_current_gcm_key_len ctx) * 8))"

text \<open>The fields that the key cache does not touch.\<close>

definition frame_same :: "macsec_frame_crypto_ctx \<Rightarrow> macsec_frame_crypto_ctx \<Rightarrow> bool" where
  "frame_same c d \<longleftrightarrow>
     fc_local_sci c = fc_local_sci d \<and> fc_tx_sak c = fc_tx_sak d \<and> fc_rx_sak c = fc_rx_sak d \<and>
     fc_encrypt c = fc_encrypt d \<and> fc_replay_protect c = fc_replay_protect d \<and>
     fc_replay_window c = fc_replay_window d"

lemma frame_same_refl [simp]: "frame_same c c"
  by (simp add: frame_same_def)

lemma key_len_valid_bits:
  assumes "macsec_frame_key_len_valid l"
  shows "unat l \<le> 32" "unat l * 8 \<in> {128, 192, 256}"
  using assms by (auto simp: macsec_frame_key_len_valid_def)

lemma frame_gcm_setkey_ok:
  assumes wf: "frame_wf ctx" and len: "macsec_frame_key_len_valid key_len" "length key = 32"
  shows "\<exists>ctx'. macsec_frame_gcm_setkey ctx key key_len = Some (MACSEC_ERR_OK, ctx') \<and>
    frame_wf ctx' \<and> frame_same ctx' ctx \<and> gcm_keyed (fc_gcm ctx') (take (unat key_len) key) (unat key_len * 8)"
proof -
  note kl = key_len_valid_bits [OF len(1)]
  show ?thesis
  proof (cases "fc_current_gcm_key_valid ctx \<and> fc_current_gcm_key_len ctx = key_len \<and>
              macsec_compare (fc_current_gcm_key ctx) key (unat key_len) = 0")
    case True
    then have "take (unat key_len) (fc_current_gcm_key ctx) = take (unat key_len) key"
      using wf len kl(1) macsec_compare_take [of "unat key_len" "fc_current_gcm_key ctx" key]
      by (simp add: frame_wf_def)
    with True wf len(1) show ?thesis
      by (intro exI [of _ ctx]) (auto simp: macsec_frame_gcm_setkey_def frame_wf_def)
  next
    case False
    let ?k = "take (unat key_len) key"
    obtain gcm where gcm: "math_gcm_setkey math_gcm_init ?k (unat key_len * 8) = (0, gcm)"
      "gcm_keyed gcm ?k (unat key_len * 8)"
      using setkey_keyed [OF kl(2), of math_gcm_init ?k]
      by (metis length_replicate math_gcm_context.select_convs(2,3) math_gcm_init_def prod.collapse)
    define cached where "cached = arr_put (fc_current_gcm_key ctx) ?k"
    define cached' where "cached' = (if unat key_len < 32
                           then take (unat key_len) cached @
                                macsec_zeroize (drop (unat key_len) cached) (32 - unat key_len)
                           else cached)"
    have "length cached = 32" "take (unat key_len) cached = ?k"
      using wf len kl by (simp_all add: cached_def frame_wf_def)
    then have cached': "length cached' = 32" "take (unat key_len) cached' = ?k"
      using kl len by (auto simp: cached'_def)
    let ?ctx = "ctx\<lparr>fc_gcm := gcm, fc_gcm_initialized := True, fc_current_gcm_key := cached',
                             fc_current_gcm_key_len := key_len, fc_current_gcm_key_valid := True\<rparr>"
    have "macsec_frame_gcm_setkey ctx key key_len = Some (MACSEC_ERR_OK, ?ctx)"
      using len(1) gcm(1) unfolding macsec_frame_gcm_setkey_def if_not_P [OF False]
      by (cases "fc_gcm_initialized ctx") (simp_all add: Let_def cached_def cached'_def)
    moreover have "frame_wf ?ctx" "frame_same ?ctx ctx"
      using wf cached' gcm(2) len(1) by (auto simp: frame_wf_def frame_same_def)
    ultimately show ?thesis using gcm(2) by (intro exI [of _ ?ctx]) simp
  qed
qed

subsection \<open>The receive path in one equation\<close>

definition frame_an :: "bytes \<Rightarrow> nat" where "frame_an f = unat (f ! 14 AND 0x03)"

definition frame_pn :: "bytes \<Rightarrow> u32" where "frame_pn f = macsec_rd_be32 (take 4 (drop 16 f))"

definition frame_iv :: "bytes \<Rightarrow> bytes" where "frame_iv f = take 8 (drop 20 f) @ take 4 (drop 16 f)"

definition frame_payload :: "bytes \<Rightarrow> bytes" where "frame_payload f = take (length f - 44) (drop 28 f)"

definition frame_icv :: "bytes \<Rightarrow> bytes" where "frame_icv f = drop (length f - 16) f"

text \<open>The checks before any decryption, in the order of the code: the error returned early, if any.\<close>

definition frame_rx_guard :: "macsec_frame_crypto_ctx \<Rightarrow> bytes \<Rightarrow> nat \<Rightarrow> macsec_ret option" where
  "frame_rx_guard ctx f max_len =
     (if \<not> length f \<le> 1700 then Some MACSEC_ERR_BUFFER
      else if length f < 14 \<or> macsec_rd_be16 (take 2 (drop 12 f)) \<noteq> MACSEC_FRAME_ETHERTYPE then Some MACSEC_ERR_PARAM
      else if length f < 44 then Some MACSEC_ERR_BUFFER
      else if f ! 14 AND MACSEC_FRAME_TCI_MASK \<noteq> MACSEC_FRAME_TCI_BASE then Some MACSEC_ERR_UNSUPPORTED
      else if \<not> macsec_frame_crypto_ready_rx ctx (frame_an f) then Some MACSEC_ERR_STATE
      else if frame_pn f = 0 then Some MACSEC_ERR_REPLAY
      else if macsec_frame_replay_check ctx (fc_rx_sak ctx ! frame_an f) (frame_pn f) \<noteq> MACSEC_ERR_OK
      then Some (macsec_frame_replay_check ctx (fc_rx_sak ctx ! frame_an f) (frame_pn f))
      else if \<not> 12 + (length f - 44) \<le> 1600 then Some MACSEC_ERR_BUFFER
      else if \<not> 12 + (length f - 44) \<le> max_len then Some MACSEC_ERR_BUFFER
      else if f ! 15 \<noteq> (if length f - 44 < 48 then of_nat (length f - 44) else 0) then Some MACSEC_ERR_PARAM
      else None)"

definition frame_open :: "macsec_frame_sak \<Rightarrow> bytes \<Rightarrow> bytes option" where
  "frame_open sak f =
     gcm_decrypt_spec (take (unat (fs_key_len sak)) (fs_key sak)) (unat (fs_key_len sak) * 8)
       (frame_iv f) (take 28 f) (frame_payload f) (frame_icv f)"

definition frame_commit :: "macsec_frame_crypto_ctx \<Rightarrow> macsec_frame_sak \<Rightarrow> u32 \<Rightarrow> macsec_frame_sak option" where
  "frame_commit ctx sak pn = (if fc_replay_protect ctx then macsec_frame_replay_commit ctx sak pn else Some sak)"

lemma frame_an_less: "frame_an f < 4"
proof -
  have "f ! 14 AND 3 = take_bit 2 (f ! 14)" by (simp add: take_bit_eq_mask mask_eq_exp_minus_1)
  then have "frame_an f = take_bit 2 (unat (f ! 14))" by (simp add: frame_an_def unsigned_take_bit_eq)
  then show ?thesis using take_bit_nat_less_exp [of 2 "unat (f ! 14)"] by simp
qed

lemma frame_is_macsec_eq:
  "macsec_frame_is_macsec f =
     Some (\<not> (length f < 14 \<or> macsec_rd_be16 (take 2 (drop 12 f)) \<noteq> MACSEC_FRAME_ETHERTYPE))"
  by (simp add: macsec_frame_is_macsec_def buf_simps)

lemma frame_decrypt_guard:
  "macsec_frame_decrypt ctx f plain max_len =
     (case frame_rx_guard ctx f max_len of
        Some e \<Rightarrow> Some (e, ctx, plain, 0)
      | None \<Rightarrow> frame_decrypt_payload ctx f plain (frame_an f) (frame_pn f) (length f - 44))"
proof (cases "length f \<le> 1700 \<and> \<not> (length f < 14 \<or> macsec_rd_be16 (take 2 (drop 12 f)) \<noteq> MACSEC_FRAME_ETHERTYPE) \<and>
      44 \<le> length f")
  case False
  then consider "\<not> length f \<le> 1700"
    | "length f \<le> 1700" "length f < 14 \<or> macsec_rd_be16 (take 2 (drop 12 f)) \<noteq> MACSEC_FRAME_ETHERTYPE"
    | "length f \<le> 1700" "\<not> (length f < 14 \<or> macsec_rd_be16 (take 2 (drop 12 f)) \<noteq> MACSEC_FRAME_ETHERTYPE)"
      "\<not> 44 \<le> length f" by blast
  then show ?thesis
    by cases (simp_all add: macsec_frame_decrypt_def frame_rx_guard_def frame_is_macsec_eq split del: if_split)
next
  case True
  define n where "n = length f - 44"
  have n: "length f - 28 - 16 = n" using True by (simp add: n_def)
  define pb where "pb = take 4 (drop 16 f)"
  have reads: "byte_at f 14 = Some (f ! 14)" "byte_at f 15 = Some (f ! 15)" "buf_at f 16 4 = Some pb"
    "length f \<le> 1700" "44 \<le> length f"
    "\<not> (length f < 14 \<or> macsec_rd_be16 (take 2 (drop 12 f)) \<noteq> MACSEC_FRAME_ETHERTYPE)" "\<not> length f < 44"
    using True by (simp_all add: byte_at_Some buf_at_Some pb_def)
  show ?thesis
    unfolding macsec_frame_decrypt_def frame_rx_guard_def frame_is_macsec_eq n frame_an_def frame_pn_def
      n_def [symmetric] pb_def [symmetric]
    by (simp add: reads Let_def if_distrib [where f = "case_option x y" for x y] split del: if_split cong: if_cong)
qed

lemma frame_wf_gcm:
  "frame_wf c \<Longrightarrow> gcm_same_key g (fc_gcm c) \<Longrightarrow> frame_wf (c\<lparr>fc_gcm := g\<rparr>)"
  by (auto simp: frame_wf_def gcm_keyed_same)

lemma frame_open_length:
  assumes "frame_open sak f = Some p"
  shows "length p = length (frame_payload f)"
  using assms by (auto simp: frame_open_def gcm_decrypt_spec_def length_gctr split: if_splits)

lemma replay_commit_cong:
  assumes "fc_replay_protect c = fc_replay_protect d" "fc_replay_window c = fc_replay_window d"
  shows "macsec_frame_replay_commit c s pn = macsec_frame_replay_commit d s pn"
  unfolding macsec_frame_replay_commit_def assms ..

lemma frame_decrypt_payload_eq:
  assumes wf: "frame_wf ctx" and an: "macsec_frame_crypto_ready_rx ctx an"
    and len: "44 \<le> length f" "length f \<le> 1700" "n = length f - 44" "12 + n \<le> length plain"
  shows "\<exists>g. frame_wf g \<and> frame_same g ctx \<and>
    frame_decrypt_payload ctx f plain an pn n =
      (case frame_open (fc_rx_sak ctx ! an) f of
         None \<Rightarrow> Some (MACSEC_ERR_AUTH, g, replicate (12 + n) 0 @ drop (12 + n) plain, 0)
       | Some p \<Rightarrow> map_option (\<lambda>sak. (MACSEC_ERR_OK, g\<lparr>fc_rx_sak := (fc_rx_sak ctx)[an := sak]\<rparr>,
                     take 12 f @ p @ drop (12 + n) plain, 12 + n))
                   (frame_commit ctx (fc_rx_sak ctx ! an) pn))"
proof -
  define sak where "sak = fc_rx_sak ctx ! an"
  have an4: "an < 4" and kl: "macsec_frame_key_len_valid (fs_key_len sak)"
    using an by (auto simp: macsec_frame_crypto_ready_rx_def sak_def)
  have "length (fs_key sak) = 32" using wf an4 by (simp add: frame_wf_def sak_def)
  from frame_gcm_setkey_ok [OF wf kl this] obtain c where
    c: "macsec_frame_gcm_setkey ctx (fs_key sak) (fs_key_len sak) = Some (MACSEC_ERR_OK, c)"
      "frame_wf c" "frame_same c ctx" "gcm_keyed (fc_gcm c) (take (unat (fs_key_len sak)) (fs_key sak)) (unat (fs_key_len sak) * 8)"
    by blast
  have reads: "buf_at f 20 8 = Some (take 8 (drop 20 f))" "buf_at f 16 4 = Some (take 4 (drop 16 f))"
    "buf_at f 0 12 = Some (take 12 f)" "buf_at f 0 28 = Some (take 28 f)"
    "buf_at f (length f - 16) 16 = Some (frame_icv f)" "buf_at f 28 n = Some (frame_payload f)"
    using len by (simp_all add: buf_at_Some frame_icv_def frame_payload_def)
  define pl where "pl = take 12 f @ drop 12 plain"
  have pl: "buf_put plain 0 (take 12 f) = Some pl" "buf_at pl 12 n = Some (take n (drop 12 plain))"
    using len by (simp_all add: buf_put_Some buf_at_Some pl_def)
  have put: "buf_put pl 12 (arr_put (take n (drop 12 plain)) q) = Some (take 12 f @ q @ drop (12 + n) plain)"
    if "length q = n" for q
    using that len by (simp add: buf_put_Some pl_def arr_put_def add.commute)
  have fl: "length (frame_payload f) = n" "length (frame_icv f) = 16" "gcm_fits (frame_iv f) (take 28 f)"
    "length (frame_payload f) \<le> 0xFFFFFFFE0" "length (frame_payload f) \<le> length (take n (drop 12 plain))"
    using len by (simp_all add: gcm_fits_def frame_iv_def frame_icv_def frame_payload_def)
  obtain gcm where dec: "math_gcm_auth_decrypt False (fc_gcm c) (frame_iv f) (take 28 f) (frame_icv f) 16
        (frame_payload f) (take n (drop 12 plain)) =
      (case frame_open sak f of
         Some p \<Rightarrow> (0, gcm, arr_put (take n (drop 12 plain)) p)
       | None \<Rightarrow> (MATH_ERR_GCM_AUTH_FAILED, gcm, arr_put (take n (drop 12 plain)) (replicate n 0)))"
      "gcm_same_key gcm (fc_gcm c)"
    using gcm_decrypt_code [OF c(4) fl(3-5), of "frame_icv f"]
    unfolding fl(1,2) frame_open_def by auto
  let ?g = "c\<lparr>fc_gcm := gcm\<rparr>"
  have g: "frame_wf ?g" "frame_same ?g ctx"
    using c(2,3) dec(2) frame_wf_gcm by (auto simp: frame_same_def)
  have n: "length (frame_payload f) = n" using len by (simp add: frame_payload_def)
  have z: "macsec_zeroize (take 12 f @ replicate n 0 @ drop (12 + n) plain) (12 + n) = replicate (12 + n) 0 @ drop (12 + n) plain"
    using len by (simp add: macsec_zeroize_eq)
  have "fc_replay_protect ?g = fc_replay_protect ctx" "fc_rx_sak ?g = fc_rx_sak ctx"
    using g(2) by (simp_all add: frame_same_def)
  moreover have "macsec_frame_replay_commit ?g s pn = macsec_frame_replay_commit ctx s pn" for s
    using g(2) by (intro replay_commit_cong) (simp_all add: frame_same_def)
  moreover have "c\<lparr>fc_gcm := gcm, fc_rx_sak := (fc_rx_sak ctx)[an := sak]\<rparr> = c\<lparr>fc_gcm := gcm\<rparr>"
    using c(3) by (cases c) (simp add: sak_def frame_same_def)
  ultimately show ?thesis
    using g z put frame_open_length [of sak f] n dec(1)
    by (intro exI [of _ ?g])
       (cases "frame_open sak f"; cases "macsec_frame_replay_commit ctx sak pn";
        simp add: frame_decrypt_payload_def sak_def [symmetric] reads pl c(1) Let_def frame_iv_def frame_commit_def
          MATH_ERR_GCM_AUTH_FAILED_def list_update_id)
qed

lemma replay_commit_total:
  assumes "fc_replay_protect ctx" "unat (fc_replay_window ctx) \<le> 64"
  shows "\<exists>sak'. macsec_frame_replay_commit ctx sak pn = Some sak' \<and> fs_key sak' = fs_key sak"
proof -
  have "fc_replay_window ctx \<noteq> 0 \<Longrightarrow> \<exists>m. macsec_frame_replay_mask (fc_replay_window ctx) = Some m"
    using assms(2) by (simp add: macsec_frame_replay_mask_def word_gt_0)
  with assms show ?thesis
    by (auto simp: macsec_frame_replay_commit_def Let_def)
qed

lemma replay_check_ok_window:
  "macsec_frame_replay_check ctx sak pn = MACSEC_ERR_OK \<Longrightarrow> fc_replay_protect ctx \<Longrightarrow> unat (fc_replay_window ctx) \<le> 64"
  by (auto simp: macsec_frame_replay_check_def split: if_splits)

lemma frame_rx_guard_NoneD:
  assumes "frame_rx_guard ctx f max_len = None"
  shows "44 \<le> length f" "length f \<le> 1700" "length f - 32 \<le> max_len" "length f - 32 \<le> 1600"
    "macsec_frame_crypto_ready_rx ctx (frame_an f)" "frame_pn f \<noteq> 0"
    "macsec_frame_replay_check ctx (fc_rx_sak ctx ! frame_an f) (frame_pn f) = MACSEC_ERR_OK"
  using assms by (simp_all add: frame_rx_guard_def split: if_split_asm)

lemma frame_rx_guard_error: "frame_rx_guard ctx f max_len \<noteq> Some MACSEC_ERR_OK"
  by (simp add: frame_rx_guard_def)

lemma frame_commit_total:
  assumes "frame_rx_guard ctx f max_len = None"
  shows "\<exists>sak'. frame_commit ctx (fc_rx_sak ctx ! frame_an f) (frame_pn f) = Some sak' \<and>
    fs_key sak' = fs_key (fc_rx_sak ctx ! frame_an f)"
  using replay_commit_total replay_check_ok_window [OF frame_rx_guard_NoneD(7) [OF assms]]
  by (auto simp: frame_commit_def)

lemma frame_wf_rx:
  "frame_wf g \<Longrightarrow> length (fs_key sak) = 32 \<Longrightarrow> length xs = 4 \<Longrightarrow> \<forall>s \<in> set xs. length (fs_key s) = 32 \<Longrightarrow>
   frame_wf (g\<lparr>fc_rx_sak := xs[an := sak]\<rparr>)"
  by (auto simp: frame_wf_def dest!: set_update_subset_insert [THEN subsetD])

text \<open>
  The three outcomes of \<open>macsec_frame_decrypt\<close>: an early error that changes nothing, a failed
  authentication that erases the output, and an accepted frame.
\<close>

lemma frame_decrypt_outcome:
  assumes wf: "frame_wf ctx" and max: "max_len \<le> length plain"
  obtains (early) e where "frame_rx_guard ctx f max_len = Some e"
      "macsec_frame_decrypt ctx f plain max_len = Some (e, ctx, plain, 0)" "e \<noteq> MACSEC_ERR_OK"
  | (forged) g where "frame_rx_guard ctx f max_len = None" "frame_open (fc_rx_sak ctx ! frame_an f) f = None"
      "macsec_frame_decrypt ctx f plain max_len =
         Some (MACSEC_ERR_AUTH, g, replicate (length f - 32) 0 @ drop (length f - 32) plain, 0)"
      "frame_wf g" "frame_same g ctx"
  | (accepted) g p sak where "frame_rx_guard ctx f max_len = None"
      "frame_open (fc_rx_sak ctx ! frame_an f) f = Some p"
      "frame_commit ctx (fc_rx_sak ctx ! frame_an f) (frame_pn f) = Some sak"
      "macsec_frame_decrypt ctx f plain max_len =
         Some (MACSEC_ERR_OK, g\<lparr>fc_rx_sak := (fc_rx_sak ctx)[frame_an f := sak]\<rparr>,
               take 12 f @ p @ drop (length f - 32) plain, length f - 32)"
      "length p = length f - 44" "frame_wf g" "frame_same g ctx"
      "frame_wf (g\<lparr>fc_rx_sak := (fc_rx_sak ctx)[frame_an f := sak]\<rparr>)"
proof (cases "frame_rx_guard ctx f max_len")
  case (Some e)
  with early frame_decrypt_guard [of ctx f plain max_len] frame_rx_guard_error show ?thesis by (metis option.simps(5))
next
  case None
  note G = frame_rx_guard_NoneD [OF None]
  have n: "12 + (length f - 44) = length f - 32" using G(1) by simp
  obtain g where g: "frame_wf g" "frame_same g ctx"
    "frame_decrypt_payload ctx f plain (frame_an f) (frame_pn f) (length f - 44) =
      (case frame_open (fc_rx_sak ctx ! frame_an f) f of
         None \<Rightarrow> Some (MACSEC_ERR_AUTH, g, replicate (length f - 32) 0 @ drop (length f - 32) plain, 0)
       | Some p \<Rightarrow> map_option (\<lambda>sak. (MACSEC_ERR_OK, g\<lparr>fc_rx_sak := (fc_rx_sak ctx)[frame_an f := sak]\<rparr>,
                     take 12 f @ p @ drop (length f - 32) plain, length f - 32))
                   (frame_commit ctx (fc_rx_sak ctx ! frame_an f) (frame_pn f)))"
    using frame_decrypt_payload_eq [OF wf G(5) G(1,2) refl, of plain "frame_pn f"] G(3) max
    unfolding n by auto
  have eq: "macsec_frame_decrypt ctx f plain max_len =
      frame_decrypt_payload ctx f plain (frame_an f) (frame_pn f) (length f - 44)"
    by (simp add: frame_decrypt_guard None)
  show ?thesis
  proof (cases "frame_open (fc_rx_sak ctx ! frame_an f) f")
    case None
    with forged \<open>frame_rx_guard ctx f max_len = None\<close> eq g show ?thesis by simp
  next
    case (Some p)
    obtain sak where sak: "frame_commit ctx (fc_rx_sak ctx ! frame_an f) (frame_pn f) = Some sak"
      "fs_key sak = fs_key (fc_rx_sak ctx ! frame_an f)"
      using frame_commit_total [OF None] by blast
    have "frame_wf (g\<lparr>fc_rx_sak := (fc_rx_sak ctx)[frame_an f := sak]\<rparr>)"
      using wf g(1) sak(2) frame_an_less [of f] by (intro frame_wf_rx) (simp_all add: frame_wf_def)
    moreover have "length p = length f - 44"
      using frame_open_length [OF Some] G(1) by (simp add: frame_payload_def)
    ultimately show ?thesis
      using accepted [OF None Some sak(1), of g] eq g Some sak(1) by simp
  qed
qed

subsection \<open>The transmit path in one equation\<close>

definition frame_header :: "bytes \<Rightarrow> u8 \<Rightarrow> bytes \<Rightarrow> u32 \<Rightarrow> bytes" where
  "frame_header plain an sci pn =
     take 12 plain @ macsec_wr_be16 MACSEC_FRAME_ETHERTYPE @
     [MACSEC_FRAME_TCI_BASE OR (an AND 0x03), if length plain - 12 < 48 then of_nat (length plain - 12) else 0] @
     macsec_wr_be32 pn @ sci"

definition frame_seal :: "macsec_frame_sak \<Rightarrow> bytes \<Rightarrow> bytes \<Rightarrow> bytes" where
  "frame_seal sak sci plain =
     (let h = frame_header plain (fs_an sak) sci (fs_next_pn sak);
          (c, t) = gcm_encrypt_spec (take (unat (fs_key_len sak)) (fs_key sak)) (unat (fs_key_len sak) * 8)
                     (sci @ macsec_wr_be32 (fs_next_pn sak)) h (drop 12 plain)
      in h @ c @ t)"

definition frame_tx_guard :: "macsec_frame_crypto_ctx \<Rightarrow> bytes \<Rightarrow> nat \<Rightarrow> macsec_ret option" where
  "frame_tx_guard ctx plain max_len =
     (if \<not> fc_encrypt ctx then Some MACSEC_ERR_UNSUPPORTED
      else if \<not> macsec_frame_crypto_ready_tx ctx then Some MACSEC_ERR_STATE
      else if length plain < 14 \<or> 1600 < length plain \<or> max_len < length plain + 32 then Some MACSEC_ERR_BUFFER
      else None)"

definition frame_next_pn :: "u32 \<Rightarrow> u32" where
  "frame_next_pn pn = (if pn = - 1 then 0 else pn + 1)"

lemma length_frame_header: "12 \<le> length plain \<Longrightarrow> length sci = 8 \<Longrightarrow> length (frame_header plain an sci pn) = 28"
  by (simp add: frame_header_def)

lemma length_frame_seal:
  "12 \<le> length plain \<Longrightarrow> length sci = 8 \<Longrightarrow> length (frame_seal sak sci plain) = length plain + 32"
  using gcm_spec_inverse(1,2)
  by (fastforce simp: frame_seal_def Let_def length_frame_header split: prod.splits)

lemma buf_put_append:
  "n = length a \<Longrightarrow> length bs \<le> length b \<Longrightarrow> buf_put (a @ b) n bs = Some ((a @ bs) @ drop (length bs) b)"
  by (simp add: buf_put_def)

lemma buf_at_append:
  "i + n \<le> length a \<Longrightarrow> buf_at (a @ b) i n = Some (take n (drop i a))"
  by (simp add: buf_at_def)

lemma frame_encrypt_outcome:
  assumes wf: "frame_wf ctx" and max: "max_len \<le> length secure"
  obtains (early) e where "frame_tx_guard ctx plain max_len = Some e" "e \<noteq> MACSEC_ERR_OK"
      "macsec_frame_encrypt ctx plain secure max_len = Some (e, ctx, secure, 0)"
  | (sent) g where "frame_tx_guard ctx plain max_len = None" "frame_wf g" "frame_same g ctx"
      "macsec_frame_encrypt ctx plain secure max_len =
         Some (MACSEC_ERR_OK, g\<lparr>fc_tx_sak := (fc_tx_sak ctx)\<lparr>fs_next_pn := frame_next_pn (fs_next_pn (fc_tx_sak ctx))\<rparr>\<rparr>,
               frame_seal (fc_tx_sak ctx) (fc_local_sci ctx) plain @ drop (length plain + 32) secure, length plain + 32)"
      "frame_wf (g\<lparr>fc_tx_sak := (fc_tx_sak ctx)\<lparr>fs_next_pn := frame_next_pn (fs_next_pn (fc_tx_sak ctx))\<rparr>\<rparr>)"
proof (cases "frame_tx_guard ctx plain max_len")
  case (Some e)
  have "14 + 14 + (length plain - 12) + 16 = length plain + 32" if "14 \<le> length plain" using that by simp
  with Some have "macsec_frame_encrypt ctx plain secure max_len = Some (e, ctx, secure, 0)" "e \<noteq> MACSEC_ERR_OK"
    by (auto simp: frame_tx_guard_def macsec_frame_encrypt_def Let_def split: if_splits)
  with early Some show ?thesis by blast
next
  case None
  define sak n where "sak = fc_tx_sak ctx" and "n = length plain - 12"
  have G: "fc_encrypt ctx" "macsec_frame_crypto_ready_tx ctx" "14 \<le> length plain" "length plain \<le> 1600" "length plain + 32 \<le> max_len"
    using None by (auto simp: frame_tx_guard_def split: if_splits)
  have kl: "macsec_frame_key_len_valid (fs_key_len sak)" and pn: "fs_next_pn sak \<noteq> 0"
    using G(2) by (auto simp: macsec_frame_crypto_ready_tx_def sak_def)
  have "length (fs_key sak) = 32" "length (fc_local_sci ctx) = 8" using wf by (simp_all add: frame_wf_def sak_def)
  from frame_gcm_setkey_ok [OF wf kl this(1)] obtain c where
    c: "macsec_frame_gcm_setkey ctx (fs_key sak) (fs_key_len sak) = Some (MACSEC_ERR_OK, c)"
      "frame_wf c" "frame_same c ctx" "gcm_keyed (fc_gcm c) (take (unat (fs_key_len sak)) (fs_key sak)) (unat (fs_key_len sak) * 8)"
    by blast
  have n: "14 + 14 + n + 16 = length plain + 32" "length plain - 12 = n" using G(3) by (simp_all add: n_def)
  define tci where "tci = MACSEC_FRAME_TCI_BASE OR (fs_an sak AND 0x03)"
  define short where "short = (if n < 48 then of_nat n else 0 :: u8)"
  define pnb where "pnb = macsec_wr_be32 (fs_next_pn sak)"
  define h where "h = frame_header plain (fs_an sak) (fc_local_sci ctx) (fs_next_pn sak)"
  have h: "h = ((((take 12 plain @ macsec_wr_be16 MACSEC_FRAME_ETHERTYPE) @ [tci]) @ [short]) @ pnb) @ fc_local_sci ctx"
    by (simp add: h_def frame_header_def n(2) tci_def short_def pnb_def)
  have hl: "length h = 28" "length pnb = 4"
    using G(3) wf by (simp_all add: h_def pnb_def length_frame_header frame_wf_def)
  obtain ct t where spec: "gcm_encrypt_spec (take (unat (fs_key_len sak)) (fs_key sak)) (unat (fs_key_len sak) * 8)
      (fc_local_sci ctx @ pnb) h (drop 12 plain) = (ct, t)" by fastforce
  note lens = gcm_spec_inverse(1,2) [OF spec]
  have seal: "frame_seal sak (fc_local_sci ctx) plain = h @ ct @ t"
    by (simp add: frame_seal_def h_def [symmetric] pnb_def [symmetric] spec)
  have lsec: "length plain + 32 \<le> length secure" using G(5) max by simp
  define r where "r = drop 28 secure"
  have lr: "n + 16 \<le> length r" using lsec G(3) by (simp add: r_def n_def)
  have reads: "buf_at plain 0 12 = Some (take 12 plain)" "buf_at plain 12 n = Some (drop 12 plain)"
    using G(3) by (simp_all add: buf_at_Some n_def)
  have p0: "buf_put secure 0 (take 12 plain) = Some (take 12 plain @ drop 12 secure)"
    using lsec G(3) by (simp add: buf_put_Some)
  note put = buf_put_append [where b = "drop k secure" for k]
  have p1: "buf_put (take 12 plain @ drop 12 secure) 12 (macsec_wr_be16 MACSEC_FRAME_ETHERTYPE) =
      Some ((take 12 plain @ macsec_wr_be16 MACSEC_FRAME_ETHERTYPE) @ drop 14 secure)" (is "_ = Some (?a1 @ _)")
    using lsec G(3) by (simp add: buf_put_append)
  have p2: "buf_put (?a1 @ drop 14 secure) 14 [tci] = Some ((?a1 @ [tci]) @ drop 15 secure)" (is "_ = Some (?a2 @ _)")
    using lsec G(3) by (subst buf_put_append) simp_all
  have p3: "buf_put (?a2 @ drop 15 secure) 15 [short] = Some ((?a2 @ [short]) @ drop 16 secure)" (is "_ = Some (?a3 @ _)")
    using lsec G(3) by (subst buf_put_append) simp_all
  have p4: "buf_put (?a3 @ drop 16 secure) 16 pnb = Some ((?a3 @ pnb) @ drop 20 secure)" (is "_ = Some (?a4 @ _)")
    using lsec G(3) hl(2) by (subst buf_put_append) simp_all
  have p5: "buf_put (?a4 @ drop 20 secure) 20 (fc_local_sci ctx) = Some (h @ r)"
    using lsec G(3) h hl wf by (subst buf_put_append) (simp_all add: frame_wf_def r_def)
  have b6: "buf_at (h @ r) 16 4 = Some pnb"
    using h hl G(3) wf by (subst buf_at_append) (simp_all add: frame_wf_def)
  have b7: "buf_at (h @ r) 0 28 = Some h" "buf_at (h @ r) 28 n = Some (take n r)" "buf_at (h @ r) (28 + n) 16 = Some (take 16 (drop n r))"
    using hl(1) lr by (simp_all add: buf_at_def)
  have fits: "gcm_fits (fc_local_sci ctx @ pnb) h" using hl wf by (auto simp: gcm_fits_def frame_wf_def)
  have plen: "length (drop 12 plain) \<le> 0xFFFFFFFE0" "(4 :: nat) \<le> 16" "(16 :: nat) \<le> 16"
    "16 \<le> length (take 16 (drop n r))"
    using G(4) lr by simp_all
  have outs: "arr_put (take n r) ct = ct" "arr_put (take 16 (drop n r)) (take 16 t) = t"
    using lens n(2) lr by (simp_all add: arr_put_def)
  obtain gcm where enc: "math_gcm_crypt_and_tag False (fc_gcm c) MATH_GCM_ENCRYPT (fc_local_sci ctx @ pnb) h (drop 12 plain)
      (take n r) 16 (take 16 (drop n r)) = (0, gcm, ct, t)" "gcm_same_key gcm (fc_gcm c)"
    using gcm_encrypt_code [OF c(4) fits plen spec, of "take n r"] unfolding outs by blast
  have p8: "buf_put (h @ r) 28 ct = Some ((h @ ct) @ drop n r)"
    using hl(1) lr lens n(2) by (subst buf_put_append) simp_all
  have p9: "buf_put ((h @ ct) @ drop n r) (28 + n) t = Some ((h @ ct @ t) @ drop (16 + n) r)"
    using hl(1) lr lens n(2) by (subst buf_put_append) (simp_all add: add.commute)
  have rest: "drop (16 + n) r = drop (length plain + 32) secure" using G(3) by (simp add: r_def n_def add.commute)
  let ?g = "c\<lparr>fc_gcm := gcm\<rparr>"
  have g: "frame_wf ?g" "frame_same ?g ctx"
    using c(2,3) enc(2) frame_wf_gcm by (auto simp: frame_same_def)
  moreover have "frame_wf (?g\<lparr>fc_tx_sak := (fc_tx_sak ctx)\<lparr>fs_next_pn := frame_next_pn (fs_next_pn (fc_tx_sak ctx))\<rparr>\<rparr>)"
    using g(1) wf by (simp add: frame_wf_def)
  moreover have "macsec_frame_encrypt ctx plain secure max_len =
         Some (MACSEC_ERR_OK, ?g\<lparr>fc_tx_sak := sak\<lparr>fs_next_pn := frame_next_pn (fs_next_pn sak)\<rparr>\<rparr>,
               frame_seal sak (fc_local_sci ctx) plain @ drop (length plain + 32) secure, length plain + 32)"
  proof -
    have guards: "fs_next_pn (fc_tx_sak ctx) \<noteq> 0" "28 + n + 16 = length plain + 32"
      "length plain + 32 \<le> 1700" "length plain \<ge> 14"
      using pn G n by (simp_all add: sak_def)
    have tci': "MACSEC_FRAME_TCI_BASE OR (fs_an sak AND 3) = tci" by (simp add: tci_def)
    have sakc: "fc_tx_sak c = fc_tx_sak ctx" using c(3) by (simp add: frame_same_def)
    show ?thesis
      unfolding macsec_frame_encrypt_def Let_def n(2) n(1) short_def [symmetric] sak_def [symmetric] tci'
        pnb_def [symmetric] seal rest [symmetric]
      using G guards
      by (simp add: reads p0 p1 p2 p3 p4 p5 b6 b7 c(1) enc p8 p9 sakc sak_def [symmetric] frame_next_pn_def
          split del: if_split del: append_assoc)
  qed
  ultimately show ?thesis using sent [of ?g] None by (simp add: sak_def)
qed

subsection \<open>Reading back a sealed frame\<close>

lemma tci_fields:
  fixes an :: u8
  shows "(MACSEC_FRAME_TCI_BASE OR (an AND 3)) AND MACSEC_FRAME_TCI_MASK = MACSEC_FRAME_TCI_BASE"
    and "(MACSEC_FRAME_TCI_BASE OR (an AND 3)) AND 3 = an AND 3"
  by (simp_all add: MACSEC_FRAME_TCI_BASE_def MACSEC_FRAME_TCI_MASK_def bit.conj_disj_distrib2 and.assoc)

lemma an_mask: "unat (an :: u8) < 4 \<Longrightarrow> unat (an AND 3) = unat an"
proof -
  assume a: "unat an < 4"
  have "an AND 3 = take_bit 2 an" by (simp add: take_bit_eq_mask mask_eq_exp_minus_1)
  then show ?thesis using a by (simp add: unsigned_take_bit_eq take_bit_nat_eq_self)
qed

lemma frame_seal_fields:
  assumes len: "12 \<le> length plain" "length sci = 8"
    and seal: "frame_seal sak sci plain = f"
    and spec: "gcm_encrypt_spec (take (unat (fs_key_len sak)) (fs_key sak)) (unat (fs_key_len sak) * 8)
       (sci @ macsec_wr_be32 (fs_next_pn sak)) (frame_header plain (fs_an sak) sci (fs_next_pn sak))
       (drop 12 plain) = (c, t)"
  shows "length f = length plain + 32" "take 28 f = frame_header plain (fs_an sak) sci (fs_next_pn sak)"
    "take 12 f = take 12 plain" "macsec_rd_be16 (take 2 (drop 12 f)) = MACSEC_FRAME_ETHERTYPE"
    "f ! 14 = MACSEC_FRAME_TCI_BASE OR (fs_an sak AND 3)"
    "f ! 15 = (if length plain - 12 < 48 then of_nat (length plain - 12) else 0)"
    "frame_pn f = fs_next_pn sak" "frame_iv f = sci @ macsec_wr_be32 (fs_next_pn sak)"
    "frame_payload f = c" "frame_icv f = t"
proof -
  let ?h = "frame_header plain (fs_an sak) sci (fs_next_pn sak)"
  have f: "f = ?h @ c @ t" using seal spec by (simp add: frame_seal_def)
  note l = gcm_spec_inverse(1,2) [OF spec]
  have h: "length ?h = 28" using len by (rule length_frame_header)
  show "length f = length plain + 32" "take 28 f = ?h" "frame_payload f = c" "frame_icv f = t"
    using len l h by (simp_all add: f frame_payload_def frame_icv_def)
  define s where "s = (if length plain - 12 < 48 then of_nat (length plain - 12) else 0 :: u8)"
  have f': "f = take 12 plain @ macsec_wr_be16 MACSEC_FRAME_ETHERTYPE @
     [MACSEC_FRAME_TCI_BASE OR (fs_an sak AND 0x03), s] @ macsec_wr_be32 (fs_next_pn sak) @ sci @ c @ t"
    unfolding f frame_header_def s_def by simp
  show "take 12 f = take 12 plain" "macsec_rd_be16 (take 2 (drop 12 f)) = MACSEC_FRAME_ETHERTYPE"
    "f ! 14 = MACSEC_FRAME_TCI_BASE OR (fs_an sak AND 3)" "frame_pn f = fs_next_pn sak"
    "frame_iv f = sci @ macsec_wr_be32 (fs_next_pn sak)"
    unfolding f' frame_pn_def frame_iv_def using len by (simp_all add: nth_append)
  have "f ! 15 = s" unfolding f' using len by (simp add: nth_append)
  then show "f ! 15 = (if length plain - 12 < 48 then of_nat (length plain - 12) else 0)"
    by (simp only: s_def)
qed

lemma frame_open_seal:
  assumes "12 \<le> length plain" "length sci = 8"
    and "fs_key_len rx = fs_key_len sak" "take (unat (fs_key_len sak)) (fs_key rx) = take (unat (fs_key_len sak)) (fs_key sak)"
  shows "frame_open rx (frame_seal sak sci plain) = Some (drop 12 plain)"
proof -
  obtain c t where spec: "gcm_encrypt_spec (take (unat (fs_key_len sak)) (fs_key sak)) (unat (fs_key_len sak) * 8)
       (sci @ macsec_wr_be32 (fs_next_pn sak)) (frame_header plain (fs_an sak) sci (fs_next_pn sak))
       (drop 12 plain) = (c, t)" by fastforce
  show ?thesis
    using gcm_spec_inverse(2) [OF spec] gcm_spec_inverse(3) [OF spec, of 16]
    by (simp add: frame_open_def frame_seal_fields [OF assms(1,2) refl spec] assms(3,4))
qed

lemma frame_round_trip_lemma:
  assumes wf: "frame_wf tx" "frame_wf rx" and max: "max_len \<le> length secure" "max_len' \<le> length out"
    and enc: "macsec_frame_encrypt tx plain secure max_len = Some (MACSEC_ERR_OK, tx', secure', n)"
    and an: "unat (fs_an (fc_tx_sak tx)) < 4"
    and sa: "sak = fc_rx_sak rx ! unat (fs_an (fc_tx_sak tx))" "macsec_frame_crypto_ready_rx rx (unat (fs_an (fc_tx_sak tx)))"
      "fs_key_len sak = fs_key_len (fc_tx_sak tx)"
      "take (unat (fs_key_len sak)) (fs_key sak) = take (unat (fs_key_len sak)) (fs_key (fc_tx_sak tx))"
    and replay: "macsec_frame_replay_check rx sak (fs_next_pn (fc_tx_sak tx)) = MACSEC_ERR_OK"
    and room: "length plain \<le> max_len'"
  shows "\<exists>rx' out'. macsec_frame_decrypt rx (take n secure') out max_len' =
      Some (MACSEC_ERR_OK, rx', out', length plain) \<and> take (length plain) out' = plain"
proof (rule frame_encrypt_outcome [OF wf(1) max(1), of plain])
  fix e assume "macsec_frame_encrypt tx plain secure max_len = Some (e, tx, secure, 0)" "e \<noteq> MACSEC_ERR_OK"
  then show ?thesis using enc by simp
next
  fix g assume guard: "frame_tx_guard tx plain max_len = None"
    and "macsec_frame_encrypt tx plain secure max_len =
         Some (MACSEC_ERR_OK, g\<lparr>fc_tx_sak := (fc_tx_sak tx)\<lparr>fs_next_pn := frame_next_pn (fs_next_pn (fc_tx_sak tx))\<rparr>\<rparr>,
               frame_seal (fc_tx_sak tx) (fc_local_sci tx) plain @ drop (length plain + 32) secure, length plain + 32)"
  with enc have n: "n = length plain + 32"
    "secure' = frame_seal (fc_tx_sak tx) (fc_local_sci tx) plain @ drop (length plain + 32) secure" by auto
  define f where "f = frame_seal (fc_tx_sak tx) (fc_local_sci tx) plain"
  have len: "14 \<le> length plain" "length plain \<le> 1600" "length (fc_local_sci tx) = 8" "fs_next_pn (fc_tx_sak tx) \<noteq> 0"
    using guard wf(1) by (auto simp: frame_tx_guard_def frame_wf_def macsec_frame_crypto_ready_tx_def split: if_splits)
  then have len12: "12 \<le> length plain" by simp
  obtain c t where spec: "gcm_encrypt_spec (take (unat (fs_key_len (fc_tx_sak tx))) (fs_key (fc_tx_sak tx)))
       (unat (fs_key_len (fc_tx_sak tx)) * 8) (fc_local_sci tx @ macsec_wr_be32 (fs_next_pn (fc_tx_sak tx)))
       (frame_header plain (fs_an (fc_tx_sak tx)) (fc_local_sci tx) (fs_next_pn (fc_tx_sak tx)))
       (drop 12 plain) = (c, t)" by fastforce
  note F = frame_seal_fields [OF len12 len(3) f_def [symmetric] spec]
  have take: "take n secure' = f" using F(1) by (simp add: n f_def [symmetric])
  have an': "frame_an f = unat (fs_an (fc_tx_sak tx))"
    using an_mask [OF an] by (simp add: frame_an_def F(5) tci_fields)
  have "frame_rx_guard rx f max_len' = None"
    using len room F(1) replay sa by (simp add: frame_rx_guard_def F(4-7) an' tci_fields)
  moreover have "frame_open (fc_rx_sak rx ! frame_an f) f = Some (drop 12 plain)"
    unfolding f_def an' [unfolded f_def] using sa by (intro frame_open_seal len12 len) simp_all
  ultimately show ?thesis
    by (rule_tac frame_decrypt_outcome [OF wf(2) max(2), of f])
       (auto simp: take F(1,3) len12 intro!: exI)
qed

end
