(* ===== verification/FrameReplay.thy ===== *)
theory FrameReplay
  imports FrameCrypto
begin

text \<open>
  The replay window of \<open>frame_crypto.c\<close> against its specification. A receive SAK represents the set
  of packet numbers accepted since it was installed (\<open>replay_repr\<close>); \<open>macsec_frame_replay_check\<close>
  decides exactly whether the specification accepts a number, and \<open>macsec_frame_replay_commit\<close>
  adds it to the set without failing an assertion.
\<close>

subsection \<open>The specification\<close>

text \<open>
  A receiver has accepted the set \<open>A\<close> of packet numbers, was installed with the lowest acceptable
  number \<open>floor\<close> and has a window of \<open>W\<close> numbers (0: strictly increasing). \<open>replay_ok\<close> says which
  numbers it still accepts.
\<close>

definition replay_ok :: "nat \<Rightarrow> nat \<Rightarrow> nat set \<Rightarrow> nat \<Rightarrow> bool" where
  "replay_ok W floor A n \<longleftrightarrow>
     floor \<le> n \<and> n \<notin> A \<and> (\<forall>m \<in> A. if W = 0 then m < n else m < n + W)"

text \<open>
  How the fields of a receive SAK represent \<open>A\<close>: bit \<open>d\<close> of the bitmap stands for the number \<open>d\<close>
  below the highest one.
\<close>

definition replay_repr :: "nat \<Rightarrow> nat \<Rightarrow> nat set \<Rightarrow> macsec_frame_sak \<Rightarrow> bool" where
  "replay_repr W floor A sak \<longleftrightarrow>
     (let h = unat (fs_highest_received_pn sak); l = unat (fs_lowest_acceptable_pn sak) in
      0 < floor \<and> floor < 2 ^ 32 \<and> (\<forall>m \<in> A. floor \<le> m \<and> m < 2 ^ 32) \<and>
      (if A = {} then h < floor \<and> l = floor \<and> (0 < W \<longrightarrow> fs_replay_bitmap sak = 0) \<and> \<not> fs_replay_exhausted sak
       else h \<in> A \<and> (\<forall>m \<in> A. m \<le> h) \<and>
         (if W = 0
          then (if h = 2 ^ 32 - 1 then fs_replay_exhausted sak else l = h + 1 \<and> \<not> fs_replay_exhausted sak)
          else l = max floor (Suc h - W) \<and> \<not> fs_replay_exhausted sak \<and>
               (\<forall>d < W. bit (fs_replay_bitmap sak) d \<longleftrightarrow> d \<le> h \<and> h - d \<in> A))))"

lemma u32_max: "unat (- 1 :: u32) = 2 ^ 32 - 1"
proof -
  have "(- 1 :: u32) = 0xFFFFFFFF" by simp
  then have "unat (- 1 :: u32) = unat (0xFFFFFFFF :: u32)" by (rule arg_cong)
  also have "\<dots> = 2 ^ 32 - 1" by simp
  finally show ?thesis .
qed

lemma pn_top: "pn = - 1 \<longleftrightarrow> unat (pn :: u32) = 2 ^ 32 - 1"
  unfolding word_unat_eq_iff u32_max ..

lemma pn_add_1:
  assumes "pn \<noteq> - 1"
  shows "unat (pn + 1) = Suc (unat (pn :: u32))"
proof -
  have "1 + pn \<noteq> 0" using assms by (metis add.commute add_eq_0_iff)
  then show ?thesis using unatSuc [of pn] by (simp add: add.commute)
qed

lemma pn_less: "unat (pn :: u32) < 2 ^ 32"
  using unsigned_less [of pn] by simp

lemma bitmap_test: "(b AND push_bit d 1 \<noteq> 0) \<longleftrightarrow> bit (b :: u64) d"
proof
  assume "b AND push_bit d 1 \<noteq> 0"
  then obtain k where "bit (b AND push_bit d 1) k" using bit_eqI [of "b AND push_bit d 1" 0] by auto
  then show "bit b d" by (auto simp: bit_simps bit_1_iff)
next
  assume "bit b d"
  then have "bit (b AND push_bit d 1) d"
    using bit_imp_le_length [of b d] by (auto simp: bit_simps bit_1_iff)
  then show "b AND push_bit d 1 \<noteq> 0" by auto
qed

lemma pn_diff: "b \<le> a \<Longrightarrow> unat (a - b :: u32) = unat a - unat b"
  by (rule unat_sub)

lemmas pn_simps = word_le_nat_alt word_less_nat_alt pn_diff

lemma replay_check_refines:
  assumes R: "replay_repr W floor A sak" and ctx: "fc_replay_protect ctx" "unat (fc_replay_window ctx) = W" "W \<le> 64"
  shows "macsec_frame_replay_check ctx sak pn =
    (if replay_ok W floor A (unat pn) then MACSEC_ERR_OK else MACSEC_ERR_REPLAY)"
proof -
  define h l n where "h = unat (fs_highest_received_pn sak)" and "l = unat (fs_lowest_acceptable_pn sak)" and "n = unat pn"
  have W0: "fc_replay_window ctx = 0 \<longleftrightarrow> W = 0" using ctx(2) by (auto simp: unat_eq_0)
  have check: "macsec_frame_replay_check ctx sak pn =
    (if fs_replay_exhausted sak \<or> n < l then MACSEC_ERR_REPLAY
     else if W = 0 \<or> h = 0 \<or> h < n then MACSEC_ERR_OK
     else if W \<le> h - n \<or> bit (fs_replay_bitmap sak) (h - n) then MACSEC_ERR_REPLAY else MACSEC_ERR_OK)"
    using ctx
    by (auto simp: macsec_frame_replay_check_def h_def l_def n_def W0 Let_def pn_simps unat_eq_0 bitmap_test [unfolded push_bit_of_1] not_less)
  show ?thesis
  proof (cases "A = {}")
    case True
    then show ?thesis
      using R unfolding check by (auto simp: replay_ok_def replay_repr_def Let_def h_def l_def n_def)
  next
    case False
    with R have hA: "h \<in> A" "floor \<le> h" "0 < h" and le: "\<And>m. m \<in> A \<Longrightarrow> m \<le> h"
      by (auto simp: replay_repr_def Let_def h_def)
    then have below: "(\<forall>m \<in> A. m < k) \<longleftrightarrow> h < k" for k
      using hA(1) le by (meson le_less_trans)
    have ok: "replay_ok W floor A n \<longleftrightarrow> floor \<le> n \<and> n \<notin> A \<and> (if W = 0 then h < n else h < n + W)"
      by (simp add: replay_ok_def below)
    show ?thesis
    proof (cases "W = 0")
      case True
      have top: "n < 2 ^ 32" using pn_less by (simp add: n_def)
      show ?thesis
        using R False True le [of n] hA top unfolding check n_def [symmetric] ok
        by (auto simp: replay_repr_def Let_def h_def [symmetric] l_def [symmetric] split: if_splits)
    next
      case False
      with R \<open>A \<noteq> {}\<close> have l: "l = max floor (Suc h - W)" "\<not> fs_replay_exhausted sak"
        and bits: "\<And>d. d < W \<Longrightarrow> bit (fs_replay_bitmap sak) d \<longleftrightarrow> d \<le> h \<and> h - d \<in> A"
        by (auto simp: replay_repr_def Let_def h_def [symmetric] l_def [symmetric])
      show ?thesis
        using False le [of n] hA(3) bits [of "h - n"] unfolding check n_def [symmetric] ok l(1)
        by (auto simp: l(2))
    qed
  qed
qed

lemma replay_mask_bits:
  assumes "0 < W" "W \<le> 64" "unat w = W"
  shows "\<exists>mask. macsec_frame_replay_mask w = Some mask \<and> (\<forall>d. bit mask d \<longleftrightarrow> d < W)"
proof (cases "W = 64")
  case True
  then show ?thesis
    using assms by (auto simp: macsec_frame_replay_mask_def pn_simps)
next
  case False
  have "(push_bit W 1 - 1 :: u64) = mask W" by (simp add: mask_eq_exp_minus_1)
  then show ?thesis
    using assms False by (auto simp: macsec_frame_replay_mask_def pn_simps bit_mask_iff)
qed

lemma replay_reprD:
  assumes "replay_repr W floor A sak"
  shows "0 < floor" "floor < 2 ^ 32" "m \<in> A \<Longrightarrow> floor \<le> m" "m \<in> A \<Longrightarrow> m < 2 ^ 32"
    "m \<in> A \<Longrightarrow> m \<le> unat (fs_highest_received_pn sak)" "A \<noteq> {} \<Longrightarrow> unat (fs_highest_received_pn sak) \<in> A"
    "A = {} \<Longrightarrow> unat (fs_highest_received_pn sak) < floor"
  using assms by (cases "A = {}"; auto simp: replay_repr_def Let_def)+

text \<open>The bitmap after a commit, in the three cases of the code.\<close>

lemma replay_bitmap_forward:
  fixes bm mk :: u64
  assumes "W \<le> 64" "h < n" "\<forall>m \<in> A. m \<le> h" "\<forall>d < W. bit bm d \<longleftrightarrow> d \<le> h \<and> h - d \<in> A" "\<forall>d. bit mk d \<longleftrightarrow> d < W"
    and "d < W"
  shows "bit (if W \<le> n - h then 1 else (push_bit (n - h) bm OR 1) AND mk) d \<longleftrightarrow> d \<le> n \<and> n - d \<in> insert n A"
proof -
  have gap: "n - d \<notin> A" if "d < n - h" using assms(3) that by (auto dest!: bspec [of A _ "n - d"])
  have bk: "h - (d - (n - h)) = n - d" if "n - h \<le> d" using that assms(2) by simp
  show ?thesis
  proof (cases "d < n - h")
    case True
    then show ?thesis
      using assms gap by (auto simp: bit_simps bit_1_iff)
  next
    case False
    then show ?thesis
      using assms bk by (auto simp: bit_simps bit_1_iff)
  qed
qed

lemma replay_bitmap_within:
  fixes bm mk :: u64
  assumes "W \<le> 64" "n \<le> h" "\<forall>d < W. bit bm d \<longleftrightarrow> d \<le> h \<and> h - d \<in> A" "\<forall>d. bit mk d \<longleftrightarrow> d < W" "d < W"
  shows "bit ((bm OR push_bit (h - n) 1) AND mk) d \<longleftrightarrow> d \<le> h \<and> h - d \<in> insert n A"
proof -
  have "d = h - n \<longleftrightarrow> d \<le> h \<and> h - d = n" using assms(2) by auto
  with assms show ?thesis by (simp add: bit_simps bit_1_iff) blast
qed

text \<open>Accepting the number \<open>n\<close>: the set grows by \<open>n\<close>.\<close>

lemma replay_commit_refines:
  assumes R: "replay_repr W floor A sak" and ctx: "fc_replay_protect ctx" "unat (fc_replay_window ctx) = W" "W \<le> 64"
    and ok: "replay_ok W floor A (unat pn)"
  shows "\<exists>sak'. macsec_frame_replay_commit ctx sak pn = Some sak' \<and>
    replay_repr W floor (insert (unat pn) A) sak'"
proof -
  define h l n where "h = unat (fs_highest_received_pn sak)" and "l = unat (fs_lowest_acceptable_pn sak)" and "n = unat pn"
  have W0: "fc_replay_window ctx = 0 \<longleftrightarrow> W = 0" using ctx(2) by (auto simp: unat_eq_0)
  note R' = replay_reprD [OF R]
  have n: "floor \<le> n" "n \<notin> A" "n < 2 ^ 32" "0 < n"
    using ok pn_less R'(1) by (auto simp: replay_ok_def n_def)
  show ?thesis
  proof (cases "W = 0")
    case True
    then have "\<forall>m \<in> A. m < n" using ok by (simp add: replay_ok_def n_def)
    moreover have "\<not> fs_replay_exhausted sak"
      using R True \<open>\<forall>m \<in> A. m < n\<close> n
      by (cases "A = {}") (auto simp: replay_repr_def Let_def split: if_splits)
    ultimately show ?thesis
      using True ctx R' n
      by (auto simp: macsec_frame_replay_commit_def W0 Let_def replay_repr_def n_def [symmetric] pn_top pn_add_1
          u32_max)
  next
    case False
    then have W: "0 < W" by simp
    from replay_mask_bits [OF W ctx(3) ctx(2)] obtain mask where
      mask: "macsec_frame_replay_mask (fc_replay_window ctx) = Some mask" "\<forall>d. bit mask d \<longleftrightarrow> d < W" by blast
    define bm where "bm = fs_replay_bitmap sak"
    define h' bm' where "h' = (if h = 0 \<or> h < n then n else h)" and
      "bm' = (if h = 0 then 1 else if h < n then (if W \<le> n - h then 1 else (push_bit (n - h) bm OR 1) AND mask)
              else (bm OR push_bit (h - n) 1) AND mask)"
    define l' where "l' = (if h' \<ge> W then h' - W + 1 else 1)"
    have commit: "\<exists>sak'. macsec_frame_replay_commit ctx sak pn = Some sak' \<and>
        unat (fs_highest_received_pn sak') = h' \<and> fs_replay_bitmap sak' = bm' \<and>
        unat (fs_lowest_acceptable_pn sak') = max l l' \<and> fs_replay_exhausted sak' = fs_replay_exhausted sak"
    proof -
      have h0: "fs_highest_received_pn sak = 0 \<longleftrightarrow> h = 0" by (auto simp: h_def unat_eq_0)
      have new: "unat (if x \<ge> fc_replay_window ctx then x - fc_replay_window ctx + 1 else 1) =
          (if W \<le> unat x then unat x - W + 1 else 1)" for x :: u32
      proof (cases "W \<le> unat x")
        case True
        have "unat (x - fc_replay_window ctx) = unat x - W" using True ctx(2) by (simp add: pn_simps)
        moreover have "x - fc_replay_window ctx \<noteq> - 1"
          unfolding pn_top using calculation W pn_less [of x] by simp
        ultimately show ?thesis using True ctx(2) by (simp add: pn_add_1 pn_simps)
      qed (use ctx(2) in \<open>simp add: pn_simps\<close>)
      define slide where "slide = (\<lambda>s :: macsec_frame_sak. let new_lowest_pn =
          (if fs_highest_received_pn s \<ge> fc_replay_window ctx
           then fs_highest_received_pn s - fc_replay_window ctx + 1 else 1) in
        if new_lowest_pn > fs_lowest_acceptable_pn s then s\<lparr>fs_lowest_acceptable_pn := new_lowest_pn\<rparr> else s)"
      have slide: "unat (fs_lowest_acceptable_pn (slide s)) = max (unat (fs_lowest_acceptable_pn s))
            (if W \<le> unat (fs_highest_received_pn s) then unat (fs_highest_received_pn s) - W + 1 else 1)"
          "fs_highest_received_pn (slide s) = fs_highest_received_pn s" "fs_replay_bitmap (slide s) = fs_replay_bitmap s"
          "fs_replay_exhausted (slide s) = fs_replay_exhausted s" for s
        using new [of "fs_highest_received_pn s"]
        by (auto simp: slide_def Let_def word_less_nat_alt max_def simp del: unsigned_less)
      obtain s2 where s2: "unat (fs_highest_received_pn s2) = h'" "fs_replay_bitmap s2 = bm'"
          "fs_lowest_acceptable_pn s2 = fs_lowest_acceptable_pn sak" "fs_replay_exhausted s2 = fs_replay_exhausted sak"
        and code: "macsec_frame_replay_commit ctx sak pn = Some (slide s2)"
      proof
        let ?s = "sak\<lparr>fs_highest_received_pn := (if h = 0 \<or> h < n then pn else fs_highest_received_pn sak), fs_replay_bitmap := bm'\<rparr>"
        show "unat (fs_highest_received_pn ?s) = h'" "fs_replay_bitmap ?s = bm'"
          "fs_lowest_acceptable_pn ?s = fs_lowest_acceptable_pn sak" "fs_replay_exhausted ?s = fs_replay_exhausted sak"
          by (simp_all add: h'_def h_def n_def)
        define mid where "mid = (if fs_highest_received_pn sak = 0
           then sak\<lparr>fs_highest_received_pn := pn, fs_replay_bitmap := 1\<rparr>
           else if pn > fs_highest_received_pn sak then
             let shift = pn - fs_highest_received_pn sak;
                 sak = (if shift \<ge> fc_replay_window ctx then sak\<lparr>fs_replay_bitmap := 1\<rparr>
                        else sak\<lparr>fs_replay_bitmap :=
                               (push_bit (unat shift) (fs_replay_bitmap sak) OR 1) AND mask\<rparr>)
             in sak\<lparr>fs_highest_received_pn := pn\<rparr>
           else
             let distance = fs_highest_received_pn sak - pn;
                 sak = sak\<lparr>fs_replay_bitmap := fs_replay_bitmap sak OR push_bit (unat distance) 1\<rparr>
             in sak\<lparr>fs_replay_bitmap := fs_replay_bitmap sak AND mask\<rparr>)"
        have "macsec_frame_replay_commit ctx sak pn = Some (slide mid)"
          using ctx False mask(1) unfolding mid_def slide_def macsec_frame_replay_commit_def W0
          by (simp only: Let_def if_False if_True not_True_eq_False not_False_eq_True simp_thms bind.bind_lunit)
        moreover have "mid = ?s"
        proof -
          have lt: "pn > fs_highest_received_pn sak \<longleftrightarrow> h < n" by (simp add: h_def n_def word_less_nat_alt)
          have up: "h < n \<Longrightarrow> unat (pn - fs_highest_received_pn sak) = n - h"
            by (simp add: h_def n_def pn_simps)
          have shift: "h < n \<Longrightarrow> pn - fs_highest_received_pn sak \<ge> fc_replay_window ctx \<longleftrightarrow> W \<le> n - h"
            using ctx(2) up by (simp add: word_le_nat_alt)
          have down: "n \<le> h \<Longrightarrow> unat (fs_highest_received_pn sak - pn) = h - n"
            by (simp add: h_def n_def pn_simps)
          consider "h = 0" | "h \<noteq> 0" "h < n" | "h \<noteq> 0" "n \<le> h" by linarith
          then show ?thesis
            by cases (simp_all add: mid_def Let_def h0 lt up shift down bm'_def bm_def [symmetric])
        qed
        ultimately show "macsec_frame_replay_commit ctx sak pn = Some (slide ?s)" by simp
      qed
      show ?thesis
        unfolding code using s2 by (intro exI [of _ "slide s2"]) (simp add: slide l_def l'_def)
    qed
    have A: "\<not> fs_replay_exhausted sak \<and> (if A = {} then bm = 0 \<and> l = floor else h \<in> A \<and> l = max floor (Suc h - W))
      \<and> (\<forall>d < W. bit bm d \<longleftrightarrow> d \<le> h \<and> h - d \<in> A)"
      using R False by (cases "A = {}") (auto simp: replay_repr_def Let_def h_def bm_def l_def)
    have le: "m \<le> h" if "m \<in> A" for m using R'(5) that by (simp add: h_def)
    have hA: "h = 0 \<Longrightarrow> A = {}" using le R'(1) R'(3) by fastforce
    have "h' \<in> insert n A \<and> (\<forall>m \<in> insert n A. m \<le> h')"
    proof (cases "A = {}")
      case True
      then have "h < n" using R'(7) n(1) by (simp add: h_def)
      then show ?thesis by (simp add: h'_def True)
    next
      case False
      then have "h \<in> A" "h \<noteq> 0" using R'(6) hA by (auto simp: h_def)
      then show ?thesis using le by (fastforce simp: h'_def)
    qed
    moreover have "\<forall>d < W. bit bm' d \<longleftrightarrow> d \<le> h' \<and> h' - d \<in> insert n A"
    proof (intro allI impI)
      fix d assume d: "d < W"
      show "bit bm' d \<longleftrightarrow> d \<le> h' \<and> h' - d \<in> insert n A"
        using replay_bitmap_forward [of W h n A bm mask d] replay_bitmap_within [of W n h bm A mask d]
          hA le n(4) ctx(3) A mask(2) d
        by (cases "h = 0"; cases "h < n") (auto simp: bm'_def h'_def bit_1_iff)
    qed
    moreover have "max l l' = max floor (Suc h' - W)"
      using A R'(1) n(1) ok by (auto simp: l'_def h'_def replay_ok_def n_def [symmetric] split: if_splits)
    ultimately show ?thesis
      using commit A R' n(1,3)
      by (auto simp: replay_repr_def n_def [symmetric] False Let_def)
  qed
qed

end
