(* ===== verification/FrameTrace.thy ===== *)
theory FrameTrace
  imports FrameFacts FrameReplay
begin

text \<open>
  Runs of the frame layer. The operations of \<open>frame_crypto.c\<close> are the steps of \<open>frame_trace\<close>, whose
  events record the frames sent and received. The invariants \<open>rx_inv\<close> and \<open>tx_inv\<close> tie the state of
  the SAKs to the events since the last installation.
\<close>

subsection \<open>Operations and events\<close>

datatype frame_op =
    Op_encrypt bytes bytes nat | Op_decrypt bytes bytes nat
  | Op_set_tx_sak macsec_frame_sak | Op_set_rx_sak macsec_frame_sak
  | Op_remove_tx_sak | Op_remove_rx_sak nat

datatype frame_event =
    Sent bytes bytes | Received bytes bytes | Failed macsec_ret
  | Tx_installed | Rx_installed nat | Tx_removed | Rx_removed nat

definition frame_exec :: "macsec_frame_crypto_ctx \<Rightarrow> frame_op \<Rightarrow> (frame_event \<times> macsec_frame_crypto_ctx) option" where
  "frame_exec ctx oper = (case oper of
     Op_encrypt plain secure max_len \<Rightarrow> do {
       (ret, ctx', secure', n) \<leftarrow> macsec_frame_encrypt ctx plain secure max_len;
       Some (if ret = MACSEC_ERR_OK then Sent plain (take n secure') else Failed ret, ctx')
     }
   | Op_decrypt secure plain max_len \<Rightarrow> do {
       (ret, ctx', plain', n) \<leftarrow> macsec_frame_decrypt ctx secure plain max_len;
       Some (if ret = MACSEC_ERR_OK then Received secure (take n plain') else Failed ret, ctx')
     }
   | Op_set_tx_sak sak \<Rightarrow>
       let (ret, ctx') = macsec_frame_crypto_set_tx_sak ctx sak
       in Some (if ret = MACSEC_ERR_OK then Tx_installed else Failed ret, ctx')
   | Op_set_rx_sak sak \<Rightarrow>
       let (ret, ctx') = macsec_frame_crypto_set_rx_sak ctx sak
       in Some (if ret = MACSEC_ERR_OK then Rx_installed (unat (fs_an sak)) else Failed ret, ctx')
   | Op_remove_tx_sak \<Rightarrow> let (ret, ctx') = macsec_frame_crypto_remove_tx_sak ctx in Some (Tx_removed, ctx')
   | Op_remove_rx_sak an \<Rightarrow>
       let (ret, ctx') = macsec_frame_crypto_remove_rx_sak ctx an
       in Some (if ret = MACSEC_ERR_OK then Rx_removed an else Failed ret, ctx'))"

text \<open>
  What a caller must respect: the stated capacity is not larger than the buffer, a SAK is a
  complete object, and a receive SAK is installed with a fresh replay state, as \<open>macsec.c\<close> does.
\<close>

fun frame_op_ok :: "frame_op \<Rightarrow> bool" where
  "frame_op_ok (Op_encrypt plain secure max_len) \<longleftrightarrow> max_len \<le> length secure"
| "frame_op_ok (Op_decrypt secure plain max_len) \<longleftrightarrow> max_len \<le> length plain"
| "frame_op_ok (Op_set_tx_sak sak) \<longleftrightarrow> length (fs_key sak) = 32"
| "frame_op_ok (Op_set_rx_sak sak) \<longleftrightarrow> length (fs_key sak) = 32 \<and> fs_highest_received_pn sak = 0 \<and>
     fs_replay_bitmap sak = 0 \<and> \<not> fs_replay_exhausted sak"
| "frame_op_ok _ \<longleftrightarrow> True"

text \<open>\<open>frame_trace c es c'\<close>: from \<open>c\<close>, some operations produce the events \<open>es\<close> and end in \<open>c'\<close>.\<close>

inductive frame_trace :: "macsec_frame_crypto_ctx \<Rightarrow> frame_event list \<Rightarrow> macsec_frame_crypto_ctx \<Rightarrow> bool" where
  frame_trace_nil: "frame_trace c [] c"
| frame_trace_step: "frame_trace c es c' \<Longrightarrow> frame_op_ok oper \<Longrightarrow> frame_exec c' oper = Some (e, c'') \<Longrightarrow>
    frame_trace c (es @ [e]) c''"

text \<open>The packet numbers accepted on an association, and the frames sent, since the last installation.\<close>

definition rx_pns :: "nat \<Rightarrow> nat list \<Rightarrow> frame_event \<Rightarrow> nat list" where
  "rx_pns an ns e = (case e of
     Received f p \<Rightarrow> if frame_an f = an then ns @ [unat (frame_pn f)] else ns
   | Rx_installed a \<Rightarrow> if a = an then [] else ns
   | Rx_removed a \<Rightarrow> if a = an then [] else ns
   | _ \<Rightarrow> ns)"

definition tx_frames :: "bytes list \<Rightarrow> frame_event \<Rightarrow> bytes list" where
  "tx_frames fs e = (case e of Sent p f \<Rightarrow> fs @ [f] | Tx_installed \<Rightarrow> [] | Tx_removed \<Rightarrow> [] | _ \<Rightarrow> fs)"

definition received_pns :: "nat \<Rightarrow> frame_event list \<Rightarrow> nat list" where
  "received_pns an es = foldl (rx_pns an) [] es"

definition sent_frames :: "frame_event list \<Rightarrow> bytes list" where
  "sent_frames es = foldl tx_frames [] es"

lemma pns_snoc [simp]:
  "received_pns an [] = []" "received_pns an (es @ [e]) = rx_pns an (received_pns an es) e"
  "sent_frames [] = []" "sent_frames (es @ [e]) = tx_frames (sent_frames es) e"
  by (simp_all add: received_pns_def sent_frames_def)

subsection \<open>Every operation keeps the context well formed\<close>

lemma frame_exec_total:
  assumes "frame_wf ctx" "frame_op_ok oper"
  shows "\<exists>e ctx'. frame_exec ctx oper = Some (e, ctx') \<and> frame_wf ctx' \<and>
     fc_replay_protect ctx' = fc_replay_protect ctx \<and> fc_replay_window ctx' = fc_replay_window ctx \<and>
     fc_local_sci ctx' = fc_local_sci ctx"
proof (cases oper)
  case (Op_encrypt plain secure max_len)
  with assms have "max_len \<le> length secure" by simp
  from frame_encrypt_outcome [OF assms(1) this, of plain] show ?thesis
    by cases (auto simp: frame_exec_def Op_encrypt assms(1) frame_same_def)
next
  case (Op_decrypt secure plain max_len)
  with assms have "max_len \<le> length plain" by simp
  from frame_decrypt_outcome [OF assms(1) this, of secure] show ?thesis
    by cases (auto simp: frame_exec_def Op_decrypt assms(1) frame_same_def)
next
  case (Op_set_tx_sak sak)
  then show ?thesis
    using assms by (auto simp: frame_exec_def macsec_frame_crypto_set_tx_sak_def Let_def frame_wf_def)
next
  case (Op_set_rx_sak sak)
  then show ?thesis
    using assms by (auto simp: frame_exec_def macsec_frame_crypto_set_rx_sak_def Let_def
        intro!: frame_wf_rx [where xs = "fc_rx_sak ctx" and g = ctx]) (auto simp: frame_wf_def)
next
  case Op_remove_tx_sak
  then show ?thesis
    using assms by (simp add: frame_exec_def macsec_frame_crypto_remove_tx_sak_def frame_wf_def frame_sak_zero_def)
next
  case (Op_remove_rx_sak an)
  then show ?thesis
    using assms frame_wf_rx [where xs = "fc_rx_sak ctx" and g = ctx and sak = frame_sak_zero and an = an]
    by (auto simp: frame_exec_def macsec_frame_crypto_remove_rx_sak_def frame_wf_def frame_sak_zero_def)
qed

lemma frame_trace_wf:
  assumes "frame_trace c es c'" "frame_wf c"
  shows "frame_wf c' \<and> fc_replay_protect c' = fc_replay_protect c \<and> fc_replay_window c' = fc_replay_window c \<and>
     fc_local_sci c' = fc_local_sci c"
  using assms
proof induction
  case (frame_trace_step c es c' oper e c'')
  then show ?case using frame_exec_total [of c' oper] by auto
qed simp

subsection \<open>Replay\<close>

text \<open>
  The invariant of a run for association \<open>an\<close>: the numbers accepted since the installation are
  distinct and their set is what the SAK represents.
\<close>

definition rx_inv :: "nat \<Rightarrow> macsec_frame_crypto_ctx \<Rightarrow> nat list \<Rightarrow> bool" where
  "rx_inv an ctx ns \<longleftrightarrow> distinct ns \<and>
     (if fs_valid (fc_rx_sak ctx ! an)
      then \<exists>floor. replay_repr (unat (fc_replay_window ctx)) floor (set ns) (fc_rx_sak ctx ! an)
      else ns = [])"

lemma fresh_sak_repr:
  assumes "fs_highest_received_pn sak = 0" "fs_replay_bitmap sak = 0" "\<not> fs_replay_exhausted sak"
    and "macsec_frame_crypto_set_rx_sak ctx sak = (MACSEC_ERR_OK, ctx')" "length (fc_rx_sak ctx) = 4"
  shows "\<exists>floor. replay_repr W floor {} (fc_rx_sak ctx' ! unat (fs_an sak))" "fs_valid (fc_rx_sak ctx' ! unat (fs_an sak))"
    "a \<noteq> unat (fs_an sak) \<Longrightarrow> fc_rx_sak ctx' ! a = fc_rx_sak ctx ! a" "fc_replay_window ctx' = fc_replay_window ctx"
proof -
  define rx where "rx = (if fs_lowest_acceptable_pn sak = 0 then sak\<lparr>fs_lowest_acceptable_pn := 1\<rparr> else sak)"
  define rx' where "rx' = (if fs_highest_received_pn rx = 0 \<and> fs_replay_bitmap rx = 0 \<and>
                     fs_lowest_acceptable_pn rx > 1
                  then rx\<lparr>fs_highest_received_pn := fs_lowest_acceptable_pn rx - 1\<rparr> else rx)"
  have ctx': "ctx' = ctx\<lparr>fc_rx_sak := (fc_rx_sak ctx)[unat (fs_an sak) := rx']\<rparr>" and ok: "fs_valid sak" "unat (fs_an sak) < 4"
    using assms(4) unfolding macsec_frame_crypto_set_rx_sak_def Let_def rx_def [symmetric] rx'_def [symmetric]
    by (simp_all split: if_split_asm)
  have l: "0 < unat (fs_lowest_acceptable_pn rx)" by (simp add: rx_def unat_gt_0)
  have "replay_repr W (unat (fs_lowest_acceptable_pn rx)) {} rx'"
    using l pn_less [of "fs_lowest_acceptable_pn rx"] assms(1-3)
    by (auto simp: replay_repr_def Let_def rx'_def rx_def pn_simps)
  then show "\<exists>floor. replay_repr W floor {} (fc_rx_sak ctx' ! unat (fs_an sak))"
    using ok assms(5) by (auto simp: ctx')
  show "fs_valid (fc_rx_sak ctx' ! unat (fs_an sak))" "a \<noteq> unat (fs_an sak) \<Longrightarrow> fc_rx_sak ctx' ! a = fc_rx_sak ctx ! a"
    "fc_replay_window ctx' = fc_replay_window ctx"
    using ok assms(5) by (simp_all add: ctx' rx'_def rx_def)
qed

lemma replay_commit_valid:
  "macsec_frame_replay_commit ctx sak pn = Some sak' \<Longrightarrow> fs_valid sak' = fs_valid sak"
  by (auto simp: macsec_frame_replay_commit_def Let_def bind_eq_Some_conv split: if_splits)

lemma frame_exec_rx_inv:
  assumes wf: "frame_wf ctx" and prot: "fc_replay_protect ctx" "unat (fc_replay_window ctx) \<le> 64" and an: "an < 4"
    and ok: "frame_op_ok oper" and ex: "frame_exec ctx oper = Some (e, ctx')" and inv: "rx_inv an ctx ns"
  shows "rx_inv an ctx' (rx_pns an ns e)"
proof (cases oper)
  case (Op_encrypt plain secure max_len)
  with ok have "max_len \<le> length secure" by simp
  from frame_encrypt_outcome [OF wf this, of plain] show ?thesis
    by cases (use ex inv in \<open>auto simp: frame_exec_def Op_encrypt frame_same_def rx_pns_def rx_inv_def\<close>)
next
  case (Op_decrypt secure plain max_len)
  with ok have m: "max_len \<le> length plain" by simp
  show ?thesis
  proof (cases rule: frame_decrypt_outcome [OF wf m, where f = secure, case_names early forged accepted])
    case (early e)
    then show ?thesis using ex inv by (auto simp: frame_exec_def Op_decrypt rx_pns_def)
  next
    case (forged g)
    then show ?thesis using ex inv by (auto simp: frame_exec_def Op_decrypt rx_pns_def rx_inv_def frame_same_def)
  next
    case (accepted g p sak)
    note G = frame_rx_guard_NoneD [OF accepted(1)]
    let ?f = secure
    obtain q where e: "e = Received ?f q" "ctx' = g\<lparr>fc_rx_sak := (fc_rx_sak ctx)[frame_an ?f := sak]\<rparr>"
      using ex accepted(4) by (auto simp: frame_exec_def Op_decrypt)
    have w: "fc_replay_window g = fc_replay_window ctx" using accepted(7) by (simp add: frame_same_def)
    have len: "length (fc_rx_sak ctx) = 4" using wf by (simp add: frame_wf_def)
    show ?thesis
    proof (cases "frame_an ?f = an")
      case False
      then show ?thesis using inv by (simp add: e rx_pns_def rx_inv_def w)
    next
      case True
      let ?n = "unat (frame_pn ?f)" and ?W = "unat (fc_replay_window ctx)"
      have v: "fs_valid (fc_rx_sak ctx ! an)" using G(5) True by (simp add: macsec_frame_crypto_ready_rx_def)
      with inv obtain floor where R: "replay_repr ?W floor (set ns) (fc_rx_sak ctx ! an)" and d: "distinct ns"
        by (auto simp: rx_inv_def)
      have okn: "replay_ok ?W floor (set ns) ?n"
        using replay_check_refines [OF R prot(1) refl prot(2), of "frame_pn ?f"] G(7) True
        by (simp split: if_split_asm)
      have c: "macsec_frame_replay_commit ctx (fc_rx_sak ctx ! an) (frame_pn ?f) = Some sak"
        using accepted(3) prot(1) True by (simp add: frame_commit_def)
      with replay_commit_refines [OF R prot(1) refl prot(2) okn]
      have "replay_repr ?W floor (insert ?n (set ns)) sak" by simp
      moreover have "?n \<notin> set ns" using okn by (simp add: replay_ok_def)
      ultimately show ?thesis
        using d True an len replay_commit_valid [OF c] v
        by (auto simp: e rx_pns_def rx_inv_def w)
    qed
  qed
next
  case (Op_set_tx_sak sak)
  then show ?thesis
    using ex inv by (auto simp: frame_exec_def macsec_frame_crypto_set_tx_sak_def Let_def rx_pns_def rx_inv_def split: if_splits)
next
  case (Op_set_rx_sak sak)
  obtain ret where s: "macsec_frame_crypto_set_rx_sak ctx sak = (ret, ctx')"
    "e = (if ret = MACSEC_ERR_OK then Rx_installed (unat (fs_an sak)) else Failed ret)"
    using ex by (auto simp: frame_exec_def Op_set_rx_sak split: prod.splits)
  have len: "length (fc_rx_sak ctx) = 4" using wf by (simp add: frame_wf_def)
  show ?thesis
  proof (cases "ret = MACSEC_ERR_OK")
    case True
    note F = fresh_sak_repr [OF _ _ _ s(1) [unfolded True] len]
    show ?thesis
    proof (cases "an = unat (fs_an sak)")
      case True
      then show ?thesis
        using F(1,2,4) ok \<open>ret = MACSEC_ERR_OK\<close> by (simp add: Op_set_rx_sak s(2) rx_pns_def rx_inv_def)
    next
      case False
      then show ?thesis
        using F(3) [of an] F(4) ok inv \<open>ret = MACSEC_ERR_OK\<close> by (simp add: Op_set_rx_sak s(2) rx_pns_def rx_inv_def)
    qed
  next
    case False
    then have "ctx' = ctx" using s(1) by (auto simp: macsec_frame_crypto_set_rx_sak_def Let_def split: if_splits)
    then show ?thesis using False inv by (simp add: s(2) rx_pns_def)
  qed
next
  case Op_remove_tx_sak
  then show ?thesis
    using ex inv by (auto simp: frame_exec_def macsec_frame_crypto_remove_tx_sak_def rx_pns_def rx_inv_def)
next
  case (Op_remove_rx_sak a)
  have len: "length (fc_rx_sak ctx) = 4" using wf by (simp add: frame_wf_def)
  show ?thesis
    using ex inv an len
    by (cases "a < 4"; cases "a = an")
       (auto simp: frame_exec_def Op_remove_rx_sak macsec_frame_crypto_remove_rx_sak_def rx_pns_def rx_inv_def frame_sak_zero_def)
qed

text \<open>
  C2. In every run of the frame layer with replay protection and a window of at
  most 64, whatever frames arrive and in whatever order, no packet number is accepted twice on an
  association between two installations of its receive key.
\<close>

theorem no_packet_number_twice:
  assumes "frame_trace ctx es ctx'" and "macsec_frame_crypto_init sci = (MACSEC_ERR_OK, ctx0)"
    and "ctx = ctx0\<lparr>fc_replay_window := w\<rparr>" "unat w \<le> 64" "length sci = 8" and "an < 4"
  shows "distinct (received_pns an es)"
proof -
  have wf: "frame_wf ctx" "fc_replay_protect ctx" "unat (fc_replay_window ctx) \<le> 64"
    "rx_inv an ctx []"
    using assms(2-6) by (auto simp: macsec_frame_crypto_init_def frame_ctx_zero_def frame_wf_def frame_sak_zero_def rx_inv_def)
  have "rx_inv an ctx' (received_pns an es)"
    using assms(1) wf
  proof induction
    case (frame_trace_step c es c' oper e c'')
    note W = frame_trace_wf [OF frame_trace_step(1) frame_trace_step.prems(1)]
    show ?case
      using frame_exec_rx_inv [OF _ _ _ assms(6) frame_trace_step(2,3) frame_trace_step.IH] W frame_trace_step.prems
      by simp
  qed simp
  then show ?thesis by (simp add: rx_inv_def)
qed

subsection \<open>Transmit packet numbers\<close>

text \<open>The frames sent since the installation carry consecutive numbers, up to the next one.\<close>

definition tx_inv :: "macsec_frame_crypto_ctx \<Rightarrow> bytes list \<Rightarrow> bool" where
  "tx_inv ctx fs \<longleftrightarrow>
     (\<forall>f \<in> set fs. frame_iv f = fc_local_sci ctx @ macsec_wr_be32 (frame_pn f)) \<and>
     (fs \<noteq> [] \<longrightarrow> (\<exists>k > 0. map (\<lambda>f. unat (frame_pn f)) fs = [k..<k + length fs] \<and> k + length fs \<le> 2 ^ 32 \<and>
        unat (fs_next_pn (fc_tx_sak ctx)) = (if k + length fs = 2 ^ 32 then 0 else k + length fs)))"

lemma frame_next_pn_unat:
  "unat (frame_next_pn pn) = (if unat pn = 2 ^ 32 - 1 then 0 else Suc (unat pn))"
  unfolding frame_next_pn_def pn_top by (simp add: pn_add_1 pn_top)

lemma tx_inv_sent:
  assumes inv: "tx_inv ctx fs" and pn: "frame_pn f = fs_next_pn (fc_tx_sak ctx)" "fs_next_pn (fc_tx_sak ctx) \<noteq> 0"
    and iv: "frame_iv f = fc_local_sci ctx @ macsec_wr_be32 (frame_pn f)"
    and ctx': "fc_local_sci ctx' = fc_local_sci ctx" "fs_next_pn (fc_tx_sak ctx') = frame_next_pn (fs_next_pn (fc_tx_sak ctx))"
  shows "tx_inv ctx' (fs @ [f])"
proof -
  let ?p = "unat (fs_next_pn (fc_tx_sak ctx))"
  have p: "0 < ?p" "?p < 2 ^ 32" using pn(2) pn_less by (simp_all add: unat_gt_0)
  obtain k where k: "0 < k" "map (\<lambda>f. unat (frame_pn f)) fs = [k..<k + length fs]" "?p = k + length fs"
  proof (cases "fs = []")
    case True
    then show ?thesis using that [of ?p] p by simp
  next
    case False
    then show ?thesis using inv p that by (auto simp: tx_inv_def split: if_splits)
  qed
  then have "map (\<lambda>f. unat (frame_pn f)) (fs @ [f]) = [k..<k + length (fs @ [f])]"
    by (simp add: pn(1))
  moreover have "unat (fs_next_pn (fc_tx_sak ctx')) =
      (if k + length (fs @ [f]) = 2 ^ 32 then 0 else k + length (fs @ [f]))"
    using k(3) p(2) by (simp add: ctx'(2) frame_next_pn_unat)
  moreover have "k + length (fs @ [f]) \<le> 2 ^ 32" using k(3) p(2) by simp
  ultimately show ?thesis
    using inv iv ctx'(1) k(1) unfolding tx_inv_def by auto
qed

lemma frame_exec_tx_inv:
  assumes wf: "frame_wf ctx" and ok: "frame_op_ok oper" and ex: "frame_exec ctx oper = Some (e, ctx')" and inv: "tx_inv ctx fs"
  shows "tx_inv ctx' (tx_frames fs e)"
proof (cases oper)
  case (Op_encrypt plain secure max_len)
  with ok have m: "max_len \<le> length secure" by simp
  show ?thesis
  proof (cases rule: frame_encrypt_outcome [OF wf m, where plain = plain, case_names early sent])
    case (early e)
    then show ?thesis using ex inv by (auto simp: frame_exec_def Op_encrypt tx_frames_def)
  next
    case (sent g)
    have len: "12 \<le> length plain" "length (fc_local_sci ctx) = 8" "fs_next_pn (fc_tx_sak ctx) \<noteq> 0"
      using sent(1) wf by (auto simp: frame_tx_guard_def frame_wf_def macsec_frame_crypto_ready_tx_def split: if_splits)
    define f where "f = frame_seal (fc_tx_sak ctx) (fc_local_sci ctx) plain"
    obtain c t where spec: "gcm_encrypt_spec (take (unat (fs_key_len (fc_tx_sak ctx))) (fs_key (fc_tx_sak ctx)))
       (unat (fs_key_len (fc_tx_sak ctx)) * 8) (fc_local_sci ctx @ macsec_wr_be32 (fs_next_pn (fc_tx_sak ctx)))
       (frame_header plain (fs_an (fc_tx_sak ctx)) (fc_local_sci ctx) (fs_next_pn (fc_tx_sak ctx)))
       (drop 12 plain) = (c, t)" by fastforce
    note F = frame_seal_fields [OF len(1,2) f_def [symmetric] spec]
    have "e = Sent plain f" "fc_local_sci ctx' = fc_local_sci ctx"
      "fs_next_pn (fc_tx_sak ctx') = frame_next_pn (fs_next_pn (fc_tx_sak ctx))"
      using ex sent(3,4) F(1) by (auto simp: frame_exec_def Op_encrypt f_def [symmetric] frame_same_def)
    then show ?thesis
      using tx_inv_sent [OF inv F(7) len(3)] F(7,8) by (simp add: tx_frames_def)
  qed
next
  case (Op_decrypt secure plain max_len)
  with ok have m: "max_len \<le> length plain" by simp
  show ?thesis
    by (cases rule: frame_decrypt_outcome [OF wf m, where f = secure])
      (use ex inv in \<open>auto simp: frame_exec_def Op_decrypt tx_frames_def tx_inv_def frame_same_def\<close>)
next
  case (Op_set_tx_sak sak)
  then show ?thesis
    using ex inv by (auto simp: frame_exec_def macsec_frame_crypto_set_tx_sak_def Let_def tx_frames_def tx_inv_def split: if_splits)
next
  case (Op_set_rx_sak sak)
  then show ?thesis
    using ex inv by (auto simp: frame_exec_def macsec_frame_crypto_set_rx_sak_def Let_def tx_frames_def tx_inv_def split: if_splits)
next
  case Op_remove_tx_sak
  then show ?thesis
    using ex by (auto simp: frame_exec_def macsec_frame_crypto_remove_tx_sak_def tx_frames_def tx_inv_def)
next
  case (Op_remove_rx_sak a)
  then show ?thesis
    using ex inv by (auto simp: frame_exec_def macsec_frame_crypto_remove_rx_sak_def tx_frames_def tx_inv_def split: if_splits)
qed

text \<open>
  C3. In every run of the frame layer the frames sent between two installations of the
  transmit key carry consecutive packet numbers, and no two of them use the same GCM initialization
  vector; after number 2^32 - 1 nothing more is sent.
\<close>

theorem no_nonce_twice:
  assumes "frame_trace ctx es ctx'" and "macsec_frame_crypto_init sci = (MACSEC_ERR_OK, ctx)" and "length sci = 8"
  shows "distinct (map frame_iv (sent_frames es)) \<and>
    (\<exists>k. map (\<lambda>f. unat (frame_pn f)) (sent_frames es) = [k..<k + length (sent_frames es)] \<and>
         k + length (sent_frames es) \<le> 2 ^ 32)"
proof -
  have wf: "frame_wf ctx" "tx_inv ctx []"
    using assms(2,3) by (auto simp: macsec_frame_crypto_init_def frame_ctx_zero_def frame_wf_def frame_sak_zero_def tx_inv_def)
  have inv: "tx_inv ctx' (sent_frames es)"
    using assms(1) wf
  proof induction
    case (frame_trace_step c es c' oper e c'')
    show ?case
      using frame_exec_tx_inv [OF _ frame_trace_step(2,3) frame_trace_step.IH]
        frame_trace_wf [OF frame_trace_step(1) frame_trace_step.prems(1)] frame_trace_step.prems
      by simp
  qed simp
  then obtain k where k: "map (\<lambda>f. unat (frame_pn f)) (sent_frames es) = [k..<k + length (sent_frames es)]"
    "k + length (sent_frames es) \<le> 2 ^ 32"
    by (cases "sent_frames es = []") (auto simp: tx_inv_def)
  have "distinct (map (\<lambda>f. unat (frame_pn f)) (sent_frames es))" by (simp only: k(1) distinct_upt)
  then have "distinct (map frame_iv (sent_frames es))"
    using inv macsec_wr_be32_inject by (auto simp: distinct_map inj_on_def tx_inv_def)
  with k show ?thesis by blast
qed

subsection \<open>A run\<close>

text \<open>A context that sends a frame to itself: both keys installed, one frame sent and received.\<close>

definition sample_sak :: macsec_frame_sak where
  "sample_sak = frame_sak_zero\<lparr>fs_key := replicate 16 7 @ replicate 16 0, fs_key_len := 16, fs_next_pn := 1,
     fs_lowest_acceptable_pn := 1, fs_valid := True\<rparr>"

definition sample_sci :: bytes where "sample_sci = [2, 0, 0, 0, 0, 1, 0, 1]"

definition sample_frame :: bytes where "sample_frame = replicate 12 2 @ [8, 0] @ replicate 46 5"

definition sample_ctx :: macsec_frame_crypto_ctx where
  "sample_ctx = snd (macsec_frame_crypto_init sample_sci)"

lemma sample_sak_fields [simp]:
  "fs_key sample_sak = replicate 16 7 @ replicate 16 0" "fs_key_len sample_sak = 16" "fs_an sample_sak = 0"
  "fs_next_pn sample_sak = 1" "fs_lowest_acceptable_pn sample_sak = 1" "fs_highest_received_pn sample_sak = 0"
  "fs_replay_bitmap sample_sak = 0" "\<not> fs_replay_exhausted sample_sak" "fs_valid sample_sak"
  by (simp_all add: sample_sak_def frame_sak_zero_def)

text \<open>The context with both keys installed.\<close>

definition sample_link :: macsec_frame_crypto_ctx where
  "sample_link = sample_ctx\<lparr>fc_tx_sak := sample_sak,
     fc_rx_sak := [sample_sak, frame_sak_zero, frame_sak_zero, frame_sak_zero]\<rparr>"

lemmas sample_defs = sample_ctx_def macsec_frame_crypto_init_def frame_ctx_zero_def frame_sak_zero_def sample_sci_def

lemma sample_key_len [simp]: "macsec_frame_key_len_valid 16"
  by (simp add: macsec_frame_key_len_valid_def)

lemma sample_link_fields [simp]:
  "fc_tx_sak sample_link = sample_sak" "fc_local_sci sample_link = sample_sci" "fc_encrypt sample_link"
  "fc_rx_sak sample_link = [sample_sak, frame_sak_zero, frame_sak_zero, frame_sak_zero]"
  "fc_replay_protect sample_link" "fc_replay_window sample_link = 0"
  by (simp_all add: sample_link_def sample_ctx_def macsec_frame_crypto_init_def frame_ctx_zero_def)

lemma sample_lengths [simp]: "length sample_frame = 60" "length sample_sci = 8"
  by (simp_all add: sample_frame_def sample_sci_def)

lemma sample_link_wf: "frame_wf sample_link"
  by (simp add: frame_wf_def) (simp add: sample_link_def sample_defs)

lemma sample_link_ready:
  "macsec_frame_crypto_ready_tx sample_link"
  "fc_rx_sak c = fc_rx_sak sample_link \<Longrightarrow> macsec_frame_crypto_ready_rx c 0"
  by (simp_all add: macsec_frame_crypto_ready_tx_def macsec_frame_crypto_ready_rx_def)

lemma sample_sent:
  "\<exists>c3 s3. macsec_frame_encrypt sample_link sample_frame (replicate 2000 0) 2000 = Some (MACSEC_ERR_OK, c3, s3, 92) \<and>
     take 92 s3 = frame_seal sample_sak sample_sci sample_frame \<and> frame_wf c3 \<and> fc_rx_sak c3 = fc_rx_sak sample_link \<and>
     fc_replay_protect c3 \<and> fc_replay_window c3 = 0"
proof -
  have buf: "2000 \<le> length (replicate 2000 (0 :: u8))" by simp
  show ?thesis
    using length_frame_seal [of sample_frame sample_sci sample_sak]
    by (cases rule: frame_encrypt_outcome [OF sample_link_wf buf, of sample_frame])
       (auto simp: frame_tx_guard_def frame_same_def sample_link_ready)
qed

lemma sample_received:
  "\<exists>c3 s3 c4 out. macsec_frame_encrypt sample_link sample_frame (replicate 2000 0) 2000 = Some (MACSEC_ERR_OK, c3, s3, 92) \<and>
     take 92 s3 = frame_seal sample_sak sample_sci sample_frame \<and> frame_wf c3 \<and> fc_rx_sak c3 = fc_rx_sak sample_link \<and>
     macsec_frame_replay_check c3 sample_sak 1 = MACSEC_ERR_OK \<and>
     macsec_frame_decrypt c3 (take 92 s3) (replicate 2000 0) 2000 = Some (MACSEC_ERR_OK, c4, out, 60)"
proof -
  have buf: "2000 \<le> length (replicate 2000 (0 :: u8))" by simp
  obtain c3 s3 where s: "macsec_frame_encrypt sample_link sample_frame (replicate 2000 0) 2000 = Some (MACSEC_ERR_OK, c3, s3, 92)"
    "take 92 s3 = frame_seal sample_sak sample_sci sample_frame" "frame_wf c3" "fc_rx_sak c3 = fc_rx_sak sample_link"
    "fc_replay_protect c3" "fc_replay_window c3 = 0"
    using sample_sent by blast
  have rc: "macsec_frame_replay_check c3 sample_sak 1 = MACSEC_ERR_OK"
    by (simp add: macsec_frame_replay_check_def s(5,6))
  have "\<exists>c4 out. macsec_frame_decrypt c3 (take 92 s3) (replicate 2000 0) 2000 =
      Some (MACSEC_ERR_OK, c4, out, length sample_frame) \<and> take (length sample_frame) out = sample_frame"
    by (rule frame_round_trip_lemma [where sak = sample_sak, OF sample_link_wf s(3) buf buf s(1)])
       (simp_all add: rc s(4) sample_link_ready(2))
  with s rc show ?thesis by auto
qed

lemma sample_trace:
  "\<exists>es ctx'. frame_trace sample_ctx es ctx' \<and> received_pns 0 es = [1] \<and> length (sent_frames es) = 1"
proof -
  let ?c1 = "sample_ctx\<lparr>fc_tx_sak := sample_sak\<rparr>"
  have four: "replicate 4 frame_sak_zero = [frame_sak_zero, frame_sak_zero, frame_sak_zero, frame_sak_zero]"
    by (simp add: eval_nat_numeral)
  have e1: "frame_exec sample_ctx (Op_set_tx_sak sample_sak) = Some (Tx_installed, ?c1)"
    by (simp add: frame_exec_def macsec_frame_crypto_set_tx_sak_def)
  have e2: "frame_exec ?c1 (Op_set_rx_sak sample_sak) = Some (Rx_installed 0, sample_link)"
    by (simp add: frame_exec_def macsec_frame_crypto_set_rx_sak_def sample_ctx_def macsec_frame_crypto_init_def
        frame_ctx_zero_def four Let_def sample_link_def)
  obtain c3 s3 c4 out where s:
    "macsec_frame_encrypt sample_link sample_frame (replicate 2000 0) 2000 = Some (MACSEC_ERR_OK, c3, s3, 92)"
    "take 92 s3 = frame_seal sample_sak sample_sci sample_frame"
    and d: "macsec_frame_decrypt c3 (take 92 s3) (replicate 2000 0) 2000 = Some (MACSEC_ERR_OK, c4, out, 60)"
    using sample_received by blast
  define f where "f = take 92 s3"
  obtain c t where "gcm_encrypt_spec (take (unat (fs_key_len sample_sak)) (fs_key sample_sak)) (unat (fs_key_len sample_sak) * 8)
       (sample_sci @ macsec_wr_be32 (fs_next_pn sample_sak))
       (frame_header sample_frame (fs_an sample_sak) sample_sci (fs_next_pn sample_sak)) (drop 12 sample_frame) = (c, t)"
    by fastforce
  from frame_seal_fields [OF _ _ s(2) [symmetric, folded f_def] this]
  have f: "frame_pn f = 1" "frame_an f = 0"
    by (simp_all add: frame_an_def MACSEC_FRAME_TCI_BASE_def)
  have "frame_trace sample_ctx ([] @ [Tx_installed]) ?c1"
    by (rule frame_trace_step [OF frame_trace_nil _ e1]) simp
  then have "frame_trace sample_ctx (([] @ [Tx_installed]) @ [Rx_installed 0]) sample_link"
    by (rule frame_trace_step [OF _ _ e2]) simp
  then have "frame_trace sample_ctx ((([] @ [Tx_installed]) @ [Rx_installed 0]) @ [Sent sample_frame f]) c3"
    by (rule frame_trace_step [where oper = "Op_encrypt sample_frame (replicate 2000 0) 2000"])
       (simp_all add: frame_exec_def s(1) f_def)
  then have "frame_trace sample_ctx (((([] @ [Tx_installed]) @ [Rx_installed 0]) @ [Sent sample_frame f]) @
      [Received f (take 60 out)]) c4"
    by (rule frame_trace_step [where oper = "Op_decrypt f (replicate 2000 0) 2000"])
       (simp_all add: frame_exec_def d f_def)
  then show ?thesis
    by (intro exI conjI, assumption) (simp_all only: pns_snoc, simp_all add: rx_pns_def tx_frames_def f)
qed

lemma no_packet_number_twice_witness:
  "\<exists>es ctx'. frame_trace sample_ctx es ctx' \<and> received_pns 0 es = [1] \<and> distinct (received_pns 0 es)"
proof -
  obtain es ctx' where t: "frame_trace sample_ctx es ctx'" "received_pns 0 es = [1]" using sample_trace by blast
  have "distinct (received_pns 0 es)"
    by (rule no_packet_number_twice [OF t(1), of sample_sci sample_ctx 0])
       (simp_all add: sample_ctx_def macsec_frame_crypto_init_def frame_ctx_zero_def sample_sci_def)
  with t show ?thesis by blast
qed

lemma no_nonce_twice_witness:
  "\<exists>es ctx'. frame_trace sample_ctx es ctx' \<and> length (sent_frames es) = 1 \<and> distinct (map frame_iv (sent_frames es))"
proof -
  obtain es ctx' where t: "frame_trace sample_ctx es ctx'" "length (sent_frames es) = 1" using sample_trace by blast
  have "distinct (map frame_iv (sent_frames es))"
    using no_nonce_twice [OF t(1), of sample_sci]
    by (simp add: sample_ctx_def macsec_frame_crypto_init_def sample_sci_def)
  with t show ?thesis by blast
qed

subsection \<open>Properties of the frame operations\<close>

text \<open>
  \<open>macsec_frame_decrypt\<close> never fails an assertion and never reads or writes
  outside its buffers, whatever bytes the received frame holds. The plaintext it reports fits the
  stated capacity, and the context stays well formed with its configuration unchanged.
\<close>

theorem frame_decrypt_total:
  assumes "frame_wf ctx" "max_len \<le> length plain"
  shows "\<exists>ret ctx' plain' n. macsec_frame_decrypt ctx f plain max_len = Some (ret, ctx', plain', n) \<and>
    length plain' = length plain \<and> n \<le> max_len \<and> frame_wf ctx' \<and> fc_tx_sak ctx' = fc_tx_sak ctx \<and>
    fc_replay_protect ctx' = fc_replay_protect ctx \<and> fc_replay_window ctx' = fc_replay_window ctx"
proof (cases rule: frame_decrypt_outcome [OF assms, where f = f, case_names early forged accepted])
  case (forged g)
  then show ?thesis using frame_rx_guard_NoneD(1,3) [OF forged(1)] assms(2) by (auto simp: frame_same_def)
next
  case (accepted g p sak)
  then show ?thesis using frame_rx_guard_NoneD(1,3) [OF accepted(1)] assms(2) by (auto simp: frame_same_def)
qed (use assms in auto)

text \<open>
  C28. When \<open>macsec_frame_decrypt\<close> returns an error it reports no plaintext, it
  leaves every SAK and with it the replay window untouched, and the output buffer is either
  unchanged or zero from its start up to the length of the frame's payload.
\<close>

theorem frame_reject_harmless:
  assumes "frame_wf ctx" "max_len \<le> length plain"
    and "macsec_frame_decrypt ctx f plain max_len = Some (ret, ctx', plain', n)" "ret \<noteq> MACSEC_ERR_OK"
  shows "n = 0 \<and> fc_rx_sak ctx' = fc_rx_sak ctx \<and> fc_tx_sak ctx' = fc_tx_sak ctx \<and>
    (plain' = plain \<or> plain' = replicate (length f - 32) 0 @ drop (length f - 32) plain)"
  by (cases rule: frame_decrypt_outcome [OF assms(1,2), where f = f])
    (use assms(3,4) in \<open>auto simp: frame_same_def\<close>)

text \<open>
  C27. When \<open>macsec_frame_decrypt\<close> accepts a frame, an installed SAK with the
  association number of the frame authenticates it: the tag is the GCM tag of the standard over the
  whole header and the ciphertext under that key, and the plaintext is the two addresses followed
  by the decryption of the payload.
\<close>

theorem frame_accept_authentic:
  assumes "frame_wf ctx" "max_len \<le> length plain"
    and "macsec_frame_decrypt ctx f plain max_len = Some (MACSEC_ERR_OK, ctx', plain', n)"
  shows "let sak = fc_rx_sak ctx ! frame_an f in
    fs_valid sak \<and> (\<exists>p. gcm_decrypt_spec (take (unat (fs_key_len sak)) (fs_key sak)) (unat (fs_key_len sak) * 8)
        (frame_iv f) (take 28 f) (frame_payload f) (frame_icv f) = Some p \<and> take n plain' = take 12 f @ p)"
proof (cases rule: frame_decrypt_outcome [OF assms(1,2), where f = f, case_names early forged accepted])
  case (accepted g p sak)
  note G = frame_rx_guard_NoneD [OF accepted(1)]
  have n: "n = length f - 32" "plain' = take 12 f @ p @ drop (length f - 32) plain"
    using assms(3) accepted(4) by auto
  have "take n plain' = take 12 f @ p" using G(1) accepted(5) by (simp add: n)
  then show ?thesis
    using G(5) accepted(2) by (auto simp: Let_def macsec_frame_crypto_ready_rx_def frame_open_def)
qed (use assms(3) in auto)

text \<open>
  C7. A frame that \<open>macsec_frame_encrypt\<close> protected is recovered exactly by
  \<open>macsec_frame_decrypt\<close> at a receiver that holds the same key for the same association number and
  whose replay window accepts the packet number.
\<close>

theorem frame_round_trip:
  assumes "frame_wf tx" "frame_wf rx" "max_len \<le> length secure" "max_len' \<le> length out"
    and "macsec_frame_encrypt tx plain secure max_len = Some (MACSEC_ERR_OK, tx', secure', n)"
    and "unat (fs_an (fc_tx_sak tx)) < 4"
    and "sak = fc_rx_sak rx ! unat (fs_an (fc_tx_sak tx))" "macsec_frame_crypto_ready_rx rx (unat (fs_an (fc_tx_sak tx)))"
    and "fs_key_len sak = fs_key_len (fc_tx_sak tx)"
      "take (unat (fs_key_len sak)) (fs_key sak) = take (unat (fs_key_len sak)) (fs_key (fc_tx_sak tx))"
    and "macsec_frame_replay_check rx sak (fs_next_pn (fc_tx_sak tx)) = MACSEC_ERR_OK"
    and "length plain \<le> max_len'"
  shows "\<exists>rx' out'. macsec_frame_decrypt rx (take n secure') out max_len' =
      Some (MACSEC_ERR_OK, rx', out', length plain) \<and> take (length plain) out' = plain"
  using assms by (rule frame_round_trip_lemma)

text \<open>
  C8. The bitmap, the highest and the lowest number of a receive SAK implement the
  set of accepted numbers: with window \<open>W\<close>, \<open>macsec_frame_replay_check\<close> accepts exactly the
  numbers the specification accepts, and for these \<open>macsec_frame_replay_commit\<close> fails no assertion
  and adds the number to the represented set. This includes the numbers at the top of the 32-bit
  range.
\<close>

theorem replay_window_refines:
  assumes "replay_repr W floor A sak" "fc_replay_protect ctx" "unat (fc_replay_window ctx) = W" "W \<le> 64"
  shows "macsec_frame_replay_check ctx sak pn =
      (if replay_ok W floor A (unat pn) then MACSEC_ERR_OK else MACSEC_ERR_REPLAY) \<and>
    (replay_ok W floor A (unat pn) \<longrightarrow>
      (\<exists>sak'. macsec_frame_replay_commit ctx sak pn = Some sak' \<and> replay_repr W floor (insert (unat pn) A) sak'))"
  using replay_check_refines [OF assms] replay_commit_refines [OF assms] by blast

subsection \<open>Instances\<close>

lemma sample_wf: "frame_wf sample_ctx"
  by (simp add: sample_ctx_def macsec_frame_crypto_init_def frame_ctx_zero_def frame_wf_def frame_sak_zero_def
      sample_sci_def)

lemma frame_decrypt_total_witness:
  "\<exists>ret ctx' plain' n. macsec_frame_decrypt sample_ctx (replicate 70 0x88) [0] 1 = Some (ret, ctx', plain', n) \<and>
    length plain' = length [0] \<and> n \<le> 1 \<and> frame_wf ctx' \<and> fc_tx_sak ctx' = fc_tx_sak sample_ctx \<and>
    fc_replay_protect ctx' = fc_replay_protect sample_ctx \<and> fc_replay_window ctx' = fc_replay_window sample_ctx"
  using frame_decrypt_total [OF sample_wf, of 1 "[0]" "replicate 70 0x88"] by simp

lemma frame_reject_harmless_witness:
  "\<exists>ret ctx' plain'. macsec_frame_decrypt sample_ctx (replicate 13 1) [9] 1 = Some (ret, ctx', plain', 0) \<and>
     ret = MACSEC_ERR_PARAM \<and> fc_rx_sak ctx' = fc_rx_sak sample_ctx"
proof -
  have "frame_rx_guard sample_ctx (replicate 13 1) 1 = Some MACSEC_ERR_PARAM"
    by (simp add: frame_rx_guard_def)
  then have d: "macsec_frame_decrypt sample_ctx (replicate 13 1) [9] 1 = Some (MACSEC_ERR_PARAM, sample_ctx, [9], 0)"
    by (simp add: frame_decrypt_guard)
  show ?thesis
    using frame_reject_harmless [OF sample_wf _ d] d by simp
qed

lemma frame_accept_authentic_witness:
  "\<exists>f p out. fs_valid sample_sak \<and> take 12 f @ p = take 60 out \<and>
     gcm_decrypt_spec (replicate 16 7) 128 (frame_iv f) (take 28 f) (frame_payload f) (frame_icv f) = Some p"
proof -
  obtain c3 s3 c4 out where r: "macsec_frame_decrypt c3 (take 92 s3) (replicate 2000 0) 2000 = Some (MACSEC_ERR_OK, c4, out, 60)"
    and s: "frame_wf c3" "fc_rx_sak c3 = fc_rx_sak sample_link" "take 92 s3 = frame_seal sample_sak sample_sci sample_frame"
    using sample_received by blast
  have an: "frame_an (take 92 s3) = 0"
  proof -
    obtain c t where "gcm_encrypt_spec (take (unat (fs_key_len sample_sak)) (fs_key sample_sak)) (unat (fs_key_len sample_sak) * 8)
       (sample_sci @ macsec_wr_be32 (fs_next_pn sample_sak))
       (frame_header sample_frame (fs_an sample_sak) sample_sci (fs_next_pn sample_sak)) (drop 12 sample_frame) = (c, t)"
      by fastforce
    from frame_seal_fields(5) [OF _ _ s(3) [symmetric] this] show ?thesis
      by (simp add: frame_an_def MACSEC_FRAME_TCI_BASE_def)
  qed
  obtain p where "gcm_decrypt_spec (replicate 16 7) 128 (frame_iv (take 92 s3)) (take 28 (take 92 s3))
      (frame_payload (take 92 s3)) (frame_icv (take 92 s3)) = Some p" "take 60 out = take 12 (take 92 s3) @ p"
    using frame_accept_authentic [OF s(1) _ r] by (auto simp: s(2) an)
  then show ?thesis
    by (intro exI [of _ "take 92 s3"] exI [of _ p] exI [of _ out]) simp
qed

lemma frame_round_trip_witness:
  "\<exists>tx' rx' f secure' out'.
     macsec_frame_encrypt sample_link sample_frame (replicate 2000 0) 2000 = Some (MACSEC_ERR_OK, tx', secure', 92) \<and>
     macsec_frame_decrypt tx' (take 92 secure') (replicate 2000 0) 2000 = Some (MACSEC_ERR_OK, rx', out', 60) \<and>
     take 60 out' = sample_frame"
proof -
  obtain c3 s3 where s: "macsec_frame_encrypt sample_link sample_frame (replicate 2000 0) 2000 = Some (MACSEC_ERR_OK, c3, s3, 92)"
    "frame_wf c3" "fc_rx_sak c3 = fc_rx_sak sample_link" "macsec_frame_replay_check c3 sample_sak 1 = MACSEC_ERR_OK"
    using sample_received by blast
  have "\<exists>rx' out'. macsec_frame_decrypt c3 (take 92 s3) (replicate 2000 0) 2000 =
      Some (MACSEC_ERR_OK, rx', out', length sample_frame) \<and> take (length sample_frame) out' = sample_frame"
    by (rule frame_round_trip [where sak = sample_sak, OF sample_link_wf s(2) _ _ s(1)])
       (simp_all add: s sample_link_ready(2))
  with s(1) show ?thesis by auto
qed

lemma replay_window_refines_witness:
  "\<exists>sak'. macsec_frame_replay_check sample_link (sample_sak\<lparr>fs_highest_received_pn := 4294967294,
        fs_lowest_acceptable_pn := 4294967295\<rparr>) (- 1) = MACSEC_ERR_OK \<and>
     macsec_frame_replay_commit sample_link (sample_sak\<lparr>fs_highest_received_pn := 4294967294,
        fs_lowest_acceptable_pn := 4294967295\<rparr>) (- 1) = Some sak' \<and>
     replay_repr 0 1 {4294967295, 4294967294} sak'"
proof -
  let ?sak = "sample_sak\<lparr>fs_highest_received_pn := 4294967294, fs_lowest_acceptable_pn := 4294967295\<rparr>"
  have "replay_repr 0 1 {4294967294} ?sak" by (simp add: replay_repr_def)
  moreover have "replay_ok 0 1 {4294967294} (unat (- 1 :: u32))" unfolding u32_max by (simp add: replay_ok_def)
  ultimately show ?thesis
    using replay_window_refines [of 0 1 "{4294967294}" ?sak sample_link "- 1"] u32_max by simp
qed

end
