(* ===== verification/AesKeyed.thy ===== *)
theory AesKeyed
  imports GcmSpec
begin

text \<open>
  The expanded key of \<open>math/aes.c\<close> depends on the key alone: \<open>math_aes_setenckey\<close> on any context
  with a buffer of 68 words gives the block cipher \<open>aes_of_key\<close> (\<open>aes_of_key_any\<close>), whatever an
  earlier key left in the buffer. The users of AES that keep a context between calls rest on this.
\<close>

subsection \<open>The expanded key\<close>

text \<open>\<open>rk_agree n a b\<close>: two round-key buffers with the same first \<open>n\<close> words.\<close>

definition rk_agree :: "nat \<Rightarrow> u32 list \<Rightarrow> u32 list \<Rightarrow> bool" where
  "rk_agree n a b \<longleftrightarrow> length a = length b \<and> n \<le> length a \<and> (\<forall>i < n. a ! i = b ! i)"

lemma rk_agree_update: "rk_agree n a b \<Longrightarrow> n < length a \<Longrightarrow> v = w \<Longrightarrow> rk_agree (Suc n) (a[n := v]) (b[n := w])"
  by (auto simp: rk_agree_def less_Suc_eq)

lemma rk_agree_load:
  "length a = length b \<Longrightarrow> n \<le> length a \<Longrightarrow>
   rk_agree n (fold (\<lambda>i rk. rk[i := f i]) [0..<n] a) (fold (\<lambda>i rk. rk[i := f i]) [0..<n] b)"
proof (induction n)
  case 0
  then show ?case by (simp add: rk_agree_def)
next
  case (Suc n)
  then have "rk_agree n (fold (\<lambda>i rk. rk[i := f i]) [0..<n] a) (fold (\<lambda>i rk. rk[i := f i]) [0..<n] b)"
    by simp
  then show ?case using Suc.prems by (auto intro!: rk_agree_update simp: length_fold_update)
qed

lemma aes_expand_word_agree:
  "rk_agree i a b \<Longrightarrow> 0 < kw \<Longrightarrow> kw \<le> i \<Longrightarrow> aes_expand_word kw a i = aes_expand_word kw b i"
  by (simp add: aes_expand_word_def rk_agree_def Let_def)

lemma length_fold_expand [simp]:
  "length (fold (\<lambda>i rk. rk[i := aes_expand_word kw rk i]) is a) = length a"
  by (induction "is" arbitrary: a) simp_all

lemma rk_agree_expand:
  "rk_agree m a b \<Longrightarrow> 0 < kw \<Longrightarrow> kw \<le> m \<Longrightarrow> m + k \<le> length a \<Longrightarrow>
   rk_agree (m + k) (fold (\<lambda>i rk. rk[i := aes_expand_word kw rk i]) [m..<m + k] a)
                    (fold (\<lambda>i rk. rk[i := aes_expand_word kw rk i]) [m..<m + k] b)"
proof (induction k)
  case (Suc k)
  then have "rk_agree (m + k) (fold (\<lambda>i rk. rk[i := aes_expand_word kw rk i]) [m..<m + k] a)
                    (fold (\<lambda>i rk. rk[i := aes_expand_word kw rk i]) [m..<m + k] b)" by simp
  from rk_agree_update [OF this _ aes_expand_word_agree [OF this]] Suc.prems show ?case by simp
qed simp

lemma setenckey_agree:
  fixes c d :: math_aes_context and key :: bytes and keybits :: nat
  assumes "keybits \<in> {128, 192, 256}" "length (rk_buf c) = 68" "length (rk_buf d) = 68"
  defines "s \<equiv> snd (math_aes_setenckey c key keybits)" and "t \<equiv> snd (math_aes_setenckey d key keybits)"
  shows "number_of_rounds s = number_of_rounds t"
    and "rk_agree (4 * (number_of_rounds s + 1)) (rk_buf s) (rk_buf t)"
    and "number_of_rounds s \<in> {10, 12, 14}"
proof -
  obtain kw r where kr: "math_aes_setenckey x key keybits =
      (0, x\<lparr>number_of_rounds := r,
            rk_buf := fold (\<lambda>i rk. rk[i := aes_expand_word kw rk i]) [kw..<4 * (r + 1)]
                        (fold (\<lambda>i rk. rk[i := AES_GET_LE32 key (i * 4)]) [0..<kw] (rk_buf x))\<rparr>)"
      and r: "(kw, r) \<in> {(4, 10), (6, 12), (8, 14)}" for x :: math_aes_context
    using assms(1) that [of 4 10] that [of 6 12] that [of 8 14]
    by (elim insertE emptyE) (simp_all add: math_aes_setenckey_def Let_def del: upt_rec_numeral)
  show "number_of_rounds s = number_of_rounds t" "number_of_rounds s \<in> {10, 12, 14}"
    using r by (auto simp: s_def t_def kr)
  have "rk_agree kw (fold (\<lambda>i rk. rk[i := AES_GET_LE32 key (i * 4)]) [0..<kw] (rk_buf c))
                    (fold (\<lambda>i rk. rk[i := AES_GET_LE32 key (i * 4)]) [0..<kw] (rk_buf d))"
    using r assms(2,3) by (intro rk_agree_load) auto
  from rk_agree_expand [OF this, of kw "4 * (r + 1) - kw"] r
  show "rk_agree (4 * (number_of_rounds s + 1)) (rk_buf s) (rk_buf t)"
    by (auto simp: s_def t_def kr length_fold_update assms(2,3) simp del: upt_rec_numeral)
qed

lemma forward_agree:
  assumes "rk_agree n a b" "k + 4 \<le> n"
  shows "aes_forward_round a k st = aes_forward_round b k st"
    and "aes_forward_final a k st = aes_forward_final b k st"
  using assms by (simp_all add: aes_forward_round_def aes_forward_final_def rk_agree_def)

lemma enc_state_agree:
  "rk_agree n a b \<Longrightarrow> 4 * (m + 1) \<le> n \<Longrightarrow> enc_state a st m = enc_state b st m"
  by (induction m) (simp_all add: forward_agree(1) [where n = n])

lemma math_aes_encrypt_agree:
  assumes nr: "number_of_rounds c = number_of_rounds d" "0 < number_of_rounds c"
    and rk: "rk_agree (4 * (number_of_rounds c + 1)) (rk_buf c) (rk_buf d)"
  shows "math_aes_encrypt c b = math_aes_encrypt d b"
proof -
  obtain m where m: "number_of_rounds c = Suc m" "number_of_rounds d = Suc m"
    using nr by (metis gr0_implies_Suc)
  have s0: "map (\<lambda>column. AES_GET_LE32 b (column * 4) XOR rk_buf c ! column) [0..<4] =
            map (\<lambda>column. AES_GET_LE32 b (column * 4) XOR rk_buf d ! column) [0..<4]"
    using rk by (simp add: rk_agree_def)
  have e: "enc_state (rk_buf c) st m = enc_state (rk_buf d) st m"
    "aes_forward_final (rk_buf c) (4 * Suc m) st = aes_forward_final (rk_buf d) (4 * Suc m) st" for st
    using rk unfolding m by (auto intro!: enc_state_agree forward_agree(2))
  show ?thesis
    by (simp only: math_aes_encrypt_def Let_def m s0 fold_enc_state prod.case e)
qed

lemma aes_of_key_any:
  assumes "keybits \<in> {128, 192, 256}" "length (rk_buf c) = 68"
  shows "snd (math_aes_encrypt (snd (math_aes_setenckey c key keybits)) b) = aes_of_key key keybits b"
proof -
  have "length (rk_buf math_aes_init) = 68" by (simp add: math_aes_init_def)
  note a = setenckey_agree [OF assms(1,2) this, where key = key]
  show ?thesis
    unfolding aes_of_key_def
    using a(3) by (subst math_aes_encrypt_agree [OF a(1) _ a(2)]) auto
qed

end
