(* ===== verification/AesSpec.thy ===== *)
theory AesSpec
  imports AesKeyed
begin

text \<open>
  The block cipher of \<open>math/aes.c\<close> computes the AES of FIPS 197. The standard is written down on bytes:
  the field GF(2^8) with its inverse (unique, by \<open>gf256_inv_unique\<close>), the S-box, ShiftRows, MixColumns
  and the key expansion. The S-box of the source is checked against it entry by entry, with one
  product for each (\<open>sbox_entry_ok\<close>); the rest is a refinement of words by columns of bytes
  (\<open>schedule_repr\<close>, \<open>aes_bytes\<close>).
\<close>

subsection \<open>The field\<close>

text \<open>
  Products of bytes as polynomials over GF(2) modulo \<open>x^8 + x^4 + x^3 + x + 1\<close>: the second factor
  selects the multiples of the first one by the powers of \<open>x\<close>. The S-box of FIPS 197 is the
  multiplicative inverse, with 0 for 0, followed by an affine map over GF(2).
\<close>

primrec gf256_sum :: "nat list \<Rightarrow> u8 \<Rightarrow> u8 \<Rightarrow> u8" where
  "gf256_sum [] p b = 0"
| "gf256_sum (i # is) p b = (if bit b i then p else 0) XOR gf256_sum is (xt p) b"

definition gf256_mul :: "u8 \<Rightarrow> u8 \<Rightarrow> u8" where
  "gf256_mul a b = gf256_sum [0, 1, 2, 3, 4, 5, 6, 7] a b"

definition gf256_inv :: "u8 \<Rightarrow> u8" where
  "gf256_inv x = (if x = 0 then 0 else hd (filter (\<lambda>y. gf256_mul x y = 1) (map of_nat [0..<256])))"

definition rol8 :: "nat \<Rightarrow> u8 \<Rightarrow> u8" where
  "rol8 n b = push_bit n b OR drop_bit (8 - n) b"

definition fips_affine :: "u8 \<Rightarrow> u8" where
  "fips_affine b = b XOR rol8 1 b XOR rol8 2 b XOR rol8 3 b XOR rol8 4 b XOR 0x63"

definition fips_sbox :: "u8 \<Rightarrow> u8" where "fips_sbox x = fips_affine (gf256_inv x)"

lemma xt_0 [simp]: "xt 0 = 0" by (simp add: xt_def)

lemma xt_if: "xt (if c then p else 0) = (if c then xt p else 0)" by simp

lemma bit_if_xor: "(if bit (b XOR c) i then p else 0) =
    (if bit b i then p else 0) XOR (if bit c i then p else (0 :: u8))"
  by (simp add: bit_xor_iff)

lemma gf256_sum_xor:
  "gf256_sum is (p XOR q) b = gf256_sum is p b XOR gf256_sum is q b"
  "gf256_sum is p (b XOR c) = gf256_sum is p b XOR gf256_sum is p c"
  by (induction "is" arbitrary: p q) (simp_all add: xt_xor bit_if_xor xor_ac_word)

lemma gf256_sum_xt: "gf256_sum is (xt p) b = xt (gf256_sum is p b)"
  by (induction "is" arbitrary: p) (simp_all add: xt_xor)

lemma gf256_mul_xor:
  "gf256_mul (a XOR b) c = gf256_mul a c XOR gf256_mul b c" "gf256_mul a (b XOR c) = gf256_mul a b XOR gf256_mul a c"
  by (simp_all only: gf256_mul_def gf256_sum_xor)

lemma gf256_mul_xt: "gf256_mul (xt a) b = xt (gf256_mul a b)"
  by (simp only: gf256_mul_def gf256_sum_xt)

lemma gf256_mul_0 [simp]: "gf256_mul a 0 = 0" "gf256_mul 0 a = 0"
  by (simp_all add: gf256_mul_def)

lemma bit_if_0: "bit (if c then p else (0 :: u8)) n \<longleftrightarrow> c \<and> bit p n" by simp

lemma gf256_unit_sum:
  "gf256_mul 1 a = (if bit a 0 then 1 else 0) XOR (if bit a 1 then 2 else 0) XOR (if bit a 2 then 4 else 0) XOR
      (if bit a 3 then 8 else 0) XOR (if bit a 4 then 16 else 0) XOR (if bit a 5 then 32 else 0) XOR
      (if bit a 6 then 64 else 0) XOR (if bit a 7 then 128 else 0)"
  by (simp add: gf256_mul_def xt_def xor.assoc)

lemma gf256_one_left: "gf256_mul 1 a = a"
proof (rule bit_word_eqI)
  fix n assume "n < LENGTH(8)"
  then have "n \<in> {0, 1, 2, 3, 4, 5, 6, 7}" by auto
  then show "bit (gf256_mul 1 a) n = bit a n"
    unfolding gf256_unit_sum bit_xor_iff bit_if_0
    by (elim insertE emptyE) simp_all
qed

text \<open>An additive function is determined by the powers of \<open>x\<close>.\<close>

lemma gf256_additive:
  assumes f: "\<And>a b. f (a XOR b) = f a XOR (f b :: u8)" and g: "\<And>a b. g (a XOR b) = g a XOR (g b :: u8)"
    and same: "\<forall>p \<in> {1, 2, 4, 8, 16, 32, 64, 128}. f p = g p"
  shows "f (a :: u8) = g a"
proof -
  have z: "f 0 = 0" "g 0 = 0" using f [of 0 0] g [of 0 0] by simp_all
  note a = gf256_unit_sum [of a, unfolded gf256_one_left]
  have "f (if c then p else 0) = g (if c then p else 0)" if "p \<in> {1, 2, 4, 8, 16, 32, 64, 128}" for c p
    using bspec [OF same that] z by simp
  then show ?thesis
    by (subst (1 2) a) (simp only: f g, simp)
qed

lemma xt_reduce: "xt (xt (xt (xt (xt (xt (xt (xt a))))))) = xt (xt (xt (xt a))) XOR xt (xt (xt a)) XOR xt a XOR a"
  by (rule gf256_additive [of "\<lambda>a. xt (xt (xt (xt (xt (xt (xt (xt a)))))))"
        "\<lambda>a. xt (xt (xt (xt a))) XOR xt (xt (xt a)) XOR xt a XOR a"])
     (simp_all add: xt_xor xor_ac_word, simp_all add: xt_def)

lemma gf256_mul_xt_right: "gf256_mul a (xt b) = xt (gf256_mul a b)"
proof (rule gf256_additive [of "\<lambda>b. gf256_mul a (xt b)" "\<lambda>b. xt (gf256_mul a b)"])
  show "\<forall>p \<in> {1, 2, 4, 8, 16, 32, 64, 128}. gf256_mul a (xt p) = xt (gf256_mul a p)"
    using xt_reduce [of a] by (simp add: gf256_mul_def xt_def [of 1] xt_def [of "numeral _"] xt_xor xor_ac_word)
qed (simp_all add: xt_xor gf256_mul_xor)

lemma gf256_mul_powers:
  "gf256_mul a 1 = a" "gf256_mul a 2 = xt a" "gf256_mul a 4 = xt (xt a)" "gf256_mul a 8 = xt (xt (xt a))"
  "gf256_mul a 16 = xt (xt (xt (xt a)))" "gf256_mul a 32 = xt (xt (xt (xt (xt a))))"
  "gf256_mul a 64 = xt (xt (xt (xt (xt (xt a)))))" "gf256_mul a 128 = xt (xt (xt (xt (xt (xt (xt a))))))"
  by (simp_all add: gf256_mul_def)

lemma gf256_mul_comm: "gf256_mul a b = gf256_mul b a"
proof (rule gf256_additive [of "gf256_mul a" "\<lambda>b. gf256_mul b a"])
  have "gf256_mul (xt b) a = xt (gf256_mul b a)" for b by (rule gf256_mul_xt)
  from this [of 1] this [of 2] this [of 4] this [of 8] this [of 16] this [of 32] this [of 64]
  show "\<forall>p \<in> {1, 2, 4, 8, 16, 32, 64, 128}. gf256_mul a p = gf256_mul p a"
    by (simp add: gf256_mul_powers gf256_one_left) (simp add: xt_def [of 1] xt_def [of "numeral _"] gf256_one_left)
qed (simp_all add: gf256_mul_xor)

lemma gf256_mul_assoc: "gf256_mul (gf256_mul a b) c = gf256_mul a (gf256_mul b c)"
  by (rule gf256_additive [of "gf256_mul (gf256_mul a b)" "\<lambda>c. gf256_mul a (gf256_mul b c)"])
     (simp_all add: gf256_mul_xor gf256_mul_powers gf256_mul_xt_right)

lemma gf256_inv_unique:
  assumes "gf256_mul x y = 1"
  shows "gf256_inv x = y"
proof -
  have x: "x \<noteq> 0" using assms by auto
  have u: "z = y" if "gf256_mul x z = 1" for z
  proof -
    have "z = gf256_mul (gf256_mul y x) z" using assms by (simp add: gf256_mul_comm [of y] gf256_one_left)
    also have "\<dots> = y" using that by (simp add: gf256_mul_assoc gf256_mul_powers)
    finally show ?thesis .
  qed
  let ?f = "filter (\<lambda>y. gf256_mul x y = 1) (map of_nat [0..<256])"
  have "y = of_nat (unat y)" "unat y \<in> set [0..<256]" by simp_all
  then have "y \<in> set (map of_nat [0..<256])" unfolding set_map by (rule image_eqI)
  with assms have "?f \<noteq> []" by (auto simp: filter_empty_conv)
  then have "hd ?f \<in> set ?f" by (rule hd_in_set)
  with u x show ?thesis by (auto simp: gf256_inv_def)
qed

text \<open>The affine map and its inverse, in forms in which every intermediate result stays below 256.\<close>

definition fips_unaffine :: "u8 \<Rightarrow> u8" where
  "fips_unaffine s = rol8 1 s XOR rol8 3 s XOR rol8 6 s XOR 0x05"

lemma push_bit_low: "push_bit n (b :: u8) = push_bit n (b AND mask (8 - n))"
  by (rule bit_word_eqI) (auto simp: bit_simps)

lemma xt_eval: "xt x = (if bit x 7 then push_bit 1 (x AND 0x7F) XOR 0x1B else push_bit 1 x)"
  using push_bit_low [of 1 x] by (simp add: xt_def mask_eq_exp_minus_1)

lemma rol8_eval:
  "rol8 (Suc 0) b = push_bit 1 (b AND 0x7F) OR drop_bit 7 b" "rol8 2 b = push_bit 2 (b AND 0x3F) OR drop_bit 6 b"
  "rol8 3 b = push_bit 3 (b AND 0x1F) OR drop_bit 5 b" "rol8 4 b = push_bit 4 (b AND 0x0F) OR drop_bit 4 b"
  "rol8 6 b = push_bit 6 (b AND 0x03) OR drop_bit 2 b"
  using push_bit_low [of 1 b] push_bit_low [of 2 b] push_bit_low [of 3 b] push_bit_low [of 4 b] push_bit_low [of 6 b]
  by (simp_all add: rol8_def mask_eq_exp_minus_1)

text \<open>The table of the source, entry by entry: one product and two affine maps for each.\<close>

definition sbox_entry_ok :: "u8 \<Rightarrow> u8 \<Rightarrow> bool" where
  "sbox_entry_ok x s \<longleftrightarrow> fips_affine (fips_unaffine s) = s \<and> gf256_mul x (fips_unaffine s) = 1"

primrec sbox_from_ok :: "u8 list \<Rightarrow> nat \<Rightarrow> bool" where
  "sbox_from_ok [] n \<longleftrightarrow> True"
| "sbox_from_ok (s # ss) n \<longleftrightarrow> sbox_entry_ok (of_nat n) s \<and> sbox_from_ok ss (Suc n)"

lemma sbox_from_okD: "sbox_from_ok ss n \<Longrightarrow> i < length ss \<Longrightarrow> sbox_entry_ok (of_nat (n + i)) (ss ! i)"
proof (induction ss arbitrary: n i)
  case (Cons s ss)
  then show ?case using Cons.IH [of "Suc n" "i - 1"] by (cases i) auto
qed simp

lemmas sbox_eval = FORWARD_S_BOX_def sbox_entry_ok_def fips_affine_def fips_unaffine_def rol8_eval gf256_mul_def xt_eval

lemma sbox_quarters:
  "sbox_from_ok (take 63 (drop 1 FORWARD_S_BOX)) 1" "sbox_from_ok (take 64 (drop 64 FORWARD_S_BOX)) 64"
  by (simp_all add: sbox_eval)

lemma sbox_quarters':
  "sbox_from_ok (take 64 (drop 128 FORWARD_S_BOX)) 128" "sbox_from_ok (drop 192 FORWARD_S_BOX) 192"
  by (simp_all add: sbox_eval)

lemma forward_sbox_fips: "FORWARD_S_BOX ! unat x = fips_sbox x"
proof -
  define i where "i = unat x"
  have i: "i < 256" "of_nat i = x" by (simp_all add: i_def)
  consider "i = 0" | "1 \<le> i" "i < 64" | "64 \<le> i" "i < 128" | "128 \<le> i" "i < 192" | "192 \<le> i" using i(1) by linarith
  then have "i = 0 \<or> sbox_entry_ok x (FORWARD_S_BOX ! i)"
  proof cases
    case 2
    with sbox_from_okD [OF sbox_quarters(1), of "i - 1"] i show ?thesis by simp
  next
    case 3
    with sbox_from_okD [OF sbox_quarters(2), of "i - 64"] i show ?thesis by simp
  next
    case 4
    with sbox_from_okD [OF sbox_quarters'(1), of "i - 128"] i show ?thesis by simp
  next
    case 5
    with sbox_from_okD [OF sbox_quarters'(2), of "i - 192"] i show ?thesis by simp
  qed simp
  then show ?thesis
  proof
    assume "i = 0"
    then have "FORWARD_S_BOX ! unat x = 0x63" "x = 0" using i by (simp_all add: i_def [symmetric] FORWARD_S_BOX_def)
    then show ?thesis by (simp add: fips_sbox_def gf256_inv_def fips_affine_def rol8_def)
  next
    assume "sbox_entry_ok x (FORWARD_S_BOX ! i)"
    then show ?thesis
      using gf256_inv_unique by (auto simp: sbox_entry_ok_def fips_sbox_def i_def)
  qed
qed

subsection \<open>FIPS 197\<close>

text \<open>
  A state is a list of 16 bytes, column by column; the round keys are the words of the key schedule,
  each a list of 4 bytes.
\<close>

definition fips_shift_rows :: "bytes \<Rightarrow> bytes" where
  "fips_shift_rows s = map (\<lambda>i. s ! ((i + 4 * (i mod 4)) mod 16)) [0..<16]"

definition fips_mix_column :: "bytes \<Rightarrow> bytes" where
  "fips_mix_column v =
     (let a = v ! 0; b = v ! 1; c = v ! 2; d = v ! 3 in
      [gf256_mul 2 a XOR gf256_mul 3 b XOR c XOR d, a XOR gf256_mul 2 b XOR gf256_mul 3 c XOR d,
       a XOR b XOR gf256_mul 2 c XOR gf256_mul 3 d, gf256_mul 3 a XOR b XOR c XOR gf256_mul 2 d])"

definition fips_mix_columns :: "bytes \<Rightarrow> bytes" where
  "fips_mix_columns s = concat (map (\<lambda>c. fips_mix_column (take 4 (drop (4 * c) s))) [0..<4])"

definition fips_round_key :: "bytes list \<Rightarrow> nat \<Rightarrow> bytes" where
  "fips_round_key ws r = concat (map (\<lambda>c. ws ! (4 * r + c)) [0..<4])"

primrec fips_rounds :: "bytes list \<Rightarrow> bytes \<Rightarrow> nat \<Rightarrow> bytes" where
  "fips_rounds ws s 0 = s"
| "fips_rounds ws s (Suc n) =
     xor_bytes (fips_mix_columns (fips_shift_rows (map fips_sbox (fips_rounds ws s n)))) (fips_round_key ws (Suc n))"

definition fips_cipher :: "nat \<Rightarrow> bytes list \<Rightarrow> bytes \<Rightarrow> bytes" where
  "fips_cipher nr ws b =
     xor_bytes (fips_shift_rows (map fips_sbox (fips_rounds ws (xor_bytes b (fips_round_key ws 0)) (nr - 1))))
       (fips_round_key ws nr)"

definition fips_next_word :: "nat \<Rightarrow> bytes list \<Rightarrow> nat \<Rightarrow> bytes" where
  "fips_next_word nk ws i =
     (let temp = ws ! (i - 1);
          temp = (if i mod nk = 0 then xor_bytes (map fips_sbox (tl temp @ [hd temp])) [(xt ^^ (i div nk - 1)) 1, 0, 0, 0]
                  else if 6 < nk \<and> i mod nk = 4 then map fips_sbox temp else temp)
      in xor_bytes (ws ! (i - nk)) temp)"

definition fips_key_expansion :: "bytes \<Rightarrow> nat \<Rightarrow> nat \<Rightarrow> bytes list" where
  "fips_key_expansion key nk nr =
     fold (\<lambda>i ws. ws @ [fips_next_word nk ws i]) [nk..<4 * (nr + 1)]
       (map (\<lambda>i. map (\<lambda>j. key ! (4 * i + j)) [0..<4]) [0..<nk])"

definition fips_aes :: "bytes \<Rightarrow> nat \<Rightarrow> bytes \<Rightarrow> bytes" where
  "fips_aes key keybits b =
     (let nk = keybits div 32; nr = nk + 6 in fips_cipher nr (fips_key_expansion key nk nr) b)"

subsection \<open>The code implements FIPS 197\<close>

text \<open>A word of the code is a column of 4 bytes, a state of 4 words the 16 bytes of a block.\<close>

definition aes_bytes :: "u32 list \<Rightarrow> bytes" where
  "aes_bytes st = concat (map AES_PUT_LE32 st)"

lemma put_u32_le: "AES_PUT_LE32 (AES_U32_LE a b c d) = [a, b, c, d]"
  by (simp add: AES_PUT_LE32_def)

lemma put_xor: "AES_PUT_LE32 (v XOR w) = xor_bytes (AES_PUT_LE32 v) (AES_PUT_LE32 w)"
  by (simp add: AES_PUT_LE32_def xor_bytes_def)

lemma gf256_two_three: "gf256_mul 2 a = xt a" "gf256_mul 3 a = xt a XOR a"
proof -
  show "gf256_mul 2 a = xt a" by (simp add: gf256_mul_comm [of 2] gf256_mul_powers)
  then show "gf256_mul 3 a = xt a XOR a"
    using gf256_mul_xor(1) [of 2 1 a] by (simp add: gf256_one_left)
qed

lemma put_mix: "AES_PUT_LE32 (mix w) = fips_mix_column (AES_PUT_LE32 w)"
  by (simp add: mix_def fips_mix_column_def put_u32_le Let_def) (simp add: AES_PUT_LE32_def gf256_two_three xor_ac_word)

lemma length_4: "length st = 4 \<longleftrightarrow> (\<exists>a b c d. st = [a, b, c, d])"
  by (auto simp: numeral_eq_Suc length_Suc_conv)

lemma upt_0_4: "[0..<4] = [0, 1, 2, 3 :: nat]" by (simp add: upt_rec)

lemma upt_0_16: "[0..<16] = [0, 1, 2, 3, 4, 5, 6, 7, 8, 9, 10, 11, 12, 13, 14, 15 :: nat]" by (simp add: upt_rec)

lemma aes_bytes_sub_shift:
  assumes "length st = 4"
  shows "aes_bytes (sub_shift st) = fips_shift_rows (map fips_sbox (aes_bytes st))"
  using assms
  by (auto simp: length_4 aes_bytes_def sub_shift_def fips_shift_rows_def upt_0_4 upt_0_16 forward_sbox_fips put_u32_le)
     (simp_all add: AES_PUT_LE32_def)

lemma aes_bytes_mix:
  assumes "length st = 4"
  shows "aes_bytes (map mix st) = fips_mix_columns (aes_bytes st)"
  using assms
  by (auto simp: length_4 aes_bytes_def fips_mix_columns_def upt_0_4 put_mix) (simp add: AES_PUT_LE32_def)

lemma aes_bytes_xor4:
  "aes_bytes (map (\<lambda>c. f c XOR g c) [0..<4]) = xor_bytes (aes_bytes (map g [0..<4])) (aes_bytes (map f [0..<4]))"
  by (simp add: aes_bytes_def upt_0_4 put_xor) (simp add: AES_PUT_LE32_def xor_bytes_def xor.commute)

definition schedule_repr :: "nat \<Rightarrow> u32 list \<Rightarrow> bytes list \<Rightarrow> bool" where
  "schedule_repr n rk ws \<longleftrightarrow> length ws = n \<and> n \<le> length rk \<and> (\<forall>i < n. AES_PUT_LE32 (rk ! i) = ws ! i)"

lemma round_key_repr:
  "schedule_repr n rk ws \<Longrightarrow> 4 * r + 4 \<le> n \<Longrightarrow> aes_bytes (map (\<lambda>c. rk ! (4 * r + c)) [0..<4]) = fips_round_key ws r"
  by (simp add: schedule_repr_def aes_bytes_def fips_round_key_def upt_0_4)

lemma map_nth_4: "length st = 4 \<Longrightarrow> map (\<lambda>c. f (st ! c)) [0..<4] = map f st"
  by (auto simp: length_4 upt_0_4)

lemma forward_round_repr:
  assumes "schedule_repr n rk ws" "4 * r + 4 \<le> n" "length st = 4"
  shows "aes_bytes (aes_forward_round rk (4 * r) st) =
      xor_bytes (fips_mix_columns (fips_shift_rows (map fips_sbox (aes_bytes st)))) (fips_round_key ws r)"
    and "aes_bytes (aes_forward_final rk (4 * r) st) =
      xor_bytes (fips_shift_rows (map fips_sbox (aes_bytes st))) (fips_round_key ws r)"
  unfolding aes_rounds_eq aes_bytes_xor4 round_key_repr [OF assms(1,2)]
  using assms(3) map_nth_4 [of "sub_shift st" mix] map_nth_4 [of "sub_shift st" "\<lambda>x. x"]
  by (simp_all add: aes_bytes_mix aes_bytes_sub_shift del: upt_rec_numeral)

lemma enc_state_repr:
  assumes "schedule_repr n rk ws" "length st = 4"
  shows "4 * m + 4 \<le> n \<Longrightarrow> aes_bytes (enc_state rk st m) = fips_rounds ws (aes_bytes st) m"
proof (induction m)
  case (Suc m)
  with forward_round_repr(1) [OF assms(1) _ length_enc_state [OF assms(2)], of "Suc m" rk m] show ?case
    by simp
qed simp

lemma aes_bytes_load:
  assumes "length b = 16"
  shows "aes_bytes (map (\<lambda>c. AES_GET_LE32 b (c * 4)) [0..<4]) = b"
  using put_get_block [OF assms] by (simp add: aes_bytes_def comp_def)

lemma math_aes_encrypt_fips:
  assumes "schedule_repr (4 * (number_of_rounds ctx + 1)) (rk_buf ctx) ws" "0 < number_of_rounds ctx" "length b = 16"
  shows "math_aes_encrypt ctx b = (0, fips_cipher (number_of_rounds ctx) ws b)"
proof -
  define st where "st = map (\<lambda>c. AES_GET_LE32 b (c * 4) XOR rk_buf ctx ! c) [0..<4]"
  obtain m where m: "number_of_rounds ctx = Suc m" using assms(2) gr0_implies_Suc by blast
  have st: "length st = 4" by (simp add: st_def)
  have init: "aes_bytes st = xor_bytes b (fips_round_key ws 0)"
  proof -
    have "st = map (\<lambda>c. rk_buf ctx ! (4 * 0 + c) XOR AES_GET_LE32 b (c * 4)) [0..<4]"
      by (simp add: st_def xor.commute del: upt_rec_numeral)
    then show ?thesis
      using round_key_repr [OF assms(1), of 0] aes_bytes_load [OF assms(3)]
      by (simp only: aes_bytes_xor4) simp
  qed
  have "snd (math_aes_encrypt ctx b) = aes_bytes (aes_forward_final (rk_buf ctx) (4 * Suc m) (enc_state (rk_buf ctx) st m))"
    by (simp only: math_aes_encrypt_def Let_def m st_def [symmetric] fold_enc_state prod.case snd_conv aes_bytes_def)
  also have "\<dots> = fips_cipher (number_of_rounds ctx) ws b"
    using forward_round_repr(2) [OF assms(1) _ length_enc_state [OF st], of "Suc m" "rk_buf ctx" m]
      enc_state_repr [OF assms(1) st, of m]
    by (simp add: m fips_cipher_def init)
  finally show ?thesis by (simp add: prod_eq_iff)
qed

lemma put_subword:
  "AES_PUT_LE32 (AES_SUBWORD x) = map fips_sbox (AES_PUT_LE32 x)"
  "AES_PUT_LE32 (AES_SUBWORD_ROT x) = map fips_sbox (tl (AES_PUT_LE32 x) @ [hd (AES_PUT_LE32 x)])"
  by (simp_all add: AES_SUBWORD_def AES_SUBWORD_ROT_def put_u32_le forward_sbox_fips) (simp_all add: AES_PUT_LE32_def)

lemma rcon_bytes:
  "map AES_PUT_LE32 RCON = map (\<lambda>r. [r, 0, 0, 0]) [1, 2, 4, 8, 16, 32, 64, 128, 27, 54]"
  by (simp add: RCON_def AES_PUT_LE32_def aes_byte_defs)

lemma xt_powers:
  "xt 1 = 2" "xt 2 = 4" "xt 4 = 8" "xt 8 = 16" "xt 16 = 32" "xt 32 = 64" "xt 64 = 128" "xt 128 = 27" "xt 27 = 54"
  by (simp_all add: xt_eval)

lemma rcon_fips:
  assumes "j < 10"
  shows "AES_PUT_LE32 (RCON ! j) = [(xt ^^ j) 1, 0, 0, 0]"
proof -
  have "length RCON = 10" by (simp add: RCON_def)
  with assms have "AES_PUT_LE32 (RCON ! j) = map AES_PUT_LE32 RCON ! j" by (simp only: nth_map)
  moreover have "j = 0 \<or> j = Suc 0 \<or> j = Suc (Suc 0) \<or> j = Suc (Suc (Suc 0)) \<or> j = Suc (Suc (Suc (Suc 0))) \<or>
      j = Suc (Suc (Suc (Suc (Suc 0)))) \<or> j = Suc (Suc (Suc (Suc (Suc (Suc 0))))) \<or>
      j = Suc (Suc (Suc (Suc (Suc (Suc (Suc 0)))))) \<or> j = Suc (Suc (Suc (Suc (Suc (Suc (Suc (Suc 0))))))) \<or>
      j = Suc (Suc (Suc (Suc (Suc (Suc (Suc (Suc (Suc 0))))))))"
    using assms by (simp add: less_Suc_eq numeral_eq_Suc)
  ultimately show ?thesis
    unfolding rcon_bytes by (elim disjE) (simp_all add: xt_powers)
qed

lemma expand_word_repr:
  assumes "schedule_repr i rk ws" "nk \<in> {4, 6, 8}" "nk \<le> i" "i div nk \<le> 10"
  shows "AES_PUT_LE32 (aes_expand_word nk rk i) = fips_next_word nk ws i"
proof -
  have pos: "0 < nk" "1 \<le> i div nk" using assms(2,3) by (auto simp: div_greater_zero_iff Suc_le_eq)
  then have w: "AES_PUT_LE32 (rk ! (i - 1)) = ws ! (i - 1)" "AES_PUT_LE32 (rk ! (i - nk)) = ws ! (i - nk)"
    using assms(1,3) by (auto simp: schedule_repr_def)
  have "AES_PUT_LE32 (RCON ! (i div nk - 1)) = [(xt ^^ (i div nk - 1)) 1, 0, 0, 0]"
    using pos(2) assms(4) by (intro rcon_fips) linarith
  with w assms(2) show ?thesis
    by (auto simp: aes_expand_word_def fips_next_word_def Let_def put_xor put_subword)
qed

lemma expand_repr:
  "schedule_repr m rk ws \<Longrightarrow> nk \<in> {4, 6, 8} \<Longrightarrow> nk \<le> m \<Longrightarrow> m + k \<le> length rk \<Longrightarrow> m + k \<le> 11 * nk \<Longrightarrow>
   schedule_repr (m + k) (fold (\<lambda>i rk. rk[i := aes_expand_word nk rk i]) [m..<m + k] rk)
     (fold (\<lambda>i ws. ws @ [fips_next_word nk ws i]) [m..<m + k] ws)"
proof (induction k)
  case (Suc k)
  let ?rk = "fold (\<lambda>i rk. rk[i := aes_expand_word nk rk i]) [m..<m + k] rk"
  let ?ws = "fold (\<lambda>i ws. ws @ [fips_next_word nk ws i]) [m..<m + k] ws"
  have IH: "schedule_repr (m + k) ?rk ?ws" using Suc by simp
  have "(m + k) div nk < 11" using Suc.prems by (auto simp: div_less_iff_less_mult mult.commute)
  then have "AES_PUT_LE32 (aes_expand_word nk ?rk (m + k)) = fips_next_word nk ?ws (m + k)"
    using expand_word_repr [OF IH] Suc.prems by simp
  then show ?case
    using IH Suc.prems by (auto simp: schedule_repr_def nth_append less_Suc_eq nth_list_update)
qed simp

lemma load_repr:
  assumes "nk \<le> length rk"
  shows "schedule_repr nk (fold (\<lambda>i rk. rk[i := AES_GET_LE32 key (i * 4)]) [0..<nk] rk)
      (map (\<lambda>i. map (\<lambda>j. key ! (4 * i + j)) [0..<4]) [0..<nk])"
  using assms nth_fold_update [where d = 0 and f = "\<lambda>i. AES_GET_LE32 key (i * 4)"]
  by (auto simp: schedule_repr_def AES_GET_LE32_def put_u32_le upt_0_4 mult.commute)

lemma setenckey_fips:
  fixes key :: bytes and keybits :: nat and ctx :: math_aes_context
  assumes "keybits \<in> {128, 192, 256}" "length (rk_buf ctx) = 68"
  defines "c \<equiv> snd (math_aes_setenckey ctx key keybits)" and "nk \<equiv> keybits div 32"
  shows "number_of_rounds c = nk + 6" "schedule_repr (4 * (nk + 6 + 1)) (rk_buf c) (fips_key_expansion key nk (nk + 6))"
proof -
  have c: "c = ctx\<lparr>number_of_rounds := nk + 6, rk_buf :=
      fold (\<lambda>i rk. rk[i := aes_expand_word nk rk i]) [nk..<4 * (nk + 6 + 1)]
        (fold (\<lambda>i rk. rk[i := AES_GET_LE32 key (i * 4)]) [0..<nk] (rk_buf ctx))\<rparr>"
    using assms(1) by (auto simp: c_def nk_def math_aes_setenckey_def Let_def simp del: upt_rec_numeral)
  have nk: "nk \<in> {4, 6, 8}" using assms(1) by (auto simp: nk_def)
  then have n: "nk + (3 * nk + 28) = 4 * (nk + 6 + 1)" "4 * (nk + 6 + 1) \<le> 68" "4 * (nk + 6 + 1) \<le> 11 * nk" by auto
  have load: "schedule_repr nk (fold (\<lambda>i rk. rk[i := AES_GET_LE32 key (i * 4)]) [0..<nk] (rk_buf ctx))
      (map (\<lambda>i. map (\<lambda>j. key ! (4 * i + j)) [0..<4]) [0..<nk])"
    using nk assms(2) by (intro load_repr) auto
  show "number_of_rounds c = nk + 6" by (simp add: c)
  show "schedule_repr (4 * (nk + 6 + 1)) (rk_buf c) (fips_key_expansion key nk (nk + 6))"
    using expand_repr [OF load nk order_refl, of "3 * nk + 28"] n assms(2)
    by (simp add: c fips_key_expansion_def length_fold_update)
qed

lemma aes_of_key_fips:
  assumes "keybits \<in> {128, 192, 256}" "length b = 16"
  shows "aes_of_key key keybits b = fips_aes key keybits b"
proof -
  have len: "length (rk_buf math_aes_init) = 68" by (simp add: math_aes_init_def)
  note s = setenckey_fips [OF assms(1) len, of key]
  show ?thesis
    using math_aes_encrypt_fips [OF _ _ assms(2), of "snd (math_aes_setenckey math_aes_init key keybits)"] s
    by (simp add: aes_of_key_def fips_aes_def Let_def)
qed

text \<open>
  C15. For every AES key of 128, 192 or 256 bits and every block, whatever an earlier key left in the
  context, \<open>math_aes_encrypt\<close> after \<open>math_aes_setenckey\<close> returns 0 and computes the cipher of FIPS 197:
  the table lookups on words are SubBytes (inversion in GF(2^8) and the affine map), ShiftRows and
  MixColumns on bytes, and the round keys are those of the key expansion of the standard.
\<close>

theorem aes_conforms:
  assumes "keybits \<in> {128, 192, 256}" "length (rk_buf ctx) = 68" "length b = 16"
  shows "fst (math_aes_setenckey ctx key keybits) = 0 \<and>
    math_aes_encrypt (snd (math_aes_setenckey ctx key keybits)) b = (0, fips_aes key keybits b)"
proof -
  note s = setenckey_fips [OF assms(1,2), of key]
  have "fst (math_aes_setenckey ctx key keybits) = 0" using setenckey_ok(1) assms(1) by auto
  with math_aes_encrypt_fips [OF _ _ assms(3), of "snd (math_aes_setenckey ctx key keybits)"] s show ?thesis
    by (simp add: fips_aes_def Let_def)
qed

theorem aes_conforms_witness:
  "fst (math_aes_setenckey math_aes_init (replicate 32 1) 256) = 0 \<and>
   math_aes_encrypt (snd (math_aes_setenckey math_aes_init (replicate 32 1) 256)) (replicate 16 2) =
     (0, fips_aes (replicate 32 1) 256 (replicate 16 2))"
  by (rule aes_conforms) (simp_all add: math_aes_init_def)

end
