(* ===== verification/Cmac.thy ===== *)
theory Cmac
  imports Aes
begin

text \<open>
  \<open>math/cmac.c\<close>: AES-CMAC. The context keeps the CBC state and the bytes that are not processed
  yet; a complete final block stays unprocessed until \<open>cmac_finish\<close>, which needs to know that it
  is the last one. Erasure of local variables (\<open>cmac_zeroize\<close>) has no effect on a result and is left
  out. Streaming is by \<open>cmac_update\<close>; the public entry is \<open>math_cmac_aes\<close>.
\<close>

subsection \<open>Blocks\<close>

definition cmac_xor_block :: "bytes \<Rightarrow> bytes \<Rightarrow> bytes" where
  "cmac_xor_block a b = map (\<lambda>i. a ! i XOR b ! i) [0..<16]"

definition cmac_left_shift_one_bit :: "bytes \<Rightarrow> bytes" where
  "cmac_left_shift_one_bit inp =
     fst (fold (\<lambda>i (out, overflow).
                  (out[i := push_bit 1 (inp ! i) OR overflow],
                   if inp ! i AND 0x80 \<noteq> 0 then 1 else 0))
               (rev [0..<16]) (replicate 16 0, 0))"

definition CMAC_RB :: u8 where "CMAC_RB = 0x87"

subsection \<open>Context\<close>

record math_cmac_context =
  cmac_aes_ctx :: math_aes_context
  cmac_state :: bytes
  unprocessed_block :: bytes
  unprocessed_len :: nat

definition math_cmac_init :: math_cmac_context where
  "math_cmac_init =
     \<lparr>cmac_aes_ctx = math_aes_init, cmac_state = replicate 16 0,
      unprocessed_block = replicate 16 0, unprocessed_len = 0\<rparr>"

definition math_cmac_free :: "math_cmac_context \<Rightarrow> math_cmac_context" where
  "math_cmac_free ctx =
     \<lparr>cmac_aes_ctx = math_aes_free (cmac_aes_ctx ctx), cmac_state = replicate 16 0,
      unprocessed_block = replicate 16 0, unprocessed_len = 0\<rparr>"

subsection \<open>Subkeys\<close>

text \<open>The result of \<open>math_aes_encrypt\<close> is ignored in the source; the local copies are erased there.\<close>

definition cmac_generate_subkeys :: "math_cmac_context \<Rightarrow> bytes \<times> bytes" where
  "cmac_generate_subkeys ctx =
     (let l = snd (math_aes_encrypt (cmac_aes_ctx ctx) (replicate 16 0));
          k1 = cmac_left_shift_one_bit l;
          k1 = (if l ! 0 AND 0x80 \<noteq> 0 then k1[15 := k1 ! 15 XOR CMAC_RB] else k1);
          k2 = cmac_left_shift_one_bit k1;
          k2 = (if k1 ! 0 AND 0x80 \<noteq> 0 then k2[15 := k2 ! 15 XOR CMAC_RB] else k2)
      in (k1, k2))"

subsection \<open>Message processing\<close>

definition cmac_starts ::
  "math_cmac_context \<Rightarrow> bytes \<Rightarrow> nat \<Rightarrow> int \<times> math_cmac_context" where
  "cmac_starts ctx key keybits =
     (if keybits \<noteq> 128 \<and> keybits \<noteq> 192 \<and> keybits \<noteq> 256 then (-1, ctx)
      else
        let ctx = ctx\<lparr>cmac_state := replicate 16 0, unprocessed_block := replicate 16 0,
                      unprocessed_len := 0\<rparr>;
            (ret, aes) = math_aes_setenckey (cmac_aes_ctx ctx) key keybits
        in (ret, ctx\<lparr>cmac_aes_ctx := aes\<rparr>))"

text \<open>The loop over the blocks that are not the last one; the third component is the remaining input.\<close>

function cmac_update_loop ::
  "math_cmac_context \<Rightarrow> bytes \<Rightarrow> int \<times> math_cmac_context \<times> bytes" where
  "cmac_update_loop ctx input =
     (if 16 < length input then
        let (ret, out) = math_aes_encrypt (cmac_aes_ctx ctx) (cmac_xor_block (cmac_state ctx) input);
            ctx = ctx\<lparr>cmac_state := out\<rparr>
        in if ret \<noteq> 0 then (ret, ctx, input)
           else cmac_update_loop ctx (drop 16 input)
      else (0, ctx, input))"
  by pat_completeness auto
termination by (relation "measure (\<lambda>(ctx, input). length input)") auto

declare cmac_update_loop.simps [simp del]

definition cmac_update_tail :: "math_cmac_context \<Rightarrow> bytes \<Rightarrow> int \<times> math_cmac_context" where
  "cmac_update_tail ctx input =
     (let (ret, ctx, input) = cmac_update_loop ctx input in
      if ret \<noteq> 0 then (ret, ctx)
      else if 0 < length input
      then (0, ctx\<lparr>unprocessed_block := arr_put (unprocessed_block ctx) input,
                   unprocessed_len := length input\<rparr>)
      else (0, ctx))"

definition cmac_update :: "math_cmac_context \<Rightarrow> bytes \<Rightarrow> int \<times> math_cmac_context" where
  "cmac_update ctx input =
     (if length input = 0 then (0, ctx)
      else if 0 < unprocessed_len ctx then
        let len = unprocessed_len ctx;
            use_len = (if 16 - len > length input then length input else 16 - len);
            ctx = ctx\<lparr>unprocessed_block :=
                        take len (unprocessed_block ctx) @ take use_len input @
                        drop (len + use_len) (unprocessed_block ctx),
                      unprocessed_len := len + use_len\<rparr>;
            input = drop use_len input
        in if unprocessed_len ctx < 16 then (0, ctx)
           else if length input = 0 then (0, ctx)
           else
             let (ret, out) = math_aes_encrypt (cmac_aes_ctx ctx)
                                (cmac_xor_block (cmac_state ctx) (unprocessed_block ctx));
                 ctx = ctx\<lparr>cmac_state := out\<rparr>
             in if ret \<noteq> 0 then (ret, ctx)
                else cmac_update_tail
                       (ctx\<lparr>unprocessed_len := 0, unprocessed_block := replicate 16 0\<rparr>) input
      else cmac_update_tail ctx input)"

definition cmac_finish :: "math_cmac_context \<Rightarrow> int \<times> bytes" where
  "cmac_finish ctx =
     (let (k1, k2) = cmac_generate_subkeys ctx;
          last_block =
            (if unprocessed_len ctx = 16 then cmac_xor_block (unprocessed_block ctx) k1
             else
               let b = (if 0 < unprocessed_len ctx
                        then arr_put (replicate 16 0) (take (unprocessed_len ctx) (unprocessed_block ctx))
                        else replicate 16 0);
                   b = b[unprocessed_len ctx := 0x80]
               in cmac_xor_block b k2)
      in math_aes_encrypt (cmac_aes_ctx ctx) (cmac_xor_block (cmac_state ctx) last_block))"

text \<open>\<open>math_cmac_aes\<close> writes \<open>out\<close> only when every step succeeds.\<close>

definition math_cmac_aes ::
  "math_cmac_context \<Rightarrow> bytes \<Rightarrow> nat \<Rightarrow> bytes \<Rightarrow> bytes \<Rightarrow> int \<times> math_cmac_context \<times> bytes" where
  "math_cmac_aes ctx key keybits input out =
     (let (ret, ctx) = cmac_starts ctx key keybits in
      if ret \<noteq> 0 then (ret, ctx, out)
      else
        let (ret, ctx) = cmac_update ctx input in
        if ret \<noteq> 0 then (ret, ctx, out)
        else
          let (ret, mac) = cmac_finish ctx in (ret, ctx, mac))"

end
