(* ===== verification/CmacSpec.thy ===== *)
theory CmacSpec
  imports AesKeyed Cmac
begin

text \<open>
  AES-CMAC as NIST SP 800-38B and RFC 4493 state it (\<open>cmac_spec\<close>), and the proof that
  \<open>math/cmac.c\<close> computes it. \<open>dbl_bytes\<close>: the byte-wise shift and the conditional exclusive or
  are doubling in GF(2^128). \<open>cmac_repr ctx m\<close> is the abstraction relation of the context after
  the message \<open>m\<close>; \<open>cmac_starts\<close> establishes it, \<open>cmac_update\<close> extends it and \<open>cmac_finish\<close>
  reads the tag off it.
\<close>

subsection \<open>The specification\<close>

text \<open>Doubling in GF(2^128), the subkeys, and CBC over the complete blocks of a message.\<close>

definition cmac_dbl :: "u128 \<Rightarrow> u128" where
  "cmac_dbl v = push_bit 1 v XOR (if bit v 127 then 0x87 else 0)"

definition cmac_k1 :: "(bytes \<Rightarrow> bytes) \<Rightarrow> bytes" where
  "cmac_k1 E = u128_bytes (cmac_dbl (block128 (E (replicate 16 0))))"

definition cmac_k2 :: "(bytes \<Rightarrow> bytes) \<Rightarrow> bytes" where
  "cmac_k2 E = u128_bytes (cmac_dbl (cmac_dbl (block128 (E (replicate 16 0)))))"

definition cbc :: "(bytes \<Rightarrow> bytes) \<Rightarrow> bytes \<Rightarrow> bytes" where
  "cbc E m = fold (\<lambda>b c. E (xor_bytes c b)) (chunks16 m) (replicate 16 0)"

text \<open>The bytes before the last block; the last block is empty only when the message is.\<close>

definition cmac_body :: "bytes \<Rightarrow> nat" where
  "cmac_body m = (length m - 1) div 16 * 16"

definition cmac_last :: "(bytes \<Rightarrow> bytes) \<Rightarrow> bytes \<Rightarrow> bytes" where
  "cmac_last E r =
     (if length r = 16 then xor_bytes r (cmac_k1 E)
      else xor_bytes (r @ [0x80] @ replicate (15 - length r) 0) (cmac_k2 E))"

definition cmac_spec :: "(bytes \<Rightarrow> bytes) \<Rightarrow> bytes \<Rightarrow> bytes" where
  "cmac_spec E m =
     E (xor_bytes (cbc E (take (cmac_body m) m)) (cmac_last E (drop (cmac_body m) m)))"

subsection \<open>Subkeys\<close>

lemma cmac_xor_block_eq: "length a = 16 \<Longrightarrow> 16 \<le> length b \<Longrightarrow> cmac_xor_block a b = xor_bytes a (take 16 b)"
  by (rule nth_equalityI) (simp_all add: cmac_xor_block_def nth_xor_bytes)

lemma length_cmac_xor_block [simp]: "length (cmac_xor_block a b) = 16"
  by (simp add: cmac_xor_block_def)
lemma and_0x80 [simp]: "(x :: u8) AND 0x80 = 0 \<longleftrightarrow> \<not> bit x 7"
proof -
  have "(0x80 :: u8) = push_bit 7 1" by simp
  then show ?thesis
    by (metis and.commute and_exp_eq_0_iff_not_bit push_bit_of_1)
qed

lemma less_16_cases: "i < 16 \<longleftrightarrow> i \<in> {0, 1, 2, 3, 4, 5, 6, 7, 8, 9, 10, 11, 12, 13, 14, 15 :: nat}"
  by (simp only: insert_iff empty_iff) presburger

lemma nth_u128_bytes: "i < 16 \<Longrightarrow> u128_bytes w ! i = ucast (drop_bit (8 * (15 - i)) w)"
  unfolding less_16_cases
  by (elim insertE emptyE)
     (auto simp: u128_bytes_def macsec_wr_be64_def bit_simps intro!: bit_word_eqI)

lemma u128_bytes_block128: "length b = 16 \<Longrightarrow> u128_bytes (block128 b) = b"
  by (auto simp: length_Suc_conv eval_nat_numeral block128_def u128_bytes_w128 gcm_get_be64 wr_rd_be64)

lemma cmac_left_shift_nth:
  "i < 16 \<Longrightarrow> cmac_left_shift_one_bit l ! i =
     push_bit 1 (l ! i) OR (if i < 15 \<and> bit (l ! (i + 1)) 7 then 1 else 0)"
  unfolding less_16_cases
  by (elim insertE emptyE)
     (simp_all add: cmac_left_shift_one_bit_def numeral_eq_Suc)


lemma shift_byte:
  fixes w :: u128
  assumes "j < 16"
  shows "push_bit 1 (ucast (drop_bit (8 * j) w) :: u8) OR
           (if 0 < j \<and> bit (ucast (drop_bit (8 * (j - 1)) w) :: u8) 7 then 1 else 0) =
         ucast (drop_bit (8 * j) (push_bit 1 w))"
proof (rule bit_word_eqI)
  fix n assume "n < LENGTH(8)"
  with assms show "bit (push_bit 1 (ucast (drop_bit (8 * j) w) :: u8) OR
           (if 0 < j \<and> bit (ucast (drop_bit (8 * (j - 1)) w) :: u8) 7 then 1 else 0)) n =
         bit (ucast (drop_bit (8 * j) (push_bit 1 w)) :: u8) n"
    by (cases n; cases j) (auto simp: bit_simps ac_simps simp del: push_bit_Suc)
qed

lemma rb_byte: "j < 16 \<Longrightarrow> (ucast (drop_bit (8 * j) (0x87 :: u128)) :: u8) = (if j = 0 then 0x87 else 0)"
proof -
  have "drop_bit (8 * Suc k) (0x87 :: u128) = drop_bit (8 * k) (drop_bit 8 0x87)" for k
    by (simp only: drop_bit_drop_bit mult_Suc_right add.commute)
  then show ?thesis by (cases j) simp_all
qed

lemma ucast_drop_xor: "(ucast (drop_bit k (v XOR w)) :: u8) = ucast (drop_bit k v) XOR ucast (drop_bit k w)"
  by (rule bit_word_eqI) (auto simp: bit_simps)

lemma dbl_bytes:
  assumes l: "length l = 16"
  defines "k \<equiv> cmac_left_shift_one_bit l"
  shows "(if l ! 0 AND 0x80 \<noteq> 0 then k[15 := k ! 15 XOR CMAC_RB] else k) = u128_bytes (cmac_dbl (block128 l))"
    (is "?k = _")
proof (rule nth_equalityI)
  define w where "w = block128 l"
  have lw: "l ! i = ucast (drop_bit (8 * (15 - i)) w)" if "i < 16" for i
    using nth_u128_bytes [OF that, of w] by (simp add: w_def u128_bytes_block128 l)
  have top: "l ! 0 AND 0x80 \<noteq> 0 \<longleftrightarrow> bit w 127"
    using lw [of 0] by (simp add: bit_simps)
  have lk: "length k = 16" by (simp add: k_def cmac_left_shift_one_bit_def numeral_eq_Suc)
  then show "length ?k = length (u128_bytes (cmac_dbl (block128 l)))" by simp
  fix i assume "i < length ?k"
  then have i: "i < 16" using lk by (simp split: if_splits)
  define j where "j = 15 - i"
  have j: "j < 16" "i = 15 - j" "15 - i = j" "i < 15 \<longleftrightarrow> 0 < j" "i = 15 \<longleftrightarrow> j = 0"
    "i < 15 \<Longrightarrow> 15 - (i + 1) = j - 1"
    using i by (auto simp: j_def)
  have "k ! i = push_bit 1 (ucast (drop_bit (8 * j) w)) OR
           (if 0 < j \<and> bit (ucast (drop_bit (8 * (j - 1)) w) :: u8) 7 then 1 else 0)"
    unfolding k_def cmac_left_shift_nth [OF i] lw [OF i] j(3)
    using j(4,6) lw [of "i + 1"] i by (auto simp del: One_nat_def push_bit_Suc)
  also have "\<dots> = ucast (drop_bit (8 * j) (push_bit 1 w))" by (rule shift_byte [OF j(1)])
  finally have ki: "k ! i = \<dots>" .
  have "u128_bytes (cmac_dbl w) ! i = k ! i XOR (if bit w 127 \<and> j = 0 then 0x87 else 0)"
    unfolding nth_u128_bytes [OF i] j(3) cmac_dbl_def ki ucast_drop_xor
    using rb_byte [OF j(1)] by (auto simp del: One_nat_def push_bit_Suc)
  with top j(5) lk show "?k ! i = u128_bytes (cmac_dbl (block128 l)) ! i"
    by (cases "i = 15") (simp_all add: w_def CMAC_RB_def)
qed

lemma block128_u128_bytes [simp]: "block128 (u128_bytes w) = w"
proof -
  have "block128 (u128_bytes w) = w128 (ucast (drop_bit 64 w), ucast w)"
    by (simp add: block128_def u128_bytes_def gcm_get_be64)
  also have "\<dots> = w" by (rule bit_word_eqI) (auto simp: bit_w128 bit_simps)
  finally show ?thesis .
qed

definition cmac_cipher :: "math_cmac_context \<Rightarrow> bytes \<Rightarrow> bytes" where
  "cmac_cipher ctx b = snd (math_aes_encrypt (cmac_aes_ctx ctx) b)"

lemma length_cmac_cipher [simp]: "length (cmac_cipher ctx b) = 16"
  by (simp add: cmac_cipher_def)

lemma math_aes_encrypt_cipher: "math_aes_encrypt (cmac_aes_ctx ctx) b = (0, cmac_cipher ctx b)"
  by (simp add: cmac_cipher_def prod_eq_iff)

lemma cmac_cipher_update [simp]:
  "cmac_cipher (ctx\<lparr>cmac_state := s\<rparr>) = cmac_cipher ctx"
  "cmac_cipher (ctx\<lparr>unprocessed_block := u\<rparr>) = cmac_cipher ctx"
  "cmac_cipher (ctx\<lparr>unprocessed_len := l\<rparr>) = cmac_cipher ctx"
  by (simp_all add: cmac_cipher_def fun_eq_iff)

lemma cmac_generate_subkeys_eq:
  "cmac_generate_subkeys ctx = (cmac_k1 (cmac_cipher ctx), cmac_k2 (cmac_cipher ctx))"
  using dbl_bytes [of "cmac_cipher ctx (replicate 16 0)"] dbl_bytes [of "cmac_k1 (cmac_cipher ctx)"]
  by (simp add: cmac_generate_subkeys_def Let_def math_aes_encrypt_cipher cmac_k1_def cmac_k2_def
      del: and_0x80 cong: if_cong)

subsection \<open>Streaming\<close>

definition cbc_from :: "(bytes \<Rightarrow> bytes) \<Rightarrow> bytes \<Rightarrow> bytes \<Rightarrow> bytes" where
  "cbc_from E c m = fold (\<lambda>b c. E (xor_bytes c b)) (chunks16 m) c"

lemma cbc_from_Nil [simp]: "cbc_from E c [] = c"
  by (simp add: cbc_from_def)

lemma cbc_from_append: "length a mod 16 = 0 \<Longrightarrow> cbc_from E c (a @ b) = cbc_from E (cbc_from E c a) b"
  by (simp add: cbc_from_def chunks16_append)

lemma cbc_from_block: "length b = 16 \<Longrightarrow> cbc_from E c b = E (xor_bytes c b)"
  using chunks16_short [of b] by (cases "b = []") (auto simp: cbc_from_def)

lemma cbc_eq: "cbc E m = cbc_from E (replicate 16 0) m"
  by (simp add: cbc_def cbc_from_def)

lemma length_cbc_from: "(\<And>b. length (E b) = 16) \<Longrightarrow> length c = 16 \<Longrightarrow> length (cbc_from E c m) = 16"
proof -
  assume E: "\<And>b. length (E b) = 16" and "length c = 16"
  have "length c = 16 \<Longrightarrow> length (fold (\<lambda>b c. E (xor_bytes c b)) bs c) = 16" for bs
    by (induction bs arbitrary: c) (simp_all add: E)
  with \<open>length c = 16\<close> show ?thesis by (simp add: cbc_from_def)
qed

lemma cmac_body_le: "cmac_body m \<le> length m"
  by (simp add: cmac_body_def)

lemma cmac_body_mod: "cmac_body m mod 16 = 0"
  by (simp add: cmac_body_def)

lemma cmac_body_append:
  "length m mod 16 = 0 \<Longrightarrow> p \<noteq> [] \<Longrightarrow> cmac_body (m @ p) = length m + cmac_body p"
  by (cases p) (auto simp: cmac_body_def mod_eq_0_iff_dvd elim!: dvdE)

lemma cmac_body_rest: "p \<noteq> [] \<Longrightarrow> 0 < length p - cmac_body p \<and> length p - cmac_body p \<le> 16"
  by (cases p) (auto simp: cmac_body_def)

lemma cmac_body_short: "length p \<le> 16 \<Longrightarrow> cmac_body p = 0"
  by (simp add: cmac_body_def)

lemma cmac_body_long: "16 < length p \<Longrightarrow> cmac_body p = 16 + cmac_body (drop 16 p)"
  using cmac_body_append [of "take 16 p" "drop 16 p"] by simp

lemma cmac_update_loop_eq:
  "length (cmac_state ctx) = 16 \<Longrightarrow>
   cmac_update_loop ctx p =
     (0, ctx\<lparr>cmac_state := cbc_from (cmac_cipher ctx) (cmac_state ctx) (take (cmac_body p) p)\<rparr>,
      drop (cmac_body p) p)"
proof (induction ctx p rule: cmac_update_loop.induct)
  case (1 ctx p)
  show ?case
  proof (cases "16 < length p")
    case True
    define c where "c = cmac_cipher ctx (xor_bytes (cmac_state ctx) (take 16 p))"
    have e: "math_aes_encrypt (cmac_aes_ctx ctx) (cmac_xor_block (cmac_state ctx) p) = (0, c)"
      using True 1(2) by (simp add: math_aes_encrypt_cipher c_def cmac_xor_block_eq)
    have "length c = 16" by (simp add: c_def)
    with 1(1) [OF True e [symmetric] refl] have IH: "cmac_update_loop (ctx\<lparr>cmac_state := c\<rparr>) (drop 16 p) =
        (0, ctx\<lparr>cmac_state := cbc_from (cmac_cipher ctx) c (take (cmac_body (drop 16 p)) (drop 16 p))\<rparr>,
         drop (cmac_body (drop 16 p)) (drop 16 p))" by simp
    have "take (cmac_body p) p = take 16 p @ take (cmac_body (drop 16 p)) (drop 16 p)"
      by (simp only: cmac_body_long [OF True] take_add)
    moreover have "cbc_from (cmac_cipher ctx) (cmac_state ctx) (take 16 p) = c"
      using True by (simp add: cbc_from_block c_def)
    ultimately show ?thesis
      using True IH e
      by (subst cmac_update_loop.simps) (simp add: cbc_from_append cmac_body_long add.commute)
  next
    case False
    then show ?thesis by (simp add: cmac_update_loop.simps cmac_body_short)
  qed
qed

text \<open>
  \<open>cmac_repr ctx m\<close>: the context after the message \<open>m\<close>. The state is the CBC value of everything
  before the last block, and the last block, complete or not, is unprocessed.
\<close>

definition cmac_repr :: "math_cmac_context \<Rightarrow> bytes \<Rightarrow> bool" where
  "cmac_repr ctx m \<longleftrightarrow>
     cmac_state ctx = cbc (cmac_cipher ctx) (take (cmac_body m) m) \<and>
     length (unprocessed_block ctx) = 16 \<and>
     unprocessed_len ctx = length m - cmac_body m \<and>
     take (unprocessed_len ctx) (unprocessed_block ctx) = drop (cmac_body m) m"

lemma cmac_repr_state: "cmac_repr ctx m \<Longrightarrow> length (cmac_state ctx) = 16"
  by (simp add: cmac_repr_def cbc_eq length_cbc_from)

lemma cmac_repr_cases:
  assumes "cmac_repr ctx m"
  obtains (empty) "m = []" "unprocessed_len ctx = 0" "cmac_state ctx = cbc (cmac_cipher ctx) []"
  | (pending) n r where "m = n @ r" "length n mod 16 = 0" "0 < length r" "length r \<le> 16"
      "unprocessed_len ctx = length r" "take (length r) (unprocessed_block ctx) = r"
      "cmac_state ctx = cbc (cmac_cipher ctx) n"
proof (cases "m = []")
  case True
  with assms empty show ?thesis by (simp add: cmac_repr_def cmac_body_def)
next
  case False
  with assms cmac_body_rest [OF False] cmac_body_le [of m] cmac_body_mod [of m]
  show ?thesis
    by (intro pending [of "take (cmac_body m) m" "drop (cmac_body m) m"])
       (auto simp: cmac_repr_def)
qed

lemma cmac_reprI:
  assumes "m = n @ r" "length n mod 16 = 0" "r \<noteq> []" "length r \<le> 16"
    and "cmac_state ctx = cbc (cmac_cipher ctx) n" "length (unprocessed_block ctx) = 16"
    and "unprocessed_len ctx = length r" "take (length r) (unprocessed_block ctx) = r"
  shows "cmac_repr ctx m"
  using assms cmac_body_append [of n r] by (simp add: cmac_repr_def cmac_body_short)

lemma cmac_update_tail_repr:
  assumes st: "cmac_state ctx = cbc (cmac_cipher ctx) n" "length n mod 16 = 0"
    and ub: "length (unprocessed_block ctx) = 16" and p: "p \<noteq> []"
  obtains ctx' where "cmac_update_tail ctx p = (0, ctx')" "cmac_repr ctx' (n @ p)"
    "cmac_aes_ctx ctx' = cmac_aes_ctx ctx"
proof -
  define b r where "b = take (cmac_body p) p" and "r = drop (cmac_body p) p"
  have len: "length (cmac_state ctx) = 16" by (simp add: st cbc_eq length_cbc_from)
  have r: "r \<noteq> []" "length r \<le> 16" "length b mod 16 = 0" "p = b @ r"
    using cmac_body_rest [OF p] cmac_body_le [of p] by (auto simp: r_def b_def cmac_body_mod)
  define ctx' where "ctx' = ctx\<lparr>cmac_state := cbc_from (cmac_cipher ctx) (cmac_state ctx) b,
     unprocessed_block := arr_put (unprocessed_block ctx) r, unprocessed_len := length r\<rparr>"
  have "cmac_update_tail ctx p = (0, ctx')"
    using r(1) by (simp add: cmac_update_tail_def cmac_update_loop_eq [OF len] ctx'_def flip: r_def b_def)
  moreover have "cmac_repr ctx' (n @ p)"
    by (rule cmac_reprI [of _ "n @ b" r])
       (use r st ub in \<open>simp_all add: ctx'_def cbc_eq cbc_from_append mod_add_eq [symmetric, of "length n"]\<close>)
  ultimately show ?thesis by (rule that) (simp add: ctx'_def)
qed

lemma cmac_update_repr:
  assumes repr: "cmac_repr ctx m"
  obtains ctx' where "cmac_update ctx p = (0, ctx')" "cmac_repr ctx' (m @ p)"
    "cmac_aes_ctx ctx' = cmac_aes_ctx ctx"
proof (cases "p = []")
  case True
  with repr show ?thesis by (intro that [of ctx]) (simp_all add: cmac_update_def)
next
  case False
  from repr have ub: "length (unprocessed_block ctx) = 16" by (simp add: cmac_repr_def)
  from repr show ?thesis
  proof (cases rule: cmac_repr_cases)
    case empty
    have "length ([] :: bytes) mod 16 = 0" by simp
    from cmac_update_tail_repr [OF empty(3) this ub False] obtain ctx' where
      "cmac_update_tail ctx p = (0, ctx')" "cmac_repr ctx' ([] @ p)" "cmac_aes_ctx ctx' = cmac_aes_ctx ctx" .
    with empty False show ?thesis
      by (intro that [of ctx']) (simp_all add: cmac_update_def)
  next
    case (pending n r)
    define u where "u = min (16 - length r) (length p)"
    define ctx1 where "ctx1 = ctx\<lparr>unprocessed_block := take (length r) (unprocessed_block ctx) @ take u p @
        drop (length r + u) (unprocessed_block ctx), unprocessed_len := length r + u\<rparr>"
    have use: "(if 16 - length r > length p then length p else 16 - length r) = u" by (simp add: u_def)
    have block: "take (length r + u) (unprocessed_block ctx1) = r @ take u p" "length (unprocessed_block ctx1) = 16"
      using pending(4,6) ub by (auto simp: ctx1_def u_def)
    show ?thesis
    proof (cases "drop u p = []")
      case True
      then have "take u p = p" "length r + u \<le> 16" using pending(4) by (simp_all add: u_def)
      have "cmac_update ctx p = (0, ctx1)"
        using \<open>p \<noteq> []\<close> True pending by (auto simp: cmac_update_def Let_def use ctx1_def)
      moreover from \<open>take u p = p\<close> \<open>length r + u \<le> 16\<close> True block pending have "cmac_repr ctx1 (m @ p)"
        by (intro cmac_reprI [of _ n "r @ p"]) (simp_all add: ctx1_def u_def)
      ultimately show ?thesis by (rule that) (simp add: ctx1_def)
    next
      case False
      then have u: "u = 16 - length r" "length r + u = 16" using pending(4) by (auto simp: u_def)
      have st: "length (cmac_state ctx) = 16" using repr by (rule cmac_repr_state)
      define ctx2 where "ctx2 = ctx1\<lparr>cmac_state := cbc (cmac_cipher ctx) (n @ r @ take u p),
        unprocessed_len := 0, unprocessed_block := replicate 16 0\<rparr>"
      have b: "unprocessed_block ctx1 = r @ take u p" using block u by simp
      have l16: "length (r @ take u p) = 16" using u False by simp
      have c1: "cmac_cipher ctx1 = cmac_cipher ctx" "cmac_state ctx1 = cmac_state ctx"
        by (simp_all add: ctx1_def)
      have enc: "math_aes_encrypt (cmac_aes_ctx ctx1) (cmac_xor_block (cmac_state ctx1) (unprocessed_block ctx1)) =
          (0, cbc (cmac_cipher ctx) (n @ r @ take u p))"
        unfolding b using pending(2,7) st l16 c1
        by (simp add: math_aes_encrypt_cipher cmac_xor_block_eq cbc_eq cbc_from_append cbc_from_block
            flip: u(1))
      have upd: "cmac_update ctx p = cmac_update_tail ctx2 (drop u p)"
        using \<open>p \<noteq> []\<close> False pending(3,5) u enc
        by (simp add: cmac_update_def Let_def use ctx1_def [symmetric] ctx2_def)
           (simp add: ctx1_def u)
      have len: "length (n @ r @ take u p) mod 16 = 0"
        using pending(2) block u by simp
      have "cmac_cipher ctx2 = cmac_cipher ctx" by (simp add: ctx2_def ctx1_def)
      then obtain ctx' where "cmac_update_tail ctx2 (drop u p) = (0, ctx')"
        "cmac_repr ctx' ((n @ r @ take u p) @ drop u p)" "cmac_aes_ctx ctx' = cmac_aes_ctx ctx2"
        using cmac_update_tail_repr [OF _ len, of ctx2 "drop u p"] False by (auto simp: ctx2_def)
      then show ?thesis
        by (intro that [of ctx']) (simp_all add: upd pending(1) ctx2_def ctx1_def)
    qed
  qed
qed

lemma cmac_finish_repr:
  assumes repr: "cmac_repr ctx m"
  shows "cmac_finish ctx = (0, cmac_spec (cmac_cipher ctx) m)"
proof -
  define r where "r = drop (cmac_body m) m"
  define lb where "lb = (if unprocessed_len ctx = 16 then cmac_xor_block (unprocessed_block ctx) (cmac_k1 (cmac_cipher ctx))
             else
               let b = (if 0 < unprocessed_len ctx
                        then arr_put (replicate 16 0) (take (unprocessed_len ctx) (unprocessed_block ctx))
                        else replicate 16 0);
                   b = b[unprocessed_len ctx := 0x80]
               in cmac_xor_block b (cmac_k2 (cmac_cipher ctx)))"
  have ub: "length (unprocessed_block ctx) = 16" "take (unprocessed_len ctx) (unprocessed_block ctx) = r"
    "unprocessed_len ctx = length r" "length r \<le> 16"
    and st: "cmac_state ctx = cbc (cmac_cipher ctx) (take (cmac_body m) m)"
    using repr cmac_body_rest [of m] by (cases "m = []"; force simp: cmac_repr_def r_def)+
  have k: "length (cmac_k1 E) = 16" "length (cmac_k2 E) = 16" for E
    by (simp_all add: cmac_k1_def cmac_k2_def)
  have "lb = cmac_last (cmac_cipher ctx) r"
  proof (cases "length r = 16")
    case True
    with ub show ?thesis by (simp add: lb_def cmac_last_def cmac_xor_block_eq k)
  next
    case False
    have "(if 0 < length r then arr_put (replicate 16 0) r else replicate 16 0) = r @ replicate (16 - length r) 0"
      by (auto simp: arr_put_def)
    moreover have "(r @ replicate (16 - length r) 0)[length r := 0x80] = r @ [0x80] @ replicate (15 - length r) 0"
      using False ub(4) by (cases "16 - length r") (auto simp: list_update_append)
    ultimately show ?thesis
      using False ub by (simp add: lb_def cmac_last_def cmac_xor_block_eq k cong: if_cong)
  qed
  moreover have "length lb = 16" by (simp add: lb_def Let_def)
  ultimately show ?thesis
    using cmac_repr_state [OF repr]
    by (simp add: cmac_finish_def cmac_generate_subkeys_eq math_aes_encrypt_cipher cmac_xor_block_eq
        st r_def cmac_spec_def flip: lb_def)
qed

lemma cmac_starts_repr:
  assumes "keybits \<in> {128, 192, 256}" "length (rk_buf (cmac_aes_ctx ctx)) = 68"
  obtains ctx' where "cmac_starts ctx key keybits = (0, ctx')" "cmac_repr ctx' []"
    "cmac_cipher ctx' = aes_of_key key keybits" "length (rk_buf (cmac_aes_ctx ctx')) = 68"
proof -
  define aes where "aes = snd (math_aes_setenckey (cmac_aes_ctx ctx) key keybits)"
  have e: "math_aes_setenckey (cmac_aes_ctx ctx) key keybits = (0, aes)"
    using math_aes_setenckey_ok [OF assms(1)] by (simp add: aes_def)
  define ctx' where "ctx' = ctx\<lparr>cmac_state := replicate 16 0, unprocessed_block := replicate 16 0,
     unprocessed_len := 0, cmac_aes_ctx := aes\<rparr>"
  show ?thesis
  proof
    show "cmac_starts ctx key keybits = (0, ctx')"
      using assms(1) e by (auto simp: cmac_starts_def ctx'_def Let_def)
    show "cmac_repr ctx' []" by (simp add: cmac_repr_def cmac_body_def ctx'_def cbc_eq)
    show "cmac_cipher ctx' = aes_of_key key keybits"
      using aes_of_key_any [OF assms] by (simp add: fun_eq_iff cmac_cipher_def ctx'_def aes_def)
    show "length (rk_buf (cmac_aes_ctx ctx')) = 68"
      using setenckey_ok(3) [of keybits "cmac_aes_ctx ctx" key] assms by (auto simp: ctx'_def aes_def)
  qed
qed

lemma cmac_cipher_cong: "cmac_aes_ctx c = cmac_aes_ctx d \<Longrightarrow> cmac_cipher c = cmac_cipher d"
  by (simp add: cmac_cipher_def fun_eq_iff)

lemma cmac_aes_spec:
  assumes "keybits \<in> {128, 192, 256}" "length (rk_buf (cmac_aes_ctx ctx)) = 68"
  obtains ctx' where "math_cmac_aes ctx key keybits input out =
      (0, ctx', cmac_spec (aes_of_key key keybits) input)" "length (rk_buf (cmac_aes_ctx ctx')) = 68"
proof -
  from cmac_starts_repr [OF assms] obtain c1 where c1: "cmac_starts ctx key keybits = (0, c1)"
    "cmac_repr c1 []" "cmac_cipher c1 = aes_of_key key keybits" "length (rk_buf (cmac_aes_ctx c1)) = 68" .
  from cmac_update_repr [OF c1(2)] obtain c2 where c2: "cmac_update c1 input = (0, c2)"
    "cmac_repr c2 ([] @ input)" "cmac_aes_ctx c2 = cmac_aes_ctx c1" .
  then have "math_cmac_aes ctx key keybits input out = (0, c2, cmac_spec (aes_of_key key keybits) input)"
    using cmac_finish_repr [OF c2(2)] cmac_cipher_cong [OF c2(3)] c1
    by (simp add: math_cmac_aes_def)
  with that c2(3) c1(4) show ?thesis by simp
qed

lemma cmac_updates_repr:
  "cmac_repr ctx m \<Longrightarrow>
   cmac_repr (fold (\<lambda>p ctx. snd (cmac_update ctx p)) ps ctx) (m @ concat ps) \<and>
   cmac_cipher (fold (\<lambda>p ctx. snd (cmac_update ctx p)) ps ctx) = cmac_cipher ctx"
proof (induction ps arbitrary: ctx m)
  case (Cons p ps)
  from cmac_update_repr [OF Cons.prems, of p] obtain ctx' where "cmac_update ctx p = (0, ctx')"
    "cmac_repr ctx' (m @ p)" "cmac_cipher ctx' = cmac_cipher ctx"
    using cmac_cipher_cong by metis
  with Cons.IH [of ctx' "m @ p"] show ?case by simp
qed simp

text \<open>
  C14. For every AES key of 128, 192 or 256 bits, every message and whatever an earlier call left
  in the context, \<open>math_cmac_aes\<close> returns 0 and computes AES-CMAC of NIST SP 800-38B: the last
  block is combined with the first subkey when it is complete, and padded and combined with the
  second one when it is not, the empty message included.
\<close>

theorem cmac_aes_conforms:
  assumes "keybits \<in> {128, 192, 256}" "length (rk_buf (cmac_aes_ctx ctx)) = 68"
  shows "\<exists>ctx'. math_cmac_aes ctx key keybits input out =
           (0, ctx', cmac_spec (aes_of_key key keybits) input)"
  by (rule cmac_aes_spec [OF assms]) blast

theorem cmac_aes_conforms_witness:
  "\<exists>ctx'. math_cmac_aes math_cmac_init (replicate 16 1) 128 [] [] =
           (0, ctx', cmac_spec (aes_of_key (replicate 16 1) 128) [])"
  by (rule cmac_aes_conforms) (simp_all add: math_cmac_init_def math_aes_init_def)

text \<open>
  C30. However a message is split into calls of \<open>cmac_update\<close>, empty ones included, \<open>cmac_finish\<close>
  gives the AES-CMAC of the concatenation.
\<close>

theorem cmac_streaming:
  assumes "keybits \<in> {128, 192, 256}" "length (rk_buf (cmac_aes_ctx ctx)) = 68"
  shows "cmac_finish (fold (\<lambda>p ctx. snd (cmac_update ctx p)) ps (snd (cmac_starts ctx key keybits))) =
           (0, cmac_spec (aes_of_key key keybits) (concat ps))"
proof -
  from cmac_starts_repr [OF assms] obtain c where c: "cmac_starts ctx key keybits = (0, c)"
    "cmac_repr c []" "cmac_cipher c = aes_of_key key keybits" .
  from cmac_updates_repr [OF c(2), of ps] c(1,3) show ?thesis
    by (simp add: cmac_finish_repr [where m = "concat ps"])
qed

theorem cmac_streaming_witness:
  "cmac_finish (fold (\<lambda>p ctx. snd (cmac_update ctx p)) [[1, 2], [], replicate 20 3]
     (snd (cmac_starts math_cmac_init (replicate 16 1) 128))) =
   (0, cmac_spec (aes_of_key (replicate 16 1) 128) ([1, 2] @ replicate 20 3))"
  using cmac_streaming [of 128 math_cmac_init "[[1, 2], [], replicate 20 3]" "replicate 16 1"]
  by (simp add: math_cmac_init_def math_aes_init_def)

end
