(* ===== verification/MkaCrypto.thy ===== *)
theory MkaCrypto
  imports Cmac Common
begin

text \<open>
  \<open>mka_crypto.c\<close>: the cryptographic operations of MKA. The pre-shared key, the derived ICK and KEK
  and the CMAC and AES contexts are one record; an operation returns the code, the context and the
  buffers it writes with their stored length. Inputs with a length argument are byte lists of that
  length; array fields of a context are passed whole with the length beside them. Debug output and
  the erasure of local variables are left out.
\<close>

subsection \<open>Data\<close>

abbreviation (input) MACSEC_MKA_CKN_MAX_LEN :: nat where "MACSEC_MKA_CKN_MAX_LEN \<equiv> 32"
abbreviation (input) MACSEC_MKA_MIC_LEN :: nat where "MACSEC_MKA_MIC_LEN \<equiv> 16"
abbreviation (input) MACSEC_MKA_WRAPPED_SAK_128_LEN :: nat where "MACSEC_MKA_WRAPPED_SAK_128_LEN \<equiv> 24"
abbreviation (input) MACSEC_MKA_WRAPPED_SAK_256_LEN :: nat where "MACSEC_MKA_WRAPPED_SAK_256_LEN \<equiv> 40"

record macsec_mka_psk =
  psk_cak :: bytes
  psk_cak_len :: u8
  psk_ckn :: bytes
  psk_ckn_len :: u8
  psk_valid :: bool

record macsec_mka_keys =
  keys_ick :: bytes
  keys_ick_len :: u8
  keys_kek :: bytes
  keys_kek_len :: u8
  keys_valid :: bool

record macsec_mka_crypto_ctx =
  mc_psk :: macsec_mka_psk
  mc_keys :: macsec_mka_keys
  mc_cmac_ctx :: math_cmac_context
  mc_cmac_initialized :: bool
  mc_aes_ctx :: math_aes_context
  mc_aes_initialized :: bool

text \<open>The all-zero records that \<open>memset\<close> and \<open>macsec_zeroize\<close> leave.\<close>

definition mka_psk_zero :: macsec_mka_psk where
  "mka_psk_zero = \<lparr>psk_cak = replicate 32 0, psk_cak_len = 0, psk_ckn = replicate 32 0,
     psk_ckn_len = 0, psk_valid = False\<rparr>"

definition mka_keys_zero :: macsec_mka_keys where
  "mka_keys_zero = \<lparr>keys_ick = replicate 32 0, keys_ick_len = 0, keys_kek = replicate 32 0,
     keys_kek_len = 0, keys_valid = False\<rparr>"

subsection \<open>Keys\<close>

definition macsec_mka_key_len_valid :: "nat \<Rightarrow> bool" where
  "macsec_mka_key_len_valid key_len \<longleftrightarrow> key_len = 16 \<or> key_len = 32"

definition macsec_mka_ick_ready :: "macsec_mka_crypto_ctx \<Rightarrow> bool" where
  "macsec_mka_ick_ready ctx \<longleftrightarrow>
     keys_valid (mc_keys ctx) \<and> macsec_mka_key_len_valid (unat (keys_ick_len (mc_keys ctx)))"

definition macsec_mka_kek_ready :: "macsec_mka_crypto_ctx \<Rightarrow> bool" where
  "macsec_mka_kek_ready ctx \<longleftrightarrow>
     keys_valid (mc_keys ctx) \<and> macsec_mka_key_len_valid (unat (keys_kek_len (mc_keys ctx)))"

subsection \<open>CMAC and key derivation\<close>

text \<open>The third component is the buffer \<open>out\<close> of 16 bytes.\<close>

definition macsec_mka_cmac ::
  "macsec_mka_crypto_ctx \<Rightarrow> bytes \<Rightarrow> nat \<Rightarrow> bytes \<Rightarrow> bytes \<Rightarrow>
     macsec_ret \<times> macsec_mka_crypto_ctx \<times> bytes" where
  "macsec_mka_cmac ctx key key_len input out =
     (if \<not> macsec_mka_key_len_valid key_len then (MACSEC_ERR_PARAM, ctx, out)
      else
        let (ret, cmac_ctx, out) = math_cmac_aes (mc_cmac_ctx ctx) key (key_len * 8) input out;
            ctx = ctx\<lparr>mc_cmac_ctx := cmac_ctx\<rparr>
        in if ret \<noteq> 0 then (MACSEC_ERR_CRYPTO, ctx, out) else (MACSEC_ERR_OK, ctx, out))"

text \<open>The \<open>while\<close> loop of \<open>macsec_mka_kdf\<close>; \<open>counter\<close> is a \<open>uint8_t\<close> and wraps.\<close>

function macsec_mka_kdf_loop ::
  "macsec_mka_crypto_ctx \<Rightarrow> bytes \<Rightarrow> nat \<Rightarrow> bytes \<Rightarrow> bytes \<Rightarrow> u16 \<Rightarrow> bytes \<Rightarrow> nat \<Rightarrow> nat \<Rightarrow> u8 \<Rightarrow>
     macsec_ret \<times> macsec_mka_crypto_ctx \<times> bytes" where
  "macsec_mka_kdf_loop ctx key key_len label context out_bits out out_len produced counter =
     (if produced < out_len then
        let buf = counter # label @ [0] @ context @ macsec_wr_be16 out_bits;
            (ret, ctx, cmac_out) = macsec_mka_cmac ctx key key_len buf (replicate 16 0)
        in if ret \<noteq> MACSEC_ERR_OK then (ret, ctx, macsec_zeroize out out_len)
           else
             let copy_len = (if out_len - produced > 16 then 16 else out_len - produced)
             in macsec_mka_kdf_loop ctx key key_len label context out_bits
                  (take produced out @ take copy_len cmac_out @ drop (produced + copy_len) out)
                  out_len (produced + copy_len) (counter + 1)
      else (MACSEC_ERR_OK, ctx, out))"
  by pat_completeness auto
termination
  by (relation "measure (\<lambda>(ctx, key, key_len, label, context, out_bits, out, out_len, produced, counter).
                           out_len - produced)") auto

declare macsec_mka_kdf_loop.simps [simp del]

text \<open>
  \<open>label\<close> is the C string without its NUL. The first \<open>out_len\<close> bytes of the array \<open>out\<close> are written.
\<close>

definition macsec_mka_kdf ::
  "macsec_mka_crypto_ctx \<Rightarrow> bytes \<Rightarrow> nat \<Rightarrow> string \<Rightarrow> bytes \<Rightarrow> u16 \<Rightarrow> bytes \<Rightarrow> nat \<Rightarrow>
     macsec_ret \<times> macsec_mka_crypto_ctx \<times> bytes" where
  "macsec_mka_kdf ctx key key_len label context out_bits out out_len =
     (if \<not> macsec_mka_key_len_valid key_len then (MACSEC_ERR_PARAM, ctx, out)
      else if \<not> length label \<le> 12 then (MACSEC_ERR_PARAM, ctx, out)
      else if \<not> length context \<le> MACSEC_MKA_CKN_MAX_LEN then (MACSEC_ERR_PARAM, ctx, out)
      else if \<not> out_len = (unat out_bits + 7) div 8 then (MACSEC_ERR_PARAM, ctx, out)
      else macsec_mka_kdf_loop ctx key key_len (map of_char label) context out_bits
             (macsec_zeroize out out_len) out_len 0 1)"

definition macsec_mka_derive_one ::
  "macsec_mka_crypto_ctx \<Rightarrow> string \<Rightarrow> bytes \<Rightarrow> nat \<Rightarrow> macsec_ret \<times> macsec_mka_crypto_ctx \<times> bytes" where
  "macsec_mka_derive_one ctx label out out_len =
     (if \<not> psk_valid (mc_psk ctx) then (MACSEC_ERR_STATE, ctx, out)
      else if \<not> (out_len = 16 \<or> out_len = 32) then (MACSEC_ERR_PARAM, ctx, out)
      else
        let psk = mc_psk ctx;
            n = (if unat (psk_ckn_len psk) < 16 then unat (psk_ckn_len psk) else 16);
            keyid = arr_put (replicate 16 0) (take n (psk_ckn psk))
        in macsec_mka_kdf ctx (psk_cak psk) (unat (psk_cak_len psk)) label keyid
             (of_nat out_len * 8) out out_len)"

definition macsec_mka_crypto_derive_ick_kek ::
  "macsec_mka_crypto_ctx \<Rightarrow> macsec_ret \<times> macsec_mka_crypto_ctx" where
  "macsec_mka_crypto_derive_ick_kek ctx =
     (if \<not> psk_valid (mc_psk ctx) then (MACSEC_ERR_STATE, ctx)
      else
        let derived_len = unat (psk_cak_len (mc_psk ctx)) in
        if \<not> (derived_len = 16 \<or> derived_len = 32) then (MACSEC_ERR_PARAM, ctx)
        else
          let ctx = ctx\<lparr>mc_keys := mka_keys_zero\<rparr>;
              (ret, ctx, ick) = macsec_mka_derive_one ctx ''IEEE8021 ICK'' (keys_ick (mc_keys ctx)) derived_len;
              ctx = ctx\<lparr>mc_keys := (mc_keys ctx)\<lparr>keys_ick := ick\<rparr>\<rparr>
          in if ret \<noteq> MACSEC_ERR_OK then (ret, ctx)
             else
               let ctx = ctx\<lparr>mc_keys := (mc_keys ctx)\<lparr>keys_ick_len := of_nat derived_len\<rparr>\<rparr>;
                   (ret, ctx, kek) = macsec_mka_derive_one ctx ''IEEE8021 KEK'' (keys_kek (mc_keys ctx)) derived_len;
                   ctx = ctx\<lparr>mc_keys := (mc_keys ctx)\<lparr>keys_kek := kek\<rparr>\<rparr>
               in if ret \<noteq> MACSEC_ERR_OK then (ret, ctx\<lparr>mc_keys := mka_keys_zero\<rparr>)
                  else (MACSEC_ERR_OK,
                        ctx\<lparr>mc_keys := (mc_keys ctx)\<lparr>keys_kek_len := of_nat derived_len,
                                                      keys_valid := True\<rparr>\<rparr>))"

subsection \<open>AES key wrap (RFC 3394)\<close>

definition MACSEC_MKA_AES_KW_IV :: bytes where "MACSEC_MKA_AES_KW_IV = replicate 8 0xA6"

text \<open>\<open>dst[k] = src[k] ^ (uint8_t) (t >> (56 - 8 k))\<close> for the eight bytes of a register.\<close>

definition kw_xor_counter :: "bytes \<Rightarrow> u64 \<Rightarrow> bytes" where
  "kw_xor_counter src t = map (\<lambda>k. src ! k XOR ucast (drop_bit (56 - 8 * k) t)) [0..<8]"

text \<open>\<open>memcpy(&buf[i], bs, n)\<close> inside a buffer whose size was checked.\<close>

definition kw_store :: "bytes \<Rightarrow> nat \<Rightarrow> bytes \<Rightarrow> bytes" where
  "kw_store buf i bs = take i buf @ bs @ drop (i + length bs) buf"

text \<open>
  The two nested loops run over the list of their index pairs. \<open>wrapped\<close> holds the registers from
  offset 8 on; \<open>plain\<close> holds them from offset 0 on.
\<close>

definition kw_indices :: "nat \<Rightarrow> (nat \<times> nat) list" where
  "kw_indices n = concat (map (\<lambda>j. map (\<lambda>i. (j, i)) [0..<n]) [0..<6])"

primrec kw_wrap_loop ::
  "math_aes_context \<Rightarrow> nat \<Rightarrow> (nat \<times> nat) list \<Rightarrow> bytes \<Rightarrow> bytes \<Rightarrow> int \<times> bytes \<times> bytes" where
  "kw_wrap_loop aes n [] a wrapped = (0, a, wrapped)"
| "kw_wrap_loop aes n (ji # rest) a wrapped =
     (let (j, i) = ji;
          block = a @ take 8 (drop (8 + i * 8) wrapped);
          (ret, b) = math_aes_encrypt aes block
      in if ret \<noteq> 0 then (ret, a, wrapped)
         else
           let t = of_nat (j * n + i + 1) :: u64;
               a = kw_xor_counter b t
           in kw_wrap_loop aes n rest a (kw_store wrapped (8 + i * 8) (take 8 (drop 8 b))))"

definition macsec_mka_aes_kw_wrap ::
  "macsec_mka_crypto_ctx \<Rightarrow> bytes \<Rightarrow> nat \<Rightarrow> bytes \<Rightarrow> bytes \<Rightarrow> nat \<Rightarrow>
     macsec_ret \<times> macsec_mka_crypto_ctx \<times> bytes \<times> nat" where
  "macsec_mka_aes_kw_wrap ctx kek kek_len plain wrapped wrapped_max_len =
     (let plain_len = length plain in
      if \<not> (kek_len = 16 \<or> kek_len = 32) then (MACSEC_ERR_PARAM, ctx, wrapped, 0)
      else if \<not> (16 \<le> plain_len \<and> plain_len mod 8 = 0) then (MACSEC_ERR_PARAM, ctx, wrapped, 0)
      else if \<not> plain_len + 8 \<le> wrapped_max_len then (MACSEC_ERR_BUFFER, ctx, wrapped, 0)
      else
        let ctx = (if \<not> mc_aes_initialized ctx
                   then ctx\<lparr>mc_aes_ctx := math_aes_init, mc_aes_initialized := True\<rparr> else ctx);
            (ret, aes) = math_aes_setenckey (mc_aes_ctx ctx) kek (kek_len * 8);
            ctx = ctx\<lparr>mc_aes_ctx := aes\<rparr>
        in if ret \<noteq> 0 then (MACSEC_ERR_CRYPTO, ctx, macsec_zeroize wrapped (plain_len + 8), 0)
           else
             let n = plain_len div 8;
                 wrapped = fold (\<lambda>i wrapped. kw_store wrapped (8 + i * 8) (take 8 (drop (i * 8) plain)))
                             [0..<n] wrapped;
                 (ret, a, wrapped) = kw_wrap_loop (mc_aes_ctx ctx) n (kw_indices n) MACSEC_MKA_AES_KW_IV wrapped
             in if ret \<noteq> 0 then (MACSEC_ERR_CRYPTO, ctx, macsec_zeroize wrapped (plain_len + 8), 0)
                else (MACSEC_ERR_OK, ctx, kw_store wrapped 0 a, plain_len + 8))"

primrec kw_unwrap_loop ::
  "math_aes_context \<Rightarrow> nat \<Rightarrow> (nat \<times> nat) list \<Rightarrow> bytes \<Rightarrow> bytes \<Rightarrow> int \<times> bytes \<times> bytes" where
  "kw_unwrap_loop aes n [] a plain = (0, a, plain)"
| "kw_unwrap_loop aes n (ji # rest) a plain =
     (let (j, idx) = ji;
          t = of_nat (j * n + idx + 1) :: u64;
          block = kw_xor_counter a t @ take 8 (drop (idx * 8) plain);
          (ret, b) = math_aes_decrypt aes block
      in if ret \<noteq> 0 then (ret, a, plain)
         else kw_unwrap_loop aes n rest (take 8 b) (kw_store plain (idx * 8) (take 8 (drop 8 b))))"

definition macsec_mka_aes_kw_unwrap ::
  "macsec_mka_crypto_ctx \<Rightarrow> bytes \<Rightarrow> nat \<Rightarrow> bytes \<Rightarrow> bytes \<Rightarrow> nat \<Rightarrow>
     macsec_ret \<times> macsec_mka_crypto_ctx \<times> bytes \<times> nat" where
  "macsec_mka_aes_kw_unwrap ctx kek kek_len wrapped plain plain_max_len =
     (let wrapped_len = length wrapped; n = wrapped_len div 8 - 1 in
      if \<not> (kek_len = 16 \<or> kek_len = 32) then (MACSEC_ERR_PARAM, ctx, plain, 0)
      else if \<not> (24 \<le> wrapped_len \<and> wrapped_len mod 8 = 0) then (MACSEC_ERR_PARAM, ctx, plain, 0)
      else if \<not> n * 8 \<le> plain_max_len then (MACSEC_ERR_BUFFER, ctx, plain, 0)
      else
        let ctx = (if \<not> mc_aes_initialized ctx
                   then ctx\<lparr>mc_aes_ctx := math_aes_init, mc_aes_initialized := True\<rparr> else ctx);
            (ret, aes) = math_aes_setdeckey (mc_aes_ctx ctx) kek (kek_len * 8);
            ctx = ctx\<lparr>mc_aes_ctx := aes\<rparr>
        in if ret \<noteq> 0 then (MACSEC_ERR_CRYPTO, ctx, macsec_zeroize plain (n * 8), 0)
           else
             let plain = fold (\<lambda>i plain. kw_store plain (i * 8) (take 8 (drop (8 + i * 8) wrapped)))
                           [0..<n] plain;
                 (ret, a, plain) = kw_unwrap_loop (mc_aes_ctx ctx) n (rev (kw_indices n)) (take 8 wrapped) plain
             in if ret \<noteq> 0 then (MACSEC_ERR_CRYPTO, ctx, macsec_zeroize plain (n * 8), 0)
                else if macsec_compare a MACSEC_MKA_AES_KW_IV 8 \<noteq> 0
                then (MACSEC_ERR_AUTH, ctx, macsec_zeroize plain (n * 8), 0)
                else (MACSEC_ERR_OK, ctx, plain, n * 8))"

subsection \<open>Interface to MKA\<close>

definition macsec_mka_crypto_init :: "macsec_ret \<times> macsec_mka_crypto_ctx" where
  "macsec_mka_crypto_init =
     (MACSEC_ERR_OK,
      \<lparr>mc_psk = mka_psk_zero, mc_keys = mka_keys_zero,
       mc_cmac_ctx = math_cmac_init, mc_cmac_initialized = True,
       mc_aes_ctx = math_aes_init, mc_aes_initialized = True\<rparr>)"

text \<open>The final erasure sets every field, so the two \<open>free\<close> calls leave nothing of their own.\<close>

definition macsec_mka_crypto_clear :: "macsec_mka_crypto_ctx \<Rightarrow> macsec_mka_crypto_ctx" where
  "macsec_mka_crypto_clear ctx =
     \<lparr>mc_psk = mka_psk_zero, mc_keys = mka_keys_zero,
      mc_cmac_ctx = math_cmac_init, mc_cmac_initialized = False,
      mc_aes_ctx = math_aes_init, mc_aes_initialized = False\<rparr>"

definition macsec_mka_crypto_set_psk ::
  "macsec_mka_crypto_ctx \<Rightarrow> bytes \<Rightarrow> bytes \<Rightarrow> macsec_ret \<times> macsec_mka_crypto_ctx" where
  "macsec_mka_crypto_set_psk ctx cak ckn =
     (if \<not> macsec_mka_key_len_valid (length cak) then (MACSEC_ERR_PARAM, ctx)
      else if \<not> (0 < length ckn \<and> length ckn \<le> MACSEC_MKA_CKN_MAX_LEN) then (MACSEC_ERR_PARAM, ctx)
      else
        (MACSEC_ERR_OK,
         ctx\<lparr>mc_keys := mka_keys_zero,
             mc_psk := mka_psk_zero\<lparr>psk_cak := arr_put (replicate 32 0) cak,
                                    psk_cak_len := of_nat (length cak),
                                    psk_ckn := arr_put (replicate 32 0) ckn,
                                    psk_ckn_len := of_nat (length ckn),
                                    psk_valid := True\<rparr>\<rparr>))"

definition macsec_mka_crypto_calc_mic ::
  "macsec_mka_crypto_ctx \<Rightarrow> bytes \<Rightarrow> bytes \<Rightarrow> macsec_ret \<times> macsec_mka_crypto_ctx \<times> bytes" where
  "macsec_mka_crypto_calc_mic ctx pdu mic =
     (if \<not> macsec_mka_ick_ready ctx then (MACSEC_ERR_STATE, ctx, mic)
      else macsec_mka_cmac ctx (keys_ick (mc_keys ctx)) (unat (keys_ick_len (mc_keys ctx))) pdu mic)"

definition macsec_mka_crypto_verify_mic ::
  "macsec_mka_crypto_ctx \<Rightarrow> bytes \<Rightarrow> bytes \<Rightarrow> macsec_ret \<times> macsec_mka_crypto_ctx" where
  "macsec_mka_crypto_verify_mic ctx pdu mic =
     (let (ret, ctx, calc_mic) = macsec_mka_crypto_calc_mic ctx pdu (replicate 16 0) in
      if ret \<noteq> MACSEC_ERR_OK then (ret, ctx)
      else if macsec_compare calc_mic mic MACSEC_MKA_MIC_LEN \<noteq> 0 then (MACSEC_ERR_AUTH, ctx)
      else (MACSEC_ERR_OK, ctx))"

definition macsec_mka_crypto_wrap_sak ::
  "macsec_mka_crypto_ctx \<Rightarrow> bytes \<Rightarrow> bytes \<Rightarrow> nat \<Rightarrow> nat \<Rightarrow>
     macsec_ret \<times> macsec_mka_crypto_ctx \<times> bytes \<times> nat" where
  "macsec_mka_crypto_wrap_sak ctx sak wrapped_sak wrapped_sak_len wrapped_sak_max_len =
     (if \<not> macsec_mka_kek_ready ctx then (MACSEC_ERR_STATE, ctx, wrapped_sak, wrapped_sak_len)
      else if \<not> (length sak = 16 \<or> length sak = 32) then (MACSEC_ERR_PARAM, ctx, wrapped_sak, 0)
      else macsec_mka_aes_kw_wrap ctx (keys_kek (mc_keys ctx)) (unat (keys_kek_len (mc_keys ctx)))
             sak wrapped_sak wrapped_sak_max_len)"

definition macsec_mka_crypto_unwrap_sak ::
  "macsec_mka_crypto_ctx \<Rightarrow> bytes \<Rightarrow> bytes \<Rightarrow> nat \<Rightarrow> nat \<Rightarrow>
     macsec_ret \<times> macsec_mka_crypto_ctx \<times> bytes \<times> nat" where
  "macsec_mka_crypto_unwrap_sak ctx wrapped_sak sak sak_len sak_max_len =
     (if \<not> macsec_mka_kek_ready ctx then (MACSEC_ERR_STATE, ctx, sak, sak_len)
      else if \<not> (length wrapped_sak = MACSEC_MKA_WRAPPED_SAK_128_LEN \<or>
                length wrapped_sak = MACSEC_MKA_WRAPPED_SAK_256_LEN) then (MACSEC_ERR_PARAM, ctx, sak, 0)
      else
        let (ret, ctx, sak, sak_len) =
              macsec_mka_aes_kw_unwrap ctx (keys_kek (mc_keys ctx)) (unat (keys_kek_len (mc_keys ctx)))
                wrapped_sak sak sak_max_len
        in if ret \<noteq> MACSEC_ERR_OK then (ret, ctx, macsec_zeroize sak sak_max_len, 0)
           else if sak_len \<noteq> 16 \<and> sak_len \<noteq> 32
           then (MACSEC_ERR_CRYPTO, ctx, macsec_zeroize sak sak_max_len, 0)
           else (MACSEC_ERR_OK, ctx, sak, sak_len))"

end
