(* ===== verification/KeyWrap.thy ===== *)
theory KeyWrap
  imports CmacSpec MkaCrypto
begin

text \<open>
  AES key wrap as RFC 3394 states it (\<open>kw_wrap_spec\<close>, \<open>kw_unwrap_spec\<close>), over an abstract block
  cipher: the locale \<open>block_cipher\<close> holds the contract and, proved once, the two directions of the
  round trip. AES with 128- and 256-bit keys is an interpretation. \<open>aes_kw_wrap_spec\<close> and
  \<open>aes_kw_unwrap_spec\<close> show that the loops of \<open>mka_crypto.c\<close> compute the specification.
\<close>

subsection \<open>Key wrap over a block cipher\<close>

text \<open>
  RFC 3394 with the registers as a list: one step encrypts the integrity register with register
  \<open>i\<close> and adds the counter \<open>n j + i + 1\<close>; unwrapping runs the inverse steps in the opposite order.
\<close>

definition kw_wrap_step ::
  "(bytes \<Rightarrow> bytes) \<Rightarrow> nat \<Rightarrow> nat \<times> nat \<Rightarrow> bytes \<times> bytes list \<Rightarrow> bytes \<times> bytes list" where
  "kw_wrap_step E n = (\<lambda>(j, i) (a, r).
     let b = E (a @ r ! i)
     in (xor_bytes (take 8 b) (macsec_wr_be64 (of_nat (j * n + i + 1))), r[i := drop 8 b]))"

definition kw_unwrap_step ::
  "(bytes \<Rightarrow> bytes) \<Rightarrow> nat \<Rightarrow> nat \<times> nat \<Rightarrow> bytes \<times> bytes list \<Rightarrow> bytes \<times> bytes list" where
  "kw_unwrap_step D n = (\<lambda>(j, i) (a, r).
     let b = D (xor_bytes a (macsec_wr_be64 (of_nat (j * n + i + 1))) @ r ! i)
     in (take 8 b, r[i := drop 8 b]))"

definition chunks8 :: "bytes \<Rightarrow> bytes list" where
  "chunks8 p = map (\<lambda>i. take 8 (drop (i * 8) p)) [0..<length p div 8]"

definition kw_wrap_spec :: "(bytes \<Rightarrow> bytes) \<Rightarrow> bytes \<Rightarrow> bytes" where
  "kw_wrap_spec E p =
     (let n = length p div 8;
          (a, r) = fold (kw_wrap_step E n) (kw_indices n) (MACSEC_MKA_AES_KW_IV, chunks8 p)
      in a @ concat r)"

definition kw_unwrap_spec :: "(bytes \<Rightarrow> bytes) \<Rightarrow> bytes \<Rightarrow> bytes option" where
  "kw_unwrap_spec D c =
     (let n = length c div 8 - 1;
          (a, r) = fold (kw_unwrap_step D n) (rev (kw_indices n)) (take 8 c, chunks8 (drop 8 c))
      in if a = MACSEC_MKA_AES_KW_IV then Some (concat r) else None)"

text \<open>\<open>kw_state n (a, r)\<close>: an integrity register and \<open>n\<close> data registers of 8 bytes.\<close>

definition kw_state :: "nat \<Rightarrow> bytes \<times> bytes list \<Rightarrow> bool" where
  "kw_state n s \<longleftrightarrow> length (fst s) = 8 \<and> length (snd s) = n \<and> (\<forall>x \<in> set (snd s). length x = 8)"

lemma kw_indices_bound: "ji \<in> set (kw_indices n) \<Longrightarrow> snd ji < n"
  by (auto simp: kw_indices_def)

lemma length_kw_iv [simp]: "length MACSEC_MKA_AES_KW_IV = 8"
  by (simp add: MACSEC_MKA_AES_KW_IV_def)

lemma length_chunks8: "length (chunks8 p) = length p div 8"
  by (simp add: chunks8_def)

lemma chunks8_length: "x \<in> set (chunks8 p) \<Longrightarrow> length x = 8"
proof -
  have "8 \<le> length p - i * 8" if "i < length p div 8" for i
    using that by presburger
  then show "x \<in> set (chunks8 p) \<Longrightarrow> length x = 8" by (auto simp: chunks8_def)
qed

lemma concat_chunks: "n * 8 \<le> length p \<Longrightarrow> concat (map (\<lambda>i. take 8 (drop (i * 8) p)) [0..<n]) = take (n * 8) p"
  by (induction n) (simp_all add: take_add add.commute [of 8])

lemma concat_chunks8: "length p mod 8 = 0 \<Longrightarrow> concat (chunks8 p) = p"
  by (simp add: chunks8_def concat_chunks minus_mod_eq_div_mult [symmetric])

lemma xor_bytes_undo: "length a \<le> length t \<Longrightarrow> xor_bytes (xor_bytes a t) t = a"
  by (intro nth_equalityI) (auto simp: nth_xor_bytes)

lemma length_concat8: "(\<And>x. x \<in> set r \<Longrightarrow> length x = 8) \<Longrightarrow> length (concat r) = length r * 8"
  by (induction r) auto

lemma concat_nth8:
  "(\<And>x. x \<in> set r \<Longrightarrow> length x = 8) \<Longrightarrow> i < length r \<Longrightarrow> take 8 (drop (i * 8) (concat r @ q)) = r ! i"
  by (induction r arbitrary: i) (auto simp: less_Suc_eq_0_disj)

lemma chunks8_concat:
  assumes "\<And>x. x \<in> set r \<Longrightarrow> length x = 8"
  shows "chunks8 (concat r) = r"
  using concat_nth8 [of r _ "[]"] assms by (intro nth_equalityI) (auto simp: chunks8_def length_concat8)

text \<open>
  The contract of a block cipher, and the round trip of the key wrap over any such cipher. The
  converse law, that encryption undoes decryption, follows since there are finitely many blocks.
\<close>

locale block_cipher =
  fixes enc dec :: "bytes \<Rightarrow> bytes"
  assumes length_enc [simp]: "length (enc b) = 16"
    and length_dec [simp]: "length (dec b) = 16"
    and dec_enc: "length b = 16 \<Longrightarrow> dec (enc b) = b"
begin

lemma enc_dec: "length b = 16 \<Longrightarrow> enc (dec b) = b"
proof -
  let ?B = "{b :: bytes. set b \<subseteq> UNIV \<and> length b = 16}"
  assume b: "length b = 16"
  have "inj_on enc ?B" by (rule inj_on_inverseI [where g = dec]) (simp add: dec_enc)
  moreover have "enc ` ?B \<subseteq> ?B" by auto
  moreover have "finite ?B" by (rule finite_lists_length_eq) simp
  ultimately have "enc ` ?B = ?B" using endo_inj_surj by blast
  with b obtain c where "length c = 16" "b = enc c" by auto
  then show ?thesis by (simp add: dec_enc)
qed

lemma dec_unique: "(\<And>b. length b = 16 \<Longrightarrow> d (enc b) = b) \<Longrightarrow> length b = 16 \<Longrightarrow> d b = dec b"
  using enc_dec [of b] by (metis length_dec)

lemma wrap_step_state: "kw_state n s \<Longrightarrow> snd ji < n \<Longrightarrow> kw_state n (kw_wrap_step enc n ji s)"
  by (auto simp: kw_state_def kw_wrap_step_def Let_def split_beta dest: set_update_subset_insert [THEN subsetD])

lemma unwrap_step_state: "kw_state n s \<Longrightarrow> snd ji < n \<Longrightarrow> kw_state n (kw_unwrap_step dec n ji s)"
  by (auto simp: kw_state_def kw_unwrap_step_def Let_def split_beta dest: set_update_subset_insert [THEN subsetD])

lemma unwrap_wrap_step:
  assumes "kw_state n s" "snd ji < n"
  shows "kw_unwrap_step dec n ji (kw_wrap_step enc n ji s) = s"
  using assms
  by (auto simp: kw_wrap_step_def kw_unwrap_step_def Let_def kw_state_def dec_enc xor_bytes_undo
      split: prod.splits)

lemma wrap_unwrap_step:
  assumes "kw_state n s" "snd ji < n"
  shows "kw_wrap_step enc n ji (kw_unwrap_step dec n ji s) = s"
  using assms
  by (auto simp: kw_wrap_step_def kw_unwrap_step_def Let_def kw_state_def enc_dec xor_bytes_undo
      split: prod.splits)

lemma unwrap_wrap_fold:
  "kw_state n s \<Longrightarrow> (\<And>ji. ji \<in> set jis \<Longrightarrow> snd ji < n) \<Longrightarrow>
   fold (kw_unwrap_step dec n) (rev jis) (fold (kw_wrap_step enc n) jis s) = s \<and>
   kw_state n (fold (kw_wrap_step enc n) jis s)"
  by (induction jis arbitrary: s) (simp_all add: wrap_step_state unwrap_wrap_step)

lemma wrap_unwrap_fold:
  "kw_state n s \<Longrightarrow> (\<And>ji. ji \<in> set jis \<Longrightarrow> snd ji < n) \<Longrightarrow>
   fold (kw_wrap_step enc n) (rev jis) (fold (kw_unwrap_step dec n) jis s) = s \<and>
   kw_state n (fold (kw_unwrap_step dec n) jis s)"
  by (induction jis arbitrary: s) (simp_all add: unwrap_step_state wrap_unwrap_step)

lemma key_unwrap_wrap:
  assumes "length p mod 8 = 0"
  shows "kw_unwrap_spec dec (kw_wrap_spec enc p) = Some p"
    and "length (kw_wrap_spec enc p) = length p + 8"
proof -
  define n where "n = length p div 8"
  obtain a r where f: "fold (kw_wrap_step enc n) (kw_indices n) (MACSEC_MKA_AES_KW_IV, chunks8 p) = (a, r)"
    by (metis surj_pair)
  have "kw_state n (MACSEC_MKA_AES_KW_IV, chunks8 p)"
    by (auto simp: kw_state_def n_def length_chunks8 chunks8_length)
  from unwrap_wrap_fold [OF this, of "kw_indices n"] f
  have u: "fold (kw_unwrap_step dec n) (rev (kw_indices n)) (a, r) = (MACSEC_MKA_AES_KW_IV, chunks8 p)"
    and st: "kw_state n (a, r)"
    by (auto dest: kw_indices_bound)
  have w: "kw_wrap_spec enc p = a @ concat r" by (simp add: kw_wrap_spec_def Let_def f flip: n_def)
  have r: "length (concat r) = n * 8" "chunks8 (concat r) = r"
    using st by (auto simp: kw_state_def length_concat8 chunks8_concat)
  with st u assms show "kw_unwrap_spec dec (kw_wrap_spec enc p) = Some p"
    by (simp add: w kw_unwrap_spec_def kw_state_def Let_def concat_chunks8)
  show "length (kw_wrap_spec enc p) = length p + 8"
    using st r assms by (simp add: w kw_state_def n_def mod_eq_0_iff_dvd)
qed

lemma key_wrap_unwrap:
  assumes "length c mod 8 = 0" "8 \<le> length c" "kw_unwrap_spec dec c = Some p"
  shows "kw_wrap_spec enc p = c" "length p = length c - 8"
proof -
  define n where "n = length c div 8 - 1"
  have n: "length (drop 8 c) = n * 8" using assms(1,2) by (auto simp: n_def mod_eq_0_iff_dvd elim!: dvdE)
  obtain a r where f: "fold (kw_unwrap_step dec n) (rev (kw_indices n)) (take 8 c, chunks8 (drop 8 c)) = (a, r)"
    by (metis surj_pair)
  have "kw_state n (take 8 c, chunks8 (drop 8 c))"
    using assms(2) n by (auto simp: kw_state_def length_chunks8 chunks8_length)
  from wrap_unwrap_fold [OF this, of "rev (kw_indices n)"] f
  have u: "fold (kw_wrap_step enc n) (kw_indices n) (a, r) = (take 8 c, chunks8 (drop 8 c))"
    and st: "kw_state n (a, r)"
    by (auto dest: kw_indices_bound)
  have p: "a = MACSEC_MKA_AES_KW_IV" "p = concat r"
    using assms(3) f by (auto simp: kw_unwrap_spec_def Let_def split: if_splits simp del: One_nat_def simp flip: n_def)
  have r: "length (concat r) = n * 8" "chunks8 (concat r) = r"
    using st by (auto simp: kw_state_def length_concat8 chunks8_concat)
  with n u show "kw_wrap_spec enc p = c" "length p = length c - 8"
    by (simp_all add: kw_wrap_spec_def p(2) Let_def concat_chunks8 flip: p(1))
qed

end

subsection \<open>The loops of the code\<close>

text \<open>A buffer \<open>p @ concat r @ q\<close> with the registers \<open>r\<close> at offset \<open>length p\<close>.\<close>

lemma kw_store_prefix: "kw_store (p @ w) (length p + k) x = p @ kw_store w k x"
  by (simp add: kw_store_def)

lemma kw_store_register:
  assumes "\<And>x. x \<in> set r \<Longrightarrow> length x = 8" "i < length r" "length x = 8"
  shows "kw_store (concat r @ q) (i * 8) x = concat (r[i := x]) @ q"
  using assms
proof (induction r arbitrary: i)
  case (Cons y r)
  show ?case
  proof (cases i)
    case 0
    with Cons.prems show ?thesis by (simp add: kw_store_def)
  next
    case (Suc k)
    have "kw_store (y @ concat r @ q) (length y + k * 8) x = y @ concat (r[k := x]) @ q"
      unfolding kw_store_prefix using Cons Suc by simp
    with Suc Cons.prems show ?thesis by simp
  qed
qed simp

lemma kw_store_all:
  assumes "n * 8 \<le> length src" "d + n * 8 \<le> length w"
  shows "fold (\<lambda>i w. kw_store w (d + i * 8) (take 8 (drop (i * 8) src))) [0..<n] w =
         take d w @ take (n * 8) src @ drop (d + n * 8) w"
  using assms
proof (induction n)
  case (Suc n)
  have "take (8 + n * 8) src = take (n * 8) src @ take 8 (drop (n * 8) src)"
    by (metis add.commute take_add)
  with Suc show ?case by (simp add: kw_store_def ac_simps)
qed simp

lemma kw_xor_counter_eq: "8 \<le> length a \<Longrightarrow> kw_xor_counter a t = xor_bytes (take 8 a) (macsec_wr_be64 t)"
  by (rule nth_equalityI)
     (auto simp: kw_xor_counter_def nth_xor_bytes macsec_wr_be64_def less_Suc_eq numeral_eq_Suc)

lemma kw_wrap_loop_eq:
  fixes aes :: math_aes_context
  assumes "kw_state n (a, r)" "\<And>ji. ji \<in> set jis \<Longrightarrow> snd ji < n" "length p = 8"
  defines "E \<equiv> \<lambda>b. snd (math_aes_encrypt aes b)"
  shows "kw_wrap_loop aes n jis a (p @ concat r @ q) =
     (0, fst (fold (kw_wrap_step E n) jis (a, r)), p @ concat (snd (fold (kw_wrap_step E n) jis (a, r))) @ q)"
  using assms(1,2)
proof (induction jis arbitrary: a r)
  case (Cons ji jis)
  obtain j i where ji: "ji = (j, i)" by (cases ji)
  define a' r' where "a' = xor_bytes (take 8 (E (a @ r ! i))) (macsec_wr_be64 (of_nat (j * n + i + 1)))"
    and "r' = r[i := drop 8 (E (a @ r ! i))]"
  have i: "i < length r" and r: "\<And>x. x \<in> set r \<Longrightarrow> length x = 8"
    using Cons.prems(1) Cons.prems(2) [of ji] by (auto simp: kw_state_def ji)
  have len: "length (E b) = 16" for b by (simp add: E_def)
  have st: "kw_wrap_step E n ji (a, r) = (a', r')"
    by (simp add: kw_wrap_step_def ji Let_def a'_def r'_def)
  have "kw_state n (a', r')"
    using Cons.prems len by (auto simp: kw_state_def a'_def r'_def dest: set_update_subset_insert [THEN subsetD])
  note IH = Cons.IH [OF this]
  have "take 8 (drop (8 + i * 8) (p @ concat r @ q)) = r ! i"
    using concat_nth8 [OF r i] assms(3) by simp
  moreover have "kw_store (p @ concat r @ q) (8 + i * 8) (take 8 (drop 8 (E (a @ r ! i)))) = p @ concat r' @ q"
    using kw_store_prefix [of p "concat r @ q" "i * 8"] kw_store_register [OF r i] assms(3) len
    by (simp add: r'_def)
  moreover have "math_aes_encrypt aes b = (0, E b)" for b by (simp add: E_def prod_eq_iff)
  moreover have "kw_xor_counter (E (a @ r ! i)) (of_nat (j * n + i + 1)) = a'"
    using len by (simp add: kw_xor_counter_eq a'_def)
  ultimately show ?case
    using IH Cons.prems
    by (simp only: kw_wrap_loop.simps Let_def ji prod.case fold_simps st [unfolded ji] simp_thms if_False
        list.set_intros o_apply)
qed simp

lemma kw_unwrap_loop_eq:
  fixes aes :: math_aes_context
  assumes "kw_state n (a, r)" "\<And>ji. ji \<in> set jis \<Longrightarrow> snd ji < n"
  defines "D \<equiv> \<lambda>b. snd (math_aes_decrypt aes b)"
  shows "kw_unwrap_loop aes n jis a (concat r @ q) =
     (0, fst (fold (kw_unwrap_step D n) jis (a, r)), concat (snd (fold (kw_unwrap_step D n) jis (a, r))) @ q)"
  using assms(1,2)
proof (induction jis arbitrary: a r)
  case (Cons ji jis)
  obtain j i where ji: "ji = (j, i)" by (cases ji)
  define b where "b = D (xor_bytes a (macsec_wr_be64 (of_nat (j * n + i + 1))) @ r ! i)"
  have i: "i < length r" and r: "\<And>x. x \<in> set r \<Longrightarrow> length x = 8" and a: "length a = 8"
    using Cons.prems(1) Cons.prems(2) [of ji] by (auto simp: kw_state_def ji)
  have len: "length b = 16" by (simp add: b_def D_def)
  have st: "kw_unwrap_step D n ji (a, r) = (take 8 b, r[i := drop 8 b])"
    by (simp add: kw_unwrap_step_def ji Let_def b_def)
  have "kw_state n (take 8 b, r[i := drop 8 b])"
    using Cons.prems len by (auto simp: kw_state_def dest: set_update_subset_insert [THEN subsetD])
  note IH = Cons.IH [OF this]
  have "math_aes_decrypt aes (kw_xor_counter a (of_nat (j * n + i + 1)) @
          take 8 (drop (i * 8) (concat r @ q))) = (0, b)"
    using a by (simp only: concat_nth8 [OF r i] kw_xor_counter_eq b_def D_def prod_eq_iff
        fst_math_aes fst_conv snd_conv order_refl take_all simp_thms)
  moreover have "kw_store (concat r @ q) (i * 8) (take 8 (drop 8 b)) = concat (r[i := drop 8 b]) @ q"
    using kw_store_register [OF r i] len by simp
  ultimately show ?case
    using IH Cons.prems
    by (simp only: kw_unwrap_loop.simps Let_def ji prod.case fold_simps st [unfolded ji] simp_thms if_False
        list.set_intros o_apply)
qed simp

subsection \<open>The AES ciphers of a key-encryption key\<close>

definition aes_dec_of_key :: "bytes \<Rightarrow> nat \<Rightarrow> bytes \<Rightarrow> bytes" where
  "aes_dec_of_key key keybits b = snd (math_aes_decrypt (snd (math_aes_setdeckey math_aes_init key keybits)) b)"

lemma aes_block_cipher:
  assumes "keybits = 128 \<or> keybits = 192 \<or> keybits = 256"
  shows "block_cipher (aes_of_key key keybits) (aes_dec_of_key key keybits)"
  using aes_schedules_inverse [OF assms, of math_aes_init _ key]
  by unfold_locales (simp_all add: aes_of_key_def aes_dec_of_key_def math_aes_init_def)

lemma kek_block_cipher:
  "kek_len = 16 \<or> kek_len = 32 \<Longrightarrow>
   block_cipher (aes_of_key key (kek_len * 8)) (aes_dec_of_key key (kek_len * 8))"
  by (rule aes_block_cipher) auto

interpretation aes128: block_cipher "aes_of_key key 128" "aes_dec_of_key key 128" for key
  by (rule aes_block_cipher) simp

interpretation aes256: block_cipher "aes_of_key key 256" "aes_dec_of_key key 256" for key
  by (rule aes_block_cipher) simp

lemma setdeckey_length: "length (rk_buf (snd (math_aes_setdeckey ctx key keybits))) = length (rk_buf ctx)"
proof -
  have "length (snd (fold (\<lambda>round (d, buf). (d + 4, fold (\<lambda>w buf. buf[d + w := f round w]) [0..<4] buf)) rs (d, buf))) =
      length buf" for f :: "nat \<Rightarrow> nat \<Rightarrow> u32" and rs and d :: nat and buf
    by (induction rs arbitrary: d buf) (simp_all del: upt_rec_numeral)
  then show ?thesis
    by (simp add: math_aes_setdeckey_def Let_def split_beta del: upt_rec_numeral)
qed

lemma aes_dec_of_key_any:
  assumes "kek_len = 16 \<or> kek_len = 32" "length (rk_buf ctx) = 68" "length b = 16"
  shows "snd (math_aes_decrypt (snd (math_aes_setdeckey ctx key (kek_len * 8))) b) = aes_dec_of_key key (kek_len * 8) b"
proof -
  have kb: "kek_len * 8 = 128 \<or> kek_len * 8 = 192 \<or> kek_len * 8 = 256" using assms(1) by auto
  have inv: "snd (math_aes_decrypt (snd (math_aes_setdeckey ctx key (kek_len * 8)))
      (aes_of_key key (kek_len * 8) b)) = b" if "length b = 16" for b
    using aes_schedules_inverse [OF kb assms(2) that, of key] by (simp add: aes_of_key_def)
  let ?d = "\<lambda>b. snd (math_aes_decrypt (snd (math_aes_setdeckey ctx key (kek_len * 8))) b)"
  show ?thesis
    by (rule block_cipher.dec_unique [OF aes_block_cipher [OF kb], of ?d]) (rule inv, assumption, rule assms)
qed

lemma kw_unwrap_fold_cong:
  assumes "\<And>b. length b = 16 \<Longrightarrow> D b = D' b" "\<And>b. length (D b) = 16"
  shows "kw_state n s \<Longrightarrow> (\<And>ji. ji \<in> set jis \<Longrightarrow> snd ji < n) \<Longrightarrow>
    fold (kw_unwrap_step D n) jis s = fold (kw_unwrap_step D' n) jis s"
proof (induction jis arbitrary: s)
  case (Cons ji jis)
  obtain j i a r where s: "s = (a, r)" "ji = (j, i)" by (cases s; cases ji)
  have i: "i < length r" "length (r ! i) = 8" "length a = 8"
    using Cons.prems(1) Cons.prems(2) [of ji] by (auto simp: s kw_state_def)
  have "kw_unwrap_step D n ji s = kw_unwrap_step D' n ji s"
    using assms(1) [of "xor_bytes a (macsec_wr_be64 (of_nat (j * n + i + 1))) @ r ! i"] i
    by (simp add: kw_unwrap_step_def s)
  moreover have "kw_state n (kw_unwrap_step D n ji s)"
    using Cons.prems(1) assms(2) by (auto simp: kw_state_def kw_unwrap_step_def s Let_def
        dest: set_update_subset_insert [THEN subsetD])
  ultimately show ?case using Cons by simp
qed simp

subsection \<open>Wrap and unwrap compute RFC 3394\<close>

lemma aes_kw_wrap_spec:
  assumes kek: "kek_len = 16 \<or> kek_len = 32" and rk: "length (rk_buf (mc_aes_ctx ctx)) = 68"
    and len: "16 \<le> length plain" "length plain mod 8 = 0"
    and max: "length plain + 8 \<le> wrapped_max_len" "wrapped_max_len \<le> length wrapped"
  obtains aes where "macsec_mka_aes_kw_wrap ctx kek kek_len plain wrapped wrapped_max_len =
      (MACSEC_ERR_OK, ctx\<lparr>mc_aes_ctx := aes, mc_aes_initialized := True\<rparr>,
       kw_wrap_spec (aes_of_key kek (kek_len * 8)) plain @ drop (length plain + 8) wrapped, length plain + 8)"
    "length (rk_buf aes) = 68"
proof -
  define n where "n = length plain div 8"
  define c0 where "c0 = (if \<not> mc_aes_initialized ctx then math_aes_init else mc_aes_ctx ctx)"
  define aes where "aes = snd (math_aes_setenckey c0 kek (kek_len * 8))"
  have kb: "kek_len * 8 \<in> {128, 192, 256}" using kek by auto
  have rk0: "length (rk_buf c0) = 68" using rk by (simp add: c0_def math_aes_init_def)
  have E: "(\<lambda>b. snd (math_aes_encrypt aes b)) = aes_of_key kek (kek_len * 8)"
    using aes_of_key_any [OF kb rk0] by (simp add: aes_def fun_eq_iff)
  obtain a r where f: "fold (kw_wrap_step (aes_of_key kek (kek_len * 8)) n) (kw_indices n)
      (MACSEC_MKA_AES_KW_IV, chunks8 plain) = (a, r)"
    by (metis surj_pair)
  have n8: "n * 8 = length plain" using len(2) by (auto simp: n_def)
  have st: "kw_state n (MACSEC_MKA_AES_KW_IV, chunks8 plain)"
    by (auto simp: kw_state_def n_def length_chunks8 chunks8_length)
  have load: "fold (\<lambda>i w. kw_store w (8 + i * 8) (take 8 (drop (i * 8) plain))) [0..<n] wrapped =
      take 8 wrapped @ concat (chunks8 plain) @ drop (8 + length plain) wrapped"
    using kw_store_all [of n plain 8 wrapped] n8 len max by (simp add: concat_chunks8)
  have loop: "kw_wrap_loop aes n (kw_indices n) MACSEC_MKA_AES_KW_IV
      (take 8 wrapped @ concat (chunks8 plain) @ drop (8 + length plain) wrapped) =
      (0, a, take 8 wrapped @ concat r @ drop (8 + length plain) wrapped)"
    using kw_wrap_loop_eq [OF st kw_indices_bound, where p = "take 8 wrapped" and aes = aes] max len
    by (simp add: E f)
  have la: "length a = 8"
    using block_cipher.unwrap_wrap_fold [OF kek_block_cipher [OF kek, where key = kek] st, of "kw_indices n"] f
    by (simp add: kw_indices_bound kw_state_def)
  have store: "kw_store (take 8 wrapped @ concat r @ drop (8 + length plain) wrapped) 0 a =
      a @ concat r @ drop (length plain + 8) wrapped"
    using la max len by (simp add: kw_store_def add.commute)
  have spec: "kw_wrap_spec (aes_of_key kek (kek_len * 8)) plain = a @ concat r"
    by (simp add: kw_wrap_spec_def Let_def f flip: n_def)
  have set: "math_aes_setenckey c0 kek (kek_len * 8) = (0, aes)"
    using math_aes_setenckey_ok [OF kb] by (simp add: aes_def)
  have ctx: "(if \<not> mc_aes_initialized ctx
       then ctx\<lparr>mc_aes_ctx := math_aes_init, mc_aes_initialized := True\<rparr> else ctx) =
      ctx\<lparr>mc_aes_ctx := c0, mc_aes_initialized := True\<rparr>"
    by (simp add: c0_def)
  show ?thesis
  proof (rule that [of aes])
    show "macsec_mka_aes_kw_wrap ctx kek kek_len plain wrapped wrapped_max_len =
      (MACSEC_ERR_OK, ctx\<lparr>mc_aes_ctx := aes, mc_aes_initialized := True\<rparr>,
       kw_wrap_spec (aes_of_key kek (kek_len * 8)) plain @ drop (length plain + 8) wrapped, length plain + 8)"
      unfolding macsec_mka_aes_kw_wrap_def Let_def n_def [symmetric]
      using kek len max by (simp add: ctx set load loop store spec cong: if_cong)
    show "length (rk_buf aes) = 68"
      using setenckey_ok(3) [of "kek_len * 8" c0 kek] kb rk0 by (auto simp: aes_def)
  qed
qed

lemma aes_kw_unwrap_spec:
  assumes kek: "kek_len = 16 \<or> kek_len = 32" and rk: "length (rk_buf (mc_aes_ctx ctx)) = 68"
    and len: "24 \<le> length wrapped" "length wrapped mod 8 = 0"
    and max: "length wrapped - 8 \<le> plain_max_len" "plain_max_len \<le> length plain"
  obtains aes where "macsec_mka_aes_kw_unwrap ctx kek kek_len wrapped plain plain_max_len =
      (case kw_unwrap_spec (aes_dec_of_key kek (kek_len * 8)) wrapped of
         None \<Rightarrow> (MACSEC_ERR_AUTH, ctx\<lparr>mc_aes_ctx := aes, mc_aes_initialized := True\<rparr>,
                  replicate (length wrapped - 8) 0 @ drop (length wrapped - 8) plain, 0)
       | Some p \<Rightarrow> (MACSEC_ERR_OK, ctx\<lparr>mc_aes_ctx := aes, mc_aes_initialized := True\<rparr>,
                    p @ drop (length wrapped - 8) plain, length wrapped - 8))"
    "length (rk_buf aes) = 68"
proof -
  define n where "n = length wrapped div 8 - 1"
  define c0 where "c0 = (if \<not> mc_aes_initialized ctx then math_aes_init else mc_aes_ctx ctx)"
  define aes where "aes = snd (math_aes_setdeckey c0 kek (kek_len * 8))"
  let ?D = "aes_dec_of_key kek (kek_len * 8)" and ?r0 = "chunks8 (drop 8 wrapped)"
    and ?q = "drop (length wrapped - 8) plain"
  have kb: "kek_len * 8 = 128 \<or> kek_len * 8 = 192 \<or> kek_len * 8 = 256" using kek by auto
  have rk0: "length (rk_buf c0) = 68" using rk by (simp add: c0_def math_aes_init_def)
  have n8: "n * 8 = length wrapped - 8" "8 \<le> length wrapped"
    using len by (auto simp: n_def mod_eq_0_iff_dvd elim!: dvdE)
  obtain a r where f: "fold (kw_unwrap_step ?D n) (rev (kw_indices n)) (take 8 wrapped, ?r0) = (a, r)"
    by (metis surj_pair)
  have st: "kw_state n (take 8 wrapped, ?r0)"
    using n8 by (auto simp: kw_state_def length_chunks8 chunks8_length)
  have idx: "snd ji < n" if "ji \<in> set (rev (kw_indices n))" for ji
    using that by (simp add: kw_indices_bound)
  have "length (drop 8 wrapped) = n * 8" using n8 by simp
  then have m8: "length (drop 8 wrapped) mod 8 = 0" by (simp only: mod_mult_self2_is_0)
  have load: "fold (\<lambda>i w. kw_store w (i * 8) (take 8 (drop (8 + i * 8) wrapped))) [0..<n] plain =
      concat ?r0 @ ?q"
    using kw_store_all [of n "drop 8 wrapped" 0 plain] n8 max by (simp add: concat_chunks8 [OF m8] add.commute [of 8])
  have D: "fold (kw_unwrap_step (\<lambda>b. snd (math_aes_decrypt aes b)) n) (rev (kw_indices n)) (take 8 wrapped, ?r0) = (a, r)"
    using aes_dec_of_key_any [OF kek rk0] f
    by (subst kw_unwrap_fold_cong [OF _ _ st idx, of _ ?D]) (simp_all add: aes_def)
  have loop: "kw_unwrap_loop aes n (rev (kw_indices n)) (take 8 wrapped) (concat ?r0 @ ?q) = (0, a, concat r @ ?q)"
    using kw_unwrap_loop_eq [OF st idx, where q = ?q and aes = aes and jis = "rev (kw_indices n)"] by (simp add: D)
  have "kw_state n (a, r)"
    using block_cipher.wrap_unwrap_fold [OF kek_block_cipher [OF kek, where key = kek] st idx, of "rev (kw_indices n)"] f by simp
  then have la: "length a = 8" "length (concat r) = length wrapped - 8"
    using n8 by (auto simp: kw_state_def length_concat8)
  have spec: "kw_unwrap_spec ?D wrapped = (if a = MACSEC_MKA_AES_KW_IV then Some (concat r) else None)"
    by (simp add: kw_unwrap_spec_def Let_def f del: One_nat_def flip: n_def)
  have cmp: "macsec_compare a MACSEC_MKA_AES_KW_IV 8 = 0 \<longleftrightarrow> a = MACSEC_MKA_AES_KW_IV"
    using la(1) by (simp add: macsec_compare_take)
  have set: "math_aes_setdeckey c0 kek (kek_len * 8) = (0, aes)"
    using setdeckey_nth(1) [OF kb rk0] by (simp add: aes_def prod_eq_iff)
  have ctx: "(if \<not> mc_aes_initialized ctx
       then ctx\<lparr>mc_aes_ctx := math_aes_init, mc_aes_initialized := True\<rparr> else ctx) =
      ctx\<lparr>mc_aes_ctx := c0, mc_aes_initialized := True\<rparr>"
    by (simp add: c0_def)
  show ?thesis
  proof (rule that [of aes])
    show "macsec_mka_aes_kw_unwrap ctx kek kek_len wrapped plain plain_max_len =
      (case kw_unwrap_spec ?D wrapped of
         None \<Rightarrow> (MACSEC_ERR_AUTH, ctx\<lparr>mc_aes_ctx := aes, mc_aes_initialized := True\<rparr>,
                  replicate (length wrapped - 8) 0 @ ?q, 0)
       | Some p \<Rightarrow> (MACSEC_ERR_OK, ctx\<lparr>mc_aes_ctx := aes, mc_aes_initialized := True\<rparr>,
                    p @ ?q, length wrapped - 8))"
      unfolding macsec_mka_aes_kw_unwrap_def Let_def n_def [symmetric]
      using kek len max la n8
      by (simp add: ctx set load loop spec cmp macsec_zeroize_eq cong: if_cong del: One_nat_def)
    show "length (rk_buf aes) = 68"
      using rk0 setdeckey_length by (simp add: aes_def)
  qed
qed

end
