(* ===== verification/MkaCryptoFacts.thy ===== *)
theory MkaCryptoFacts
  imports KeyWrap
begin

text \<open>
  What the operations of \<open>mka_crypto.c\<close> compute: the KDF of IEEE 802.1X (\<open>kdf_spec\<close>), the ICK and
  KEK, the ICV of an MKPDU and the wrapped SAK, and the invariant \<open>mka_crypto_wf\<close> of the context
  that every operation keeps.
\<close>

subsection \<open>Well-formed contexts\<close>

text \<open>
  \<open>mka_crypto_wf\<close>: the arrays of the context have the sizes of their C declarations and a valid
  key has a valid length. Every operation keeps it.
\<close>

definition mka_crypto_wf :: "macsec_mka_crypto_ctx \<Rightarrow> bool" where
  "mka_crypto_wf ctx \<longleftrightarrow>
     length (rk_buf (cmac_aes_ctx (mc_cmac_ctx ctx))) = 68 \<and> length (rk_buf (mc_aes_ctx ctx)) = 68 \<and>
     length (psk_cak (mc_psk ctx)) = 32 \<and> length (psk_ckn (mc_psk ctx)) = 32 \<and>
     length (keys_ick (mc_keys ctx)) = 32 \<and> length (keys_kek (mc_keys ctx)) = 32 \<and>
     (psk_valid (mc_psk ctx) \<longrightarrow> macsec_mka_key_len_valid (unat (psk_cak_len (mc_psk ctx))) \<and>
        0 < psk_ckn_len (mc_psk ctx) \<and> unat (psk_ckn_len (mc_psk ctx)) \<le> 32) \<and>
     (keys_valid (mc_keys ctx) \<longrightarrow> keys_ick_len (mc_keys ctx) = keys_kek_len (mc_keys ctx) \<and>
        macsec_mka_key_len_valid (unat (keys_ick_len (mc_keys ctx))))"

lemma mka_crypto_wf_update:
  "mka_crypto_wf ctx \<Longrightarrow> length (rk_buf aes) = 68 \<Longrightarrow> mka_crypto_wf (ctx\<lparr>mc_aes_ctx := aes, mc_aes_initialized := b\<rparr>)"
  "mka_crypto_wf ctx \<Longrightarrow> length (rk_buf (cmac_aes_ctx c)) = 68 \<Longrightarrow> mka_crypto_wf (ctx\<lparr>mc_cmac_ctx := c\<rparr>)"
  by (auto simp: mka_crypto_wf_def)

lemma mka_crypto_init_wf: "mka_crypto_wf (snd macsec_mka_crypto_init)"
  by (simp add: mka_crypto_wf_def macsec_mka_crypto_init_def mka_psk_zero_def mka_keys_zero_def
      math_aes_init_def math_cmac_init_def)

lemma mka_cmac_spec:
  assumes "key_len = 16 \<or> key_len = 32" "length (rk_buf (cmac_aes_ctx (mc_cmac_ctx ctx))) = 68"
  obtains c where "macsec_mka_cmac ctx key key_len input out =
      (MACSEC_ERR_OK, ctx\<lparr>mc_cmac_ctx := c\<rparr>, cmac_spec (aes_of_key key (key_len * 8)) input)"
    "length (rk_buf (cmac_aes_ctx c)) = 68"
proof -
  have "key_len * 8 \<in> {128, 192, 256}" using assms(1) by auto
  from cmac_aes_spec [OF this assms(2), of key input out] obtain c where
    "math_cmac_aes (mc_cmac_ctx ctx) key (key_len * 8) input out =
       (0, c, cmac_spec (aes_of_key key (key_len * 8)) input)" "length (rk_buf (cmac_aes_ctx c)) = 68" .
  with assms(1) show ?thesis
    by (intro that [of c]) (simp_all add: macsec_mka_cmac_def macsec_mka_key_len_valid_def)
qed

lemma length_cmac_spec: "length (cmac_spec (aes_of_key key keybits) m) = 16"
  by (simp add: cmac_spec_def)

subsection \<open>Key derivation\<close>

text \<open>
  The KDF of IEEE 802.1X-2010, 6.2.1: the first \<open>Length\<close> bits of the concatenated MACs of
  \<open>i | Label | 0x00 | Context | Length\<close> for \<open>i = 1, 2, ...\<close>, the first block numbered \<open>c\<close> here.
\<close>

definition kdf_block :: "(bytes \<Rightarrow> bytes) \<Rightarrow> string \<Rightarrow> bytes \<Rightarrow> u16 \<Rightarrow> nat \<Rightarrow> bytes" where
  "kdf_block E label context bits i =
     cmac_spec E (of_nat i # map of_char label @ [0] @ context @ macsec_wr_be16 bits)"

definition kdf_spec :: "(bytes \<Rightarrow> bytes) \<Rightarrow> string \<Rightarrow> bytes \<Rightarrow> u16 \<Rightarrow> bytes" where
  "kdf_spec E label context bits =
     (let len = (unat bits + 7) div 8
      in take len (concat (map (kdf_block E label context bits) [1..<Suc ((len + 15) div 16)])))"

lemma kdf_loop_spec:
  fixes ctx :: macsec_mka_crypto_ctx and key :: bytes and key_len :: nat
  assumes key: "key_len = 16 \<or> key_len = 32"
    and rk: "length (rk_buf (cmac_aes_ctx (mc_cmac_ctx ctx))) = 68" and "produced \<le> out_len"
    and "length acc = produced" "out_len \<le> length out" "take produced out = acc"
  defines "E \<equiv> aes_of_key key (key_len * 8)"
  shows "\<exists>c. macsec_mka_kdf_loop ctx key key_len (map of_char label) context bits out out_len produced (of_nat i) =
      (MACSEC_ERR_OK, ctx\<lparr>mc_cmac_ctx := c\<rparr>,
       acc @ take (out_len - produced)
         (concat (map (kdf_block E label context bits) [i..<i + (out_len - produced + 15) div 16])) @
       drop out_len out) \<and> length (rk_buf (cmac_aes_ctx c)) = 68"
  using rk assms(3-6)
proof (induction "out_len - produced" arbitrary: ctx produced acc out i rule: less_induct)
  case less
  show ?case
  proof (cases "produced < out_len")
    case False
    with less.prems have "produced = out_len" by simp
    moreover have "ctx\<lparr>mc_cmac_ctx := mc_cmac_ctx ctx\<rparr> = ctx" by simp
    moreover have "out = acc @ drop out_len out"
      using less.prems \<open>produced = out_len\<close> by (metis append_take_drop_id)
    ultimately show ?thesis using less.prems(1)
      by (intro exI [of _ "mc_cmac_ctx ctx"]) (simp add: macsec_mka_kdf_loop.simps)
  next
    case True
    define m where "m = kdf_block E label context bits i"
    define n where "n = (if out_len - produced > 16 then 16 else out_len - produced)"
    define out' where "out' = take produced out @ take n m @ drop (produced + n) out"
    have n: "0 < n" "n \<le> 16" "produced + n \<le> out_len" using True by (auto simp: n_def)
    have lm: "length m = 16" by (simp add: m_def kdf_block_def E_def length_cmac_spec)
    obtain c where c: "macsec_mka_cmac ctx key key_len
        (of_nat i # map of_char label @ [0] @ context @ macsec_wr_be16 bits) (replicate 16 0) =
        (MACSEC_ERR_OK, ctx\<lparr>mc_cmac_ctx := c\<rparr>, m)" "length (rk_buf (cmac_aes_ctx c)) = 68"
      using mka_cmac_spec [OF key less.prems(1)] unfolding m_def kdf_block_def E_def by metis
    have step: "macsec_mka_kdf_loop ctx key key_len (map of_char label) context bits out out_len produced (of_nat i) =
        macsec_mka_kdf_loop (ctx\<lparr>mc_cmac_ctx := c\<rparr>) key key_len (map of_char label) context bits out' out_len
          (produced + n) (of_nat (Suc i))"
      using True c(1)
      by (subst macsec_mka_kdf_loop.simps) (simp add: n_def [symmetric] out'_def add.commute)
    have len': "length out' = length out" and acc': "take (produced + n) out' = acc @ take n m"
      using less.prems n lm by (auto simp: out'_def)
    have "out_len - (produced + n) < out_len - produced" using n by simp
    from less.hyps [OF this, of "ctx\<lparr>mc_cmac_ctx := c\<rparr>" "acc @ take n m" out' "Suc i"]
    obtain c' where c': "macsec_mka_kdf_loop (ctx\<lparr>mc_cmac_ctx := c\<rparr>) key key_len (map of_char label) context bits out' out_len
          (produced + n) (of_nat (Suc i)) = (MACSEC_ERR_OK, ctx\<lparr>mc_cmac_ctx := c'\<rparr>,
       (acc @ take n m) @ take (out_len - (produced + n))
         (concat (map (kdf_block E label context bits) [Suc i..<Suc i + (out_len - (produced + n) + 15) div 16])) @
       drop out_len out')" "length (rk_buf (cmac_aes_ctx c')) = 68"
      using c(2) n less.prems len' acc' lm by (auto simp: min_def)
    have d: "drop out_len out' = drop out_len out"
      using less.prems n lm by (auto simp: out'_def)
    have rest: "take n m @ take (out_len - (produced + n))
         (concat (map (kdf_block E label context bits) [Suc i..<Suc i + (out_len - (produced + n) + 15) div 16])) =
        take (out_len - produced)
         (concat (map (kdf_block E label context bits) [i..<i + (out_len - produced + 15) div 16]))"
    proof -
      have blocks: "(out_len - produced + 15) div 16 = Suc ((out_len - (produced + n) + 15) div 16)"
        using True by (auto simp: n_def)
      have "[i..<i + Suc k] = i # [Suc i..<Suc i + k]" for k
        using upt_conv_Cons [of i "i + Suc k"] by simp
      moreover have "take n m = take (out_len - produced) m" "out_len - (produced + n) = out_len - produced - length m"
        using True lm by (auto simp: n_def)
      ultimately show ?thesis by (simp add: blocks m_def)
    qed
    show ?thesis
      using c'(2) by (intro exI [of _ c']) (simp only: step c'(1) d append_assoc rest [symmetric] simp_thms)
  qed
qed

lemma kdf_code:
  assumes "key_len = 16 \<or> key_len = 32" "length (rk_buf (cmac_aes_ctx (mc_cmac_ctx ctx))) = 68"
    and "length label \<le> 12" "length context \<le> 32" "out_len = (unat bits + 7) div 8" "out_len \<le> length out"
  obtains c where "macsec_mka_kdf ctx key key_len label context bits out out_len =
      (MACSEC_ERR_OK, ctx\<lparr>mc_cmac_ctx := c\<rparr>,
       kdf_spec (aes_of_key key (key_len * 8)) label context bits @ drop out_len out)"
    "length (rk_buf (cmac_aes_ctx c)) = 68"
proof -
  from kdf_loop_spec [OF assms(1,2), of 0 out_len "[]" "macsec_zeroize out out_len" key label "context" bits 1] assms(6)
  obtain c where "macsec_mka_kdf_loop ctx key key_len (map of_char label) context bits
      (macsec_zeroize out out_len) out_len 0 1 =
      (MACSEC_ERR_OK, ctx\<lparr>mc_cmac_ctx := c\<rparr>,
       take out_len (concat (map (kdf_block (aes_of_key key (key_len * 8)) label context bits)
         [1..<Suc ((out_len + 15) div 16)])) @ drop out_len out)"
    "length (rk_buf (cmac_aes_ctx c)) = 68"
    by (auto simp: macsec_zeroize_eq)
  with assms show ?thesis
    by (intro that [of c]) (simp_all add: macsec_mka_kdf_def macsec_mka_key_len_valid_def kdf_spec_def Let_def)
qed

lemma length_kdf_spec:
  "length (kdf_spec (aes_of_key key keybits) label context bits) = (unat bits + 7) div 8"
proof -
  have "length (concat (map (kdf_block (aes_of_key key keybits) label context bits) is)) = 16 * length is" for "is"
    by (induction "is") (simp_all add: kdf_block_def length_cmac_spec)
  then show ?thesis by (simp add: kdf_spec_def Let_def)
qed

text \<open>The key identifier: the first 16 bytes of the CKN, padded with zeros.\<close>

definition mka_keyid :: "bytes \<Rightarrow> bytes" where
  "mka_keyid ckn = take 16 (ckn @ replicate 16 0)"

lemma derive_one_spec:
  assumes wf: "mka_crypto_wf ctx" and psk: "psk_valid (mc_psk ctx)" and len: "out_len = 16 \<or> out_len = 32"
    and lab: "length label \<le> 12" and out: "length out = 32"
  defines "ckn \<equiv> take (unat (psk_ckn_len (mc_psk ctx))) (psk_ckn (mc_psk ctx))"
    and "E \<equiv> aes_of_key (psk_cak (mc_psk ctx)) (unat (psk_cak_len (mc_psk ctx)) * 8)"
  obtains c where "macsec_mka_derive_one ctx label out out_len =
      (MACSEC_ERR_OK, ctx\<lparr>mc_cmac_ctx := c\<rparr>,
       kdf_spec E label (mka_keyid ckn) (of_nat out_len * 8) @ drop out_len out)"
    "length (rk_buf (cmac_aes_ctx c)) = 68"
proof -
  have w: "unat (psk_cak_len (mc_psk ctx)) = 16 \<or> unat (psk_cak_len (mc_psk ctx)) = 32"
    "length (rk_buf (cmac_aes_ctx (mc_cmac_ctx ctx))) = 68"
    "length (psk_ckn (mc_psk ctx)) = 32" "unat (psk_ckn_len (mc_psk ctx)) \<le> 32"
    using wf psk by (auto simp: mka_crypto_wf_def macsec_mka_key_len_valid_def)
  let ?n = "if unat (psk_ckn_len (mc_psk ctx)) < 16 then unat (psk_ckn_len (mc_psk ctx)) else 16"
  have keyid: "arr_put (replicate 16 0) (take ?n (psk_ckn (mc_psk ctx))) = mka_keyid ckn"
    using w(3,4) by (auto simp: mka_keyid_def ckn_def arr_put_def min_def)
  have "length (mka_keyid ckn) \<le> 32" "out_len = (unat (of_nat out_len * 8 :: u16) + 7) div 8" "out_len \<le> length out"
    using len out by (auto simp: mka_keyid_def)
  from kdf_code [OF w(1,2) lab this, of "psk_cak (mc_psk ctx)"] obtain c where
    "macsec_mka_kdf ctx (psk_cak (mc_psk ctx)) (unat (psk_cak_len (mc_psk ctx))) label (mka_keyid ckn)
       (of_nat out_len * 8) out out_len =
     (MACSEC_ERR_OK, ctx\<lparr>mc_cmac_ctx := c\<rparr>,
      kdf_spec E label (mka_keyid ckn) (of_nat out_len * 8) @ drop out_len out)"
    "length (rk_buf (cmac_aes_ctx c)) = 68" unfolding E_def .
  with psk len show ?thesis
    by (intro that [of c]) (simp_all add: macsec_mka_derive_one_def Let_def keyid)
qed

lemma derive_ick_kek_spec:
  assumes wf: "mka_crypto_wf ctx" and psk: "psk_valid (mc_psk ctx)"
  defines "ckn \<equiv> take (unat (psk_ckn_len (mc_psk ctx))) (psk_ckn (mc_psk ctx))"
    and "len \<equiv> unat (psk_cak_len (mc_psk ctx))"
  defines "E \<equiv> aes_of_key (psk_cak (mc_psk ctx)) (len * 8)"
  obtains c where "macsec_mka_crypto_derive_ick_kek ctx =
      (MACSEC_ERR_OK, ctx\<lparr>mc_cmac_ctx := c, mc_keys :=
         \<lparr>keys_ick = kdf_spec E ''IEEE8021 ICK'' (mka_keyid ckn) (of_nat len * 8) @ replicate (32 - len) 0,
          keys_ick_len = psk_cak_len (mc_psk ctx),
          keys_kek = kdf_spec E ''IEEE8021 KEK'' (mka_keyid ckn) (of_nat len * 8) @ replicate (32 - len) 0,
          keys_kek_len = psk_cak_len (mc_psk ctx), keys_valid = True\<rparr>\<rparr>)"
    "length (rk_buf (cmac_aes_ctx c)) = 68" "len = 16 \<or> len = 32"
proof -
  have len: "len = 16 \<or> len = 32"
    using wf psk by (auto simp: mka_crypto_wf_def macsec_mka_key_len_valid_def len_def)
  define k1 where "k1 = ctx\<lparr>mc_keys := mka_keys_zero\<rparr>"
  have z: "length (keys_ick mka_keys_zero) = 32" "length (keys_kek mka_keys_zero) = 32"
    by (simp_all add: mka_keys_zero_def)
  have k1: "mka_crypto_wf k1" "psk_valid (mc_psk k1)"
    using wf psk by (auto simp: k1_def mka_crypto_wf_def mka_keys_zero_def)
  from derive_one_spec [OF k1 len _ z(1), of "''IEEE8021 ICK''"] obtain c where
    c: "macsec_mka_derive_one k1 ''IEEE8021 ICK'' (keys_ick mka_keys_zero) len =
      (MACSEC_ERR_OK, k1\<lparr>mc_cmac_ctx := c\<rparr>,
       kdf_spec E ''IEEE8021 ICK'' (mka_keyid ckn) (of_nat len * 8) @ drop len (keys_ick mka_keys_zero))"
    "length (rk_buf (cmac_aes_ctx c)) = 68"
    by (auto simp: k1_def E_def ckn_def len_def)
  define ick where "ick = kdf_spec E ''IEEE8021 ICK'' (mka_keyid ckn) (of_nat len * 8) @ drop len (keys_ick mka_keys_zero)"
  have lick: "length ick = 32"
    using len by (auto simp: ick_def E_def length_kdf_spec z)
  define k2 where "k2 = k1\<lparr>mc_cmac_ctx := c, mc_keys := mka_keys_zero\<lparr>keys_ick := ick, keys_ick_len := of_nat len\<rparr>\<rparr>"
  have k2: "mka_crypto_wf k2" "psk_valid (mc_psk k2)"
    using k1 c(2) lick by (auto simp: k2_def k1_def mka_crypto_wf_def mka_keys_zero_def)
  from derive_one_spec [OF k2 len _ z(2), of "''IEEE8021 KEK''"] obtain d where
    d: "macsec_mka_derive_one k2 ''IEEE8021 KEK'' (keys_kek mka_keys_zero) len =
      (MACSEC_ERR_OK, k2\<lparr>mc_cmac_ctx := d\<rparr>,
       kdf_spec E ''IEEE8021 KEK'' (mka_keyid ckn) (of_nat len * 8) @ drop len (keys_kek mka_keys_zero))"
    "length (rk_buf (cmac_aes_ctx d)) = 68"
    by (auto simp: k2_def k1_def E_def ckn_def len_def)
  have "drop len (keys_kek mka_keys_zero) = replicate (32 - len) 0"
    "ick = kdf_spec E ''IEEE8021 ICK'' (mka_keyid ckn) (of_nat len * 8) @ replicate (32 - len) 0"
    by (simp_all add: mka_keys_zero_def ick_def)
  moreover have "of_nat len = psk_cak_len (mc_psk ctx)" by (simp add: len_def)
  ultimately show ?thesis
    using c d psk len
    by (intro that [of d])
       (simp_all add: macsec_mka_crypto_derive_ick_kek_def Let_def k1_def len_def [symmetric] k2_def mka_keys_zero_def)
qed

subsection \<open>The operations keep the invariant\<close>

lemma wf_keys:
  "mka_crypto_wf ctx \<Longrightarrow> macsec_mka_ick_ready ctx \<Longrightarrow> unat (keys_ick_len (mc_keys ctx)) = 16 \<or> unat (keys_ick_len (mc_keys ctx)) = 32"
  "mka_crypto_wf ctx \<Longrightarrow> macsec_mka_kek_ready ctx \<Longrightarrow> unat (keys_kek_len (mc_keys ctx)) = 16 \<or> unat (keys_kek_len (mc_keys ctx)) = 32"
  "mka_crypto_wf ctx \<Longrightarrow> length (rk_buf (cmac_aes_ctx (mc_cmac_ctx ctx))) = 68"
  "mka_crypto_wf ctx \<Longrightarrow> length (rk_buf (mc_aes_ctx ctx)) = 68"
  by (auto simp: macsec_mka_ick_ready_def macsec_mka_kek_ready_def macsec_mka_key_len_valid_def mka_crypto_wf_def)

definition mka_ick_cipher :: "macsec_mka_crypto_ctx \<Rightarrow> bytes \<Rightarrow> bytes" where
  "mka_ick_cipher ctx = aes_of_key (keys_ick (mc_keys ctx)) (unat (keys_ick_len (mc_keys ctx)) * 8)"

definition mka_kek_cipher :: "macsec_mka_crypto_ctx \<Rightarrow> bytes \<Rightarrow> bytes" where
  "mka_kek_cipher ctx = aes_of_key (keys_kek (mc_keys ctx)) (unat (keys_kek_len (mc_keys ctx)) * 8)"

definition mka_kek_decipher :: "macsec_mka_crypto_ctx \<Rightarrow> bytes \<Rightarrow> bytes" where
  "mka_kek_decipher ctx = aes_dec_of_key (keys_kek (mc_keys ctx)) (unat (keys_kek_len (mc_keys ctx)) * 8)"

lemma kek_ready_cipher:
  "mka_crypto_wf ctx \<Longrightarrow> macsec_mka_kek_ready ctx \<Longrightarrow> block_cipher (mka_kek_cipher ctx) (mka_kek_decipher ctx)"
  unfolding mka_kek_cipher_def mka_kek_decipher_def by (rule kek_block_cipher [OF wf_keys(2)])

lemma calc_mic_spec:
  assumes "mka_crypto_wf ctx" "macsec_mka_ick_ready ctx"
  obtains c where "macsec_mka_crypto_calc_mic ctx pdu mic =
      (MACSEC_ERR_OK, ctx\<lparr>mc_cmac_ctx := c\<rparr>, cmac_spec (mka_ick_cipher ctx) pdu)"
    "length (rk_buf (cmac_aes_ctx c)) = 68"
proof -
  from mka_cmac_spec [OF wf_keys(1) [OF assms] wf_keys(3) [OF assms(1)], of "keys_ick (mc_keys ctx)" pdu mic]
  obtain c where "macsec_mka_cmac ctx (keys_ick (mc_keys ctx)) (unat (keys_ick_len (mc_keys ctx))) pdu mic =
      (MACSEC_ERR_OK, ctx\<lparr>mc_cmac_ctx := c\<rparr>, cmac_spec (mka_ick_cipher ctx) pdu)"
    "length (rk_buf (cmac_aes_ctx c)) = 68" unfolding mka_ick_cipher_def .
  with assms that [of c] show ?thesis by (simp add: macsec_mka_crypto_calc_mic_def)
qed

lemma length_ick_cmac [simp]: "length (cmac_spec (mka_ick_cipher ctx) m) = 16"
  by (simp add: mka_ick_cipher_def length_cmac_spec)

lemma verify_mic_spec:
  assumes wf: "mka_crypto_wf ctx" and len: "length mic = 16"
  obtains (not_ready) "\<not> macsec_mka_ick_ready ctx" "macsec_mka_crypto_verify_mic ctx pdu mic = (MACSEC_ERR_STATE, ctx)"
  | (ready) c where "macsec_mka_ick_ready ctx" "length (rk_buf (cmac_aes_ctx c)) = 68"
      "macsec_mka_crypto_verify_mic ctx pdu mic =
         (if mic = cmac_spec (mka_ick_cipher ctx) pdu then MACSEC_ERR_OK else MACSEC_ERR_AUTH,
          ctx\<lparr>mc_cmac_ctx := c\<rparr>)"
proof (cases "macsec_mka_ick_ready ctx")
  case True
  from calc_mic_spec [OF wf True, of pdu "replicate 16 0"] obtain c where
    c: "macsec_mka_crypto_calc_mic ctx pdu (replicate 16 0) =
      (MACSEC_ERR_OK, ctx\<lparr>mc_cmac_ctx := c\<rparr>, cmac_spec (mka_ick_cipher ctx) pdu)"
    "length (rk_buf (cmac_aes_ctx c)) = 68" .
  with len show ?thesis
    by (intro ready [OF True, of c]) (auto simp: macsec_mka_crypto_verify_mic_def macsec_compare_take)
next
  case False
  then show ?thesis
    by (intro not_ready) (simp_all add: macsec_mka_crypto_verify_mic_def macsec_mka_crypto_calc_mic_def)
qed

lemma wrap_sak_spec:
  assumes wf: "mka_crypto_wf ctx" and ready: "macsec_mka_kek_ready ctx"
    and len: "length sak = 16 \<or> length sak = 32"
    and max: "length sak + 8 \<le> max_len" "max_len \<le> length wrapped"
  obtains aes where "macsec_mka_crypto_wrap_sak ctx sak wrapped wrapped_len max_len =
      (MACSEC_ERR_OK, ctx\<lparr>mc_aes_ctx := aes, mc_aes_initialized := True\<rparr>,
       kw_wrap_spec (mka_kek_cipher ctx) sak @ drop (length sak + 8) wrapped, length sak + 8)"
    "length (rk_buf aes) = 68"
proof -
  have l: "16 \<le> length sak" "length sak mod 8 = 0" using len by auto
  from aes_kw_wrap_spec [OF wf_keys(2) [OF wf ready] wf_keys(4) [OF wf] l max, of "keys_kek (mc_keys ctx)"]
  obtain aes where "macsec_mka_aes_kw_wrap ctx (keys_kek (mc_keys ctx)) (unat (keys_kek_len (mc_keys ctx)))
       sak wrapped max_len =
      (MACSEC_ERR_OK, ctx\<lparr>mc_aes_ctx := aes, mc_aes_initialized := True\<rparr>,
       kw_wrap_spec (mka_kek_cipher ctx) sak @ drop (length sak + 8) wrapped, length sak + 8)"
    "length (rk_buf aes) = 68" unfolding mka_kek_cipher_def .
  with that [of aes] ready len show ?thesis by (auto simp: macsec_mka_crypto_wrap_sak_def)
qed

lemma unwrap_sak_spec:
  assumes wf: "mka_crypto_wf ctx" and ready: "macsec_mka_kek_ready ctx"
    and len: "length wrapped = 24 \<or> length wrapped = 40"
    and max: "length wrapped - 8 \<le> length sak"
  obtains aes where "macsec_mka_crypto_unwrap_sak ctx wrapped sak sak_len (length sak) =
      (case kw_unwrap_spec (mka_kek_decipher ctx) wrapped of
         None \<Rightarrow> (MACSEC_ERR_AUTH, ctx\<lparr>mc_aes_ctx := aes, mc_aes_initialized := True\<rparr>,
                  replicate (length sak) 0, 0)
       | Some p \<Rightarrow> (MACSEC_ERR_OK, ctx\<lparr>mc_aes_ctx := aes, mc_aes_initialized := True\<rparr>,
                    p @ drop (length wrapped - 8) sak, length wrapped - 8))"
    "length (rk_buf aes) = 68"
proof -
  have l: "24 \<le> length wrapped" "length wrapped mod 8 = 0" using len by auto
  from aes_kw_unwrap_spec [OF wf_keys(2) [OF wf ready] wf_keys(4) [OF wf] l max order_refl, of "keys_kek (mc_keys ctx)"]
  obtain aes where u: "macsec_mka_aes_kw_unwrap ctx (keys_kek (mc_keys ctx)) (unat (keys_kek_len (mc_keys ctx)))
       wrapped sak (length sak) =
      (case kw_unwrap_spec (mka_kek_decipher ctx) wrapped of
         None \<Rightarrow> (MACSEC_ERR_AUTH, ctx\<lparr>mc_aes_ctx := aes, mc_aes_initialized := True\<rparr>,
                  replicate (length wrapped - 8) 0 @ drop (length wrapped - 8) sak, 0)
       | Some p \<Rightarrow> (MACSEC_ERR_OK, ctx\<lparr>mc_aes_ctx := aes, mc_aes_initialized := True\<rparr>,
                    p @ drop (length wrapped - 8) sak, length wrapped - 8))"
    "length (rk_buf aes) = 68" unfolding mka_kek_decipher_def .
  have "macsec_zeroize (replicate (length wrapped - 8) 0 @ drop (length wrapped - 8) sak) (length sak) =
      replicate (length sak) 0"
    using max by (simp add: macsec_zeroize_eq)
  with u ready len that [of aes] show ?thesis
    by (auto simp: macsec_mka_crypto_unwrap_sak_def split: option.splits)
qed

subsection \<open>A concrete context\<close>

definition sample_mka_crypto :: macsec_mka_crypto_ctx where
  "sample_mka_crypto =
     snd (macsec_mka_crypto_derive_ick_kek
       (snd (macsec_mka_crypto_set_psk (snd macsec_mka_crypto_init) (replicate 16 1) [2, 3, 4])))"

lemma sample_mka_psk:
  defines "c \<equiv> snd (macsec_mka_crypto_set_psk (snd macsec_mka_crypto_init) (replicate 16 1) [2, 3, 4])"
  shows "mka_crypto_wf c" "psk_valid (mc_psk c)" "unat (psk_cak_len (mc_psk c)) = 16" "psk_cak_len (mc_psk c) = 16"
    "psk_ckn_len (mc_psk c) = 3" "take 3 (psk_ckn (mc_psk c)) = [2, 3, 4]"
  using mka_crypto_init_wf
  by (simp_all add: c_def macsec_mka_crypto_set_psk_def macsec_mka_key_len_valid_def mka_crypto_wf_def
      mka_psk_zero_def mka_keys_zero_def word_less_nat_alt arr_put_def)

lemma derive_ick_kek_ready:
  assumes "mka_crypto_wf ctx" "psk_valid (mc_psk ctx)"
  defines "d \<equiv> macsec_mka_crypto_derive_ick_kek ctx"
  shows "fst d = MACSEC_ERR_OK \<and> mka_crypto_wf (snd d) \<and> macsec_mka_ick_ready (snd d) \<and>
    macsec_mka_kek_ready (snd d) \<and> mc_psk (snd d) = mc_psk ctx"
proof (rule derive_ick_kek_spec [OF assms(1,2)], goal_cases)
  case (1 c)
  then have "psk_cak_len (mc_psk ctx) = 16 \<or> psk_cak_len (mc_psk ctx) = 32"
    by (simp add: word_unat_eq_iff)
  with 1 assms(1,2) show ?case
    by (auto simp: d_def mka_crypto_wf_def length_kdf_spec macsec_mka_key_len_valid_def
        macsec_mka_ick_ready_def macsec_mka_kek_ready_def)
qed

lemma sample_mka_ready:
  "mka_crypto_wf sample_mka_crypto" "macsec_mka_ick_ready sample_mka_crypto" "macsec_mka_kek_ready sample_mka_crypto"
  using derive_ick_kek_ready [OF sample_mka_psk(1,2)] by (simp_all add: sample_mka_crypto_def)

subsection \<open>Properties\<close>

lemma wrapped_sak_unwraps:
  assumes wf: "mka_crypto_wf ctx" and ready: "macsec_mka_kek_ready ctx"
    and len: "length sak = 16 \<or> length sak = 32" "length sak + 8 \<le> length wrapped"
  obtains c w where "macsec_mka_crypto_wrap_sak ctx sak wrapped l (length wrapped) = (MACSEC_ERR_OK, c, w, length sak + 8)"
    "mka_crypto_wf c" "mc_keys c = mc_keys ctx" "length w = length wrapped"
    "\<forall>ctx' out l'. mka_crypto_wf ctx' \<and> mc_keys ctx' = mc_keys ctx \<and> length sak \<le> length out \<longrightarrow>
       (\<exists>c'. macsec_mka_crypto_unwrap_sak ctx' (take (length sak + 8) w) out l' (length out) =
           (MACSEC_ERR_OK, c', sak @ drop (length sak) out, length sak))"
proof -
  have bc: "block_cipher (mka_kek_cipher ctx) (mka_kek_decipher ctx)"
    by (rule kek_ready_cipher [OF wf ready])
  define w where "w = kw_wrap_spec (mka_kek_cipher ctx) sak"
  have w: "length w = length sak + 8" "kw_unwrap_spec (mka_kek_decipher ctx) w = Some sak"
    using block_cipher.key_unwrap_wrap [OF bc, of sak] len(1) by (auto simp: w_def)
  have unwrap: "\<exists>c'. macsec_mka_crypto_unwrap_sak ctx' w out l' (length out) =
      (MACSEC_ERR_OK, c', sak @ drop (length sak) out, length sak)"
    if c: "mka_crypto_wf ctx'" "mc_keys ctx' = mc_keys ctx" "length sak \<le> length out" for ctx' out l'
  proof -
    have r: "macsec_mka_kek_ready ctx'" "mka_kek_decipher ctx' = mka_kek_decipher ctx"
      using ready c(2) by (auto simp: macsec_mka_kek_ready_def mka_kek_decipher_def)
    have "length w = 24 \<or> length w = 40" "length w - 8 \<le> length out" using w(1) len(1) c(3) by auto
    from unwrap_sak_spec [OF c(1) r(1) this] w show ?thesis by (auto simp: r(2))
  qed
  from wrap_sak_spec [OF wf ready len order_refl] obtain aes where
    "macsec_mka_crypto_wrap_sak ctx sak wrapped l (length wrapped) =
      (MACSEC_ERR_OK, ctx\<lparr>mc_aes_ctx := aes, mc_aes_initialized := True\<rparr>,
       w @ drop (length sak + 8) wrapped, length sak + 8)" "length (rk_buf aes) = 68" unfolding w_def .
  with that [of _ "w @ drop (length sak + 8) wrapped"] unwrap w(1) len(2) mka_crypto_wf_update(1) [OF wf]
  show ?thesis by simp
qed

text \<open>
  C31. A SAK of 16 or 32 bytes wrapped by one participant and unwrapped by another that
  holds the same KEK comes back unchanged, with its length, and both calls return OK.
\<close>

theorem sak_round_trip:
  assumes "mka_crypto_wf ctx" "macsec_mka_kek_ready ctx" "mka_crypto_wf ctx'"
    and "mc_keys ctx' = mc_keys ctx"
    and "length sak = 16 \<or> length sak = 32" "length sak + 8 \<le> length wrapped" "length sak \<le> length out"
  shows "\<exists>c w c'. macsec_mka_crypto_wrap_sak ctx sak wrapped l (length wrapped) =
           (MACSEC_ERR_OK, c, w, length sak + 8) \<and>
         macsec_mka_crypto_unwrap_sak ctx' (take (length sak + 8) w) out l' (length out) =
           (MACSEC_ERR_OK, c', sak @ drop (length sak) out, length sak)"
  by (rule wrapped_sak_unwraps [OF assms(1,2,5,6)]) (use assms(3,4,7) in blast)

theorem sak_round_trip_witness:
  "\<exists>c w c'. macsec_mka_crypto_wrap_sak sample_mka_crypto (replicate 16 9) (replicate 40 0) 0 (length (replicate 40 0 :: bytes)) =
       (MACSEC_ERR_OK, c, w, length (replicate 16 9 :: bytes) + 8) \<and>
     macsec_mka_crypto_unwrap_sak sample_mka_crypto (take (length (replicate 16 9 :: bytes) + 8) w) (replicate 32 0) 0
         (length (replicate 32 0 :: bytes)) =
       (MACSEC_ERR_OK, c', replicate 16 9 @ drop (length (replicate 16 9 :: bytes)) (replicate 32 0), length (replicate 16 9 :: bytes))"
  by (rule sak_round_trip) (simp_all add: sample_mka_ready)

text \<open>
  C32. A wrapped SAK is accepted only when it is the wrap, under the KEK, of the very
  SAK that is returned, so no other 24 or 40 bytes can deliver a key. A rejected one erases the
  whole output buffer and stores the length 0.
\<close>

theorem sak_unwrap_sound:
  assumes "mka_crypto_wf ctx" "macsec_mka_kek_ready ctx"
    and "length wrapped = 24 \<or> length wrapped = 40" "length wrapped - 8 \<le> length out"
    and "macsec_mka_crypto_unwrap_sak ctx wrapped out l (length out) = (ret, ctx', out', l')"
  shows "if ret = MACSEC_ERR_OK
         then l' = length wrapped - 8 \<and> wrapped = kw_wrap_spec (mka_kek_cipher ctx) (take l' out')
         else ret = MACSEC_ERR_AUTH \<and> out' = replicate (length out) 0 \<and> l' = 0"
proof -
  have bc: "block_cipher (mka_kek_cipher ctx) (mka_kek_decipher ctx)"
    by (rule kek_ready_cipher [OF assms(1,2)])
  have l: "length wrapped mod 8 = 0" "8 \<le> length wrapped" using assms(3) by auto
  from unwrap_sak_spec [OF assms(1-4), of l] obtain aes where
    u: "macsec_mka_crypto_unwrap_sak ctx wrapped out l (length out) =
      (case kw_unwrap_spec (mka_kek_decipher ctx) wrapped of
         None \<Rightarrow> (MACSEC_ERR_AUTH, ctx\<lparr>mc_aes_ctx := aes, mc_aes_initialized := True\<rparr>,
                  replicate (length out) 0, 0)
       | Some p \<Rightarrow> (MACSEC_ERR_OK, ctx\<lparr>mc_aes_ctx := aes, mc_aes_initialized := True\<rparr>,
                    p @ drop (length wrapped - 8) out, length wrapped - 8))" .
  show ?thesis
  proof (cases "kw_unwrap_spec (mka_kek_decipher ctx) wrapped")
    case None
    with u assms(5) show ?thesis by auto
  next
    case (Some p)
    with u assms(5) block_cipher.key_wrap_unwrap [OF bc l Some] show ?thesis by auto
  qed
qed

theorem sak_unwrap_sound_witness:
  "\<exists>ret ctx' out' l'.
     macsec_mka_crypto_unwrap_sak sample_mka_crypto (replicate 24 5) (replicate 32 0) 0 (length (replicate 32 0 :: bytes)) =
       (ret, ctx', out', l') \<and>
     (if ret = MACSEC_ERR_OK
      then l' = length (replicate 24 5 :: bytes) - 8 \<and>
           replicate 24 5 = kw_wrap_spec (mka_kek_cipher sample_mka_crypto) (take l' out')
      else ret = MACSEC_ERR_AUTH \<and> out' = replicate (length (replicate 32 0 :: bytes)) 0 \<and> l' = 0)"
proof -
  obtain ret ctx' out' l' where u: "macsec_mka_crypto_unwrap_sak sample_mka_crypto (replicate 24 5) (replicate 32 0) 0
      (length (replicate 32 0 :: bytes)) = (ret, ctx', out', l')"
    by (metis surj_pair)
  show ?thesis
    by (intro exI conjI, rule u, rule sak_unwrap_sound [OF _ _ _ _ u]) (simp_all add: sample_mka_ready)
qed

text \<open>
  With a derived ICK, \<open>macsec_mka_crypto_verify_mic\<close> returns OK exactly when the
  received ICV is the AES-CMAC of the protected bytes under the ICK and AUTH otherwise; without one
  it returns STATE. The keys of the context are not changed and the invariant holds afterwards.
\<close>

theorem mic_verify_exact:
  assumes "mka_crypto_wf ctx" "length mic = 16"
  shows "\<exists>ctx'. macsec_mka_crypto_verify_mic ctx pdu mic =
     (if \<not> macsec_mka_ick_ready ctx then MACSEC_ERR_STATE
      else if mic = cmac_spec (mka_ick_cipher ctx) pdu then MACSEC_ERR_OK else MACSEC_ERR_AUTH, ctx') \<and>
     mc_keys ctx' = mc_keys ctx \<and> mc_psk ctx' = mc_psk ctx \<and> mka_crypto_wf ctx'"
  using assms
proof (cases rule: verify_mic_spec [where pdu = pdu, case_names not_ready ready])
  case (ready c)
  with assms mka_crypto_wf_update(2) [of ctx c] show ?thesis by auto
qed (use assms in auto)

theorem mic_verify_exact_witness:
  "\<exists>ctx'. macsec_mka_crypto_verify_mic sample_mka_crypto [1, 2, 3] (replicate 16 0) =
     (if \<not> macsec_mka_ick_ready sample_mka_crypto then MACSEC_ERR_STATE
      else if replicate 16 0 = cmac_spec (mka_ick_cipher sample_mka_crypto) [1, 2, 3] then MACSEC_ERR_OK
      else MACSEC_ERR_AUTH, ctx') \<and>
     mc_keys ctx' = mc_keys sample_mka_crypto \<and> mc_psk ctx' = mc_psk sample_mka_crypto \<and> mka_crypto_wf ctx'"
  by (rule mic_verify_exact) (simp_all add: sample_mka_ready)

text \<open>
  C33. With a pre-shared key installed, \<open>macsec_mka_crypto_derive_ick_kek\<close> returns OK
  and the ICK and KEK, both as long as the CAK, are the KDF of IEEE 802.1X under the CAK with the
  labels ``IEEE8021 ICK'' and ``IEEE8021 KEK'' and the key identifier of the CKN; the rest of the two
  arrays is zero.
\<close>

theorem ick_kek_derivation:
  assumes "mka_crypto_wf ctx" "psk_valid (mc_psk ctx)"
  defines "len \<equiv> unat (psk_cak_len (mc_psk ctx))"
  shows "\<exists>ctx'. macsec_mka_crypto_derive_ick_kek ctx = (MACSEC_ERR_OK, ctx') \<and> mka_crypto_wf ctx' \<and>
     mc_psk ctx' = mc_psk ctx \<and>
     (let E = aes_of_key (psk_cak (mc_psk ctx)) (len * 8);
          id = mka_keyid (take (unat (psk_ckn_len (mc_psk ctx))) (psk_ckn (mc_psk ctx)))
      in mc_keys ctx' =
           \<lparr>keys_ick = kdf_spec E ''IEEE8021 ICK'' id (of_nat len * 8) @ replicate (32 - len) 0,
            keys_ick_len = psk_cak_len (mc_psk ctx),
            keys_kek = kdf_spec E ''IEEE8021 KEK'' id (of_nat len * 8) @ replicate (32 - len) 0,
            keys_kek_len = psk_cak_len (mc_psk ctx), keys_valid = True\<rparr>)"
proof -
  from derive_ick_kek_spec [OF assms(1,2), folded len_def] obtain c where
    d: "macsec_mka_crypto_derive_ick_kek ctx = (MACSEC_ERR_OK, ctx\<lparr>mc_cmac_ctx := c, mc_keys :=
       \<lparr>keys_ick = kdf_spec (aes_of_key (psk_cak (mc_psk ctx)) (len * 8)) ''IEEE8021 ICK''
           (mka_keyid (take (unat (psk_ckn_len (mc_psk ctx))) (psk_ckn (mc_psk ctx)))) (of_nat len * 8) @ replicate (32 - len) 0,
        keys_ick_len = psk_cak_len (mc_psk ctx),
        keys_kek = kdf_spec (aes_of_key (psk_cak (mc_psk ctx)) (len * 8)) ''IEEE8021 KEK''
           (mka_keyid (take (unat (psk_ckn_len (mc_psk ctx))) (psk_ckn (mc_psk ctx)))) (of_nat len * 8) @ replicate (32 - len) 0,
        keys_kek_len = psk_cak_len (mc_psk ctx), keys_valid = True\<rparr>\<rparr>)"
    .
  have "mka_crypto_wf (snd (macsec_mka_crypto_derive_ick_kek ctx))"
    using derive_ick_kek_ready [OF assms(1,2)] by simp
  then show ?thesis by (simp add: d)
qed

theorem ick_kek_derivation_witness:
  "let ctx = snd (macsec_mka_crypto_set_psk (snd macsec_mka_crypto_init) (replicate 16 1) [2, 3, 4]) in
   \<exists>ctx'. macsec_mka_crypto_derive_ick_kek ctx = (MACSEC_ERR_OK, ctx') \<and> mka_crypto_wf ctx' \<and>
     keys_valid (mc_keys ctx') \<and> keys_ick_len (mc_keys ctx') = 16 \<and> drop 16 (keys_kek (mc_keys ctx')) = replicate 16 0"
  using ick_kek_derivation [OF sample_mka_psk(1,2)] sample_mka_psk(3,4)
  by (auto simp: Let_def length_kdf_spec)

end
