(* ===== verification/MathSelfTest.thy ===== *)
theory MathSelfTest
  imports MkaCryptoFacts
begin

text \<open>
  The self tests of \<open>math/aes.c\<close>, \<open>math/cmac.c\<close> and \<open>math/gcm.c\<close> with the test vectors of the source.
  Each returns 0 exactly when the cipher, AES-CMAC and GCM of the standards give the vectors:
  decryption, streaming and the state that one test leaves for the next add nothing
  (\<open>math_aes_self_test_iff\<close>, \<open>math_cmac_self_test_iff\<close>, \<open>math_gcm_self_test_iff\<close>). The output of a
  verbose run is left out.
\<close>

subsection \<open>AES\<close>

definition aes_test_ecb_dec :: "bytes list" where
  "aes_test_ecb_dec =
     [[0x9D, 0x1A, 0x35, 0x3C, 0x86, 0x7D, 0x41, 0xFB, 0x5B, 0x55, 0x38, 0x8D, 0x14, 0x9E, 0x84,
      0xFD],
      [0xB7, 0x6A, 0x17, 0x61, 0x47, 0x9E, 0x72, 0x9D, 0xAB, 0x88, 0x2D, 0xDD, 0x91, 0x01, 0x02,
      0x9B],
      [0x9E, 0x69, 0xA6, 0x57, 0xB0, 0x2D, 0x93, 0xD1, 0x20, 0x2F, 0x07, 0xBF, 0xF6, 0x77, 0x8D,
      0xA1]]"

definition aes_test_ecb_enc :: "bytes list" where
  "aes_test_ecb_enc =
     [[0x47, 0x2B, 0x56, 0xF0, 0xBE, 0x7D, 0x8A, 0xE7, 0x72, 0x33, 0x47, 0x84, 0xE5, 0xCE, 0x29,
      0x3E],
      [0x35, 0x8D, 0xAE, 0x57, 0x83, 0x04, 0xC7, 0x71, 0x30, 0xBD, 0x0A, 0xDA, 0x76, 0x75, 0xD5,
      0xCA],
      [0x70, 0xDF, 0xF6, 0xF5, 0x0C, 0x1D, 0xE1, 0xA9, 0x9F, 0x55, 0xF1, 0x8D, 0xC2, 0x3B, 0xDF,
      0xCF]]"

text \<open>
  The body of the loop of \<open>math_aes_self_test\<close> for one key size; the key is all zero. A result other
  than 0 is the jump to the end.
\<close>

definition aes_self_test_size :: "math_aes_context \<Rightarrow> nat \<Rightarrow> nat \<Rightarrow> int \<times> math_aes_context" where
  "aes_self_test_size ctx key_size array_index =
     (let key = replicate 32 0;
          buf = aes_test_ecb_enc ! array_index;
          (ret, ctx) = math_aes_setdeckey ctx key key_size
      in if ret \<noteq> 0 then (ret, ctx)
         else
           let buf = ((\<lambda>buf. snd (math_aes_decrypt ctx buf)) ^^ 10000) buf in
           if macsec_compare buf (aes_test_ecb_dec ! array_index) 16 \<noteq> 0 then (1, ctx)
           else
             let buf = aes_test_ecb_dec ! array_index;
                 (ret, ctx) = math_aes_setenckey ctx key key_size
             in if ret \<noteq> 0 then (ret, ctx)
                else
                  let buf = ((\<lambda>buf. snd (math_aes_encrypt ctx buf)) ^^ 10000) buf in
                  if macsec_compare buf (aes_test_ecb_enc ! array_index) 16 \<noteq> 0 then (1, ctx)
                  else (0, ctx))"

fun aes_self_test_loop :: "(nat \<times> nat) list \<Rightarrow> math_aes_context \<Rightarrow> int \<times> math_aes_context" where
  "aes_self_test_loop [] ctx = (0, ctx)"
| "aes_self_test_loop ((key_size, array_index) # rest) ctx =
     (let (ret, ctx) = aes_self_test_size ctx key_size array_index in
      if ret \<noteq> 0 then (ret, ctx) else aes_self_test_loop rest ctx)"

definition math_aes_self_test :: "int \<times> math_aes_context" where
  "math_aes_self_test =
     (let ctx = math_aes_init;
          (ret, ctx) = aes_self_test_loop [(128, 0), (192, 1), (256, 2)] ctx
      in (ret, math_aes_free ctx))"

subsection \<open>AES-CMAC\<close>

text \<open>The tables are local to \<open>math_cmac_self_test\<close>; the name of a suite is only printed.\<close>

record cmac_test_suite =
  suite_key :: bytes
  suite_keybits :: nat
  suite_expected :: "bytes list"

definition cmac_test_msg :: bytes where
  "cmac_test_msg =
     [0x6B, 0xC1, 0xBE, 0xE2, 0x2E, 0x40, 0x9F, 0x96, 0xE9, 0x3D, 0x7E, 0x11, 0x73, 0x93, 0x17,
     0x2A, 0xAE, 0x2D, 0x8A, 0x57, 0x1E, 0x03, 0xAC, 0x9C, 0x9E, 0xB7, 0x6F, 0xAC, 0x45, 0xAF,
     0x8E, 0x51, 0x30, 0xC8, 0x1C, 0x46, 0xA3, 0x5C, 0xE4, 0x11, 0xE5, 0xFB, 0xC1, 0x19, 0x1A,
     0x0A, 0x52, 0xEF, 0xF6, 0x9F, 0x24, 0x45, 0xDF, 0x4F, 0x9B, 0x17, 0xAD, 0x2B, 0x41, 0x7B,
     0xE6, 0x6C, 0x37, 0x10]"

definition cmac_test_msg_len :: "nat list" where
  "cmac_test_msg_len = [0, 16, 20, 64]"

definition cmac_key_128 :: bytes where
  "cmac_key_128 =
     [0x2B, 0x7E, 0x15, 0x16, 0x28, 0xAE, 0xD2, 0xA6, 0xAB, 0xF7, 0x15, 0x88, 0x09, 0xCF, 0x4F,
     0x3C]"

definition cmac_expected_128 :: "bytes list" where
  "cmac_expected_128 =
     [[0xBB, 0x1D, 0x69, 0x29, 0xE9, 0x59, 0x37, 0x28, 0x7F, 0xA3, 0x7D, 0x12, 0x9B, 0x75, 0x67,
      0x46],
      [0x07, 0x0A, 0x16, 0xB4, 0x6B, 0x4D, 0x41, 0x44, 0xF7, 0x9B, 0xDD, 0x9D, 0xD0, 0x4A, 0x28,
      0x7C],
      [0x7D, 0x85, 0x44, 0x9E, 0xA6, 0xEA, 0x19, 0xC8, 0x23, 0xA7, 0xBF, 0x78, 0x83, 0x7D, 0xFA,
      0xDE],
      [0x51, 0xF0, 0xBE, 0xBF, 0x7E, 0x3B, 0x9D, 0x92, 0xFC, 0x49, 0x74, 0x17, 0x79, 0x36, 0x3C,
      0xFE]]"

definition cmac_key_192 :: bytes where
  "cmac_key_192 =
     [0x8E, 0x73, 0xB0, 0xF7, 0xDA, 0x0E, 0x64, 0x52, 0xC8, 0x10, 0xF3, 0x2B, 0x80, 0x90, 0x79,
     0xE5, 0x62, 0xF8, 0xEA, 0xD2, 0x52, 0x2C, 0x6B, 0x7B]"

definition cmac_expected_192 :: "bytes list" where
  "cmac_expected_192 =
     [[0xD1, 0x7D, 0xDF, 0x46, 0xAD, 0xAA, 0xCD, 0xE5, 0x31, 0xCA, 0xC4, 0x83, 0xDE, 0x7A, 0x93,
      0x67],
      [0x9E, 0x99, 0xA7, 0xBF, 0x31, 0xE7, 0x10, 0x90, 0x06, 0x62, 0xF6, 0x5E, 0x61, 0x7C, 0x51,
      0x84],
      [0x3D, 0x75, 0xC1, 0x94, 0xED, 0x96, 0x07, 0x04, 0x44, 0xA9, 0xFA, 0x7E, 0xC7, 0x40, 0xEC,
      0xF8],
      [0xA1, 0xD5, 0xDF, 0x0E, 0xED, 0x79, 0x0F, 0x79, 0x4D, 0x77, 0x58, 0x96, 0x59, 0xF3, 0x9A,
      0x11]]"

definition cmac_key_256 :: bytes where
  "cmac_key_256 =
     [0x60, 0x3D, 0xEB, 0x10, 0x15, 0xCA, 0x71, 0xBE, 0x2B, 0x73, 0xAE, 0xF0, 0x85, 0x7D, 0x77,
     0x81, 0x1F, 0x35, 0x2C, 0x07, 0x3B, 0x61, 0x08, 0xD7, 0x2D, 0x98, 0x10, 0xA3, 0x09, 0x14,
     0xDF, 0xF4]"

definition cmac_expected_256 :: "bytes list" where
  "cmac_expected_256 =
     [[0x02, 0x89, 0x62, 0xF6, 0x1B, 0x7B, 0xF8, 0x9E, 0xFC, 0x6B, 0x55, 0x1F, 0x46, 0x67, 0xD9,
      0x83],
      [0x28, 0xA7, 0x02, 0x3F, 0x45, 0x2E, 0x8F, 0x82, 0xBD, 0x4B, 0xF2, 0x8D, 0x8C, 0x37, 0xC3,
      0x5C],
      [0x15, 0x67, 0x27, 0xDC, 0x08, 0x78, 0x94, 0x4A, 0x02, 0x3C, 0x1F, 0xE0, 0x3B, 0xAD, 0x6D,
      0x93],
      [0xE1, 0x99, 0x21, 0x90, 0x54, 0x9F, 0x6E, 0xD5, 0x69, 0x6A, 0x2C, 0x05, 0x6C, 0x31, 0x54,
      0x10]]"

definition cmac_suites :: "cmac_test_suite list" where
  "cmac_suites =
     [\<lparr>suite_key = cmac_key_128, suite_keybits = 128, suite_expected = cmac_expected_128\<rparr>,
      \<lparr>suite_key = cmac_key_192, suite_keybits = 192, suite_expected = cmac_expected_192\<rparr>,
      \<lparr>suite_key = cmac_key_256, suite_keybits = 256, suite_expected = cmac_expected_256\<rparr>]"

text \<open>The loop of \<open>cmac_run_vector_suite\<close> over the indices \<open>is\<close>; \<open>out\<close> is cleared before each use.\<close>

fun cmac_run_vectors :: "nat list \<Rightarrow> math_cmac_context \<Rightarrow> cmac_test_suite \<Rightarrow> int \<times> math_cmac_context" where
  "cmac_run_vectors [] ctx suite = (0, ctx)"
| "cmac_run_vectors (i # is) ctx suite =
     (let out = replicate 16 0;
          (ret, ctx, out) = math_cmac_aes ctx (suite_key suite) (suite_keybits suite)
                              (take (cmac_test_msg_len ! i) cmac_test_msg) out
      in if ret \<noteq> 0 then (1, ctx)
         else if macsec_compare out (suite_expected suite ! i) 16 \<noteq> 0 then (1, ctx)
         else cmac_run_vectors is ctx suite)"

definition cmac_run_vector_suite :: "math_cmac_context \<Rightarrow> cmac_test_suite \<Rightarrow> int \<times> math_cmac_context" where
  "cmac_run_vector_suite ctx suite = cmac_run_vectors [0, 1, 2, 3] ctx suite"

text \<open>The four calls of \<open>cmac_update\<close> in \<open>cmac_run_streaming_test\<close>, each followed by the jump to the end on an error.\<close>

fun cmac_stream_parts :: "bytes list \<Rightarrow> math_cmac_context \<Rightarrow> int \<times> math_cmac_context" where
  "cmac_stream_parts [] ctx = (0, ctx)"
| "cmac_stream_parts (p # ps) ctx =
     (let (ret, ctx) = cmac_update ctx p in if ret \<noteq> 0 then (ret, ctx) else cmac_stream_parts ps ctx)"

definition cmac_run_streaming_test ::
  "math_cmac_context \<Rightarrow> bytes \<Rightarrow> nat \<Rightarrow> bytes \<Rightarrow> bytes \<Rightarrow> int \<times> math_cmac_context" where
  "cmac_run_streaming_test ctx key keybits msg expected =
     (let (ret, ctx) = cmac_starts ctx key keybits in
      if ret \<noteq> 0 then (1, ctx)
      else
        let (ret, ctx) = cmac_stream_parts
              [take 1 msg, take 15 (drop 1 msg), take 17 (drop 16 msg), take 31 (drop 33 msg)] ctx
        in if ret \<noteq> 0 then (1, ctx)
           else
             let (ret, out) = cmac_finish ctx in
             if ret \<noteq> 0 then (1, ctx)
             else if macsec_compare out expected 16 \<noteq> 0 then (1, ctx)
             else (0, ctx))"

fun cmac_run_suites :: "cmac_test_suite list \<Rightarrow> math_cmac_context \<Rightarrow> int \<times> math_cmac_context" where
  "cmac_run_suites [] ctx = (0, ctx)"
| "cmac_run_suites (suite # suites) ctx =
     (let (ret, ctx) = cmac_run_vector_suite ctx suite in
      if ret \<noteq> 0 then (ret, ctx) else cmac_run_suites suites ctx)"

text \<open>Every failure jumps to the same end, which frees the context and returns 1.\<close>

definition math_cmac_self_test :: "int \<times> math_cmac_context" where
  "math_cmac_self_test =
     (let (ret, ctx) = cmac_run_suites cmac_suites math_cmac_init in
      if ret \<noteq> 0 then (1, math_cmac_free ctx)
      else
        let (ret, ctx) = cmac_run_streaming_test ctx cmac_key_128 128 cmac_test_msg (cmac_expected_128 ! 3) in
        if ret \<noteq> 0 then (1, math_cmac_free ctx)
        else
          let (ret, ctx) = cmac_run_streaming_test ctx cmac_key_256 256 cmac_test_msg (cmac_expected_256 ! 3) in
          if ret \<noteq> 0 then (1, math_cmac_free ctx)
          else
            let (ret, ctx) = cmac_starts ctx cmac_key_128 129 in
            if ret = 0 then (1, math_cmac_free ctx) else (0, math_cmac_free ctx))"

subsection \<open>AES-GCM\<close>

text \<open>
  The vectors of NIST. A row that is given in part is filled with zeros; the rows of zeros that the
  source does not give, and that no test reads, are left out.
\<close>

definition gcm_test_key_index :: "nat list" where
  "gcm_test_key_index = [0, 0, 1, 1, 1, 1]"

definition gcm_test_iv_len :: "nat list" where
  "gcm_test_iv_len = [12, 12, 12, 12, 8, 60]"

definition gcm_test_iv_index :: "nat list" where
  "gcm_test_iv_index = [0, 0, 1, 1, 1, 2]"

definition gcm_test_add_len :: "nat list" where
  "gcm_test_add_len = [0, 0, 0, 20, 20, 20]"

definition gcm_test_add_index :: "nat list" where
  "gcm_test_add_index = [0, 0, 0, 1, 1, 1]"

definition gcm_test_pt_len :: "nat list" where
  "gcm_test_pt_len = [0, 16, 64, 60, 60, 60]"

definition gcm_test_pt_index :: "nat list" where
  "gcm_test_pt_index = [0, 0, 1, 1, 1, 1]"

definition gcm_test_key :: "bytes list" where
  "gcm_test_key =
     [[0x00, 0x00, 0x00, 0x00, 0x00, 0x00, 0x00, 0x00, 0x00, 0x00, 0x00, 0x00, 0x00, 0x00, 0x00,
      0x00, 0x00, 0x00, 0x00, 0x00, 0x00, 0x00, 0x00, 0x00, 0x00, 0x00, 0x00, 0x00, 0x00, 0x00,
      0x00, 0x00],
      [0xFE, 0xFF, 0xE9, 0x92, 0x86, 0x65, 0x73, 0x1C, 0x6D, 0x6A, 0x8F, 0x94, 0x67, 0x30, 0x83,
      0x08, 0xFE, 0xFF, 0xE9, 0x92, 0x86, 0x65, 0x73, 0x1C, 0x6D, 0x6A, 0x8F, 0x94, 0x67, 0x30,
      0x83, 0x08]]"

definition gcm_test_iv :: "bytes list" where
  "gcm_test_iv =
     [[0x00, 0x00, 0x00, 0x00, 0x00, 0x00, 0x00, 0x00, 0x00, 0x00, 0x00, 0x00] @ replicate 52 0,
      [0xCA, 0xFE, 0xBA, 0xBE, 0xFA, 0xCE, 0xDB, 0xAD, 0xDE, 0xCA, 0xF8, 0x88] @ replicate 52 0,
      [0x93, 0x13, 0x22, 0x5D, 0xF8, 0x84, 0x06, 0xE5, 0x55, 0x90, 0x9C, 0x5A, 0xFF, 0x52, 0x69,
      0xAA, 0x6A, 0x7A, 0x95, 0x38, 0x53, 0x4F, 0x7D, 0xA1, 0xE4, 0xC3, 0x03, 0xD2, 0xA3, 0x18,
      0xA7, 0x28, 0xC3, 0xC0, 0xC9, 0x51, 0x56, 0x80, 0x95, 0x39, 0xFC, 0xF0, 0xE2, 0x42, 0x9A,
      0x6B, 0x52, 0x54, 0x16, 0xAE, 0xDB, 0xF5, 0xA0, 0xDE, 0x6A, 0x57, 0xA6, 0x37, 0xB3, 0x9B] @
      replicate 4 0]"

definition gcm_test_additional :: "bytes list" where
  "gcm_test_additional =
     [[0x00] @ replicate 63 0,
      [0xFE, 0xED, 0xFA, 0xCE, 0xDE, 0xAD, 0xBE, 0xEF, 0xFE, 0xED, 0xFA, 0xCE, 0xDE, 0xAD, 0xBE,
      0xEF, 0xAB, 0xAD, 0xDA, 0xD2] @ replicate 44 0]"

definition gcm_test_pt :: "bytes list" where
  "gcm_test_pt =
     [[0x00, 0x00, 0x00, 0x00, 0x00, 0x00, 0x00, 0x00, 0x00, 0x00, 0x00, 0x00, 0x00, 0x00, 0x00,
      0x00] @ replicate 48 0,
      [0xD9, 0x31, 0x32, 0x25, 0xF8, 0x84, 0x06, 0xE5, 0xA5, 0x59, 0x09, 0xC5, 0xAF, 0xF5, 0x26,
      0x9A, 0x86, 0xA7, 0xA9, 0x53, 0x15, 0x34, 0xF7, 0xDA, 0x2E, 0x4C, 0x30, 0x3D, 0x8A, 0x31,
      0x8A, 0x72, 0x1C, 0x3C, 0x0C, 0x95, 0x95, 0x68, 0x09, 0x53, 0x2F, 0xCF, 0x0E, 0x24, 0x49,
      0xA6, 0xB5, 0x25, 0xB1, 0x6A, 0xED, 0xF5, 0xAA, 0x0D, 0xE6, 0x57, 0xBA, 0x63, 0x7B, 0x39,
      0x1A, 0xAF, 0xD2, 0x55]]"

definition gcm_test_ct :: "bytes list" where
  "gcm_test_ct =
     [[0x00] @ replicate 63 0,
      [0x03, 0x88, 0xDA, 0xCE, 0x60, 0xB6, 0xA3, 0x92, 0xF3, 0x28, 0xC2, 0xB9, 0x71, 0xB2, 0xFE,
      0x78] @ replicate 48 0,
      [0x42, 0x83, 0x1E, 0xC2, 0x21, 0x77, 0x74, 0x24, 0x4B, 0x72, 0x21, 0xB7, 0x84, 0xD0, 0xD4,
      0x9C, 0xE3, 0xAA, 0x21, 0x2F, 0x2C, 0x02, 0xA4, 0xE0, 0x35, 0xC1, 0x7E, 0x23, 0x29, 0xAC,
      0xA1, 0x2E, 0x21, 0xD5, 0x14, 0xB2, 0x54, 0x66, 0x93, 0x1C, 0x7D, 0x8F, 0x6A, 0x5A, 0xAC,
      0x84, 0xAA, 0x05, 0x1B, 0xA3, 0x0B, 0x39, 0x6A, 0x0A, 0xAC, 0x97, 0x3D, 0x58, 0xE0, 0x91,
      0x47, 0x3F, 0x59, 0x85],
      [0x42, 0x83, 0x1E, 0xC2, 0x21, 0x77, 0x74, 0x24, 0x4B, 0x72, 0x21, 0xB7, 0x84, 0xD0, 0xD4,
      0x9C, 0xE3, 0xAA, 0x21, 0x2F, 0x2C, 0x02, 0xA4, 0xE0, 0x35, 0xC1, 0x7E, 0x23, 0x29, 0xAC,
      0xA1, 0x2E, 0x21, 0xD5, 0x14, 0xB2, 0x54, 0x66, 0x93, 0x1C, 0x7D, 0x8F, 0x6A, 0x5A, 0xAC,
      0x84, 0xAA, 0x05, 0x1B, 0xA3, 0x0B, 0x39, 0x6A, 0x0A, 0xAC, 0x97, 0x3D, 0x58, 0xE0, 0x91] @
      replicate 4 0,
      [0x61, 0x35, 0x3B, 0x4C, 0x28, 0x06, 0x93, 0x4A, 0x77, 0x7F, 0xF5, 0x1F, 0xA2, 0x2A, 0x47,
      0x55, 0x69, 0x9B, 0x2A, 0x71, 0x4F, 0xCD, 0xC6, 0xF8, 0x37, 0x66, 0xE5, 0xF9, 0x7B, 0x6C,
      0x74, 0x23, 0x73, 0x80, 0x69, 0x00, 0xE4, 0x9F, 0x24, 0xB2, 0x2B, 0x09, 0x75, 0x44, 0xD4,
      0x89, 0x6B, 0x42, 0x49, 0x89, 0xB5, 0xE1, 0xEB, 0xAC, 0x0F, 0x07, 0xC2, 0x3F, 0x45, 0x98] @
      replicate 4 0,
      [0x8C, 0xE2, 0x49, 0x98, 0x62, 0x56, 0x15, 0xB6, 0x03, 0xA0, 0x33, 0xAC, 0xA1, 0x3F, 0xB8,
      0x94, 0xBE, 0x91, 0x12, 0xA5, 0xC3, 0xA2, 0x11, 0xA8, 0xBA, 0x26, 0x2A, 0x3C, 0xCA, 0x7E,
      0x2C, 0xA7, 0x01, 0xE4, 0xA9, 0xA4, 0xFB, 0xA4, 0x3C, 0x90, 0xCC, 0xDC, 0xB2, 0x81, 0xD4,
      0x8C, 0x7C, 0x6F, 0xD6, 0x28, 0x75, 0xD2, 0xAC, 0xA4, 0x17, 0x03, 0x4C, 0x34, 0xAE, 0xE5] @
      replicate 4 0,
      [0x00] @ replicate 63 0,
      [0x98, 0xE7, 0x24, 0x7C, 0x07, 0xF0, 0xFE, 0x41, 0x1C, 0x26, 0x7E, 0x43, 0x84, 0xB0, 0xF6,
      0x00] @ replicate 48 0,
      [0x39, 0x80, 0xCA, 0x0B, 0x3C, 0x00, 0xE8, 0x41, 0xEB, 0x06, 0xFA, 0xC4, 0x87, 0x2A, 0x27,
      0x57, 0x85, 0x9E, 0x1C, 0xEA, 0xA6, 0xEF, 0xD9, 0x84, 0x62, 0x85, 0x93, 0xB4, 0x0C, 0xA1,
      0xE1, 0x9C, 0x7D, 0x77, 0x3D, 0x00, 0xC1, 0x44, 0xC5, 0x25, 0xAC, 0x61, 0x9D, 0x18, 0xC8,
      0x4A, 0x3F, 0x47, 0x18, 0xE2, 0x44, 0x8B, 0x2F, 0xE3, 0x24, 0xD9, 0xCC, 0xDA, 0x27, 0x10,
      0xAC, 0xAD, 0xE2, 0x56],
      [0x39, 0x80, 0xCA, 0x0B, 0x3C, 0x00, 0xE8, 0x41, 0xEB, 0x06, 0xFA, 0xC4, 0x87, 0x2A, 0x27,
      0x57, 0x85, 0x9E, 0x1C, 0xEA, 0xA6, 0xEF, 0xD9, 0x84, 0x62, 0x85, 0x93, 0xB4, 0x0C, 0xA1,
      0xE1, 0x9C, 0x7D, 0x77, 0x3D, 0x00, 0xC1, 0x44, 0xC5, 0x25, 0xAC, 0x61, 0x9D, 0x18, 0xC8,
      0x4A, 0x3F, 0x47, 0x18, 0xE2, 0x44, 0x8B, 0x2F, 0xE3, 0x24, 0xD9, 0xCC, 0xDA, 0x27, 0x10] @
      replicate 4 0,
      [0x0F, 0x10, 0xF5, 0x99, 0xAE, 0x14, 0xA1, 0x54, 0xED, 0x24, 0xB3, 0x6E, 0x25, 0x32, 0x4D,
      0xB8, 0xC5, 0x66, 0x63, 0x2E, 0xF2, 0xBB, 0xB3, 0x4F, 0x83, 0x47, 0x28, 0x0F, 0xC4, 0x50,
      0x70, 0x57, 0xFD, 0xDC, 0x29, 0xDF, 0x9A, 0x47, 0x1F, 0x75, 0xC6, 0x65, 0x41, 0xD4, 0xD4,
      0xDA, 0xD1, 0xC9, 0xE9, 0x3A, 0x19, 0xA5, 0x8E, 0x8B, 0x47, 0x3F, 0xA0, 0xF0, 0x62, 0xF7] @
      replicate 4 0,
      [0xD2, 0x7E, 0x88, 0x68, 0x1C, 0xE3, 0x24, 0x3C, 0x48, 0x30, 0x16, 0x5A, 0x8F, 0xDC, 0xF9,
      0xFF, 0x1D, 0xE9, 0xA1, 0xD8, 0xE6, 0xB4, 0x47, 0xEF, 0x6E, 0xF7, 0xB7, 0x98, 0x28, 0x66,
      0x6E, 0x45, 0x81, 0xE7, 0x90, 0x12, 0xAF, 0x34, 0xDD, 0xD9, 0xE2, 0xF0, 0x37, 0x58, 0x9B,
      0x29, 0x2D, 0xB3, 0xE6, 0x7C, 0x03, 0x67, 0x45, 0xFA, 0x22, 0xE7, 0xE9, 0xB7, 0x37, 0x3B] @
      replicate 4 0,
      [0x00] @ replicate 63 0,
      [0xCE, 0xA7, 0x40, 0x3D, 0x4D, 0x60, 0x6B, 0x6E, 0x07, 0x4E, 0xC5, 0xD3, 0xBA, 0xF3, 0x9D,
      0x18] @ replicate 48 0,
      [0x52, 0x2D, 0xC1, 0xF0, 0x99, 0x56, 0x7D, 0x07, 0xF4, 0x7F, 0x37, 0xA3, 0x2A, 0x84, 0x42,
      0x7D, 0x64, 0x3A, 0x8C, 0xDC, 0xBF, 0xE5, 0xC0, 0xC9, 0x75, 0x98, 0xA2, 0xBD, 0x25, 0x55,
      0xD1, 0xAA, 0x8C, 0xB0, 0x8E, 0x48, 0x59, 0x0D, 0xBB, 0x3D, 0xA7, 0xB0, 0x8B, 0x10, 0x56,
      0x82, 0x88, 0x38, 0xC5, 0xF6, 0x1E, 0x63, 0x93, 0xBA, 0x7A, 0x0A, 0xBC, 0xC9, 0xF6, 0x62,
      0x89, 0x80, 0x15, 0xAD],
      [0x52, 0x2D, 0xC1, 0xF0, 0x99, 0x56, 0x7D, 0x07, 0xF4, 0x7F, 0x37, 0xA3, 0x2A, 0x84, 0x42,
      0x7D, 0x64, 0x3A, 0x8C, 0xDC, 0xBF, 0xE5, 0xC0, 0xC9, 0x75, 0x98, 0xA2, 0xBD, 0x25, 0x55,
      0xD1, 0xAA, 0x8C, 0xB0, 0x8E, 0x48, 0x59, 0x0D, 0xBB, 0x3D, 0xA7, 0xB0, 0x8B, 0x10, 0x56,
      0x82, 0x88, 0x38, 0xC5, 0xF6, 0x1E, 0x63, 0x93, 0xBA, 0x7A, 0x0A, 0xBC, 0xC9, 0xF6, 0x62] @
      replicate 4 0,
      [0xC3, 0x76, 0x2D, 0xF1, 0xCA, 0x78, 0x7D, 0x32, 0xAE, 0x47, 0xC1, 0x3B, 0xF1, 0x98, 0x44,
      0xCB, 0xAF, 0x1A, 0xE1, 0x4D, 0x0B, 0x97, 0x6A, 0xFA, 0xC5, 0x2F, 0xF7, 0xD7, 0x9B, 0xBA,
      0x9D, 0xE0, 0xFE, 0xB5, 0x82, 0xD3, 0x39, 0x34, 0xA4, 0xF0, 0x95, 0x4C, 0xC2, 0x36, 0x3B,
      0xC7, 0x3F, 0x78, 0x62, 0xAC, 0x43, 0x0E, 0x64, 0xAB, 0xE4, 0x99, 0xF4, 0x7C, 0x9B, 0x1F] @
      replicate 4 0,
      [0x5A, 0x8D, 0xEF, 0x2F, 0x0C, 0x9E, 0x53, 0xF1, 0xF7, 0x5D, 0x78, 0x53, 0x65, 0x9E, 0x2A,
      0x20, 0xEE, 0xB2, 0xB2, 0x2A, 0xAF, 0xDE, 0x64, 0x19, 0xA0, 0x58, 0xAB, 0x4F, 0x6F, 0x74,
      0x6B, 0xF4, 0x0F, 0xC0, 0xC3, 0xB7, 0x80, 0xF2, 0x44, 0x45, 0x2D, 0xA3, 0xEB, 0xF1, 0xC5,
      0xD8, 0x2C, 0xDE, 0xA2, 0x41, 0x89, 0x97, 0x20, 0x0E, 0xF8, 0x2E, 0x44, 0xAE, 0x7E, 0x3F] @
      replicate 4 0]"

definition gcm_test_tag :: "bytes list" where
  "gcm_test_tag =
     [[0x58, 0xE2, 0xFC, 0xCE, 0xFA, 0x7E, 0x30, 0x61, 0x36, 0x7F, 0x1D, 0x57, 0xA4, 0xE7, 0x45,
      0x5A],
      [0xAB, 0x6E, 0x47, 0xD4, 0x2C, 0xEC, 0x13, 0xBD, 0xF5, 0x3A, 0x67, 0xB2, 0x12, 0x57, 0xBD,
      0xDF],
      [0x4D, 0x5C, 0x2A, 0xF3, 0x27, 0xCD, 0x64, 0xA6, 0x2C, 0xF3, 0x5A, 0xBD, 0x2B, 0xA6, 0xFA,
      0xB4],
      [0x5B, 0xC9, 0x4F, 0xBC, 0x32, 0x21, 0xA5, 0xDB, 0x94, 0xFA, 0xE9, 0x5A, 0xE7, 0x12, 0x1A,
      0x47],
      [0x36, 0x12, 0xD2, 0xE7, 0x9E, 0x3B, 0x07, 0x85, 0x56, 0x1B, 0xE1, 0x4A, 0xAC, 0xA2, 0xFC,
      0xCB],
      [0x61, 0x9C, 0xC5, 0xAE, 0xFF, 0xFE, 0x0B, 0xFA, 0x46, 0x2A, 0xF4, 0x3C, 0x16, 0x99, 0xD0,
      0x50],
      [0xCD, 0x33, 0xB2, 0x8A, 0xC7, 0x73, 0xF7, 0x4B, 0xA0, 0x0E, 0xD1, 0xF3, 0x12, 0x57, 0x24,
      0x35],
      [0x2F, 0xF5, 0x8D, 0x80, 0x03, 0x39, 0x27, 0xAB, 0x8E, 0xF4, 0xD4, 0x58, 0x75, 0x14, 0xF0,
      0xFB],
      [0x99, 0x24, 0xA7, 0xC8, 0x58, 0x73, 0x36, 0xBF, 0xB1, 0x18, 0x02, 0x4D, 0xB8, 0x67, 0x4A,
      0x14],
      [0x25, 0x19, 0x49, 0x8E, 0x80, 0xF1, 0x47, 0x8F, 0x37, 0xBA, 0x55, 0xBD, 0x6D, 0x27, 0x61,
      0x8C],
      [0x65, 0xDC, 0xC5, 0x7F, 0xCF, 0x62, 0x3A, 0x24, 0x09, 0x4F, 0xCC, 0xA4, 0x0D, 0x35, 0x33,
      0xF8],
      [0xDC, 0xF5, 0x66, 0xFF, 0x29, 0x1C, 0x25, 0xBB, 0xB8, 0x56, 0x8F, 0xC3, 0xD3, 0x76, 0xA6,
      0xD9],
      [0x53, 0x0F, 0x8A, 0xFB, 0xC7, 0x45, 0x36, 0xB9, 0xA9, 0x63, 0xB4, 0xF1, 0xC4, 0xCB, 0x73,
      0x8B],
      [0xD0, 0xD1, 0xC8, 0xA7, 0x99, 0x99, 0x6B, 0xF0, 0x26, 0x5B, 0x98, 0xB5, 0xD4, 0x8A, 0xB9,
      0x19],
      [0xB0, 0x94, 0xDA, 0xC5, 0xD9, 0x34, 0x71, 0xBD, 0xEC, 0x1A, 0x50, 0x22, 0x70, 0xE3, 0xCC,
      0x6C],
      [0x76, 0xFC, 0x6E, 0xCE, 0x0F, 0x4E, 0x17, 0x68, 0xCD, 0xDF, 0x88, 0x53, 0xBB, 0x2D, 0x55,
      0x1B],
      [0x3A, 0x33, 0x7D, 0xBF, 0x46, 0xA7, 0x92, 0xC4, 0x5E, 0x45, 0x49, 0x13, 0xFE, 0x2E, 0xA8,
      0xF2],
      [0xA4, 0x4A, 0x82, 0x66, 0xEE, 0x1C, 0x8E, 0xB0, 0xC8, 0xB5, 0xD4, 0xCF, 0x5A, 0xE9, 0xF1,
      0x9A]]"

text \<open>
  The body of the two nested loops of \<open>math_gcm_self_test\<close>: the test \<open>i\<close> for the key size with the
  number \<open>array_index\<close>. \<open>buf\<close> is the buffer of the caller; \<open>tag_buf\<close> is a local array that is written
  in full before it is read. A vector that is not reproduced returns 1.
\<close>

definition gcm_self_test_vector ::
  "math_gcm_context \<Rightarrow> bytes \<Rightarrow> nat \<times> nat \<times> nat \<Rightarrow> int \<times> math_gcm_context \<times> bytes" where
  "gcm_self_test_vector ctx buf = (\<lambda>(key_size, array_index, i).
     (let vector_index = array_index * 6 + i;
          key = gcm_test_key ! (gcm_test_key_index ! i);
          iv = take (gcm_test_iv_len ! i) (gcm_test_iv ! (gcm_test_iv_index ! i));
          add = take (gcm_test_add_len ! i) (gcm_test_additional ! (gcm_test_add_index ! i));
          pt_len = gcm_test_pt_len ! i;
          pt = gcm_test_pt ! (gcm_test_pt_index ! i);
          ct = gcm_test_ct ! vector_index;
          tag = gcm_test_tag ! vector_index
      in if pt_len > 256 then (1, ctx, buf)
      else
        let ctx = math_gcm_init;
            tag_buf = replicate 16 0;
            (ret, ctx) = math_gcm_setkey ctx key key_size;
            (ret, ctx, buf, tag_buf) =
              (if ret = 0 then math_gcm_crypt_and_tag False ctx MATH_GCM_ENCRYPT iv add (take pt_len pt) buf 16 tag_buf
               else (ret, ctx, buf, tag_buf))
        in if ret \<noteq> 0 \<or> macsec_compare buf ct pt_len \<noteq> 0 \<or> macsec_compare tag_buf tag 16 \<noteq> 0
           then (1, math_gcm_free ctx, buf)
           else
             let ctx = math_gcm_init;
                 (ret, ctx) = math_gcm_setkey ctx key key_size;
                 (ret, ctx, buf) =
                   (if ret = 0 then math_gcm_auth_decrypt False ctx iv add tag 16 (take pt_len ct) buf
                    else (ret, ctx, buf))
             in if ret \<noteq> 0 \<or> macsec_compare buf pt pt_len \<noteq> 0
                then (1, math_gcm_free ctx, buf)
                else (0, math_gcm_free ctx, buf)))"

fun gcm_self_test_loop ::
  "(nat \<times> nat \<times> nat) list \<Rightarrow> math_gcm_context \<Rightarrow> bytes \<Rightarrow> int \<times> math_gcm_context \<times> bytes" where
  "gcm_self_test_loop [] ctx buf = (0, ctx, buf)"
| "gcm_self_test_loop (test # tests) ctx buf =
     (let (ret, ctx, buf) = gcm_self_test_vector ctx buf test in
      if ret \<noteq> 0 then (ret, ctx, buf) else gcm_self_test_loop tests ctx buf)"

definition gcm_self_tests :: "(nat \<times> nat \<times> nat) list" where
  "gcm_self_tests =
     concat (map (\<lambda>(key_size, array_index). map (\<lambda>i. (key_size, array_index, i)) [0..<6])
              [(128, 0), (192, 1), (256, 2)])"

definition math_gcm_self_test :: "math_gcm_context \<Rightarrow> bytes \<Rightarrow> int \<times> math_gcm_context \<times> bytes" where
  "math_gcm_self_test ctx buf = gcm_self_test_loop gcm_self_tests ctx buf"

subsection \<open>What the self tests test\<close>

context block_cipher begin

lemma length_iterates: "length b = 16 \<Longrightarrow> length ((enc ^^ n) b) = 16" "length b = 16 \<Longrightarrow> length ((dec ^^ n) b) = 16"
  by (cases n, simp_all)+

lemma dec_enc_iterates: "length b = 16 \<Longrightarrow> (dec ^^ n) ((enc ^^ n) b) = b"
proof (induction n)
  case (Suc n)
  have "(dec ^^ Suc n) ((enc ^^ Suc n) b) = (dec ^^ n) (dec (enc ((enc ^^ n) b)))"
    by (simp add: funpow_swap1)
  with Suc show ?case by (simp add: dec_enc length_iterates)
qed simp

lemma enc_dec_iterates: "length b = 16 \<Longrightarrow> (enc ^^ n) ((dec ^^ n) b) = b"
proof (induction n)
  case (Suc n)
  have "(enc ^^ Suc n) ((dec ^^ Suc n) b) = (enc ^^ n) (enc (dec ((dec ^^ n) b)))"
    by (simp add: funpow_swap1)
  with Suc show ?case by (simp add: enc_dec length_iterates)
qed simp

lemma iterates_inverse:
  "length b = 16 \<Longrightarrow> length c = 16 \<Longrightarrow> (dec ^^ n) c = b \<longleftrightarrow> (enc ^^ n) b = c"
  using dec_enc_iterates enc_dec_iterates by metis

end

lemma aes_test_lengths [simp]:
  "i < 3 \<Longrightarrow> length (aes_test_ecb_dec ! i) = 16" "i < 3 \<Longrightarrow> length (aes_test_ecb_enc ! i) = 16"
  by (auto simp: aes_test_ecb_dec_def aes_test_ecb_enc_def less_Suc_eq numeral_3_eq_3)

definition aes_vector_ok :: "nat \<Rightarrow> nat \<Rightarrow> bool" where
  "aes_vector_ok key_size i \<longleftrightarrow>
     (aes_of_key (replicate 32 0) key_size ^^ 10000) (aes_test_ecb_dec ! i) = aes_test_ecb_enc ! i"

lemma aes_self_test_size_iff:
  assumes kb: "key_size \<in> {128, 192, 256}" and len: "length (rk_buf ctx) = 68" and i: "i < 3"
  obtains ctx' where "aes_self_test_size ctx key_size i = (if aes_vector_ok key_size i then 0 else 1, ctx')"
    "length (rk_buf ctx') = 68"
proof -
  let ?key = "replicate 32 0 :: bytes"
  define d where "d = snd (math_aes_setdeckey ctx ?key key_size)"
  define e where "e = snd (math_aes_setenckey d ?key key_size)"
  have kb': "key_size = 128 \<or> key_size = 192 \<or> key_size = 256" using kb by auto
  have d: "math_aes_setdeckey ctx ?key key_size = (0, d)" "length (rk_buf d) = 68"
    using setenckey_ok(1) [OF kb', of math_aes_init ?key] setdeckey_length [of ctx ?key key_size] len
    by (auto simp: d_def math_aes_setdeckey_def Let_def split_beta prod_eq_iff)
  have e: "math_aes_setenckey d ?key key_size = (0, e)" "length (rk_buf e) = 68"
    using math_aes_setenckey_ok [OF kb] setenckey_ok(3) [OF kb', of d ?key] d(2) by (simp_all add: e_def)
  let ?dec = "\<lambda>b. snd (math_aes_decrypt d b)" and ?enc = "\<lambda>b. snd (math_aes_encrypt e b)"
  have enc: "?enc = aes_of_key ?key key_size"
    using aes_of_key_any [OF kb d(2)] by (auto simp: e_def)
  have bc: "block_cipher ?enc ?dec"
    unfolding enc using aes_schedules_inverse [OF kb' len, of _ ?key]
    by unfold_locales (simp_all add: aes_of_key_def d_def)
  have same: "macsec_compare ((?dec ^^ 10000) (aes_test_ecb_enc ! i)) (aes_test_ecb_dec ! i) 16 = 0 \<longleftrightarrow>
      aes_vector_ok key_size i"
    "macsec_compare ((?enc ^^ 10000) (aes_test_ecb_dec ! i)) (aes_test_ecb_enc ! i) 16 = 0 \<longleftrightarrow> aes_vector_ok key_size i"
    using block_cipher.iterates_inverse [OF bc aes_test_lengths [OF i]] block_cipher.length_iterates [OF bc] i
    by (simp_all add: macsec_compare_take enc aes_vector_ok_def)
  show ?thesis
    using that d e same
    by (cases "aes_vector_ok key_size i") (auto simp: aes_self_test_size_def Let_def)
qed

lemma math_aes_self_test_iff:
  "fst math_aes_self_test = 0 \<longleftrightarrow> aes_vector_ok 128 0 \<and> aes_vector_ok 192 1 \<and> aes_vector_ok 256 2"
proof -
  have "length (rk_buf math_aes_init) = 68" by (simp add: math_aes_init_def)
  from aes_self_test_size_iff [OF _ this, of 128 0] obtain c1 where c1:
    "aes_self_test_size math_aes_init 128 0 = (if aes_vector_ok 128 0 then 0 else 1, c1)" "length (rk_buf c1) = 68" by auto
  from aes_self_test_size_iff [OF _ c1(2), of 192 1] obtain c2 where c2:
    "aes_self_test_size c1 192 1 = (if aes_vector_ok 192 1 then 0 else 1, c2)" "length (rk_buf c2) = 68" by auto
  from aes_self_test_size_iff [OF _ c2(2), of 256 2] obtain c3 where c3:
    "aes_self_test_size c2 256 2 = (if aes_vector_ok 256 2 then 0 else 1, c3)" by auto
  show ?thesis by (simp add: math_aes_self_test_def Let_def split_beta c1 c2 c3 del: One_nat_def)
qed

definition cmac_vector_ok :: "cmac_test_suite \<Rightarrow> nat \<Rightarrow> bool" where
  "cmac_vector_ok suite i \<longleftrightarrow>
     cmac_spec (aes_of_key (suite_key suite) (suite_keybits suite)) (take (cmac_test_msg_len ! i) cmac_test_msg) =
       suite_expected suite ! i"

lemma cmac_run_vectors_iff:
  assumes "suite_keybits suite \<in> {128, 192, 256}"
  shows "length (rk_buf (cmac_aes_ctx ctx)) = 68 \<Longrightarrow> (\<forall>i \<in> set is. length (suite_expected suite ! i) = 16) \<Longrightarrow>
    \<exists>ctx'. cmac_run_vectors is ctx suite = (if \<forall>i \<in> set is. cmac_vector_ok suite i then 0 else 1, ctx') \<and>
      length (rk_buf (cmac_aes_ctx ctx')) = 68"
proof (induction "is" arbitrary: ctx)
  case (Cons i "is")
  let ?mac = "cmac_spec (aes_of_key (suite_key suite) (suite_keybits suite)) (take (cmac_test_msg_len ! i) cmac_test_msg)"
  from cmac_aes_spec [OF assms Cons.prems(1)] obtain c where
    c: "math_cmac_aes ctx (suite_key suite) (suite_keybits suite) (take (cmac_test_msg_len ! i) cmac_test_msg)
          (replicate 16 0) = (0, c, ?mac)" "length (rk_buf (cmac_aes_ctx c)) = 68" .
  have mac: "macsec_compare ?mac (suite_expected suite ! i) 16 = 0 \<longleftrightarrow> cmac_vector_ok suite i"
    using Cons.prems(2) by (simp add: macsec_compare_take length_cmac_spec cmac_vector_ok_def)
  show ?case
    using Cons.IH [OF c(2)] Cons.prems(2) c by (auto simp: Let_def mac)
qed simp

lemma cmac_stream_parts_repr:
  "cmac_repr ctx m \<Longrightarrow> \<exists>ctx'. cmac_stream_parts ps ctx = (0, ctx') \<and> cmac_repr ctx' (m @ concat ps) \<and>
     cmac_aes_ctx ctx' = cmac_aes_ctx ctx"
proof (induction ps arbitrary: ctx m)
  case (Cons p ps)
  from cmac_update_repr [OF Cons.prems, of p] obtain c where
    c: "cmac_update ctx p = (0, c)" "cmac_repr c (m @ p)" "cmac_aes_ctx c = cmac_aes_ctx ctx" .
  from Cons.IH [OF c(2)] c(1,3) show ?case by auto
qed simp

lemma cmac_run_streaming_iff:
  assumes "keybits \<in> {128, 192, 256}" "length (rk_buf (cmac_aes_ctx ctx)) = 68" "length expected = 16" "length msg = 64"
  obtains ctx' where "cmac_run_streaming_test ctx key keybits msg expected =
      (if cmac_spec (aes_of_key key keybits) msg = expected then 0 else 1, ctx')" "length (rk_buf (cmac_aes_ctx ctx')) = 68"
proof -
  let ?parts = "[take 1 msg, take 15 (drop 1 msg), take 17 (drop 16 msg), take 31 (drop 33 msg)]"
  have parts: "concat ?parts = msg"
    using assms(4) by (simp add: list_eq_iff_nth_eq nth_append del: One_nat_def)
  from cmac_starts_repr [OF assms(1,2)] obtain c1 where c1: "cmac_starts ctx key keybits = (0, c1)"
    "cmac_repr c1 []" "cmac_cipher c1 = aes_of_key key keybits" "length (rk_buf (cmac_aes_ctx c1)) = 68" .
  from cmac_stream_parts_repr [OF c1(2), of ?parts] obtain c2 where
    c2: "cmac_stream_parts ?parts c1 = (0, c2)" "cmac_repr c2 msg" "cmac_aes_ctx c2 = cmac_aes_ctx c1"
    using parts by auto
  have fin: "cmac_finish c2 = (0, cmac_spec (aes_of_key key keybits) msg)"
    using cmac_finish_repr [OF c2(2)] cmac_cipher_cong [OF c2(3)] c1(3) by simp
  have cmp: "macsec_compare (cmac_spec (aes_of_key key keybits) msg) expected 16 = 0 \<longleftrightarrow>
      cmac_spec (aes_of_key key keybits) msg = expected"
    using assms(3) by (simp add: macsec_compare_take length_cmac_spec)
  have "cmac_run_streaming_test ctx key keybits msg expected =
      (if cmac_spec (aes_of_key key keybits) msg = expected then 0 else 1, c2)"
    unfolding cmac_run_streaming_test_def c1(1) Let_def prod.case c2(1) fin by (simp add: cmp)
  with that c1(4) c2(3) show ?thesis by simp
qed

lemma cmac_test_lengths [simp]:
  "length cmac_test_msg = 64" "i < 4 \<Longrightarrow> length (cmac_expected_128 ! i) = 16"
  "i < 4 \<Longrightarrow> length (cmac_expected_192 ! i) = 16" "i < 4 \<Longrightarrow> length (cmac_expected_256 ! i) = 16"
  by (auto simp: cmac_test_msg_def cmac_expected_128_def cmac_expected_192_def cmac_expected_256_def
      less_Suc_eq numeral_eq_Suc)

lemma cmac_run_suites_iff:
  "length (rk_buf (cmac_aes_ctx ctx)) = 68 \<Longrightarrow>
   (\<forall>suite \<in> set suites. suite_keybits suite \<in> {128, 192, 256} \<and> (\<forall>i < 4. length (suite_expected suite ! i) = 16)) \<Longrightarrow>
   \<exists>ctx'. cmac_run_suites suites ctx = (if \<forall>suite \<in> set suites. \<forall>i < 4. cmac_vector_ok suite i then 0 else 1, ctx') \<and>
     length (rk_buf (cmac_aes_ctx ctx')) = 68"
proof (induction suites arbitrary: ctx)
  case (Cons suite suites)
  have four: "set [0, 1, 2, 3] = {..<4 :: nat}" by auto
  from cmac_run_vectors_iff [of suite ctx "[0, 1, 2, 3]"] Cons.prems obtain c where
    c: "cmac_run_vector_suite ctx suite = (if \<forall>i < 4. cmac_vector_ok suite i then 0 else 1, c)"
       "length (rk_buf (cmac_aes_ctx c)) = 68"
    unfolding cmac_run_vector_suite_def four by auto
  from Cons.IH [OF c(2)] Cons.prems(2) c show ?case by auto
qed simp

lemma math_cmac_self_test_iff:
  "fst math_cmac_self_test = 0 \<longleftrightarrow> (\<forall>suite \<in> set cmac_suites. \<forall>i < 4. cmac_vector_ok suite i)"
proof -
  have ok: "\<forall>suite \<in> set cmac_suites. suite_keybits suite \<in> {128, 192, 256} \<and> (\<forall>i < 4. length (suite_expected suite ! i) = 16)"
    by (simp add: cmac_suites_def)
  have "length (rk_buf (cmac_aes_ctx math_cmac_init)) = 68" by (simp add: math_cmac_init_def math_aes_init_def)
  from cmac_run_suites_iff [OF this ok] obtain c where
    c: "cmac_run_suites cmac_suites math_cmac_init =
          (if \<forall>suite \<in> set cmac_suites. \<forall>i < 4. cmac_vector_ok suite i then 0 else 1, c)"
       "length (rk_buf (cmac_aes_ctx c)) = 68" by auto
  let ?stream = "\<lambda>ctx key kb expected. cmac_run_streaming_test ctx key kb cmac_test_msg expected"
  from cmac_run_streaming_iff [OF _ c(2), of 128 "cmac_expected_128 ! 3" cmac_test_msg cmac_key_128] obtain c1 where
    c1: "?stream c cmac_key_128 128 (cmac_expected_128 ! 3) =
      (if cmac_spec (aes_of_key cmac_key_128 128) cmac_test_msg = cmac_expected_128 ! 3 then 0 else 1, c1)"
      "length (rk_buf (cmac_aes_ctx c1)) = 68" by auto
  from cmac_run_streaming_iff [OF _ c1(2), of 256 "cmac_expected_256 ! 3" cmac_test_msg cmac_key_256] obtain c2 where
    c2: "?stream c1 cmac_key_256 256 (cmac_expected_256 ! 3) =
      (if cmac_spec (aes_of_key cmac_key_256 256) cmac_test_msg = cmac_expected_256 ! 3 then 0 else 1, c2)" by auto
  have last: "cmac_spec (aes_of_key cmac_key_128 128) cmac_test_msg = cmac_expected_128 ! 3"
      "cmac_spec (aes_of_key cmac_key_256 256) cmac_test_msg = cmac_expected_256 ! 3"
    if "\<forall>suite \<in> set cmac_suites. \<forall>i < 4. cmac_vector_ok suite i"
  proof -
    have "cmac_vector_ok suite 3" if "suite \<in> set cmac_suites" for suite
      using \<open>\<forall>suite \<in> set cmac_suites. \<forall>i < 4. cmac_vector_ok suite i\<close> that by simp
    from this [of "cmac_suites ! 0"] this [of "cmac_suites ! 2"]
    show "cmac_spec (aes_of_key cmac_key_128 128) cmac_test_msg = cmac_expected_128 ! 3"
      "cmac_spec (aes_of_key cmac_key_256 256) cmac_test_msg = cmac_expected_256 ! 3"
      by (simp_all add: cmac_suites_def cmac_vector_ok_def cmac_test_msg_len_def)
  qed
  have bad: "cmac_starts c2 cmac_key_128 129 = (-1, c2)" by (simp add: cmac_starts_def)
  show ?thesis
    by (cases "\<forall>suite \<in> set cmac_suites. \<forall>i < 4. cmac_vector_ok suite i")
       (simp_all add: math_cmac_self_test_def c c1 c2 bad last)
qed

text \<open>Test \<open>i\<close> for one key size, as a statement about the specification of the standard.\<close>

definition gcm_vector_ok :: "nat \<times> nat \<times> nat \<Rightarrow> bool" where
  "gcm_vector_ok = (\<lambda>(key_size, array_index, i).
     gcm_encrypt_spec (gcm_test_key ! (gcm_test_key_index ! i)) key_size
         (take (gcm_test_iv_len ! i) (gcm_test_iv ! (gcm_test_iv_index ! i)))
         (take (gcm_test_add_len ! i) (gcm_test_additional ! (gcm_test_add_index ! i)))
         (take (gcm_test_pt_len ! i) (gcm_test_pt ! (gcm_test_pt_index ! i))) =
       (take (gcm_test_pt_len ! i) (gcm_test_ct ! (array_index * 6 + i)), gcm_test_tag ! (array_index * 6 + i)))"

lemma less_6_cases: "(i :: nat) < 6 \<Longrightarrow> i = 0 \<or> i = 1 \<or> i = 2 \<or> i = 3 \<or> i = 4 \<or> i = 5"
  by linarith

lemma gcm_test_plain:
  assumes "i < 6"
  shows "gcm_fits (take (gcm_test_iv_len ! i) (gcm_test_iv ! (gcm_test_iv_index ! i)))
      (take (gcm_test_add_len ! i) (gcm_test_additional ! (gcm_test_add_index ! i)))"
    and "length (gcm_test_pt ! (gcm_test_pt_index ! i)) = 64" "gcm_test_pt_len ! i \<le> 64"
  using less_6_cases [OF assms]
  by (auto simp: gcm_fits_def gcm_test_iv_len_def gcm_test_iv_def gcm_test_iv_index_def gcm_test_add_len_def
      gcm_test_additional_def gcm_test_add_index_def gcm_test_pt_def gcm_test_pt_index_def gcm_test_pt_len_def)

lemma gcm_test_rows: "(\<forall>row \<in> set gcm_test_ct. length row = 64) \<and> length gcm_test_ct = 18"
  "(\<forall>row \<in> set gcm_test_tag. length row = 16) \<and> length gcm_test_tag = 18"
  by (simp_all add: gcm_test_ct_def gcm_test_tag_def)

lemma gcm_self_test_vector_iff:
  assumes kb: "key_size \<in> {128, 192, 256}" and idx: "i < 6" "array_index < 3" and buf: "length buf = 256"
  obtains ctx' buf' where "gcm_self_test_vector ctx buf (key_size, array_index, i) =
      (if gcm_vector_ok (key_size, array_index, i) then 0 else 1, ctx', buf')" "length buf' = 256"
proof -
  define key iv add pt ct tag n where
    "key = gcm_test_key ! (gcm_test_key_index ! i)"
    and "iv = take (gcm_test_iv_len ! i) (gcm_test_iv ! (gcm_test_iv_index ! i))"
    and "add = take (gcm_test_add_len ! i) (gcm_test_additional ! (gcm_test_add_index ! i))"
    and "pt = gcm_test_pt ! (gcm_test_pt_index ! i)" and "ct = gcm_test_ct ! (array_index * 6 + i)"
    and "tag = gcm_test_tag ! (array_index * 6 + i)" and "n = gcm_test_pt_len ! i"
  note defs = this
  have vec: "array_index * 6 + i < 18" using idx by linarith
  have len: "gcm_fits iv add" "length pt = 64" "n \<le> 64" "length ct = 64" "length tag = 16"
    using gcm_test_plain [OF idx(1)] gcm_test_rows vec by (simp_all add: defs)
  define k where "k = snd (math_gcm_setkey math_gcm_init key key_size)"
  have k: "math_gcm_setkey math_gcm_init key key_size = (0, k)" "gcm_keyed k key key_size"
    using setkey_keyed [OF kb, of math_gcm_init key] by (simp_all add: k_def math_gcm_init_def prod_eq_iff)
  obtain c t where spec: "gcm_encrypt_spec key key_size iv add (take n pt) = (c, t)" by fastforce
  note inv = gcm_spec_inverse [OF spec]
  have c: "length c = n" "length t = 16" using inv(1,2) len by simp_all
  have fits: "length (take n pt) \<le> 0xFFFFFFFE0" using len(2,3) by simp
  from gcm_encrypt_code [OF k(2) len(1) fits _ _ _ spec, of 16 "replicate 16 0" buf] obtain e where
    e: "math_gcm_crypt_and_tag False k MATH_GCM_ENCRYPT iv add (take n pt) buf 16 (replicate 16 0) =
          (0, e, arr_put buf c, t)"
    using c by (auto simp: arr_put_def)
  have cmp: "macsec_compare (arr_put buf c) ct n = 0 \<longleftrightarrow> c = take n ct" "macsec_compare t tag 16 = 0 \<longleftrightarrow> t = tag"
    "macsec_compare (arr_put (arr_put buf c) (take n pt)) pt n = 0"
    using c len buf by (simp_all add: macsec_compare_take arr_put_def)
  have ok: "gcm_vector_ok (key_size, array_index, i) \<longleftrightarrow> c = take n ct \<and> t = tag"
    using spec by (simp add: gcm_vector_ok_def defs [symmetric])
  show ?thesis
  proof (cases "c = take n ct \<and> t = tag")
    case True
    then have "gcm_decrypt_spec key key_size iv add (take n ct) tag = Some (take n pt)"
      using inv(3) [of 16] c by simp
    with gcm_decrypt_code [OF k(2) len(1), of "take n ct" "arr_put buf c" tag] len c(1) buf obtain d where
      d: "math_gcm_auth_decrypt False k iv add tag 16 (take n ct) (arr_put buf c) =
            (0, d, arr_put (arr_put buf c) (take n pt))"
      by auto
    have same: "macsec_compare (arr_put buf c) ct n = 0" "macsec_compare t tag 16 = 0" using True cmp by simp_all
    have "gcm_self_test_vector ctx buf (key_size, array_index, i) =
        (0, math_gcm_free d, arr_put (arr_put buf c) (take n pt))"
      using len(3) by (simp add: gcm_self_test_vector_def defs [symmetric] Let_def k(1) e d same cmp(3))
    with that ok True len c(1) buf show ?thesis by simp
  next
    case False
    then have "gcm_self_test_vector ctx buf (key_size, array_index, i) = (1, math_gcm_free e, arr_put buf c)"
      using len(3) by (auto simp: gcm_self_test_vector_def defs [symmetric] Let_def k(1) e cmp)
    with that ok False len c(1) buf show ?thesis by simp
  qed
qed

lemma gcm_self_test_loop_iff:
  "length buf = 256 \<Longrightarrow> (\<forall>(ks, a, i) \<in> set tests. ks \<in> {128, 192, 256} \<and> a < 3 \<and> i < 6) \<Longrightarrow>
   \<exists>ctx' buf'. gcm_self_test_loop tests ctx buf = (if \<forall>test \<in> set tests. gcm_vector_ok test then 0 else 1, ctx', buf')"
proof (induction tests arbitrary: ctx buf)
  case (Cons test tests)
  obtain ks a i where test: "test = (ks, a, i)" by (metis prod_cases3)
  with Cons.prems(2) have "ks \<in> {128, 192, 256}" "i < 6" "a < 3" by auto
  from gcm_self_test_vector_iff [OF this Cons.prems(1), of ctx] obtain c b where
    c: "gcm_self_test_vector ctx buf test = (if gcm_vector_ok test then 0 else 1, c, b)" "length b = 256"
    unfolding test .
  from Cons.IH [OF c(2)] Cons.prems(2) c(1) show ?case by auto
qed simp

lemma math_gcm_self_test_iff:
  assumes "length buf = 256"
  shows "fst (math_gcm_self_test ctx buf) = 0 \<longleftrightarrow> (\<forall>test \<in> set gcm_self_tests. gcm_vector_ok test)"
proof -
  have "\<forall>(ks, a, i) \<in> set gcm_self_tests. ks \<in> {128, 192, 256} \<and> a < 3 \<and> i < 6"
    by (auto simp: gcm_self_tests_def)
  from gcm_self_test_loop_iff [OF assms this, of ctx] obtain c b where
    "gcm_self_test_loop gcm_self_tests ctx buf = (if \<forall>test \<in> set gcm_self_tests. gcm_vector_ok test then 0 else 1, c, b)"
    by blast
  then show ?thesis
    by (cases "\<forall>test \<in> set gcm_self_tests. gcm_vector_ok test") (simp_all only: math_gcm_self_test_def if_True if_False fst_conv, simp_all)
qed

end
