(* ===== verification/SelfTest.thy ===== *)
theory SelfTest
  imports MathSelfTest FrameFacts
begin

text \<open>
  The self tests of \<open>frame_crypto.c\<close> and \<open>mka_crypto.c\<close>: they return 0, with every call inside its
  buffers (\<open>frame_crypto_self_test_passes\<close>, \<open>mka_crypto_self_test_passes\<close>). The output of a verbose run
  is left out.
\<close>

subsection \<open>Frames\<close>

record macsec_frame_crypto_self_test_ctx =
  ft_tx_ctx :: macsec_frame_crypto_ctx
  ft_rx_ctx :: macsec_frame_crypto_ctx
  ft_plain :: bytes
  ft_secure :: bytes
  ft_decrypted :: bytes

definition frame_test_zero :: macsec_frame_crypto_self_test_ctx where
  "frame_test_zero = \<lparr>ft_tx_ctx = frame_ctx_zero, ft_rx_ctx = frame_ctx_zero,
     ft_plain = replicate 1600 0, ft_secure = replicate 1700 0, ft_decrypted = replicate 1600 0\<rparr>"

definition macsec_frame_self_test_fill_packet :: "bytes \<Rightarrow> nat \<Rightarrow> u8 \<Rightarrow> bytes option" where
  "macsec_frame_self_test_fill_packet packet len seed =
     (if \<not> len \<ge> MACSEC_FRAME_ETH_HDR_LEN then None
      else do {
        packet \<leftarrow> buf_put packet 0 [0x02, 0x00, 0x00, 0x00, 0x00, 0x01, 0x02, 0x00, 0x00, 0x00, 0x00, 0x02];
        packet \<leftarrow> buf_put packet 12 (macsec_wr_be16 0x0800);
        buf_put packet 14 (map (\<lambda>i. seed + of_nat i) [14..<len])
      })"

text \<open>
  \<open>macsec_frame_self_test_one\<close> up to its cleanup, after the checks of the length: both contexts are
  set up with the same SCI and SAK, and one frame is protected and recovered.
\<close>

definition frame_test_sci :: bytes where
  "frame_test_sci = [0x02, 0x00, 0x00, 0x00, 0x00, 0x02, 0x00, 0x01]"

definition frame_test_sak :: macsec_frame_sak where
  "frame_test_sak = frame_sak_zero
     \<lparr>fs_key := arr_put (fs_key frame_sak_zero)
        [0x00, 0x11, 0x22, 0x33, 0x44, 0x55, 0x66, 0x77, 0x88, 0x99, 0xAA, 0xBB, 0xCC, 0xDD, 0xEE, 0xFF],
      fs_key_len := 16, fs_an := 0, fs_next_pn := 1, fs_lowest_acceptable_pn := 1, fs_valid := True\<rparr>"

definition frame_test_transfer ::
  "macsec_frame_crypto_self_test_ctx \<Rightarrow> nat \<Rightarrow> u8 \<Rightarrow> (macsec_ret \<times> macsec_frame_crypto_self_test_ctx) option" where
  "frame_test_transfer t plain_len seed = do {
     plain \<leftarrow> macsec_frame_self_test_fill_packet (ft_plain t) plain_len seed;
     let t = t\<lparr>ft_plain := plain\<rparr>;
     data \<leftarrow> buf_at (ft_plain t) 0 plain_len;
     (ret, tx, secure, secure_len) \<leftarrow> macsec_frame_encrypt (ft_tx_ctx t) data (ft_secure t) MACSEC_FRAME_MAX_SECURE_SIZE;
     let t = t\<lparr>ft_tx_ctx := tx, ft_secure := secure\<rparr>;
     (if ret \<noteq> MACSEC_ERR_OK then Some (ret, t)
      else do {
        frame \<leftarrow> buf_at (ft_secure t) 0 secure_len;
        (ret, rx, decrypted, decrypted_len) \<leftarrow>
          macsec_frame_decrypt (ft_rx_ctx t) frame (ft_decrypted t) MACSEC_FRAME_MAX_PLAIN_SIZE;
        let t = t\<lparr>ft_rx_ctx := rx, ft_decrypted := decrypted\<rparr>;
        Some (if ret \<noteq> MACSEC_ERR_OK then (ret, t)
              else if decrypted_len \<noteq> plain_len then (MACSEC_ERR_AUTH, t)
              else if macsec_compare (ft_plain t) (ft_decrypted t) plain_len \<noteq> 0 then (MACSEC_ERR_AUTH, t)
              else (MACSEC_ERR_OK, t))
      })
   }"

definition frame_test_cleanup :: "macsec_frame_crypto_self_test_ctx \<Rightarrow> macsec_frame_crypto_self_test_ctx" where
  "frame_test_cleanup t = t\<lparr>ft_tx_ctx := macsec_frame_crypto_clear (ft_tx_ctx t),
     ft_rx_ctx := macsec_frame_crypto_clear (ft_rx_ctx t)\<rparr>"

definition macsec_frame_self_test_one ::
  "macsec_frame_crypto_self_test_ctx \<Rightarrow> nat \<Rightarrow> u8 \<Rightarrow> (macsec_ret \<times> macsec_frame_crypto_self_test_ctx) option" where
  "macsec_frame_self_test_one t plain_len seed =
     (if \<not> plain_len \<le> MACSEC_FRAME_MAX_PLAIN_SIZE then Some (MACSEC_ERR_BUFFER, t)
      else if \<not> plain_len \<ge> MACSEC_FRAME_ETH_HDR_LEN then Some (MACSEC_ERR_BUFFER, t)
      else
        let (ret, tx) = macsec_frame_crypto_init frame_test_sci in
        if ret \<noteq> MACSEC_ERR_OK then Some (ret, t\<lparr>ft_tx_ctx := tx\<rparr>)
        else
          let (ret, rx) = macsec_frame_crypto_init frame_test_sci in
          if ret \<noteq> MACSEC_ERR_OK
          then Some (ret, t\<lparr>ft_tx_ctx := macsec_frame_crypto_clear tx, ft_rx_ctx := rx\<rparr>)
          else
            let (ret, tx) = macsec_frame_crypto_set_tx_sak (tx\<lparr>fc_replay_protect := False\<rparr>) frame_test_sak;
                rx = rx\<lparr>fc_replay_protect := False\<rparr>
            in if ret \<noteq> MACSEC_ERR_OK
               then Some (ret, frame_test_cleanup (t\<lparr>ft_tx_ctx := tx, ft_rx_ctx := rx\<rparr>))
               else
                 let (ret, rx) = macsec_frame_crypto_set_rx_sak rx frame_test_sak;
                     t = t\<lparr>ft_tx_ctx := tx, ft_rx_ctx := rx\<rparr>
                 in if ret \<noteq> MACSEC_ERR_OK then Some (ret, frame_test_cleanup t)
                    else map_option (\<lambda>(ret, t). (ret, frame_test_cleanup t)) (frame_test_transfer t plain_len seed))"

definition macsec_frame_crypto_self_test :: "(int \<times> macsec_frame_crypto_self_test_ctx) option" where
  "macsec_frame_crypto_self_test = do {
     (ret, t) \<leftarrow> macsec_frame_self_test_one frame_test_zero 60 0x10;
     (if ret \<noteq> MACSEC_ERR_OK then Some (1, t)
      else do {
        (ret, t) \<leftarrow> macsec_frame_self_test_one t 128 0x20;
        (if ret \<noteq> MACSEC_ERR_OK then Some (1, t)
         else do {
           (ret, t) \<leftarrow> macsec_frame_self_test_one t 1514 0x30;
           Some (if ret \<noteq> MACSEC_ERR_OK then (1, t) else (0, frame_test_zero))
         })
      })
   }"

subsection \<open>MKA\<close>

record macsec_mka_crypto_self_test_ctx =
  mt_ctx :: macsec_mka_crypto_ctx
  mt_pdu :: bytes
  mt_mic :: bytes
  mt_mic_check :: bytes
  mt_sak :: bytes
  mt_wrapped :: bytes
  mt_unwrapped :: bytes

text \<open>The contexts that \<open>memset\<close> and the final erasure leave.\<close>

definition mka_crypto_blank :: macsec_mka_crypto_ctx where
  "mka_crypto_blank = macsec_mka_crypto_clear (snd macsec_mka_crypto_init)"

definition mka_test_zero :: macsec_mka_crypto_self_test_ctx where
  "mka_test_zero = \<lparr>mt_ctx = mka_crypto_blank, mt_pdu = replicate 256 0, mt_mic = replicate 16 0,
     mt_mic_check = replicate 16 0, mt_sak = replicate 32 0, mt_wrapped = replicate 40 0, mt_unwrapped = replicate 32 0\<rparr>"

definition mka_test_cak :: bytes where
  "mka_test_cak = [0x00, 0x11, 0x22, 0x33, 0x44, 0x55, 0x66, 0x77, 0x88, 0x99, 0xAA, 0xBB, 0xCC, 0xDD, 0xEE, 0xFF]"

definition mka_test_ckn :: bytes where
  "mka_test_ckn = [0x10, 0x11, 0x12, 0x13, 0x14, 0x15, 0x16, 0x17, 0x18, 0x19, 0x1A, 0x1B, 0x1C, 0x1D, 0x1E, 0x1F]"

definition macsec_mka_selftest_fill :: "bytes \<Rightarrow> nat \<Rightarrow> u8 \<Rightarrow> bytes option" where
  "macsec_mka_selftest_fill buf len seed = buf_put buf 0 (map (\<lambda>i. seed + of_nat (i * 13)) [0..<len])"

text \<open>
  The three parts of \<open>macsec_mka_crypto_self_test\<close>: keys, ICV, and key wrap. Each returns the code
  with which the source jumps to \<open>fail\<close>, or \<open>MACSEC_ERR_OK\<close>.
\<close>

definition mka_test_keys :: "macsec_mka_crypto_self_test_ctx \<Rightarrow> macsec_ret \<times> macsec_mka_crypto_self_test_ctx" where
  "mka_test_keys t =
     (let (ret, ctx) = macsec_mka_crypto_init; t = t\<lparr>mt_ctx := ctx\<rparr> in
      if ret \<noteq> MACSEC_ERR_OK then (ret, t)
      else
        let (ret, ctx) = macsec_mka_crypto_set_psk (mt_ctx t) mka_test_cak mka_test_ckn; t = t\<lparr>mt_ctx := ctx\<rparr> in
        if ret \<noteq> MACSEC_ERR_OK then (ret, t)
        else let (ret, ctx) = macsec_mka_crypto_derive_ick_kek (mt_ctx t) in (ret, t\<lparr>mt_ctx := ctx\<rparr>))"

definition mka_test_mic ::
  "macsec_mka_crypto_self_test_ctx \<Rightarrow> (macsec_ret \<times> macsec_mka_crypto_self_test_ctx) option" where
  "mka_test_mic t = do {
     pdu \<leftarrow> macsec_mka_selftest_fill (mt_pdu t) 96 0x31;
     let t = t\<lparr>mt_pdu := pdu\<rparr>;
     pdu \<leftarrow> buf_at (mt_pdu t) 0 96;
     Some (let (ret, ctx, mic) = macsec_mka_crypto_calc_mic (mt_ctx t) pdu (mt_mic t);
               t = t\<lparr>mt_ctx := ctx, mt_mic := mic\<rparr>
           in if ret \<noteq> MACSEC_ERR_OK then (ret, t)
              else
                let (ret, ctx) = macsec_mka_crypto_verify_mic (mt_ctx t) pdu (mt_mic t); t = t\<lparr>mt_ctx := ctx\<rparr> in
                if ret \<noteq> MACSEC_ERR_OK then (ret, t)
                else
                  let t = t\<lparr>mt_mic_check := (mt_mic t)[0 := mt_mic t ! 0 XOR 0x01]\<rparr>;
                      (ret, ctx) = macsec_mka_crypto_verify_mic (mt_ctx t) pdu (mt_mic_check t);
                      t = t\<lparr>mt_ctx := ctx\<rparr>
                  in if ret \<noteq> MACSEC_ERR_AUTH then (MACSEC_ERR_AUTH, t) else (MACSEC_ERR_OK, t))
   }"

definition mka_test_wrap ::
  "macsec_mka_crypto_self_test_ctx \<Rightarrow> (macsec_ret \<times> macsec_mka_crypto_self_test_ctx) option" where
  "mka_test_wrap t = do {
     sak \<leftarrow> macsec_mka_selftest_fill (mt_sak t) 16 0x80;
     let t = t\<lparr>mt_sak := sak\<rparr>;
     sak \<leftarrow> buf_at (mt_sak t) 0 16;
     let (ret, ctx, wrapped, wrapped_len) = macsec_mka_crypto_wrap_sak (mt_ctx t) sak (mt_wrapped t) 0 40;
     let t = t\<lparr>mt_ctx := ctx, mt_wrapped := wrapped\<rparr>;
     (if ret \<noteq> MACSEC_ERR_OK then Some (ret, t)
      else do {
        data \<leftarrow> buf_at (mt_wrapped t) 0 wrapped_len;
        let (ret, ctx, unwrapped, unwrapped_len) = macsec_mka_crypto_unwrap_sak (mt_ctx t) data (mt_unwrapped t) 0 32;
        let t = t\<lparr>mt_ctx := ctx, mt_unwrapped := unwrapped\<rparr>;
        Some (if ret \<noteq> MACSEC_ERR_OK then (ret, t)
              else if unwrapped_len \<noteq> 16 then (MACSEC_ERR_AUTH, t)
              else if macsec_compare (mt_sak t) (mt_unwrapped t) 16 \<noteq> 0 then (MACSEC_ERR_AUTH, t)
              else (MACSEC_ERR_OK, t))
      })
   }"

text \<open>Both ends of the function erase the whole test context.\<close>

definition macsec_mka_crypto_self_test :: "(int \<times> macsec_mka_crypto_self_test_ctx) option" where
  "macsec_mka_crypto_self_test =
     (let (ret, t) = mka_test_keys mka_test_zero in
      if ret \<noteq> MACSEC_ERR_OK then Some (1, mka_test_zero)
      else do {
        (ret, t) \<leftarrow> mka_test_mic t;
        (if ret \<noteq> MACSEC_ERR_OK then Some (1, mka_test_zero)
         else do {
           (ret, t) \<leftarrow> mka_test_wrap t;
           Some (if ret \<noteq> MACSEC_ERR_OK then 1 else 0, mka_test_zero)
         })
      })"

subsection \<open>The tests pass\<close>

lemma fill_packet:
  assumes "14 \<le> len" "len \<le> length packet"
  obtains p where "macsec_frame_self_test_fill_packet packet len seed = Some (p @ drop len packet)" "length p = len"
proof -
  define h :: bytes where "h = [0x02, 0x00, 0x00, 0x00, 0x00, 0x01, 0x02, 0x00, 0x00, 0x00, 0x00, 0x02]"
  define w where "w = macsec_wr_be16 0x0800"
  define d where "d = map (\<lambda>i. seed + of_nat i) [14..<len]"
  have len: "length h = 12" "length w = 2" "length d = len - 14"
    by (simp_all add: h_def w_def d_def macsec_wr_be16_def)
  have "macsec_frame_self_test_fill_packet packet len seed = Some ((h @ w @ d) @ drop len packet)"
    unfolding macsec_frame_self_test_fill_packet_def h_def [symmetric] w_def [symmetric] d_def [symmetric]
    using assms len by (simp add: buf_put_Some)
  with that [of "h @ w @ d"] len assms show ?thesis by simp
qed

definition frame_test_base :: macsec_frame_crypto_ctx where
  "frame_test_base = (snd (macsec_frame_crypto_init frame_test_sci))\<lparr>fc_replay_protect := False\<rparr>"

definition frame_test_tx :: macsec_frame_crypto_ctx where
  "frame_test_tx = frame_test_base\<lparr>fc_tx_sak := frame_test_sak\<rparr>"

definition frame_test_rx :: macsec_frame_crypto_ctx where
  "frame_test_rx = frame_test_base\<lparr>fc_rx_sak := (fc_rx_sak frame_test_base)[0 := frame_test_sak]\<rparr>"

lemmas frame_test_defs = frame_test_base_def macsec_frame_crypto_init_def frame_ctx_zero_def

lemma frame_test_sak_fields [simp]:
  "fs_valid frame_test_sak" "fs_key_len frame_test_sak = 16" "fs_an frame_test_sak = 0" "fs_next_pn frame_test_sak = 1"
  "\<not> fs_replay_exhausted frame_test_sak" "length (fs_key frame_test_sak) = 32"
  by (simp_all add: frame_test_sak_def frame_sak_zero_def)

lemma frame_test_install:
  "macsec_frame_crypto_set_tx_sak frame_test_base frame_test_sak = (MACSEC_ERR_OK, frame_test_tx)"
  "macsec_frame_crypto_set_rx_sak frame_test_base frame_test_sak = (MACSEC_ERR_OK, frame_test_rx)"
  by (simp_all add: frame_test_tx_def frame_test_rx_def frame_test_sak_def frame_sak_zero_def Let_def
      macsec_frame_crypto_set_tx_sak_def macsec_frame_crypto_set_rx_sak_def macsec_frame_key_len_valid_def)

lemma frame_test_wf: "frame_wf frame_test_tx" "frame_wf frame_test_rx"
  by (simp_all add: frame_wf_def frame_test_tx_def frame_test_rx_def frame_test_defs frame_test_sci_def
      frame_sak_zero_def numeral_eq_Suc)

lemma frame_test_fields [simp]:
  "fc_encrypt frame_test_tx" "fc_tx_sak frame_test_tx = frame_test_sak" "fc_local_sci frame_test_tx = frame_test_sci"
  "fc_rx_sak frame_test_rx ! 0 = frame_test_sak" "\<not> fc_replay_protect frame_test_rx"
  by (simp_all add: frame_test_tx_def frame_test_rx_def frame_test_defs)

lemma frame_test_transfer_ok:
  assumes t: "ft_tx_ctx t = frame_test_tx" "ft_rx_ctx t = frame_test_rx" "length (ft_plain t) = 1600"
      "length (ft_secure t) = 1700" "length (ft_decrypted t) = 1600"
    and len: "14 \<le> n" "n \<le> 1600"
  obtains t' where "frame_test_transfer t n seed = Some (MACSEC_ERR_OK, t')" "length (ft_plain t') = 1600"
      "length (ft_secure t') = 1700" "length (ft_decrypted t') = 1600"
proof -
  from fill_packet [of n "ft_plain t" seed] len t(3) obtain p where
    p: "macsec_frame_self_test_fill_packet (ft_plain t) n seed = Some (p @ drop n (ft_plain t))" "length p = n" by auto
  have key: "macsec_frame_key_len_valid 16" by (simp add: macsec_frame_key_len_valid_def)
  have secure: "1700 \<le> length (ft_secure t)" and plain: "1600 \<le> length (ft_decrypted t)" using t(4,5) by simp_all
  have guard: "frame_tx_guard frame_test_tx p 1700 = None"
    using p(2) len by (simp add: frame_tx_guard_def macsec_frame_crypto_ready_tx_def key)
  obtain tx secure' where
    e: "macsec_frame_encrypt frame_test_tx p (ft_secure t) 1700 = Some (MACSEC_ERR_OK, tx, secure', n + 32)"
       "length secure' = 1700"
    using guard length_frame_seal [of p frame_test_sci frame_test_sak] p(2) len t(4)
    by (cases rule: frame_encrypt_outcome [OF frame_test_wf(1) secure, of p]) (auto simp: frame_test_sci_def)
  have ready: "macsec_frame_crypto_ready_rx frame_test_rx 0"
    by (simp add: macsec_frame_crypto_ready_rx_def key)
  obtain rx out where
    d: "macsec_frame_decrypt frame_test_rx (take (n + 32) secure') (ft_decrypted t) 1600 =
          Some (MACSEC_ERR_OK, rx, out, n)" "take n out = p"
    using frame_round_trip_lemma [OF frame_test_wf secure plain e(1), of "fc_rx_sak frame_test_rx ! 0"] ready p(2) len
    by (auto simp: macsec_frame_replay_check_def)
  have out: "length out = 1600"
    using d(1) t(5) e(2) len
    by (cases rule: frame_decrypt_outcome [OF frame_test_wf(2) plain, of "take (n + 32) secure'"]) auto
  have "frame_test_transfer t n seed = Some (MACSEC_ERR_OK,
      t\<lparr>ft_plain := p @ drop n (ft_plain t), ft_tx_ctx := tx, ft_secure := secure', ft_rx_ctx := rx, ft_decrypted := out\<rparr>)"
    using p t e d len out
    by (simp add: frame_test_transfer_def buf_at_Some macsec_compare_take)
  with that p t e(2) out len show ?thesis by simp
qed

lemma frame_self_test_one_ok:
  assumes "length (ft_plain t) = 1600" "length (ft_secure t) = 1700" "length (ft_decrypted t) = 1600"
    and len: "14 \<le> n" "n \<le> 1600"
  obtains t' where "macsec_frame_self_test_one t n seed = Some (MACSEC_ERR_OK, t')" "length (ft_plain t') = 1600"
      "length (ft_secure t') = 1700" "length (ft_decrypted t') = 1600"
proof -
  obtain c where init: "macsec_frame_crypto_init frame_test_sci = (MACSEC_ERR_OK, c)" "c\<lparr>fc_replay_protect := False\<rparr> = frame_test_base"
    by (simp add: macsec_frame_crypto_init_def frame_test_base_def)
  let ?t = "t\<lparr>ft_tx_ctx := frame_test_tx, ft_rx_ctx := frame_test_rx\<rparr>"
  from frame_test_transfer_ok [of ?t n seed] assms obtain t' where
    t': "frame_test_transfer ?t n seed = Some (MACSEC_ERR_OK, t')" "length (ft_plain t') = 1600"
        "length (ft_secure t') = 1700" "length (ft_decrypted t') = 1600" by auto
  have "macsec_frame_self_test_one t n seed = Some (MACSEC_ERR_OK, frame_test_cleanup t')"
    using len t'(1)
    by (simp add: macsec_frame_self_test_one_def init frame_test_install)
  with that t' show ?thesis by (simp add: frame_test_cleanup_def)
qed

lemma frame_crypto_self_test_passes:
  "macsec_frame_crypto_self_test = Some (0, frame_test_zero)"
proof -
  have "length (ft_plain frame_test_zero) = 1600" "length (ft_secure frame_test_zero) = 1700"
    "length (ft_decrypted frame_test_zero) = 1600" by (simp_all add: frame_test_zero_def)
  from frame_self_test_one_ok [OF this, of 60 "0x10"] obtain t1 where
    t1: "macsec_frame_self_test_one frame_test_zero 60 0x10 = Some (MACSEC_ERR_OK, t1)" "length (ft_plain t1) = 1600"
      "length (ft_secure t1) = 1700" "length (ft_decrypted t1) = 1600" by auto
  from frame_self_test_one_ok [OF t1(2-4), of 128 "0x20"] obtain t2 where
    t2: "macsec_frame_self_test_one t1 128 0x20 = Some (MACSEC_ERR_OK, t2)" "length (ft_plain t2) = 1600"
      "length (ft_secure t2) = 1700" "length (ft_decrypted t2) = 1600" by auto
  from frame_self_test_one_ok [OF t2(2-4), of 1514 "0x30"] obtain t3 where
    "macsec_frame_self_test_one t2 1514 0x30 = Some (MACSEC_ERR_OK, t3)" by auto
  with t1 t2 show ?thesis by (simp add: macsec_frame_crypto_self_test_def)
qed

lemma mka_fill:
  assumes "n \<le> length buf"
  obtains p where "macsec_mka_selftest_fill buf n seed = Some (p @ drop n buf)" "length p = n"
  using assms by (simp add: macsec_mka_selftest_fill_def buf_put_Some)

lemma mka_test_keys_ok:
  obtains ctx where "mka_test_keys t = (MACSEC_ERR_OK, t\<lparr>mt_ctx := ctx\<rparr>)" "mka_crypto_wf ctx" "macsec_mka_ick_ready ctx"
    "macsec_mka_kek_ready ctx"
proof -
  obtain i where i: "macsec_mka_crypto_init = (MACSEC_ERR_OK, i)" "mka_crypto_wf i"
    using mka_crypto_init_wf by (simp add: macsec_mka_crypto_init_def)
  obtain c where c: "macsec_mka_crypto_set_psk i mka_test_cak mka_test_ckn = (MACSEC_ERR_OK, c)" "mka_crypto_wf c"
      "psk_valid (mc_psk c)"
    using i(2) by (simp add: macsec_mka_crypto_set_psk_def macsec_mka_key_len_valid_def mka_crypto_wf_def mka_psk_zero_def
        mka_keys_zero_def mka_test_cak_def mka_test_ckn_def word_less_nat_alt arr_put_def)
  from derive_ick_kek_ready [OF c(2,3)] obtain d where
    "macsec_mka_crypto_derive_ick_kek c = (MACSEC_ERR_OK, d)" "mka_crypto_wf d" "macsec_mka_ick_ready d" "macsec_mka_kek_ready d"
    by (metis prod.collapse)
  note d = this
  have "mka_test_keys t = (MACSEC_ERR_OK, t\<lparr>mt_ctx := d\<rparr>)"
    by (simp add: mka_test_keys_def i(1) c(1) d(1))
  with that d(2-4) show ?thesis by blast
qed

lemma mka_test_mic_ok:
  assumes wf: "mka_crypto_wf (mt_ctx t)" and ready: "macsec_mka_ick_ready (mt_ctx t)" "macsec_mka_kek_ready (mt_ctx t)"
    and len: "length (mt_pdu t) = 256"
  obtains t' where "mka_test_mic t = Some (MACSEC_ERR_OK, t')" "mka_crypto_wf (mt_ctx t')" "macsec_mka_kek_ready (mt_ctx t')"
    "mt_sak t' = mt_sak t" "mt_wrapped t' = mt_wrapped t" "mt_unwrapped t' = mt_unwrapped t"
proof -
  define K where "K = mc_keys (mt_ctx t)"
  from mka_fill [of 96 "mt_pdu t" "0x31"] len obtain p where
    p: "macsec_mka_selftest_fill (mt_pdu t) 96 0x31 = Some (p @ drop 96 (mt_pdu t))" "length p = 96" by auto
  let ?mac = "cmac_spec (mka_ick_cipher (mt_ctx t)) p"
  have mac: "length ?mac = 16" by (simp add: mka_ick_cipher_def length_cmac_spec)
  have upd: "mka_crypto_wf (c\<lparr>mc_cmac_ctx := x\<rparr>)" "macsec_mka_ick_ready (c\<lparr>mc_cmac_ctx := x\<rparr>)"
      "mka_ick_cipher (c\<lparr>mc_cmac_ctx := x\<rparr>) = mka_ick_cipher c"
    if "mka_crypto_wf c" "macsec_mka_ick_ready c" "length (rk_buf (cmac_aes_ctx x)) = 68" for c x
    using that by (simp_all add: mka_crypto_wf_update macsec_mka_ick_ready_def mka_ick_cipher_def)
  have verify: "\<exists>x. macsec_mka_crypto_verify_mic c p m =
      (if m = cmac_spec (mka_ick_cipher c) p then MACSEC_ERR_OK else MACSEC_ERR_AUTH, c\<lparr>mc_cmac_ctx := x\<rparr>) \<and>
      length (rk_buf (cmac_aes_ctx x)) = 68"
    if "mka_crypto_wf c" "macsec_mka_ick_ready c" "length m = 16" for c m
    using that by (cases rule: verify_mic_spec [OF that(1,3), of p, case_names no yes]) auto
  from calc_mic_spec [OF wf ready(1), of p "mt_mic t"] obtain x where
    x: "macsec_mka_crypto_calc_mic (mt_ctx t) p (mt_mic t) = (MACSEC_ERR_OK, (mt_ctx t)\<lparr>mc_cmac_ctx := x\<rparr>, ?mac)"
       "length (rk_buf (cmac_aes_ctx x)) = 68" .
  define c where "c = (mt_ctx t)\<lparr>mc_cmac_ctx := x\<rparr>"
  note c = upd [OF wf ready(1) x(2), folded c_def]
  from verify [OF c(1,2) mac] obtain y where
    y: "macsec_mka_crypto_verify_mic c p ?mac = (MACSEC_ERR_OK, c\<lparr>mc_cmac_ctx := y\<rparr>)" "length (rk_buf (cmac_aes_ctx y)) = 68"
    by (auto simp: c(3))
  define d where "d = c\<lparr>mc_cmac_ctx := y\<rparr>"
  note d = upd [OF c(1,2) y(2), folded d_def]
  let ?bad = "?mac[0 := ?mac ! 0 XOR 1]"
  have "?mac ! 0 XOR 1 \<noteq> ?mac ! 0"
    by (metis xor_left_cancel_word xor_self_eq zero_neq_one)
  then have bad: "?bad \<noteq> ?mac"
    using mac by (metis nth_list_update_eq zero_less_numeral)
  from verify [OF d(1,2), of ?bad] mac bad obtain z where
    z: "macsec_mka_crypto_verify_mic d p ?bad = (MACSEC_ERR_AUTH, d\<lparr>mc_cmac_ctx := z\<rparr>)" "length (rk_buf (cmac_aes_ctx z)) = 68"
    by (auto simp: c(3) d(3))
  note e = upd [OF d(1,2) z(2)]
  have "mka_test_mic t = Some (MACSEC_ERR_OK,
      t\<lparr>mt_pdu := p @ drop 96 (mt_pdu t), mt_ctx := d\<lparr>mc_cmac_ctx := z\<rparr>, mt_mic := ?mac, mt_mic_check := ?bad\<rparr>)"
    using p x(1) y(1) z(1) len
    by (simp add: mka_test_mic_def buf_at_Some c_def [symmetric] d_def [symmetric])
  moreover have "macsec_mka_kek_ready (d\<lparr>mc_cmac_ctx := z\<rparr>)"
    using ready(2) by (simp add: macsec_mka_kek_ready_def d_def c_def)
  ultimately show ?thesis using that e(1) by simp
qed

lemma mka_test_wrap_ok:
  assumes wf: "mka_crypto_wf (mt_ctx t)" and ready: "macsec_mka_kek_ready (mt_ctx t)"
    and len: "length (mt_sak t) = 32" "length (mt_wrapped t) = 40" "length (mt_unwrapped t) = 32"
  obtains t' where "mka_test_wrap t = Some (MACSEC_ERR_OK, t')"
proof -
  from mka_fill [of 16 "mt_sak t" "0x80"] len obtain s where
    s: "macsec_mka_selftest_fill (mt_sak t) 16 0x80 = Some (s @ drop 16 (mt_sak t))" "length s = 16" by auto
  have "length s = 16 \<or> length s = 32" "length s + 8 \<le> length (mt_wrapped t)" using s(2) len by simp_all
  from wrapped_sak_unwraps [OF wf ready this, where l = 0] obtain c w where
    w: "macsec_mka_crypto_wrap_sak (mt_ctx t) s (mt_wrapped t) 0 (length (mt_wrapped t)) = (MACSEC_ERR_OK, c, w, length s + 8)"
      "mka_crypto_wf c" "mc_keys c = mc_keys (mt_ctx t)" "length w = length (mt_wrapped t)"
    and unwraps: "\<forall>ctx' out l'. mka_crypto_wf ctx' \<and> mc_keys ctx' = mc_keys (mt_ctx t) \<and> length s \<le> length out \<longrightarrow>
       (\<exists>c'. macsec_mka_crypto_unwrap_sak ctx' (take (length s + 8) w) out l' (length out) =
           (MACSEC_ERR_OK, c', s @ drop (length s) out, length s))" .
  from unwraps [rule_format, of c "mt_unwrapped t" 0] w(2,3) s(2) len obtain c' where
    u: "macsec_mka_crypto_unwrap_sak c (take 24 w) (mt_unwrapped t) 0 32 = (MACSEC_ERR_OK, c', s @ drop 16 (mt_unwrapped t), 16)"
    by auto
  have "mka_test_wrap t = Some (MACSEC_ERR_OK, t\<lparr>mt_sak := s @ drop 16 (mt_sak t), mt_ctx := c', mt_wrapped := w,
      mt_unwrapped := s @ drop 16 (mt_unwrapped t)\<rparr>)"
    using s len w(1,4) u by (simp add: mka_test_wrap_def buf_at_Some macsec_compare_take)
  with that show ?thesis by blast
qed

lemma mka_crypto_self_test_passes:
  "macsec_mka_crypto_self_test = Some (0, mka_test_zero)"
proof -
  obtain ctx where k: "mka_test_keys mka_test_zero = (MACSEC_ERR_OK, mka_test_zero\<lparr>mt_ctx := ctx\<rparr>)" "mka_crypto_wf ctx"
    "macsec_mka_ick_ready ctx" "macsec_mka_kek_ready ctx" by (rule mka_test_keys_ok)
  let ?t = "mka_test_zero\<lparr>mt_ctx := ctx\<rparr>"
  obtain t where m: "mka_test_mic ?t = Some (MACSEC_ERR_OK, t)" "mka_crypto_wf (mt_ctx t)" "macsec_mka_kek_ready (mt_ctx t)"
    "mt_sak t = mt_sak ?t" "mt_wrapped t = mt_wrapped ?t" "mt_unwrapped t = mt_unwrapped ?t"
    by (rule mka_test_mic_ok [of ?t]) (simp_all add: k, simp add: mka_test_zero_def)
  obtain t' where "mka_test_wrap t = Some (MACSEC_ERR_OK, t')"
    by (rule mka_test_wrap_ok [OF m(2,3)]) (simp_all add: m mka_test_zero_def)
  with k(1) m(1) show ?thesis by (simp add: macsec_mka_crypto_self_test_def)
qed

end
