(* ===== verification/Mka.thy ===== *)
theory Mka
  imports MkaCrypto
begin

text \<open>
  \<open>mka.c\<close> and \<open>mka.h\<close>: the MKA participant. The context \<open>macsec_mka_ctx_t\<close> is a record with the
  participant state, the peer, the latest and the old SAK, the counters and the pending event and
  transmit flags. This theory has the data, the two state machines with their transition tables,
  Key Server election, SAK generation, and the operations that do not read or write a frame; the
  parser is in \<open>MkaParse\<close> and the transmitter in \<open>MkaTx\<close>. A \<open>reason\<close> string is debug output and left
  out. A function that takes a pointer to one of the two SAKs takes the slot instead.
\<close>

subsection \<open>Constants\<close>

abbreviation (input) MACSEC_MKA_DST_LEN :: nat where "MACSEC_MKA_DST_LEN \<equiv> 6"
abbreviation (input) MACSEC_MKA_SRC_LEN :: nat where "MACSEC_MKA_SRC_LEN \<equiv> 6"
abbreviation (input) MACSEC_MKA_SCI_LEN :: nat where "MACSEC_MKA_SCI_LEN \<equiv> 8"
abbreviation (input) MACSEC_MKA_MI_LEN :: nat where "MACSEC_MKA_MI_LEN \<equiv> 12"
abbreviation (input) MACSEC_MKA_ICV_LEN :: nat where "MACSEC_MKA_ICV_LEN \<equiv> 16"
abbreviation (input) MACSEC_MKA_CA_NAME_MAX_LEN :: nat where "MACSEC_MKA_CA_NAME_MAX_LEN \<equiv> 32"
abbreviation (input) MACSEC_MKA_MAX_FRAME_LEN :: nat where "MACSEC_MKA_MAX_FRAME_LEN \<equiv> 512"

definition MACSEC_MKA_ETHERTYPE_EAPOL :: u16 where "MACSEC_MKA_ETHERTYPE_EAPOL = 0x888E"
definition MACSEC_MKA_EAPOL_TYPE_MKA :: u8 where "MACSEC_MKA_EAPOL_TYPE_MKA = 5"
definition MACSEC_MKA_EAPOL_VERSION_2010 :: u8 where "MACSEC_MKA_EAPOL_VERSION_2010 = 3"
definition macsec_mka_dst_mac :: bytes where "macsec_mka_dst_mac = [0x01, 0x80, 0xC2, 0x00, 0x00, 0x03]"
definition MACSEC_MKA_VERSION_ID :: u8 where "MACSEC_MKA_VERSION_ID = 1"
definition MACSEC_MKA_ALGORITHM_AGILITY :: u32 where "MACSEC_MKA_ALGORITHM_AGILITY = 0x0080C201"
definition MACSEC_MKA_DEFAULT_TX_INTERVAL_MS :: u32 where "MACSEC_MKA_DEFAULT_TX_INTERVAL_MS = 2000"
definition MACSEC_MKA_DEFAULT_CAPABILITY :: u8 where "MACSEC_MKA_DEFAULT_CAPABILITY = 2"
definition MACSEC_MKA_PEER_TIMEOUT_MULTIPLIER :: u32 where "MACSEC_MKA_PEER_TIMEOUT_MULTIPLIER = 3"
definition MACSEC_MKA_PARAM_LIVE_PEER_LIST :: u8 where "MACSEC_MKA_PARAM_LIVE_PEER_LIST = 1"
definition MACSEC_MKA_PARAM_POTENTIAL_PEER_LIST :: u8 where "MACSEC_MKA_PARAM_POTENTIAL_PEER_LIST = 2"
definition MACSEC_MKA_PARAM_SAK_USE :: u8 where "MACSEC_MKA_PARAM_SAK_USE = 3"
definition MACSEC_MKA_PARAM_DISTRIBUTED_SAK :: u8 where "MACSEC_MKA_PARAM_DISTRIBUTED_SAK = 4"

definition MACSEC_MKA_EVENT_NONE :: u32 where "MACSEC_MKA_EVENT_NONE = 0"
definition MACSEC_MKA_EVENT_PEER_DISCOVERED :: u32 where "MACSEC_MKA_EVENT_PEER_DISCOVERED = 0x00000001"
definition MACSEC_MKA_EVENT_PEER_LIVE :: u32 where "MACSEC_MKA_EVENT_PEER_LIVE = 0x00000002"
definition MACSEC_MKA_EVENT_PEER_LOST :: u32 where "MACSEC_MKA_EVENT_PEER_LOST = 0x00000004"
definition MACSEC_MKA_EVENT_KEY_SERVER_CHANGED :: u32 where "MACSEC_MKA_EVENT_KEY_SERVER_CHANGED = 0x00000008"
definition MACSEC_MKA_EVENT_SAK_AVAILABLE :: u32 where "MACSEC_MKA_EVENT_SAK_AVAILABLE = 0x00000010"
definition MACSEC_MKA_EVENT_SAK_DISTRIBUTED :: u32 where "MACSEC_MKA_EVENT_SAK_DISTRIBUTED = 0x00000020"
definition MACSEC_MKA_EVENT_SAK_ACTIVE :: u32 where "MACSEC_MKA_EVENT_SAK_ACTIVE = 0x00000040"
definition MACSEC_MKA_EVENT_SAK_CONFIRMED :: u32 where "MACSEC_MKA_EVENT_SAK_CONFIRMED = 0x00000080"
definition MACSEC_MKA_EVENT_SAK_RETIRED :: u32 where "MACSEC_MKA_EVENT_SAK_RETIRED = 0x00000100"
definition MACSEC_MKA_EVENT_SAK_RETIRE_REQUIRED :: u32 where "MACSEC_MKA_EVENT_SAK_RETIRE_REQUIRED = 0x00000200"
definition MACSEC_MKA_EVENT_TX_INITIAL :: u32 where "MACSEC_MKA_EVENT_TX_INITIAL = 0x00001000"
definition MACSEC_MKA_EVENT_TX_PERIODIC :: u32 where "MACSEC_MKA_EVENT_TX_PERIODIC = 0x00002000"
definition MACSEC_MKA_EVENT_TX_PEER_CHANGE :: u32 where "MACSEC_MKA_EVENT_TX_PEER_CHANGE = 0x00004000"
definition MACSEC_MKA_EVENT_TX_KEY_SERVER_CHANGE :: u32 where "MACSEC_MKA_EVENT_TX_KEY_SERVER_CHANGE = 0x00008000"
definition MACSEC_MKA_EVENT_TX_DISTRIBUTE_SAK :: u32 where "MACSEC_MKA_EVENT_TX_DISTRIBUTE_SAK = 0x00010000"
definition MACSEC_MKA_EVENT_TX_SAK_USE :: u32 where "MACSEC_MKA_EVENT_TX_SAK_USE = 0x00020000"
definition MACSEC_MKA_EVENT_REKEY_REQUIRED :: u32 where "MACSEC_MKA_EVENT_REKEY_REQUIRED = 0x00100000"
definition MACSEC_MKA_EVENT_ERROR :: u32 where "MACSEC_MKA_EVENT_ERROR = 0x80000000"

definition MACSEC_MKA_TX_REASON_NONE :: u32 where "MACSEC_MKA_TX_REASON_NONE = 0"
definition MACSEC_MKA_TX_REASON_INITIAL :: u32 where "MACSEC_MKA_TX_REASON_INITIAL = 0x01"
definition MACSEC_MKA_TX_REASON_PERIODIC :: u32 where "MACSEC_MKA_TX_REASON_PERIODIC = 0x02"
definition MACSEC_MKA_TX_REASON_PEER_CHANGE :: u32 where "MACSEC_MKA_TX_REASON_PEER_CHANGE = 0x04"
definition MACSEC_MKA_TX_REASON_KEY_SERVER_CHANGE :: u32 where "MACSEC_MKA_TX_REASON_KEY_SERVER_CHANGE = 0x08"
definition MACSEC_MKA_TX_REASON_DISTRIBUTE_SAK :: u32 where "MACSEC_MKA_TX_REASON_DISTRIBUTE_SAK = 0x10"
definition MACSEC_MKA_TX_REASON_SAK_USE :: u32 where "MACSEC_MKA_TX_REASON_SAK_USE = 0x20"
definition MACSEC_MKA_TX_REASON_REKEY :: u32 where "MACSEC_MKA_TX_REASON_REKEY = 0x40"

definition MACSEC_MKA_INSTALL_NONE :: u8 where "MACSEC_MKA_INSTALL_NONE = 0x00"
definition MACSEC_MKA_INSTALL_RX :: u8 where "MACSEC_MKA_INSTALL_RX = 0x01"
definition MACSEC_MKA_INSTALL_TX :: u8 where "MACSEC_MKA_INSTALL_TX = 0x02"

subsection \<open>Data\<close>

datatype macsec_mka_state =
    MACSEC_MKA_STATE_INIT | MACSEC_MKA_STATE_WAIT_PEER | MACSEC_MKA_STATE_PEER_DISCOVERED
  | MACSEC_MKA_STATE_PEER_LIVE | MACSEC_MKA_STATE_OPERATIONAL | MACSEC_MKA_STATE_ERROR

datatype macsec_mka_sak_origin =
    MACSEC_MKA_SAK_ORIGIN_NONE | MACSEC_MKA_SAK_ORIGIN_LOCAL_KEY_SERVER
  | MACSEC_MKA_SAK_ORIGIN_REMOTE_KEY_SERVER

datatype macsec_mka_sak_state =
    MACSEC_MKA_SAK_STATE_NONE | MACSEC_MKA_SAK_STATE_CANDIDATE
  | MACSEC_MKA_SAK_STATE_DISTRIBUTION_PENDING | MACSEC_MKA_SAK_STATE_DISTRIBUTED
  | MACSEC_MKA_SAK_STATE_INSTALL_PENDING | MACSEC_MKA_SAK_STATE_ACTIVE
  | MACSEC_MKA_SAK_STATE_CONFIRMED | MACSEC_MKA_SAK_STATE_RETIRING

record macsec_mka_basic =
  mb_dst_mac :: bytes
  mb_src_mac :: bytes
  mb_eapol_version :: u8
  mb_eapol_type :: u8
  mb_eapol_len :: u16
  mb_mka_version :: u8
  mb_key_server_priority :: u8
  mb_key_server :: bool
  mb_macsec_desired :: bool
  mb_macsec_capability :: u8
  mb_body_len :: u16
  mb_sci :: bytes
  mb_actor_mi :: bytes
  mb_actor_mn :: u32
  mb_algorithm_agility :: u32
  mb_cak_name :: bytes
  mb_cak_name_len :: nat
  mb_icv :: bytes

record macsec_mka_peer =
  mp_valid :: bool
  mp_mac :: bytes
  mp_sci :: bytes
  mp_mi :: bytes
  mp_mn :: u32
  mp_key_server_priority :: u8
  mp_key_server :: bool
  mp_macsec_desired :: bool
  mp_macsec_capability :: u8
  mp_last_seen_ms :: u32
  mp_seen_in_peer_list :: bool
  mp_live :: bool

record macsec_mka_sak =
  ms_sak :: bytes
  ms_sak_len :: nat
  ms_an :: u8
  ms_key_number :: u32
  ms_origin :: macsec_mka_sak_origin
  ms_lifecycle_state :: macsec_mka_sak_state
  ms_rx_installed :: bool
  ms_tx_installed :: bool
  ms_peer_rx_confirmed :: bool
  ms_peer_tx_confirmed :: bool
  ms_lowest_pn :: u32

record macsec_mka_tx_meta =
  mt_message_number :: u32
  mt_reasons :: u32
  mt_contains_peer_list :: bool
  mt_contains_distributed_sak :: bool
  mt_contains_sak_use :: bool
  mt_distributed_key_number :: u32
  mt_distributed_an :: u8

record macsec_mka_ctx =
  mk_state :: macsec_mka_state
  mk_crypto :: macsec_mka_crypto_ctx
  mk_peer :: macsec_mka_peer
  mk_last_basic :: macsec_mka_basic
  mk_latest_sak :: macsec_mka_sak
  mk_old_sak :: macsec_mka_sak
  mk_verify_icv :: bool
  mk_last_icv_valid :: bool
  mk_mic_work :: bytes
  mk_last_rx_ms :: u32
  mk_local_mac :: bytes
  mk_local_sci :: bytes
  mk_local_mi :: bytes
  mk_local_mn :: u32
  mk_key_server_priority :: u8
  mk_local_key_server :: bool
  mk_macsec_desired :: bool
  mk_macsec_capability :: u8
  mk_key_server_next_key_number :: u32
  mk_key_server_next_an :: u8
  mk_tx_interval_ms :: u32
  mk_last_tx_ms :: u32
  mk_last_tick_ms :: u32
  mk_pending_events :: u32
  mk_tx_reasons :: u32

text \<open>The all-zero records that \<open>memset\<close> and \<open>macsec_zeroize\<close> leave.\<close>

definition mka_basic_zero :: macsec_mka_basic where
  "mka_basic_zero = \<lparr>mb_dst_mac = replicate 6 0, mb_src_mac = replicate 6 0, mb_eapol_version = 0,
     mb_eapol_type = 0, mb_eapol_len = 0, mb_mka_version = 0, mb_key_server_priority = 0,
     mb_key_server = False, mb_macsec_desired = False, mb_macsec_capability = 0, mb_body_len = 0,
     mb_sci = replicate 8 0, mb_actor_mi = replicate 12 0, mb_actor_mn = 0, mb_algorithm_agility = 0,
     mb_cak_name = replicate 32 0, mb_cak_name_len = 0, mb_icv = replicate 16 0\<rparr>"

definition mka_peer_zero :: macsec_mka_peer where
  "mka_peer_zero = \<lparr>mp_valid = False, mp_mac = replicate 6 0, mp_sci = replicate 8 0,
     mp_mi = replicate 12 0, mp_mn = 0, mp_key_server_priority = 0, mp_key_server = False,
     mp_macsec_desired = False, mp_macsec_capability = 0, mp_last_seen_ms = 0,
     mp_seen_in_peer_list = False, mp_live = False\<rparr>"

definition macsec_mka_sak_clear :: macsec_mka_sak where
  "macsec_mka_sak_clear = \<lparr>ms_sak = replicate 32 0, ms_sak_len = 0, ms_an = 0, ms_key_number = 0,
     ms_origin = MACSEC_MKA_SAK_ORIGIN_NONE, ms_lifecycle_state = MACSEC_MKA_SAK_STATE_NONE,
     ms_rx_installed = False, ms_tx_installed = False, ms_peer_rx_confirmed = False,
     ms_peer_tx_confirmed = False, ms_lowest_pn = 0\<rparr>"

definition mka_meta_zero :: macsec_mka_tx_meta where
  "mka_meta_zero = \<lparr>mt_message_number = 0, mt_reasons = MACSEC_MKA_TX_REASON_NONE,
     mt_contains_peer_list = False, mt_contains_distributed_sak = False, mt_contains_sak_use = False,
     mt_distributed_key_number = 0, mt_distributed_an = 0\<rparr>"

definition mka_ctx_zero :: macsec_mka_ctx where
  "mka_ctx_zero = \<lparr>mk_state = MACSEC_MKA_STATE_INIT,
     mk_crypto = macsec_mka_crypto_clear (snd macsec_mka_crypto_init), mk_peer = mka_peer_zero,
     mk_last_basic = mka_basic_zero, mk_latest_sak = macsec_mka_sak_clear,
     mk_old_sak = macsec_mka_sak_clear, mk_verify_icv = False, mk_last_icv_valid = False,
     mk_mic_work = replicate 512 0, mk_last_rx_ms = 0, mk_local_mac = replicate 6 0,
     mk_local_sci = replicate 8 0, mk_local_mi = replicate 12 0, mk_local_mn = 0,
     mk_key_server_priority = 0, mk_local_key_server = False, mk_macsec_desired = False,
     mk_macsec_capability = 0, mk_key_server_next_key_number = 0, mk_key_server_next_an = 0,
     mk_tx_interval_ms = 0, mk_last_tx_ms = 0, mk_last_tick_ms = 0,
     mk_pending_events = MACSEC_MKA_EVENT_NONE, mk_tx_reasons = MACSEC_MKA_TX_REASON_NONE\<rparr>"

subsection \<open>Events and transmit reasons\<close>

definition macsec_mka_raise_events :: "macsec_mka_ctx \<Rightarrow> u32 \<Rightarrow> macsec_mka_ctx" where
  "macsec_mka_raise_events ctx events =
     (if events = MACSEC_MKA_EVENT_NONE then ctx
      else ctx\<lparr>mk_pending_events := mk_pending_events ctx OR events\<rparr>)"

definition macsec_mka_schedule_tx :: "macsec_mka_ctx \<Rightarrow> u32 \<Rightarrow> macsec_mka_ctx" where
  "macsec_mka_schedule_tx ctx reasons =
     (if reasons = MACSEC_MKA_TX_REASON_NONE then ctx
      else ctx\<lparr>mk_tx_reasons := mk_tx_reasons ctx OR reasons\<rparr>)"

definition macsec_mka_take_events :: "macsec_mka_ctx \<Rightarrow> u32 \<times> macsec_mka_ctx" where
  "macsec_mka_take_events ctx =
     (mk_pending_events ctx, ctx\<lparr>mk_pending_events := MACSEC_MKA_EVENT_NONE\<rparr>)"

subsection \<open>The participant state machine\<close>

fun macsec_mka_state_transition_allowed :: "macsec_mka_state \<Rightarrow> macsec_mka_state \<Rightarrow> bool" where
  "macsec_mka_state_transition_allowed old_state new_state =
     (if old_state = new_state then True
      else if new_state = MACSEC_MKA_STATE_ERROR then True
      else case old_state of
        MACSEC_MKA_STATE_INIT \<Rightarrow> new_state = MACSEC_MKA_STATE_WAIT_PEER
      | MACSEC_MKA_STATE_WAIT_PEER \<Rightarrow>
          new_state = MACSEC_MKA_STATE_PEER_DISCOVERED \<or> new_state = MACSEC_MKA_STATE_PEER_LIVE
      | MACSEC_MKA_STATE_PEER_DISCOVERED \<Rightarrow>
          new_state = MACSEC_MKA_STATE_WAIT_PEER \<or> new_state = MACSEC_MKA_STATE_PEER_LIVE
      | MACSEC_MKA_STATE_PEER_LIVE \<Rightarrow>
          new_state = MACSEC_MKA_STATE_WAIT_PEER \<or> new_state = MACSEC_MKA_STATE_PEER_DISCOVERED \<or>
          new_state = MACSEC_MKA_STATE_OPERATIONAL
      | MACSEC_MKA_STATE_OPERATIONAL \<Rightarrow>
          new_state = MACSEC_MKA_STATE_WAIT_PEER \<or> new_state = MACSEC_MKA_STATE_PEER_DISCOVERED \<or>
          new_state = MACSEC_MKA_STATE_PEER_LIVE
      | MACSEC_MKA_STATE_ERROR \<Rightarrow> False)"

text \<open>
  On a transition that is not allowed the source calls itself with \<open>MACSEC_MKA_STATE_ERROR\<close>, which
  is always allowed, and raises the error event twice.
\<close>

definition macsec_mka_set_state :: "macsec_mka_ctx \<Rightarrow> macsec_mka_state \<Rightarrow> macsec_mka_ctx" where
  "macsec_mka_set_state ctx new_state =
     (if mk_state ctx = new_state then ctx
      else if \<not> macsec_mka_state_transition_allowed (mk_state ctx) new_state then
        let ctx = macsec_mka_raise_events ctx MACSEC_MKA_EVENT_ERROR;
            ctx = ctx\<lparr>mk_state := MACSEC_MKA_STATE_ERROR\<rparr>
        in ctx\<lparr>mk_pending_events := mk_pending_events ctx OR MACSEC_MKA_EVENT_ERROR\<rparr>
      else ctx\<lparr>mk_state := new_state\<rparr>)"

subsection \<open>The SAK lifecycle\<close>

fun macsec_mka_sak_transition_allowed ::
  "macsec_mka_sak_state \<Rightarrow> macsec_mka_sak_state \<Rightarrow> bool" where
  "macsec_mka_sak_transition_allowed old_state new_state =
     (if old_state = new_state then True
      else case old_state of
        MACSEC_MKA_SAK_STATE_NONE \<Rightarrow> new_state = MACSEC_MKA_SAK_STATE_CANDIDATE
      | MACSEC_MKA_SAK_STATE_CANDIDATE \<Rightarrow>
          new_state = MACSEC_MKA_SAK_STATE_DISTRIBUTION_PENDING \<or>
          new_state = MACSEC_MKA_SAK_STATE_INSTALL_PENDING \<or> new_state = MACSEC_MKA_SAK_STATE_NONE
      | MACSEC_MKA_SAK_STATE_DISTRIBUTION_PENDING \<Rightarrow>
          new_state = MACSEC_MKA_SAK_STATE_DISTRIBUTED \<or> new_state = MACSEC_MKA_SAK_STATE_NONE
      | MACSEC_MKA_SAK_STATE_DISTRIBUTED \<Rightarrow>
          new_state = MACSEC_MKA_SAK_STATE_INSTALL_PENDING \<or> new_state = MACSEC_MKA_SAK_STATE_RETIRING
      | MACSEC_MKA_SAK_STATE_INSTALL_PENDING \<Rightarrow>
          new_state = MACSEC_MKA_SAK_STATE_ACTIVE \<or> new_state = MACSEC_MKA_SAK_STATE_RETIRING
      | MACSEC_MKA_SAK_STATE_ACTIVE \<Rightarrow>
          new_state = MACSEC_MKA_SAK_STATE_CONFIRMED \<or> new_state = MACSEC_MKA_SAK_STATE_RETIRING
      | MACSEC_MKA_SAK_STATE_CONFIRMED \<Rightarrow>
          new_state = MACSEC_MKA_SAK_STATE_ACTIVE \<or> new_state = MACSEC_MKA_SAK_STATE_RETIRING
      | MACSEC_MKA_SAK_STATE_RETIRING \<Rightarrow> new_state = MACSEC_MKA_SAK_STATE_NONE)"

text \<open>The pointers \<open>&ctx->latest_sak\<close> and \<open>&ctx->old_sak\<close>.\<close>

datatype mka_slot = LATEST_SAK | OLD_SAK

fun mka_slot_get :: "mka_slot \<Rightarrow> macsec_mka_ctx \<Rightarrow> macsec_mka_sak" where
  "mka_slot_get LATEST_SAK ctx = mk_latest_sak ctx"
| "mka_slot_get OLD_SAK ctx = mk_old_sak ctx"

fun mka_slot_put :: "mka_slot \<Rightarrow> macsec_mka_sak \<Rightarrow> macsec_mka_ctx \<Rightarrow> macsec_mka_ctx" where
  "mka_slot_put LATEST_SAK sak ctx = ctx\<lparr>mk_latest_sak := sak\<rparr>"
| "mka_slot_put OLD_SAK sak ctx = ctx\<lparr>mk_old_sak := sak\<rparr>"

definition macsec_mka_set_sak_state ::
  "macsec_mka_ctx \<Rightarrow> mka_slot \<Rightarrow> macsec_mka_sak_state \<Rightarrow> macsec_mka_ctx" where
  "macsec_mka_set_sak_state ctx slot new_state =
     (let sak = mka_slot_get slot ctx; old_state = ms_lifecycle_state sak in
      if old_state = new_state then ctx
      else if \<not> macsec_mka_sak_transition_allowed old_state new_state
      then macsec_mka_set_state ctx MACSEC_MKA_STATE_ERROR
      else mka_slot_put slot (sak\<lparr>ms_lifecycle_state := new_state\<rparr>) ctx)"

definition macsec_mka_move_latest_to_old :: "macsec_mka_ctx \<Rightarrow> macsec_ret \<times> macsec_mka_ctx" where
  "macsec_mka_move_latest_to_old ctx =
     (if ms_lifecycle_state (mk_latest_sak ctx) = MACSEC_MKA_SAK_STATE_NONE then (MACSEC_ERR_NOT_READY, ctx)
      else if ms_lifecycle_state (mk_old_sak ctx) \<noteq> MACSEC_MKA_SAK_STATE_NONE then (MACSEC_ERR_BUSY, ctx)
      else if \<not> ms_rx_installed (mk_latest_sak ctx) \<and> \<not> ms_tx_installed (mk_latest_sak ctx)
      then (MACSEC_ERR_OK, ctx\<lparr>mk_latest_sak := macsec_mka_sak_clear\<rparr>)
      else
        let ctx = ctx\<lparr>mk_old_sak := (mk_latest_sak ctx)\<lparr>ms_peer_rx_confirmed := False,
                                                        ms_peer_tx_confirmed := False\<rparr>\<rparr>;
            ctx = macsec_mka_set_sak_state ctx OLD_SAK MACSEC_MKA_SAK_STATE_RETIRING
        in if ms_lifecycle_state (mk_old_sak ctx) \<noteq> MACSEC_MKA_SAK_STATE_RETIRING
           then (MACSEC_ERR_STATE, ctx)
           else (MACSEC_ERR_OK, ctx\<lparr>mk_latest_sak := macsec_mka_sak_clear\<rparr>))"

subsection \<open>Key Server election and SAK generation\<close>

definition macsec_mka_build_sci :: "bytes \<Rightarrow> u16 \<Rightarrow> bytes" where
  "macsec_mka_build_sci mac port_id = take 6 mac @ macsec_wr_be16 port_id"

definition macsec_mka_local_wins_key_server :: "macsec_mka_ctx \<Rightarrow> bool" where
  "macsec_mka_local_wins_key_server ctx =
     (if \<not> mp_valid (mk_peer ctx) then True
      else if mk_key_server_priority ctx < mp_key_server_priority (mk_peer ctx) then True
      else if mk_key_server_priority ctx > mp_key_server_priority (mk_peer ctx) then False
      else macsec_compare (mk_local_sci ctx) (mp_sci (mk_peer ctx)) MACSEC_MKA_SCI_LEN < 0)"

text \<open>\<open>rnd n\<close> are the \<open>n\<close> bytes that the call of \<open>macsec_random\<close> yields.\<close>

definition macsec_mka_key_server_ensure_sak ::
  "(nat \<Rightarrow> bytes) \<Rightarrow> macsec_mka_ctx \<Rightarrow> macsec_ret \<times> macsec_mka_ctx" where
  "macsec_mka_key_server_ensure_sak rnd ctx =
     (if \<not> mk_local_key_server ctx then (MACSEC_ERR_STATE, ctx)
      else if \<not> (mp_valid (mk_peer ctx) \<and> mp_live (mk_peer ctx)) then (MACSEC_ERR_NOT_READY, ctx)
      else if ms_lifecycle_state (mk_latest_sak ctx) \<noteq> MACSEC_MKA_SAK_STATE_NONE then
        (if ms_origin (mk_latest_sak ctx) \<noteq> MACSEC_MKA_SAK_ORIGIN_LOCAL_KEY_SERVER
         then (MACSEC_ERR_STATE, ctx) else (MACSEC_ERR_OK, ctx))
      else
        let ctx = ctx\<lparr>mk_latest_sak := macsec_mka_sak_clear
                        \<lparr>ms_sak := arr_put (ms_sak macsec_mka_sak_clear) (rnd 16),
                         ms_sak_len := 16,
                         ms_an := mk_key_server_next_an ctx AND 0x03,
                         ms_key_number := mk_key_server_next_key_number ctx,
                         ms_origin := MACSEC_MKA_SAK_ORIGIN_LOCAL_KEY_SERVER,
                         ms_lowest_pn := 1,
                         ms_rx_installed := False, ms_tx_installed := False,
                         ms_peer_rx_confirmed := False, ms_peer_tx_confirmed := False\<rparr>\<rparr>;
            ctx = macsec_mka_set_sak_state ctx LATEST_SAK MACSEC_MKA_SAK_STATE_CANDIDATE;
            ctx = macsec_mka_set_sak_state ctx LATEST_SAK MACSEC_MKA_SAK_STATE_DISTRIBUTION_PENDING;
            ctx = macsec_mka_raise_events ctx MACSEC_MKA_EVENT_TX_DISTRIBUTE_SAK;
            ctx = macsec_mka_schedule_tx ctx MACSEC_MKA_TX_REASON_DISTRIBUTE_SAK
        in (MACSEC_ERR_OK, ctx))"

definition macsec_mka_start_rekey ::
  "(nat \<Rightarrow> bytes) \<Rightarrow> macsec_mka_ctx \<Rightarrow> macsec_ret \<times> macsec_mka_ctx" where
  "macsec_mka_start_rekey rnd ctx =
     (if \<not> mk_local_key_server ctx then (MACSEC_ERR_STATE, ctx)
      else if ms_lifecycle_state (mk_old_sak ctx) \<noteq> MACSEC_MKA_SAK_STATE_NONE then (MACSEC_ERR_BUSY, ctx)
      else
        let (ret, ctx) = (if ms_lifecycle_state (mk_latest_sak ctx) \<noteq> MACSEC_MKA_SAK_STATE_NONE
                          then macsec_mka_move_latest_to_old ctx else (MACSEC_ERR_OK, ctx))
        in if ret \<noteq> MACSEC_ERR_OK then (ret, ctx)
           else
             let (ret, ctx) = (if mp_valid (mk_peer ctx) \<and> mp_live (mk_peer ctx)
                               then macsec_mka_key_server_ensure_sak rnd ctx else (MACSEC_ERR_OK, ctx))
             in if ret \<noteq> MACSEC_ERR_OK then (ret, ctx)
                else
                  let ctx = macsec_mka_raise_events ctx MACSEC_MKA_EVENT_REKEY_REQUIRED;
                      ctx = macsec_mka_schedule_tx ctx
                              (MACSEC_MKA_TX_REASON_REKEY OR MACSEC_MKA_TX_REASON_PEER_CHANGE);
                      ctx = (if ms_lifecycle_state (mk_latest_sak ctx) \<noteq> MACSEC_MKA_SAK_STATE_NONE
                             then macsec_mka_schedule_tx
                                    (macsec_mka_raise_events ctx MACSEC_MKA_EVENT_TX_DISTRIBUTE_SAK)
                                    MACSEC_MKA_TX_REASON_DISTRIBUTE_SAK
                             else ctx)
                  in (MACSEC_ERR_OK, ctx))"

subsection \<open>Life of a context\<close>

definition macsec_mka_init ::
  "(nat \<Rightarrow> bytes) \<Rightarrow> bytes \<Rightarrow> bytes \<Rightarrow> bytes \<Rightarrow> u16 \<Rightarrow> u8 \<Rightarrow> u32 \<Rightarrow> macsec_ret \<times> macsec_mka_ctx" where
  "macsec_mka_init rnd cak ckn local_mac port_id key_server_priority tx_interval_ms =
     (let ctx = mka_ctx_zero
            \<lparr>mk_local_mac := take 6 local_mac,
             mk_local_sci := macsec_mka_build_sci local_mac port_id,
             mk_local_mi := rnd MACSEC_MKA_MI_LEN,
             mk_local_mn := 1,
             mk_key_server_priority := key_server_priority,
             mk_local_key_server := True,
             mk_macsec_desired := True,
             mk_macsec_capability := MACSEC_MKA_DEFAULT_CAPABILITY,
             mk_key_server_next_key_number := 1,
             mk_key_server_next_an := 0,
             mk_tx_interval_ms := (if tx_interval_ms \<noteq> 0 then tx_interval_ms
                                   else MACSEC_MKA_DEFAULT_TX_INTERVAL_MS)\<rparr>;
          fail = (\<lambda>ctx. macsec_mka_set_state (macsec_mka_raise_events ctx MACSEC_MKA_EVENT_ERROR)
                          MACSEC_MKA_STATE_ERROR);
          (ret, crypto) = macsec_mka_crypto_init;
          ctx = ctx\<lparr>mk_crypto := crypto\<rparr>
      in if ret \<noteq> MACSEC_ERR_OK then (ret, fail ctx)
         else
           let (ret, crypto) = macsec_mka_crypto_set_psk (mk_crypto ctx) cak ckn;
               ctx = ctx\<lparr>mk_crypto := crypto\<rparr>
           in if ret \<noteq> MACSEC_ERR_OK then (ret, fail ctx)
              else
                let (ret, crypto) = macsec_mka_crypto_derive_ick_kek (mk_crypto ctx);
                    ctx = ctx\<lparr>mk_crypto := crypto\<rparr>
                in if ret \<noteq> MACSEC_ERR_OK then (ret, fail ctx)
                   else
                     let ctx = ctx\<lparr>mk_verify_icv := True, mk_last_icv_valid := False\<rparr>;
                         ctx = macsec_mka_set_state ctx MACSEC_MKA_STATE_WAIT_PEER;
                         ctx = macsec_mka_raise_events ctx MACSEC_MKA_EVENT_TX_INITIAL;
                         ctx = macsec_mka_schedule_tx ctx MACSEC_MKA_TX_REASON_INITIAL
                     in (MACSEC_ERR_OK, ctx))"

definition macsec_mka_clear :: "macsec_mka_ctx \<Rightarrow> macsec_mka_ctx" where
  "macsec_mka_clear ctx = mka_ctx_zero\<lparr>mk_crypto := macsec_mka_crypto_clear (mk_crypto ctx)\<rparr>"

definition macsec_mka_get_state :: "macsec_mka_ctx \<Rightarrow> macsec_mka_state" where
  "macsec_mka_get_state ctx = mk_state ctx"

subsection \<open>Handing a SAK to the data plane\<close>

text \<open>The second component is the SAK written through the pointer \<open>sak\<close>.\<close>

definition macsec_mka_take_sak_for_install ::
  "macsec_mka_ctx \<Rightarrow> macsec_ret \<times> macsec_mka_sak \<times> macsec_mka_ctx" where
  "macsec_mka_take_sak_for_install ctx =
     (let sak = mk_latest_sak ctx; none = macsec_mka_sak_clear in
      if ms_lifecycle_state sak = MACSEC_MKA_SAK_STATE_NONE then (MACSEC_ERR_NOT_READY, none, ctx)
      else if ms_sak_len sak \<noteq> 16 \<and> ms_sak_len sak \<noteq> 32 then (MACSEC_ERR_STATE, none, ctx)
      else if 4 \<le> ms_an sak then (MACSEC_ERR_STATE, none, ctx)
      else if ms_key_number sak = 0 then (MACSEC_ERR_STATE, none, ctx)
      else
        let available =
              (ms_origin sak = MACSEC_MKA_SAK_ORIGIN_REMOTE_KEY_SERVER \<and>
                 ms_lifecycle_state sak = MACSEC_MKA_SAK_STATE_CANDIDATE) \<or>
              (ms_origin sak = MACSEC_MKA_SAK_ORIGIN_LOCAL_KEY_SERVER \<and>
                 ms_lifecycle_state sak = MACSEC_MKA_SAK_STATE_DISTRIBUTED) \<or>
              (ms_lifecycle_state sak = MACSEC_MKA_SAK_STATE_INSTALL_PENDING \<and>
                 (ms_origin sak = MACSEC_MKA_SAK_ORIGIN_REMOTE_KEY_SERVER \<or>
                  ms_origin sak = MACSEC_MKA_SAK_ORIGIN_LOCAL_KEY_SERVER))
        in if \<not> available then (MACSEC_ERR_NOT_READY, none, ctx)
           else if ms_rx_installed sak \<and> ms_tx_installed sak then (MACSEC_ERR_NOT_READY, none, ctx)
           else
             let ctx = (if ms_lifecycle_state sak \<noteq> MACSEC_MKA_SAK_STATE_INSTALL_PENDING
                        then macsec_mka_set_sak_state ctx LATEST_SAK MACSEC_MKA_SAK_STATE_INSTALL_PENDING
                        else ctx)
             in (MACSEC_ERR_OK, mk_latest_sak ctx, ctx))"

text \<open>The end of \<open>macsec_mka_notify_sak_installed\<close>, once both directions are installed.\<close>

definition mka_sak_both_installed :: "macsec_mka_ctx \<Rightarrow> macsec_ret \<times> macsec_mka_ctx" where
  "mka_sak_both_installed ctx =
     (let ctx = macsec_mka_set_sak_state ctx LATEST_SAK MACSEC_MKA_SAK_STATE_ACTIVE in
      if ms_lifecycle_state (mk_latest_sak ctx) \<noteq> MACSEC_MKA_SAK_STATE_ACTIVE then (MACSEC_ERR_STATE, ctx)
      else
        let ctx = macsec_mka_raise_events ctx (MACSEC_MKA_EVENT_SAK_ACTIVE OR MACSEC_MKA_EVENT_TX_SAK_USE);
            confirmed = ms_peer_rx_confirmed (mk_latest_sak ctx) \<and> ms_peer_tx_confirmed (mk_latest_sak ctx);
            ctx = (if confirmed
                   then macsec_mka_set_sak_state ctx LATEST_SAK MACSEC_MKA_SAK_STATE_CONFIRMED else ctx)
        in if confirmed \<and> ms_lifecycle_state (mk_latest_sak ctx) \<noteq> MACSEC_MKA_SAK_STATE_CONFIRMED
           then (MACSEC_ERR_STATE, ctx)
           else
             let ctx = (if confirmed then macsec_mka_raise_events ctx MACSEC_MKA_EVENT_SAK_CONFIRMED else ctx);
                 ctx = (if confirmed \<and> ms_lifecycle_state (mk_old_sak ctx) = MACSEC_MKA_SAK_STATE_RETIRING
                        then macsec_mka_raise_events ctx MACSEC_MKA_EVENT_SAK_RETIRE_REQUIRED else ctx);
                 ctx = macsec_mka_schedule_tx ctx MACSEC_MKA_TX_REASON_SAK_USE
             in if mp_valid (mk_peer ctx) \<and> mp_live (mk_peer ctx) then
                  let ctx = macsec_mka_set_state ctx MACSEC_MKA_STATE_OPERATIONAL in
                  if mk_state ctx \<noteq> MACSEC_MKA_STATE_OPERATIONAL then (MACSEC_ERR_STATE, ctx)
                  else (MACSEC_ERR_OK, ctx)
                else (MACSEC_ERR_OK, ctx))"

definition macsec_mka_notify_sak_installed ::
  "macsec_mka_ctx \<Rightarrow> u32 \<Rightarrow> u8 \<Rightarrow> u8 \<Rightarrow> u32 \<Rightarrow> macsec_ret \<times> macsec_mka_ctx" where
  "macsec_mka_notify_sak_installed ctx key_number an installed_directions lowest_pn =
     (let sak = mk_latest_sak ctx in
      if ms_lifecycle_state sak = MACSEC_MKA_SAK_STATE_NONE then (MACSEC_ERR_NOT_READY, ctx)
      else if ms_lifecycle_state sak \<noteq> MACSEC_MKA_SAK_STATE_INSTALL_PENDING then (MACSEC_ERR_STATE, ctx)
      else if ms_key_number sak \<noteq> key_number then (MACSEC_ERR_PARAM, ctx)
      else if ms_an sak AND 0x03 \<noteq> an AND 0x03 then (MACSEC_ERR_PARAM, ctx)
      else if installed_directions = MACSEC_MKA_INSTALL_NONE \<or>
              installed_directions AND NOT (MACSEC_MKA_INSTALL_RX OR MACSEC_MKA_INSTALL_TX) \<noteq> 0
      then (MACSEC_ERR_PARAM, ctx)
      else
        let normalized_lowest_pn = (if lowest_pn \<noteq> 0 then lowest_pn else 1);
            rx = installed_directions AND MACSEC_MKA_INSTALL_RX \<noteq> 0;
            tx = installed_directions AND MACSEC_MKA_INSTALL_TX \<noteq> 0;
            ctx = (if rx then ctx\<lparr>mk_latest_sak := (mk_latest_sak ctx)\<lparr>ms_rx_installed := True\<rparr>\<rparr> else ctx);
            ctx = (if tx then ctx\<lparr>mk_latest_sak := (mk_latest_sak ctx)\<lparr>ms_tx_installed := True\<rparr>\<rparr> else ctx);
            ctx = (if tx \<and> ms_lifecycle_state (mk_old_sak ctx) = MACSEC_MKA_SAK_STATE_RETIRING
                   then ctx\<lparr>mk_old_sak := (mk_old_sak ctx)\<lparr>ms_tx_installed := False\<rparr>\<rparr> else ctx);
            ctx = ctx\<lparr>mk_latest_sak := (mk_latest_sak ctx)\<lparr>ms_lowest_pn := normalized_lowest_pn\<rparr>\<rparr>
        in if \<not> ms_rx_installed (mk_latest_sak ctx) \<or> \<not> ms_tx_installed (mk_latest_sak ctx)
           then (MACSEC_ERR_OK, ctx)
           else mka_sak_both_installed ctx)"

definition macsec_mka_notify_sak_retired ::
  "macsec_mka_ctx \<Rightarrow> u32 \<Rightarrow> u8 \<Rightarrow> macsec_ret \<times> macsec_mka_ctx" where
  "macsec_mka_notify_sak_retired ctx key_number an =
     (let sak = mk_old_sak ctx in
      if ms_lifecycle_state sak = MACSEC_MKA_SAK_STATE_NONE then (MACSEC_ERR_NOT_READY, ctx)
      else if ms_key_number sak \<noteq> key_number then (MACSEC_ERR_PARAM, ctx)
      else if ms_an sak AND 0x03 \<noteq> an AND 0x03 then (MACSEC_ERR_PARAM, ctx)
      else if ms_lifecycle_state sak \<noteq> MACSEC_MKA_SAK_STATE_RETIRING then (MACSEC_ERR_STATE, ctx)
      else
        let ctx = macsec_mka_set_sak_state ctx OLD_SAK MACSEC_MKA_SAK_STATE_NONE in
        if ms_lifecycle_state (mk_old_sak ctx) \<noteq> MACSEC_MKA_SAK_STATE_NONE then (MACSEC_ERR_STATE, ctx)
        else
          let ctx = ctx\<lparr>mk_old_sak := macsec_mka_sak_clear\<rparr>;
              ctx = macsec_mka_raise_events ctx MACSEC_MKA_EVENT_SAK_RETIRED
          in (MACSEC_ERR_OK, ctx))"

subsection \<open>Timer\<close>

text \<open>The peer timeout of \<open>macsec_mka_tick\<close>; times are \<open>uint32_t\<close> and their difference wraps.\<close>

definition mka_peer_timeout :: "macsec_mka_ctx \<Rightarrow> u32 \<Rightarrow> macsec_mka_ctx" where
  "mka_peer_timeout ctx now_ms =
     (if mp_valid (mk_peer ctx) then
        let peer_timeout_ms = mk_tx_interval_ms ctx * MACSEC_MKA_PEER_TIMEOUT_MULTIPLIER;
            peer_idle_ms = now_ms - mp_last_seen_ms (mk_peer ctx)
        in if peer_timeout_ms \<le> peer_idle_ms then
             let ctx = ctx\<lparr>mk_peer := (mk_peer ctx)\<lparr>mp_valid := False, mp_live := False,
                                                  mp_seen_in_peer_list := False\<rparr>\<rparr>;
                 ctx = macsec_mka_set_state ctx MACSEC_MKA_STATE_WAIT_PEER;
                 ctx = macsec_mka_raise_events ctx
                         (MACSEC_MKA_EVENT_PEER_LOST OR MACSEC_MKA_EVENT_TX_PEER_CHANGE)
             in macsec_mka_schedule_tx ctx MACSEC_MKA_TX_REASON_PEER_CHANGE
           else ctx
      else ctx)"

definition macsec_mka_tick :: "macsec_mka_ctx \<Rightarrow> u32 \<Rightarrow> macsec_ret \<times> macsec_mka_ctx" where
  "macsec_mka_tick ctx now_ms =
     (let ctx = ctx\<lparr>mk_last_tick_ms := now_ms\<rparr>;
          ctx = mka_peer_timeout ctx now_ms
      in if mk_tx_reasons ctx \<noteq> MACSEC_MKA_TX_REASON_NONE then (MACSEC_ERR_OK, ctx)
         else if mk_last_tx_ms ctx = 0 then
           (MACSEC_ERR_OK,
            macsec_mka_schedule_tx (macsec_mka_raise_events ctx MACSEC_MKA_EVENT_TX_INITIAL)
              MACSEC_MKA_TX_REASON_INITIAL)
         else if mk_tx_interval_ms ctx \<le> now_ms - mk_last_tx_ms ctx then
           (MACSEC_ERR_OK,
            macsec_mka_schedule_tx (macsec_mka_raise_events ctx MACSEC_MKA_EVENT_TX_PERIODIC)
              MACSEC_MKA_TX_REASON_PERIODIC)
         else (MACSEC_ERR_OK, ctx))"

subsection \<open>Outcome of a transmission\<close>

definition mka_sak_distributable :: "macsec_mka_sak \<Rightarrow> bool" where
  "mka_sak_distributable sak \<longleftrightarrow>
     ms_lifecycle_state sak = MACSEC_MKA_SAK_STATE_DISTRIBUTION_PENDING \<or>
     ms_lifecycle_state sak = MACSEC_MKA_SAK_STATE_DISTRIBUTED \<or>
     ms_lifecycle_state sak = MACSEC_MKA_SAK_STATE_INSTALL_PENDING \<or>
     ms_lifecycle_state sak = MACSEC_MKA_SAK_STATE_ACTIVE \<or>
     ms_lifecycle_state sak = MACSEC_MKA_SAK_STATE_CONFIRMED"

text \<open>The first successful transmission of a Distributed SAK.\<close>

definition mka_commit_distribution :: "macsec_mka_ctx \<Rightarrow> macsec_ret \<times> macsec_mka_ctx" where
  "mka_commit_distribution ctx =
     (let ctx = macsec_mka_set_sak_state ctx LATEST_SAK MACSEC_MKA_SAK_STATE_DISTRIBUTED in
      if ms_lifecycle_state (mk_latest_sak ctx) \<noteq> MACSEC_MKA_SAK_STATE_DISTRIBUTED then (MACSEC_ERR_STATE, ctx)
      else
        let ctx = macsec_mka_raise_events ctx
                    (MACSEC_MKA_EVENT_SAK_DISTRIBUTED OR MACSEC_MKA_EVENT_SAK_AVAILABLE);
            ctx = ctx\<lparr>mk_key_server_next_key_number := mk_key_server_next_key_number ctx + 1\<rparr>;
            ctx = (if mk_key_server_next_key_number ctx = 0
                   then ctx\<lparr>mk_key_server_next_key_number := 1\<rparr> else ctx)
        in (MACSEC_ERR_OK,
            ctx\<lparr>mk_key_server_next_an := (mk_key_server_next_an ctx + 1) AND 0x03\<rparr>))"

definition macsec_mka_notify_tx_success ::
  "macsec_mka_ctx \<Rightarrow> macsec_mka_tx_meta \<Rightarrow> u32 \<Rightarrow> macsec_ret \<times> macsec_mka_ctx" where
  "macsec_mka_notify_tx_success ctx meta now_ms =
     (if mt_message_number meta \<noteq> mk_local_mn ctx then (MACSEC_ERR_STATE, ctx)
      else if mt_reasons meta = MACSEC_MKA_TX_REASON_NONE then (MACSEC_ERR_PARAM, ctx)
      else if mt_reasons meta AND
                NOT (MACSEC_MKA_TX_REASON_INITIAL OR MACSEC_MKA_TX_REASON_PERIODIC OR
                     MACSEC_MKA_TX_REASON_PEER_CHANGE OR MACSEC_MKA_TX_REASON_KEY_SERVER_CHANGE OR
                     MACSEC_MKA_TX_REASON_DISTRIBUTE_SAK OR MACSEC_MKA_TX_REASON_SAK_USE OR
                     MACSEC_MKA_TX_REASON_REKEY) \<noteq> 0
      then (MACSEC_ERR_PARAM, ctx)
      else
        let sak = mk_latest_sak ctx;
            (ret, ctx) =
              (if mt_contains_distributed_sak meta then
                 (if \<not> mka_sak_distributable sak \<or>
                     ms_origin sak \<noteq> MACSEC_MKA_SAK_ORIGIN_LOCAL_KEY_SERVER \<or>
                     ms_key_number sak \<noteq> mt_distributed_key_number meta \<or>
                     ms_an sak \<noteq> mt_distributed_an meta
                  then (MACSEC_ERR_STATE, ctx)
                  else if ms_lifecycle_state sak = MACSEC_MKA_SAK_STATE_DISTRIBUTION_PENDING
                  then mka_commit_distribution ctx
                  else (MACSEC_ERR_OK, ctx))
               else (MACSEC_ERR_OK, ctx))
        in if ret \<noteq> MACSEC_ERR_OK then (ret, ctx)
           else
             let ctx = ctx\<lparr>mk_local_mn := mk_local_mn ctx + 1\<rparr>;
                 ctx = (if mk_local_mn ctx = 0 then ctx\<lparr>mk_local_mn := 1\<rparr> else ctx)
             in (MACSEC_ERR_OK,
                 ctx\<lparr>mk_last_tx_ms := (if now_ms \<noteq> 0 then now_ms else 1),
                     mk_tx_reasons := mk_tx_reasons ctx AND NOT (mt_reasons meta)\<rparr>))"

definition macsec_mka_notify_tx_failure ::
  "macsec_mka_ctx \<Rightarrow> macsec_mka_tx_meta \<Rightarrow> macsec_mka_ctx" where
  "macsec_mka_notify_tx_failure ctx meta = ctx\<lparr>mk_tx_reasons := mk_tx_reasons ctx OR mt_reasons meta\<rparr>"

end
