(* ===== verification/MkaParse.thy ===== *)
theory MkaParse
  imports Mka
begin

text \<open>
  The receiving half of \<open>mka.c\<close>: the Basic Parameter Set, the ICV check, the scan of the parameter
  sets, Distributed SAK and SAK Use, and \<open>macsec_mka_input\<close>. A received frame is a byte list and
  every access goes through \<open>buf_at\<close>, so a result \<open>None\<close> is a read outside the frame. The three
  scanning loops of the source are recursive functions over the position; the two that look for one
  parameter set share \<open>mka_param_scan\<close>.
\<close>

subsection \<open>The Basic Parameter Set\<close>

definition macsec_mka_is_eapol_mka :: "bytes \<Rightarrow> bool option" where
  "macsec_mka_is_eapol_mka frame =
     (if length frame < 18 then Some False
      else do {
        eth_type \<leftarrow> buf_at frame 12 2;
        if macsec_rd_be16 eth_type \<noteq> MACSEC_MKA_ETHERTYPE_EAPOL then Some False
        else do {
          type \<leftarrow> byte_at frame 15;
          Some (type = MACSEC_MKA_EAPOL_TYPE_MKA)
        }
      })"

text \<open>The 12-bit body length in the last two bytes of a parameter set header.\<close>

definition mka_param_body_len :: "u8 \<Rightarrow> u8 \<Rightarrow> u16" where
  "mka_param_body_len b2 b3 = push_bit 8 (ucast (b2 AND 0x0F)) OR ucast b3"

text \<open>
  The first component is the return code, the second the structure \<open>out\<close> as far as it was filled.
\<close>

definition macsec_mka_parse_basic ::
  "bytes \<Rightarrow> macsec_mka_basic \<Rightarrow> (macsec_ret \<times> macsec_mka_basic) option" where
  "macsec_mka_parse_basic frame out =
     (if \<not> 14 + 4 + 4 + 28 + 16 \<le> length frame then Some (MACSEC_ERR_BUFFER, out)
      else do {
        dst \<leftarrow> buf_at frame 0 6;
        src \<leftarrow> buf_at frame 6 6;
        eth_type \<leftarrow> buf_at frame 12 2;
        let out = mka_basic_zero\<lparr>mb_dst_mac := dst, mb_src_mac := src\<rparr>;
        if macsec_rd_be16 eth_type \<noteq> MACSEC_MKA_ETHERTYPE_EAPOL then Some (MACSEC_ERR_PARAM, out)
        else do {
          p \<leftarrow> buf_at frame 14 4;
          let eapol_len = macsec_rd_be16 (drop 2 p);
          let out = out\<lparr>mb_eapol_version := p ! 0, mb_eapol_type := p ! 1, mb_eapol_len := eapol_len\<rparr>;
          if mb_eapol_type out \<noteq> MACSEC_MKA_EAPOL_TYPE_MKA then Some (MACSEC_ERR_UNSUPPORTED, out)
          else if \<not> 14 + 4 + unat eapol_len \<le> length frame then Some (MACSEC_ERR_BUFFER, out)
          else if \<not> 4 + 28 + MACSEC_MKA_ICV_LEN \<le> unat eapol_len then Some (MACSEC_ERR_BUFFER, out)
          else do {
            p \<leftarrow> buf_at frame 18 4;
            let body_len = mka_param_body_len (p ! 2) (p ! 3);
            let out = out\<lparr>mb_mka_version := p ! 0, mb_key_server_priority := p ! 1,
                         mb_key_server := p ! 2 AND 0x80 \<noteq> 0,
                         mb_macsec_desired := p ! 2 AND 0x40 \<noteq> 0,
                         mb_macsec_capability := drop_bit 4 (p ! 2) AND 0x03,
                         mb_body_len := body_len\<rparr>;
            let basic_end_offset = 18 + 4 + unat body_len;
            let icv_offset = 14 + 4 + unat eapol_len - MACSEC_MKA_ICV_LEN;
            if \<not> 28 \<le> body_len then Some (MACSEC_ERR_BUFFER, out)
            else if \<not> basic_end_offset \<le> icv_offset then Some (MACSEC_ERR_BUFFER, out)
            else if \<not> icv_offset + MACSEC_MKA_ICV_LEN \<le> length frame then Some (MACSEC_ERR_BUFFER, out)
            else do {
              sci \<leftarrow> buf_at frame 22 MACSEC_MKA_SCI_LEN;
              mi \<leftarrow> buf_at frame 30 MACSEC_MKA_MI_LEN;
              mn \<leftarrow> buf_at frame 42 4;
              agility \<leftarrow> buf_at frame 46 4;
              let out = out\<lparr>mb_sci := sci, mb_actor_mi := mi, mb_actor_mn := macsec_rd_be32 mn,
                           mb_algorithm_agility := macsec_rd_be32 agility\<rparr>;
              let cak_name_len = unat body_len - 28;
              if \<not> cak_name_len \<le> MACSEC_MKA_CA_NAME_MAX_LEN then Some (MACSEC_ERR_BUFFER, out)
              else do {
                cak_name \<leftarrow> buf_at frame 50 cak_name_len;
                icv \<leftarrow> buf_at frame icv_offset MACSEC_MKA_ICV_LEN;
                Some (MACSEC_ERR_OK,
                      out\<lparr>mb_cak_name := arr_put (mb_cak_name out) cak_name,
                          mb_cak_name_len := cak_name_len, mb_icv := icv\<rparr>)
              }
            }
          }
        }
      })"

definition macsec_mka_verify_icv ::
  "macsec_mka_ctx \<Rightarrow> bytes \<Rightarrow> macsec_mka_basic \<Rightarrow> (macsec_ret \<times> macsec_mka_ctx) option" where
  "macsec_mka_verify_icv ctx frame basic =
     (if \<not> keys_valid (mc_keys (mk_crypto ctx)) then Some (MACSEC_ERR_STATE, ctx)
      else
        let mic_len = 14 + 4 + unat (mb_eapol_len basic) - MACSEC_MKA_ICV_LEN in
        if \<not> mic_len + MACSEC_MKA_ICV_LEN \<le> length frame then Some (MACSEC_ERR_BUFFER, ctx)
        else if \<not> mic_len \<le> MACSEC_MKA_MAX_FRAME_LEN then Some (MACSEC_ERR_BUFFER, ctx)
        else do {
          input \<leftarrow> buf_at frame 0 mic_len;
          let ctx = ctx\<lparr>mk_mic_work := arr_put (mk_mic_work ctx) input\<rparr>;
          let (ret, crypto) = macsec_mka_crypto_verify_mic (mk_crypto ctx)
                                (take mic_len (mk_mic_work ctx)) (mb_icv basic);
          Some (ret, ctx\<lparr>mk_crypto := crypto\<rparr>)
        })"

subsection \<open>Scanning the parameter sets\<close>

text \<open>The end of the scanned area, or the code with which the scan returns at once.\<close>

definition mka_scan_end :: "bytes \<Rightarrow> (macsec_ret + nat) option" where
  "mka_scan_end frame =
     (if length frame < 90 then Some (Inl MACSEC_ERR_NOT_READY)
      else do {
        len \<leftarrow> buf_at frame 16 2;
        let eapol_len = macsec_rd_be16 len;
        if unat eapol_len < MACSEC_MKA_ICV_LEN then Some (Inl MACSEC_ERR_BUFFER)
        else
          let scan_end = 14 + 4 + unat eapol_len - MACSEC_MKA_ICV_LEN in
          if length frame < scan_end then Some (Inl MACSEC_ERR_BUFFER)
          else Some (Inr scan_end)
      })"

text \<open>
  The entries of one peer list, from \<open>body_pos\<close> on: the listed message number of the first entry
  with the member identifier \<open>mi\<close>.
\<close>

function mka_peer_list_find :: "bytes \<Rightarrow> bytes \<Rightarrow> nat \<Rightarrow> nat \<Rightarrow> u32 option option" where
  "mka_peer_list_find frame mi body_pos body_end =
     (if body_pos + 16 \<le> body_end then do {
        entry \<leftarrow> buf_at frame body_pos MACSEC_MKA_MI_LEN;
        if macsec_compare entry mi MACSEC_MKA_MI_LEN = 0 then do {
          mn \<leftarrow> buf_at frame (body_pos + MACSEC_MKA_MI_LEN) 4;
          Some (Some (macsec_rd_be32 mn))
        }
        else mka_peer_list_find frame mi (body_pos + 16) body_end
      }
      else Some None)"
  by pat_completeness auto
termination by (relation "measure (\<lambda>(frame, mi, body_pos, body_end). body_end - body_pos)") auto

declare mka_peer_list_find.simps [simp del]

text \<open>
  The loop over the parameter sets. The set at offset 18 is the Basic Parameter Set. The result is
  whether \<open>mi\<close> was found, with the values stored through \<open>mn_out\<close> and \<open>list_type_out\<close>; on a negative
  result these keep the zeros the caller stored.
\<close>

function mka_peer_scan :: "bytes \<Rightarrow> bytes \<Rightarrow> nat \<Rightarrow> nat \<Rightarrow> (bool \<times> u32 \<times> u8) option" where
  "mka_peer_scan frame mi pos scan_end =
     (if pos + 4 \<le> scan_end then do {
        hdr \<leftarrow> buf_at frame pos 4;
        let body_len = unat (mka_param_body_len (hdr ! 2) (hdr ! 3));
        if pos = 18 then
          (if scan_end < pos + 4 + body_len then Some (False, 0, 0)
           else mka_peer_scan frame mi (pos + 4 + body_len) scan_end)
        else
          let type = hdr ! 0; body_pos = pos + 4; body_end = body_pos + body_len in
          if scan_end < body_end then Some (False, 0, 0)
          else if type = MACSEC_MKA_PARAM_LIVE_PEER_LIST \<or> type = MACSEC_MKA_PARAM_POTENTIAL_PEER_LIST
          then do {
            listed \<leftarrow> mka_peer_list_find frame mi body_pos body_end;
            case listed of
              Some listed_mn \<Rightarrow> Some (True, listed_mn, type)
            | None \<Rightarrow> mka_peer_scan frame mi body_end scan_end
          }
          else mka_peer_scan frame mi body_end scan_end
      }
      else Some (False, 0, 0))"
  by pat_completeness auto
termination by (relation "measure (\<lambda>(frame, mi, pos, scan_end). scan_end - pos)") auto

declare mka_peer_scan.simps [simp del]

definition macsec_mka_frame_contains_peer_entry ::
  "bytes \<Rightarrow> bytes \<Rightarrow> (bool \<times> u32 \<times> u8) option" where
  "macsec_mka_frame_contains_peer_entry frame mi = do {
     e \<leftarrow> mka_scan_end frame;
     case e of Inl _ \<Rightarrow> Some (False, 0, 0) | Inr scan_end \<Rightarrow> mka_peer_scan frame mi 18 scan_end
   }"

text \<open>
  The position, header bytes 0 and 1 and body length of the first parameter set of the given type
  after the Basic Parameter Set. The two parsers below have this loop and differ in what they do
  with the set they find.
\<close>

function mka_param_scan :: "bytes \<Rightarrow> u8 \<Rightarrow> nat \<Rightarrow> nat \<Rightarrow> (macsec_ret + nat \<times> u8 \<times> nat) option" where
  "mka_param_scan frame wanted pos scan_end =
     (if pos + 4 \<le> scan_end then do {
        hdr \<leftarrow> buf_at frame pos 4;
        let body_len = unat (mka_param_body_len (hdr ! 2) (hdr ! 3));
        if pos = 18 then
          (if scan_end < pos + 4 + body_len then Some (Inl MACSEC_ERR_BUFFER)
           else mka_param_scan frame wanted (pos + 4 + body_len) scan_end)
        else if scan_end < pos + 4 + body_len then Some (Inl MACSEC_ERR_BUFFER)
        else if hdr ! 0 = wanted then Some (Inr (pos, hdr ! 1, body_len))
        else mka_param_scan frame wanted (pos + 4 + body_len) scan_end
      }
      else Some (Inl MACSEC_ERR_NOT_READY))"
  by pat_completeness auto
termination by (relation "measure (\<lambda>(frame, wanted, pos, scan_end). scan_end - pos)") auto

declare mka_param_scan.simps [simp del]

definition mka_param_find :: "bytes \<Rightarrow> u8 \<Rightarrow> (macsec_ret + nat \<times> u8 \<times> nat) option" where
  "mka_param_find frame wanted = do {
     e \<leftarrow> mka_scan_end frame;
     case e of Inl ret \<Rightarrow> Some (Inl ret) | Inr scan_end \<Rightarrow> mka_param_scan frame wanted 18 scan_end
   }"

subsection \<open>Distributed SAK\<close>

text \<open>The end of \<open>macsec_mka_parse_distributed_sak\<close>: a SAK was unwrapped.\<close>

definition mka_accept_distributed_sak ::
  "macsec_mka_ctx \<Rightarrow> u32 \<Rightarrow> u8 \<Rightarrow> bytes \<Rightarrow> nat \<Rightarrow> macsec_ret \<times> macsec_mka_ctx" where
  "mka_accept_distributed_sak ctx key_number an unwrapped_sak sak_len =
     (let latest = mk_latest_sak ctx;
          same_sak = ms_lifecycle_state latest \<noteq> MACSEC_MKA_SAK_STATE_NONE \<and>
                     ms_origin latest = MACSEC_MKA_SAK_ORIGIN_REMOTE_KEY_SERVER \<and>
                     ms_key_number latest = key_number \<and> ms_an latest = an \<and>
                     ms_sak_len latest = sak_len \<and>
                     macsec_compare (ms_sak latest) unwrapped_sak sak_len = 0
      in if same_sak then (MACSEC_ERR_NOT_READY, ctx)
         else
           let (ret, ctx) = (if ms_lifecycle_state latest \<noteq> MACSEC_MKA_SAK_STATE_NONE
                             then macsec_mka_move_latest_to_old ctx else (MACSEC_ERR_OK, ctx))
           in if ret \<noteq> MACSEC_ERR_OK then (ret, ctx)
              else
                let ctx = ctx\<lparr>mk_latest_sak := macsec_mka_sak_clear
                      \<lparr>ms_sak := arr_put (ms_sak macsec_mka_sak_clear) (take sak_len unwrapped_sak),
                       ms_sak_len := sak_len, ms_an := an, ms_key_number := key_number,
                       ms_origin := MACSEC_MKA_SAK_ORIGIN_REMOTE_KEY_SERVER, ms_lowest_pn := 1,
                       ms_rx_installed := False, ms_tx_installed := False,
                       ms_peer_rx_confirmed := False, ms_peer_tx_confirmed := False\<rparr>\<rparr>;
                    ctx = macsec_mka_set_sak_state ctx LATEST_SAK MACSEC_MKA_SAK_STATE_CANDIDATE
                in (MACSEC_ERR_OK, macsec_mka_raise_events ctx MACSEC_MKA_EVENT_SAK_AVAILABLE))"

definition macsec_mka_parse_distributed_sak ::
  "macsec_mka_ctx \<Rightarrow> bytes \<Rightarrow> (macsec_ret \<times> macsec_mka_ctx) option" where
  "macsec_mka_parse_distributed_sak ctx frame = do {
     found \<leftarrow> mka_param_find frame MACSEC_MKA_PARAM_DISTRIBUTED_SAK;
     case found of
       Inl ret \<Rightarrow> Some (ret, ctx)
     | Inr (pos, flags, body_len) \<Rightarrow>
         if body_len < 4 + 24 then Some (MACSEC_ERR_BUFFER, ctx)
         else do {
           kn \<leftarrow> buf_at frame (pos + 4) 4;
           let key_number = macsec_rd_be32 kn;
           if key_number = 0 then Some (MACSEC_ERR_BUFFER, ctx)
           else do {
             let an = drop_bit 6 flags AND 0x03;
             let wrapped_sak_len = body_len - 4;
             if wrapped_sak_len \<noteq> 24 \<and> wrapped_sak_len \<noteq> 40 then Some (MACSEC_ERR_BUFFER, ctx)
             else do {
               wrapped_sak \<leftarrow> buf_at frame (pos + 8) wrapped_sak_len;
               let (ret, crypto, unwrapped_sak, sak_len) =
                 macsec_mka_crypto_unwrap_sak (mk_crypto ctx) wrapped_sak (replicate 32 0) 0 32;
               let ctx = ctx\<lparr>mk_crypto := crypto\<rparr>;
               if ret \<noteq> MACSEC_ERR_OK then Some (ret, ctx)
               else if sak_len \<noteq> 16 \<and> sak_len \<noteq> 32 then Some (MACSEC_ERR_BUFFER, ctx)
               else Some (mka_accept_distributed_sak ctx key_number an unwrapped_sak sak_len)
             }
           }
         }
   }"

subsection \<open>SAK Use\<close>

text \<open>The end of \<open>macsec_mka_parse_sak_use\<close>: the set refers to the latest SAK.\<close>

definition mka_peer_confirmation :: "macsec_mka_ctx \<Rightarrow> bool \<Rightarrow> bool \<Rightarrow> macsec_ret \<times> macsec_mka_ctx" where
  "mka_peer_confirmation ctx latest_tx latest_rx =
     (let ctx = ctx\<lparr>mk_latest_sak := (mk_latest_sak ctx)\<lparr>ms_peer_tx_confirmed := latest_tx,
                                                        ms_peer_rx_confirmed := latest_rx\<rparr>\<rparr>;
          latest = mk_latest_sak ctx
      in if ms_peer_rx_confirmed latest \<and> ms_peer_tx_confirmed latest then
           (if ms_lifecycle_state latest = MACSEC_MKA_SAK_STATE_ACTIVE then
              let ctx = macsec_mka_set_sak_state ctx LATEST_SAK MACSEC_MKA_SAK_STATE_CONFIRMED in
              if ms_lifecycle_state (mk_latest_sak ctx) \<noteq> MACSEC_MKA_SAK_STATE_CONFIRMED
              then (MACSEC_ERR_STATE, ctx)
              else
                let ctx = macsec_mka_raise_events ctx MACSEC_MKA_EVENT_SAK_CONFIRMED;
                    ctx = (if ms_lifecycle_state (mk_old_sak ctx) = MACSEC_MKA_SAK_STATE_RETIRING
                           then macsec_mka_raise_events ctx MACSEC_MKA_EVENT_SAK_RETIRE_REQUIRED else ctx)
                in (MACSEC_ERR_OK, ctx)
            else (MACSEC_ERR_OK, ctx))
         else if ms_lifecycle_state latest = MACSEC_MKA_SAK_STATE_CONFIRMED
         then (MACSEC_ERR_OK, macsec_mka_set_sak_state ctx LATEST_SAK MACSEC_MKA_SAK_STATE_ACTIVE)
         else (MACSEC_ERR_OK, ctx))"

definition macsec_mka_parse_sak_use ::
  "macsec_mka_ctx \<Rightarrow> bytes \<Rightarrow> (macsec_ret \<times> macsec_mka_ctx) option" where
  "macsec_mka_parse_sak_use ctx frame = do {
     found \<leftarrow> mka_param_find frame MACSEC_MKA_PARAM_SAK_USE;
     case found of
       Inl ret \<Rightarrow> Some (ret, ctx)
     | Inr (pos, flags, body_len) \<Rightarrow>
         if body_len < 40 then Some (MACSEC_ERR_BUFFER, ctx)
         else do {
           key_server_mi \<leftarrow> buf_at frame (pos + 4) MACSEC_MKA_MI_LEN;
           kn \<leftarrow> buf_at frame (pos + 4 + MACSEC_MKA_MI_LEN) 4;
           let key_number = macsec_rd_be32 kn;
           let an = drop_bit 6 flags AND 0x03;
           let latest_tx = (flags AND 0x20 \<noteq> 0);
           let latest_rx = (flags AND 0x10 \<noteq> 0);
           let latest = mk_latest_sak ctx;
           if (ms_lifecycle_state latest \<noteq> MACSEC_MKA_SAK_STATE_DISTRIBUTED \<and>
               ms_lifecycle_state latest \<noteq> MACSEC_MKA_SAK_STATE_INSTALL_PENDING \<and>
               ms_lifecycle_state latest \<noteq> MACSEC_MKA_SAK_STATE_ACTIVE \<and>
               ms_lifecycle_state latest \<noteq> MACSEC_MKA_SAK_STATE_CONFIRMED) \<or>
              ms_origin latest = MACSEC_MKA_SAK_ORIGIN_NONE
           then Some (MACSEC_ERR_NOT_READY, ctx)
           else if (if mk_local_key_server ctx
                    then ms_origin latest \<noteq> MACSEC_MKA_SAK_ORIGIN_LOCAL_KEY_SERVER \<or>
                         macsec_compare key_server_mi (mk_local_mi ctx) MACSEC_MKA_MI_LEN \<noteq> 0
                    else ms_origin latest \<noteq> MACSEC_MKA_SAK_ORIGIN_REMOTE_KEY_SERVER \<or>
                         \<not> mp_valid (mk_peer ctx) \<or>
                         macsec_compare key_server_mi (mp_mi (mk_peer ctx)) MACSEC_MKA_MI_LEN \<noteq> 0)
           then Some (MACSEC_ERR_NOT_READY, ctx)
           else if key_number \<noteq> ms_key_number latest \<or> an \<noteq> ms_an latest AND 0x03
           then Some (MACSEC_ERR_NOT_READY, ctx)
           else Some (mka_peer_confirmation ctx latest_tx latest_rx)
         }
   }"

subsection \<open>Input of an MKPDU\<close>

text \<open>
  The first part of \<open>macsec_mka_input\<close>, up to the comment that the MKPDU is authenticated: either a
  return with a code, or the parsed Basic Parameter Set.
\<close>

definition mka_input_authenticate ::
  "macsec_mka_ctx \<Rightarrow> bytes \<Rightarrow> ((macsec_ret + macsec_mka_basic) \<times> macsec_mka_ctx) option" where
  "mka_input_authenticate ctx frame = do {
     is_mka \<leftarrow> macsec_mka_is_eapol_mka frame;
     if \<not> is_mka then Some (Inl MACSEC_ERR_PARAM, ctx)
     else do {
       (ret, basic) \<leftarrow> macsec_mka_parse_basic frame mka_basic_zero;
       if ret \<noteq> MACSEC_ERR_OK then Some (Inl ret, ctx)
       else if macsec_compare (mb_src_mac basic) (mk_local_mac ctx) MACSEC_MKA_SRC_LEN = 0 \<or>
               macsec_compare (mb_sci basic) (mk_local_sci ctx) MACSEC_MKA_SCI_LEN = 0 \<or>
               macsec_compare (mb_actor_mi basic) (mk_local_mi ctx) MACSEC_MKA_MI_LEN = 0
       then Some (Inl MACSEC_ERR_OK, ctx)
       else do {
         let ctx = ctx\<lparr>mk_last_icv_valid := False\<rparr>;
         if mk_verify_icv ctx then do {
           (ret, ctx) \<leftarrow> macsec_mka_verify_icv ctx frame basic;
           if ret \<noteq> MACSEC_ERR_OK then Some (Inl ret, ctx)
           else Some (Inr basic, ctx\<lparr>mk_last_icv_valid := True\<rparr>)
         }
         else Some (Inr basic, ctx)
       }
     }
   }"

text \<open>The update of the peer and of its liveness from an authenticated MKPDU.\<close>

definition mka_input_peer ::
  "macsec_mka_ctx \<Rightarrow> macsec_mka_basic \<Rightarrow> bool \<Rightarrow> bool \<Rightarrow> bool \<Rightarrow> u32 \<Rightarrow> macsec_mka_ctx" where
  "mka_input_peer ctx basic peer_identity_changed previous_peer_live local_seen_by_peer now_ms =
     (let ctx = ctx\<lparr>mk_peer := (mk_peer ctx)
             \<lparr>mp_mac := mb_src_mac basic, mp_sci := mb_sci basic, mp_mi := mb_actor_mi basic,
              mp_mn := mb_actor_mn basic, mp_key_server_priority := mb_key_server_priority basic,
              mp_key_server := mb_key_server basic, mp_macsec_desired := mb_macsec_desired basic,
              mp_macsec_capability := mb_macsec_capability basic, mp_last_seen_ms := now_ms,
              mp_valid := True\<rparr>\<rparr>
      in if local_seen_by_peer then
           macsec_mka_set_state
             (ctx\<lparr>mk_peer := (mk_peer ctx)\<lparr>mp_seen_in_peer_list := True, mp_live := True\<rparr>\<rparr>)
             MACSEC_MKA_STATE_PEER_LIVE
         else if peer_identity_changed \<or> \<not> previous_peer_live then
           macsec_mka_set_state
             (ctx\<lparr>mk_peer := (mk_peer ctx)\<lparr>mp_seen_in_peer_list := False, mp_live := False\<rparr>\<rparr>)
             MACSEC_MKA_STATE_PEER_DISCOVERED
         else ctx\<lparr>mk_peer := (mk_peer ctx)\<lparr>mp_live := True\<rparr>\<rparr>)"

text \<open>The events and transmit reasons that the last part of \<open>macsec_mka_input\<close> raises.\<close>

definition mka_input_events ::
  "macsec_mka_ctx \<Rightarrow> bool \<Rightarrow> bool \<Rightarrow> bool \<Rightarrow> bool \<Rightarrow> macsec_mka_ctx" where
  "mka_input_events ctx peer_identity_changed peer_became_live peer_became_not_live key_server_changed =
     (let ctx = (if peer_identity_changed
                 then macsec_mka_schedule_tx
                        (macsec_mka_raise_events ctx
                           (MACSEC_MKA_EVENT_PEER_DISCOVERED OR MACSEC_MKA_EVENT_TX_PEER_CHANGE))
                        MACSEC_MKA_TX_REASON_PEER_CHANGE
                 else ctx);
          ctx = (if peer_became_live
                 then macsec_mka_schedule_tx
                        (macsec_mka_raise_events ctx
                           (MACSEC_MKA_EVENT_PEER_LIVE OR MACSEC_MKA_EVENT_TX_PEER_CHANGE))
                        MACSEC_MKA_TX_REASON_PEER_CHANGE
                 else ctx);
          ctx = (if peer_became_not_live
                 then macsec_mka_schedule_tx
                        (macsec_mka_raise_events ctx
                           (MACSEC_MKA_EVENT_PEER_LOST OR MACSEC_MKA_EVENT_TX_PEER_CHANGE))
                        MACSEC_MKA_TX_REASON_PEER_CHANGE
                 else ctx)
      in if key_server_changed
         then macsec_mka_schedule_tx
                (macsec_mka_raise_events ctx
                   (MACSEC_MKA_EVENT_KEY_SERVER_CHANGED OR MACSEC_MKA_EVENT_TX_KEY_SERVER_CHANGE))
                MACSEC_MKA_TX_REASON_KEY_SERVER_CHANGE
         else ctx)"

definition macsec_mka_input ::
  "(nat \<Rightarrow> bytes) \<Rightarrow> macsec_mka_ctx \<Rightarrow> bytes \<Rightarrow> u32 \<Rightarrow> (macsec_ret \<times> macsec_mka_ctx) option" where
  "macsec_mka_input rnd ctx frame now_ms = do {
     (authenticated, ctx) \<leftarrow> mka_input_authenticate ctx frame;
     case authenticated of
       Inl ret \<Rightarrow> Some (ret, ctx)
     | Inr basic \<Rightarrow> do {
         let ctx = ctx\<lparr>mk_last_basic := basic, mk_last_rx_ms := now_ms\<rparr>;
         let previous_peer_live = mp_live (mk_peer ctx);
         let previous_local_key_server = mk_local_key_server ctx;
         let peer_identity_changed =
           (\<not> mp_valid (mk_peer ctx) \<or>
            macsec_compare (mp_mi (mk_peer ctx)) (mb_actor_mi basic) MACSEC_MKA_MI_LEN \<noteq> 0 \<or>
            macsec_compare (mp_sci (mk_peer ctx)) (mb_sci basic) MACSEC_MKA_SCI_LEN \<noteq> 0 \<or>
            macsec_compare (mp_mac (mk_peer ctx)) (mb_src_mac basic) MACSEC_MKA_SRC_LEN \<noteq> 0);
         (distributed_sak_ret, ctx) \<leftarrow> macsec_mka_parse_distributed_sak ctx frame;
         if distributed_sak_ret \<noteq> MACSEC_ERR_OK \<and> distributed_sak_ret \<noteq> MACSEC_ERR_NOT_READY
         then Some (distributed_sak_ret, ctx)
         else do {
           (local_seen_by_peer, _, _) \<leftarrow> macsec_mka_frame_contains_peer_entry frame (mk_local_mi ctx);
           let ctx = mka_input_peer ctx basic peer_identity_changed previous_peer_live local_seen_by_peer now_ms;
           let peer_became_live = (\<not> previous_peer_live \<and> mp_live (mk_peer ctx));
           let peer_became_not_live =
             (\<not> peer_identity_changed \<and> previous_peer_live \<and> \<not> mp_live (mk_peer ctx));
           let ctx = ctx\<lparr>mk_local_key_server := macsec_mka_local_wins_key_server ctx\<rparr>;
           let key_server_changed = (previous_local_key_server \<noteq> mk_local_key_server ctx);
           let (ret, ctx) =
             (if peer_identity_changed \<and> mk_local_key_server ctx \<and>
                 ms_lifecycle_state (mk_latest_sak ctx) \<noteq> MACSEC_MKA_SAK_STATE_NONE
              then macsec_mka_start_rekey rnd ctx else (MACSEC_ERR_OK, ctx));
           if ret \<noteq> MACSEC_ERR_OK \<and> ret \<noteq> MACSEC_ERR_BUSY then Some (ret, ctx)
           else do {
             (sak_use_ret, ctx) \<leftarrow> macsec_mka_parse_sak_use ctx frame;
             if sak_use_ret \<noteq> MACSEC_ERR_OK \<and> sak_use_ret \<noteq> MACSEC_ERR_NOT_READY
             then Some (sak_use_ret, ctx)
             else Some (MACSEC_ERR_OK,
                        mka_input_events ctx peer_identity_changed peer_became_live
                          peer_became_not_live key_server_changed)
           }
         }
       }
   }"

end
