(* ===== verification/MkaTx.thy ===== *)
theory MkaTx
  imports MkaParse
begin

text \<open>
  The transmitting half of \<open>mka.c\<close>: the parameter sets and \<open>macsec_mka_build_tx_frame\<close>. The write
  pointer \<open>p\<close> is an offset into the output buffer, and a write outside the buffer is \<open>None\<close>.
\<close>

subsection \<open>Parameter sets\<close>

text \<open>\<open>memcpy(*p, bs, n); *p += n\<close>.\<close>

fun mka_emit :: "bytes \<Rightarrow> bytes \<times> nat \<Rightarrow> (bytes \<times> nat) option" where
  "mka_emit bs (frame, p) = do { frame \<leftarrow> buf_put frame p bs; Some (frame, p + length bs) }"

text \<open>The four bytes of a parameter set header.\<close>

definition mka_param_header :: "u8 \<Rightarrow> u8 \<Rightarrow> u16 \<Rightarrow> bytes" where
  "mka_param_header b0 b1 body_len =
     [b0, b1, ucast (drop_bit 8 body_len AND 0x0F), ucast (body_len AND 0xFF)]"

definition macsec_mka_write_peer_list ::
  "u8 \<Rightarrow> macsec_mka_peer \<Rightarrow> bytes \<times> nat \<Rightarrow> (bytes \<times> nat) option" where
  "macsec_mka_write_peer_list type peer out = do {
     out \<leftarrow> mka_emit (mka_param_header type 0 16) out;
     out \<leftarrow> mka_emit (take MACSEC_MKA_MI_LEN (mp_mi peer)) out;
     mka_emit (macsec_wr_be32 (mp_mn peer)) out
   }"

definition macsec_mka_write_sak_use ::
  "macsec_mka_ctx \<Rightarrow> bytes \<times> nat \<Rightarrow> (bytes \<times> nat) option" where
  "macsec_mka_write_sak_use ctx out =
     (let latest = mk_latest_sak ctx; old = mk_old_sak ctx;
          flags = (0 :: u8);
          flags = (if ms_lifecycle_state latest \<noteq> MACSEC_MKA_SAK_STATE_NONE then
                     let flags = flags OR push_bit 6 (ms_an latest AND 0x03);
                         flags = (if ms_tx_installed latest then flags OR 0x20 else flags)
                     in if ms_rx_installed latest then flags OR 0x10 else flags
                   else flags);
          flags = (if ms_lifecycle_state old = MACSEC_MKA_SAK_STATE_RETIRING then
                     let flags = flags OR push_bit 2 (ms_an old AND 0x03);
                         flags = (if ms_tx_installed old then flags OR 0x02 else flags)
                     in if ms_rx_installed old then flags OR 0x01 else flags
                   else flags);
          latest_key_server_mi = (if mk_local_key_server ctx then mk_local_mi ctx else mp_mi (mk_peer ctx));
          old_key_server_mi = (if ms_origin old = MACSEC_MKA_SAK_ORIGIN_LOCAL_KEY_SERVER
                               then mk_local_mi ctx else mp_mi (mk_peer ctx))
      in do {
        out \<leftarrow> mka_emit (mka_param_header MACSEC_MKA_PARAM_SAK_USE flags 40) out;
        out \<leftarrow> (if ms_lifecycle_state latest \<noteq> MACSEC_MKA_SAK_STATE_NONE then do {
                  out \<leftarrow> mka_emit (take MACSEC_MKA_MI_LEN latest_key_server_mi) out;
                  out \<leftarrow> mka_emit (macsec_wr_be32 (ms_key_number latest)) out;
                  mka_emit (macsec_wr_be32 (if ms_lowest_pn latest \<noteq> 0 then ms_lowest_pn latest else 1)) out
                }
                else mka_emit (replicate (MACSEC_MKA_MI_LEN + 8) 0) out);
        if ms_lifecycle_state old = MACSEC_MKA_SAK_STATE_RETIRING then do {
          out \<leftarrow> mka_emit (take MACSEC_MKA_MI_LEN old_key_server_mi) out;
          out \<leftarrow> mka_emit (macsec_wr_be32 (ms_key_number old)) out;
          mka_emit (macsec_wr_be32 (if ms_lowest_pn old \<noteq> 0 then ms_lowest_pn old else 1)) out
        }
        else do {
          out \<leftarrow> mka_emit (replicate (MACSEC_MKA_MI_LEN + 4) 0) out;
          mka_emit (macsec_wr_be32 1) out
        }
      })"

definition macsec_mka_write_distributed_sak ::
  "macsec_mka_ctx \<Rightarrow> bytes \<times> nat \<Rightarrow> (macsec_ret \<times> macsec_mka_ctx \<times> bytes \<times> nat) option" where
  "macsec_mka_write_distributed_sak ctx out =
     (let latest = mk_latest_sak ctx in
      if \<not> mka_sak_distributable latest then Some (MACSEC_ERR_STATE, ctx, out)
      else if ms_origin latest \<noteq> MACSEC_MKA_SAK_ORIGIN_LOCAL_KEY_SERVER then Some (MACSEC_ERR_STATE, ctx, out)
      else
        let (ret, crypto, wrapped_sak, wrapped_sak_len) =
              macsec_mka_crypto_wrap_sak (mk_crypto ctx) (take (ms_sak_len latest) (ms_sak latest))
                (replicate 40 0) 0 40;
            ctx = ctx\<lparr>mk_crypto := crypto\<rparr>
        in if ret \<noteq> MACSEC_ERR_OK then Some (ret, ctx, out)
           else do {
             let body_len = of_nat (4 + wrapped_sak_len);
             out \<leftarrow> mka_emit (mka_param_header MACSEC_MKA_PARAM_DISTRIBUTED_SAK
                               (push_bit 6 (ms_an latest AND 0x03)) body_len) out;
             out \<leftarrow> mka_emit (macsec_wr_be32 (ms_key_number latest)) out;
             out \<leftarrow> mka_emit (take wrapped_sak_len wrapped_sak) out;
             Some (MACSEC_ERR_OK, ctx, out)
           })"

subsection \<open>The frame\<close>

definition mka_include_distributed_sak :: "macsec_mka_ctx \<Rightarrow> bool" where
  "mka_include_distributed_sak ctx \<longleftrightarrow>
     mk_local_key_server ctx \<and> mp_valid (mk_peer ctx) \<and> mp_live (mk_peer ctx) \<and>
     mka_sak_distributable (mk_latest_sak ctx) \<and>
     ms_origin (mk_latest_sak ctx) = MACSEC_MKA_SAK_ORIGIN_LOCAL_KEY_SERVER \<and>
     (ms_lifecycle_state (mk_latest_sak ctx) = MACSEC_MKA_SAK_STATE_DISTRIBUTION_PENDING \<or>
      \<not> ms_peer_rx_confirmed (mk_latest_sak ctx))"

definition mka_include_sak_use :: "macsec_mka_ctx \<Rightarrow> bool" where
  "mka_include_sak_use ctx \<longleftrightarrow>
     (ms_lifecycle_state (mk_latest_sak ctx) \<noteq> MACSEC_MKA_SAK_STATE_NONE \<or>
      ms_lifecycle_state (mk_old_sak ctx) = MACSEC_MKA_SAK_STATE_RETIRING) \<and>
     mp_valid (mk_peer ctx) \<and> mp_live (mk_peer ctx)"

text \<open>The Ethernet and EAPOL headers and the Basic Parameter Set, in a frame erased up to its length.\<close>

definition mka_write_basic ::
  "macsec_mka_ctx \<Rightarrow> u32 \<Rightarrow> u16 \<Rightarrow> u16 \<Rightarrow> bytes \<Rightarrow> nat \<Rightarrow> (bytes \<times> nat) option" where
  "mka_write_basic ctx message_number eapol_len body_len frame total_len = do {
     frame \<leftarrow> buf_put frame 0 (replicate total_len 0);
     frame \<leftarrow> buf_put frame 0 macsec_mka_dst_mac;
     frame \<leftarrow> buf_put frame 6 (take MACSEC_MKA_SRC_LEN (mk_local_mac ctx));
     frame \<leftarrow> buf_put frame 12 (macsec_wr_be16 MACSEC_MKA_ETHERTYPE_EAPOL);
     frame \<leftarrow> buf_put frame 14 [MACSEC_MKA_EAPOL_VERSION_2010, MACSEC_MKA_EAPOL_TYPE_MKA];
     frame \<leftarrow> buf_put frame 16 (macsec_wr_be16 eapol_len);
     let flags_len_hi = (ucast (drop_bit 8 body_len AND 0x0F) :: u8);
     let flags_len_hi = (if mk_local_key_server ctx then flags_len_hi OR 0x80 else flags_len_hi);
     let flags_len_hi = (if mk_macsec_desired ctx then flags_len_hi OR 0x40 else flags_len_hi);
     let flags_len_hi = flags_len_hi OR push_bit 4 (mk_macsec_capability ctx AND 0x03);
     out \<leftarrow> mka_emit [MACSEC_MKA_VERSION_ID, mk_key_server_priority ctx, flags_len_hi,
                      ucast (body_len AND 0xFF)] (frame, 18);
     out \<leftarrow> mka_emit (take MACSEC_MKA_SCI_LEN (mk_local_sci ctx)) out;
     out \<leftarrow> mka_emit (take MACSEC_MKA_MI_LEN (mk_local_mi ctx)) out;
     out \<leftarrow> mka_emit (macsec_wr_be32 message_number) out;
     out \<leftarrow> mka_emit (macsec_wr_be32 MACSEC_MKA_ALGORITHM_AGILITY) out;
     mka_emit (take (unat (psk_ckn_len (mc_psk (mk_crypto ctx)))) (psk_ckn (mc_psk (mk_crypto ctx)))) out
   }"

text \<open>The parameter sets after the basic one, and the ICV. The code stops at the first failure.\<close>

definition mka_write_params ::
  "macsec_mka_ctx \<Rightarrow> bytes \<times> nat \<Rightarrow> (macsec_ret \<times> macsec_mka_ctx \<times> bytes \<times> nat) option" where
  "mka_write_params ctx out = do {
     out \<leftarrow> (if mp_valid (mk_peer ctx)
             then macsec_mka_write_peer_list
                    (if mp_live (mk_peer ctx) then MACSEC_MKA_PARAM_LIVE_PEER_LIST
                     else MACSEC_MKA_PARAM_POTENTIAL_PEER_LIST) (mk_peer ctx) out
             else Some out);
     (ret, ctx, out) \<leftarrow> (if mka_include_distributed_sak ctx
                         then macsec_mka_write_distributed_sak ctx out
                         else Some (MACSEC_ERR_OK, ctx, out));
     if ret \<noteq> MACSEC_ERR_OK then Some (ret, ctx, out)
     else do {
       out \<leftarrow> (if mka_include_sak_use ctx then macsec_mka_write_sak_use ctx out else Some out);
       Some (MACSEC_ERR_OK, ctx, out)
     }
   }"

definition mka_write_icv ::
  "macsec_mka_ctx \<Rightarrow> bytes \<Rightarrow> nat \<Rightarrow> (macsec_ret \<times> macsec_mka_ctx \<times> bytes) option" where
  "mka_write_icv ctx frame mic_len = do {
     pdu \<leftarrow> buf_at frame 0 mic_len;
     old_mic \<leftarrow> buf_at frame mic_len MACSEC_MKA_ICV_LEN;
     let (ret, crypto, mic) = macsec_mka_crypto_calc_mic (mk_crypto ctx) pdu old_mic;
     frame \<leftarrow> buf_put frame mic_len mic;
     Some (ret, ctx\<lparr>mk_crypto := crypto\<rparr>, frame)
   }"

text \<open>
  The result is the code, the context, the output buffer, the stored frame length and the
  structure \<open>meta\<close>. The lengths are \<open>uint16_t\<close> and wrap.
\<close>

definition macsec_mka_build_tx_frame ::
  "(nat \<Rightarrow> bytes) \<Rightarrow> macsec_mka_ctx \<Rightarrow> bytes \<Rightarrow> nat \<Rightarrow> nat \<Rightarrow> macsec_mka_tx_meta \<Rightarrow>
     (macsec_ret \<times> macsec_mka_ctx \<times> bytes \<times> nat \<times> macsec_mka_tx_meta) option" where
  "macsec_mka_build_tx_frame rnd ctx frame frame_len frame_max_len meta =
     (if \<not> keys_valid (mc_keys (mk_crypto ctx)) then Some (MACSEC_ERR_STATE, ctx, frame, frame_len, meta)
      else
        let frame_len = 0; meta = mka_meta_zero in
        if mk_tx_reasons ctx = MACSEC_MKA_TX_REASON_NONE
        then Some (MACSEC_ERR_NOT_READY, ctx, frame, frame_len, meta)
        else if \<not> unat (psk_ckn_len (mc_psk (mk_crypto ctx))) \<le> MACSEC_MKA_CA_NAME_MAX_LEN
        then Some (MACSEC_ERR_BUFFER, ctx, frame, frame_len, meta)
        else
          let (ret, ctx) = (if mk_local_key_server ctx \<and> mp_valid (mk_peer ctx) \<and> mp_live (mk_peer ctx)
                            then macsec_mka_key_server_ensure_sak rnd ctx else (MACSEC_ERR_OK, ctx))
          in if ret \<noteq> MACSEC_ERR_OK then Some (ret, ctx, frame, frame_len, meta)
             else
               let meta = meta\<lparr>mt_message_number := mk_local_mn ctx, mt_reasons := mk_tx_reasons ctx\<rparr>;
                   body_len = (28 + ucast (psk_ckn_len (mc_psk (mk_crypto ctx))) :: u16);
                   include_peer_list = mp_valid (mk_peer ctx);
                   peer_list_param_len = (if include_peer_list then 4 + 16 else 0 :: u16);
                   include_distributed_sak = mka_include_distributed_sak ctx;
                   latest = mk_latest_sak ctx
               in if include_distributed_sak \<and> ms_sak_len latest \<noteq> 16 \<and> ms_sak_len latest \<noteq> 32
                  then Some (MACSEC_ERR_STATE, ctx, frame, frame_len, meta)
                  else
                    let distributed_sak_param_len =
                          (if \<not> include_distributed_sak then 0
                           else if ms_sak_len latest = 16 then 4 + 4 + 24 else 4 + 4 + 40 :: u16);
                        meta = (if include_distributed_sak
                                then meta\<lparr>mt_distributed_key_number := ms_key_number latest,
                                          mt_distributed_an := ms_an latest\<rparr> else meta);
                        include_sak_use = mka_include_sak_use ctx;
                        sak_use_param_len = (if include_sak_use then 4 + 40 else 0 :: u16);
                        eapol_len = 4 + body_len + peer_list_param_len + distributed_sak_param_len +
                                    sak_use_param_len + of_nat MACSEC_MKA_ICV_LEN;
                        total_len = 14 + 4 + unat eapol_len
                    in if \<not> total_len \<le> frame_max_len
                       then Some (MACSEC_ERR_BUFFER, ctx, frame, frame_len, meta)
                       else if \<not> total_len \<le> MACSEC_MKA_MAX_FRAME_LEN
                       then Some (MACSEC_ERR_BUFFER, ctx, frame, frame_len, meta)
                       else do {
                         out \<leftarrow> mka_write_basic ctx (mt_message_number meta) eapol_len body_len frame total_len;
                         (ret, ctx, frame, p) \<leftarrow> mka_write_params ctx out;
                         if ret \<noteq> MACSEC_ERR_OK then Some (ret, ctx, frame, frame_len, meta)
                         else do {
                           (ret, ctx, frame) \<leftarrow> mka_write_icv ctx frame (total_len - MACSEC_MKA_ICV_LEN);
                           if ret \<noteq> MACSEC_ERR_OK then Some (ret, ctx, frame, frame_len, meta)
                           else Some (MACSEC_ERR_OK, ctx, frame, total_len,
                                      meta\<lparr>mt_contains_peer_list := include_peer_list,
                                           mt_contains_distributed_sak := include_distributed_sak,
                                           mt_contains_sak_use := include_sak_use\<rparr>)
                         }
                       })"

end
