(* ===== verification/MkaInv.thy ===== *)
theory MkaInv
  imports Mka MkaCryptoFacts
begin

text \<open>
  The lifecycle invariant of an MKA participant. \<open>mka_inv\<close> relates the participant state to the
  peer, gives the SAK states that each of the two slots can be in with the flags and lengths that go
  with them, and keeps the counters of the Key Server consistent with the SAKs it generated. Every
  operation keeps it, for every frame and every argument.
\<close>

subsection \<open>The two state machines as record updates\<close>

named_theorems mka_step_simps \<open>the bookkeeping calls as record updates\<close>
named_theorems mka_flags \<open>definitions of event and transmit flags\<close>

declare MACSEC_MKA_EVENT_NONE_def [mka_flags] MACSEC_MKA_EVENT_PEER_DISCOVERED_def [mka_flags]
  MACSEC_MKA_EVENT_PEER_LIVE_def [mka_flags] MACSEC_MKA_EVENT_PEER_LOST_def [mka_flags]
  MACSEC_MKA_EVENT_KEY_SERVER_CHANGED_def [mka_flags] MACSEC_MKA_EVENT_SAK_AVAILABLE_def [mka_flags]
  MACSEC_MKA_EVENT_SAK_DISTRIBUTED_def [mka_flags] MACSEC_MKA_EVENT_SAK_ACTIVE_def [mka_flags]
  MACSEC_MKA_EVENT_SAK_CONFIRMED_def [mka_flags] MACSEC_MKA_EVENT_SAK_RETIRED_def [mka_flags]
  MACSEC_MKA_EVENT_SAK_RETIRE_REQUIRED_def [mka_flags] MACSEC_MKA_EVENT_TX_INITIAL_def [mka_flags]
  MACSEC_MKA_EVENT_TX_PERIODIC_def [mka_flags] MACSEC_MKA_EVENT_TX_PEER_CHANGE_def [mka_flags]
  MACSEC_MKA_EVENT_TX_KEY_SERVER_CHANGE_def [mka_flags] MACSEC_MKA_EVENT_TX_DISTRIBUTE_SAK_def [mka_flags]
  MACSEC_MKA_EVENT_TX_SAK_USE_def [mka_flags] MACSEC_MKA_EVENT_REKEY_REQUIRED_def [mka_flags]
  MACSEC_MKA_EVENT_ERROR_def [mka_flags] MACSEC_MKA_TX_REASON_NONE_def [mka_flags]
  MACSEC_MKA_TX_REASON_INITIAL_def [mka_flags] MACSEC_MKA_TX_REASON_PERIODIC_def [mka_flags]
  MACSEC_MKA_TX_REASON_PEER_CHANGE_def [mka_flags] MACSEC_MKA_TX_REASON_KEY_SERVER_CHANGE_def [mka_flags]
  MACSEC_MKA_TX_REASON_DISTRIBUTE_SAK_def [mka_flags] MACSEC_MKA_TX_REASON_SAK_USE_def [mka_flags]
  MACSEC_MKA_TX_REASON_REKEY_def [mka_flags]

lemma raise_events_update [mka_step_simps]:
  "macsec_mka_raise_events ctx e = ctx\<lparr>mk_pending_events := mk_pending_events ctx OR e\<rparr>"
  by (simp add: macsec_mka_raise_events_def MACSEC_MKA_EVENT_NONE_def)

lemma schedule_tx_update [mka_step_simps]:
  "macsec_mka_schedule_tx ctx r = ctx\<lparr>mk_tx_reasons := mk_tx_reasons ctx OR r\<rparr>"
  by (simp add: macsec_mka_schedule_tx_def MACSEC_MKA_TX_REASON_NONE_def)

lemma set_state_update [mka_step_simps]:
  "macsec_mka_state_transition_allowed (mk_state ctx) s \<Longrightarrow> macsec_mka_set_state ctx s = ctx\<lparr>mk_state := s\<rparr>"
  by (simp add: macsec_mka_set_state_def del: macsec_mka_state_transition_allowed.simps)

lemma set_sak_state_update [mka_step_simps]:
  "macsec_mka_sak_transition_allowed (ms_lifecycle_state (mk_latest_sak ctx)) s \<Longrightarrow>
     macsec_mka_set_sak_state ctx LATEST_SAK s =
     ctx\<lparr>mk_latest_sak := (mk_latest_sak ctx)\<lparr>ms_lifecycle_state := s\<rparr>\<rparr>"
  "macsec_mka_sak_transition_allowed (ms_lifecycle_state (mk_old_sak ctx)) s \<Longrightarrow>
     macsec_mka_set_sak_state ctx OLD_SAK s =
     ctx\<lparr>mk_old_sak := (mk_old_sak ctx)\<lparr>ms_lifecycle_state := s\<rparr>\<rparr>"
  by (auto simp: macsec_mka_set_sak_state_def Let_def simp del: macsec_mka_sak_transition_allowed.simps)

subsection \<open>The invariant\<close>

text \<open>A SAK in a slot: an empty slot is all zero, a used one has a valid length, AN and number.\<close>

definition mka_sak_ok :: "macsec_mka_sak \<Rightarrow> bool" where
  "mka_sak_ok sak \<longleftrightarrow> length (ms_sak sak) = 32 \<and>
     (if ms_lifecycle_state sak = MACSEC_MKA_SAK_STATE_NONE then sak = macsec_mka_sak_clear
      else (ms_sak_len sak = 16 \<or> ms_sak_len sak = 32) \<and> ms_an sak < 4 \<and> ms_key_number sak \<noteq> 0 \<and>
           ms_origin sak \<noteq> MACSEC_MKA_SAK_ORIGIN_NONE)"

definition mka_latest_ok :: "macsec_mka_sak \<Rightarrow> bool" where
  "mka_latest_ok sak \<longleftrightarrow> mka_sak_ok sak \<and>
     (case ms_lifecycle_state sak of
        MACSEC_MKA_SAK_STATE_NONE \<Rightarrow> True
      | MACSEC_MKA_SAK_STATE_CANDIDATE \<Rightarrow>
          ms_origin sak = MACSEC_MKA_SAK_ORIGIN_REMOTE_KEY_SERVER \<and>
          \<not> ms_rx_installed sak \<and> \<not> ms_tx_installed sak
      | MACSEC_MKA_SAK_STATE_DISTRIBUTION_PENDING \<Rightarrow>
          ms_origin sak = MACSEC_MKA_SAK_ORIGIN_LOCAL_KEY_SERVER \<and>
          \<not> ms_rx_installed sak \<and> \<not> ms_tx_installed sak
      | MACSEC_MKA_SAK_STATE_DISTRIBUTED \<Rightarrow>
          ms_origin sak = MACSEC_MKA_SAK_ORIGIN_LOCAL_KEY_SERVER \<and>
          \<not> ms_rx_installed sak \<and> \<not> ms_tx_installed sak
      | MACSEC_MKA_SAK_STATE_INSTALL_PENDING \<Rightarrow> \<not> (ms_rx_installed sak \<and> ms_tx_installed sak)
      | MACSEC_MKA_SAK_STATE_ACTIVE \<Rightarrow> ms_rx_installed sak \<and> ms_tx_installed sak \<and>
          \<not> (ms_peer_rx_confirmed sak \<and> ms_peer_tx_confirmed sak)
      | MACSEC_MKA_SAK_STATE_CONFIRMED \<Rightarrow> ms_rx_installed sak \<and> ms_tx_installed sak \<and>
          ms_peer_rx_confirmed sak \<and> ms_peer_tx_confirmed sak
      | MACSEC_MKA_SAK_STATE_RETIRING \<Rightarrow> False)"

definition mka_old_ok :: "macsec_mka_sak \<Rightarrow> bool" where
  "mka_old_ok sak \<longleftrightarrow> mka_sak_ok sak \<and>
     (ms_lifecycle_state sak = MACSEC_MKA_SAK_STATE_NONE \<or> ms_lifecycle_state sak = MACSEC_MKA_SAK_STATE_RETIRING)"

text \<open>The participant state says whether there is a peer and whether it is live.\<close>

definition mka_state_ok :: "macsec_mka_state \<Rightarrow> macsec_mka_peer \<Rightarrow> bool" where
  "mka_state_ok s peer \<longleftrightarrow>
     (case s of
        MACSEC_MKA_STATE_WAIT_PEER \<Rightarrow> \<not> mp_valid peer \<and> \<not> mp_live peer
      | MACSEC_MKA_STATE_PEER_DISCOVERED \<Rightarrow> mp_valid peer \<and> \<not> mp_live peer
      | MACSEC_MKA_STATE_PEER_LIVE \<Rightarrow> mp_valid peer \<and> mp_live peer
      | MACSEC_MKA_STATE_OPERATIONAL \<Rightarrow> mp_valid peer \<and> mp_live peer
      | _ \<Rightarrow> False)"

text \<open>
  The counters of the Key Server. The next SAK has the counters as they stand; a SAK that was
  distributed has the association number before, and a local SAK being replaced the one before that
  of the latest.
\<close>

definition mka_undistributed :: "macsec_mka_sak \<Rightarrow> bool" where
  "mka_undistributed sak \<longleftrightarrow> ms_lifecycle_state sak = MACSEC_MKA_SAK_STATE_NONE \<or>
     ms_lifecycle_state sak = MACSEC_MKA_SAK_STATE_DISTRIBUTION_PENDING"

definition mka_an_ok :: "macsec_mka_sak \<Rightarrow> macsec_mka_sak \<Rightarrow> u8 \<Rightarrow> bool" where
  "mka_an_ok latest old next_an \<longleftrightarrow> next_an < 4 \<and>
     (ms_origin latest = MACSEC_MKA_SAK_ORIGIN_LOCAL_KEY_SERVER \<longrightarrow>
        next_an = (ms_an latest + (if mka_undistributed latest then 0 else 1)) AND 3) \<and>
     (ms_origin old = MACSEC_MKA_SAK_ORIGIN_LOCAL_KEY_SERVER \<and>
      ms_origin latest \<noteq> MACSEC_MKA_SAK_ORIGIN_REMOTE_KEY_SERVER \<longrightarrow>
        next_an = (ms_an old + (if mka_undistributed latest then 1 else 2)) AND 3)"

text \<open>The sizes of the arrays.\<close>

definition mka_arrays_ok :: "macsec_mka_ctx \<Rightarrow> bool" where
  "mka_arrays_ok ctx \<longleftrightarrow>
     length (mk_local_mac ctx) = 6 \<and> length (mk_local_sci ctx) = 8 \<and> length (mk_local_mi ctx) = 12 \<and>
     length (mk_mic_work ctx) = 512 \<and> length (mp_mac (mk_peer ctx)) = 6 \<and>
     length (mp_sci (mk_peer ctx)) = 8 \<and> length (mp_mi (mk_peer ctx)) = 12"

definition mka_keys_ok :: "macsec_mka_crypto_ctx \<Rightarrow> bool" where
  "mka_keys_ok c \<longleftrightarrow> mka_crypto_wf c \<and> psk_valid (mc_psk c) \<and> keys_valid (mc_keys c)"

definition mka_inv :: "macsec_mka_ctx \<Rightarrow> bool" where
  "mka_inv ctx \<longleftrightarrow> mka_arrays_ok ctx \<and> mka_keys_ok (mk_crypto ctx) \<and> mk_verify_icv ctx \<and>
     mka_state_ok (mk_state ctx) (mk_peer ctx) \<and>
     mka_latest_ok (mk_latest_sak ctx) \<and> mka_old_ok (mk_old_sak ctx) \<and>
     mka_an_ok (mk_latest_sak ctx) (mk_old_sak ctx) (mk_key_server_next_an ctx) \<and>
     mk_key_server_next_key_number ctx \<noteq> 0 \<and> mk_local_mn ctx \<noteq> 0 \<and>
     \<not> bit (mk_pending_events ctx) 31"

lemma mka_sak_clear_ok [simp]:
  "mka_sak_ok macsec_mka_sak_clear" "mka_latest_ok macsec_mka_sak_clear" "mka_old_ok macsec_mka_sak_clear"
  "ms_origin macsec_mka_sak_clear = MACSEC_MKA_SAK_ORIGIN_NONE"
  "ms_lifecycle_state macsec_mka_sak_clear = MACSEC_MKA_SAK_STATE_NONE"
  "mka_undistributed macsec_mka_sak_clear"
  by (simp_all add: mka_sak_ok_def mka_latest_ok_def mka_old_ok_def macsec_mka_sak_clear_def mka_undistributed_def)

lemma mka_an_mask: "unat ((x :: u8) AND 3) = unat x mod 4"
proof -
  have "x AND 3 = take_bit 2 x" by (simp add: take_bit_eq_mask mask_eq_exp_minus_1)
  then have "unat (x AND 3) = take_bit 2 (unat x)" by transfer (simp add: take_bit_nat_eq)
  then show ?thesis by (simp add: take_bit_eq_mod)
qed

lemma an_lt_4 [simp]: "(x :: u8) AND 3 < 4"
  by (simp add: mka_an_mask word_less_nat_alt)

lemma an_id: "(x :: u8) < 4 \<Longrightarrow> x AND 3 = x"
  by (simp add: mka_an_mask word_less_nat_alt word_unat_eq_iff)

lemma an_succ: "((x :: u8) AND 3) + 1 AND 3 = (x + 1) AND 3"
proof -
  have "Suc (unat x) mod 256 mod 4 = Suc (unat x) mod 4" by (rule mod_mod_cancel) simp
  then show ?thesis by (simp add: word_unat_eq_iff mka_an_mask unat_word_ariths mod_simps)
qed

subsection \<open>Changing one part\<close>

text \<open>Each part of the invariant sees few fields; these rules leave only what an operation changes.\<close>

lemma mka_inv_latest:
  "mka_inv ctx \<Longrightarrow> mka_latest_ok sak \<Longrightarrow> mka_an_ok sak (mk_old_sak ctx) (mk_key_server_next_an ctx) \<Longrightarrow>
     mka_inv (ctx\<lparr>mk_latest_sak := sak\<rparr>)"
  by (simp add: mka_inv_def mka_arrays_ok_def)

lemma mka_inv_old:
  "mka_inv ctx \<Longrightarrow> mka_old_ok sak \<Longrightarrow> mka_an_ok (mk_latest_sak ctx) sak (mk_key_server_next_an ctx) \<Longrightarrow>
     mka_inv (ctx\<lparr>mk_old_sak := sak\<rparr>)"
  by (simp add: mka_inv_def mka_arrays_ok_def)

lemma mka_inv_both:
  "mka_inv ctx \<Longrightarrow> mka_latest_ok latest \<Longrightarrow> mka_old_ok old \<Longrightarrow>
     mka_an_ok latest old (mk_key_server_next_an ctx) \<Longrightarrow>
     mka_inv (ctx\<lparr>mk_old_sak := old, mk_latest_sak := latest\<rparr>)"
  by (simp add: mka_inv_def mka_arrays_ok_def)

lemma mka_inv_state:
  "mka_inv ctx \<Longrightarrow> mka_state_ok s (mk_peer ctx) \<Longrightarrow> mka_inv (ctx\<lparr>mk_state := s\<rparr>)"
  by (simp add: mka_inv_def mka_arrays_ok_def)

lemma mka_inv_crypto: "mka_inv ctx \<Longrightarrow> mka_keys_ok c \<Longrightarrow> mka_inv (ctx\<lparr>mk_crypto := c\<rparr>)"
  by (simp add: mka_inv_def mka_arrays_ok_def)

lemma mka_inv_bookkeeping:
  "mka_inv ctx \<Longrightarrow> mka_inv (ctx\<lparr>mk_last_basic := b\<rparr>)" "mka_inv ctx \<Longrightarrow> mka_inv (ctx\<lparr>mk_last_rx_ms := t\<rparr>)"
  "mka_inv ctx \<Longrightarrow> mka_inv (ctx\<lparr>mk_last_icv_valid := v\<rparr>)" "mka_inv ctx \<Longrightarrow> mka_inv (ctx\<lparr>mk_last_tick_ms := t\<rparr>)"
  "mka_inv ctx \<Longrightarrow> mka_inv (ctx\<lparr>mk_last_tx_ms := t\<rparr>)" "mka_inv ctx \<Longrightarrow> mka_inv (ctx\<lparr>mk_tx_reasons := r\<rparr>)"
  "mka_inv ctx \<Longrightarrow> mka_inv (ctx\<lparr>mk_local_key_server := v\<rparr>)"
  "mka_inv ctx \<Longrightarrow> mka_inv (ctx\<lparr>mk_pending_events := 0\<rparr>)"
  "mka_inv ctx \<Longrightarrow> n \<noteq> 0 \<Longrightarrow> mka_inv (ctx\<lparr>mk_local_mn := n\<rparr>)"
  "mka_inv ctx \<Longrightarrow> length w = 512 \<Longrightarrow> mka_inv (ctx\<lparr>mk_mic_work := w\<rparr>)"
  by (simp_all add: mka_inv_def mka_arrays_ok_def)

lemma raise_events_inv: "mka_inv ctx \<Longrightarrow> \<not> bit e 31 \<Longrightarrow> mka_inv (macsec_mka_raise_events ctx e)"
  by (simp add: mka_step_simps mka_inv_def mka_arrays_ok_def bit_or_iff)

lemma schedule_tx_inv: "mka_inv ctx \<Longrightarrow> mka_inv (macsec_mka_schedule_tx ctx r)"
  by (simp add: mka_step_simps mka_inv_def mka_arrays_ok_def)

lemma mka_an_ok_latest:
  "mka_an_ok latest old n \<Longrightarrow> ms_origin latest' = ms_origin latest \<Longrightarrow> ms_an latest' = ms_an latest \<Longrightarrow>
     (ms_origin latest \<noteq> MACSEC_MKA_SAK_ORIGIN_REMOTE_KEY_SERVER \<Longrightarrow>
        mka_undistributed latest' = mka_undistributed latest) \<Longrightarrow> mka_an_ok latest' old n"
  by (auto simp: mka_an_ok_def)

lemma mka_an_ok_old:
  "mka_an_ok latest old n \<Longrightarrow> ms_origin old' = ms_origin old \<Longrightarrow> ms_an old' = ms_an old \<Longrightarrow> mka_an_ok latest old' n"
  by (simp add: mka_an_ok_def)

text \<open>The state and the peer stay as they are and there is no error event in the calls below.\<close>

lemma mka_inv_state_cases:
  assumes "mka_inv ctx"
  shows "mk_state ctx \<noteq> MACSEC_MKA_STATE_INIT" "mk_state ctx \<noteq> MACSEC_MKA_STATE_ERROR"
    "ms_lifecycle_state (mk_latest_sak ctx) \<noteq> MACSEC_MKA_SAK_STATE_RETIRING"
    "mka_latest_ok (mk_latest_sak ctx)" "mka_old_ok (mk_old_sak ctx)"
    "mka_an_ok (mk_latest_sak ctx) (mk_old_sak ctx) (mk_key_server_next_an ctx)"
  using assms by (auto simp: mka_inv_def mka_state_ok_def mka_latest_ok_def)

subsection \<open>Operations without a frame\<close>

lemma clear_sak_fields [simp]:
  "ms_an macsec_mka_sak_clear = 0" "ms_sak_len macsec_mka_sak_clear = 0"
  "ms_key_number macsec_mka_sak_clear = 0" "length (ms_sak macsec_mka_sak_clear) = 32"
  "\<not> ms_rx_installed macsec_mka_sak_clear" "\<not> ms_tx_installed macsec_mka_sak_clear"
  by (simp_all add: macsec_mka_sak_clear_def)

lemma take_events_inv: "mka_inv ctx \<Longrightarrow> mka_inv (snd (macsec_mka_take_events ctx))"
  by (simp add: macsec_mka_take_events_def mka_inv_bookkeeping mka_flags)

text \<open>A SAK is handed out exactly when it waits for its installation, and then waits in \<open>INSTALL_PENDING\<close>.\<close>

definition mka_sak_available :: "macsec_mka_sak \<Rightarrow> bool" where
  "mka_sak_available sak \<longleftrightarrow>
     ms_lifecycle_state sak \<in> {MACSEC_MKA_SAK_STATE_CANDIDATE, MACSEC_MKA_SAK_STATE_DISTRIBUTED,
                               MACSEC_MKA_SAK_STATE_INSTALL_PENDING}"

lemma take_sak_spec:
  assumes inv: "mka_inv ctx"
  defines "sak \<equiv> mk_latest_sak ctx"
  shows "macsec_mka_take_sak_for_install ctx =
    (if mka_sak_available sak
     then let sak' = sak\<lparr>ms_lifecycle_state := MACSEC_MKA_SAK_STATE_INSTALL_PENDING\<rparr>
          in (MACSEC_ERR_OK, sak', ctx\<lparr>mk_latest_sak := sak'\<rparr>)
     else (MACSEC_ERR_NOT_READY, macsec_mka_sak_clear, ctx))"
proof -
  have ok: "mka_latest_ok sak" using inv by (simp add: sak_def mka_inv_def)
  show ?thesis
  proof (cases "ms_lifecycle_state sak = MACSEC_MKA_SAK_STATE_NONE")
    case True
    then show ?thesis
      by (simp add: macsec_mka_take_sak_for_install_def sak_def [symmetric] mka_sak_available_def)
  next
    case False
    with ok have "(ms_sak_len sak = 16 \<or> ms_sak_len sak = 32)" "\<not> 4 \<le> ms_an sak" "ms_key_number sak \<noteq> 0"
      by (auto simp: mka_latest_ok_def mka_sak_ok_def)
    with False ok show ?thesis
      by (cases "ms_lifecycle_state sak"; cases "ms_origin sak")
         (auto simp: macsec_mka_take_sak_for_install_def sak_def [symmetric] mka_sak_available_def Let_def
           mka_latest_ok_def mka_sak_ok_def mka_step_simps)
  qed
qed

lemma take_sak_for_install_inv:
  assumes "mka_inv ctx" shows "mka_inv (snd (snd (macsec_mka_take_sak_for_install ctx)))"
proof (cases "mka_sak_available (mk_latest_sak ctx)")
  case True
  with mka_inv_state_cases [OF assms]
  have "mka_latest_ok (mk_latest_sak ctx\<lparr>ms_lifecycle_state := MACSEC_MKA_SAK_STATE_INSTALL_PENDING\<rparr>)"
    "mka_an_ok (mk_latest_sak ctx\<lparr>ms_lifecycle_state := MACSEC_MKA_SAK_STATE_INSTALL_PENDING\<rparr>)
       (mk_old_sak ctx) (mk_key_server_next_an ctx)"
    by (auto simp: mka_sak_available_def mka_latest_ok_def mka_sak_ok_def mka_undistributed_def
        elim!: mka_an_ok_latest)
  with assms True show ?thesis by (simp add: take_sak_spec Let_def mka_inv_latest)
qed (simp add: take_sak_spec assms)

definition mka_sak_installed :: "macsec_mka_sak \<Rightarrow> bool" where
  "mka_sak_installed sak \<longleftrightarrow> ms_rx_installed sak \<or> ms_tx_installed sak"

text \<open>The copy of the latest SAK that \<open>macsec_mka_move_latest_to_old\<close> leaves in the old slot.\<close>

definition mka_retired :: "macsec_mka_sak \<Rightarrow> macsec_mka_sak" where
  "mka_retired sak = sak\<lparr>ms_peer_rx_confirmed := False, ms_peer_tx_confirmed := False,
     ms_lifecycle_state := MACSEC_MKA_SAK_STATE_RETIRING\<rparr>"

lemma move_latest_to_old_spec:
  assumes inv: "mka_inv ctx"
  defines "sak \<equiv> mk_latest_sak ctx"
  shows "macsec_mka_move_latest_to_old ctx =
    (if ms_lifecycle_state sak = MACSEC_MKA_SAK_STATE_NONE then (MACSEC_ERR_NOT_READY, ctx)
     else if ms_lifecycle_state (mk_old_sak ctx) \<noteq> MACSEC_MKA_SAK_STATE_NONE then (MACSEC_ERR_BUSY, ctx)
     else if mka_sak_installed sak
     then (MACSEC_ERR_OK, ctx\<lparr>mk_old_sak := mka_retired sak, mk_latest_sak := macsec_mka_sak_clear\<rparr>)
     else (MACSEC_ERR_OK, ctx\<lparr>mk_latest_sak := macsec_mka_sak_clear\<rparr>))"
proof -
  have "mka_latest_ok sak" using inv by (simp add: sak_def mka_inv_def)
  then show ?thesis
    by (cases "ms_lifecycle_state sak")
       (auto simp: macsec_mka_move_latest_to_old_def sak_def [symmetric] Let_def mka_sak_installed_def
         mka_retired_def mka_latest_ok_def mka_step_simps)
qed

lemma move_latest_to_old_inv:
  assumes "mka_inv ctx" shows "mka_inv (snd (macsec_mka_move_latest_to_old ctx))"
proof -
  let ?sak = "mk_latest_sak ctx"
  note inv = mka_inv_state_cases [OF assms]
  consider (installed) "ms_lifecycle_state ?sak \<noteq> MACSEC_MKA_SAK_STATE_NONE"
      "ms_lifecycle_state (mk_old_sak ctx) = MACSEC_MKA_SAK_STATE_NONE" "mka_sak_installed ?sak"
    | (dropped) "ms_lifecycle_state (mk_old_sak ctx) = MACSEC_MKA_SAK_STATE_NONE"
      "snd (macsec_mka_move_latest_to_old ctx) = ctx\<lparr>mk_latest_sak := macsec_mka_sak_clear\<rparr>"
    | (none) "snd (macsec_mka_move_latest_to_old ctx) = ctx"
    using move_latest_to_old_spec [OF assms] by (auto split: if_splits)
  then show ?thesis
  proof cases
    case installed
    then have "mka_old_ok (mka_retired ?sak)"
      using inv by (auto simp: mka_old_ok_def mka_retired_def mka_latest_ok_def mka_sak_ok_def)
    moreover have "mka_an_ok macsec_mka_sak_clear (mka_retired ?sak) (mk_key_server_next_an ctx)"
      using inv installed by (auto simp: mka_an_ok_def mka_retired_def mka_undistributed_def mka_sak_installed_def
          mka_latest_ok_def split: macsec_mka_sak_state.splits)
    ultimately show ?thesis
      using installed assms by (simp add: move_latest_to_old_spec mka_inv_both)
  next
    case dropped
    then have "mk_old_sak ctx = macsec_mka_sak_clear"
      using inv by (auto simp: mka_old_ok_def mka_sak_ok_def)
    with inv have "mka_an_ok macsec_mka_sak_clear (mk_old_sak ctx) (mk_key_server_next_an ctx)"
      by (simp add: mka_an_ok_def)
    with dropped assms show ?thesis by (simp add: mka_inv_latest)
  qed (simp add: assms)
qed

text \<open>The SAK that the Key Server generates from 16 random bytes.\<close>

definition mka_new_sak :: "bytes \<Rightarrow> macsec_mka_ctx \<Rightarrow> macsec_mka_sak" where
  "mka_new_sak key ctx = \<lparr>ms_sak = key @ replicate 16 0, ms_sak_len = 16, ms_an = mk_key_server_next_an ctx,
     ms_key_number = mk_key_server_next_key_number ctx, ms_origin = MACSEC_MKA_SAK_ORIGIN_LOCAL_KEY_SERVER,
     ms_lifecycle_state = MACSEC_MKA_SAK_STATE_DISTRIBUTION_PENDING, ms_rx_installed = False,
     ms_tx_installed = False, ms_peer_rx_confirmed = False, ms_peer_tx_confirmed = False, ms_lowest_pn = 1\<rparr>"

lemma ensure_sak_spec:
  assumes inv: "mka_inv ctx" and rnd: "length (rnd 16) = 16"
  shows "macsec_mka_key_server_ensure_sak rnd ctx =
    (if \<not> mk_local_key_server ctx then (MACSEC_ERR_STATE, ctx)
     else if \<not> mp_live (mk_peer ctx) then (MACSEC_ERR_NOT_READY, ctx)
     else if ms_lifecycle_state (mk_latest_sak ctx) \<noteq> MACSEC_MKA_SAK_STATE_NONE
     then (if ms_origin (mk_latest_sak ctx) = MACSEC_MKA_SAK_ORIGIN_LOCAL_KEY_SERVER
           then MACSEC_ERR_OK else MACSEC_ERR_STATE, ctx)
     else (MACSEC_ERR_OK,
           macsec_mka_schedule_tx
             (macsec_mka_raise_events (ctx\<lparr>mk_latest_sak := mka_new_sak (rnd 16) ctx\<rparr>)
               MACSEC_MKA_EVENT_TX_DISTRIBUTE_SAK) MACSEC_MKA_TX_REASON_DISTRIBUTE_SAK))"
proof -
  have "mp_live (mk_peer ctx) \<longrightarrow> mp_valid (mk_peer ctx)"
    using inv by (auto simp: mka_inv_def mka_state_ok_def split: macsec_mka_state.splits)
  moreover have "mk_key_server_next_an ctx AND 3 = mk_key_server_next_an ctx"
    using inv by (simp add: mka_inv_def mka_an_ok_def an_id)
  ultimately show ?thesis
    using rnd by (auto simp: macsec_mka_key_server_ensure_sak_def Let_def mka_step_simps mka_new_sak_def
        macsec_mka_sak_clear_def arr_put_def)
qed

lemma new_sak_inv:
  assumes inv: "mka_inv ctx" and key: "length key = 16"
    and none: "ms_lifecycle_state (mk_latest_sak ctx) = MACSEC_MKA_SAK_STATE_NONE"
  shows "mka_inv (ctx\<lparr>mk_latest_sak := mka_new_sak key ctx\<rparr>)"
proof (rule mka_inv_latest [OF inv])
  show "mka_latest_ok (mka_new_sak key ctx)"
    using inv key by (simp add: mka_inv_def mka_an_ok_def mka_latest_ok_def mka_sak_ok_def mka_new_sak_def)
  show "mka_an_ok (mka_new_sak key ctx) (mk_old_sak ctx) (mk_key_server_next_an ctx)"
    using mka_inv_state_cases(4,6) [OF inv] none
    by (auto simp: mka_an_ok_def mka_new_sak_def mka_undistributed_def an_id mka_latest_ok_def mka_sak_ok_def)
qed

lemma ensure_sak_inv:
  "mka_inv ctx \<Longrightarrow> length (rnd 16) = 16 \<Longrightarrow> mka_inv (snd (macsec_mka_key_server_ensure_sak rnd ctx))"
  by (auto simp: ensure_sak_spec mka_flags intro!: schedule_tx_inv raise_events_inv new_sak_inv)

lemma start_rekey_inv:
  assumes inv: "mka_inv ctx" and rnd: "length (rnd 16) = 16"
  shows "mka_inv (snd (macsec_mka_start_rekey rnd ctx))"
proof -
  obtain r1 c1 where m: "(if ms_lifecycle_state (mk_latest_sak ctx) \<noteq> MACSEC_MKA_SAK_STATE_NONE
      then macsec_mka_move_latest_to_old ctx else (MACSEC_ERR_OK, ctx)) = (r1, c1)" "mka_inv c1"
    using move_latest_to_old_inv [OF inv] inv by (metis prod.collapse snd_conv)
  obtain r2 c2 where e: "(if mp_valid (mk_peer c1) \<and> mp_live (mk_peer c1)
      then macsec_mka_key_server_ensure_sak rnd c1 else (MACSEC_ERR_OK, c1)) = (r2, c2)" "mka_inv c2"
    using ensure_sak_inv [where rnd = rnd, OF m(2) rnd] m(2) by (metis prod.collapse snd_conv)
  have "mka_inv (macsec_mka_schedule_tx (macsec_mka_raise_events c2 MACSEC_MKA_EVENT_REKEY_REQUIRED) r)" for r
    by (intro schedule_tx_inv raise_events_inv e(2)) (simp add: mka_flags)
  then have "mka_inv (macsec_mka_schedule_tx (macsec_mka_raise_events (macsec_mka_schedule_tx
      (macsec_mka_raise_events c2 MACSEC_MKA_EVENT_REKEY_REQUIRED) r) MACSEC_MKA_EVENT_TX_DISTRIBUTE_SAK) r')" for r r'
    by (intro schedule_tx_inv raise_events_inv e(2)) (simp_all add: mka_flags)
  with inv m(2) e(2) show ?thesis
    unfolding macsec_mka_start_rekey_def Let_def m(1) prod.case e(1)
    by (simp add: schedule_tx_inv raise_events_inv mka_flags)
qed

subsection \<open>Notifications\<close>

text \<open>A SAK that is installed in both directions, and what follows from it.\<close>

definition mka_activated :: "macsec_mka_sak \<Rightarrow> macsec_mka_sak" where
  "mka_activated sak = sak\<lparr>ms_rx_installed := True, ms_tx_installed := True, ms_lifecycle_state :=
     (if ms_peer_rx_confirmed sak \<and> ms_peer_tx_confirmed sak then MACSEC_MKA_SAK_STATE_CONFIRMED
      else MACSEC_MKA_SAK_STATE_ACTIVE)\<rparr>"

definition mka_active_events :: "macsec_mka_sak \<Rightarrow> macsec_mka_sak \<Rightarrow> u32" where
  "mka_active_events sak old = MACSEC_MKA_EVENT_SAK_ACTIVE OR MACSEC_MKA_EVENT_TX_SAK_USE OR
     (if ms_peer_rx_confirmed sak \<and> ms_peer_tx_confirmed sak then MACSEC_MKA_EVENT_SAK_CONFIRMED else 0) OR
     (if (ms_peer_rx_confirmed sak \<and> ms_peer_tx_confirmed sak) \<and> ms_lifecycle_state old = MACSEC_MKA_SAK_STATE_RETIRING
      then MACSEC_MKA_EVENT_SAK_RETIRE_REQUIRED else 0)"

lemma both_installed_spec:
  assumes inv: "mka_state_ok (mk_state ctx) (mk_peer ctx)"
    and sak: "mk_latest_sak ctx = sak\<lparr>ms_rx_installed := True, ms_tx_installed := True\<rparr>"
    and pending: "ms_lifecycle_state sak = MACSEC_MKA_SAK_STATE_INSTALL_PENDING"
  shows "mka_sak_both_installed ctx = (MACSEC_ERR_OK, macsec_mka_raise_events (macsec_mka_schedule_tx
      (ctx\<lparr>mk_latest_sak := mka_activated sak, mk_state := (if mp_valid (mk_peer ctx) \<and> mp_live (mk_peer ctx)
           then MACSEC_MKA_STATE_OPERATIONAL else mk_state ctx)\<rparr>) MACSEC_MKA_TX_REASON_SAK_USE)
      (mka_active_events sak (mk_old_sak ctx)))"
proof -
  have op: "macsec_mka_state_transition_allowed (mk_state ctx) MACSEC_MKA_STATE_OPERATIONAL"
    if "mp_valid (mk_peer ctx)" "mp_live (mk_peer ctx)"
    using inv that by (cases "mk_state ctx") (simp_all add: mka_state_ok_def)
  define confirmed where "confirmed = (ms_peer_rx_confirmed sak \<and> ms_peer_tx_confirmed sak)"
  show ?thesis
    using op pending
    by (cases "mp_valid (mk_peer ctx)"; cases "mp_live (mk_peer ctx)"; cases confirmed;
        cases "ms_lifecycle_state (mk_old_sak ctx) = MACSEC_MKA_SAK_STATE_RETIRING")
       (simp_all add: mka_sak_both_installed_def Let_def sak mka_activated_def mka_active_events_def
         confirmed_def [symmetric] mka_step_simps or.assoc del: macsec_mka_state_transition_allowed.simps)
qed

lemma both_installed_inv:
  assumes inv: "mka_inv (ctx\<lparr>mk_latest_sak := sak\<rparr>)" 
    and sak: "mk_latest_sak ctx = sak\<lparr>ms_rx_installed := True, ms_tx_installed := True\<rparr>"
    and pending: "ms_lifecycle_state sak = MACSEC_MKA_SAK_STATE_INSTALL_PENDING"
  shows "mka_inv (snd (mka_sak_both_installed ctx))" "fst (mka_sak_both_installed ctx) = MACSEC_ERR_OK"
proof -
  define s where "s = (if mp_valid (mk_peer ctx) \<and> mp_live (mk_peer ctx) then MACSEC_MKA_STATE_OPERATIONAL else mk_state ctx)"
  have st: "mka_state_ok (mk_state ctx) (mk_peer ctx)" using inv by (simp add: mka_inv_def)
  note eq = both_installed_spec [OF st sak pending, folded s_def]
  have "mka_latest_ok (mka_activated sak)" "mka_an_ok (mka_activated sak) (mk_old_sak ctx) (mk_key_server_next_an ctx)"
    using inv pending
    by (auto simp: mka_inv_def mka_latest_ok_def mka_sak_ok_def mka_activated_def mka_undistributed_def
        elim!: mka_an_ok_latest)
  from mka_inv_latest [OF inv, of "mka_activated sak"] this have "mka_inv (ctx\<lparr>mk_latest_sak := mka_activated sak\<rparr>)" by simp
  moreover have "mka_state_ok s (mk_peer ctx)"
    using st by (auto simp: s_def mka_state_ok_def split: macsec_mka_state.splits)
  ultimately have "mka_inv (ctx\<lparr>mk_latest_sak := mka_activated sak, mk_state := s\<rparr>)"
    using mka_inv_state [of "ctx\<lparr>mk_latest_sak := mka_activated sak\<rparr>" s] by simp
  then show "mka_inv (snd (mka_sak_both_installed ctx))"
    by (auto simp: eq mka_active_events_def mka_flags bit_or_iff intro!: raise_events_inv schedule_tx_inv)
  show "fst (mka_sak_both_installed ctx) = MACSEC_ERR_OK" by (simp add: eq)
qed

text \<open>The latest SAK after a report that \<open>dirs\<close> are installed.\<close>

definition mka_mark_installed :: "macsec_mka_sak \<Rightarrow> u8 \<Rightarrow> u32 \<Rightarrow> macsec_mka_sak" where
  "mka_mark_installed sak dirs lowest_pn = sak
     \<lparr>ms_rx_installed := ms_rx_installed sak \<or> dirs AND MACSEC_MKA_INSTALL_RX \<noteq> 0,
      ms_tx_installed := ms_tx_installed sak \<or> dirs AND MACSEC_MKA_INSTALL_TX \<noteq> 0,
      ms_lowest_pn := if lowest_pn \<noteq> 0 then lowest_pn else 1\<rparr>"

definition mka_stop_old_tx :: "macsec_mka_sak \<Rightarrow> u8 \<Rightarrow> macsec_mka_sak" where
  "mka_stop_old_tx old dirs =
     (if dirs AND MACSEC_MKA_INSTALL_TX \<noteq> 0 \<and> ms_lifecycle_state old = MACSEC_MKA_SAK_STATE_RETIRING
      then old\<lparr>ms_tx_installed := False\<rparr> else old)"

lemma notify_sak_installed_spec:
  fixes ctx :: macsec_mka_ctx
  defines "sak \<equiv> mk_latest_sak ctx"
  shows "macsec_mka_notify_sak_installed ctx key_number an dirs lowest_pn =
    (if ms_lifecycle_state sak = MACSEC_MKA_SAK_STATE_NONE then (MACSEC_ERR_NOT_READY, ctx)
     else if ms_lifecycle_state sak \<noteq> MACSEC_MKA_SAK_STATE_INSTALL_PENDING then (MACSEC_ERR_STATE, ctx)
     else if ms_key_number sak \<noteq> key_number \<or> ms_an sak AND 3 \<noteq> an AND 3 \<or> dirs = 0 \<or>
             dirs AND NOT (MACSEC_MKA_INSTALL_RX OR MACSEC_MKA_INSTALL_TX) \<noteq> 0
     then (MACSEC_ERR_PARAM, ctx)
     else
       let c = ctx\<lparr>mk_old_sak := mka_stop_old_tx (mk_old_sak ctx) dirs,
                   mk_latest_sak := mka_mark_installed sak dirs lowest_pn\<rparr>
       in if ms_rx_installed (mk_latest_sak c) \<and> ms_tx_installed (mk_latest_sak c)
          then mka_sak_both_installed c else (MACSEC_ERR_OK, c))"
proof -
  have upd: "ctx\<lparr>mk_old_sak := mk_old_sak ctx\<rparr> = ctx" by simp
  then show ?thesis
    by (cases "dirs AND MACSEC_MKA_INSTALL_RX = 0"; cases "dirs AND MACSEC_MKA_INSTALL_TX = 0";
        cases "ms_lifecycle_state (mk_old_sak ctx) = MACSEC_MKA_SAK_STATE_RETIRING")
       (simp_all add: macsec_mka_notify_sak_installed_def Let_def sak_def mka_mark_installed_def
          mka_stop_old_tx_def MACSEC_MKA_INSTALL_NONE_def upd)
qed

lemma notify_sak_installed_inv:
  assumes inv: "mka_inv ctx"
  shows "mka_inv (snd (macsec_mka_notify_sak_installed ctx key_number an dirs lowest_pn))"
proof -
  define sak where "sak = mk_latest_sak ctx"
  define old where "old = mka_stop_old_tx (mk_old_sak ctx) dirs"
  define c where "c = ctx\<lparr>mk_old_sak := old, mk_latest_sak := mka_mark_installed sak dirs lowest_pn\<rparr>"
  have lo: "mka_latest_ok sak" "mka_old_ok (mk_old_sak ctx)" "mka_an_ok sak (mk_old_sak ctx) (mk_key_server_next_an ctx)"
    using inv by (auto simp: mka_inv_def sak_def)
  have old: "mka_old_ok old" "mka_an_ok sak old (mk_key_server_next_an ctx)"
    using lo(2) mka_an_ok_old [OF lo(3), of old]
    by (auto simp: mka_old_ok_def mka_sak_ok_def old_def mka_stop_old_tx_def)
  have c: "mka_inv (if ms_rx_installed (mk_latest_sak c) \<and> ms_tx_installed (mk_latest_sak c)
      then snd (mka_sak_both_installed c) else c)" if pending: "ms_lifecycle_state sak = MACSEC_MKA_SAK_STATE_INSTALL_PENDING"
  proof -
    have upd: "mka_inv (ctx\<lparr>mk_old_sak := old, mk_latest_sak := sak'\<rparr>)" if "mka_latest_ok sak'"
        "ms_origin sak' = ms_origin sak" "ms_an sak' = ms_an sak" "mka_undistributed sak' = mka_undistributed sak" for sak'
      by (rule mka_inv_both [OF inv that(1) old(1) mka_an_ok_latest [OF old(2) that(2,3)]]) (rule that(4))
    show ?thesis
    proof (cases "ms_rx_installed (mk_latest_sak c) \<and> ms_tx_installed (mk_latest_sak c)")
      case True
      define sak' where "sak' = (mk_latest_sak c)\<lparr>ms_rx_installed := False\<rparr>"
      have "mka_inv (c\<lparr>mk_latest_sak := sak'\<rparr>)"
        using upd [of sak'] lo(1) pending
        by (simp add: c_def sak'_def mka_mark_installed_def mka_latest_ok_def mka_sak_ok_def mka_undistributed_def)
      from both_installed_inv(1) [OF this] True pending show ?thesis
        by (simp add: sak'_def) (simp add: c_def mka_mark_installed_def)
    next
      case False
      then have "mka_latest_ok (mka_mark_installed sak dirs lowest_pn)"
        using lo(1) pending by (auto simp: c_def mka_mark_installed_def mka_latest_ok_def mka_sak_ok_def)
      then have "mka_inv c"
        using pending unfolding c_def by (intro upd) (simp_all add: mka_mark_installed_def mka_undistributed_def)
      with False show ?thesis by auto
    qed
  qed
  show ?thesis
    unfolding notify_sak_installed_spec Let_def sak_def [symmetric] old_def [symmetric] c_def [symmetric]
    using inv c by auto
qed

lemma notify_sak_retired_inv:
  assumes inv: "mka_inv ctx" shows "mka_inv (snd (macsec_mka_notify_sak_retired ctx key_number an))"
proof (cases "ms_lifecycle_state (mk_old_sak ctx) = MACSEC_MKA_SAK_STATE_NONE")
  case True
  then show ?thesis by (simp add: macsec_mka_notify_sak_retired_def inv)
next
  case False
  with inv have r: "ms_lifecycle_state (mk_old_sak ctx) = MACSEC_MKA_SAK_STATE_RETIRING"
    by (simp add: mka_inv_def mka_old_ok_def)
  have "mka_inv (ctx\<lparr>mk_old_sak := macsec_mka_sak_clear\<rparr>)"
    using inv by (intro mka_inv_old) (auto simp: mka_inv_def mka_an_ok_def)
  then have "mka_inv (macsec_mka_raise_events (ctx\<lparr>mk_old_sak := macsec_mka_sak_clear\<rparr>) MACSEC_MKA_EVENT_SAK_RETIRED)"
    by (rule raise_events_inv) (simp add: mka_flags)
  with r inv show ?thesis
    by (simp add: macsec_mka_notify_sak_retired_def Let_def set_sak_state_update)
qed

subsection \<open>Timer and outcome of a transmission\<close>

lemma peer_timeout_inv:
  assumes inv: "mka_inv ctx" shows "mka_inv (mka_peer_timeout ctx now_ms)"
proof -
  have st: "mka_state_ok (mk_state ctx) (mk_peer ctx)" using inv by (simp add: mka_inv_def)
  then have allowed: "macsec_mka_state_transition_allowed (mk_state ctx) MACSEC_MKA_STATE_WAIT_PEER"
    by (cases "mk_state ctx") (simp_all add: mka_state_ok_def)
  define peer where "peer = (mk_peer ctx)\<lparr>mp_valid := False, mp_live := False, mp_seen_in_peer_list := False\<rparr>"
  have "mka_inv (ctx\<lparr>mk_peer := peer, mk_state := MACSEC_MKA_STATE_WAIT_PEER\<rparr>)"
    using inv by (simp add: mka_inv_def mka_arrays_ok_def mka_state_ok_def peer_def)
  then have "mka_inv (macsec_mka_schedule_tx (macsec_mka_raise_events
      (ctx\<lparr>mk_peer := peer, mk_state := MACSEC_MKA_STATE_WAIT_PEER\<rparr>)
      (MACSEC_MKA_EVENT_PEER_LOST OR MACSEC_MKA_EVENT_TX_PEER_CHANGE)) r)" for r
    by (intro schedule_tx_inv raise_events_inv) (simp_all add: mka_flags)
  with inv allowed show ?thesis
    by (simp add: mka_peer_timeout_def Let_def peer_def [symmetric] set_state_update
        del: macsec_mka_state_transition_allowed.simps)
qed

lemma tick_inv:
  assumes inv: "mka_inv ctx" shows "mka_inv (snd (macsec_mka_tick ctx now_ms))"
proof -
  define c where "c = mka_peer_timeout (ctx\<lparr>mk_last_tick_ms := now_ms\<rparr>) now_ms"
  have "mka_inv c" unfolding c_def by (intro peer_timeout_inv mka_inv_bookkeeping inv)
  then show ?thesis
    unfolding macsec_mka_tick_def Let_def c_def [symmetric]
    by (auto simp: mka_flags intro!: schedule_tx_inv raise_events_inv)
qed

lemma commit_distribution_inv:
  assumes inv: "mka_inv ctx"
    and pending: "ms_lifecycle_state (mk_latest_sak ctx) = MACSEC_MKA_SAK_STATE_DISTRIBUTION_PENDING"
  shows "mka_inv (snd (mka_commit_distribution ctx))" "fst (mka_commit_distribution ctx) = MACSEC_ERR_OK"
proof -
  define n where "n = mk_key_server_next_an ctx"
  define k where "k = mk_key_server_next_key_number ctx"
  define sak where "sak = (mk_latest_sak ctx)\<lparr>ms_lifecycle_state := MACSEC_MKA_SAK_STATE_DISTRIBUTED\<rparr>"
  define events where "events = MACSEC_MKA_EVENT_SAK_DISTRIBUTED OR MACSEC_MKA_EVENT_SAK_AVAILABLE"
  have eq: "mka_commit_distribution ctx = (MACSEC_ERR_OK, (macsec_mka_raise_events ctx events)
      \<lparr>mk_latest_sak := sak, mk_key_server_next_key_number := (if k + 1 = 0 then 1 else k + 1),
       mk_key_server_next_an := (n + 1) AND 3\<rparr>)"
    using pending by (simp add: mka_commit_distribution_def Let_def mka_step_simps sak_def events_def n_def k_def)
  have l: "mka_latest_ok sak"
    using inv pending by (auto simp: mka_inv_def mka_latest_ok_def mka_sak_ok_def sak_def)
  have an: "mka_an_ok (mk_latest_sak ctx) (mk_old_sak ctx) n"
    using inv by (simp add: mka_inv_def n_def)
  have succ: "y + 1 AND 3 = (x + 2) AND 3" if "y AND 3 = (x + 1) AND 3" for x y :: u8
    using an_succ [of "x + 1"] an_succ [of y] that by (simp add: add.assoc)
  have "mka_an_ok sak (mk_old_sak ctx) ((n + 1) AND 3)"
    using an pending inv
    by (auto simp: mka_an_ok_def mka_undistributed_def sak_def an_succ mka_inv_def mka_latest_ok_def intro: succ)
  with l raise_events_inv [OF inv, of events] show "mka_inv (snd (mka_commit_distribution ctx))"
    unfolding eq by (simp add: events_def mka_flags mka_inv_def mka_arrays_ok_def mka_step_simps)
  show "fst (mka_commit_distribution ctx) = MACSEC_ERR_OK" by (simp add: eq)
qed

lemma notify_tx_success_inv:
  assumes inv: "mka_inv ctx" shows "mka_inv (snd (macsec_mka_notify_tx_success ctx meta now_ms))"
proof -
  have fin: "mka_inv (c\<lparr>mk_local_mn := n, mk_last_tx_ms := t, mk_tx_reasons := r\<rparr>)" if "mka_inv c" "n \<noteq> 0" for c n t r
    using that by (simp add: mka_inv_def mka_arrays_ok_def)
  obtain r c where rc: "(if mt_contains_distributed_sak meta then
       (if \<not> mka_sak_distributable (mk_latest_sak ctx) \<or>
           ms_origin (mk_latest_sak ctx) \<noteq> MACSEC_MKA_SAK_ORIGIN_LOCAL_KEY_SERVER \<or>
           ms_key_number (mk_latest_sak ctx) \<noteq> mt_distributed_key_number meta \<or>
           ms_an (mk_latest_sak ctx) \<noteq> mt_distributed_an meta
        then (MACSEC_ERR_STATE, ctx)
        else if ms_lifecycle_state (mk_latest_sak ctx) = MACSEC_MKA_SAK_STATE_DISTRIBUTION_PENDING
        then mka_commit_distribution ctx
        else (MACSEC_ERR_OK, ctx))
     else (MACSEC_ERR_OK, ctx)) = (r, c)" by (metis surj_pair)
  with inv commit_distribution_inv(1) [OF inv] have c: "mka_inv c" by (auto split: if_splits)
  have "mk_local_mn c + 1 = 0 \<or> mk_local_mn c + 1 \<noteq> 0" by simp
  then show ?thesis
    using inv c fin [OF c, of "mk_local_mn c + 1"] fin [OF c, of 1]
    unfolding macsec_mka_notify_tx_success_def Let_def rc prod.case by auto
qed

lemma notify_tx_failure_inv: "mka_inv ctx \<Longrightarrow> mka_inv (macsec_mka_notify_tx_failure ctx meta)"
  by (simp add: macsec_mka_notify_tx_failure_def mka_inv_bookkeeping)

end
