(* ===== verification/MkaParseFacts.thy ===== *)
theory MkaParseFacts
  imports MkaParse MkaInv
begin

text \<open>
  The receiving half of MKA is total and keeps the lifecycle invariant: for every frame the parser
  reads only inside it, the scanning loops end, and \<open>macsec_mka_input\<close> gives a result that
  satisfies \<open>mka_inv\<close>.
\<close>

subsection \<open>Bounds of the parser\<close>

lemma is_eapol_mka_spec:
  "macsec_mka_is_eapol_mka frame =
     Some (18 \<le> length frame \<and> macsec_rd_be16 (take 2 (drop 12 frame)) = MACSEC_MKA_ETHERTYPE_EAPOL \<and>
           frame ! 15 = MACSEC_MKA_EAPOL_TYPE_MKA)"
  by (simp add: macsec_mka_is_eapol_mka_def buf_simps)

text \<open>What a Basic Parameter Set that was accepted says about the frame.\<close>

definition mka_basic_ok :: "bytes \<Rightarrow> macsec_mka_basic \<Rightarrow> bool" where
  "mka_basic_ok frame b \<longleftrightarrow>
     18 + unat (mb_eapol_len b) \<le> length frame \<and> 48 \<le> unat (mb_eapol_len b) \<and>
     mb_eapol_len b = macsec_rd_be16 (take 2 (drop 16 frame)) \<and>
     mb_src_mac b = take 6 (drop 6 frame) \<and> mb_sci b = take 8 (drop 22 frame) \<and>
     mb_actor_mi b = take 12 (drop 30 frame) \<and> mb_actor_mn b = macsec_rd_be32 (take 4 (drop 42 frame)) \<and>
     mb_icv b = take 16 (drop (2 + unat (mb_eapol_len b)) frame) \<and>
     mb_key_server_priority b = frame ! 19 \<and> mb_key_server b = (frame ! 20 AND 0x80 \<noteq> 0) \<and>
     mb_macsec_desired b = (frame ! 20 AND 0x40 \<noteq> 0) \<and>
     mb_macsec_capability b = drop_bit 4 (frame ! 20) AND 3 \<and>
     mb_body_len b = mka_param_body_len (frame ! 20) (frame ! 21) \<and>
     28 \<le> unat (mb_body_len b) \<and> unat (mb_body_len b) \<le> 60 \<and>
     22 + unat (mb_body_len b) \<le> 2 + unat (mb_eapol_len b)"

lemma parse_basic_total:
  obtains ret b where "macsec_mka_parse_basic frame out = Some (ret, b)"
    "ret = MACSEC_ERR_OK \<Longrightarrow> mka_basic_ok frame b"
proof -
  have "\<exists>ret b. macsec_mka_parse_basic frame out = Some (ret, b) \<and> (ret = MACSEC_ERR_OK \<longrightarrow> mka_basic_ok frame b)"
  proof (cases "66 \<le> length frame")
    case False
    then show ?thesis by (simp add: macsec_mka_parse_basic_def)
  next
    case True
    from True show ?thesis
      unfolding macsec_mka_parse_basic_def Let_def
      by (simp add: buf_simps)
         (auto simp: mka_basic_ok_def buf_simps word_le_nat_alt drop_take)
  qed
  with that show thesis by blast
qed

lemma mka_scan_end_total:
  obtains (stop) ret where "mka_scan_end frame = Some (Inl ret)" "ret \<in> {MACSEC_ERR_NOT_READY, MACSEC_ERR_BUFFER}"
  | (scan) scan_end where "mka_scan_end frame = Some (Inr scan_end)" "scan_end \<le> length frame"
proof (cases "length frame < 90")
  case True
  then show thesis by (intro stop [of MACSEC_ERR_NOT_READY]) (simp_all add: mka_scan_end_def)
next
  case False
  then show thesis
    using stop [of MACSEC_ERR_BUFFER] scan [of "2 + unat (macsec_rd_be16 (take 2 (drop 16 frame)))"]
    by (cases "unat (macsec_rd_be16 (take 2 (drop 16 frame))) < 16";
        cases "length frame < 2 + unat (macsec_rd_be16 (take 2 (drop 16 frame)))")
       (simp_all add: mka_scan_end_def Let_def buf_simps)
qed

lemma peer_list_find_total: "body_end \<le> length frame \<Longrightarrow> mka_peer_list_find frame mi body_pos body_end \<noteq> None"
proof (induction frame mi body_pos body_end rule: mka_peer_list_find.induct)
  case (1 frame mi body_pos body_end)
  then show ?case
    by (subst mka_peer_list_find.simps) (auto simp: buf_simps)
qed

text \<open>The body length of the parameter set at \<open>pos\<close>, and one turn of each loop.\<close>

definition mka_len_at :: "bytes \<Rightarrow> nat \<Rightarrow> nat" where
  "mka_len_at frame pos = unat (mka_param_body_len (frame ! (pos + 2)) (frame ! (pos + 3)))"

lemma peer_scan_step:
  assumes "pos + 4 \<le> scan_end" "scan_end \<le> length frame"
  shows "mka_peer_scan frame mi pos scan_end =
    (if scan_end < pos + 4 + mka_len_at frame pos then Some (False, 0, 0)
     else if pos = 18 \<or> (frame ! pos \<noteq> MACSEC_MKA_PARAM_LIVE_PEER_LIST \<and>
                         frame ! pos \<noteq> MACSEC_MKA_PARAM_POTENTIAL_PEER_LIST)
     then mka_peer_scan frame mi (pos + 4 + mka_len_at frame pos) scan_end
     else do {
       listed \<leftarrow> mka_peer_list_find frame mi (pos + 4) (pos + 4 + mka_len_at frame pos);
       case listed of
         Some listed_mn \<Rightarrow> Some (True, listed_mn, frame ! pos)
       | None \<Rightarrow> mka_peer_scan frame mi (pos + 4 + mka_len_at frame pos) scan_end
     })"
  using assms by (subst mka_peer_scan.simps) (auto simp: Let_def buf_simps mka_len_at_def)

lemma param_scan_step:
  assumes "pos + 4 \<le> scan_end" "scan_end \<le> length frame"
  shows "mka_param_scan frame wanted pos scan_end =
    (if scan_end < pos + 4 + mka_len_at frame pos then Some (Inl MACSEC_ERR_BUFFER)
     else if pos \<noteq> 18 \<and> frame ! pos = wanted then Some (Inr (pos, frame ! (pos + 1), mka_len_at frame pos))
     else mka_param_scan frame wanted (pos + 4 + mka_len_at frame pos) scan_end)"
  using assms by (subst mka_param_scan.simps) (auto simp: Let_def buf_simps mka_len_at_def)

lemma peer_scan_total: "scan_end \<le> length frame \<Longrightarrow> mka_peer_scan frame mi pos scan_end \<noteq> None"
proof (induction "scan_end - pos" arbitrary: pos rule: less_induct)
  case less
  show ?case
  proof (cases "pos + 4 \<le> scan_end")
    case True
    then have "mka_peer_scan frame mi (pos + 4 + mka_len_at frame pos) scan_end \<noteq> None"
      using less by auto
    with True less.prems peer_list_find_total [of "pos + 4 + mka_len_at frame pos" frame mi "pos + 4"] show ?thesis
      by (auto simp: peer_scan_step ex_bool_eq split: option.splits)
  qed (subst mka_peer_scan.simps, simp)
qed

lemma contains_peer_total: "macsec_mka_frame_contains_peer_entry frame mi \<noteq> None"
  by (rule mka_scan_end_total [of frame]) (auto simp: macsec_mka_frame_contains_peer_entry_def peer_scan_total)

lemma param_scan_total:
  assumes "scan_end \<le> length frame"
  obtains (stop) ret where "mka_param_scan frame wanted pos scan_end = Some (Inl ret)"
      "ret \<in> {MACSEC_ERR_NOT_READY, MACSEC_ERR_BUFFER}"
  | (found) pos' flags body_len where
      "mka_param_scan frame wanted pos scan_end = Some (Inr (pos', flags, body_len))"
      "pos' + 4 + body_len \<le> scan_end"
proof -
  have "(\<exists>ret. mka_param_scan frame wanted pos scan_end = Some (Inl ret) \<and>
        ret \<in> {MACSEC_ERR_NOT_READY, MACSEC_ERR_BUFFER}) \<or>
     (\<exists>pos' flags body_len. mka_param_scan frame wanted pos scan_end = Some (Inr (pos', flags, body_len)) \<and>
        pos' + 4 + body_len \<le> scan_end)"
    using assms
  proof (induction "scan_end - pos" arbitrary: pos rule: less_induct)
    case less
    show ?case
    proof (cases "pos + 4 \<le> scan_end")
      case True
      with less.hyps [of "pos + 4 + mka_len_at frame pos"] less.prems show ?thesis
        by (auto simp: param_scan_step)
    qed (subst mka_param_scan.simps, simp)+
  qed
  with stop found show thesis by blast
qed

lemma param_find_total:
  obtains (stop) ret where "mka_param_find frame wanted = Some (Inl ret)"
      "ret \<in> {MACSEC_ERR_NOT_READY, MACSEC_ERR_BUFFER}"
  | (found) pos flags body_len where "mka_param_find frame wanted = Some (Inr (pos, flags, body_len))"
      "pos + 4 + body_len \<le> length frame"
proof (cases rule: mka_scan_end_total [of frame])
  case (stop ret)
  then show thesis by (intro that(1) [of ret]) (simp_all add: mka_param_find_def)
next
  case (scan scan_end)
  show thesis
  proof (rule param_scan_total [OF scan(2), of wanted 18], goal_cases)
    case (1 ret)
    with scan show ?case by (intro that(1) [of ret]) (simp_all add: mka_param_find_def)
  next
    case (2 pos flags body_len)
    with scan show ?case by (intro that(2) [of pos flags body_len]) (simp_all add: mka_param_find_def)
  qed
qed

subsection \<open>The ICV\<close>

lemma mka_basic_ok_len:
  assumes "mka_basic_ok frame b"
  shows "18 + unat (mb_eapol_len b) \<le> length frame" "48 \<le> unat (mb_eapol_len b)"
    "length (mb_icv b) = 16" "length (mb_src_mac b) = 6" "length (mb_sci b) = 8" "length (mb_actor_mi b) = 12"
  using assms unfolding mka_basic_ok_def by auto

lemma verify_icv_spec:
  assumes inv: "mka_inv ctx" and b: "mka_basic_ok frame b"
  defines "n \<equiv> 2 + unat (mb_eapol_len b)"
  obtains (long) "512 < n" "macsec_mka_verify_icv ctx frame b = Some (MACSEC_ERR_BUFFER, ctx)"
  | (checked) c work where "n \<le> 512" "length work = 512"
      "macsec_mka_verify_icv ctx frame b =
         Some (if mb_icv b = cmac_spec (mka_ick_cipher (mk_crypto ctx)) (take n frame)
               then MACSEC_ERR_OK else MACSEC_ERR_AUTH,
               ctx\<lparr>mk_mic_work := work, mk_crypto := (mk_crypto ctx)\<lparr>mc_cmac_ctx := c\<rparr>\<rparr>)"
      "mka_keys_ok ((mk_crypto ctx)\<lparr>mc_cmac_ctx := c\<rparr>)"
proof (cases "n \<le> 512")
  case False
  then show thesis
    using inv mka_basic_ok_len [OF b] by (intro long) (simp_all add: macsec_mka_verify_icv_def Let_def
        mka_inv_def mka_keys_ok_def n_def)
next
  case True
  have n: "n + 16 \<le> length frame" "14 + 4 + unat (mb_eapol_len b) - 16 = n"
    using mka_basic_ok_len [OF b] by (simp_all add: n_def)
  have wf: "mka_crypto_wf (mk_crypto ctx)" "macsec_mka_ick_ready (mk_crypto ctx)" "keys_valid (mc_keys (mk_crypto ctx))"
    using inv by (auto simp: mka_inv_def mka_keys_ok_def mka_crypto_wf_def macsec_mka_ick_ready_def)
  have icv: "length (mb_icv b) = 16" using b by (rule mka_basic_ok_len)
  define work where "work = arr_put (mk_mic_work ctx) (take n frame)"
  have work: "length work = 512" "take n work = take n frame"
    using inv True n(1) by (simp_all add: work_def mka_inv_def mka_arrays_ok_def)
  show thesis
  proof (cases rule: verify_mic_spec [OF wf(1) icv, where pdu = "take n frame", case_names not_ready ready])
    case (ready c)
    moreover have "mka_keys_ok ((mk_crypto ctx)\<lparr>mc_cmac_ctx := c\<rparr>)"
      using inv mka_crypto_wf_update(2) [OF wf(1) ready(2)] by (simp add: mka_inv_def mka_keys_ok_def)
    ultimately show thesis
      using True work n wf(3)
      by (intro checked [of work c])
         (simp_all add: macsec_mka_verify_icv_def Let_def buf_simps work_def [symmetric])
  qed (use wf in simp)
qed

subsection \<open>Distributed SAK\<close>

text \<open>The SAK that \<open>macsec_mka_parse_distributed_sak\<close> stores.\<close>

definition mka_received_sak :: "u32 \<Rightarrow> u8 \<Rightarrow> bytes \<Rightarrow> macsec_mka_sak" where
  "mka_received_sak key_number an key = \<lparr>ms_sak = key @ replicate (32 - length key) 0,
     ms_sak_len = length key, ms_an = an, ms_key_number = key_number,
     ms_origin = MACSEC_MKA_SAK_ORIGIN_REMOTE_KEY_SERVER,
     ms_lifecycle_state = MACSEC_MKA_SAK_STATE_CANDIDATE, ms_rx_installed = False,
     ms_tx_installed = False, ms_peer_rx_confirmed = False, ms_peer_tx_confirmed = False, ms_lowest_pn = 1\<rparr>"

text \<open>What replacing the latest SAK leaves in the old slot.\<close>

definition mka_moved_old :: "macsec_mka_ctx \<Rightarrow> macsec_mka_sak \<Rightarrow> bool" where
  "mka_moved_old ctx old \<longleftrightarrow>
     (if mka_sak_installed (mk_latest_sak ctx)
      then old = mka_retired (mk_latest_sak ctx) \<and> ms_lifecycle_state (mk_old_sak ctx) = MACSEC_MKA_SAK_STATE_NONE
      else old = mk_old_sak ctx)"

lemma accept_distributed_sak_effect:
  assumes inv: "mka_inv ctx" and key: "length key = 16 \<or> length key = 32" "take (length key) unwrapped = key"
    and args: "key_number \<noteq> 0" "an < 4"
  obtains (ignored) ret where "mka_accept_distributed_sak ctx key_number an unwrapped (length key) = (ret, ctx)"
      "ret \<in> {MACSEC_ERR_NOT_READY, MACSEC_ERR_BUSY}"
  | (accepted) old where "mka_accept_distributed_sak ctx key_number an unwrapped (length key) =
        (MACSEC_ERR_OK, macsec_mka_raise_events (ctx\<lparr>mk_old_sak := old,
           mk_latest_sak := mka_received_sak key_number an key\<rparr>) MACSEC_MKA_EVENT_SAK_AVAILABLE)"
      "mka_inv (ctx\<lparr>mk_old_sak := old, mk_latest_sak := mka_received_sak key_number an key\<rparr>)" "mka_moved_old ctx old"
proof -
  obtain r c where rc: "(if ms_lifecycle_state (mk_latest_sak ctx) \<noteq> MACSEC_MKA_SAK_STATE_NONE
      then macsec_mka_move_latest_to_old ctx else (MACSEC_ERR_OK, ctx)) = (r, c)" "mka_inv c"
    "c = ctx\<lparr>mk_old_sak := mk_old_sak c, mk_latest_sak := mk_latest_sak c\<rparr>"
    "r \<noteq> MACSEC_ERR_OK \<longrightarrow> c = ctx \<and> r = MACSEC_ERR_BUSY"
    "r = MACSEC_ERR_OK \<longrightarrow> ms_lifecycle_state (mk_latest_sak c) = MACSEC_MKA_SAK_STATE_NONE"
    "r = MACSEC_ERR_OK \<longrightarrow> mka_moved_old ctx (mk_old_sak c)"
  proof (cases "ms_lifecycle_state (mk_latest_sak ctx) = MACSEC_MKA_SAK_STATE_NONE")
    case True
    then have "mk_latest_sak ctx = macsec_mka_sak_clear" using inv by (simp add: mka_inv_def mka_latest_ok_def mka_sak_ok_def)
    then have "mka_moved_old ctx (mk_old_sak ctx)"
      by (simp add: mka_moved_old_def mka_sak_installed_def macsec_mka_sak_clear_def)
    with True show thesis using inv by (intro that [of MACSEC_ERR_OK ctx]) simp_all
  next
    case False
    then show thesis
      using move_latest_to_old_inv [OF inv]
      by (intro that [of "fst (macsec_mka_move_latest_to_old ctx)" "snd (macsec_mka_move_latest_to_old ctx)"])
         (simp_all add: move_latest_to_old_spec [OF inv] mka_moved_old_def)
  qed
  have lat: "mka_latest_ok (mka_received_sak key_number an key)"
    using key args by (auto simp: mka_latest_ok_def mka_sak_ok_def mka_received_sak_def)
  have an: "mka_an_ok (mka_received_sak key_number an key) (mk_old_sak c) (mk_key_server_next_an c)"
    using rc(2) by (simp add: mka_inv_def mka_an_ok_def mka_received_sak_def)
  have upd: "c\<lparr>mk_latest_sak := s\<rparr> = ctx\<lparr>mk_old_sak := mk_old_sak c, mk_latest_sak := s\<rparr>" for s
    by (subst rc(3)) simp
  have inv': "mka_inv (ctx\<lparr>mk_old_sak := mk_old_sak c, mk_latest_sak := mka_received_sak key_number an key\<rparr>)"
    using mka_inv_latest [OF rc(2) lat an] unfolding upd .
  have new: "macsec_mka_sak_clear
       \<lparr>ms_sak := arr_put (ms_sak macsec_mka_sak_clear) (take (length key) unwrapped),
        ms_sak_len := length key, ms_an := an, ms_key_number := key_number,
        ms_origin := MACSEC_MKA_SAK_ORIGIN_REMOTE_KEY_SERVER, ms_lowest_pn := 1,
        ms_rx_installed := False, ms_tx_installed := False,
        ms_peer_rx_confirmed := False, ms_peer_tx_confirmed := False,
        ms_lifecycle_state := MACSEC_MKA_SAK_STATE_CANDIDATE\<rparr> = mka_received_sak key_number an key"
    using key by (simp add: macsec_mka_sak_clear_def mka_received_sak_def arr_put_def)
  define same where "same \<longleftrightarrow> ms_lifecycle_state (mk_latest_sak ctx) \<noteq> MACSEC_MKA_SAK_STATE_NONE \<and>
     ms_origin (mk_latest_sak ctx) = MACSEC_MKA_SAK_ORIGIN_REMOTE_KEY_SERVER \<and>
     ms_key_number (mk_latest_sak ctx) = key_number \<and> ms_an (mk_latest_sak ctx) = an \<and>
     ms_sak_len (mk_latest_sak ctx) = length key \<and>
     macsec_compare (ms_sak (mk_latest_sak ctx)) unwrapped (length key) = 0"
  have eq: "mka_accept_distributed_sak ctx key_number an unwrapped (length key) =
      (if same then (MACSEC_ERR_NOT_READY, ctx) else if r \<noteq> MACSEC_ERR_OK then (r, c)
       else (MACSEC_ERR_OK, macsec_mka_raise_events (ctx\<lparr>mk_old_sak := mk_old_sak c,
               mk_latest_sak := mka_received_sak key_number an key\<rparr>) MACSEC_MKA_EVENT_SAK_AVAILABLE))"
    unfolding mka_accept_distributed_sak_def Let_def rc(1) same_def [symmetric]
    by (simp add: set_sak_state_update new upd)
  show thesis
  proof (cases "same \<or> r \<noteq> MACSEC_ERR_OK")
    case True
    with rc(4) show thesis
      by (intro ignored [of "if same then MACSEC_ERR_NOT_READY else r"]) (auto simp: eq)
  next
    case False
    with rc(6) show thesis by (intro accepted [OF _ inv']) (simp_all add: eq)
  qed
qed

lemma wrapped_an_lt_4 [simp]: "drop_bit 6 (flags :: u8) AND 3 < 4"
  by simp

text \<open>
  Whatever the frame holds, the parser of Distributed SAK ends, and either leaves the context but for
  the cipher scratch state, or stores the SAK whose wrap under the KEK the frame carries.
\<close>

lemma parse_distributed_sak_effect:
  assumes inv: "mka_inv ctx"
  obtains (kept) ret aes b where "macsec_mka_parse_distributed_sak ctx frame = Some (ret,
        ctx\<lparr>mk_crypto := (mk_crypto ctx)\<lparr>mc_aes_ctx := aes, mc_aes_initialized := b\<rparr>\<rparr>)"
      "ret \<noteq> MACSEC_ERR_OK"
      "mka_inv (ctx\<lparr>mk_crypto := (mk_crypto ctx)\<lparr>mc_aes_ctx := aes, mc_aes_initialized := b\<rparr>\<rparr>)"
  | (stored) pos flags body_len aes old key where
      "mka_param_find frame MACSEC_MKA_PARAM_DISTRIBUTED_SAK = Some (Inr (pos, flags, body_len))"
      "macsec_mka_parse_distributed_sak ctx frame = Some (MACSEC_ERR_OK,
        macsec_mka_raise_events (ctx\<lparr>mk_crypto := (mk_crypto ctx)\<lparr>mc_aes_ctx := aes, mc_aes_initialized := True\<rparr>,
          mk_old_sak := old, mk_latest_sak := mka_received_sak
            (macsec_rd_be32 (take 4 (drop (pos + 4) frame))) (drop_bit 6 flags AND 3) key\<rparr>)
          MACSEC_MKA_EVENT_SAK_AVAILABLE)"
      "mka_inv (ctx\<lparr>mk_crypto := (mk_crypto ctx)\<lparr>mc_aes_ctx := aes, mc_aes_initialized := True\<rparr>,
          mk_old_sak := old, mk_latest_sak := mka_received_sak
            (macsec_rd_be32 (take 4 (drop (pos + 4) frame))) (drop_bit 6 flags AND 3) key\<rparr>)"
      "length key = body_len - 12" "length key = 16 \<or> length key = 32"
      "take (body_len - 4) (drop (pos + 8) frame) = kw_wrap_spec (mka_kek_cipher (mk_crypto ctx)) key"
      "mka_moved_old ctx old"
proof -
  let ?c = "mk_crypto ctx"
  have self: "ctx\<lparr>mk_crypto := ?c\<lparr>mc_aes_ctx := mc_aes_ctx ?c, mc_aes_initialized := mc_aes_initialized ?c\<rparr>\<rparr> = ctx"
    by simp
  have quiet: thesis if "macsec_mka_parse_distributed_sak ctx frame = Some (ret, ctx)" "ret \<noteq> MACSEC_ERR_OK" for ret
    using that inv self by (intro kept [where ret = ret and aes = "mc_aes_ctx ?c" and b = "mc_aes_initialized ?c"]) (simp_all only: not_False_eq_True)
  show thesis
  proof (cases rule: param_find_total [of frame MACSEC_MKA_PARAM_DISTRIBUTED_SAK])
    case (stop ret)
    then show thesis by (intro quiet [of ret]) (auto simp: macsec_mka_parse_distributed_sak_def)
  next
    case (found pos flags body_len)
    let ?kn = "macsec_rd_be32 (take 4 (drop (pos + 4) frame))"
    let ?w = "take (body_len - 4) (drop (pos + 8) frame)"
    show thesis
    proof (cases "body_len < 28 \<or> ?kn = 0 \<or> body_len - 4 \<noteq> 24 \<and> body_len - 4 \<noteq> 40")
      case True
      then show thesis
        using found by (intro quiet [of MACSEC_ERR_BUFFER])
          (auto simp: macsec_mka_parse_distributed_sak_def buf_simps Let_def)
    next
      case False
      then have len: "length ?w = 24 \<or> length ?w = 40" "length ?w = body_len - 4" "length ?w - 8 \<le> length (replicate 32 (0 :: u8))"
        using found(2) by auto
      have wf: "mka_crypto_wf ?c" "macsec_mka_kek_ready ?c"
        using inv by (auto simp: mka_inv_def mka_keys_ok_def mka_crypto_wf_def macsec_mka_kek_ready_def)
      have step: "macsec_mka_parse_distributed_sak ctx frame =
          (let (ret, crypto, unwrapped, sak_len) = macsec_mka_crypto_unwrap_sak ?c ?w (replicate 32 0) 0 32;
               ctx = ctx\<lparr>mk_crypto := crypto\<rparr>
           in if ret \<noteq> MACSEC_ERR_OK then Some (ret, ctx)
              else if sak_len \<noteq> 16 \<and> sak_len \<noteq> 32 then Some (MACSEC_ERR_BUFFER, ctx)
              else Some (mka_accept_distributed_sak ctx ?kn (drop_bit 6 flags AND 3) unwrapped sak_len))"
        using found False by (auto simp: macsec_mka_parse_distributed_sak_def buf_simps Let_def)
      show thesis
      proof (rule unwrap_sak_spec [OF wf len(1,3), of 0], goal_cases)
        case (1 aes)
        define d where "d = ctx\<lparr>mk_crypto := ?c\<lparr>mc_aes_ctx := aes, mc_aes_initialized := True\<rparr>\<rparr>"
        have d: "mka_inv d"
          using inv mka_crypto_wf_update(1) [OF wf(1) 1(2)]
          by (simp add: d_def mka_inv_def mka_arrays_ok_def mka_keys_ok_def)
        have moved: "mka_moved_old (ctx\<lparr>mk_crypto := ?c\<lparr>mc_aes_ctx := aes, mc_aes_initialized := True\<rparr>\<rparr>) old = mka_moved_old ctx old" for old
          by (auto simp: mka_moved_old_def)
        show thesis
        proof (cases "kw_unwrap_spec (mka_kek_decipher ?c) ?w")
          case None
          with 1(1) d show thesis
            by (intro kept [where ret = MACSEC_ERR_AUTH and aes = aes and b = True]) (simp_all add: step d_def)
        next
          case (Some key)
          have l: "length ?w mod 8 = 0" "8 \<le> length ?w" using len(1) by auto
          note kw = block_cipher.key_wrap_unwrap [OF kek_ready_cipher [OF wf] l Some]
          have key: "length key = 16 \<or> length key = 32" "length key = length ?w - 8" using kw(2) len(1) by auto
          have parse: "macsec_mka_parse_distributed_sak ctx frame =
              Some (mka_accept_distributed_sak d ?kn (drop_bit 6 flags AND 3)
                (key @ drop (length ?w - 8) (replicate 32 0)) (length key))"
            using 1(1) Some key by (auto simp: step d_def)
          have tk: "take (length key) (key @ drop (length ?w - 8) (replicate 32 0)) = key" by simp
          show thesis
          proof (rule accept_distributed_sak_effect [OF d key(1) tk, of ?kn "drop_bit 6 flags AND 3"], goal_cases)
            case (3 ret)
            with parse d show ?case by (intro kept [where ret = ret and aes = aes and b = True]) (auto simp: d_def)
          next
            case (4 old)
            with parse kw key len(2) found False show ?case
              by (intro stored [where aes = aes and old = old and key = key]) (simp_all add: moved d_def)
          qed (use False in simp_all)
        qed
      qed
    qed
  qed
qed

subsection \<open>SAK Use\<close>

text \<open>What the peer's report does to the latest SAK.\<close>

definition mka_confirm :: "macsec_mka_sak \<Rightarrow> bool \<Rightarrow> bool \<Rightarrow> macsec_mka_sak" where
  "mka_confirm sak tx rx = sak\<lparr>ms_peer_tx_confirmed := tx, ms_peer_rx_confirmed := rx, ms_lifecycle_state :=
     (if ms_lifecycle_state sak = MACSEC_MKA_SAK_STATE_ACTIVE \<and> rx \<and> tx then MACSEC_MKA_SAK_STATE_CONFIRMED
      else if ms_lifecycle_state sak = MACSEC_MKA_SAK_STATE_CONFIRMED \<and> \<not> (rx \<and> tx) then MACSEC_MKA_SAK_STATE_ACTIVE
      else ms_lifecycle_state sak)\<rparr>"

definition mka_confirm_events :: "macsec_mka_ctx \<Rightarrow> bool \<Rightarrow> bool \<Rightarrow> u32" where
  "mka_confirm_events ctx tx rx =
     (if ms_lifecycle_state (mk_latest_sak ctx) = MACSEC_MKA_SAK_STATE_ACTIVE \<and> rx \<and> tx
      then MACSEC_MKA_EVENT_SAK_CONFIRMED OR
           (if ms_lifecycle_state (mk_old_sak ctx) = MACSEC_MKA_SAK_STATE_RETIRING
            then MACSEC_MKA_EVENT_SAK_RETIRE_REQUIRED else 0)
      else 0)"

lemma peer_confirmation_spec:
  "mka_peer_confirmation ctx tx rx = (MACSEC_ERR_OK, macsec_mka_raise_events
     (ctx\<lparr>mk_latest_sak := mka_confirm (mk_latest_sak ctx) tx rx\<rparr>) (mka_confirm_events ctx tx rx))"
  by (cases "ms_lifecycle_state (mk_latest_sak ctx)"; cases tx; cases rx)
     (auto simp: mka_peer_confirmation_def Let_def mka_confirm_def mka_confirm_events_def mka_step_simps or.assoc)

lemma confirm_inv:
  assumes inv: "mka_inv ctx" and st: "ms_lifecycle_state (mk_latest_sak ctx) \<in> {MACSEC_MKA_SAK_STATE_DISTRIBUTED,
      MACSEC_MKA_SAK_STATE_INSTALL_PENDING, MACSEC_MKA_SAK_STATE_ACTIVE, MACSEC_MKA_SAK_STATE_CONFIRMED}"
  shows "mka_inv (ctx\<lparr>mk_latest_sak := mka_confirm (mk_latest_sak ctx) tx rx\<rparr>)"
proof (rule mka_inv_latest [OF inv])
  show "mka_latest_ok (mka_confirm (mk_latest_sak ctx) tx rx)"
    using inv st by (auto simp: mka_inv_def mka_latest_ok_def mka_sak_ok_def mka_confirm_def)
  show "mka_an_ok (mka_confirm (mk_latest_sak ctx) tx rx) (mk_old_sak ctx) (mk_key_server_next_an ctx)"
    using mka_inv_state_cases(6) [OF inv] st
    by (elim mka_an_ok_latest) (auto simp: mka_confirm_def mka_undistributed_def)
qed

lemma parse_sak_use_effect:
  assumes inv: "mka_inv ctx"
  obtains (ignored) ret where "macsec_mka_parse_sak_use ctx frame = Some (ret, ctx)" "ret \<noteq> MACSEC_ERR_OK"
  | (confirmed) tx rx where "macsec_mka_parse_sak_use ctx frame = Some (MACSEC_ERR_OK, macsec_mka_raise_events
       (ctx\<lparr>mk_latest_sak := mka_confirm (mk_latest_sak ctx) tx rx\<rparr>) (mka_confirm_events ctx tx rx))"
      "mka_inv (macsec_mka_raise_events
       (ctx\<lparr>mk_latest_sak := mka_confirm (mk_latest_sak ctx) tx rx\<rparr>) (mka_confirm_events ctx tx rx))"
proof (cases rule: param_find_total [of frame MACSEC_MKA_PARAM_SAK_USE])
  case (stop ret)
  then show thesis by (intro ignored [of ret]) (auto simp: macsec_mka_parse_sak_use_def)
next
  case (found pos flags body_len)
  let ?latest = "mk_latest_sak ctx"
  let ?mi = "take 12 (drop (pos + 4) frame)"
  define busy where "busy \<longleftrightarrow> (ms_lifecycle_state ?latest \<noteq> MACSEC_MKA_SAK_STATE_DISTRIBUTED \<and>
       ms_lifecycle_state ?latest \<noteq> MACSEC_MKA_SAK_STATE_INSTALL_PENDING \<and>
       ms_lifecycle_state ?latest \<noteq> MACSEC_MKA_SAK_STATE_ACTIVE \<and>
       ms_lifecycle_state ?latest \<noteq> MACSEC_MKA_SAK_STATE_CONFIRMED) \<or>
      ms_origin ?latest = MACSEC_MKA_SAK_ORIGIN_NONE"
  define other where "other \<longleftrightarrow> (if mk_local_key_server ctx
       then ms_origin ?latest \<noteq> MACSEC_MKA_SAK_ORIGIN_LOCAL_KEY_SERVER \<or>
            macsec_compare ?mi (mk_local_mi ctx) 12 \<noteq> 0
       else ms_origin ?latest \<noteq> MACSEC_MKA_SAK_ORIGIN_REMOTE_KEY_SERVER \<or> \<not> mp_valid (mk_peer ctx) \<or>
            macsec_compare ?mi (mp_mi (mk_peer ctx)) 12 \<noteq> 0)"
  define mismatch where "mismatch \<longleftrightarrow> macsec_rd_be32 (take 4 (drop (pos + 4 + 12) frame)) \<noteq> ms_key_number ?latest \<or>
      drop_bit 6 flags AND 3 \<noteq> ms_an ?latest AND 3"
  have step: "macsec_mka_parse_sak_use ctx frame =
      (if body_len < 40 then Some (MACSEC_ERR_BUFFER, ctx)
       else if busy \<or> other \<or> mismatch then Some (MACSEC_ERR_NOT_READY, ctx)
       else Some (mka_peer_confirmation ctx (flags AND 0x20 \<noteq> 0) (flags AND 0x10 \<noteq> 0)))"
    using found unfolding busy_def other_def mismatch_def
    by (simp add: macsec_mka_parse_sak_use_def buf_simps Let_def)
  show thesis
  proof (cases "body_len < 40 \<or> busy \<or> other \<or> mismatch")
    case True
    then show thesis
      by (intro ignored [of "if body_len < 40 then MACSEC_ERR_BUFFER else MACSEC_ERR_NOT_READY"]) (auto simp: step)
  next
    case False
    then have "mka_inv (ctx\<lparr>mk_latest_sak := mka_confirm ?latest (flags AND 0x20 \<noteq> 0) (flags AND 0x10 \<noteq> 0)\<rparr>)"
      by (intro confirm_inv inv) (auto simp: busy_def)
    then have "mka_inv (macsec_mka_raise_events
       (ctx\<lparr>mk_latest_sak := mka_confirm ?latest (flags AND 0x20 \<noteq> 0) (flags AND 0x10 \<noteq> 0)\<rparr>)
       (mka_confirm_events ctx (flags AND 0x20 \<noteq> 0) (flags AND 0x10 \<noteq> 0)))"
      by (rule raise_events_inv) (simp add: mka_confirm_events_def mka_flags)
    with False show thesis
      by (intro confirmed [of "flags AND 0x20 \<noteq> 0" "flags AND 0x10 \<noteq> 0"]) (simp_all add: step peer_confirmation_spec)
  qed
qed

subsection \<open>Input\<close>

text \<open>The ICV of a frame under the ICK of a participant.\<close>

definition mka_authentic :: "macsec_mka_crypto_ctx \<Rightarrow> bytes \<Rightarrow> bool" where
  "mka_authentic c frame \<longleftrightarrow>
     (let n = 2 + unat (macsec_rd_be16 (take 2 (drop 16 frame)))
      in n + 16 \<le> length frame \<and> take 16 (drop n frame) = cmac_spec (mka_ick_cipher c) (take n frame))"

text \<open>All that the check of a frame may change before the frame is authenticated.\<close>

definition mka_scratch :: "macsec_mka_ctx \<Rightarrow> bytes \<Rightarrow> math_cmac_context \<Rightarrow> bool \<Rightarrow> macsec_mka_ctx" where
  "mka_scratch ctx work c valid = ctx\<lparr>mk_mic_work := work,
     mk_crypto := (mk_crypto ctx)\<lparr>mc_cmac_ctx := c\<rparr>, mk_last_icv_valid := valid\<rparr>"

lemma mka_scratch_self: "mka_scratch ctx (mk_mic_work ctx) (mc_cmac_ctx (mk_crypto ctx)) (mk_last_icv_valid ctx) = ctx"
  by (simp add: mka_scratch_def)

lemma scratch_inv:
  "mka_inv ctx \<Longrightarrow> length work = 512 \<Longrightarrow> mka_keys_ok ((mk_crypto ctx)\<lparr>mc_cmac_ctx := c\<rparr>) \<Longrightarrow>
     mka_inv (mka_scratch ctx work c valid)"
  by (simp add: mka_scratch_def mka_inv_def mka_arrays_ok_def)

lemma authenticate_effect:
  assumes inv: "mka_inv ctx"
  obtains (dropped) ret work c valid where
      "mka_input_authenticate ctx frame = Some (Inl ret, mka_scratch ctx work c valid)"
      "mka_inv (mka_scratch ctx work c valid)"
  | (passed) b work c where
      "mka_input_authenticate ctx frame = Some (Inr b, mka_scratch ctx work c (mk_verify_icv ctx))"
      "mka_inv (mka_scratch ctx work c (mk_verify_icv ctx))" "mka_basic_ok frame b"
      "mk_verify_icv ctx \<Longrightarrow> mka_authentic (mk_crypto ctx) frame"
proof -
  have keep: "mka_scratch ctx (mk_mic_work ctx) (mc_cmac_ctx (mk_crypto ctx)) v = ctx\<lparr>mk_last_icv_valid := v\<rparr>" for v
    by (simp add: mka_scratch_def)
  have drop: thesis if "mka_input_authenticate ctx frame = Some (Inl ret, ctx\<lparr>mk_last_icv_valid := v\<rparr>)" for ret v
    using dropped [OF that [folded keep]] inv by (simp add: keep mka_inv_bookkeeping)
  have drop': thesis if "mka_input_authenticate ctx frame = Some (Inl ret, ctx)" for ret
    using drop [of ret "mk_last_icv_valid ctx"] that by simp
  show thesis
  proof (rule parse_basic_total [of frame mka_basic_zero], goal_cases)
    case (1 ret b)
    define own where "own \<longleftrightarrow> macsec_compare (mb_src_mac b) (mk_local_mac ctx) 6 = 0 \<or>
        macsec_compare (mb_sci b) (mk_local_sci ctx) 8 = 0 \<or> macsec_compare (mb_actor_mi b) (mk_local_mi ctx) 12 = 0"
    obtain is_mka where e: "macsec_mka_is_eapol_mka frame = Some is_mka" by (simp add: is_eapol_mka_spec)
    show thesis
    proof (cases "\<not> is_mka \<or> ret \<noteq> MACSEC_ERR_OK \<or> own")
      case True
      then show thesis
        using e 1(1) by (intro drop' [of "if \<not> is_mka then MACSEC_ERR_PARAM else ret"])
          (auto simp: mka_input_authenticate_def own_def)
    next
      case False
      with 1(2) have b: "mka_basic_ok frame b" by simp
      have step: "mka_input_authenticate ctx frame =
          (if mk_verify_icv ctx then do {
             (ret, c) \<leftarrow> macsec_mka_verify_icv (ctx\<lparr>mk_last_icv_valid := False\<rparr>) frame b;
             if ret \<noteq> MACSEC_ERR_OK then Some (Inl ret, c) else Some (Inr b, c\<lparr>mk_last_icv_valid := True\<rparr>)
           } else Some (Inr b, ctx\<lparr>mk_last_icv_valid := False\<rparr>))"
        using False e 1(1) by (simp add: mka_input_authenticate_def own_def Let_def)
      show thesis
      proof (cases "mk_verify_icv ctx")
        case False
        with step b inv show thesis
          by (intro passed [of b "mk_mic_work ctx" "mc_cmac_ctx (mk_crypto ctx)"])
             (simp_all add: keep mka_inv_bookkeeping)
      next
        case True
        have inv': "mka_inv (ctx\<lparr>mk_last_icv_valid := False\<rparr>)" using inv by (rule mka_inv_bookkeeping)
        show thesis
        proof (cases rule: verify_icv_spec [OF inv' b, case_names long checked])
          case long
          then show thesis by (intro drop [of MACSEC_ERR_BUFFER False]) (simp add: step True)
        next
          case (checked c work)
          define n where "n = 2 + unat (mb_eapol_len b)"
          note verified = checked(3) [folded n_def]
          have sc: "mka_inv (mka_scratch ctx work c v)" for v
            using inv checked(2,4) by (intro scratch_inv) simp_all
          have au: "mka_authentic (mk_crypto ctx) frame \<longleftrightarrow> mb_icv b = cmac_spec (mka_ick_cipher (mk_crypto ctx)) (take n frame)"
            using b unfolding mka_basic_ok_def by (auto simp: mka_authentic_def n_def Let_def)
          show thesis
          proof (cases "mka_authentic (mk_crypto ctx) frame")
            case au': True
            with verified True sc b au show thesis
              by (intro passed [of b work c]) (simp_all add: step mka_scratch_def)
          next
            case False
            with verified True sc au show thesis
              by (intro dropped [of MACSEC_ERR_AUTH work c False]) (simp_all add: step mka_scratch_def)
          qed
        qed
      qed
    qed
  qed
qed

lemma input_peer_inv:
  assumes inv: "mka_inv ctx" and b: "mka_basic_ok frame b"
    and same: "\<not> changed \<Longrightarrow> mp_valid (mk_peer ctx)"
  shows "mka_inv (mka_input_peer ctx b changed (mp_live (mk_peer ctx)) seen now)"
proof -
  have st: "mka_state_ok (mk_state ctx) (mk_peer ctx)" using inv by (simp add: mka_inv_def)
  then have al: "macsec_mka_state_transition_allowed (mk_state ctx) MACSEC_MKA_STATE_PEER_LIVE"
      "macsec_mka_state_transition_allowed (mk_state ctx) MACSEC_MKA_STATE_PEER_DISCOVERED"
    by (cases "mk_state ctx"; simp add: mka_state_ok_def)+
  have up: "mka_inv (ctx\<lparr>mk_peer := p, mk_state := s\<rparr>)"
    if "mka_state_ok s p" "length (mp_mac p) = 6" "length (mp_sci p) = 8" "length (mp_mi p) = 12" for p s
    using inv that by (simp add: mka_inv_def mka_arrays_ok_def)
  have up': "mka_inv (ctx\<lparr>mk_peer := p\<rparr>)"
    if "mka_state_ok (mk_state ctx) p" "length (mp_mac p) = 6" "length (mp_sci p) = 8" "length (mp_mi p) = 12" for p
    using inv that by (simp add: mka_inv_def mka_arrays_ok_def)
  note l = mka_basic_ok_len(4-6) [OF b]
  show ?thesis
  proof (cases "seen \<or> changed \<or> \<not> mp_live (mk_peer ctx)")
    case True
    with al l show ?thesis
      by (auto simp: mka_input_peer_def Let_def set_state_update mka_state_ok_def intro!: up
          simp del: macsec_mka_state_transition_allowed.simps)
  next
    case False
    have "mka_state_ok (mk_state ctx) p" if "mp_valid p" "mp_live p" for p
      using st that False same by (auto simp: mka_state_ok_def split: macsec_mka_state.splits)
    with False l show ?thesis
      by (auto simp: mka_input_peer_def Let_def intro!: up')
  qed
qed

lemma input_events_inv: "mka_inv ctx \<Longrightarrow> mka_inv (mka_input_events ctx a b c d)"
  by (simp add: mka_input_events_def Let_def schedule_tx_inv raise_events_inv mka_flags)

lemma parse_distributed_sak_inv:
  assumes "mka_inv ctx"
  obtains ret c where "macsec_mka_parse_distributed_sak ctx frame = Some (ret, c)" "mka_inv c"
    "mk_peer c = mk_peer ctx"
proof (cases rule: parse_distributed_sak_effect [OF assms, of frame, case_names kept stored])
  case (kept ret aes b)
  show thesis by (rule that [OF kept(1,3)]) simp
next
  case (stored pos flags body_len aes old key)
  from stored(2) show thesis
    by (rule that) (use raise_events_inv [OF stored(3)] in \<open>simp_all add: mka_flags mka_step_simps\<close>)
qed

lemma parse_sak_use_inv:
  assumes "mka_inv ctx"
  obtains ret c where "macsec_mka_parse_sak_use ctx frame = Some (ret, c)" "mka_inv c"
  by (rule parse_sak_use_effect [OF assms, of frame]) (use assms that in blast)+

text \<open>
  The steps of \<open>macsec_mka_input\<close>: the frame is dropped in the check, or the code runs through the
  parsers and the election and returns after one of them.
\<close>

lemma input_steps:
  assumes inv: "mka_inv ctx" and rnd: "length (rnd 16) = 16"
  obtains (dropped) ret work c valid where
      "macsec_mka_input rnd ctx frame now = Some (ret, mka_scratch ctx work c valid)"
      "mka_inv (mka_scratch ctx work c valid)"
  | (passed) b work c c1 r2 c2 changed live seen c4 r5 c5 r6 c6 e1 e2 e3 where
      "c1 = (mka_scratch ctx work c (mk_verify_icv ctx))\<lparr>mk_last_basic := b, mk_last_rx_ms := now\<rparr>" "mka_inv c1"
      "macsec_mka_parse_distributed_sak c1 frame = Some (r2, c2)" "mka_inv c2"
      "c4 = (mka_input_peer c2 b changed live seen now)\<lparr>mk_local_key_server :=
         macsec_mka_local_wins_key_server (mka_input_peer c2 b changed live seen now)\<rparr>" "mka_inv c4"
      "(r5, c5) = macsec_mka_start_rekey rnd c4 \<or> (r5, c5) = (MACSEC_ERR_OK, c4)" "mka_inv c5"
      "macsec_mka_parse_sak_use c5 frame = Some (r6, c6)" "mka_inv c6"
      "macsec_mka_input rnd ctx frame now \<in> Some ` {(r2, c2), (r5, c5), (r6, c6),
         (MACSEC_ERR_OK, mka_input_events c6 changed e1 e2 e3)}"
proof (cases rule: authenticate_effect [OF inv, of frame, case_names dropped' passed'])
  case (dropped' ret work c valid)
  show thesis by (rule dropped [OF _ dropped'(2), of ret]) (simp add: macsec_mka_input_def dropped'(1))
next
  case (passed' b work c)
  define c1 where "c1 = (mka_scratch ctx work c (mk_verify_icv ctx))\<lparr>mk_last_basic := b, mk_last_rx_ms := now\<rparr>"
  have c1: "mka_inv c1" unfolding c1_def by (intro mka_inv_bookkeeping passed'(2))
  define changed where "changed \<longleftrightarrow> \<not> mp_valid (mk_peer c1) \<or>
      macsec_compare (mp_mi (mk_peer c1)) (mb_actor_mi b) 12 \<noteq> 0 \<or>
      macsec_compare (mp_sci (mk_peer c1)) (mb_sci b) 8 \<noteq> 0 \<or>
      macsec_compare (mp_mac (mk_peer c1)) (mb_src_mac b) 6 \<noteq> 0"
  define live where "live = mp_live (mk_peer c1)"
  obtain r2 c2 where d: "macsec_mka_parse_distributed_sak c1 frame = Some (r2, c2)" "mka_inv c2" "mk_peer c2 = mk_peer c1"
    by (rule parse_distributed_sak_inv [OF c1])
  obtain seen mn type where seen: "macsec_mka_frame_contains_peer_entry frame (mk_local_mi c2) = Some (seen, mn, type)"
    using contains_peer_total by (metis not_None_eq surj_pair)
  define c3 where "c3 = mka_input_peer c2 b changed live seen now"
  have c3: "mka_inv c3"
    using input_peer_inv [OF d(2) passed'(3), of changed seen now] by (simp add: c3_def changed_def live_def d(3))
  define c4 where "c4 = c3\<lparr>mk_local_key_server := macsec_mka_local_wins_key_server c3\<rparr>"
  have c4: "mka_inv c4" unfolding c4_def by (intro mka_inv_bookkeeping c3)
  define rekey where "rekey \<longleftrightarrow> changed \<and> mk_local_key_server c4 \<and>
      ms_lifecycle_state (mk_latest_sak c4) \<noteq> MACSEC_MKA_SAK_STATE_NONE"
  obtain r5 c5 where r: "(if rekey then macsec_mka_start_rekey rnd c4 else (MACSEC_ERR_OK, c4)) = (r5, c5)" "mka_inv c5"
    using start_rekey_inv [where rnd = rnd, OF c4 rnd] c4 by (metis prod.collapse snd_conv)
  obtain r6 c6 where u: "macsec_mka_parse_sak_use c5 frame = Some (r6, c6)" "mka_inv c6"
    by (rule parse_sak_use_inv [OF r(2)])
  define became where "became = (\<not> live \<and> mp_live (mk_peer c3))"
  define lost where "lost = (\<not> changed \<and> live \<and> \<not> mp_live (mk_peer c3))"
  have eq: "macsec_mka_input rnd ctx frame now =
      (if r2 \<noteq> MACSEC_ERR_OK \<and> r2 \<noteq> MACSEC_ERR_NOT_READY then Some (r2, c2)
       else if r5 \<noteq> MACSEC_ERR_OK \<and> r5 \<noteq> MACSEC_ERR_BUSY then Some (r5, c5)
       else if r6 \<noteq> MACSEC_ERR_OK \<and> r6 \<noteq> MACSEC_ERR_NOT_READY then Some (r6, c6)
       else Some (MACSEC_ERR_OK, mka_input_events c6 changed became lost
              (mk_local_key_server c1 \<noteq> mk_local_key_server c4)))"
    unfolding macsec_mka_input_def Let_def passed'(1) bind.bind_lunit prod.case sum.case c1_def [symmetric]
      changed_def [symmetric] live_def [symmetric] d(1) seen c3_def [symmetric] c4_def [symmetric]
      rekey_def [symmetric] r(1) u(1) became_def [symmetric] lost_def [symmetric]
    by simp
  have r': "(r5, c5) = macsec_mka_start_rekey rnd c4 \<or> (r5, c5) = (MACSEC_ERR_OK, c4)"
    using r(1) by (auto split: if_splits)
  have mem: "macsec_mka_input rnd ctx frame now \<in> Some ` {(r2, c2), (r5, c5), (r6, c6),
      (MACSEC_ERR_OK, mka_input_events c6 changed became lost
         (mk_local_key_server c1 \<noteq> mk_local_key_server c4))}"
    by (simp add: eq)
  show thesis
    by (rule passed [OF c1_def c1 d(1,2) c4_def [unfolded c3_def] c4 r' r(2) u(1,2) mem])
qed

lemma input_total:
  assumes inv: "mka_inv ctx" and rnd: "length (rnd 16) = 16"
  obtains ret c where "macsec_mka_input rnd ctx frame now = Some (ret, c)" "mka_inv c"
  by (rule input_steps [where rnd = rnd and frame = frame and now = now, OF inv rnd])
     (use that input_events_inv in \<open>auto\<close>)

text \<open>
  Without a valid ICV nothing but the scratch buffers of the check changes: the peer, the election,
  the SAKs, the counters, the events and the scheduled transmissions are as before.
\<close>

lemma input_unauthenticated:
  assumes inv: "mka_inv ctx" and verify: "mk_verify_icv ctx" and bad: "\<not> mka_authentic (mk_crypto ctx) frame"
  obtains ret work c valid where "macsec_mka_input rnd ctx frame now = Some (ret, mka_scratch ctx work c valid)"
proof (cases rule: authenticate_effect [OF inv, of frame, case_names dropped passed])
  case (dropped ret work c valid)
  then show thesis by (intro that) (simp add: macsec_mka_input_def)
next
  case passed
  with verify bad show thesis by blast
qed

end
