(* ===== verification/MkaTxFacts.thy ===== *)
theory MkaTxFacts
  imports MkaTx MkaParseFacts
begin

text \<open>
  The frame that \<open>macsec_mka_build_tx_frame\<close> builds, as a concatenation of its parts
  (\<open>mka_frame_body\<close> and the ICV), and what the parser reads from it: the transmitter never leaves
  its buffer, keeps the lifecycle invariant, and a participant with the same CAK authenticates the
  frame and reads the fields, the peer entry and the SAK that were written.
\<close>

subsection \<open>Writers as one write\<close>

lemma buf_put_buf_put:
  "Option.bind (buf_put f p a) (\<lambda>g. buf_put g (p + length a) b) = buf_put f p (a @ b)"
  by (cases "p + length a \<le> length f") (simp_all add: buf_put_def ac_simps min_absorb2)

lemma emit_emit: "Option.bind (mka_emit a out) (mka_emit b) = mka_emit (a @ b) out"
proof (cases out)
  case (Pair f p)
  then show ?thesis
    using buf_put_buf_put [of f p a b] by (cases "buf_put f p a") (auto simp: add.assoc)
qed

lemma emit_emit_bind:
  "Option.bind (mka_emit a out) (\<lambda>out. Option.bind (mka_emit b out) k) = Option.bind (mka_emit (a @ b) out) k"
  by (simp flip: emit_emit)

lemmas mka_emits = emit_emit emit_emit_bind

text \<open>A parameter set: a header with the length of its body.\<close>

definition mka_param :: "u8 \<Rightarrow> u8 \<Rightarrow> bytes \<Rightarrow> bytes" where
  "mka_param b0 b1 body = mka_param_header b0 b1 (of_nat (length body)) @ body"

lemma length_param_header [simp]: "length (mka_param_header b0 b1 n) = 4"
  by (simp add: mka_param_header_def)

lemma length_param [simp]: "length (mka_param b0 b1 body) = 4 + length body"
  by (simp add: mka_param_def)

definition mka_peer_entry :: "macsec_mka_peer \<Rightarrow> bytes" where
  "mka_peer_entry peer = take 12 (mp_mi peer) @ macsec_wr_be32 (mp_mn peer)"

lemma length_peer_entry [simp]: "length (mp_mi peer) = 12 \<Longrightarrow> length (mka_peer_entry peer) = 16"
  by (simp add: mka_peer_entry_def)

lemma write_peer_list_spec:
  "length (mp_mi peer) = 12 \<Longrightarrow>
     macsec_mka_write_peer_list type peer out = mka_emit (mka_param type 0 (mka_peer_entry peer)) out"
  by (simp add: macsec_mka_write_peer_list_def mka_emits mka_param_def) (simp add: mka_peer_entry_def)

definition mka_key_entry :: "bytes \<Rightarrow> macsec_mka_sak \<Rightarrow> bytes" where
  "mka_key_entry mi sak = take 12 mi @ macsec_wr_be32 (ms_key_number sak) @
     macsec_wr_be32 (if ms_lowest_pn sak \<noteq> 0 then ms_lowest_pn sak else 1)"

definition mka_sak_use_flags :: "macsec_mka_sak \<Rightarrow> macsec_mka_sak \<Rightarrow> u8" where
  "mka_sak_use_flags latest old =
     (if ms_lifecycle_state latest \<noteq> MACSEC_MKA_SAK_STATE_NONE
      then push_bit 6 (ms_an latest AND 3) OR (if ms_tx_installed latest then 0x20 else 0) OR
           (if ms_rx_installed latest then 0x10 else 0) else 0) OR
     (if ms_lifecycle_state old = MACSEC_MKA_SAK_STATE_RETIRING
      then push_bit 2 (ms_an old AND 3) OR (if ms_tx_installed old then 2 else 0) OR
           (if ms_rx_installed old then 1 else 0) else 0)"

definition mka_sak_use_body :: "macsec_mka_ctx \<Rightarrow> bytes" where
  "mka_sak_use_body ctx =
     (if ms_lifecycle_state (mk_latest_sak ctx) \<noteq> MACSEC_MKA_SAK_STATE_NONE
      then mka_key_entry (if mk_local_key_server ctx then mk_local_mi ctx else mp_mi (mk_peer ctx)) (mk_latest_sak ctx)
      else replicate 20 0) @
     (if ms_lifecycle_state (mk_old_sak ctx) = MACSEC_MKA_SAK_STATE_RETIRING
      then mka_key_entry (if ms_origin (mk_old_sak ctx) = MACSEC_MKA_SAK_ORIGIN_LOCAL_KEY_SERVER
                          then mk_local_mi ctx else mp_mi (mk_peer ctx)) (mk_old_sak ctx)
      else replicate 16 0 @ macsec_wr_be32 1)"

lemma length_key_entry [simp]: "length mi = 12 \<Longrightarrow> length (mka_key_entry mi sak) = 20"
  by (simp add: mka_key_entry_def)

lemma length_sak_use_body [simp]:
  "length (mk_local_mi ctx) = 12 \<Longrightarrow> length (mp_mi (mk_peer ctx)) = 12 \<Longrightarrow> length (mka_sak_use_body ctx) = 40"
  by (simp add: mka_sak_use_body_def)

lemma write_sak_use_spec:
  assumes "length (mk_local_mi ctx) = 12" "length (mp_mi (mk_peer ctx)) = 12"
  shows "macsec_mka_write_sak_use ctx out = mka_emit (mka_param MACSEC_MKA_PARAM_SAK_USE
    (mka_sak_use_flags (mk_latest_sak ctx) (mk_old_sak ctx)) (mka_sak_use_body ctx)) out"
  using assms
  by (cases "ms_lifecycle_state (mk_latest_sak ctx) = MACSEC_MKA_SAK_STATE_NONE";
      cases "ms_lifecycle_state (mk_old_sak ctx) = MACSEC_MKA_SAK_STATE_RETIRING")
     (simp_all add: macsec_mka_write_sak_use_def mka_emits mka_param_def Let_def or.assoc mka_sak_use_flags_def,
      simp_all add: mka_sak_use_body_def mka_key_entry_def)

lemma write_distributed_sak_spec:
  assumes inv: "mka_inv ctx" and dist: "mka_sak_distributable (mk_latest_sak ctx)"
    and local: "ms_origin (mk_latest_sak ctx) = MACSEC_MKA_SAK_ORIGIN_LOCAL_KEY_SERVER"
  defines "sak \<equiv> mk_latest_sak ctx"
  defines "key \<equiv> take (ms_sak_len sak) (ms_sak sak)"
  obtains aes where "macsec_mka_write_distributed_sak ctx out = do {
      out \<leftarrow> mka_emit (mka_param MACSEC_MKA_PARAM_DISTRIBUTED_SAK (push_bit 6 (ms_an sak AND 3))
               (macsec_wr_be32 (ms_key_number sak) @ kw_wrap_spec (mka_kek_cipher (mk_crypto ctx)) key)) out;
      Some (MACSEC_ERR_OK, ctx\<lparr>mk_crypto := (mk_crypto ctx)\<lparr>mc_aes_ctx := aes, mc_aes_initialized := True\<rparr>\<rparr>, out)
    }"
    "mka_inv (ctx\<lparr>mk_crypto := (mk_crypto ctx)\<lparr>mc_aes_ctx := aes, mc_aes_initialized := True\<rparr>\<rparr>)"
    "length (kw_wrap_spec (mka_kek_cipher (mk_crypto ctx)) key) = length key + 8" "length key = ms_sak_len sak"
proof -
  let ?c = "mk_crypto ctx"
  have wf: "mka_crypto_wf ?c" "macsec_mka_kek_ready ?c"
    using inv by (auto simp: mka_inv_def mka_keys_ok_def mka_crypto_wf_def macsec_mka_kek_ready_def)
  have len: "ms_sak_len sak = 16 \<or> ms_sak_len sak = 32" "length (ms_sak sak) = 32"
    using inv dist by (auto simp: mka_inv_def mka_latest_ok_def mka_sak_ok_def sak_def mka_sak_distributable_def)
  then have key: "length key = 16 \<or> length key = 32" "length key + 8 \<le> 40" "length key = ms_sak_len sak"
    by (auto simp: key_def)
  have wl: "length (kw_wrap_spec (mka_kek_cipher ?c) key) = length key + 8"
    using block_cipher.key_unwrap_wrap(2) [OF kek_ready_cipher [OF wf], of key] key(1) by auto
  have "(40 :: nat) \<le> length (replicate 40 0 :: bytes)" by simp
  from wrap_sak_spec [OF wf key(1,2) this, of 0] obtain aes where
    w: "macsec_mka_crypto_wrap_sak ?c key (replicate 40 0) 0 40 =
      (MACSEC_ERR_OK, ?c\<lparr>mc_aes_ctx := aes, mc_aes_initialized := True\<rparr>,
       kw_wrap_spec (mka_kek_cipher ?c) key @ drop (length key + 8) (replicate 40 0), length key + 8)"
    "length (rk_buf aes) = 68" .
  show thesis
  proof (rule that [of aes])
    show "macsec_mka_write_distributed_sak ctx out = do {
      out \<leftarrow> mka_emit (mka_param MACSEC_MKA_PARAM_DISTRIBUTED_SAK (push_bit 6 (ms_an sak AND 3))
               (macsec_wr_be32 (ms_key_number sak) @ kw_wrap_spec (mka_kek_cipher ?c) key)) out;
      Some (MACSEC_ERR_OK, ctx\<lparr>mk_crypto := ?c\<lparr>mc_aes_ctx := aes, mc_aes_initialized := True\<rparr>\<rparr>, out) }"
      unfolding macsec_mka_write_distributed_sak_def Let_def sak_def [symmetric] key_def [symmetric] w(1) prod.case
      using dist local wl by (simp add: sak_def mka_emits mka_param_def add.commute del: mka_emit.simps)
    show "mka_inv (ctx\<lparr>mk_crypto := ?c\<lparr>mc_aes_ctx := aes, mc_aes_initialized := True\<rparr>\<rparr>)"
      using inv mka_crypto_wf_update(1) [OF wf(1) w(2)] by (intro mka_inv_crypto) (auto simp: mka_inv_def mka_keys_ok_def)
  qed (fact wl key(3))+
qed

subsection \<open>The frame\<close>

definition mka_header :: "macsec_mka_ctx \<Rightarrow> u16 \<Rightarrow> bytes" where
  "mka_header ctx eapol_len = macsec_mka_dst_mac @ take 6 (mk_local_mac ctx) @
     macsec_wr_be16 MACSEC_MKA_ETHERTYPE_EAPOL @ [MACSEC_MKA_EAPOL_VERSION_2010, MACSEC_MKA_EAPOL_TYPE_MKA] @
     macsec_wr_be16 eapol_len"

definition mka_ckn :: "macsec_mka_ctx \<Rightarrow> bytes" where
  "mka_ckn ctx = take (unat (psk_ckn_len (mc_psk (mk_crypto ctx)))) (psk_ckn (mc_psk (mk_crypto ctx)))"

definition mka_basic_flags :: "macsec_mka_ctx \<Rightarrow> u16 \<Rightarrow> u8" where
  "mka_basic_flags ctx body_len = ucast (drop_bit 8 body_len AND 0x0F) OR
     (if mk_local_key_server ctx then 0x80 else 0) OR (if mk_macsec_desired ctx then 0x40 else 0) OR
     push_bit 4 (mk_macsec_capability ctx AND 3)"

definition mka_basic :: "macsec_mka_ctx \<Rightarrow> u32 \<Rightarrow> u16 \<Rightarrow> bytes" where
  "mka_basic ctx mn body_len =
     [MACSEC_MKA_VERSION_ID, mk_key_server_priority ctx, mka_basic_flags ctx body_len, ucast (body_len AND 0xFF)] @
     take 8 (mk_local_sci ctx) @ take 12 (mk_local_mi ctx) @ macsec_wr_be32 mn @
     macsec_wr_be32 MACSEC_MKA_ALGORITHM_AGILITY @ mka_ckn ctx"

definition mka_distributed_param :: "macsec_mka_ctx \<Rightarrow> bytes" where
  "mka_distributed_param ctx =
     (let sak = mk_latest_sak ctx
      in mka_param MACSEC_MKA_PARAM_DISTRIBUTED_SAK (push_bit 6 (ms_an sak AND 3))
           (macsec_wr_be32 (ms_key_number sak) @
            kw_wrap_spec (mka_kek_cipher (mk_crypto ctx)) (take (ms_sak_len sak) (ms_sak sak))))"

definition mka_params :: "macsec_mka_ctx \<Rightarrow> bytes" where
  "mka_params ctx =
     (if mp_valid (mk_peer ctx)
      then mka_param (if mp_live (mk_peer ctx) then MACSEC_MKA_PARAM_LIVE_PEER_LIST
                      else MACSEC_MKA_PARAM_POTENTIAL_PEER_LIST) 0 (mka_peer_entry (mk_peer ctx)) else []) @
     (if mka_include_distributed_sak ctx then mka_distributed_param ctx else []) @
     (if mka_include_sak_use ctx
      then mka_param MACSEC_MKA_PARAM_SAK_USE (mka_sak_use_flags (mk_latest_sak ctx) (mk_old_sak ctx))
             (mka_sak_use_body ctx) else [])"

lemma buf_put_then:
  "p' = p + length a \<Longrightarrow>
     Option.bind (buf_put f p a) (\<lambda>g. Option.bind (buf_put g p' b) k) = Option.bind (buf_put f p (a @ b)) k"
  by (simp flip: buf_put_buf_put)

lemma buf_put_emit:
  "p' = p + length a \<Longrightarrow>
     Option.bind (buf_put f p a) (\<lambda>g. mka_emit b (g, p')) = mka_emit (a @ b) (f, p)"
  by (simp add: buf_put_then add.assoc)

lemma write_basic_spec:
  assumes "length (mk_local_mac ctx) = 6"
  shows "mka_write_basic ctx mn eapol_len body_len frame total_len =
    do {
      frame \<leftarrow> buf_put frame 0 (replicate total_len 0);
      mka_emit (mka_header ctx eapol_len @ mka_basic ctx mn body_len) (frame, 0)
    }"
proof -
  have "length macsec_mka_dst_mac = 6" by (simp add: macsec_mka_dst_mac_def)
  with assms show ?thesis
    unfolding mka_write_basic_def Let_def
    by (simp add: mka_emits buf_put_then buf_put_emit mka_header_def mka_basic_def mka_basic_flags_def
        mka_ckn_def or.assoc del: mka_emit.simps)
qed

lemma emit_append:
  "length bs \<le> length rest \<Longrightarrow>
     mka_emit bs (pre @ rest, length pre) = Some ((pre @ bs) @ drop (length bs) rest, length (pre @ bs))"
  by (simp add: buf_put_def)

lemma write_params_spec:
  assumes inv: "mka_inv ctx" and room: "length (mka_params ctx) \<le> length rest"
  obtains aes b where "mka_write_params ctx (pre @ rest, length pre) = Some (MACSEC_ERR_OK,
      ctx\<lparr>mk_crypto := (mk_crypto ctx)\<lparr>mc_aes_ctx := aes, mc_aes_initialized := b\<rparr>\<rparr>,
      (pre @ mka_params ctx) @ drop (length (mka_params ctx)) rest, length (pre @ mka_params ctx))"
    "mka_inv (ctx\<lparr>mk_crypto := (mk_crypto ctx)\<lparr>mc_aes_ctx := aes, mc_aes_initialized := b\<rparr>\<rparr>)"
proof -
  have mi: "length (mk_local_mi ctx) = 12" "length (mp_mi (mk_peer ctx)) = 12"
    using inv by (auto simp: mka_inv_def mka_arrays_ok_def)
  define peers where "peers = (if mp_valid (mk_peer ctx)
      then mka_param (if mp_live (mk_peer ctx) then MACSEC_MKA_PARAM_LIVE_PEER_LIST
                      else MACSEC_MKA_PARAM_POTENTIAL_PEER_LIST) 0 (mka_peer_entry (mk_peer ctx)) else [])"
  define dist where "dist = (if mka_include_distributed_sak ctx then mka_distributed_param ctx else [])"
  define use where "use = (if mka_include_sak_use ctx
      then mka_param MACSEC_MKA_PARAM_SAK_USE (mka_sak_use_flags (mk_latest_sak ctx) (mk_old_sak ctx))
             (mka_sak_use_body ctx) else [])"
  have params: "mka_params ctx = peers @ dist @ use" by (simp add: mka_params_def peers_def dist_def use_def)
  have 1: "(if mp_valid (mk_peer ctx)
       then macsec_mka_write_peer_list (if mp_live (mk_peer ctx) then MACSEC_MKA_PARAM_LIVE_PEER_LIST
                      else MACSEC_MKA_PARAM_POTENTIAL_PEER_LIST) (mk_peer ctx) (pre @ rest, length pre)
       else Some (pre @ rest, length pre)) =
      Some ((pre @ peers) @ drop (length peers) rest, length (pre @ peers))"
  proof (cases "mp_valid (mk_peer ctx)")
    case True
    then have p: "mka_param (if mp_live (mk_peer ctx) then MACSEC_MKA_PARAM_LIVE_PEER_LIST
        else MACSEC_MKA_PARAM_POTENTIAL_PEER_LIST) 0 (mka_peer_entry (mk_peer ctx)) = peers"
      by (simp add: peers_def)
    have "length peers \<le> length rest" using room params by simp
    from emit_append [OF this, of pre] True show ?thesis
      unfolding write_peer_list_spec [OF mi(2)] p by simp
  qed (simp add: peers_def)
  obtain aes b where 2: "(if mka_include_distributed_sak ctx
       then macsec_mka_write_distributed_sak ctx ((pre @ peers) @ drop (length peers) rest, length (pre @ peers))
       else Some (MACSEC_ERR_OK, ctx, (pre @ peers) @ drop (length peers) rest, length (pre @ peers))) =
      Some (MACSEC_ERR_OK, ctx\<lparr>mk_crypto := (mk_crypto ctx)\<lparr>mc_aes_ctx := aes, mc_aes_initialized := b\<rparr>\<rparr>,
        (pre @ peers @ dist) @ drop (length (peers @ dist)) rest, length (pre @ peers @ dist))"
    "mka_inv (ctx\<lparr>mk_crypto := (mk_crypto ctx)\<lparr>mc_aes_ctx := aes, mc_aes_initialized := b\<rparr>\<rparr>)"
  proof (cases "mka_include_distributed_sak ctx")
    case False
    then show thesis
      using inv by (intro that [of "mc_aes_initialized (mk_crypto ctx)" "mc_aes_ctx (mk_crypto ctx)"]) (simp_all add: dist_def)
  next
    case True
    then have "mka_sak_distributable (mk_latest_sak ctx)"
      "ms_origin (mk_latest_sak ctx) = MACSEC_MKA_SAK_ORIGIN_LOCAL_KEY_SERVER"
      by (simp_all add: mka_include_distributed_sak_def)
    then show thesis
    proof (rule write_distributed_sak_spec [OF inv, of "((pre @ peers) @ drop (length peers) rest, length (pre @ peers))"], goal_cases)
      case (1 aes)
      have "length dist \<le> length (drop (length peers) rest)" using room params by simp
      then have e: "mka_emit dist ((pre @ peers) @ drop (length peers) rest, length (pre @ peers)) =
          Some ((pre @ peers @ dist) @ drop (length (peers @ dist)) rest, length (pre @ peers @ dist))"
        by (subst emit_append) (simp_all add: ac_simps)
      have d: "dist = mka_param MACSEC_MKA_PARAM_DISTRIBUTED_SAK (push_bit 6 (ms_an (mk_latest_sak ctx) AND 3))
          (macsec_wr_be32 (ms_key_number (mk_latest_sak ctx)) @ kw_wrap_spec (mka_kek_cipher (mk_crypto ctx))
             (take (ms_sak_len (mk_latest_sak ctx)) (ms_sak (mk_latest_sak ctx))))"
        using True by (simp add: dist_def mka_distributed_param_def Let_def)
      from 1(1) [folded d, unfolded e Option.bind.bind_lunit prod.case] 1(2) True show thesis
        by (intro that [of True aes]) (simp_all only: if_True)
    qed
  qed
  show thesis
  proof (rule that [OF _ 2(2)])
    have u: "macsec_mka_write_sak_use (ctx\<lparr>mk_crypto := c\<rparr>) out = mka_emit use out" if "mka_include_sak_use ctx" for c out
      using write_sak_use_spec [of "ctx\<lparr>mk_crypto := c\<rparr>" out] mi that
      by (simp add: use_def mka_sak_use_body_def)
    have i: "mka_include_sak_use (ctx\<lparr>mk_crypto := c\<rparr>) = mka_include_sak_use ctx" for c
      by (simp add: mka_include_sak_use_def)
    have "length use \<le> length (drop (length (peers @ dist)) rest)" using room params by simp
    then have "mka_emit use ((pre @ peers @ dist) @ drop (length (peers @ dist)) rest, length (pre @ peers @ dist)) =
        Some ((pre @ mka_params ctx) @ drop (length (mka_params ctx)) rest, length (pre @ mka_params ctx))"
      by (subst emit_append) (simp_all add: params ac_simps)
    moreover have "use = []" if "\<not> mka_include_sak_use ctx" using that by (simp add: use_def)
    ultimately show "mka_write_params ctx (pre @ rest, length pre) = Some (MACSEC_ERR_OK,
        ctx\<lparr>mk_crypto := (mk_crypto ctx)\<lparr>mc_aes_ctx := aes, mc_aes_initialized := b\<rparr>\<rparr>,
        (pre @ mka_params ctx) @ drop (length (mka_params ctx)) rest, length (pre @ mka_params ctx))"
      unfolding mka_write_params_def 1 2(1) Option.bind.bind_lunit prod.case
      by (cases "mka_include_sak_use ctx") (simp_all add: u i params del: append_assoc mka_emit.simps)
  qed
qed

definition mka_body_len :: "macsec_mka_ctx \<Rightarrow> u16" where
  "mka_body_len ctx = 28 + ucast (psk_ckn_len (mc_psk (mk_crypto ctx)))"

definition mka_eapol_len :: "macsec_mka_ctx \<Rightarrow> nat" where
  "mka_eapol_len ctx = 48 + unat (psk_ckn_len (mc_psk (mk_crypto ctx))) + length (mka_params ctx)"

text \<open>All bytes of the frame before the ICV.\<close>

definition mka_frame_body :: "macsec_mka_ctx \<Rightarrow> bytes" where
  "mka_frame_body ctx = mka_header ctx (of_nat (mka_eapol_len ctx)) @
     mka_basic ctx (mk_local_mn ctx) (mka_body_len ctx) @ mka_params ctx"

lemma mka_inv_lengths:
  assumes "mka_inv ctx"
  shows "length (mk_local_mac ctx) = 6" "length (mk_local_sci ctx) = 8" "length (mk_local_mi ctx) = 12"
    "length (mp_mi (mk_peer ctx)) = 12" "length (psk_ckn (mc_psk (mk_crypto ctx))) = 32"
    "0 < unat (psk_ckn_len (mc_psk (mk_crypto ctx)))" "unat (psk_ckn_len (mc_psk (mk_crypto ctx))) \<le> 32"
    "keys_valid (mc_keys (mk_crypto ctx))" "mka_crypto_wf (mk_crypto ctx)"
    "macsec_mka_ick_ready (mk_crypto ctx)" "macsec_mka_kek_ready (mk_crypto ctx)"
  using assms
  by (auto simp: mka_inv_def mka_arrays_ok_def mka_keys_ok_def mka_crypto_wf_def unat_gt_0
      macsec_mka_ick_ready_def macsec_mka_kek_ready_def)

lemma length_ckn [simp]: "mka_inv ctx \<Longrightarrow> length (mka_ckn ctx) = unat (psk_ckn_len (mc_psk (mk_crypto ctx)))"
  using mka_inv_lengths(5,7) [of ctx] by (simp add: mka_ckn_def)

lemma length_distributed_param:
  assumes inv: "mka_inv ctx" and "mka_include_distributed_sak ctx"
  shows "length (mka_distributed_param ctx) = 16 + ms_sak_len (mk_latest_sak ctx)"
    "ms_sak_len (mk_latest_sak ctx) = 16 \<or> ms_sak_len (mk_latest_sak ctx) = 32"
proof -
  let ?sak = "mk_latest_sak ctx"
  show len: "ms_sak_len ?sak = 16 \<or> ms_sak_len ?sak = 32"
    using assms by (auto simp: mka_inv_def mka_latest_ok_def mka_sak_ok_def mka_include_distributed_sak_def
        mka_sak_distributable_def)
  have "length (ms_sak ?sak) = 32" using inv by (simp add: mka_inv_def mka_latest_ok_def mka_sak_ok_def)
  with len have key: "length (take (ms_sak_len ?sak) (ms_sak ?sak)) = ms_sak_len ?sak" by auto
  with len have "length (take (ms_sak_len ?sak) (ms_sak ?sak)) mod 8 = 0" by auto
  from block_cipher.key_unwrap_wrap(2) [OF kek_ready_cipher [OF mka_inv_lengths(9,11) [OF inv]] this] key
  show "length (mka_distributed_param ctx) = 16 + ms_sak_len ?sak"
    by (simp add: mka_distributed_param_def Let_def)
qed

lemma length_params:
  assumes inv: "mka_inv ctx"
  shows "length (mka_params ctx) = (if mp_valid (mk_peer ctx) then 20 else 0) +
    (if mka_include_distributed_sak ctx then 16 + ms_sak_len (mk_latest_sak ctx) else 0) +
    (if mka_include_sak_use ctx then 44 else 0)"
    "length (mka_params ctx) \<le> 112"
proof -
  show "length (mka_params ctx) = (if mp_valid (mk_peer ctx) then 20 else 0) +
    (if mka_include_distributed_sak ctx then 16 + ms_sak_len (mk_latest_sak ctx) else 0) +
    (if mka_include_sak_use ctx then 44 else 0)"
    using mka_inv_lengths(3,4) [OF inv] length_distributed_param(1) [OF inv] by (simp add: mka_params_def)
  with length_distributed_param(2) [OF inv] show "length (mka_params ctx) \<le> 112" by auto
qed

lemma mka_eapol_len_bounds:
  assumes "mka_inv ctx" shows "mka_eapol_len ctx \<le> 192" "49 \<le> mka_eapol_len ctx"
  using length_params(2) [OF assms] mka_inv_lengths(6,7) [OF assms] by (simp_all add: mka_eapol_len_def)

lemma length_frame_body:
  "mka_inv ctx \<Longrightarrow> length (mka_frame_body ctx) = 2 + mka_eapol_len ctx"
  using mka_inv_lengths(1-3) [of ctx]
  by (simp add: mka_frame_body_def mka_header_def mka_basic_def mka_eapol_len_def macsec_mka_dst_mac_def)

lemma write_icv_spec:
  assumes inv: "mka_inv ctx" and len: "length icv = 16"
  obtains c where "mka_write_icv ctx (body @ icv @ rest) (length body) = Some (MACSEC_ERR_OK,
      ctx\<lparr>mk_crypto := (mk_crypto ctx)\<lparr>mc_cmac_ctx := c\<rparr>\<rparr>,
      body @ cmac_spec (mka_ick_cipher (mk_crypto ctx)) body @ rest)"
    "mka_inv (ctx\<lparr>mk_crypto := (mk_crypto ctx)\<lparr>mc_cmac_ctx := c\<rparr>\<rparr>)"
proof -
  note wf = mka_inv_lengths(9,10) [OF inv]
  from calc_mic_spec [OF wf, of body icv] obtain c where
    c: "macsec_mka_crypto_calc_mic (mk_crypto ctx) body icv =
      (MACSEC_ERR_OK, (mk_crypto ctx)\<lparr>mc_cmac_ctx := c\<rparr>, cmac_spec (mka_ick_cipher (mk_crypto ctx)) body)"
    "length (rk_buf (cmac_aes_ctx c)) = 68" .
  have l: "length (cmac_spec (mka_ick_cipher (mk_crypto ctx)) body) = 16"
    by (simp add: mka_ick_cipher_def length_cmac_spec)
  show thesis
  proof (rule that [of c])
    show "mka_write_icv ctx (body @ icv @ rest) (length body) = Some (MACSEC_ERR_OK,
        ctx\<lparr>mk_crypto := (mk_crypto ctx)\<lparr>mc_cmac_ctx := c\<rparr>\<rparr>,
        body @ cmac_spec (mka_ick_cipher (mk_crypto ctx)) body @ rest)"
      using c(1) len l by (simp add: mka_write_icv_def buf_simps)
    show "mka_inv (ctx\<lparr>mk_crypto := (mk_crypto ctx)\<lparr>mc_cmac_ctx := c\<rparr>\<rparr>)"
      using inv mka_crypto_wf_update(2) [OF wf(1) c(2)] by (intro mka_inv_crypto) (auto simp: mka_inv_def mka_keys_ok_def)
  qed
qed

text \<open>The context with the SAK that the transmitter may generate before it builds a frame.\<close>

definition mka_tx_prepare :: "(nat \<Rightarrow> bytes) \<Rightarrow> macsec_mka_ctx \<Rightarrow> macsec_ret \<times> macsec_mka_ctx" where
  "mka_tx_prepare rnd ctx =
     (if mk_local_key_server ctx \<and> mp_valid (mk_peer ctx) \<and> mp_live (mk_peer ctx)
      then macsec_mka_key_server_ensure_sak rnd ctx else (MACSEC_ERR_OK, ctx))"

lemma tx_prepare_inv:
  "mka_inv ctx \<Longrightarrow> length (rnd 16) = 16 \<Longrightarrow> mka_inv (snd (mka_tx_prepare rnd ctx))"
  by (simp add: mka_tx_prepare_def ensure_sak_inv)

lemma tx_prepare_keeps:
  "mk_crypto (snd (mka_tx_prepare rnd ctx)) = mk_crypto ctx" "mk_local_mn (snd (mka_tx_prepare rnd ctx)) = mk_local_mn ctx"
  "mk_peer (snd (mka_tx_prepare rnd ctx)) = mk_peer ctx"
  "mk_local_mi (snd (mka_tx_prepare rnd ctx)) = mk_local_mi ctx"
  by (simp_all add: mka_tx_prepare_def macsec_mka_key_server_ensure_sak_def Let_def mka_step_simps)

definition mka_tx_meta :: "macsec_mka_ctx \<Rightarrow> macsec_mka_tx_meta" where
  "mka_tx_meta ctx = \<lparr>mt_message_number = mk_local_mn ctx, mt_reasons = mk_tx_reasons ctx,
     mt_contains_peer_list = mp_valid (mk_peer ctx),
     mt_contains_distributed_sak = mka_include_distributed_sak ctx,
     mt_contains_sak_use = mka_include_sak_use ctx,
     mt_distributed_key_number = (if mka_include_distributed_sak ctx then ms_key_number (mk_latest_sak ctx) else 0),
     mt_distributed_an = (if mka_include_distributed_sak ctx then ms_an (mk_latest_sak ctx) else 0)\<rparr>"

text \<open>The frame, from a prepared context to the ICV.\<close>

definition mka_tx_frame :: "macsec_mka_ctx \<Rightarrow> bytes" where
  "mka_tx_frame ctx = mka_frame_body ctx @ cmac_spec (mka_ick_cipher (mk_crypto ctx)) (mka_frame_body ctx)"

lemma length_tx_frame: "mka_inv ctx \<Longrightarrow> length (mka_tx_frame ctx) = 18 + mka_eapol_len ctx"
  by (simp add: mka_tx_frame_def length_frame_body mka_ick_cipher_def length_cmac_spec)

text \<open>The writes, into a buffer that has room for the frame.\<close>

lemma write_frame_spec:
  fixes ctx :: macsec_mka_ctx and total :: nat
  assumes inv: "mka_inv ctx" and room: "18 + mka_eapol_len ctx \<le> length frame"
  defines "total \<equiv> 18 + mka_eapol_len ctx"
  obtains out c1 c2 written q where
    "mka_write_basic ctx (mk_local_mn ctx) (of_nat (mka_eapol_len ctx)) (mka_body_len ctx) frame total = Some out"
    "mka_write_params ctx out = Some (MACSEC_ERR_OK, ctx\<lparr>mk_crypto := c1\<rparr>, written, q)"
    "mka_write_icv (ctx\<lparr>mk_crypto := c1\<rparr>) written (total - 16) =
       Some (MACSEC_ERR_OK, ctx\<lparr>mk_crypto := c2\<rparr>, mka_tx_frame ctx @ drop total frame)"
    "mka_inv (ctx\<lparr>mk_crypto := c2\<rparr>)" "mc_keys c2 = mc_keys (mk_crypto ctx)" "mc_psk c2 = mc_psk (mk_crypto ctx)"
proof -
  define pre where "pre = mka_header ctx (of_nat (mka_eapol_len ctx)) @ mka_basic ctx (mk_local_mn ctx) (mka_body_len ctx)"
  define n where "n = length (mka_params ctx)"
  define rest where "rest = replicate (total - length pre) 0 @ drop total frame"
  have pre: "length pre = 2 + mka_eapol_len ctx - n" "n \<le> mka_eapol_len ctx"
    using length_frame_body [OF inv] by (auto simp: pre_def mka_frame_body_def n_def mka_eapol_len_def)
  have body: "mka_frame_body ctx = pre @ mka_params ctx" by (simp add: pre_def mka_frame_body_def)
  have zeros: "buf_put frame 0 (replicate total 0) = Some ([] @ replicate (length pre) 0 @ rest)"
    using room pre by (simp add: buf_put_def total_def rest_def flip: replicate_add append_assoc)
  have "mka_emit pre ([] @ replicate (length pre) 0 @ rest, length ([] :: bytes)) = Some (pre @ rest, length pre)"
    by (subst emit_append) simp_all
  with zeros have basic: "mka_write_basic ctx (mk_local_mn ctx) (of_nat (mka_eapol_len ctx)) (mka_body_len ctx) frame total =
      Some (pre @ rest, length pre)"
    using mka_inv_lengths(1) [OF inv] unfolding total_def
    by (simp add: write_basic_spec pre_def del: mka_emit.simps)
  have "length (mka_params ctx) \<le> length rest" using room pre by (simp add: rest_def total_def n_def)
  from write_params_spec [OF inv this, of pre] obtain aes b where
    par: "mka_write_params ctx (pre @ rest, length pre) = Some (MACSEC_ERR_OK,
      ctx\<lparr>mk_crypto := (mk_crypto ctx)\<lparr>mc_aes_ctx := aes, mc_aes_initialized := b\<rparr>\<rparr>,
      (pre @ mka_params ctx) @ drop (length (mka_params ctx)) rest, length (pre @ mka_params ctx))"
    "mka_inv (ctx\<lparr>mk_crypto := (mk_crypto ctx)\<lparr>mc_aes_ctx := aes, mc_aes_initialized := b\<rparr>\<rparr>)" .
  define c1 where "c1 = (mk_crypto ctx)\<lparr>mc_aes_ctx := aes, mc_aes_initialized := b\<rparr>"
  have tail: "drop (length (mka_params ctx)) rest = replicate 16 0 @ drop total frame"
    using pre by (simp add: rest_def total_def n_def [symmetric])
  have len: "length (pre @ mka_params ctx) = total - 16"
    using pre by (simp add: total_def n_def [symmetric])
  have ik: "mka_ick_cipher c1 = mka_ick_cipher (mk_crypto ctx)" by (simp add: c1_def mka_ick_cipher_def)
  have z: "length (replicate 16 0 :: bytes) = 16" by simp
  show thesis
  proof (rule write_icv_spec [OF par(2) z, of "pre @ mka_params ctx" "drop total frame"], goal_cases)
    case (1 c)
    have "mka_write_icv (ctx\<lparr>mk_crypto := c1\<rparr>) ((pre @ mka_params ctx) @ replicate 16 0 @ drop total frame) (total - 16) =
      Some (MACSEC_ERR_OK, ctx\<lparr>mk_crypto := c1\<lparr>mc_cmac_ctx := c\<rparr>\<rparr>, mka_tx_frame ctx @ drop total frame)"
      using 1(1) [folded c1_def, unfolded len] by (simp add: mka_tx_frame_def body ik)
    then show thesis
      using 1(2) par(1) by (intro that [OF basic, where ?c1.0 = c1 and ?c2.0 = "c1\<lparr>mc_cmac_ctx := c\<rparr>"]) (simp_all add: c1_def tail)
  qed
qed

lemma build_tx_frame_spec:
  assumes inv: "mka_inv ctx" and rnd: "length (rnd 16) = 16" and room: "max_len \<le> length frame"
  defines "prepared \<equiv> mka_tx_prepare rnd ctx"
  obtains (idle) "mk_tx_reasons ctx = MACSEC_MKA_TX_REASON_NONE"
      "macsec_mka_build_tx_frame rnd ctx frame frame_len max_len meta =
         Some (MACSEC_ERR_NOT_READY, ctx, frame, 0, mka_meta_zero)"
  | (no_sak) "mk_tx_reasons ctx \<noteq> MACSEC_MKA_TX_REASON_NONE" "fst prepared \<noteq> MACSEC_ERR_OK"
      "macsec_mka_build_tx_frame rnd ctx frame frame_len max_len meta =
         Some (fst prepared, snd prepared, frame, 0, mka_meta_zero)"
  | (too_long) meta' where "mk_tx_reasons ctx \<noteq> MACSEC_MKA_TX_REASON_NONE" "fst prepared = MACSEC_ERR_OK"
      "max_len < 18 + mka_eapol_len (snd prepared)"
      "macsec_mka_build_tx_frame rnd ctx frame frame_len max_len meta =
         Some (MACSEC_ERR_BUFFER, snd prepared, frame, 0, meta')"
  | (built) c where "mk_tx_reasons ctx \<noteq> MACSEC_MKA_TX_REASON_NONE" "fst prepared = MACSEC_ERR_OK"
      "18 + mka_eapol_len (snd prepared) \<le> max_len"
      "macsec_mka_build_tx_frame rnd ctx frame frame_len max_len meta =
         Some (MACSEC_ERR_OK, (snd prepared)\<lparr>mk_crypto := c\<rparr>,
               mka_tx_frame (snd prepared) @ drop (18 + mka_eapol_len (snd prepared)) frame,
               18 + mka_eapol_len (snd prepared), mka_tx_meta (snd prepared))"
      "mka_inv ((snd prepared)\<lparr>mk_crypto := c\<rparr>)" "mc_keys c = mc_keys (mk_crypto ctx)"
      "mc_psk c = mc_psk (mk_crypto ctx)"
proof -
  obtain r d where prep: "prepared = (r, d)" by (cases prepared)
  have d: "mka_inv d" using tx_prepare_inv [where rnd = rnd, OF inv rnd] prep by (simp add: prepared_def)
  have keeps: "mk_crypto d = mk_crypto ctx" "mk_local_mn d = mk_local_mn ctx"
    using tx_prepare_keeps [of rnd ctx] prep by (simp_all add: prepared_def)
  note l = mka_inv_lengths [OF inv]
  show thesis
  proof (cases "mk_tx_reasons ctx = MACSEC_MKA_TX_REASON_NONE")
    case True
    with l show thesis by (intro idle) (simp_all add: macsec_mka_build_tx_frame_def Let_def)
  next
    case reasons: False
    show thesis
    proof (cases "r = MACSEC_ERR_OK")
      case False
      with reasons l show thesis
        using prep unfolding prepared_def mka_tx_prepare_def
        by (intro no_sak) (simp_all add: macsec_mka_build_tx_frame_def Let_def prepared_def mka_tx_prepare_def)
    next
      case ok: True
      have sl: "\<not> (mka_include_distributed_sak d \<and> ms_sak_len (mk_latest_sak d) \<noteq> 16 \<and> ms_sak_len (mk_latest_sak d) \<noteq> 32)"
        using length_distributed_param(2) [OF d] by auto
      define el where "el = (4 + mka_body_len d + (if mp_valid (mk_peer d) then 4 + 16 else 0) +
          (if \<not> mka_include_distributed_sak d then 0
           else if ms_sak_len (mk_latest_sak d) = 16 then 4 + 4 + 24 else 4 + 4 + 40) +
          (if mka_include_sak_use d then 4 + 40 else 0) + of_nat MACSEC_MKA_ICV_LEN :: u16)"
      have "el = of_nat (mka_eapol_len d)"
        using length_distributed_param(2) [OF d]
        by (auto simp: el_def mka_eapol_len_def length_params(1) [OF d] mka_body_len_def)
      moreover have "unat (of_nat (mka_eapol_len d) :: u16) = mka_eapol_len d"
        using mka_eapol_len_bounds [OF d] by (simp add: unat_of_nat)
      ultimately have el: "el = of_nat (mka_eapol_len d)" "unat el = mka_eapol_len d" by simp_all
      define m where "m = (if mka_include_distributed_sak d
          then mka_meta_zero\<lparr>mt_message_number := mk_local_mn d, mt_reasons := mk_tx_reasons d,
                 mt_distributed_key_number := ms_key_number (mk_latest_sak d),
                 mt_distributed_an := ms_an (mk_latest_sak d)\<rparr>
          else mka_meta_zero\<lparr>mt_message_number := mk_local_mn d, mt_reasons := mk_tx_reasons d\<rparr>)"
      have mn: "mt_message_number m = mk_local_mn d" by (simp add: m_def)
      have meta: "m\<lparr>mt_contains_peer_list := mp_valid (mk_peer d),
            mt_contains_distributed_sak := mka_include_distributed_sak d,
            mt_contains_sak_use := mka_include_sak_use d\<rparr> = mka_tx_meta d"
        by (simp add: m_def mka_tx_meta_def mka_meta_zero_def)
      have step: "macsec_mka_build_tx_frame rnd ctx frame frame_len max_len meta =
        (if \<not> 14 + 4 + unat el \<le> max_len then Some (MACSEC_ERR_BUFFER, d, frame, 0, m)
         else if \<not> 14 + 4 + unat el \<le> 512 then Some (MACSEC_ERR_BUFFER, d, frame, 0, m)
         else do {
           out \<leftarrow> mka_write_basic d (mt_message_number m) el (mka_body_len d) frame (14 + 4 + unat el);
           (ret, c, frame, p) \<leftarrow> mka_write_params d out;
           if ret \<noteq> MACSEC_ERR_OK then Some (ret, c, frame, 0, m)
           else do {
             (ret, c, frame) \<leftarrow> mka_write_icv c frame (14 + 4 + unat el - 16);
             if ret \<noteq> MACSEC_ERR_OK then Some (ret, c, frame, 0, m)
             else Some (MACSEC_ERR_OK, c, frame, 14 + 4 + unat el, mka_tx_meta d)
           }
         })"
        unfolding macsec_mka_build_tx_frame_def Let_def mka_tx_prepare_def [symmetric]
          prep [unfolded prepared_def] prod.case mka_body_len_def [symmetric]
        unfolding el_def [symmetric] m_def [symmetric] meta
        unfolding if_not_P [OF sl] using reasons ok l(7,8) by simp
      show thesis
      proof (cases "18 + mka_eapol_len d \<le> max_len")
        case False
        with reasons ok show thesis
          by (intro too_long [of m]) (simp_all add: prep step el(2))
      next
        case fits: True
        have le: "18 + mka_eapol_len d \<le> length frame" "14 + 4 + unat el = 18 + mka_eapol_len d"
            "18 + mka_eapol_len d \<le> 512"
          using fits room mka_eapol_len_bounds [OF d] by (simp_all add: el(2))
        show thesis
        proof (rule write_frame_spec [OF d le(1)], goal_cases)
          case (1 out c1 c2 written q)
          with reasons ok fits le show thesis
            by (intro built [of c2]) (simp_all add: prep step el(1) mn keeps)
        qed
      qed
    qed
  qed
qed

subsection \<open>Reading a built frame\<close>

text \<open>The 12-bit length field: written by \<open>mka_param_header\<close> or with flags above it, and read back.\<close>

lemma and_masks: "(x :: 'a::len word) AND 0x0F = take_bit 4 x" "(x :: 'a::len word) AND 0xFF = take_bit 8 x"
  "(x :: 'a::len word) AND 3 = take_bit 2 x"
  by (simp_all add: take_bit_eq_mask mask_eq_exp_minus_1)

lemma param_body_len_read:
  fixes n :: u16
  assumes "h AND 0x0F = ucast (drop_bit 8 n AND 0x0F)"
  shows "mka_param_body_len h (ucast (n AND 0xFF)) = take_bit 12 n"
proof -
  have "mka_param_body_len h (ucast (n AND 0xFF)) =
      push_bit 8 (ucast (ucast (drop_bit 8 n AND 0x0F) :: u8)) OR ucast (ucast (n AND 0xFF) :: u8)"
    by (simp add: mka_param_body_len_def assms)
  also have "\<dots> = take_bit 12 n"
  proof (rule bit_word_eqI)
    fix i :: nat assume "i < LENGTH(16)"
    then show "bit (push_bit 8 (ucast (ucast (drop_bit 8 n AND 0x0F) :: u8)) OR ucast (ucast (n AND 0xFF) :: u8) :: u16) i =
        bit (take_bit 12 n) i"
      unfolding and_masks by (cases "i < 8") (auto simp: bit_simps)
  qed
  finally show ?thesis .
qed

lemma unat_take_bit_12: "unat (n :: u16) < 4096 \<Longrightarrow> unat (take_bit 12 n) = unat n"
proof -
  assume "unat n < 4096"
  moreover have "unat (take_bit 12 n) = take_bit 12 (unat n)" by transfer (simp add: take_bit_nat_eq min_def)
  ultimately show ?thesis by (simp add: take_bit_eq_mod)
qed

lemma mka_param_nth:
  "frame ! length pre = b0" "frame ! (length pre + 1) = b1"
  "length body < 4096 \<Longrightarrow> mka_len_at frame (length pre) = length body"
  if "frame = pre @ mka_param b0 b1 body @ post"
proof -
  let ?n = "of_nat (length body) :: u16"
  show "frame ! length pre = b0" "frame ! (length pre + 1) = b1"
    by (simp_all add: that mka_param_def mka_param_header_def nth_append)
  assume l: "length body < 4096"
  have "(ucast (drop_bit 8 ?n AND 0x0F) :: u8) AND 0x0F = ucast (drop_bit 8 ?n AND 0x0F)"
    unfolding and_masks by (rule bit_word_eqI) (auto simp: bit_simps)
  from param_body_len_read [OF this] have "mka_len_at frame (length pre) = unat (take_bit 12 ?n)"
    by (simp add: mka_len_at_def that mka_param_def mka_param_header_def nth_append)
  also have "\<dots> = length body" using l by (subst unat_take_bit_12) (simp_all add: unat_of_nat)
  finally show "mka_len_at frame (length pre) = length body" .
qed

lemma param_scan_skip:
  assumes frame: "frame = pre @ mka_param b0 b1 body @ post" and "length body < 4096" "length pre \<noteq> 18"
    and "b0 \<noteq> wanted" "length (pre @ mka_param b0 b1 body) \<le> scan_end" "scan_end \<le> length frame"
  shows "mka_param_scan frame wanted (length pre) scan_end =
    mka_param_scan frame wanted (length (pre @ mka_param b0 b1 body)) scan_end"
  using mka_param_nth [OF frame] assms(2-)
  by (subst param_scan_step) (simp_all add: add.commute add.left_commute)

lemma param_scan_hit:
  assumes frame: "frame = pre @ mka_param b0 b1 body @ post" and "length body < 4096" "length pre \<noteq> 18"
    and "b0 = wanted" "length (pre @ mka_param b0 b1 body) \<le> scan_end" "scan_end \<le> length frame"
  shows "mka_param_scan frame wanted (length pre) scan_end = Some (Inr (length pre, b1, length body))"
  using mka_param_nth [OF frame] assms(2-)
  by (subst param_scan_step) (simp_all add: add.commute add.left_commute)

lemma peer_scan_hit:
  assumes frame: "frame = pre @ mka_param b0 b1 (mka_peer_entry peer) @ post" and "length pre \<noteq> 18"
    and "b0 = MACSEC_MKA_PARAM_LIVE_PEER_LIST \<or> b0 = MACSEC_MKA_PARAM_POTENTIAL_PEER_LIST"
    and "length (pre @ mka_param b0 b1 (mka_peer_entry peer)) \<le> scan_end" "scan_end \<le> length frame"
    and mi: "length (mp_mi peer) = 12"
  shows "mka_peer_scan frame (mp_mi peer) (length pre) scan_end = Some (True, mp_mn peer, b0)"
proof -
  have d: "drop (length pre + 4) frame = mka_peer_entry peer @ post"
    by (simp add: frame mka_param_def mka_param_header_def)
  then have "take 12 (drop (length pre + 4) frame) = mp_mi peer"
    using mi by (simp add: mka_peer_entry_def)
  moreover have "take 4 (drop (length pre + 4 + 12) frame) = macsec_wr_be32 (mp_mn peer)"
    using mi d by (simp only: drop_drop [symmetric] add.commute [of _ 12]) (simp add: mka_peer_entry_def)
  ultimately have "mka_peer_list_find frame (mp_mi peer) (length pre + 4) (length pre + 20) = Some (Some (mp_mn peer))"
    using assms(4,5) mi by (subst mka_peer_list_find.simps) (simp add: buf_simps)
  then show ?thesis
    using mka_param_nth [OF frame] assms(2-)
    by (subst peer_scan_step) (auto simp: add.commute add.left_commute)
qed

lemma parse_basic_accepts:
  fixes frame :: bytes
  defines "el \<equiv> unat (macsec_rd_be16 (take 2 (drop 16 frame)))"
    and "bl \<equiv> unat (mka_param_body_len (frame ! 20) (frame ! 21))"
  assumes "18 + el \<le> length frame" "48 \<le> el" "28 \<le> bl" "bl \<le> 60" "20 + bl \<le> el"
    and "macsec_rd_be16 (take 2 (drop 12 frame)) = MACSEC_MKA_ETHERTYPE_EAPOL" "frame ! 15 = MACSEC_MKA_EAPOL_TYPE_MKA"
  obtains b where "macsec_mka_parse_basic frame out = Some (MACSEC_ERR_OK, b)" "mka_basic_ok frame b"
proof -
  have "\<exists>b. macsec_mka_parse_basic frame out = Some (MACSEC_ERR_OK, b)"
    using assms unfolding macsec_mka_parse_basic_def Let_def
    by (simp add: buf_simps drop_take word_le_nat_alt)
  then obtain b where b: "macsec_mka_parse_basic frame out = Some (MACSEC_ERR_OK, b)" ..
  moreover have "mka_basic_ok frame b"
    using b by (cases rule: parse_basic_total [of frame out]) simp
  ultimately show thesis by (rule that)
qed

text \<open>The fields of a built frame, where the parser looks for them.\<close>

lemma tx_frame_parts:
  assumes inv: "mka_inv ctx"
  defines "frame \<equiv> mka_tx_frame ctx"
  shows "take 6 (drop 6 frame) = mk_local_mac ctx"
    "take 2 (drop 12 frame) = macsec_wr_be16 MACSEC_MKA_ETHERTYPE_EAPOL" "frame ! 15 = MACSEC_MKA_EAPOL_TYPE_MKA"
    "take 2 (drop 16 frame) = macsec_wr_be16 (of_nat (mka_eapol_len ctx))"
    "frame ! 19 = mk_key_server_priority ctx" "frame ! 20 = mka_basic_flags ctx (mka_body_len ctx)"
    "frame ! 21 = ucast (mka_body_len ctx AND 0xFF)"
    "take 8 (drop 22 frame) = mk_local_sci ctx" "take 12 (drop 30 frame) = mk_local_mi ctx"
    "take 4 (drop 42 frame) = macsec_wr_be32 (mk_local_mn ctx)"
proof -
  let ?bl = "mka_body_len ctx"
  define dst where "dst = macsec_mka_dst_mac"
  define rest where "rest = mka_ckn ctx @ mka_params ctx @ cmac_spec (mka_ick_cipher (mk_crypto ctx)) (mka_frame_body ctx)"
  have l: "length dst = 6" "length (mk_local_mac ctx) = 6" "length (mk_local_sci ctx) = 8" "length (mk_local_mi ctx) = 12"
    using mka_inv_lengths(1-3) [OF inv] by (simp_all add: dst_def macsec_mka_dst_mac_def)
  have f: "frame = dst @ mk_local_mac ctx @ macsec_wr_be16 MACSEC_MKA_ETHERTYPE_EAPOL @
      [MACSEC_MKA_EAPOL_VERSION_2010, MACSEC_MKA_EAPOL_TYPE_MKA] @ macsec_wr_be16 (of_nat (mka_eapol_len ctx)) @
      [MACSEC_MKA_VERSION_ID, mk_key_server_priority ctx, mka_basic_flags ctx ?bl, ucast (?bl AND 0xFF)] @
      mk_local_sci ctx @ mk_local_mi ctx @ macsec_wr_be32 (mk_local_mn ctx) @
      macsec_wr_be32 MACSEC_MKA_ALGORITHM_AGILITY @ rest"
    using l by (simp add: frame_def mka_tx_frame_def mka_frame_body_def mka_header_def mka_basic_def
        dst_def [symmetric] rest_def)
  show "take 6 (drop 6 frame) = mk_local_mac ctx"
    "take 2 (drop 12 frame) = macsec_wr_be16 MACSEC_MKA_ETHERTYPE_EAPOL" "frame ! 15 = MACSEC_MKA_EAPOL_TYPE_MKA"
    "take 2 (drop 16 frame) = macsec_wr_be16 (of_nat (mka_eapol_len ctx))"
    "frame ! 19 = mk_key_server_priority ctx" "frame ! 20 = mka_basic_flags ctx (mka_body_len ctx)"
    "frame ! 21 = ucast (mka_body_len ctx AND 0xFF)"
    "take 8 (drop 22 frame) = mk_local_sci ctx" "take 12 (drop 30 frame) = mk_local_mi ctx"
    "take 4 (drop 42 frame) = macsec_wr_be32 (mk_local_mn ctx)"
    unfolding f by (simp_all add: l nth_append)
qed

lemma unat_ucast_u8: "unat (ucast (x :: u8) :: u16) = unat x"
proof -
  have "unat x < 2 ^ LENGTH(8)" by (rule unsigned_less)
  then have "unat x < 65536" by (rule order_less_le_trans) simp
  then show ?thesis by (simp add: unsigned_ucast_eq take_bit_eq_mod)
qed

lemma and_flag: "(x :: u8) AND 0x80 \<noteq> 0 \<longleftrightarrow> bit x 7" "(x :: u8) AND 0x40 \<noteq> 0 \<longleftrightarrow> bit x 6"
  using and_exp_eq_0_iff_not_bit [of x 7] and_exp_eq_0_iff_not_bit [of x 6] by simp_all

lemma basic_flags_bits: "bit (mka_basic_flags ctx n) i \<longleftrightarrow>
   (i < 4 \<and> bit n (8 + i)) \<or> (i = 7 \<and> mk_local_key_server ctx) \<or> (i = 6 \<and> mk_macsec_desired ctx) \<or>
   (4 \<le> i \<and> i < 6 \<and> bit (mk_macsec_capability ctx) (i - 4))"
proof -
  define a b where "a = (0x80 :: u8)" and "b = (0x40 :: u8)"
  have "bit a i \<longleftrightarrow> i = 7" "bit b i \<longleftrightarrow> i = 6" for i
    using bit_exp_iff [where 'a = u8, of 7 i] bit_exp_iff [where 'a = u8, of 6 i] by (auto simp: a_def b_def)
  then show ?thesis
    unfolding mka_basic_flags_def and_masks a_def [symmetric] b_def [symmetric] by (auto simp: bit_simps)
qed

lemma basic_flags_read:
  "mka_basic_flags ctx n AND 0x0F = ucast (drop_bit 8 n AND 0x0F)"
  "mka_basic_flags ctx n AND 0x80 \<noteq> 0 \<longleftrightarrow> mk_local_key_server ctx"
  "mka_basic_flags ctx n AND 0x40 \<noteq> 0 \<longleftrightarrow> mk_macsec_desired ctx"
  "drop_bit 4 (mka_basic_flags ctx n) AND 3 = mk_macsec_capability ctx AND 3"
  unfolding and_flag and_masks
  by (auto simp: basic_flags_bits bit_simps intro!: bit_word_eqI)

lemma tx_frame_parses:
  assumes inv: "mka_inv ctx"
  obtains b where "macsec_mka_parse_basic (mka_tx_frame ctx) out = Some (MACSEC_ERR_OK, b)"
    "mka_basic_ok (mka_tx_frame ctx) b" "mb_src_mac b = mk_local_mac ctx" "mb_sci b = mk_local_sci ctx"
    "mb_actor_mi b = mk_local_mi ctx" "mb_actor_mn b = mk_local_mn ctx"
    "mb_key_server_priority b = mk_key_server_priority ctx" "mb_key_server b = mk_local_key_server ctx"
    "mb_macsec_desired b = mk_macsec_desired ctx" "mb_macsec_capability b = mk_macsec_capability ctx AND 3"
    "unat (mb_eapol_len b) = mka_eapol_len ctx"
    "mka_len_at (mka_tx_frame ctx) 18 = 28 + length (mka_ckn ctx)"
proof -
  let ?f = "mka_tx_frame ctx"
  note parts = tx_frame_parts [OF inv]
  have el: "unat (of_nat (mka_eapol_len ctx) :: u16) = mka_eapol_len ctx"
    using mka_eapol_len_bounds [OF inv] by (simp add: unat_of_nat)
  have bl: "unat (mka_param_body_len (?f ! 20) (?f ! 21)) = 28 + length (mka_ckn ctx)"
  proof -
    have "unat (mka_body_len ctx) = 28 + length (mka_ckn ctx)"
      using mka_inv_lengths(7) [OF inv] inv by (simp add: mka_body_len_def unat_word_ariths unat_ucast_u8)
    moreover have "length (mka_ckn ctx) \<le> 32" using mka_inv_lengths(7) [OF inv] inv by simp
    ultimately show ?thesis
      unfolding parts param_body_len_read [OF basic_flags_read(1)] by (subst unat_take_bit_12) simp_all
  qed
  have "length (mka_ckn ctx) \<le> 32" "28 + length (mka_ckn ctx) + 20 \<le> mka_eapol_len ctx"
    using mka_inv_lengths(7) [OF inv] inv by (simp_all add: mka_eapol_len_def)
  then show thesis
  proof (rule_tac parse_basic_accepts [of ?f out], goal_cases)
    case (8 b)
    from 8(4) show thesis
      by (rule that [OF 8(3)]) (use 8(4) bl parts el in \<open>simp_all add: mka_basic_ok_def mka_len_at_def basic_flags_read basic_flags_bits\<close>)
  qed (use parts el bl length_tx_frame [OF inv] in simp_all)
qed


text \<open>
  The scan of a built frame starts after the Basic Parameter Set, provided that the frame has the
  90 bytes below which the code does not look for parameter sets at all.
\<close>

lemma tx_frame_split:
  assumes inv: "mka_inv ctx"
  obtains pre icv where "mka_tx_frame ctx = pre @ mka_params ctx @ icv" "length pre = 50 + length (mka_ckn ctx)"
    "length icv = 16" "length (pre @ mka_params ctx) = 2 + mka_eapol_len ctx"
proof
  let ?pre = "mka_header ctx (of_nat (mka_eapol_len ctx)) @ mka_basic ctx (mk_local_mn ctx) (mka_body_len ctx)"
  let ?icv = "cmac_spec (mka_ick_cipher (mk_crypto ctx)) (mka_frame_body ctx)"
  show "mka_tx_frame ctx = ?pre @ mka_params ctx @ ?icv" by (simp add: mka_tx_frame_def mka_frame_body_def)
  show "length ?pre = 50 + length (mka_ckn ctx)"
    using mka_inv_lengths(1-3) [OF inv] by (simp add: mka_header_def mka_basic_def macsec_mka_dst_mac_def)
  show "length ?icv = 16" by (simp add: mka_ick_cipher_def length_cmac_spec)
  show "length (?pre @ mka_params ctx) = 2 + mka_eapol_len ctx"
    using length_frame_body [OF inv] by (simp add: mka_frame_body_def)
qed

lemma tx_frame_scan_end:
  assumes inv: "mka_inv ctx"
  shows "mka_scan_end (mka_tx_frame ctx) =
    (if mka_eapol_len ctx < 72 then Some (Inl MACSEC_ERR_NOT_READY) else Some (Inr (2 + mka_eapol_len ctx)))"
proof -
  have "unat (of_nat (mka_eapol_len ctx) :: u16) = mka_eapol_len ctx"
    using mka_eapol_len_bounds [OF inv] by (simp add: unat_of_nat)
  with length_tx_frame [OF inv] tx_frame_parts(4) [OF inv] mka_eapol_len_bounds [OF inv] show ?thesis
    by (simp add: mka_scan_end_def buf_simps Let_def)
qed

lemma tx_frame_scans:
  assumes inv: "mka_inv ctx" and long: "72 \<le> mka_eapol_len ctx"
  shows "macsec_mka_frame_contains_peer_entry (mka_tx_frame ctx) mi =
      mka_peer_scan (mka_tx_frame ctx) mi (50 + length (mka_ckn ctx)) (2 + mka_eapol_len ctx)"
    "mka_param_find (mka_tx_frame ctx) wanted =
      mka_param_scan (mka_tx_frame ctx) wanted (50 + length (mka_ckn ctx)) (2 + mka_eapol_len ctx)"
proof -
  have "mka_len_at (mka_tx_frame ctx) 18 = 28 + length (mka_ckn ctx)"
    by (rule tx_frame_parses [OF inv])
  moreover have "50 + length (mka_ckn ctx) \<le> 2 + mka_eapol_len ctx" "2 + mka_eapol_len ctx \<le> length (mka_tx_frame ctx)"
    using length_tx_frame [OF inv] inv by (simp_all add: mka_eapol_len_def)
  ultimately show "macsec_mka_frame_contains_peer_entry (mka_tx_frame ctx) mi =
      mka_peer_scan (mka_tx_frame ctx) mi (50 + length (mka_ckn ctx)) (2 + mka_eapol_len ctx)"
    "mka_param_find (mka_tx_frame ctx) wanted =
      mka_param_scan (mka_tx_frame ctx) wanted (50 + length (mka_ckn ctx)) (2 + mka_eapol_len ctx)"
    using tx_frame_scan_end [OF inv] long
    by (simp_all add: macsec_mka_frame_contains_peer_entry_def mka_param_find_def peer_scan_step param_scan_step)
qed

lemma tx_frame_lists_peer:
  assumes inv: "mka_inv ctx" and long: "72 \<le> mka_eapol_len ctx" and valid: "mp_valid (mk_peer ctx)"
  shows "macsec_mka_frame_contains_peer_entry (mka_tx_frame ctx) (mp_mi (mk_peer ctx)) =
    Some (True, mp_mn (mk_peer ctx), if mp_live (mk_peer ctx) then MACSEC_MKA_PARAM_LIVE_PEER_LIST
                                     else MACSEC_MKA_PARAM_POTENTIAL_PEER_LIST)"
proof -
  obtain pre icv where split: "mka_tx_frame ctx = pre @ mka_params ctx @ icv" "length pre = 50 + length (mka_ckn ctx)"
    "length icv = 16" "length (pre @ mka_params ctx) = 2 + mka_eapol_len ctx"
    by (rule tx_frame_split [OF inv])
  define type where "type = (if mp_live (mk_peer ctx) then MACSEC_MKA_PARAM_LIVE_PEER_LIST
                             else MACSEC_MKA_PARAM_POTENTIAL_PEER_LIST)"
  define entry where "entry = mka_param type 0 (mka_peer_entry (mk_peer ctx))"
  define more where "more = drop (length entry) (mka_params ctx)"
  have params: "mka_params ctx = entry @ more"
    using valid by (simp add: mka_params_def entry_def type_def more_def)
  have f: "mka_tx_frame ctx = pre @ mka_param type 0 (mka_peer_entry (mk_peer ctx)) @ more @ icv"
    using split(1) params by (simp add: entry_def)
  have "mka_peer_scan (mka_tx_frame ctx) (mp_mi (mk_peer ctx)) (length pre) (2 + mka_eapol_len ctx) =
      Some (True, mp_mn (mk_peer ctx), type)"
  proof (rule peer_scan_hit [OF f])
    show "length (pre @ mka_param type 0 (mka_peer_entry (mk_peer ctx))) \<le> 2 + mka_eapol_len ctx"
      using split(4) params by (simp add: entry_def)
    show "2 + mka_eapol_len ctx \<le> length (mka_tx_frame ctx)" using length_tx_frame [OF inv] by simp
  qed (use split(2) mka_inv_lengths(4) [OF inv] in \<open>simp_all add: type_def\<close>)
  then show ?thesis
    using tx_frame_scans(1) [OF inv long] split(2) by (simp add: type_def)
qed

lemma tx_frame_distributes:
  assumes inv: "mka_inv ctx" and dist: "mka_include_distributed_sak ctx"
  defines "sak \<equiv> mk_latest_sak ctx"
  obtains pos where "mka_param_find (mka_tx_frame ctx) MACSEC_MKA_PARAM_DISTRIBUTED_SAK =
      Some (Inr (pos, push_bit 6 (ms_an sak AND 3), ms_sak_len sak + 12))"
    "take (ms_sak_len sak + 12) (drop (pos + 4) (mka_tx_frame ctx)) = macsec_wr_be32 (ms_key_number sak) @
       kw_wrap_spec (mka_kek_cipher (mk_crypto ctx)) (take (ms_sak_len sak) (ms_sak sak))"
    "mka_param_find (mka_tx_frame ctx) MACSEC_MKA_PARAM_SAK_USE =
      Some (Inr (pos + ms_sak_len sak + 16, mka_sak_use_flags sak (mk_old_sak ctx), 40))"
    "take 40 (drop (pos + ms_sak_len sak + 20) (mka_tx_frame ctx)) = mka_sak_use_body ctx"
    "pos + ms_sak_len sak + 60 \<le> length (mka_tx_frame ctx)"
proof -
  obtain pre icv where split: "mka_tx_frame ctx = pre @ mka_params ctx @ icv" "length pre = 50 + length (mka_ckn ctx)"
    "length icv = 16" "length (pre @ mka_params ctx) = 2 + mka_eapol_len ctx"
    by (rule tx_frame_split [OF inv])
  note dl = length_distributed_param [OF inv dist]
  have valid: "mp_valid (mk_peer ctx)" using dist by (simp add: mka_include_distributed_sak_def)
  have long: "72 \<le> mka_eapol_len ctx"
    using length_params(1) [OF inv] dist valid dl(2) mka_inv_lengths(6) [OF inv] by (auto simp: mka_eapol_len_def)
  define type where "type = (if mp_live (mk_peer ctx) then MACSEC_MKA_PARAM_LIVE_PEER_LIST
                             else MACSEC_MKA_PARAM_POTENTIAL_PEER_LIST)"
  define entry where "entry = mka_param type 0 (mka_peer_entry (mk_peer ctx))"
  define body where "body = macsec_wr_be32 (ms_key_number sak) @
       kw_wrap_spec (mka_kek_cipher (mk_crypto ctx)) (take (ms_sak_len sak) (ms_sak sak))"
  define d where "d = mka_param MACSEC_MKA_PARAM_DISTRIBUTED_SAK (push_bit 6 (ms_an sak AND 3)) body"
  define more where "more = drop (length (entry @ d)) (mka_params ctx)"
  have dp: "mka_distributed_param ctx = d" by (simp add: mka_distributed_param_def Let_def d_def body_def sak_def)
  have lb: "length body = ms_sak_len sak + 12" using dl(1) dp by (simp add: d_def sak_def)
  have params: "mka_params ctx = entry @ d @ more"
    using valid dist by (simp add: mka_params_def dp entry_def type_def more_def)
  have "mka_include_sak_use ctx"
    using dist by (auto simp: mka_include_sak_use_def mka_include_distributed_sak_def mka_sak_distributable_def)
  then have more: "more = mka_param MACSEC_MKA_PARAM_SAK_USE (mka_sak_use_flags sak (mk_old_sak ctx)) (mka_sak_use_body ctx)"
    using valid dist by (simp add: more_def mka_params_def dp entry_def type_def sak_def)
  have lu: "length (mka_sak_use_body ctx) = 40" using mka_inv_lengths(3,4) [OF inv] by simp
  have f1: "mka_tx_frame ctx = pre @ mka_param type 0 (mka_peer_entry (mk_peer ctx)) @ d @ more @ icv"
    using split(1) params by (simp add: entry_def)
  have f2: "mka_tx_frame ctx = (pre @ entry) @ mka_param MACSEC_MKA_PARAM_DISTRIBUTED_SAK
      (push_bit 6 (ms_an sak AND 3)) body @ more @ icv"
    using f1 by (simp add: entry_def d_def)
  have f3: "mka_tx_frame ctx = (pre @ entry @ d) @ mka_param MACSEC_MKA_PARAM_SAK_USE
      (mka_sak_use_flags sak (mk_old_sak ctx)) (mka_sak_use_body ctx) @ icv"
    using f1 by (simp add: entry_def more)
  have type: "type \<noteq> MACSEC_MKA_PARAM_DISTRIBUTED_SAK" "type \<noteq> MACSEC_MKA_PARAM_SAK_USE"
      "MACSEC_MKA_PARAM_DISTRIBUTED_SAK \<noteq> MACSEC_MKA_PARAM_SAK_USE"
    by (simp_all add: type_def MACSEC_MKA_PARAM_LIVE_PEER_LIST_def MACSEC_MKA_PARAM_POTENTIAL_PEER_LIST_def
        MACSEC_MKA_PARAM_DISTRIBUTED_SAK_def MACSEC_MKA_PARAM_SAK_USE_def)
  have ends: "length (pre @ entry @ d) \<le> 2 + mka_eapol_len ctx" "2 + mka_eapol_len ctx \<le> length (mka_tx_frame ctx)"
    using split(4) params length_tx_frame [OF inv] by simp_all
  have le: "length (mka_peer_entry (mk_peer ctx)) = 16" using mka_inv_lengths(4) [OF inv] by simp
  have start: "mka_param_find (mka_tx_frame ctx) wanted =
      mka_param_scan (mka_tx_frame ctx) wanted (length (pre @ entry)) (2 + mka_eapol_len ctx)" if "type \<noteq> wanted" for wanted
  proof -
    have "mka_param_find (mka_tx_frame ctx) wanted =
        mka_param_scan (mka_tx_frame ctx) wanted (length pre) (2 + mka_eapol_len ctx)"
      using tx_frame_scans(2) [OF inv long] split(2) by simp
    also have "\<dots> = mka_param_scan (mka_tx_frame ctx) wanted (length (pre @ entry)) (2 + mka_eapol_len ctx)"
      unfolding entry_def
      by (rule param_scan_skip [OF f1]) (use that le split(2) ends in \<open>simp_all add: entry_def\<close>)
    finally show ?thesis .
  qed
  have "mka_param_find (mka_tx_frame ctx) MACSEC_MKA_PARAM_SAK_USE =
      mka_param_scan (mka_tx_frame ctx) MACSEC_MKA_PARAM_SAK_USE (length ((pre @ entry) @ d)) (2 + mka_eapol_len ctx)"
    unfolding start [OF type(2)] d_def
    by (rule param_scan_skip [OF f2]) (use type lb dl(2) split(2) ends in \<open>auto simp: d_def sak_def\<close>)
  also have "\<dots> = Some (Inr (length (pre @ entry @ d), mka_sak_use_flags sak (mk_old_sak ctx), length (mka_sak_use_body ctx)))"
    unfolding append_assoc
    by (rule param_scan_hit [OF f3]) (use lu split(2,4) params more length_tx_frame [OF inv] in simp_all)
  finally have use: "mka_param_find (mka_tx_frame ctx) MACSEC_MKA_PARAM_SAK_USE =
      Some (Inr (length (pre @ entry) + ms_sak_len sak + 16, mka_sak_use_flags sak (mk_old_sak ctx), 40))"
    using lb lu by (simp add: d_def add.assoc)
  have "length (pre @ entry @ d) = length (pre @ entry) + ms_sak_len sak + 16" using lb by (simp add: d_def)
  then have drop: "drop (length (pre @ entry) + ms_sak_len sak + 20) (mka_tx_frame ctx) = mka_sak_use_body ctx @ icv"
    by (subst f3) (simp add: mka_param_def)
  have total: "length (pre @ entry) + ms_sak_len sak + 60 \<le> length (mka_tx_frame ctx)"
    using lb lu by (subst f3) (simp add: d_def)
  have "mka_param_find (mka_tx_frame ctx) MACSEC_MKA_PARAM_DISTRIBUTED_SAK =
      mka_param_scan (mka_tx_frame ctx) MACSEC_MKA_PARAM_DISTRIBUTED_SAK (length (pre @ entry)) (2 + mka_eapol_len ctx)"
    by (rule start [OF type(1)])
  also have "\<dots> = Some (Inr (length (pre @ entry), push_bit 6 (ms_an sak AND 3), length body))"
    by (rule param_scan_hit [OF f2]) (use lb dl(2) split(2) ends in \<open>auto simp: d_def sak_def\<close>)
  finally have find: "mka_param_find (mka_tx_frame ctx) MACSEC_MKA_PARAM_DISTRIBUTED_SAK =
      Some (Inr (length (pre @ entry), push_bit 6 (ms_an sak AND 3), ms_sak_len sak + 12))" by (simp only: lb)
  have "take (length body) (drop (length (pre @ entry) + 4) (mka_tx_frame ctx)) = body"
    by (simp add: f2 mka_param_def)
  then have b: "take (ms_sak_len sak + 12) (drop (length (pre @ entry) + 4) (mka_tx_frame ctx)) = body"
    by (simp only: lb)
  have u: "take 40 (drop (length (pre @ entry) + ms_sak_len sak + 20) (mka_tx_frame ctx)) = mka_sak_use_body ctx"
    using lu unfolding drop by simp
  show thesis
    by (rule that [OF find b [unfolded body_def] use u total])
qed

subsection \<open>From one participant to another\<close>

text \<open>The test with which a participant discards its own frames.\<close>

definition mka_own_frame :: "macsec_mka_ctx \<Rightarrow> macsec_mka_basic \<Rightarrow> bool" where
  "mka_own_frame ctx b \<longleftrightarrow> macsec_compare (mb_src_mac b) (mk_local_mac ctx) 6 = 0 \<or>
     macsec_compare (mb_sci b) (mk_local_sci ctx) 8 = 0 \<or> macsec_compare (mb_actor_mi b) (mk_local_mi ctx) 12 = 0"

lemma authenticate_accepts:
  assumes inv: "mka_inv ctx" and mka: "macsec_mka_is_eapol_mka frame = Some True"
    and parse: "macsec_mka_parse_basic frame mka_basic_zero = Some (MACSEC_ERR_OK, b)" and b: "mka_basic_ok frame b"
    and own: "\<not> mka_own_frame ctx b" and auth: "mka_authentic (mk_crypto ctx) frame" and short: "unat (mb_eapol_len b) \<le> 510"
  obtains work c where "mka_input_authenticate ctx frame = Some (Inr b, mka_scratch ctx work c (mk_verify_icv ctx))"
    "mka_inv (mka_scratch ctx work c (mk_verify_icv ctx))"
proof (cases "mk_verify_icv ctx")
  case False
  have "mka_scratch ctx (mk_mic_work ctx) (mc_cmac_ctx (mk_crypto ctx)) False = ctx\<lparr>mk_last_icv_valid := False\<rparr>"
    by (simp add: mka_scratch_def)
  with False mka parse own inv show thesis
    by (intro that [of "mk_mic_work ctx" "mc_cmac_ctx (mk_crypto ctx)"])
       (simp_all add: mka_input_authenticate_def mka_own_frame_def mka_inv_bookkeeping)
next
  case True
  define n where "n = 2 + unat (mb_eapol_len b)"
  have icv: "mb_icv b = cmac_spec (mka_ick_cipher (mk_crypto ctx)) (take n frame)"
    using auth b unfolding mka_basic_ok_def by (auto simp: mka_authentic_def n_def Let_def)
  have inv': "mka_inv (ctx\<lparr>mk_last_icv_valid := False\<rparr>)" using inv by (rule mka_inv_bookkeeping)
  show thesis
  proof (cases rule: verify_icv_spec [OF inv' b, case_names long checked])
    case (checked c work)
    have "mka_inv (mka_scratch ctx work c True)" using inv checked(2,4) by (intro scratch_inv) simp_all
    with checked(3) [folded n_def] icv True mka parse own show thesis
      by (intro that [of work c]) (simp_all add: mka_input_authenticate_def mka_own_frame_def mka_scratch_def)
  qed (use short in simp)
qed

lemma tx_frame_authenticates:
  assumes a: "mka_inv a" and b: "mka_inv b" and keys: "mc_keys (mk_crypto b) = mc_keys (mk_crypto a)"
    and other: "mk_local_mac a \<noteq> mk_local_mac b" "mk_local_sci a \<noteq> mk_local_sci b" "mk_local_mi a \<noteq> mk_local_mi b"
  obtains basic work c where
    "mka_input_authenticate b (mka_tx_frame a) = Some (Inr basic, mka_scratch b work c (mk_verify_icv b))"
    "mka_inv (mka_scratch b work c (mk_verify_icv b))" "mka_basic_ok (mka_tx_frame a) basic"
    "mb_src_mac basic = mk_local_mac a" "mb_sci basic = mk_local_sci a" "mb_actor_mi basic = mk_local_mi a"
    "mb_actor_mn basic = mk_local_mn a" "mb_key_server_priority basic = mk_key_server_priority a"
    "mb_key_server basic = mk_local_key_server a" "mb_macsec_desired basic = mk_macsec_desired a"
    "mb_macsec_capability basic = mk_macsec_capability a AND 3"
proof (rule tx_frame_parses [OF a, of mka_basic_zero], goal_cases)
  case (1 basic)
  have own: "\<not> mka_own_frame b basic"
    using other 1(4-6) mka_inv_lengths(1-3) [OF a] mka_inv_lengths(1-3) [OF b]
    by (simp add: mka_own_frame_def macsec_compare_take)
  have "macsec_mka_is_eapol_mka (mka_tx_frame a) = Some True"
    using tx_frame_parts(2,3) [OF a] length_tx_frame [OF a] by (simp add: is_eapol_mka_spec)
  moreover have "mka_authentic (mk_crypto b) (mka_tx_frame a)"
  proof -
    have "unat (macsec_rd_be16 (take 2 (drop 16 (mka_tx_frame a)))) = mka_eapol_len a"
      using mka_eapol_len_bounds [OF a] tx_frame_parts(4) [OF a] by (simp add: unat_of_nat)
    with length_tx_frame [OF a] length_frame_body [OF a] show ?thesis
      by (simp add: mka_authentic_def mka_tx_frame_def mka_ick_cipher_def keys length_cmac_spec)
  qed
  ultimately show thesis
  proof (rule_tac authenticate_accepts [OF b _ 1(2,3) own], goal_cases)
    case (4 work c)
    show thesis by (rule that [OF 4(3,4)]) (rule 1)+
  qed (use 1 mka_eapol_len_bounds [OF a] in simp_all)
qed

end
