(* ===== verification/MkaMachine.thy ===== *)
theory MkaMachine
  imports MkaTxFacts
begin

text \<open>
  The MKA participant as a machine: an initial state for every successful \<open>macsec_mka_init\<close> and one
  step for every call of an operation, with arbitrary frames, metadata, times and random bytes.
  The locale \<open>safe_machine\<close> is the interface of an invariant; its interpretation on this machine
  gives the properties of all reachable contexts, and with them the properties of MKA.
\<close>

subsection \<open>Machines with an invariant\<close>

inductive machine_reach :: "('s \<Rightarrow> bool) \<Rightarrow> ('s \<Rightarrow> 's \<Rightarrow> bool) \<Rightarrow> 's \<Rightarrow> bool" for start step where
  reach_start: "start s \<Longrightarrow> machine_reach start step s"
| reach_step: "machine_reach start step s \<Longrightarrow> step s s' \<Longrightarrow> machine_reach start step s'"

locale safe_machine =
  fixes start :: "'s \<Rightarrow> bool" and step :: "'s \<Rightarrow> 's \<Rightarrow> bool" and inv :: "'s \<Rightarrow> bool"
  assumes inv_start: "start s \<Longrightarrow> inv s"
    and inv_step: "inv s \<Longrightarrow> step s s' \<Longrightarrow> inv s'"
begin

lemma reach_inv: "machine_reach start step s \<Longrightarrow> inv s"
  by (induction rule: machine_reach.induct) (auto intro: inv_start inv_step)

lemma inv_path: "step\<^sup>*\<^sup>* s s' \<Longrightarrow> inv s \<Longrightarrow> inv s'"
  by (induction rule: rtranclp_induct) (auto intro: inv_step)

lemma reach_path: "machine_reach start step s \<Longrightarrow> step\<^sup>*\<^sup>* s s' \<Longrightarrow> inv s'"
  by (rule inv_path [OF _ reach_inv])

end

subsection \<open>Initialization\<close>

lemma mka_init_spec:
  assumes mac: "length mac = 6" and rnd: "length (rnd 12) = 12"
    and cak: "length cak = 16 \<or> length cak = 32" and ckn: "0 < length ckn" "length ckn \<le> 32"
  obtains c where "macsec_mka_init rnd cak ckn mac port_id prio interval = (MACSEC_ERR_OK, mka_ctx_zero
      \<lparr>mk_local_mac := mac, mk_local_sci := mac @ macsec_wr_be16 port_id, mk_local_mi := rnd 12, mk_local_mn := 1,
       mk_key_server_priority := prio, mk_local_key_server := True, mk_macsec_desired := True,
       mk_macsec_capability := 2, mk_key_server_next_key_number := 1, mk_key_server_next_an := 0,
       mk_tx_interval_ms := (if interval \<noteq> 0 then interval else 2000), mk_crypto := c,
       mk_verify_icv := True, mk_state := MACSEC_MKA_STATE_WAIT_PEER,
       mk_pending_events := MACSEC_MKA_EVENT_TX_INITIAL, mk_tx_reasons := MACSEC_MKA_TX_REASON_INITIAL\<rparr>)"
    "mka_keys_ok c"
    "mc_keys c = mc_keys (snd (macsec_mka_crypto_derive_ick_kek (snd (macsec_mka_crypto_set_psk (snd macsec_mka_crypto_init) cak ckn))))"
    "take (unat (psk_ckn_len (mc_psk c))) (psk_ckn (mc_psk c)) = ckn"
proof -
  define p where "p = snd (macsec_mka_crypto_set_psk (snd macsec_mka_crypto_init) cak ckn)"
  have sp: "macsec_mka_crypto_set_psk (snd macsec_mka_crypto_init) cak ckn = (MACSEC_ERR_OK, p)"
    using cak ckn by (auto simp: p_def macsec_mka_crypto_set_psk_def macsec_mka_key_len_valid_def)
  have p: "mka_crypto_wf p" "psk_valid (mc_psk p)"
    using cak ckn mka_crypto_init_wf
    by (auto simp: p_def macsec_mka_crypto_set_psk_def macsec_mka_key_len_valid_def mka_crypto_wf_def
        mka_psk_zero_def mka_keys_zero_def word_less_nat_alt unat_of_nat)
  define c where "c = snd (macsec_mka_crypto_derive_ick_kek p)"
  have d: "macsec_mka_crypto_derive_ick_kek p = (MACSEC_ERR_OK, c)" "mka_keys_ok c"
    using derive_ick_kek_ready [OF p] p(2)
    by (auto simp: c_def mka_keys_ok_def macsec_mka_ick_ready_def prod_eq_iff)
  have "mc_psk c = mc_psk p" using derive_ick_kek_ready [OF p] by (simp add: c_def)
  moreover have "take (unat (psk_ckn_len (mc_psk p))) (psk_ckn (mc_psk p)) = ckn"
    using cak ckn by (auto simp: p_def macsec_mka_crypto_set_psk_def macsec_mka_key_len_valid_def unat_of_nat)
  ultimately have psk: "take (unat (psk_ckn_len (mc_psk c))) (psk_ckn (mc_psk c)) = ckn" by simp
  show thesis
  proof (rule that [OF _ d(2) _ psk])
    show "macsec_mka_init rnd cak ckn mac port_id prio interval = (MACSEC_ERR_OK, mka_ctx_zero
      \<lparr>mk_local_mac := mac, mk_local_sci := mac @ macsec_wr_be16 port_id, mk_local_mi := rnd 12, mk_local_mn := 1,
       mk_key_server_priority := prio, mk_local_key_server := True, mk_macsec_desired := True,
       mk_macsec_capability := 2, mk_key_server_next_key_number := 1, mk_key_server_next_an := 0,
       mk_tx_interval_ms := (if interval \<noteq> 0 then interval else 2000), mk_crypto := c,
       mk_verify_icv := True, mk_state := MACSEC_MKA_STATE_WAIT_PEER,
       mk_pending_events := MACSEC_MKA_EVENT_TX_INITIAL, mk_tx_reasons := MACSEC_MKA_TX_REASON_INITIAL\<rparr>)"
      using sp d(1) mac
      by (simp add: macsec_mka_init_def Let_def split_beta macsec_mka_crypto_init_def mka_step_simps macsec_mka_build_sci_def
          mka_ctx_zero_def mka_flags MACSEC_MKA_DEFAULT_CAPABILITY_def MACSEC_MKA_DEFAULT_TX_INTERVAL_MS_def)
  qed (simp add: c_def p_def)
qed

lemma mka_init_fails:
  assumes "macsec_mka_init rnd cak ckn mac port_id prio interval = (MACSEC_ERR_OK, ctx)"
  shows "(length cak = 16 \<or> length cak = 32) \<and> 0 < length ckn \<and> length ckn \<le> 32"
proof -
  have "fst (macsec_mka_crypto_set_psk (snd macsec_mka_crypto_init) cak ckn) = MACSEC_ERR_OK"
    using assms by (auto simp: macsec_mka_init_def Let_def macsec_mka_crypto_init_def split_beta split: if_splits)
  then show ?thesis
    by (auto simp: macsec_mka_crypto_set_psk_def macsec_mka_key_len_valid_def split: if_splits)
qed

lemma mka_init_inv:
  assumes init: "macsec_mka_init rnd cak ckn mac port_id prio interval = (MACSEC_ERR_OK, ctx)"
    and mac: "length mac = 6" and rnd: "length (rnd 12) = 12"
  shows "mka_inv ctx"
proof -
  from mka_init_fails [OF init] have "length cak = 16 \<or> length cak = 32" "0 < length ckn" "length ckn \<le> 32" by auto
  from mka_init_spec [where rnd = rnd, OF mac rnd this, of port_id prio interval] obtain c where
    e: "macsec_mka_init rnd cak ckn mac port_id prio interval = (MACSEC_ERR_OK, mka_ctx_zero
      \<lparr>mk_local_mac := mac, mk_local_sci := mac @ macsec_wr_be16 port_id, mk_local_mi := rnd 12, mk_local_mn := 1,
       mk_key_server_priority := prio, mk_local_key_server := True, mk_macsec_desired := True,
       mk_macsec_capability := 2, mk_key_server_next_key_number := 1, mk_key_server_next_an := 0,
       mk_tx_interval_ms := (if interval \<noteq> 0 then interval else 2000), mk_crypto := c,
       mk_verify_icv := True, mk_state := MACSEC_MKA_STATE_WAIT_PEER,
       mk_pending_events := MACSEC_MKA_EVENT_TX_INITIAL, mk_tx_reasons := MACSEC_MKA_TX_REASON_INITIAL\<rparr>)"
    "mka_keys_ok c" .
  have "mk_peer mka_ctx_zero = mka_peer_zero" "mk_mic_work mka_ctx_zero = replicate 512 0"
    "mk_latest_sak mka_ctx_zero = macsec_mka_sak_clear" "mk_old_sak mka_ctx_zero = macsec_mka_sak_clear"
    by (simp_all add: mka_ctx_zero_def)
  moreover have "\<not> mp_valid mka_peer_zero" "\<not> mp_live mka_peer_zero" "length (mp_mac mka_peer_zero) = 6"
    "length (mp_sci mka_peer_zero) = 8" "length (mp_mi mka_peer_zero) = 12"
    by (simp_all add: mka_peer_zero_def)
  ultimately show ?thesis
    using init e mac rnd by (auto simp: mka_inv_def mka_arrays_ok_def mka_state_ok_def mka_an_ok_def mka_flags)
qed

subsection \<open>Steps\<close>

text \<open>
  A call of any operation of \<open>mka.h\<close> that changes the context, between \<open>macsec_mka_init\<close> and
  \<open>macsec_mka_clear\<close>. The calls with a frame are steps whenever they have a result, so their
  totality is a property of its own.
\<close>

inductive mka_step :: "macsec_mka_ctx \<Rightarrow> macsec_mka_ctx \<Rightarrow> bool" where
  step_input: "length (rnd 16) = 16 \<Longrightarrow> macsec_mka_input rnd ctx frame now = Some (ret, ctx') \<Longrightarrow> mka_step ctx ctx'"
| step_tick: "macsec_mka_tick ctx now = (ret, ctx') \<Longrightarrow> mka_step ctx ctx'"
| step_build: "length (rnd 16) = 16 \<Longrightarrow> max_len \<le> length frame \<Longrightarrow>
    macsec_mka_build_tx_frame rnd ctx frame frame_len max_len meta = Some (ret, ctx', out) \<Longrightarrow> mka_step ctx ctx'"
| step_tx_success: "macsec_mka_notify_tx_success ctx meta now = (ret, ctx') \<Longrightarrow> mka_step ctx ctx'"
| step_tx_failure: "mka_step ctx (macsec_mka_notify_tx_failure ctx meta)"
| step_take_events: "macsec_mka_take_events ctx = (events, ctx') \<Longrightarrow> mka_step ctx ctx'"
| step_take_sak: "macsec_mka_take_sak_for_install ctx = (ret, sak, ctx') \<Longrightarrow> mka_step ctx ctx'"
| step_installed: "macsec_mka_notify_sak_installed ctx key_number an dirs lowest_pn = (ret, ctx') \<Longrightarrow> mka_step ctx ctx'"
| step_retired: "macsec_mka_notify_sak_retired ctx key_number an = (ret, ctx') \<Longrightarrow> mka_step ctx ctx'"
| step_rekey: "length (rnd 16) = 16 \<Longrightarrow> macsec_mka_start_rekey rnd ctx = (ret, ctx') \<Longrightarrow> mka_step ctx ctx'"

definition mka_start :: "macsec_mka_ctx \<Rightarrow> bool" where
  "mka_start ctx \<longleftrightarrow> (\<exists>rnd cak ckn mac port_id prio interval.
     length mac = 6 \<and> length (rnd 12) = 12 \<and>
     macsec_mka_init rnd cak ckn mac port_id prio interval = (MACSEC_ERR_OK, ctx))"

lemma build_tx_frame_inv:
  assumes inv: "mka_inv ctx" and rnd: "length (rnd 16) = 16" and room: "max_len \<le> length frame"
    and build: "macsec_mka_build_tx_frame rnd ctx frame frame_len max_len meta = Some (ret, ctx', out)"
  shows "mka_inv ctx'"
  using tx_prepare_inv [where rnd = rnd, OF inv rnd]
  by (rule_tac build_tx_frame_spec [where rnd = rnd, OF inv rnd room, of frame_len meta]) (use build inv in auto)

lemma mka_step_inv:
  assumes "mka_inv ctx" "mka_step ctx ctx'" shows "mka_inv ctx'"
  using assms(2)
proof cases
  case (step_input rnd frame now ret)
  with input_total [where rnd = rnd and frame = frame and now = now, OF assms(1) step_input(1)] show ?thesis by auto
next
  case (step_build rnd max_len frame frame_len meta ret out)
  then show ?thesis by (rule build_tx_frame_inv [OF assms(1)])
next
  case (step_tick now ret)
  then show ?thesis using tick_inv [OF assms(1), of now] by simp
next
  case (step_tx_success meta now ret)
  then show ?thesis using notify_tx_success_inv [OF assms(1), of meta now] by simp
next
  case step_tx_failure
  then show ?thesis using notify_tx_failure_inv [OF assms(1)] by simp
next
  case step_take_events
  then show ?thesis using take_events_inv [OF assms(1)] by simp
next
  case step_take_sak
  then show ?thesis using take_sak_for_install_inv [OF assms(1)] by simp
next
  case (step_installed key_number an dirs lowest_pn ret)
  then show ?thesis using notify_sak_installed_inv [OF assms(1), of key_number an dirs lowest_pn] by simp
next
  case (step_retired key_number an ret)
  then show ?thesis using notify_sak_retired_inv [OF assms(1), of key_number an] by simp
next
  case (step_rekey rnd ret)
  then show ?thesis using start_rekey_inv [where rnd = rnd, OF assms(1)] by simp
qed

interpretation mka: safe_machine mka_start mka_step mka_inv
proof
  show "mka_inv ctx" if "mka_start ctx" for ctx
    using that mka_init_inv by (auto simp: mka_start_def)
  show "mka_inv ctx'" if "mka_inv ctx" "mka_step ctx ctx'" for ctx ctx'
    using that by (rule mka_step_inv)
qed

abbreviation mka_reachable :: "macsec_mka_ctx \<Rightarrow> bool" where
  "mka_reachable \<equiv> machine_reach mka_start mka_step"

subsection \<open>A concrete participant\<close>

definition sample_mka :: "nat \<Rightarrow> macsec_mka_ctx" where
  "sample_mka i = snd (macsec_mka_init (\<lambda>n. replicate n (of_nat i)) (replicate 16 1) [2, 3, 4, 5]
     (replicate 6 (of_nat i)) 1 (of_nat i) 0)"

lemma sample_mka_spec:
  obtains c where "sample_mka i = mka_ctx_zero
      \<lparr>mk_local_mac := replicate 6 (of_nat i), mk_local_sci := replicate 6 (of_nat i) @ [0, 1],
       mk_local_mi := replicate 12 (of_nat i), mk_local_mn := 1,
       mk_key_server_priority := of_nat i, mk_local_key_server := True, mk_macsec_desired := True,
       mk_macsec_capability := 2, mk_key_server_next_key_number := 1, mk_key_server_next_an := 0,
       mk_tx_interval_ms := 2000, mk_crypto := c,
       mk_verify_icv := True, mk_state := MACSEC_MKA_STATE_WAIT_PEER,
       mk_pending_events := MACSEC_MKA_EVENT_TX_INITIAL, mk_tx_reasons := MACSEC_MKA_TX_REASON_INITIAL\<rparr>"
    "macsec_mka_init (\<lambda>n. replicate n (of_nat i)) (replicate 16 1) [2, 3, 4, 5] (replicate 6 (of_nat i)) 1 (of_nat i) 0 =
      (MACSEC_ERR_OK, sample_mka i)"
    "mc_keys c = mc_keys (snd (macsec_mka_crypto_derive_ick_kek
       (snd (macsec_mka_crypto_set_psk (snd macsec_mka_crypto_init) (replicate 16 1) [2, 3, 4, 5]))))"
    "take (unat (psk_ckn_len (mc_psk c))) (psk_ckn (mc_psk c)) = [2, 3, 4, 5]"
proof (rule mka_init_spec [where rnd = "\<lambda>n. replicate n (of_nat i)" and mac = "replicate 6 (of_nat i)"
        and cak = "replicate 16 1" and ckn = "[2, 3, 4, 5]" and port_id = 1 and prio = "of_nat i" and interval = 0], goal_cases)
  case (6 c)
  define d where "d = snd (macsec_mka_crypto_set_psk (snd macsec_mka_crypto_init) (replicate 16 1) [2, 3, 4, 5])"
  have "macsec_wr_be16 1 = [0, 1]" by (simp add: macsec_wr_be16_def)
  then show thesis
    using 6 by (intro that [of c]) (simp_all add: sample_mka_def)
qed simp_all

lemma sample_mka_fields:
  "mk_peer (sample_mka i) = mka_peer_zero" "mk_latest_sak (sample_mka i) = macsec_mka_sak_clear"
  "mk_old_sak (sample_mka i) = macsec_mka_sak_clear" "mk_local_key_server (sample_mka i)"
  "mk_key_server_priority (sample_mka i) = of_nat i" "mk_local_mac (sample_mka i) = replicate 6 (of_nat i)"
  "mk_local_sci (sample_mka i) = replicate 6 (of_nat i) @ [0, 1]" "mk_local_mi (sample_mka i) = replicate 12 (of_nat i)"
  "mk_tx_reasons (sample_mka i) = MACSEC_MKA_TX_REASON_INITIAL" "mk_tx_interval_ms (sample_mka i) = 2000"
  "mk_state (sample_mka i) = MACSEC_MKA_STATE_WAIT_PEER" "mk_last_tx_ms (sample_mka i) = 0"
  "mk_local_mn (sample_mka i) = 1"
  by (rule sample_mka_spec [of i], simp add: mka_ctx_zero_def)+

lemma sample_mka_keys: "mc_keys (mk_crypto (sample_mka i)) = mc_keys (mk_crypto (sample_mka j))"
  by (rule sample_mka_spec [of i], rule sample_mka_spec [of j]) simp

lemma sample_mka_reachable: "mka_reachable (sample_mka i)"
proof (rule reach_start)
  have "length (replicate 6 (of_nat i :: u8)) = 6" "length ((\<lambda>n. replicate n (of_nat i :: u8)) 12) = 12" by simp_all
  moreover have "macsec_mka_init (\<lambda>n. replicate n (of_nat i)) (replicate 16 1) [2, 3, 4, 5] (replicate 6 (of_nat i)) 1
      (of_nat i) 0 = (MACSEC_ERR_OK, sample_mka i)" by (rule sample_mka_spec)
  ultimately show "mka_start (sample_mka i)" unfolding mka_start_def by metis
qed

lemma sample_mka_inv: "mka_inv (sample_mka i)"
  by (rule mka.reach_inv [OF sample_mka_reachable])

subsection \<open>Properties\<close>

text \<open>
  C9. In every reachable context of an MKA participant, whatever frames arrived and
  whatever was reported to it: the participant is never in its error state and the error event is
  never pending, so no operation ever asks for a transition its tables forbid; the state says
  whether there is a peer and whether it is live; a SAK is ACTIVE or CONFIRMED only when it is
  installed in both directions and CONFIRMED only when the peer reported both; a SAK that exists has
  a length of 16 or 32, an association number below 4 and a key number; and the counters never reach
  the reserved value 0.
\<close>

theorem mka_lifecycle_safe:
  assumes "mka_reachable ctx"
  defines "latest \<equiv> mk_latest_sak ctx"
  shows "mk_state ctx \<noteq> MACSEC_MKA_STATE_ERROR \<and> mk_pending_events ctx AND MACSEC_MKA_EVENT_ERROR = 0 \<and>
    (mp_valid (mk_peer ctx) \<longleftrightarrow> mk_state ctx \<noteq> MACSEC_MKA_STATE_WAIT_PEER) \<and>
    (mp_live (mk_peer ctx) \<longleftrightarrow> mk_state ctx \<in> {MACSEC_MKA_STATE_PEER_LIVE, MACSEC_MKA_STATE_OPERATIONAL}) \<and>
    (ms_lifecycle_state latest \<in> {MACSEC_MKA_SAK_STATE_ACTIVE, MACSEC_MKA_SAK_STATE_CONFIRMED} \<longrightarrow>
       ms_rx_installed latest \<and> ms_tx_installed latest) \<and>
    (ms_lifecycle_state latest = MACSEC_MKA_SAK_STATE_CONFIRMED \<longrightarrow>
       ms_peer_rx_confirmed latest \<and> ms_peer_tx_confirmed latest) \<and>
    (ms_lifecycle_state latest \<noteq> MACSEC_MKA_SAK_STATE_NONE \<longrightarrow>
       ms_sak_len latest \<in> {16, 32} \<and> ms_an latest < 4 \<and> ms_key_number latest \<noteq> 0) \<and>
    mk_local_mn ctx \<noteq> 0 \<and> mk_key_server_next_key_number ctx \<noteq> 0"
proof -
  have inv: "mka_inv ctx" by (rule mka.reach_inv [OF assms(1)])
  then have "mka_state_ok (mk_state ctx) (mk_peer ctx)" "mka_latest_ok latest"
    "\<not> bit (mk_pending_events ctx) 31" "mk_local_mn ctx \<noteq> 0" "mk_key_server_next_key_number ctx \<noteq> 0"
    by (simp_all add: mka_inv_def latest_def)
  moreover from this(3) have "mk_pending_events ctx AND MACSEC_MKA_EVENT_ERROR = 0"
    using and_exp_eq_0_iff_not_bit [of "mk_pending_events ctx" 31] by (simp add: MACSEC_MKA_EVENT_ERROR_def)
  ultimately show ?thesis
    by (cases "mk_state ctx"; cases "ms_lifecycle_state latest")
       (auto simp: mka_state_ok_def mka_latest_ok_def mka_sak_ok_def)
qed

theorem mka_lifecycle_safe_witness:
  "mk_state (sample_mka 3) \<noteq> MACSEC_MKA_STATE_ERROR \<and>
   mk_pending_events (sample_mka 3) AND MACSEC_MKA_EVENT_ERROR = 0 \<and> mk_local_mn (sample_mka 3) \<noteq> 0"
  using mka_lifecycle_safe [OF sample_mka_reachable [of 3]] by blast

text \<open>
  C19. \<open>macsec_mka_input\<close> handles every byte sequence of every length: on a reachable
  context it never reads outside the frame or writes outside its work buffer, its three scanning
  loops end, and the context it leaves is reachable.
\<close>

theorem mka_input_total:
  assumes "mka_reachable ctx" "length (rnd 16) = 16"
  shows "\<exists>ret ctx'. macsec_mka_input rnd ctx frame now = Some (ret, ctx') \<and> mka_reachable ctx'"
proof (rule input_total [where rnd = rnd and frame = frame and now = now, OF mka.reach_inv [OF assms(1)] assms(2)])
  fix ret c assume r: "macsec_mka_input rnd ctx frame now = Some (ret, c)"
  then have "mka_step ctx c" by (rule step_input [where rnd = rnd, OF assms(2)])
  with r assms(1) show ?thesis by (auto intro: reach_step)
qed

theorem mka_input_total_witness:
  "\<exists>ret ctx'. macsec_mka_input (\<lambda>n. replicate n 5) (sample_mka 3) (replicate 70 255) 9 = Some (ret, ctx') \<and>
     mka_reachable ctx'"
  by (rule mka_input_total [OF sample_mka_reachable]) simp

text \<open>
  C20. A frame whose ICV is not the AES-CMAC of its bytes under the ICK
  changes nothing but the scratch buffers of the check: the peer and its liveness, the Key Server
  election, both SAKs, the counters, the pending events and the scheduled transmissions stay.
\<close>

theorem mka_unauthenticated_harmless:
  assumes "mka_reachable ctx" "\<not> mka_authentic (mk_crypto ctx) frame"
  shows "\<exists>ret work c valid. macsec_mka_input rnd ctx frame now = Some (ret, ctx
     \<lparr>mk_mic_work := work, mk_crypto := (mk_crypto ctx)\<lparr>mc_cmac_ctx := c\<rparr>, mk_last_icv_valid := valid\<rparr>)"
proof -
  have inv: "mka_inv ctx" by (rule mka.reach_inv [OF assms(1)])
  then have "mk_verify_icv ctx" by (simp add: mka_inv_def)
  from input_unauthenticated [OF inv this assms(2), of rnd now] show ?thesis
    unfolding mka_scratch_def by metis
qed

theorem mka_unauthenticated_harmless_witness:
  "\<exists>ret work c valid. macsec_mka_input (\<lambda>n. replicate n 5) (sample_mka 3) (replicate 17 1) 9 = Some (ret, (sample_mka 3)
     \<lparr>mk_mic_work := work, mk_crypto := (mk_crypto (sample_mka 3))\<lparr>mc_cmac_ctx := c\<rparr>, mk_last_icv_valid := valid\<rparr>)"
  by (rule mka_unauthenticated_harmless [OF sample_mka_reachable])
     (simp add: mka_authentic_def)

end
