(* ===== verification/MkaExchange.thy ===== *)
theory MkaExchange
  imports MkaMachine
begin

text \<open>
  Two participants that share a CAK: what one builds the other authenticates and reads
  (\<open>mkpdu_exchange\<close>), a SAK distributed by the Key Server arrives at the other side unchanged
  (\<open>sak_distribution\<close>), and the limits of the exchange that the code has.
\<close>

subsection \<open>Accepting a SAK\<close>

lemma parse_distributed_sak_accepts:
  assumes inv: "mka_inv ctx" and none: "ms_lifecycle_state (mk_latest_sak ctx) = MACSEC_MKA_SAK_STATE_NONE"
    and found: "mka_param_find frame MACSEC_MKA_PARAM_DISTRIBUTED_SAK = Some (Inr (pos, flags, length key + 12))"
    and body: "take (length key + 12) (drop (pos + 4) frame) =
      macsec_wr_be32 kn @ kw_wrap_spec (mka_kek_cipher (mk_crypto ctx)) key"
    and key: "length key = 16 \<or> length key = 32" and kn: "kn \<noteq> 0" and room: "pos + length key + 16 \<le> length frame"
  obtains aes where "macsec_mka_parse_distributed_sak ctx frame = Some (MACSEC_ERR_OK,
      macsec_mka_raise_events (ctx\<lparr>mk_crypto := (mk_crypto ctx)\<lparr>mc_aes_ctx := aes, mc_aes_initialized := True\<rparr>,
        mk_latest_sak := mka_received_sak kn (drop_bit 6 flags AND 3) key\<rparr>) MACSEC_MKA_EVENT_SAK_AVAILABLE)"
proof -
  let ?c = "mk_crypto ctx"
  define w where "w = kw_wrap_spec (mka_kek_cipher ?c) key"
  have wf: "mka_crypto_wf ?c" "macsec_mka_kek_ready ?c" using mka_inv_lengths(9,11) [OF inv] .
  have "length key mod 8 = 0" using key by auto
  note kw = block_cipher.key_unwrap_wrap [OF kek_ready_cipher [OF wf] this, folded w_def]
  have parts: "take 4 (drop (pos + 4) frame) = macsec_wr_be32 kn" "take (length key + 8) (drop (pos + 8) frame) = w"
  proof -
    have "take 4 (take (length key + 12) (drop (pos + 4) frame)) = macsec_wr_be32 kn"
      unfolding body by simp
    then show "take 4 (drop (pos + 4) frame) = macsec_wr_be32 kn" by (simp add: min_def)
    have "drop 4 (take (length key + 12) (drop (pos + 4) frame)) = w" unfolding body by (simp add: w_def)
    then show "take (length key + 8) (drop (pos + 8) frame) = w" by (simp add: drop_take add.commute)
  qed
  have len: "length w = 24 \<or> length w = 40" "length w - 8 \<le> length (replicate 32 (0 :: u8))"
    using kw(2) key by auto
  show thesis
  proof (rule unwrap_sak_spec [OF wf len, of 0], goal_cases)
    case (1 aes)
    define d where "d = ctx\<lparr>mk_crypto := ?c\<lparr>mc_aes_ctx := aes, mc_aes_initialized := True\<rparr>\<rparr>"
    have parse: "macsec_mka_parse_distributed_sak ctx frame =
        Some (mka_accept_distributed_sak d kn (drop_bit 6 flags AND 3) (key @ replicate (32 - length key) 0) (length key))"
      using 1(1) kw key kn parts room found
      by (auto simp: macsec_mka_parse_distributed_sak_def buf_simps Let_def d_def)
    have none': "ms_lifecycle_state (mk_latest_sak d) = MACSEC_MKA_SAK_STATE_NONE" using none by (simp add: d_def)
    have "macsec_mka_sak_clear
       \<lparr>ms_sak := arr_put (ms_sak macsec_mka_sak_clear) key, ms_sak_len := length key,
        ms_an := drop_bit 6 flags AND 3, ms_key_number := kn,
        ms_origin := MACSEC_MKA_SAK_ORIGIN_REMOTE_KEY_SERVER, ms_lowest_pn := 1,
        ms_rx_installed := False, ms_tx_installed := False,
        ms_peer_rx_confirmed := False, ms_peer_tx_confirmed := False,
        ms_lifecycle_state := MACSEC_MKA_SAK_STATE_CANDIDATE\<rparr> = mka_received_sak kn (drop_bit 6 flags AND 3) key"
      using key by (auto simp: macsec_mka_sak_clear_def mka_received_sak_def arr_put_def)
    then have "mka_accept_distributed_sak d kn (drop_bit 6 flags AND 3) (key @ replicate (32 - length key) 0) (length key) =
        (MACSEC_ERR_OK, macsec_mka_raise_events (d\<lparr>mk_latest_sak := mka_received_sak kn (drop_bit 6 flags AND 3) key\<rparr>)
           MACSEC_MKA_EVENT_SAK_AVAILABLE)"
      using none' by (simp add: mka_accept_distributed_sak_def Let_def set_sak_state_update)
    with parse show thesis by (intro that [of aes]) (simp add: d_def)
  qed
qed

lemma election_lost:
  assumes "mp_valid (mk_peer ctx)" "mp_key_server_priority (mk_peer ctx) \<le> mk_key_server_priority ctx"
  shows "\<not> macsec_mka_local_wins_key_server ctx"
  using assms macsec_compare_nonneg [of "mk_local_sci ctx" "mp_sci (mk_peer ctx)" 8]
  by (auto simp: macsec_mka_local_wins_key_server_def)

text \<open>The fields of the peer that an authenticated frame sets.\<close>

lemma input_peer_fields:
  fixes ctx :: macsec_mka_ctx and b :: macsec_mka_basic and changed live seen :: bool and now :: u32
  defines "ctx' \<equiv> mka_input_peer ctx b changed live seen now"
  shows "mp_valid (mk_peer ctx')" "mp_mi (mk_peer ctx') = mb_actor_mi b" "mp_mn (mk_peer ctx') = mb_actor_mn b"
    "mp_mac (mk_peer ctx') = mb_src_mac b" "mp_sci (mk_peer ctx') = mb_sci b"
    "mp_key_server_priority (mk_peer ctx') = mb_key_server_priority b" "mp_last_seen_ms (mk_peer ctx') = now"
    "mp_live (mk_peer ctx') \<longleftrightarrow> seen \<or> (\<not> changed \<and> live)"
    "mk_latest_sak ctx' = mk_latest_sak ctx" "mk_old_sak ctx' = mk_old_sak ctx" "mk_local_mi ctx' = mk_local_mi ctx"
    "mk_key_server_priority ctx' = mk_key_server_priority ctx" "mk_crypto ctx' = mk_crypto ctx"
  by (auto simp: ctx'_def mka_input_peer_def Let_def macsec_mka_set_state_def macsec_mka_raise_events_def)

lemma flags_or_0: "(x OR y) AND e = 0 \<Longrightarrow> x AND e = 0" "(x OR y) AND e = 0 \<Longrightarrow> y AND e = 0" for x y :: u32
  by (metis and.commute bit.conj_disj_distrib or_eq_0_iff)+

lemma input_events_fields:
  fixes ctx :: macsec_mka_ctx and a b c d :: bool
  defines "ctx' \<equiv> mka_input_events ctx a b c d"
  shows "mk_peer ctx' = mk_peer ctx" "mk_latest_sak ctx' = mk_latest_sak ctx" "mk_old_sak ctx' = mk_old_sak ctx"
    "mk_local_key_server ctx' = mk_local_key_server ctx" "mk_state ctx' = mk_state ctx" "mk_local_mi ctx' = mk_local_mi ctx"
    "mk_pending_events ctx' AND e = 0 \<Longrightarrow> mk_pending_events ctx AND e = 0"
proof -
  show "mk_peer ctx' = mk_peer ctx" "mk_latest_sak ctx' = mk_latest_sak ctx" "mk_old_sak ctx' = mk_old_sak ctx"
    "mk_local_key_server ctx' = mk_local_key_server ctx" "mk_state ctx' = mk_state ctx" "mk_local_mi ctx' = mk_local_mi ctx"
    by (simp_all add: ctx'_def mka_input_events_def Let_def mka_step_simps)
  show "mk_pending_events ctx' AND e = 0 \<Longrightarrow> mk_pending_events ctx AND e = 0"
    by (auto simp: ctx'_def mka_input_events_def Let_def mka_step_simps dest!: flags_or_0(1) split: if_splits)
qed

text \<open>An authenticated frame, with the results of the steps of \<open>macsec_mka_input\<close> put together.\<close>

lemma input_passed:
  fixes b :: macsec_mka_basic and c0 c2 :: macsec_mka_ctx and now :: u32 and seen :: bool
  defines "c1 \<equiv> c0\<lparr>mk_last_basic := b, mk_last_rx_ms := now\<rparr>"
  defines "changed \<equiv> \<not> mp_valid (mk_peer c1) \<or>
      macsec_compare (mp_mi (mk_peer c1)) (mb_actor_mi b) 12 \<noteq> 0 \<or>
      macsec_compare (mp_sci (mk_peer c1)) (mb_sci b) 8 \<noteq> 0 \<or>
      macsec_compare (mp_mac (mk_peer c1)) (mb_src_mac b) 6 \<noteq> 0"
  defines "c3 \<equiv> mka_input_peer c2 b changed (mp_live (mk_peer c1)) seen now"
  defines "c4 \<equiv> c3\<lparr>mk_local_key_server := macsec_mka_local_wins_key_server c3\<rparr>"
  assumes auth: "mka_input_authenticate ctx frame = Some (Inr b, c0)"
    and d: "macsec_mka_parse_distributed_sak c1 frame = Some (r2, c2)" "r2 \<in> {MACSEC_ERR_OK, MACSEC_ERR_NOT_READY}"
    and seen: "macsec_mka_frame_contains_peer_entry frame (mk_local_mi c2) = Some (seen, mn, type)"
    and r: "(if changed \<and> mk_local_key_server c4 \<and> ms_lifecycle_state (mk_latest_sak c4) \<noteq> MACSEC_MKA_SAK_STATE_NONE
             then macsec_mka_start_rekey rnd c4 else (MACSEC_ERR_OK, c4)) = (r5, c5)" "r5 \<in> {MACSEC_ERR_OK, MACSEC_ERR_BUSY}"
    and u: "macsec_mka_parse_sak_use c5 frame = Some (r6, c6)" "r6 \<in> {MACSEC_ERR_OK, MACSEC_ERR_NOT_READY}"
  shows "macsec_mka_input rnd ctx frame now = Some (MACSEC_ERR_OK, mka_input_events c6 changed
     (\<not> mp_live (mk_peer c1) \<and> mp_live (mk_peer c3)) (\<not> changed \<and> mp_live (mk_peer c1) \<and> \<not> mp_live (mk_peer c3))
     (mk_local_key_server c1 \<noteq> mk_local_key_server c4))"
  using d(2) r(2) u(2)
  unfolding macsec_mka_input_def Let_def auth bind.bind_lunit prod.case sum.case c1_def [symmetric]
    changed_def [symmetric] d(1) seen c3_def [symmetric] c4_def [symmetric] r(1) u(1)
  by auto

lemma an_field: "(an :: u8) < 4 \<Longrightarrow> drop_bit 6 (push_bit 6 (an AND 3)) AND 3 = an"
proof -
  assume "an < 4"
  then have "an AND 3 = an" by (rule an_id)
  moreover have "drop_bit 6 (push_bit 6 (an AND 3)) AND 3 = an AND 3"
    unfolding and_masks by (rule bit_word_eqI) (auto simp: bit_simps)
  ultimately show ?thesis by simp
qed

lemma sak_use_candidate:
  assumes "ms_lifecycle_state (mk_latest_sak ctx) = MACSEC_MKA_SAK_STATE_CANDIDATE"
    and "mka_param_find frame MACSEC_MKA_PARAM_SAK_USE = Some (Inr (pos, flags, 40))" "pos + 44 \<le> length frame"
  shows "macsec_mka_parse_sak_use ctx frame = Some (MACSEC_ERR_NOT_READY, ctx)"
  using assms by (simp add: macsec_mka_parse_sak_use_def buf_simps Let_def)

lemma input_peer_pending:
  "mk_pending_events (mka_input_peer ctx b changed live seen now) AND e = 0 \<Longrightarrow> mk_pending_events ctx AND e = 0"
  by (auto simp: mka_input_peer_def Let_def macsec_mka_set_state_def raise_events_update
      dest: flags_or_0 split: if_splits)

text \<open>What a participant keeps for its whole life.\<close>

definition mka_identity ::
  "macsec_mka_ctx \<Rightarrow> bytes \<times> bytes \<times> bytes \<times> u8 \<times> macsec_mka_keys \<times> macsec_mka_psk \<times> u32" where
  "mka_identity ctx = (mk_local_mac ctx, mk_local_sci ctx, mk_local_mi ctx, mk_key_server_priority ctx,
     mc_keys (mk_crypto ctx), mc_psk (mk_crypto ctx), mk_tx_interval_ms ctx)"

lemma election_valid_peer:
  "mp_valid (mk_peer ctx) \<Longrightarrow> macsec_mka_local_wins_key_server ctx \<longleftrightarrow>
     mk_key_server_priority ctx < mp_key_server_priority (mk_peer ctx)"
  using macsec_compare_nonneg [of "mk_local_sci ctx" "mp_sci (mk_peer ctx)" 8]
  by (auto simp: macsec_mka_local_wins_key_server_def)

lemma input_peer_identity:
  "mka_identity (mka_input_peer ctx b changed live seen now) = mka_identity ctx"
  "mk_tx_reasons (mka_input_peer ctx b changed live seen now) = mk_tx_reasons ctx"
  by (simp_all add: mka_identity_def mka_input_peer_def Let_def macsec_mka_set_state_def macsec_mka_raise_events_def)

text \<open>The reasons of a transmission that \<open>macsec_mka_notify_tx_success\<close> knows.\<close>

definition mka_reasons_ok :: "u32 \<Rightarrow> bool" where
  "mka_reasons_ok r \<longleftrightarrow> r AND NOT 0x7F = 0"

lemma reasons_ok_or: "mka_reasons_ok (x OR y) \<longleftrightarrow> mka_reasons_ok x \<and> mka_reasons_ok y"
  by (simp add: mka_reasons_ok_def bit.conj_disj_distrib2 or_eq_0_iff)

lemma input_events_reasons:
  "mk_tx_reasons ctx' = mk_tx_reasons ctx OR
     (if a \<or> b \<or> c then MACSEC_MKA_TX_REASON_PEER_CHANGE else 0) OR (if d then MACSEC_MKA_TX_REASON_KEY_SERVER_CHANGE else 0)"
  "mka_identity ctx' = mka_identity ctx"
  if "ctx' = mka_input_events ctx a b c d"
  unfolding that
  by (auto simp: mka_input_events_def Let_def mka_step_simps or.assoc mka_identity_def or.left_commute)

text \<open>
  A frame of participant \<open>d\<close> at participant \<open>b\<close>, given what the two parsers of SAK parameter sets make
  of it: the peer, the liveness, the election and the scheduled reply that follow.
\<close>

lemma input_core:
  assumes d: "mka_inv d" and b: "mka_inv b" and keys: "mc_keys (mk_crypto b) = mc_keys (mk_crypto d)"
    and other: "mk_local_mac d \<noteq> mk_local_mac b" "mk_local_sci d \<noteq> mk_local_sci b" "mk_local_mi d \<noteq> mk_local_mi b"
    and dist: "\<And>c1. mka_inv c1 \<Longrightarrow> mk_latest_sak c1 = mk_latest_sak b \<Longrightarrow> mc_keys (mk_crypto c1) = mc_keys (mk_crypto d) \<Longrightarrow>
      \<exists>ret aes i. ret \<in> {MACSEC_ERR_OK, MACSEC_ERR_NOT_READY} \<and>
        macsec_mka_parse_distributed_sak c1 (mka_tx_frame d) = Some (ret,
          macsec_mka_raise_events (c1\<lparr>mk_crypto := (mk_crypto c1)\<lparr>mc_aes_ctx := aes, mc_aes_initialized := i\<rparr>,
            mk_latest_sak := sak\<rparr>) ev)"
    and seen: "macsec_mka_frame_contains_peer_entry (mka_tx_frame d) (mk_local_mi b) = Some (seen, mn, type)"
    and use: "\<And>c. mk_latest_sak c = sak \<Longrightarrow> macsec_mka_parse_sak_use c (mka_tx_frame d) = Some (MACSEC_ERR_NOT_READY, c)"
    and keep: "mk_key_server_priority b < mk_key_server_priority d \<Longrightarrow> ms_lifecycle_state sak = MACSEC_MKA_SAK_STATE_NONE"
  obtains b' where "\<And>rnd. macsec_mka_input rnd b (mka_tx_frame d) now = Some (MACSEC_ERR_OK, b')" "mka_inv b'"
    "mk_latest_sak b' = sak" "mk_old_sak b' = mk_old_sak b" "mka_identity b' = mka_identity b"
    "mp_valid (mk_peer b')" "mp_mi (mk_peer b') = mk_local_mi d" "mp_sci (mk_peer b') = mk_local_sci d"
    "mp_mac (mk_peer b') = mk_local_mac d" "mp_last_seen_ms (mk_peer b') = now" "mp_mn (mk_peer b') = mk_local_mn d"
    "mp_key_server_priority (mk_peer b') = mk_key_server_priority d"
    "seen \<Longrightarrow> mp_live (mk_peer b')" "\<not> mp_live (mk_peer b) \<Longrightarrow> mp_live (mk_peer b') = seen"
    "mk_local_key_server b' \<longleftrightarrow> mk_key_server_priority b < mk_key_server_priority d"
    "\<And>e. mk_pending_events b' AND e = 0 \<Longrightarrow> (mk_pending_events b OR ev) AND e = 0"
    "mka_reasons_ok (mk_tx_reasons b) \<Longrightarrow> mka_reasons_ok (mk_tx_reasons b')"
    "\<not> mp_valid (mk_peer b) \<or> (\<not> mp_live (mk_peer b) \<and> seen) \<Longrightarrow> mk_tx_reasons b' \<noteq> MACSEC_MKA_TX_REASON_NONE"
proof (rule tx_frame_authenticates [OF d b keys other], goal_cases)
  case (1 basic work c)
  note basic = 1
  define c1 where "c1 = (mka_scratch b work c (mk_verify_icv b))\<lparr>mk_last_basic := basic, mk_last_rx_ms := now\<rparr>"
  have c1: "mka_inv c1" unfolding c1_def by (intro mka_inv_bookkeeping 1(3))
  have keeps: "mk_peer c1 = mk_peer b" "mk_latest_sak c1 = mk_latest_sak b" "mk_old_sak c1 = mk_old_sak b"
      "mc_keys (mk_crypto c1) = mc_keys (mk_crypto d)" "mk_pending_events c1 = mk_pending_events b"
      "mk_tx_reasons c1 = mk_tx_reasons b" "mka_identity c1 = mka_identity b"
    by (simp_all add: c1_def mka_scratch_def keys mka_identity_def)
  obtain r2 aes i where r2: "r2 \<in> {MACSEC_ERR_OK, MACSEC_ERR_NOT_READY}"
      "macsec_mka_parse_distributed_sak c1 (mka_tx_frame d) = Some (r2, macsec_mka_raise_events
         (c1\<lparr>mk_crypto := (mk_crypto c1)\<lparr>mc_aes_ctx := aes, mc_aes_initialized := i\<rparr>, mk_latest_sak := sak\<rparr>) ev)"
    using dist [OF c1 keeps(2,4)] by blast
  define c2 where "c2 = macsec_mka_raise_events
      (c1\<lparr>mk_crypto := (mk_crypto c1)\<lparr>mc_aes_ctx := aes, mc_aes_initialized := i\<rparr>, mk_latest_sak := sak\<rparr>) ev"
  have k2: "mk_peer c2 = mk_peer b" "mk_latest_sak c2 = sak" "mk_old_sak c2 = mk_old_sak b"
      "mk_pending_events c2 = mk_pending_events b OR ev" "mk_tx_reasons c2 = mk_tx_reasons b" "mka_identity c2 = mka_identity b"
    using keeps by (simp_all add: c2_def mka_step_simps mka_identity_def)
  have mi: "mk_local_mi c2 = mk_local_mi b" "mk_key_server_priority c2 = mk_key_server_priority b"
    using k2(6) by (simp_all add: mka_identity_def)
  define changed where "changed \<longleftrightarrow> \<not> mp_valid (mk_peer c1) \<or>
      macsec_compare (mp_mi (mk_peer c1)) (mb_actor_mi basic) 12 \<noteq> 0 \<or>
      macsec_compare (mp_sci (mk_peer c1)) (mb_sci basic) 8 \<noteq> 0 \<or>
      macsec_compare (mp_mac (mk_peer c1)) (mb_src_mac basic) 6 \<noteq> 0"
  define c3 where "c3 = mka_input_peer c2 basic changed (mp_live (mk_peer c1)) seen now"
  define c4 where "c4 = c3\<lparr>mk_local_key_server := macsec_mka_local_wins_key_server c3\<rparr>"
  note peer = input_peer_fields [of c2 basic changed "mp_live (mk_peer c1)" seen now, folded c3_def]
  note ident = input_peer_identity [of c2 basic changed "mp_live (mk_peer c1)" seen now, folded c3_def]
  have ks: "mk_local_key_server c4 \<longleftrightarrow> mk_key_server_priority b < mk_key_server_priority d"
    using election_valid_peer [OF peer(1)] peer(6,12) basic(9) mi by (simp add: c4_def)
  have r: "(if changed \<and> mk_local_key_server c4 \<and> ms_lifecycle_state (mk_latest_sak c4) \<noteq> MACSEC_MKA_SAK_STATE_NONE
      then macsec_mka_start_rekey rnd c4 else (MACSEC_ERR_OK, c4)) = (MACSEC_ERR_OK, c4)" for rnd
    using ks keep peer(9) k2(2) by (auto simp: c4_def)
  have u: "macsec_mka_parse_sak_use c4 (mka_tx_frame d) = Some (MACSEC_ERR_NOT_READY, c4)"
    by (rule use) (use peer(9) k2(2) in \<open>simp add: c4_def\<close>)
  define b' where "b' = mka_input_events c4 changed (\<not> mp_live (mk_peer c1) \<and> mp_live (mk_peer c3))
    (\<not> changed \<and> mp_live (mk_peer c1) \<and> \<not> mp_live (mk_peer c3)) (mk_local_key_server c1 \<noteq> mk_local_key_server c4)"
  note fields = input_events_fields [of c4 changed "\<not> mp_live (mk_peer c1) \<and> mp_live (mk_peer c3)"
      "\<not> changed \<and> mp_live (mk_peer c1) \<and> \<not> mp_live (mk_peer c3)" "mk_local_key_server c1 \<noteq> mk_local_key_server c4",
      folded b'_def]
  note reasons = input_events_reasons [OF b'_def]
  have result: "macsec_mka_input rnd b (mka_tx_frame d) now = Some (MACSEC_ERR_OK, b')" for rnd
    unfolding b'_def changed_def c3_def c4_def c1_def
    by (rule input_passed [where rnd = rnd, OF basic(2) r2(2) [unfolded c1_def, folded c2_def [unfolded c1_def]] r2(1) seen [folded mi(1)]
          r [where rnd = rnd, unfolded c4_def c3_def changed_def c1_def] _ u [unfolded c4_def c3_def changed_def c1_def]]) simp_all
  have inv: "mka_inv b'"
    by (rule input_total [where rnd = "\<lambda>n. replicate n 0" and frame = "mka_tx_frame d" and now = now, OF b])
       (use result [of "\<lambda>n. replicate n 0"] in simp_all)
  have pending: "(mk_pending_events b OR ev) AND e = 0" if "mk_pending_events b' AND e = 0" for e
  proof -
    from fields(7) [OF that] have "mk_pending_events c3 AND e = 0" by (simp add: c4_def)
    then have "mk_pending_events c2 AND e = 0" unfolding c3_def by (rule input_peer_pending)
    then show ?thesis by (simp add: k2(4))
  qed
  have c4: "mk_tx_reasons c4 = mk_tx_reasons b" "mka_identity c4 = mka_identity b" "mk_peer c4 = mk_peer c3"
      "mk_latest_sak c4 = sak" "mk_old_sak c4 = mk_old_sak b"
    using ident k2 peer(9,10) by (simp_all add: c4_def mka_identity_def)
  have first: "changed" if "\<not> mp_valid (mk_peer b)" using that keeps(1) by (simp add: changed_def)
  have "mp_live (mk_peer b') = seen" if "\<not> mp_live (mk_peer b)" using that keeps(1) peer(8) fields(1) c4 by simp
  moreover have "mk_tx_reasons b' \<noteq> MACSEC_MKA_TX_REASON_NONE" if "\<not> mp_valid (mk_peer b) \<or> (\<not> mp_live (mk_peer b) \<and> seen)"
    using that first peer(8) keeps(1) unfolding reasons(1) by (auto simp: mka_flags or_eq_0_iff)
  moreover have "mka_reasons_ok (mk_tx_reasons b')" if "mka_reasons_ok (mk_tx_reasons b)"
    using that unfolding reasons(1) c4(1) reasons_ok_or by (simp add: mka_flags mka_reasons_ok_def)
  ultimately show thesis
    using fields(1-4) peer(1-8) basic(5-9) ks c4 reasons(2) pending
    by (intro basic(1) [OF result inv]) simp_all
qed

text \<open>The frame of a Key Server that distributes its SAK, at a participant that has none.\<close>

lemma input_distribution:
  fixes d b :: macsec_mka_ctx
  defines "sak \<equiv> mk_latest_sak d"
  assumes d: "mka_inv d" and b: "mka_inv b" and keys: "mc_keys (mk_crypto b) = mc_keys (mk_crypto d)"
    and other: "mk_local_mac d \<noteq> mk_local_mac b" "mk_local_sci d \<noteq> mk_local_sci b" "mk_local_mi d \<noteq> mk_local_mi b"
    and prio: "mk_key_server_priority d \<le> mk_key_server_priority b"
    and none: "ms_lifecycle_state (mk_latest_sak b) = MACSEC_MKA_SAK_STATE_NONE"
    and dist: "mka_include_distributed_sak d"
  obtains b' where "\<And>rnd. macsec_mka_input rnd b (mka_tx_frame d) now = Some (MACSEC_ERR_OK, b')" "mka_inv b'"
    "mk_latest_sak b' = mka_received_sak (ms_key_number sak) (ms_an sak) (take (ms_sak_len sak) (ms_sak sak))"
    "mk_old_sak b' = mk_old_sak b" "mka_identity b' = mka_identity b"
    "\<not> mk_local_key_server b'" "mp_valid (mk_peer b')" "mp_mi (mk_peer b') = mk_local_mi d"
    "mp_mi (mk_peer d) = mk_local_mi b \<Longrightarrow> mp_live (mk_peer b')"
    "mk_pending_events b' AND MACSEC_MKA_EVENT_SAK_AVAILABLE \<noteq> 0"
    "\<And>e. mk_pending_events b' AND e = 0 \<Longrightarrow> mk_pending_events b AND e = 0"
    "mka_reasons_ok (mk_tx_reasons b) \<Longrightarrow> mka_reasons_ok (mk_tx_reasons b')"
proof -
  define key where "key = take (ms_sak_len sak) (ms_sak sak)"
  have ok: "ms_sak_len sak = 16 \<or> ms_sak_len sak = 32" "ms_an sak < 4" "ms_key_number sak \<noteq> 0" "length (ms_sak sak) = 32"
    using d dist by (auto simp: sak_def mka_inv_def mka_latest_ok_def mka_sak_ok_def mka_include_distributed_sak_def
        mka_sak_distributable_def)
  then have key: "length key = ms_sak_len sak" "length key = 16 \<or> length key = 32" by (auto simp: key_def)
  obtain pos where pos: "mka_param_find (mka_tx_frame d) MACSEC_MKA_PARAM_DISTRIBUTED_SAK =
        Some (Inr (pos, push_bit 6 (ms_an sak AND 3), length key + 12))"
      "take (length key + 12) (drop (pos + 4) (mka_tx_frame d)) =
         macsec_wr_be32 (ms_key_number sak) @ kw_wrap_spec (mka_kek_cipher (mk_crypto d)) key"
      "mka_param_find (mka_tx_frame d) MACSEC_MKA_PARAM_SAK_USE =
         Some (Inr (pos + length key + 16, mka_sak_use_flags sak (mk_old_sak d), 40))"
      "pos + length key + 60 \<le> length (mka_tx_frame d)"
    by (rule tx_frame_distributes [OF d dist]) (simp add: key_def [symmetric] sak_def [symmetric] key(1) add.assoc)
  have room: "pos + length key + 16 \<le> length (mka_tx_frame d)" using pos(4) by simp
  define rsak where "rsak = mka_received_sak (ms_key_number sak) (ms_an sak) key"
  have parse: "\<exists>ret aes i. ret \<in> {MACSEC_ERR_OK, MACSEC_ERR_NOT_READY} \<and>
      macsec_mka_parse_distributed_sak c1 (mka_tx_frame d) = Some (ret, macsec_mka_raise_events
        (c1\<lparr>mk_crypto := (mk_crypto c1)\<lparr>mc_aes_ctx := aes, mc_aes_initialized := i\<rparr>, mk_latest_sak := rsak\<rparr>)
        MACSEC_MKA_EVENT_SAK_AVAILABLE)"
    if c1: "mka_inv c1" "mk_latest_sak c1 = mk_latest_sak b" "mc_keys (mk_crypto c1) = mc_keys (mk_crypto d)" for c1
  proof -
    have kek: "mka_kek_cipher (mk_crypto d) = mka_kek_cipher (mk_crypto c1)" by (simp add: mka_kek_cipher_def c1(3))
    show ?thesis
    proof (rule parse_distributed_sak_accepts [OF c1(1) none [folded c1(2)] pos(1) pos(2) [unfolded kek] key(2) ok(3) room], goal_cases)
      case (1 aes)
      from 1 [unfolded an_field [OF ok(2)], folded rsak_def] show ?case by blast
    qed
  qed
  obtain seen mn type where seen: "macsec_mka_frame_contains_peer_entry (mka_tx_frame d) (mk_local_mi b) = Some (seen, mn, type)"
    using contains_peer_total by (metis not_None_eq surj_pair)
  have listed: "seen" if "mp_mi (mk_peer d) = mk_local_mi b"
  proof -
    have "mp_valid (mk_peer d)" using dist by (simp add: mka_include_distributed_sak_def)
    moreover have "72 \<le> mka_eapol_len d"
      using length_params(1) [OF d] dist \<open>mp_valid (mk_peer d)\<close> mka_inv_lengths(6) [OF d] length_distributed_param(2) [OF d dist]
      by (auto simp: mka_eapol_len_def)
    ultimately show ?thesis using tx_frame_lists_peer [OF d] seen that by auto
  qed
  have use: "macsec_mka_parse_sak_use c (mka_tx_frame d) = Some (MACSEC_ERR_NOT_READY, c)" if "mk_latest_sak c = rsak" for c
    by (rule sak_use_candidate [OF _ pos(3)]) (use that pos(4) in \<open>simp_all add: mka_received_sak_def rsak_def\<close>)
  have "mk_key_server_priority b < mk_key_server_priority d \<Longrightarrow> ms_lifecycle_state rsak = MACSEC_MKA_SAK_STATE_NONE"
    using prio by simp
  note keep = this
  show thesis
  proof (rule input_core [where now = now and sak = rsak and ev = MACSEC_MKA_EVENT_SAK_AVAILABLE, OF d b keys other _ seen],
      goal_cases)
    case (4 b')
    have ev: "mk_pending_events b AND e = 0" "MACSEC_MKA_EVENT_SAK_AVAILABLE AND e = 0" if "mk_pending_events b' AND e = 0" for e
      using 4(16) [OF that] by (rule flags_or_0)+
    have "mk_pending_events b' AND MACSEC_MKA_EVENT_SAK_AVAILABLE \<noteq> 0"
      using ev(2) [of MACSEC_MKA_EVENT_SAK_AVAILABLE] by (auto simp: mka_flags)
    with 4 prio ev(1) listed show ?case
      by (intro that [where b' = b']) (simp_all add: rsak_def key_def)
  qed (use parse use keep in blast)+
qed

subsection \<open>The first frames\<close>

lemma param_scan_absent:
  assumes inv: "mka_inv d" and none: "ms_lifecycle_state (mk_latest_sak d) = MACSEC_MKA_SAK_STATE_NONE"
      "ms_lifecycle_state (mk_old_sak d) = MACSEC_MKA_SAK_STATE_NONE"
    and wanted: "wanted \<noteq> MACSEC_MKA_PARAM_LIVE_PEER_LIST" "wanted \<noteq> MACSEC_MKA_PARAM_POTENTIAL_PEER_LIST"
  shows "mka_param_find (mka_tx_frame d) wanted = Some (Inl MACSEC_ERR_NOT_READY)"
proof (cases "72 \<le> mka_eapol_len d")
  case False
  then show ?thesis using tx_frame_scan_end [OF inv] by (simp add: mka_param_find_def)
next
  case True
  obtain pre icv where split: "mka_tx_frame d = pre @ mka_params d @ icv" "length pre = 50 + length (mka_ckn d)"
    "length icv = 16" "length (pre @ mka_params d) = 2 + mka_eapol_len d"
    by (rule tx_frame_split [OF inv])
  have stop: "mka_param_scan f wanted n n = Some (Inl MACSEC_ERR_NOT_READY)" for f n
    by (subst mka_param_scan.simps) simp
  have no: "\<not> mka_include_distributed_sak d" "\<not> mka_include_sak_use d"
    using none by (auto simp: mka_include_distributed_sak_def mka_sak_distributable_def mka_include_sak_use_def)
  show ?thesis
  proof (cases "mp_valid (mk_peer d)")
    case False
    then have "mka_params d = []" using no by (simp add: mka_params_def)
    then have "50 + length (mka_ckn d) = 2 + mka_eapol_len d" using split by simp
    then show ?thesis unfolding tx_frame_scans(2) [OF inv True] by (simp only: stop)
  next
    case valid: True
    define type where "type = (if mp_live (mk_peer d) then MACSEC_MKA_PARAM_LIVE_PEER_LIST
                               else MACSEC_MKA_PARAM_POTENTIAL_PEER_LIST)"
    have params: "mka_params d = mka_param type 0 (mka_peer_entry (mk_peer d))"
      using valid no by (simp add: mka_params_def type_def)
    have f: "mka_tx_frame d = pre @ mka_param type 0 (mka_peer_entry (mk_peer d)) @ icv"
      using split(1) params by simp
    have "mka_param_scan (mka_tx_frame d) wanted (length pre) (2 + mka_eapol_len d) =
        mka_param_scan (mka_tx_frame d) wanted (length (pre @ mka_params d)) (2 + mka_eapol_len d)"
      unfolding params
      by (rule param_scan_skip [OF f]) (use wanted split params length_tx_frame [OF inv] mka_inv_lengths(4) [OF inv] in \<open>auto simp: type_def\<close>)
    then show ?thesis unfolding tx_frame_scans(2) [OF inv True] split(2,4) by (simp only: stop)
  qed
qed

text \<open>A frame without SAK parameter sets at a participant without SAK.\<close>

lemma input_hello:
  fixes d b :: macsec_mka_ctx
  assumes d: "mka_inv d" and b: "mka_inv b" and keys: "mc_keys (mk_crypto b) = mc_keys (mk_crypto d)"
    and other: "mk_local_mac d \<noteq> mk_local_mac b" "mk_local_sci d \<noteq> mk_local_sci b" "mk_local_mi d \<noteq> mk_local_mi b"
    and none: "ms_lifecycle_state (mk_latest_sak d) = MACSEC_MKA_SAK_STATE_NONE"
      "ms_lifecycle_state (mk_old_sak d) = MACSEC_MKA_SAK_STATE_NONE"
      "ms_lifecycle_state (mk_latest_sak b) = MACSEC_MKA_SAK_STATE_NONE"
    and lists: "mp_valid (mk_peer d) \<Longrightarrow> mp_mi (mk_peer d) = mk_local_mi b"
      "mp_valid (mk_peer d) \<Longrightarrow> 4 \<le> length (mka_ckn d)"
  obtains b' where "\<And>rnd. macsec_mka_input rnd b (mka_tx_frame d) now = Some (MACSEC_ERR_OK, b')" "mka_inv b'"
    "mk_latest_sak b' = mk_latest_sak b" "mk_old_sak b' = mk_old_sak b" "mka_identity b' = mka_identity b"
    "mp_valid (mk_peer b')" "mp_mi (mk_peer b') = mk_local_mi d"
    "\<not> mp_valid (mk_peer b) \<Longrightarrow> mp_live (mk_peer b') = mp_valid (mk_peer d)" "mp_valid (mk_peer d) \<Longrightarrow> mp_live (mk_peer b')"
    "mk_local_key_server b' \<longleftrightarrow> mk_key_server_priority b < mk_key_server_priority d"
    "mka_reasons_ok (mk_tx_reasons b) \<Longrightarrow> mka_reasons_ok (mk_tx_reasons b')"
    "\<not> mp_valid (mk_peer b) \<Longrightarrow> mk_tx_reasons b' \<noteq> MACSEC_MKA_TX_REASON_NONE"
proof -
  have find: "mka_param_find (mka_tx_frame d) MACSEC_MKA_PARAM_DISTRIBUTED_SAK = Some (Inl MACSEC_ERR_NOT_READY)"
      "mka_param_find (mka_tx_frame d) MACSEC_MKA_PARAM_SAK_USE = Some (Inl MACSEC_ERR_NOT_READY)"
    by (rule param_scan_absent [OF d none(1,2)]; simp add: MACSEC_MKA_PARAM_LIVE_PEER_LIST_def
        MACSEC_MKA_PARAM_POTENTIAL_PEER_LIST_def MACSEC_MKA_PARAM_DISTRIBUTED_SAK_def MACSEC_MKA_PARAM_SAK_USE_def)+
  have parse: "\<exists>ret aes i. ret \<in> {MACSEC_ERR_OK, MACSEC_ERR_NOT_READY} \<and>
      macsec_mka_parse_distributed_sak c1 (mka_tx_frame d) = Some (ret, macsec_mka_raise_events
        (c1\<lparr>mk_crypto := (mk_crypto c1)\<lparr>mc_aes_ctx := aes, mc_aes_initialized := i\<rparr>, mk_latest_sak := mk_latest_sak b\<rparr>) 0)"
    if "mk_latest_sak c1 = mk_latest_sak b" for c1
    by (rule exI [of _ MACSEC_ERR_NOT_READY], rule exI [of _ "mc_aes_ctx (mk_crypto c1)"],
        rule exI [of _ "mc_aes_initialized (mk_crypto c1)"])
       (simp add: macsec_mka_parse_distributed_sak_def find mka_step_simps that [symmetric])
  have use: "macsec_mka_parse_sak_use c (mka_tx_frame d) = Some (MACSEC_ERR_NOT_READY, c)" for c
    by (simp add: macsec_mka_parse_sak_use_def find)
  obtain mn type where seen: "macsec_mka_frame_contains_peer_entry (mka_tx_frame d) (mk_local_mi b) =
      Some (mp_valid (mk_peer d), mn, type)"
  proof (cases "mp_valid (mk_peer d)")
    case True
    then have "72 \<le> mka_eapol_len d" using lists(2) length_params(1) [OF d] d by (simp add: mka_eapol_len_def)
    from tx_frame_lists_peer [OF d this True] lists(1) [OF True] show thesis using that True by auto
  next
    case False
    have "mka_params d = []"
      using False none by (simp add: mka_params_def mka_include_distributed_sak_def mka_include_sak_use_def)
    have "macsec_mka_frame_contains_peer_entry (mka_tx_frame d) (mk_local_mi b) = Some (False, 0, 0)"
    proof (cases "72 \<le> mka_eapol_len d")
      case True
      have "2 + mka_eapol_len d = 50 + length (mka_ckn d)" using \<open>mka_params d = []\<close> d by (simp add: mka_eapol_len_def)
      then show ?thesis using tx_frame_scans(1) [OF d True] by (simp add: mka_peer_scan.simps)
    next
      case False
      then show ?thesis using tx_frame_scan_end [OF d] by (simp add: macsec_mka_frame_contains_peer_entry_def)
    qed
    with False that show thesis by simp
  qed
  have silent: "\<not> mp_valid (mk_peer b) \<Longrightarrow> \<not> mp_live (mk_peer b)"
    using b by (auto simp: mka_inv_def mka_state_ok_def split: macsec_mka_state.splits)
  show thesis
  proof (rule input_core [where now = now and sak = "mk_latest_sak b" and ev = 0, OF d b keys other _ seen], goal_cases)
    case (1 c1)
    show ?case by (rule parse) (rule 1(2))
  next
    case (2 c)
    show ?case by (rule use)
  next
    case 3
    show ?case by (rule none(3))
  next
    case (4 b')
    with silent show ?case by (intro that [where b' = b']) simp_all
  qed
qed

subsection \<open>Sending\<close>

text \<open>A participant that sent the frame it built, and was told so.\<close>

lemma tx_committed:
  fixes d :: macsec_mka_ctx and c :: macsec_mka_crypto_ctx
  assumes inv: "mka_inv (d\<lparr>mk_crypto := c\<rparr>)" and reasons: "mk_tx_reasons d \<noteq> MACSEC_MKA_TX_REASON_NONE" "mka_reasons_ok (mk_tx_reasons d)"
    and keys: "mc_keys c = mc_keys (mk_crypto d)" "mc_psk c = mc_psk (mk_crypto d)"
  defines "commit \<equiv> mka_include_distributed_sak d \<and>
    ms_lifecycle_state (mk_latest_sak d) = MACSEC_MKA_SAK_STATE_DISTRIBUTION_PENDING"
  obtains x where "macsec_mka_notify_tx_success (d\<lparr>mk_crypto := c\<rparr>) (mka_tx_meta d) now = (MACSEC_ERR_OK, x)" "mka_inv x"
    "mk_latest_sak x = (if commit then (mk_latest_sak d)\<lparr>ms_lifecycle_state := MACSEC_MKA_SAK_STATE_DISTRIBUTED\<rparr>
                        else mk_latest_sak d)"
    "mk_old_sak x = mk_old_sak d" "mk_peer x = mk_peer d" "mk_local_key_server x = mk_local_key_server d"
    "mka_identity x = mka_identity d" "mka_reasons_ok (mk_tx_reasons x)" "mk_state x = mk_state d"
    "mk_local_mn x = (if mk_local_mn d + 1 = 0 then 1 else mk_local_mn d + 1)"
    "mk_last_tx_ms x = (if now \<noteq> 0 then now else 1)" "mk_tx_reasons x = 0" "mk_last_tick_ms x = mk_last_tick_ms d"
    "commit \<Longrightarrow> mk_pending_events x AND MACSEC_MKA_EVENT_SAK_AVAILABLE \<noteq> 0"
proof -
  define x where "x = snd (macsec_mka_notify_tx_success (d\<lparr>mk_crypto := c\<rparr>) (mka_tx_meta d) now)"
  have known: "mt_reasons (mka_tx_meta d) AND NOT (MACSEC_MKA_TX_REASON_INITIAL OR MACSEC_MKA_TX_REASON_PERIODIC OR
                     MACSEC_MKA_TX_REASON_PEER_CHANGE OR MACSEC_MKA_TX_REASON_KEY_SERVER_CHANGE OR
                     MACSEC_MKA_TX_REASON_DISTRIBUTE_SAK OR MACSEC_MKA_TX_REASON_SAK_USE OR
                     MACSEC_MKA_TX_REASON_REKEY) = 0"
    using reasons(2) by (simp add: mka_tx_meta_def mka_reasons_ok_def mka_flags)
  have clear: "r AND NOT r = 0" for r :: u32 by (simp add: bit.conj_cancel_right)
  define y where "y = (if commit then snd (mka_commit_distribution (d\<lparr>mk_crypto := c\<rparr>)) else d\<lparr>mk_crypto := c\<rparr>)"
  have origin: "mka_include_distributed_sak d \<Longrightarrow> mka_sak_distributable (mk_latest_sak d) \<and>
      ms_origin (mk_latest_sak d) = MACSEC_MKA_SAK_ORIGIN_LOCAL_KEY_SERVER"
    by (simp add: mka_include_distributed_sak_def)
  have y: "mk_latest_sak y = (if commit then (mk_latest_sak d)\<lparr>ms_lifecycle_state := MACSEC_MKA_SAK_STATE_DISTRIBUTED\<rparr>
        else mk_latest_sak d)" "mk_old_sak y = mk_old_sak d" "mk_peer y = mk_peer d"
      "mk_local_key_server y = mk_local_key_server d" "mka_identity y = mka_identity d" "mk_tx_reasons y = mk_tx_reasons d"
      "mk_state y = mk_state d" "mk_local_mn y = mk_local_mn d" "mk_last_tick_ms y = mk_last_tick_ms d"
      "commit \<Longrightarrow> mk_pending_events y = mk_pending_events d OR
         (MACSEC_MKA_EVENT_SAK_DISTRIBUTED OR MACSEC_MKA_EVENT_SAK_AVAILABLE)"
    by (auto simp: y_def commit_def mka_commit_distribution_def Let_def mka_step_simps mka_identity_def keys)
  have ok: "commit \<Longrightarrow> fst (mka_commit_distribution (d\<lparr>mk_crypto := c\<rparr>)) = MACSEC_ERR_OK"
    by (auto simp: commit_def mka_commit_distribution_def Let_def mka_step_simps)
  have eq: "macsec_mka_notify_tx_success (d\<lparr>mk_crypto := c\<rparr>) (mka_tx_meta d) now = (MACSEC_ERR_OK,
      y\<lparr>mk_local_mn := (if mk_local_mn d + 1 = 0 then 1 else mk_local_mn d + 1),
        mk_last_tx_ms := (if now \<noteq> 0 then now else 1), mk_tx_reasons := 0\<rparr>)"
  proof -
    have m: "mt_message_number (mka_tx_meta d) = mk_local_mn d" "mt_reasons (mka_tx_meta d) = mk_tx_reasons d"
      "mt_contains_distributed_sak (mka_tx_meta d) = mka_include_distributed_sak d"
      "mka_include_distributed_sak d \<Longrightarrow> mt_distributed_key_number (mka_tx_meta d) = ms_key_number (mk_latest_sak d)"
      "mka_include_distributed_sak d \<Longrightarrow> mt_distributed_an (mka_tx_meta d) = ms_an (mk_latest_sak d)"
      by (simp_all add: mka_tx_meta_def)
    define d' where "d' = d\<lparr>mk_crypto := c\<rparr>"
    have d': "mk_latest_sak d' = mk_latest_sak d" "mk_local_mn d' = mk_local_mn d" by (simp_all add: d'_def)
    have step: "(if mt_contains_distributed_sak (mka_tx_meta d) then
                 (if \<not> mka_sak_distributable (mk_latest_sak d') \<or>
                     ms_origin (mk_latest_sak d') \<noteq> MACSEC_MKA_SAK_ORIGIN_LOCAL_KEY_SERVER \<or>
                     ms_key_number (mk_latest_sak d') \<noteq> mt_distributed_key_number (mka_tx_meta d) \<or>
                     ms_an (mk_latest_sak d') \<noteq> mt_distributed_an (mka_tx_meta d)
                  then (MACSEC_ERR_STATE, d')
                  else if ms_lifecycle_state (mk_latest_sak d') = MACSEC_MKA_SAK_STATE_DISTRIBUTION_PENDING
                  then mka_commit_distribution d'
                  else (MACSEC_ERR_OK, d'))
               else (MACSEC_ERR_OK, d')) = (MACSEC_ERR_OK, y)"
      using origin m(3-5) ok unfolding d' by (auto simp: y_def commit_def prod_eq_iff d'_def)
    show ?thesis
      unfolding macsec_mka_notify_tx_success_def Let_def d'_def [symmetric] step prod.case
      using known reasons(1) m(1,2) y(6,8) d'(2) by (simp add: clear del: de_Morgan_conj bit.de_Morgan_disj)
  qed
  have inv': "mka_inv x" unfolding x_def by (rule notify_tx_success_inv [OF inv])
  show thesis
    by (rule that [of x]) (use eq inv' y in \<open>auto simp: x_def mka_identity_def mka_reasons_ok_def bit.conj_disj_distrib2
          mka_flags or_eq_0_iff\<close>)
qed

subsection \<open>Timer\<close>

lemma tick_spec:
  fixes ctx :: macsec_mka_ctx and now :: u32
  assumes inv: "mka_inv ctx"
  defines "lost \<equiv> mp_valid (mk_peer ctx) \<and> mk_tx_interval_ms ctx * 3 \<le> now - mp_last_seen_ms (mk_peer ctx)"
  defines "due \<equiv> mk_last_tx_ms ctx = 0 \<or> mk_tx_interval_ms ctx \<le> now - mk_last_tx_ms ctx"
  defines "ctx' \<equiv> snd (macsec_mka_tick ctx now)"
  shows "fst (macsec_mka_tick ctx now) = MACSEC_ERR_OK" "mka_inv ctx'"
    "mk_peer ctx' = (if lost then (mk_peer ctx)\<lparr>mp_valid := False, mp_live := False, mp_seen_in_peer_list := False\<rparr> else mk_peer ctx)"
    "mk_state ctx' = (if lost then MACSEC_MKA_STATE_WAIT_PEER else mk_state ctx)"
    "lost \<Longrightarrow> mk_pending_events ctx' AND MACSEC_MKA_EVENT_PEER_LOST \<noteq> 0"
    "mk_tx_reasons ctx' = 0 \<longleftrightarrow> mk_tx_reasons ctx = 0 \<and> \<not> lost \<and> \<not> due"
    "mk_latest_sak ctx' = mk_latest_sak ctx" "mk_old_sak ctx' = mk_old_sak ctx" "mka_identity ctx' = mka_identity ctx"
    "mk_local_key_server ctx' = mk_local_key_server ctx" "mk_local_mn ctx' = mk_local_mn ctx"
    "mka_reasons_ok (mk_tx_reasons ctx) \<Longrightarrow> mka_reasons_ok (mk_tx_reasons ctx')"
proof -
  define c where "c = ctx\<lparr>mk_last_tick_ms := now\<rparr>"
  define d where "d = mka_peer_timeout c now"
  have st: "mka_state_ok (mk_state ctx) (mk_peer ctx)" using inv by (simp add: mka_inv_def)
  then have allowed: "macsec_mka_state_transition_allowed (mk_state ctx) MACSEC_MKA_STATE_WAIT_PEER"
    by (cases "mk_state ctx") (simp_all add: mka_state_ok_def)
  have d: "d = (if lost then c\<lparr>mk_peer := (mk_peer ctx)\<lparr>mp_valid := False, mp_live := False, mp_seen_in_peer_list := False\<rparr>,
      mk_state := MACSEC_MKA_STATE_WAIT_PEER,
      mk_pending_events := mk_pending_events ctx OR (MACSEC_MKA_EVENT_PEER_LOST OR MACSEC_MKA_EVENT_TX_PEER_CHANGE),
      mk_tx_reasons := mk_tx_reasons ctx OR MACSEC_MKA_TX_REASON_PEER_CHANGE\<rparr> else c)"
    using allowed by (simp add: d_def c_def mka_peer_timeout_def Let_def lost_def mka_step_simps
        MACSEC_MKA_PEER_TIMEOUT_MULTIPLIER_def del: macsec_mka_state_transition_allowed.simps)
  have t: "macsec_mka_tick ctx now = (MACSEC_ERR_OK, if mk_tx_reasons d \<noteq> 0 \<or> \<not> due then d
     else if mk_last_tx_ms ctx = 0 then d\<lparr>mk_pending_events := mk_pending_events d OR MACSEC_MKA_EVENT_TX_INITIAL,
        mk_tx_reasons := MACSEC_MKA_TX_REASON_INITIAL\<rparr>
     else d\<lparr>mk_pending_events := mk_pending_events d OR MACSEC_MKA_EVENT_TX_PERIODIC,
        mk_tx_reasons := MACSEC_MKA_TX_REASON_PERIODIC\<rparr>)"
  proof -
    have "mk_last_tx_ms d = mk_last_tx_ms ctx" "mk_tx_interval_ms d = mk_tx_interval_ms ctx" by (simp_all add: d c_def)
    then show ?thesis
      unfolding macsec_mka_tick_def Let_def c_def [symmetric] d_def [symmetric]
      by (auto simp: due_def mka_step_simps MACSEC_MKA_TX_REASON_NONE_def)
  qed
  show "mka_inv ctx'" unfolding ctx'_def by (rule tick_inv [OF inv])
  show "fst (macsec_mka_tick ctx now) = MACSEC_ERR_OK" by (simp add: t)
  have keep: "mk_latest_sak d = mk_latest_sak ctx" "mk_old_sak d = mk_old_sak ctx" "mka_identity d = mka_identity ctx"
      "mk_local_key_server d = mk_local_key_server ctx" "mk_local_mn d = mk_local_mn ctx"
    by (simp_all add: d c_def mka_identity_def)
  show "mk_latest_sak ctx' = mk_latest_sak ctx" "mk_old_sak ctx' = mk_old_sak ctx" "mka_identity ctx' = mka_identity ctx"
    "mk_local_key_server ctx' = mk_local_key_server ctx" "mk_local_mn ctx' = mk_local_mn ctx"
    using keep by (simp_all add: ctx'_def t mka_identity_def)
  show "mk_peer ctx' = (if lost then (mk_peer ctx)\<lparr>mp_valid := False, mp_live := False, mp_seen_in_peer_list := False\<rparr> else mk_peer ctx)"
    "mk_state ctx' = (if lost then MACSEC_MKA_STATE_WAIT_PEER else mk_state ctx)"
    by (simp_all add: ctx'_def t d c_def)
  show "lost \<Longrightarrow> mk_pending_events ctx' AND MACSEC_MKA_EVENT_PEER_LOST \<noteq> 0"
    by (auto simp: ctx'_def t d c_def mka_flags bit.conj_disj_distrib2 or_eq_0_iff)
  show "mk_tx_reasons ctx' = 0 \<longleftrightarrow> mk_tx_reasons ctx = 0 \<and> \<not> lost \<and> \<not> due"
    by (auto simp: ctx'_def t d c_def mka_flags or_eq_0_iff)
  show "mka_reasons_ok (mk_tx_reasons ctx) \<Longrightarrow> mka_reasons_ok (mk_tx_reasons ctx')"
    by (auto simp: ctx'_def t d c_def reasons_ok_or) (simp_all add: mka_flags mka_reasons_ok_def)
qed

end
