(* ===== verification/MkaProperties.thy ===== *)
theory MkaProperties
  imports MkaExchange
begin

text \<open>
  Properties of the exchange between participants: the bounds of the transmitter, what a receiver
  reads back, the distribution of a SAK, the election, rekeying and the timer.
\<close>

subsection \<open>A concrete link\<close>

text \<open>Participant \<open>i\<close> that knows participant \<open>j\<close> as its peer.\<close>

definition sample_linked :: "nat \<Rightarrow> nat \<Rightarrow> bool \<Rightarrow> macsec_mka_ctx" where
  "sample_linked i j live = (sample_mka i)
     \<lparr>mk_peer := mka_peer_zero\<lparr>mp_valid := True, mp_mac := replicate 6 (of_nat j),
        mp_sci := replicate 6 (of_nat j) @ [0, 1], mp_mi := replicate 12 (of_nat j), mp_mn := 1,
        mp_key_server_priority := of_nat j, mp_live := live\<rparr>,
      mk_state := (if live then MACSEC_MKA_STATE_PEER_LIVE else MACSEC_MKA_STATE_PEER_DISCOVERED)\<rparr>"

lemma sample_linked_fields:
  "mp_valid (mk_peer (sample_linked i j live))" "mp_live (mk_peer (sample_linked i j live)) = live"
  "mp_mi (mk_peer (sample_linked i j live)) = replicate 12 (of_nat j)"
  "mp_key_server_priority (mk_peer (sample_linked i j live)) = of_nat j"
  "mp_last_seen_ms (mk_peer (sample_linked i j live)) = 0"
  "mk_latest_sak (sample_linked i j live) = macsec_mka_sak_clear"
  "mk_old_sak (sample_linked i j live) = macsec_mka_sak_clear" "mk_local_key_server (sample_linked i j live)"
  "mk_key_server_priority (sample_linked i j live) = of_nat i" "mk_local_mac (sample_linked i j live) = replicate 6 (of_nat i)"
  "mk_local_sci (sample_linked i j live) = replicate 6 (of_nat i) @ [0, 1]"
  "mk_local_mi (sample_linked i j live) = replicate 12 (of_nat i)"
  "mk_tx_reasons (sample_linked i j live) = MACSEC_MKA_TX_REASON_INITIAL" "mk_tx_interval_ms (sample_linked i j live) = 2000"
  "mk_last_tx_ms (sample_linked i j live) = 0" "mk_local_mn (sample_linked i j live) = 1"
  "mk_crypto (sample_linked i j live) = mk_crypto (sample_mka i)"
  by (simp_all add: sample_linked_def sample_mka_fields mka_peer_zero_def)

lemma sample_linked_ckn: "mka_ckn (sample_linked i j live) = [2, 3, 4, 5]"
  by (rule sample_mka_spec [of i]) (simp add: mka_ckn_def sample_linked_fields)

lemma sample_linked_inv: "mka_inv (sample_linked i j live)"
proof -
  have "mka_inv (sample_mka i)" by (rule sample_mka_inv)
  then show ?thesis
    by (auto simp: sample_linked_def mka_inv_def mka_arrays_ok_def mka_state_ok_def mka_peer_zero_def)
qed

subsection \<open>The transmitter\<close>

text \<open>
  C26. \<open>macsec_mka_build_tx_frame\<close> always returns when the buffer has the
  size that the caller states. A frame it reports as built has at most 210 bytes and fits the limit
  of the caller; the bytes behind it stay as they were, and on every other result the whole buffer
  and the length 0 do. A limit of 210 bytes is always enough.
\<close>

theorem mka_build_bounds:
  assumes inv: "mka_inv ctx" and rnd: "length (rnd 16) = 16" and room: "max_len \<le> length frame"
  shows "\<exists>ret ctx' out n meta'. macsec_mka_build_tx_frame rnd ctx frame frame_len max_len meta =
      Some (ret, ctx', out, n, meta') \<and> mka_inv ctx' \<and> length out = length frame \<and> drop n out = drop n frame \<and>
      (ret = MACSEC_ERR_OK \<longrightarrow> 0 < n \<and> n \<le> max_len \<and> n \<le> 210) \<and>
      (ret \<noteq> MACSEC_ERR_OK \<longrightarrow> n = 0) \<and> (210 \<le> max_len \<longrightarrow> ret \<noteq> MACSEC_ERR_BUFFER)"
proof -
  let ?d = "snd (mka_tx_prepare rnd ctx)"
  have d: "mka_inv ?d" by (rule tx_prepare_inv [where rnd = rnd, OF inv rnd])
  note len = length_tx_frame [OF d] mka_eapol_len_bounds [OF d]
  have prep: "fst (mka_tx_prepare rnd ctx) \<noteq> MACSEC_ERR_BUFFER"
    by (auto simp: mka_tx_prepare_def ensure_sak_spec [where rnd = rnd, OF inv rnd])
  show ?thesis
  proof (cases rule: build_tx_frame_spec [where rnd = rnd, OF inv rnd room, of frame_len meta, case_names idle no_sak too_long built])
    case (built c)
    then show ?thesis using len room by auto
  qed (use inv d prep len in auto)
qed

theorem mka_build_bounds_witness:
  "\<exists>ret ctx' out n meta'. macsec_mka_build_tx_frame (\<lambda>n. replicate n 5) (sample_linked 1 2 True) (replicate 512 0) 0 512
      mka_meta_zero = Some (ret, ctx', out, n, meta') \<and> length out = 512 \<and> n \<le> 210"
proof -
  have room: "(512::nat) \<le> length (replicate 512 (0::u8))" by simp
  have l: "length ((\<lambda>n. replicate n (5::u8)) 16) = 16" by simp
  from mka_build_bounds [where rnd = "\<lambda>n. replicate n 5", OF sample_linked_inv l room, of 1 2 True 0 mka_meta_zero]
  obtain ret ctx' out n meta' where r: "macsec_mka_build_tx_frame (\<lambda>n. replicate n 5) (sample_linked 1 2 True) (replicate 512 0) 0 512
      mka_meta_zero = Some (ret, ctx', out, n, meta')" "length out = length (replicate 512 (0::u8))"
      "ret = MACSEC_ERR_OK \<longrightarrow> n \<le> 210" "ret \<noteq> MACSEC_ERR_OK \<longrightarrow> n = 0" by blast
  then have "length out = 512 \<and> n \<le> 210" by (cases "ret = MACSEC_ERR_OK") simp_all
  with r(1) show ?thesis by blast
qed

text \<open>
  C11. What one participant builds the other reads: with the same keys and a different
  MAC address, SCI and MI, the receiver accepts the ICV of the built frame, and the Basic Parameter
  Set that it parses holds the sender's identity, message number, priority and flags.
\<close>

theorem mkpdu_exchange:
  assumes a: "mka_inv a" and b: "mka_inv b" and keys: "mc_keys (mk_crypto b) = mc_keys (mk_crypto a)"
    and other: "mk_local_mac a \<noteq> mk_local_mac b" "mk_local_sci a \<noteq> mk_local_sci b" "mk_local_mi a \<noteq> mk_local_mi b"
    and rnd: "length (rnd 16) = 16" and room: "max_len \<le> length frame"
    and build: "macsec_mka_build_tx_frame rnd a frame frame_len max_len meta = Some (MACSEC_ERR_OK, a', out, n, meta')"
  shows "\<exists>basic b'. mka_input_authenticate b (take n out) = Some (Inr basic, b') \<and>
    mb_src_mac basic = mk_local_mac a' \<and> mb_sci basic = mk_local_sci a' \<and> mb_actor_mi basic = mk_local_mi a' \<and>
    mb_actor_mn basic = mt_message_number meta' \<and> mb_actor_mn basic = mk_local_mn a' \<and>
    mb_key_server_priority basic = mk_key_server_priority a' \<and>
    mb_key_server basic = mk_local_key_server a' \<and> mb_macsec_desired basic = mk_macsec_desired a' \<and>
    mka_basic_ok (take n out) basic"
proof -
  let ?d = "snd (mka_tx_prepare rnd a)"
  have d: "mka_inv ?d" by (rule tx_prepare_inv [where rnd = rnd, OF a rnd])
  have keep: "mk_local_mac ?d = mk_local_mac a" "mk_local_sci ?d = mk_local_sci a" "mk_local_mi ?d = mk_local_mi a"
      "mk_crypto ?d = mk_crypto a"
    by (simp_all add: mka_tx_prepare_def macsec_mka_key_server_ensure_sak_def Let_def mka_step_simps)
  show ?thesis
  proof (cases rule: build_tx_frame_spec [where rnd = rnd, OF a rnd room, of frame_len meta, case_names idle no_sak too_long built])
    case (built c)
    with build have r: "take n out = mka_tx_frame ?d" "a' = ?d\<lparr>mk_crypto := c\<rparr>" "meta' = mka_tx_meta ?d"
      using length_tx_frame [OF d] by auto
    show ?thesis
    proof (rule tx_frame_authenticates [OF d b], goal_cases)
      case (5 basic work c)
      then show ?case unfolding r(1) by (auto simp: r(2,3) mka_tx_meta_def)
    qed (use keys other keep in simp_all)
  qed (use build in auto)
qed

text \<open>When a transmission is scheduled and the SAK to distribute can be had, a frame is built.\<close>

lemma build_succeeds:
  fixes ctx :: macsec_mka_ctx and rnd :: "nat \<Rightarrow> bytes" and frame :: bytes and d :: macsec_mka_ctx
  assumes inv: "mka_inv ctx" and rnd: "length (rnd 16) = 16" and room: "max_len \<le> length frame" "210 \<le> max_len"
    and reasons: "mk_tx_reasons ctx \<noteq> MACSEC_MKA_TX_REASON_NONE"
    and sak: "mk_local_key_server ctx \<Longrightarrow> mp_live (mk_peer ctx) \<Longrightarrow>
      ms_lifecycle_state (mk_latest_sak ctx) \<noteq> MACSEC_MKA_SAK_STATE_NONE \<Longrightarrow>
      ms_origin (mk_latest_sak ctx) = MACSEC_MKA_SAK_ORIGIN_LOCAL_KEY_SERVER"
  defines "d \<equiv> snd (mka_tx_prepare rnd ctx)"
  obtains c out n where "macsec_mka_build_tx_frame rnd ctx frame frame_len max_len meta =
      Some (MACSEC_ERR_OK, d\<lparr>mk_crypto := c\<rparr>, out, n, mka_tx_meta d)" "take n out = mka_tx_frame d"
    "mka_inv d" "mka_inv (d\<lparr>mk_crypto := c\<rparr>)" "mc_keys c = mc_keys (mk_crypto ctx)" "mc_psk c = mc_psk (mk_crypto ctx)"
    "n \<le> 210"
proof -
  have d: "mka_inv d" unfolding d_def by (rule tx_prepare_inv [where rnd = rnd, OF inv rnd])
  note len = length_tx_frame [OF d] mka_eapol_len_bounds [OF d]
  have valid: "mp_live (mk_peer ctx) \<Longrightarrow> mp_valid (mk_peer ctx)"
    using inv by (auto simp: mka_inv_def mka_state_ok_def split: macsec_mka_state.splits)
  have prep: "fst (mka_tx_prepare rnd ctx) = MACSEC_ERR_OK"
    using sak valid by (auto simp: mka_tx_prepare_def ensure_sak_spec [where rnd = rnd, OF inv rnd])
  show thesis
  proof (cases rule: build_tx_frame_spec [where rnd = rnd, OF inv rnd room(1), of frame_len meta, case_names idle no_sak too_long built])
    case (built c)
    show thesis
      by (rule that [OF built(4) [folded d_def] _ d built(5) [folded d_def] built(6,7)]) (use len in \<open>simp_all add: d_def\<close>)
  qed (use reasons prep room len in \<open>auto simp: d_def\<close>)
qed

lemma sample_builds:
  obtains c out n where "macsec_mka_build_tx_frame (\<lambda>n. replicate n 7) (sample_linked i j live) (replicate 512 0) 0 512 mka_meta_zero =
      Some (MACSEC_ERR_OK, (snd (mka_tx_prepare (\<lambda>n. replicate n 7) (sample_linked i j live)))\<lparr>mk_crypto := c\<rparr>, out, n,
        mka_tx_meta (snd (mka_tx_prepare (\<lambda>n. replicate n 7) (sample_linked i j live))))"
proof -
  have l: "length ((\<lambda>n. replicate n (7::u8)) 16) = 16" "(512::nat) \<le> length (replicate 512 (0::u8))" "(210::nat) \<le> 512" by simp_all
  show thesis
    by (rule build_succeeds [where rnd = "\<lambda>n. replicate n 7", OF sample_linked_inv l, of i j live 0 mka_meta_zero])
       (use that in \<open>auto simp: sample_linked_fields mka_flags\<close>)
qed

theorem mkpdu_exchange_witness:
  "\<exists>a' out n meta' basic b'. macsec_mka_build_tx_frame (\<lambda>n. replicate n 7) (sample_linked 1 2 True) (replicate 512 0) 0 512
      mka_meta_zero = Some (MACSEC_ERR_OK, a', out, n, meta') \<and>
    mka_input_authenticate (sample_mka 2) (take n out) = Some (Inr basic, b') \<and> mb_actor_mi basic = mk_local_mi a'"
proof (rule sample_builds [of 1 2 True])
  fix c out n
  define d where "d = snd (mka_tx_prepare (\<lambda>n. replicate n 7) (sample_linked 1 2 True))"
  assume r: "macsec_mka_build_tx_frame (\<lambda>n. replicate n 7) (sample_linked 1 2 True) (replicate 512 0) 0 512 mka_meta_zero =
      Some (MACSEC_ERR_OK, (snd (mka_tx_prepare (\<lambda>n. replicate n 7) (sample_linked 1 2 True)))\<lparr>mk_crypto := c\<rparr>, out, n,
        mka_tx_meta (snd (mka_tx_prepare (\<lambda>n. replicate n 7) (sample_linked 1 2 True))))"
  have keys: "mc_keys (mk_crypto (sample_mka 2)) = mc_keys (mk_crypto (sample_linked 1 2 True))"
    by (simp add: sample_linked_fields sample_mka_keys [of 2 1])
  have rnd: "length ((\<lambda>n. replicate n (7::u8)) 16) = 16" and room: "(512::nat) \<le> length (replicate 512 (0::u8))" by simp_all
  have other: "mk_local_mac (sample_linked 1 2 True) \<noteq> mk_local_mac (sample_mka 2)"
      "mk_local_sci (sample_linked 1 2 True) \<noteq> mk_local_sci (sample_mka 2)"
      "mk_local_mi (sample_linked 1 2 True) \<noteq> mk_local_mi (sample_mka 2)"
    by (simp_all add: sample_linked_fields sample_mka_fields)
  from mkpdu_exchange [where rnd = "\<lambda>n. replicate n 7", OF sample_linked_inv sample_mka_inv keys other rnd room r] r show ?thesis
    by blast
qed

subsection \<open>Distribution of a SAK\<close>

text \<open>
  C10. A Key Server with a live peer delivers its SAK: it builds a frame, and at a
  participant that has no SAK yet this frame leaves exactly that key, with its length, association
  number and key number, as a candidate for installation, and raises the event for it. For this the
  priority of the receiver must not be the better one.
\<close>

theorem sak_distribution:
  assumes a: "mka_inv a" and b: "mka_inv b" and keys: "mc_keys (mk_crypto b) = mc_keys (mk_crypto a)"
    and other: "mk_local_mac a \<noteq> mk_local_mac b" "mk_local_sci a \<noteq> mk_local_sci b" "mk_local_mi a \<noteq> mk_local_mi b"
    and prio: "mk_key_server_priority a \<le> mk_key_server_priority b"
    and server: "mk_local_key_server a" "mp_live (mk_peer a)" "mk_tx_reasons a \<noteq> MACSEC_MKA_TX_REASON_NONE"
    and own: "ms_lifecycle_state (mk_latest_sak a) \<noteq> MACSEC_MKA_SAK_STATE_NONE \<Longrightarrow>
      ms_origin (mk_latest_sak a) = MACSEC_MKA_SAK_ORIGIN_LOCAL_KEY_SERVER \<and> \<not> ms_peer_rx_confirmed (mk_latest_sak a)"
    and none: "ms_lifecycle_state (mk_latest_sak b) = MACSEC_MKA_SAK_STATE_NONE"
    and rnd: "length (rnd 16) = 16" and room: "max_len \<le> length frame" "210 \<le> max_len"
  shows "\<exists>a' out n meta' b'. macsec_mka_build_tx_frame rnd a frame frame_len max_len meta =
      Some (MACSEC_ERR_OK, a', out, n, meta') \<and>
    (\<forall>rnd'. macsec_mka_input rnd' b (take n out) now = Some (MACSEC_ERR_OK, b')) \<and>
    (let sak = mk_latest_sak a'; got = mk_latest_sak b' in
       ms_lifecycle_state got = MACSEC_MKA_SAK_STATE_CANDIDATE \<and>
       ms_origin got = MACSEC_MKA_SAK_ORIGIN_REMOTE_KEY_SERVER \<and> ms_sak_len got = ms_sak_len sak \<and>
       take (ms_sak_len sak) (ms_sak got) = take (ms_sak_len sak) (ms_sak sak) \<and>
       ms_an got = ms_an sak \<and> ms_key_number got = ms_key_number sak) \<and>
    mk_pending_events b' AND MACSEC_MKA_EVENT_SAK_AVAILABLE \<noteq> 0 \<and> \<not> mk_local_key_server b'"
proof -
  define d where "d = snd (mka_tx_prepare rnd a)"
  have valid: "mp_valid (mk_peer a)" using a server(2) by (auto simp: mka_inv_def mka_state_ok_def split: macsec_mka_state.splits)
  have old: "mka_latest_ok (mk_latest_sak a)" using a by (simp add: mka_inv_def)
  have d: "d = (if ms_lifecycle_state (mk_latest_sak a) = MACSEC_MKA_SAK_STATE_NONE
      then macsec_mka_schedule_tx (macsec_mka_raise_events (a\<lparr>mk_latest_sak := mka_new_sak (rnd 16) a\<rparr>)
             MACSEC_MKA_EVENT_TX_DISTRIBUTE_SAK) MACSEC_MKA_TX_REASON_DISTRIBUTE_SAK else a)"
    using server valid by (simp add: d_def mka_tx_prepare_def ensure_sak_spec [where rnd = rnd, OF a rnd])
  have keep: "mk_local_mac d = mk_local_mac a" "mk_local_sci d = mk_local_sci a" "mk_local_mi d = mk_local_mi a"
      "mk_crypto d = mk_crypto a" "mk_key_server_priority d = mk_key_server_priority a" "mk_peer d = mk_peer a"
      "mk_local_key_server d = mk_local_key_server a"
    by (simp_all add: d mka_step_simps)
  have dist: "mka_include_distributed_sak d"
    using server valid own old unfolding mka_include_distributed_sak_def keep
    by (cases "ms_lifecycle_state (mk_latest_sak a)")
       (auto simp: d mka_step_simps mka_new_sak_def mka_sak_distributable_def mka_latest_ok_def)
  show ?thesis
  proof (rule build_succeeds [where rnd = rnd, OF a rnd room server(3), of frame_len meta, folded d_def], goal_cases)
    case (2 c out n)
    have ok: "ms_sak_len (mk_latest_sak d) \<le> length (ms_sak (mk_latest_sak d))" 
      using 2(3) dist by (auto simp: mka_inv_def mka_latest_ok_def mka_sak_ok_def mka_include_distributed_sak_def mka_sak_distributable_def)
    show ?case
    proof (rule input_distribution [where now = now, OF 2(3) b], goal_cases)
      case (8 b')
      note build = 2(1,2)
      have "macsec_mka_input rnd' b (take n out) now = Some (MACSEC_ERR_OK, b')" for rnd'
        unfolding build(2) by (rule 8(1))
      with build(1) 8(3,6,10) ok show ?case
        by (intro exI [of _ "d\<lparr>mk_crypto := c\<rparr>"] exI [of _ out] exI [of _ n] exI [of _ "mka_tx_meta d"] exI [of _ b'])
           (simp add: mka_received_sak_def)
    qed (use keys other prio none dist keep in simp_all)
  qed (use own in simp)
qed

theorem sak_distribution_witness:
  "\<exists>a' out n meta' b'. macsec_mka_build_tx_frame (\<lambda>n. replicate n 7) (sample_linked 1 2 True) (replicate 512 0) 0 512
      mka_meta_zero = Some (MACSEC_ERR_OK, a', out, n, meta') \<and>
    macsec_mka_input (\<lambda>n. []) (sample_mka 2) (take n out) 5 = Some (MACSEC_ERR_OK, b') \<and>
    ms_an (mk_latest_sak b') = ms_an (mk_latest_sak a')"
proof -
  have keys: "mc_keys (mk_crypto (sample_mka 2)) = mc_keys (mk_crypto (sample_linked 1 2 True))"
    by (simp add: sample_linked_fields sample_mka_keys [of 2 1])
  have h: "length ((\<lambda>n. replicate n (7::u8)) 16) = 16" "(512::nat) \<le> length (replicate 512 (0::u8))" "(210::nat) \<le> 512"
      "mk_local_mac (sample_linked 1 2 True) \<noteq> mk_local_mac (sample_mka 2)"
      "mk_local_sci (sample_linked 1 2 True) \<noteq> mk_local_sci (sample_mka 2)"
      "mk_local_mi (sample_linked 1 2 True) \<noteq> mk_local_mi (sample_mka 2)"
      "mk_key_server_priority (sample_linked 1 2 True) \<le> mk_key_server_priority (sample_mka 2)"
      "mk_local_key_server (sample_linked 1 2 True)" "mp_live (mk_peer (sample_linked 1 2 True))"
      "mk_tx_reasons (sample_linked 1 2 True) \<noteq> MACSEC_MKA_TX_REASON_NONE"
      "ms_lifecycle_state (mk_latest_sak (sample_linked 1 2 True)) \<noteq> MACSEC_MKA_SAK_STATE_NONE \<Longrightarrow>
        ms_origin (mk_latest_sak (sample_linked 1 2 True)) = MACSEC_MKA_SAK_ORIGIN_LOCAL_KEY_SERVER \<and>
        \<not> ms_peer_rx_confirmed (mk_latest_sak (sample_linked 1 2 True))"
      "ms_lifecycle_state (mk_latest_sak (sample_mka 2)) = MACSEC_MKA_SAK_STATE_NONE"
    by (simp_all add: sample_linked_fields sample_mka_fields mka_flags word_le_nat_alt)
  from sak_distribution [where rnd = "\<lambda>n. replicate n 7", OF sample_linked_inv sample_mka_inv keys h(4-12) h(1-3), of 0 mka_meta_zero 5]
  show ?thesis unfolding Let_def by blast
qed

subsection \<open>Election\<close>

text \<open>
  C24. Two participants that know each other elect the one with the lower priority
  value. With equal values neither is elected: \<open>macsec_compare\<close> yields 0 or 1, so the comparison of
  the SCIs that is to break the tie is never below 0, and no SAK is generated on either side.
\<close>

theorem key_server_election:
  assumes "mp_valid (mk_peer a)" "mp_key_server_priority (mk_peer a) = mk_key_server_priority b"
    and "mp_valid (mk_peer b)" "mp_key_server_priority (mk_peer b) = mk_key_server_priority a"
  shows "(macsec_mka_local_wins_key_server a \<longleftrightarrow> mk_key_server_priority a < mk_key_server_priority b) \<and>
    (macsec_mka_local_wins_key_server b \<longleftrightarrow> mk_key_server_priority b < mk_key_server_priority a) \<and>
    (mk_key_server_priority a = mk_key_server_priority b \<longrightarrow>
       \<not> macsec_mka_local_wins_key_server a \<and> \<not> macsec_mka_local_wins_key_server b)"
  using election_valid_peer [OF assms(1)] election_valid_peer [OF assms(3)] assms(2,4) by simp

theorem key_server_election_witness:
  "macsec_mka_local_wins_key_server (sample_linked 1 2 True) \<and> \<not> macsec_mka_local_wins_key_server (sample_linked 2 1 True) \<and>
   \<not> macsec_mka_local_wins_key_server (sample_linked 3 3 True)"
  using key_server_election [of "sample_linked 1 2 True" "sample_linked 2 1 True"]
    key_server_election [of "sample_linked 3 3 True" "sample_linked 3 3 True"]
  by (simp add: sample_linked_fields word_less_nat_alt)

subsection \<open>Short connectivity association names\<close>

text \<open>
  C37. With a CKN of one to three bytes two participants that are not live stay so
  whatever they send each other: a frame that lists the receiver as its peer and holds nothing else is
  shorter than 90 bytes, and the search for the peer list returns at once on such a frame, so the
  receiver takes itself as not listed.
\<close>

theorem short_ckn_never_live:
  assumes a: "mka_inv a" and b: "mka_inv b" and keys: "mc_keys (mk_crypto b) = mc_keys (mk_crypto a)"
    and other: "mk_local_mac a \<noteq> mk_local_mac b" "mk_local_sci a \<noteq> mk_local_sci b" "mk_local_mi a \<noteq> mk_local_mi b"
    and short: "psk_ckn_len (mc_psk (mk_crypto a)) < 4"
    and lists: "mp_valid (mk_peer a)" "mp_mi (mk_peer a) = mk_local_mi b" "\<not> mp_live (mk_peer a)"
    and none: "ms_lifecycle_state (mk_latest_sak a) = MACSEC_MKA_SAK_STATE_NONE"
      "ms_lifecycle_state (mk_old_sak a) = MACSEC_MKA_SAK_STATE_NONE"
      "ms_lifecycle_state (mk_latest_sak b) = MACSEC_MKA_SAK_STATE_NONE"
    and silent: "\<not> mp_live (mk_peer b)"
    and rnd: "length (rnd 16) = 16" and room: "max_len \<le> length frame"
    and build: "macsec_mka_build_tx_frame rnd a frame frame_len max_len meta = Some (MACSEC_ERR_OK, a', out, n, meta')"
  shows "n < 90 \<and> mt_contains_peer_list meta' \<and> (\<exists>b'. (\<forall>rnd'. macsec_mka_input rnd' b (take n out) now = Some (MACSEC_ERR_OK, b')) \<and>
    mp_valid (mk_peer b') \<and> mp_mi (mk_peer b') = mk_local_mi a \<and> \<not> mp_live (mk_peer b'))"
proof -
  have prep: "mka_tx_prepare rnd a = (MACSEC_ERR_OK, a)" using lists(3) by (simp add: mka_tx_prepare_def)
  have len: "18 + mka_eapol_len a < 90"
    using short none lists mka_inv_lengths(4) [OF a]
    by (simp add: mka_eapol_len_def mka_params_def mka_include_distributed_sak_def mka_include_sak_use_def
        mka_sak_distributable_def word_less_nat_alt)
  have out: "take n out = mka_tx_frame a" "n = 18 + mka_eapol_len a" "meta' = mka_tx_meta a"
    by (cases rule: build_tx_frame_spec [where rnd = rnd, OF a rnd room, of frame_len meta, case_names idle no_sak too_long built];
        use build prep length_tx_frame [OF a] in auto)+
  have no: "macsec_mka_frame_contains_peer_entry (mka_tx_frame a) (mk_local_mi b) = Some (False, 0, 0)"
      "mka_param_find (mka_tx_frame a) w = Some (Inl MACSEC_ERR_NOT_READY)" for w
    using len length_tx_frame [OF a] by (simp_all add: macsec_mka_frame_contains_peer_entry_def mka_param_find_def mka_scan_end_def)
  have parse: "\<exists>ret aes i. ret \<in> {MACSEC_ERR_OK, MACSEC_ERR_NOT_READY} \<and>
      macsec_mka_parse_distributed_sak c1 (mka_tx_frame a) = Some (ret, macsec_mka_raise_events
        (c1\<lparr>mk_crypto := (mk_crypto c1)\<lparr>mc_aes_ctx := aes, mc_aes_initialized := i\<rparr>, mk_latest_sak := mk_latest_sak b\<rparr>) 0)"
    if "mk_latest_sak c1 = mk_latest_sak b" for c1
    by (rule exI [of _ MACSEC_ERR_NOT_READY], rule exI [of _ "mc_aes_ctx (mk_crypto c1)"],
        rule exI [of _ "mc_aes_initialized (mk_crypto c1)"])
       (simp add: macsec_mka_parse_distributed_sak_def no mka_step_simps that [symmetric])
  show ?thesis
  proof (rule input_core [where now = now and sak = "mk_latest_sak b" and ev = 0, OF a b keys other _ no(1)], goal_cases)
    case (1 c1)
    show ?case by (rule parse) (rule 1(2))
  next
    case (2 c)
    show ?case by (simp add: macsec_mka_parse_sak_use_def no)
  next
    case 3
    show ?case by (rule none(3))
  next
    case (4 b')
    from 4(14) [OF silent] 4(1,6,7) len lists(1) show ?case unfolding out(2,3) out(1) [unfolded out(2)] by (auto simp: mka_tx_meta_def)
  qed
qed

text \<open>Participant \<open>i\<close> with a CKN of three bytes that has heard of participant \<open>j\<close>.\<close>

definition sample_short :: "nat \<Rightarrow> nat \<Rightarrow> macsec_mka_ctx" where
  "sample_short i j = (snd (macsec_mka_init (\<lambda>n. replicate n (of_nat i)) (replicate 16 1) [2, 3, 4] (replicate 6 (of_nat i))
     1 (of_nat i) 0))\<lparr>mk_peer := mk_peer (sample_linked i j False), mk_state := MACSEC_MKA_STATE_PEER_DISCOVERED\<rparr>"

lemma sample_short_facts:
  "mka_inv (sample_short i j)" "mk_peer (sample_short i j) = mk_peer (sample_linked i j False)"
  "mk_latest_sak (sample_short i j) = macsec_mka_sak_clear" "mk_old_sak (sample_short i j) = macsec_mka_sak_clear"
  "mk_local_mac (sample_short i j) = replicate 6 (of_nat i)" "mk_local_sci (sample_short i j) = replicate 6 (of_nat i) @ [0, 1]"
  "mk_local_mi (sample_short i j) = replicate 12 (of_nat i)" "mk_tx_reasons (sample_short i j) = MACSEC_MKA_TX_REASON_INITIAL"
  "psk_ckn_len (mc_psk (mk_crypto (sample_short i j))) = 3"
  "mc_keys (mk_crypto (sample_short i j)) = mc_keys (snd (macsec_mka_crypto_derive_ick_kek
     (snd (macsec_mka_crypto_set_psk (snd macsec_mka_crypto_init) (replicate 16 1) [2, 3, 4]))))"
proof (atomize (full), rule mka_init_spec [where rnd = "\<lambda>n. replicate n (of_nat i)" and mac = "replicate 6 (of_nat i)"
        and cak = "replicate 16 1" and ckn = "[2, 3, 4]" and port_id = 1 and prio = "of_nat i" and interval = 0], goal_cases)
  case (6 c)
  note init = 6(1)
  have rnd: "length ((\<lambda>n. replicate n (of_nat i :: u8)) 12) = 12" and mac: "length (replicate 6 (of_nat i :: u8)) = 6" by simp_all
  have inv: "mka_inv (sample_short i j)"
    using mka_init_inv [where rnd = "\<lambda>n. replicate n (of_nat i)", OF init mac rnd] sample_linked_inv [of i j False]
    by (simp add: sample_short_def init) (simp add: sample_linked_def mka_inv_def mka_arrays_ok_def mka_state_ok_def)
  have be: "macsec_wr_be16 1 = [0, 1]" by (simp add: macsec_wr_be16_def)
  have "mk_latest_sak mka_ctx_zero = macsec_mka_sak_clear" "mk_old_sak mka_ctx_zero = macsec_mka_sak_clear"
    by (simp_all add: mka_ctx_zero_def)
  moreover have "psk_ckn_len (mc_psk (mk_crypto (sample_short i j))) = 3"
  proof -
    have "length (mka_ckn (sample_short i j)) = 3" using 6(4) by (simp add: sample_short_def init mka_ckn_def)
    then show ?thesis using length_ckn [OF inv] by (simp add: word_unat_eq_iff)
  qed
  ultimately show ?case
    using inv 6(3) by (simp add: sample_short_def init be)
qed simp_all

theorem short_ckn_never_live_witness:
  "\<exists>a' out n meta' b'. macsec_mka_build_tx_frame (\<lambda>n. replicate n 7) (sample_short 1 2) (replicate 512 0) 0 512 mka_meta_zero =
      Some (MACSEC_ERR_OK, a', out, n, meta') \<and> n < 90 \<and> mt_contains_peer_list meta' \<and>
    macsec_mka_input (\<lambda>n. []) (sample_short 2 1) (take n out) 5 = Some (MACSEC_ERR_OK, b') \<and> \<not> mp_live (mk_peer b')"
proof -
  note f = sample_short_facts sample_linked_fields
  have h: "length ((\<lambda>n. replicate n (7::u8)) 16) = 16" "(512::nat) \<le> length (replicate 512 (0::u8))" "(210::nat) \<le> 512"
      "mk_tx_reasons (sample_short 1 2) \<noteq> MACSEC_MKA_TX_REASON_NONE"
    by (simp_all add: f mka_flags)
  obtain a' out n meta' where build: "macsec_mka_build_tx_frame (\<lambda>n. replicate n 7) (sample_short 1 2) (replicate 512 0) 0 512
      mka_meta_zero = Some (MACSEC_ERR_OK, a', out, n, meta')"
    by (rule build_succeeds [where rnd = "\<lambda>n. replicate n 7" and frame_len = 0 and meta = mka_meta_zero, OF f(1) h])
       (use that in \<open>auto simp: f\<close>)
  have g: "mc_keys (mk_crypto (sample_short 2 1)) = mc_keys (mk_crypto (sample_short 1 2))"
      "mk_local_mac (sample_short 1 2) \<noteq> mk_local_mac (sample_short 2 1)"
      "mk_local_sci (sample_short 1 2) \<noteq> mk_local_sci (sample_short 2 1)"
      "mk_local_mi (sample_short 1 2) \<noteq> mk_local_mi (sample_short 2 1)"
      "psk_ckn_len (mc_psk (mk_crypto (sample_short 1 2))) < 4"
      "mp_valid (mk_peer (sample_short 1 2))" "mp_mi (mk_peer (sample_short 1 2)) = mk_local_mi (sample_short 2 1)"
      "\<not> mp_live (mk_peer (sample_short 1 2))"
      "ms_lifecycle_state (mk_latest_sak (sample_short 1 2)) = MACSEC_MKA_SAK_STATE_NONE"
      "ms_lifecycle_state (mk_old_sak (sample_short 1 2)) = MACSEC_MKA_SAK_STATE_NONE"
      "ms_lifecycle_state (mk_latest_sak (sample_short 2 1)) = MACSEC_MKA_SAK_STATE_NONE"
      "\<not> mp_live (mk_peer (sample_short 2 1))"
    by (simp_all add: f)
  from short_ckn_never_live [where rnd = "\<lambda>n. replicate n 7", OF f(1) f(1) g h(1,2) build, of 5] build show ?thesis by blast
qed

subsection \<open>Rekeying\<close>

text \<open>
  C12. While a Key Server replaces its SAK, the new one never has the association number
  of the one being retired: in every reachable context in which both slots hold SAKs of the local Key
  Server, the latest has the next association number modulo 4. Receivers can therefore keep both
  keys installed at once.
\<close>

theorem rekey_next_an:
  assumes reach: "mka_reachable ctx"
    and both: "ms_origin (mk_latest_sak ctx) = MACSEC_MKA_SAK_ORIGIN_LOCAL_KEY_SERVER"
      "ms_origin (mk_old_sak ctx) = MACSEC_MKA_SAK_ORIGIN_LOCAL_KEY_SERVER"
  shows "ms_an (mk_latest_sak ctx) = (ms_an (mk_old_sak ctx) + 1) AND 3 \<and> ms_an (mk_latest_sak ctx) \<noteq> ms_an (mk_old_sak ctx)"
proof -
  define l o' n where "l = ms_an (mk_latest_sak ctx)" and "o' = ms_an (mk_old_sak ctx)" and "n = mk_key_server_next_an ctx"
  have inv: "mka_inv ctx" by (rule mka.reach_inv [OF reach])
  then have ok: "mka_an_ok (mk_latest_sak ctx) (mk_old_sak ctx) n" "mka_sak_ok (mk_latest_sak ctx)" "mka_sak_ok (mk_old_sak ctx)"
    by (auto simp: mka_inv_def mka_latest_ok_def mka_old_ok_def n_def)
  with both have lt: "l < 4" "o' < 4"
    by (auto simp: mka_sak_ok_def l_def o'_def split: if_splits)
  have add: "unat ((x + y) AND 3) = (unat x + unat y) mod 4" for x y :: u8
    by (simp add: mka_an_mask unat_word_ariths mod_mod_cancel)
  have "unat l = (unat o' + 1) mod 4"
  proof (cases "mka_undistributed (mk_latest_sak ctx)")
    case True
    with ok both have "n = l AND 3" "n = (o' + 1) AND 3" by (auto simp: mka_an_ok_def l_def o'_def)
    then show ?thesis using add [of o' 1] an_id [OF lt(1)] by simp
  next
    case False
    with ok both have "(l + 1) AND 3 = (o' + 2) AND 3" by (auto simp: mka_an_ok_def l_def o'_def)
    then have "(unat l + 1) mod 4 = (unat o' + 2) mod 4" using add [of l 1] add [of o' 2] by simp
    with lt show ?thesis unfolding word_less_nat_alt by simp presburger
  qed
  moreover have "(unat o' + 1) mod 4 \<noteq> unat o'" using lt by (simp add: word_less_nat_alt) presburger
  ultimately show ?thesis using add [of o' 1] unfolding l_def [symmetric] o'_def [symmetric] word_unat_eq_iff by simp
qed

text \<open>A reachable context with a SAK that replaces another.\<close>

lemma start_rekey_spec:
  assumes inv: "mka_inv ctx" and rnd: "length (rnd 16) = 16"
    and server: "mk_local_key_server ctx" "mp_live (mk_peer ctx)"
    and old: "ms_lifecycle_state (mk_old_sak ctx) = MACSEC_MKA_SAK_STATE_NONE"
  defines "sak \<equiv> mk_latest_sak ctx"
  shows "fst (macsec_mka_start_rekey rnd ctx) = MACSEC_ERR_OK"
    "mk_latest_sak (snd (macsec_mka_start_rekey rnd ctx)) = mka_new_sak (rnd 16) ctx"
    "mk_old_sak (snd (macsec_mka_start_rekey rnd ctx)) = (if mka_sak_installed sak then mka_retired sak else macsec_mka_sak_clear)"
    "mk_local_key_server (snd (macsec_mka_start_rekey rnd ctx))" "mp_live (mk_peer (snd (macsec_mka_start_rekey rnd ctx)))"
    "mk_local_mn (snd (macsec_mka_start_rekey rnd ctx)) = mk_local_mn ctx"
proof -
  define c where "c = (if ms_lifecycle_state sak = MACSEC_MKA_SAK_STATE_NONE then ctx
    else if mka_sak_installed sak then ctx\<lparr>mk_old_sak := mka_retired sak, mk_latest_sak := macsec_mka_sak_clear\<rparr>
    else ctx\<lparr>mk_latest_sak := macsec_mka_sak_clear\<rparr>)"
  have none: "ms_lifecycle_state sak = MACSEC_MKA_SAK_STATE_NONE \<Longrightarrow> \<not> mka_sak_installed sak"
      "mk_old_sak ctx = macsec_mka_sak_clear"
    using inv old by (auto simp: mka_inv_def mka_latest_ok_def mka_old_ok_def mka_sak_ok_def sak_def mka_sak_installed_def macsec_mka_sak_clear_def)
  have move: "(if ms_lifecycle_state sak \<noteq> MACSEC_MKA_SAK_STATE_NONE then macsec_mka_move_latest_to_old ctx
      else (MACSEC_ERR_OK, ctx)) = (MACSEC_ERR_OK, c)"
    using old by (simp add: move_latest_to_old_spec [OF inv] sak_def [symmetric] c_def)
  have c: "mka_inv c" using move_latest_to_old_inv [OF inv] inv move by (metis snd_conv)
  have f: "mk_local_key_server c" "mp_live (mk_peer c)" "ms_lifecycle_state (mk_latest_sak c) = MACSEC_MKA_SAK_STATE_NONE"
      "mk_old_sak c = (if mka_sak_installed sak then mka_retired sak else macsec_mka_sak_clear)"
      "mka_new_sak (rnd 16) c = mka_new_sak (rnd 16) ctx" "mk_local_mn c = mk_local_mn ctx"
    using server none by (auto simp: c_def sak_def mka_new_sak_def)
  moreover have "mp_valid (mk_peer c)" using c f(2) by (auto simp: mka_inv_def mka_state_ok_def split: macsec_mka_state.splits)
  ultimately have e: "(if mp_valid (mk_peer c) \<and> mp_live (mk_peer c) then macsec_mka_key_server_ensure_sak rnd c
      else (MACSEC_ERR_OK, c)) = (MACSEC_ERR_OK, c
        \<lparr>mk_latest_sak := mka_new_sak (rnd 16) ctx, mk_pending_events := mk_pending_events c OR MACSEC_MKA_EVENT_TX_DISTRIBUTE_SAK,
         mk_tx_reasons := mk_tx_reasons c OR MACSEC_MKA_TX_REASON_DISTRIBUTE_SAK\<rparr>)"
    by (simp add: ensure_sak_spec [where rnd = rnd, OF c rnd] mka_step_simps)
  note eq = macsec_mka_start_rekey_def Let_def sak_def [symmetric] move prod.case e
  show "fst (macsec_mka_start_rekey rnd ctx) = MACSEC_ERR_OK"
    "mk_latest_sak (snd (macsec_mka_start_rekey rnd ctx)) = mka_new_sak (rnd 16) ctx"
    "mk_old_sak (snd (macsec_mka_start_rekey rnd ctx)) = (if mka_sak_installed sak then mka_retired sak else macsec_mka_sak_clear)"
    "mk_local_key_server (snd (macsec_mka_start_rekey rnd ctx))" "mp_live (mk_peer (snd (macsec_mka_start_rekey rnd ctx)))"
    "mk_local_mn (snd (macsec_mka_start_rekey rnd ctx)) = mk_local_mn ctx"
    unfolding eq using server(1) old f by (simp_all add: mka_step_simps)
qed

lemma mka_calls_step:
  "length (rnd 16) = 16 \<Longrightarrow> mka_step ctx (snd (macsec_mka_start_rekey rnd ctx))"
  "mka_step ctx (snd (macsec_mka_notify_tx_success ctx meta now))"
  "mka_step ctx (snd (snd (macsec_mka_take_sak_for_install ctx)))"
  "mka_step ctx (snd (macsec_mka_notify_sak_installed ctx kn an dirs pn))"
  using step_rekey [where rnd = rnd, of ctx "fst (macsec_mka_start_rekey rnd ctx)" "snd (macsec_mka_start_rekey rnd ctx)"]
    step_tx_success [of ctx meta now "fst (macsec_mka_notify_tx_success ctx meta now)" "snd (macsec_mka_notify_tx_success ctx meta now)"]
    step_take_sak [of ctx "fst (macsec_mka_take_sak_for_install ctx)" "fst (snd (macsec_mka_take_sak_for_install ctx))"
      "snd (snd (macsec_mka_take_sak_for_install ctx))"]
    step_installed [of ctx kn an dirs pn "fst (macsec_mka_notify_sak_installed ctx kn an dirs pn)"
      "snd (macsec_mka_notify_sak_installed ctx kn an dirs pn)"]
  by simp_all

lemma sample_rekeyed:
  obtains ctx where "mka_reachable ctx" "ms_origin (mk_latest_sak ctx) = MACSEC_MKA_SAK_ORIGIN_LOCAL_KEY_SERVER"
    "ms_origin (mk_old_sak ctx) = MACSEC_MKA_SAK_ORIGIN_LOCAL_KEY_SERVER"
proof -
  let ?rnd = "\<lambda>n. replicate n (7::u8)"
  note rnd = length_replicate [of 16 "7::u8"]
  have keys: "mc_keys (mk_crypto (sample_mka 1)) = mc_keys (mk_crypto (sample_linked 2 1 False))"
    by (simp add: sample_linked_fields sample_mka_keys [of 2 1])
  obtain c1 where c1: "\<And>rnd. macsec_mka_input rnd (sample_mka 1) (mka_tx_frame (sample_linked 2 1 False)) 0 = Some (MACSEC_ERR_OK, c1)"
      "mka_inv c1" "mp_live (mk_peer c1)" "mk_local_key_server c1" "mk_latest_sak c1 = macsec_mka_sak_clear" "mk_old_sak c1 = macsec_mka_sak_clear"
  proof (rule input_hello [where now = 0, OF sample_linked_inv [of 2 1 False] sample_mka_inv [of 1] keys], goal_cases)
    case (9 b')
    then show ?case by (simp add: sample_linked_fields sample_mka_fields word_less_nat_alt)
  next
    case 8
    show ?case by (simp add: sample_linked_ckn)
  qed (simp_all add: sample_linked_fields sample_mka_fields)
  have r1: "mka_reachable c1"
    by (rule reach_step [OF sample_mka_reachable step_input [where rnd = ?rnd, OF _ c1(1)]]) simp
  define c2 where "c2 = snd (macsec_mka_start_rekey ?rnd c1)"
  have "ms_lifecycle_state (mk_old_sak c1) = MACSEC_MKA_SAK_STATE_NONE" by (simp add: c1(6))
  note c2 = start_rekey_spec [where rnd = ?rnd, OF c1(2) rnd c1(4,3) this, folded c2_def]
  have r2: "mka_reachable c2"
    unfolding c2_def by (rule reach_step [OF r1 mka_calls_step(1) [where rnd = ?rnd, OF rnd]])
  define meta where "meta = \<lparr>mt_message_number = mk_local_mn c2, mt_reasons = MACSEC_MKA_TX_REASON_REKEY,
     mt_contains_peer_list = True, mt_contains_distributed_sak = True, mt_contains_sak_use = False,
     mt_distributed_key_number = ms_key_number (mk_latest_sak c2), mt_distributed_an = ms_an (mk_latest_sak c2)\<rparr>"
  define c3 where "c3 = snd (macsec_mka_notify_tx_success c2 meta 1)"
  have c3: "ms_lifecycle_state (mk_latest_sak c3) = MACSEC_MKA_SAK_STATE_DISTRIBUTED"
      "ms_origin (mk_latest_sak c3) = MACSEC_MKA_SAK_ORIGIN_LOCAL_KEY_SERVER" "mk_old_sak c3 = macsec_mka_sak_clear"
      "mk_local_key_server c3" "mp_live (mk_peer c3)" "\<not> ms_tx_installed (mk_latest_sak c3)"
    using c2(2-5) unfolding c3_def
    by (auto simp: macsec_mka_notify_tx_success_def Let_def meta_def mka_flags mka_new_sak_def mka_sak_distributable_def
        mka_commit_distribution_def mka_step_simps c1(5) macsec_mka_sak_clear_def mka_sak_installed_def)
  have r3: "mka_reachable c3"
    unfolding c3_def by (rule reach_step [OF r2 mka_calls_step(2)])
  define c4 where "c4 = snd (snd (macsec_mka_take_sak_for_install c3))"
  have c4: "mk_latest_sak c4 = (mk_latest_sak c3)\<lparr>ms_lifecycle_state := MACSEC_MKA_SAK_STATE_INSTALL_PENDING\<rparr>"
      "mk_old_sak c4 = macsec_mka_sak_clear" "mk_local_key_server c4" "mp_live (mk_peer c4)"
    using c3 by (simp_all add: c4_def take_sak_spec [OF mka.reach_inv [OF r3]] mka_sak_available_def Let_def)
  have r4: "mka_reachable c4"
    unfolding c4_def by (rule reach_step [OF r3 mka_calls_step(3)])
  define sak where "sak = mk_latest_sak c4"
  define c5 where "c5 = snd (macsec_mka_notify_sak_installed c4 (ms_key_number sak) (ms_an sak) MACSEC_MKA_INSTALL_RX 1)"
  have rx: "MACSEC_MKA_INSTALL_RX \<noteq> 0" "MACSEC_MKA_INSTALL_RX AND NOT (MACSEC_MKA_INSTALL_RX OR MACSEC_MKA_INSTALL_TX) = 0"
      "MACSEC_MKA_INSTALL_RX AND MACSEC_MKA_INSTALL_TX = 0" "MACSEC_MKA_INSTALL_RX AND MACSEC_MKA_INSTALL_RX \<noteq> 0"
    by (simp_all add: MACSEC_MKA_INSTALL_RX_def MACSEC_MKA_INSTALL_TX_def)
  have c5: "ms_rx_installed (mk_latest_sak c5)" "ms_origin (mk_latest_sak c5) = MACSEC_MKA_SAK_ORIGIN_LOCAL_KEY_SERVER"
      "ms_lifecycle_state (mk_old_sak c5) = MACSEC_MKA_SAK_STATE_NONE" "mk_local_key_server c5" "mp_live (mk_peer c5)"
    using c3 c4 rx
    by (simp_all add: c5_def notify_sak_installed_spec sak_def Let_def mka_mark_installed_def mka_stop_old_tx_def)
  have r5: "mka_reachable c5"
    unfolding c5_def by (rule reach_step [OF r4 mka_calls_step(4)])
  note c6 = start_rekey_spec [where rnd = ?rnd, OF mka.reach_inv [OF r5] rnd c5(4,5,3)]
  show thesis
    by (rule that [OF reach_step [OF r5 mka_calls_step(1) [where rnd = ?rnd, OF rnd]]])
       (simp_all add: c6(2,3) c5(1,2) mka_sak_installed_def mka_retired_def mka_new_sak_def)
qed

theorem rekey_next_an_witness:
  "\<exists>ctx. mka_reachable ctx \<and> ms_an (mk_latest_sak ctx) \<noteq> ms_an (mk_old_sak ctx)"
  by (rule sample_rekeyed) (use rekey_next_an in blast)

subsection \<open>Timer\<close>

text \<open>
  C22. The timer never fails. A peer that was silent for three transmit intervals is
  dropped: the participant waits for a peer again, raises the event and schedules an MKPDU; with any
  other peer, and for the SAKs and the role in any case, nothing changes. Differences of times wrap at
  32 bits, and so does three times the interval.
\<close>

theorem mka_peer_timeout:
  fixes ctx :: macsec_mka_ctx and now :: u32
  assumes "mka_reachable ctx"
  defines "lost \<equiv> mp_valid (mk_peer ctx) \<and> mk_tx_interval_ms ctx * 3 \<le> now - mp_last_seen_ms (mk_peer ctx)"
  shows "\<exists>ctx'. macsec_mka_tick ctx now = (MACSEC_ERR_OK, ctx') \<and>
    mk_latest_sak ctx' = mk_latest_sak ctx \<and> mk_old_sak ctx' = mk_old_sak ctx \<and>
    mk_local_key_server ctx' = mk_local_key_server ctx \<and> mka_identity ctx' = mka_identity ctx \<and>
    (lost \<longrightarrow> \<not> mp_valid (mk_peer ctx') \<and> mk_state ctx' = MACSEC_MKA_STATE_WAIT_PEER \<and>
       mk_pending_events ctx' AND MACSEC_MKA_EVENT_PEER_LOST \<noteq> 0 \<and> mk_tx_reasons ctx' \<noteq> MACSEC_MKA_TX_REASON_NONE) \<and>
    (\<not> lost \<longrightarrow> mk_peer ctx' = mk_peer ctx \<and> mk_state ctx' = mk_state ctx)"
  using tick_spec [OF mka.reach_inv [OF assms(1)], of now] unfolding lost_def
  by (intro exI [of _ "snd (macsec_mka_tick ctx now)"]) (auto simp: prod_eq_iff mka_flags)

theorem mka_peer_timeout_witness:
  "\<exists>ctx'. macsec_mka_tick (sample_mka 3) 7 = (MACSEC_ERR_OK, ctx') \<and> mk_state ctx' = MACSEC_MKA_STATE_WAIT_PEER"
  using mka_peer_timeout [OF sample_mka_reachable, of 3 7]
  by (auto simp: sample_mka_fields mka_peer_zero_def)

subsection \<open>Progress\<close>

lemma sak_origin_cases:
  assumes "mka_inv ctx" "ms_lifecycle_state (mk_latest_sak ctx) \<noteq> MACSEC_MKA_SAK_STATE_NONE"
    "ms_origin (mk_latest_sak ctx) \<noteq> MACSEC_MKA_SAK_ORIGIN_REMOTE_KEY_SERVER"
  shows "ms_origin (mk_latest_sak ctx) = MACSEC_MKA_SAK_ORIGIN_LOCAL_KEY_SERVER"
  using assms by (cases "ms_origin (mk_latest_sak ctx)") (auto simp: mka_inv_def mka_latest_ok_def mka_sak_ok_def)

text \<open>
  C21. A participant keeps sending: once the transmit interval is over, the timer
  schedules an MKPDU, with a buffer of at least 210 bytes \<open>macsec_mka_build_tx_frame\<close> builds it, and
  after the report that it was sent nothing is scheduled and the message number is the next one,
  never 0. The one exception: a Key Server with a live peer that holds a SAK of another Key Server
  cannot build any frame; \<open>MACSEC_ERR_STATE\<close> is the result.
\<close>

theorem participant_speaks:
  assumes reach: "mka_reachable ctx" and reasons: "mka_reasons_ok (mk_tx_reasons ctx)"
    and due: "mk_last_tx_ms ctx = 0 \<or> mk_tx_interval_ms ctx \<le> now - mk_last_tx_ms ctx"
    and rnd: "length (rnd 16) = 16" and room: "max_len \<le> length frame" "210 \<le> max_len"
  shows "\<exists>ctx'. macsec_mka_tick ctx now = (MACSEC_ERR_OK, ctx') \<and>
    (if mk_local_key_server ctx' \<and> mp_live (mk_peer ctx') \<and>
        ms_origin (mk_latest_sak ctx') = MACSEC_MKA_SAK_ORIGIN_REMOTE_KEY_SERVER
     then macsec_mka_build_tx_frame rnd ctx' frame frame_len max_len meta =
            Some (MACSEC_ERR_STATE, ctx', frame, 0, mka_meta_zero)
     else \<exists>built out n meta' sent. macsec_mka_build_tx_frame rnd ctx' frame frame_len max_len meta =
            Some (MACSEC_ERR_OK, built, out, n, meta') \<and>
          macsec_mka_notify_tx_success built meta' now = (MACSEC_ERR_OK, sent) \<and>
          mk_tx_reasons sent = MACSEC_MKA_TX_REASON_NONE \<and>
          mk_local_mn sent = (if mk_local_mn ctx + 1 = 0 then 1 else mk_local_mn ctx + 1))"
proof -
  define ctx' where "ctx' = snd (macsec_mka_tick ctx now)"
  note tick = tick_spec [OF mka.reach_inv [OF reach], of now, folded ctx'_def]
  have scheduled: "mk_tx_reasons ctx' \<noteq> MACSEC_MKA_TX_REASON_NONE" using tick(6) due by (simp add: mka_flags)
  have valid: "mp_live (mk_peer ctx') \<Longrightarrow> mp_valid (mk_peer ctx')"
    using tick(2) by (auto simp: mka_inv_def mka_state_ok_def split: macsec_mka_state.splits)
  show ?thesis
  proof (intro exI [of _ ctx'] conjI, goal_cases)
    case 1
    show ?case using tick(1) by (simp add: prod_eq_iff ctx'_def)
  next
    case 2
    show ?case
    proof (split if_split, intro conjI impI)
      assume blocked: "mk_local_key_server ctx' \<and> mp_live (mk_peer ctx') \<and>
          ms_origin (mk_latest_sak ctx') = MACSEC_MKA_SAK_ORIGIN_REMOTE_KEY_SERVER"
      then have "ms_lifecycle_state (mk_latest_sak ctx') \<noteq> MACSEC_MKA_SAK_STATE_NONE"
        using tick(2) by (auto simp: mka_inv_def mka_latest_ok_def mka_sak_ok_def split: if_splits)
      with blocked valid have "mka_tx_prepare rnd ctx' = (MACSEC_ERR_STATE, ctx')"
        by (simp add: mka_tx_prepare_def ensure_sak_spec [where rnd = rnd, OF tick(2) rnd])
      then show "macsec_mka_build_tx_frame rnd ctx' frame frame_len max_len meta =
          Some (MACSEC_ERR_STATE, ctx', frame, 0, mka_meta_zero)"
        by (cases rule: build_tx_frame_spec [where rnd = rnd, OF tick(2) rnd room(1), of frame_len meta, case_names idle no_sak too_long built])
           (use scheduled in auto)
    next
      assume free: "\<not> (mk_local_key_server ctx' \<and> mp_live (mk_peer ctx') \<and>
          ms_origin (mk_latest_sak ctx') = MACSEC_MKA_SAK_ORIGIN_REMOTE_KEY_SERVER)"
      define d where "d = snd (mka_tx_prepare rnd ctx')"
      have d: "mk_tx_reasons d \<noteq> MACSEC_MKA_TX_REASON_NONE" "mka_reasons_ok (mk_tx_reasons d)" "mk_local_mn d = mk_local_mn ctx"
          "mk_crypto d = mk_crypto ctx'"
        using scheduled tick(11) tick(12) [OF reasons]
        by (auto simp: d_def mka_tx_prepare_def ensure_sak_spec [where rnd = rnd, OF tick(2) rnd] mka_step_simps reasons_ok_or
            mka_flags or_eq_0_iff) (simp_all add: mka_reasons_ok_def)
      show "\<exists>built out n meta' sent. macsec_mka_build_tx_frame rnd ctx' frame frame_len max_len meta =
            Some (MACSEC_ERR_OK, built, out, n, meta') \<and>
          macsec_mka_notify_tx_success built meta' now = (MACSEC_ERR_OK, sent) \<and>
          mk_tx_reasons sent = MACSEC_MKA_TX_REASON_NONE \<and>
          mk_local_mn sent = (if mk_local_mn ctx + 1 = 0 then 1 else mk_local_mn ctx + 1)"
      proof (rule build_succeeds [where rnd = rnd, OF tick(2) rnd room scheduled, of frame_len meta, folded d_def], goal_cases)
        case 1
        then show ?case using free sak_origin_cases [OF tick(2)] by blast
      next
        case (2 c out n)
        note built = 2
        show ?case
        proof (rule tx_committed [where now = now, OF built(4) d(1,2) built(5,6) [folded d(4)]], goal_cases)
          case (1 x)
          with built(1) d(3) show ?case by (auto simp: mka_flags)
        qed
      qed
    qed
  qed
qed

theorem participant_speaks_witness:
  "\<exists>ctx' built out n meta'. macsec_mka_tick (sample_mka 3) 7 = (MACSEC_ERR_OK, ctx') \<and>
     macsec_mka_build_tx_frame (\<lambda>n. replicate n 7) ctx' (replicate 512 0) 0 512 mka_meta_zero =
       Some (MACSEC_ERR_OK, built, out, n, meta')"
proof -
  have h: "length ((\<lambda>n. replicate n (7::u8)) 16) = 16" "(512::nat) \<le> length (replicate 512 (0::u8))" "(210::nat) \<le> 512" by simp_all
  have r: "mka_reasons_ok (mk_tx_reasons (sample_mka 3))" by (simp add: sample_mka_fields mka_reasons_ok_def mka_flags)
  have due: "mk_last_tx_ms (sample_mka 3) = 0 \<or> mk_tx_interval_ms (sample_mka 3) \<le> 7 - mk_last_tx_ms (sample_mka 3)"
    by (simp add: sample_mka_fields)
  have live: "\<not> mp_live (mk_peer ctx')" if "macsec_mka_tick (sample_mka 3) 7 = (MACSEC_ERR_OK, ctx')" for ctx'
    using tick_spec(3) [OF sample_mka_inv, of 3 7] that by (simp add: sample_mka_fields mka_peer_zero_def)
  show ?thesis
    using participant_speaks [where rnd = "\<lambda>n. replicate n 7", OF sample_mka_reachable r due h, of 0 mka_meta_zero] live
    by (auto split: if_splits)
qed

subsection \<open>Transactions\<close>

lemma tx_frame_crypto:
  assumes "mc_keys c = mc_keys (mk_crypto d)" "mc_psk c = mc_psk (mk_crypto d)"
  shows "mka_tx_frame (d\<lparr>mk_crypto := c\<rparr>) = mka_tx_frame d" "mka_tx_meta (d\<lparr>mk_crypto := c\<rparr>) = mka_tx_meta d"
proof -
  have inc: "mka_include_distributed_sak (d\<lparr>mk_crypto := c\<rparr>) = mka_include_distributed_sak d"
      "mka_include_sak_use (d\<lparr>mk_crypto := c\<rparr>) = mka_include_sak_use d"
    by (simp_all add: mka_include_distributed_sak_def mka_include_sak_use_def)
  have "mka_params (d\<lparr>mk_crypto := c\<rparr>) = mka_params d"
    by (simp add: mka_params_def inc mka_distributed_param_def mka_kek_cipher_def assms mka_sak_use_body_def)
  then show "mka_tx_frame (d\<lparr>mk_crypto := c\<rparr>) = mka_tx_frame d"
    by (simp add: mka_tx_frame_def mka_frame_body_def mka_header_def mka_basic_def mka_ckn_def mka_basic_flags_def
        mka_eapol_len_def mka_body_len_def mka_ick_cipher_def assms)
  show "mka_tx_meta (d\<lparr>mk_crypto := c\<rparr>) = mka_tx_meta d" by (simp add: mka_tx_meta_def inc)
qed

text \<open>
  C23. A transmission that is reported as failed is repeated byte for byte: the next
  frame that is built is the same one, with the same message number, SAK and metadata, whatever
  random bytes are at hand. A SAK is generated once for all attempts.
\<close>

theorem failed_tx_repeats:
  assumes inv: "mka_inv ctx" and rnd: "length (rnd 16) = 16" "length (rnd' 16) = 16"
    and room: "max_len \<le> length frame" "max_len' \<le> length frame'" "n \<le> max_len'"
    and build: "macsec_mka_build_tx_frame rnd ctx frame frame_len max_len meta = Some (MACSEC_ERR_OK, built, out, n, tx)"
  shows "\<exists>again out'. macsec_mka_build_tx_frame rnd' (macsec_mka_notify_tx_failure built tx) frame' frame_len' max_len' meta' =
      Some (MACSEC_ERR_OK, again, out', n, tx) \<and> take n out' = take n out \<and>
      mk_latest_sak again = mk_latest_sak built \<and> mk_local_mn again = mk_local_mn ctx"
proof -
  define d where "d = snd (mka_tx_prepare rnd ctx)"
  have d: "mka_inv d" unfolding d_def by (rule tx_prepare_inv [where rnd = rnd, OF inv rnd(1)])
  have keep: "mk_crypto d = mk_crypto ctx" "mk_local_mn d = mk_local_mn ctx"
    by (simp_all add: d_def mka_tx_prepare_def macsec_mka_key_server_ensure_sak_def Let_def mka_step_simps)
  obtain c where b: "built = d\<lparr>mk_crypto := c\<rparr>" "take n out = mka_tx_frame d" "n = 18 + mka_eapol_len d" "tx = mka_tx_meta d"
      "mc_keys c = mc_keys (mk_crypto d)" "mc_psk c = mc_psk (mk_crypto d)" "mka_inv built"
      "fst (mka_tx_prepare rnd ctx) = MACSEC_ERR_OK" "mk_tx_reasons ctx \<noteq> MACSEC_MKA_TX_REASON_NONE"
    by (cases rule: build_tx_frame_spec [where rnd = rnd, OF inv rnd(1) room(1), of frame_len meta, case_names idle no_sak too_long built])
       (use build length_tx_frame [OF d] keep that in \<open>auto simp: d_def\<close>)
  have fail: "macsec_mka_notify_tx_failure built tx = built"
    by (simp add: macsec_mka_notify_tx_failure_def b(1,4) mka_tx_meta_def)
  have reasons: "mk_tx_reasons built \<noteq> MACSEC_MKA_TX_REASON_NONE"
    using b(9) by (auto simp: b(1) d_def mka_tx_prepare_def ensure_sak_spec [where rnd = rnd, OF inv rnd(1)] mka_step_simps
        mka_flags or_eq_0_iff)
  have prep: "mka_tx_prepare rnd' built = (MACSEC_ERR_OK, built)"
    using b(8) unfolding b(1) d_def
    by (auto simp: mka_tx_prepare_def ensure_sak_spec [where rnd = rnd, OF inv rnd(1)] mka_step_simps mka_new_sak_def
        macsec_mka_key_server_ensure_sak_def split: if_splits)
  have same: "mka_tx_frame built = mka_tx_frame d" "mka_tx_meta built = mka_tx_meta d" "mk_local_mn built = mk_local_mn ctx"
    using tx_frame_crypto [OF b(5,6)] keep by (simp_all add: b(1))
  have len: "18 + mka_eapol_len built = n"
    using length_tx_frame [OF b(7)] length_tx_frame [OF d] by (simp add: same b(3))
  show ?thesis unfolding fail
    by (cases rule: build_tx_frame_spec [where rnd = rnd', OF b(7) rnd(2) room(2), of frame_len' meta', case_names idle no_sak too_long built])
       (use reasons prep room(3) len same b(2,4) length_tx_frame [OF b(7)] in auto)
qed

theorem failed_tx_repeats_witness:
  "\<exists>built out n tx again out'. macsec_mka_build_tx_frame (\<lambda>n. replicate n 7) (sample_linked 1 2 True) (replicate 512 0) 0 512 mka_meta_zero =
      Some (MACSEC_ERR_OK, built, out, n, tx) \<and>
    macsec_mka_build_tx_frame (\<lambda>n. replicate n 9) (macsec_mka_notify_tx_failure built tx) (replicate 300 1) 0 300 mka_meta_zero =
      Some (MACSEC_ERR_OK, again, out', n, tx) \<and> take n out' = take n out"
proof -
  have h: "length ((\<lambda>n. replicate n (7::u8)) 16) = 16" "length ((\<lambda>n. replicate n (9::u8)) 16) = 16"
      "(512::nat) \<le> length (replicate 512 (0::u8))" "(300::nat) \<le> length (replicate 300 (1::u8))" "(210::nat) \<le> 512" by simp_all
  show ?thesis
  proof (rule build_succeeds [where rnd = "\<lambda>n. replicate n 7" and frame_len = 0 and meta = mka_meta_zero, OF sample_linked_inv [of 1 2 True] h(1,3,5)],
      goal_cases)
    case (3 c out n)
    have "n \<le> 300" using 3(7) by simp
    from failed_tx_repeats [where rnd = "\<lambda>n. replicate n 7" and rnd' = "\<lambda>n. replicate n 9", OF sample_linked_inv h(1-4) this 3(1),
        of 0 mka_meta_zero] 3(1)
    show ?case by blast
  qed (simp_all add: sample_linked_fields mka_flags)
qed

end
