(* ===== verification/MkaKept.thy ===== *)
theory MkaKept
  imports MkaExchange
begin

text \<open>
  What no operation of the MKA participant changes: its identity, and, but for the report of an
  installation, the SAK that it takes as the one its data plane transmits with. The relation \<open>mka_kept\<close>
  holds between the contexts before and after every such operation.
\<close>

definition mka_sak_key :: "macsec_mka_sak \<Rightarrow> bytes \<times> nat \<times> u8" where
  "mka_sak_key sak = (ms_sak sak, ms_sak_len sak, ms_an sak)"

text \<open>The SAK reported as installed for transmission, of which there is at most one.\<close>

definition tx_reported :: "macsec_mka_ctx \<Rightarrow> (bytes \<times> nat \<times> u8) option" where
  "tx_reported ctx = (if ms_tx_installed (mk_latest_sak ctx) then Some (mka_sak_key (mk_latest_sak ctx))
     else if ms_tx_installed (mk_old_sak ctx) then Some (mka_sak_key (mk_old_sak ctx)) else None)"

definition tx_single :: "macsec_mka_ctx \<Rightarrow> bool" where
  "tx_single ctx \<longleftrightarrow> \<not> (ms_tx_installed (mk_latest_sak ctx) \<and> ms_tx_installed (mk_old_sak ctx))"

definition mka_kept :: "macsec_mka_ctx \<Rightarrow> macsec_mka_ctx \<Rightarrow> bool" where
  "mka_kept ctx ctx' \<longleftrightarrow> mka_identity ctx' = mka_identity ctx \<and>
     (tx_single ctx \<longrightarrow> tx_single ctx' \<and> tx_reported ctx' \<in> {tx_reported ctx, None})"

lemma kept_refl [simp]: "mka_kept ctx ctx"
  by (simp add: mka_kept_def)

lemma kept_trans [trans]: "mka_kept a b \<Longrightarrow> mka_kept b c \<Longrightarrow> mka_kept a c"
  by (auto simp: mka_kept_def)

lemma kept_same:
  "mka_identity ctx' = mka_identity ctx \<Longrightarrow> ms_tx_installed (mk_latest_sak ctx') = ms_tx_installed (mk_latest_sak ctx) \<Longrightarrow>
     mka_sak_key (mk_latest_sak ctx') = mka_sak_key (mk_latest_sak ctx) \<Longrightarrow> mk_old_sak ctx' = mk_old_sak ctx \<Longrightarrow> mka_kept ctx ctx'"
  by (simp add: mka_kept_def tx_single_def tx_reported_def)

text \<open>The latest SAK is replaced by one that is not installed.\<close>

lemma kept_moved:
  assumes "mka_identity ctx' = mka_identity ctx" "\<not> ms_tx_installed (mk_latest_sak ctx')" "mka_moved_old ctx (mk_old_sak ctx')"
    and inv: "mka_inv ctx"
  shows "mka_kept ctx ctx'"
proof -
  have "\<not> ms_tx_installed (mk_old_sak ctx)" if "ms_lifecycle_state (mk_old_sak ctx) = MACSEC_MKA_SAK_STATE_NONE"
    using inv that by (simp add: mka_inv_def mka_old_ok_def mka_sak_ok_def macsec_mka_sak_clear_def)
  with assms show ?thesis
    by (auto simp: mka_kept_def tx_single_def tx_reported_def mka_moved_old_def mka_sak_installed_def mka_retired_def
        mka_sak_key_def split: if_splits)
qed

lemma identity_calls:
  "mka_identity (macsec_mka_set_sak_state ctx slot s) = mka_identity ctx" "mka_identity (macsec_mka_set_state ctx q) = mka_identity ctx"
  "mka_identity (macsec_mka_raise_events ctx e) = mka_identity ctx" "mka_identity (macsec_mka_schedule_tx ctx r) = mka_identity ctx"
  "mka_identity (ctx\<lparr>mk_key_server_next_key_number := n\<rparr>) = mka_identity ctx"
  "mka_identity (ctx\<lparr>mk_key_server_next_an := a\<rparr>) = mka_identity ctx"
  by (cases slot; simp add: macsec_mka_set_sak_state_def macsec_mka_set_state_def macsec_mka_raise_events_def Let_def
      macsec_mka_schedule_tx_def mka_identity_def)+

lemma saks_calls:
  "ms_tx_installed (mk_latest_sak (macsec_mka_set_sak_state ctx LATEST_SAK s)) = ms_tx_installed (mk_latest_sak ctx)"
  "mka_sak_key (mk_latest_sak (macsec_mka_set_sak_state ctx LATEST_SAK s)) = mka_sak_key (mk_latest_sak ctx)"
  "mk_old_sak (macsec_mka_set_sak_state ctx LATEST_SAK s) = mk_old_sak ctx"
  "mk_latest_sak (macsec_mka_set_state ctx q) = mk_latest_sak ctx" "mk_old_sak (macsec_mka_set_state ctx q) = mk_old_sak ctx"
  "mk_latest_sak (macsec_mka_raise_events ctx e) = mk_latest_sak ctx" "mk_old_sak (macsec_mka_raise_events ctx e) = mk_old_sak ctx"
  "mk_latest_sak (macsec_mka_schedule_tx ctx r) = mk_latest_sak ctx" "mk_old_sak (macsec_mka_schedule_tx ctx r) = mk_old_sak ctx"
  by (simp_all add: macsec_mka_set_sak_state_def macsec_mka_set_state_def macsec_mka_raise_events_def Let_def
      macsec_mka_schedule_tx_def mka_sak_key_def)

lemma kept_move_latest: "mka_inv ctx \<Longrightarrow> mka_kept ctx (snd (macsec_mka_move_latest_to_old ctx))"
  by (auto simp: move_latest_to_old_spec Let_def intro!: kept_moved) 
     (simp_all add: mka_identity_def mka_moved_old_def)

lemma kept_ensure_sak:
  assumes inv: "mka_inv ctx" and rnd: "length (rnd 16) = 16"
  shows "mka_kept ctx (snd (macsec_mka_key_server_ensure_sak rnd ctx))"
proof (cases "ms_lifecycle_state (mk_latest_sak ctx) = MACSEC_MKA_SAK_STATE_NONE")
  case True
  then have "mk_latest_sak ctx = macsec_mka_sak_clear" using inv by (simp add: mka_inv_def mka_latest_ok_def mka_sak_ok_def)
  then have "mka_moved_old ctx (mk_old_sak ctx)" by (simp add: mka_moved_old_def mka_sak_installed_def macsec_mka_sak_clear_def)
  with True inv show ?thesis
    by (simp add: ensure_sak_spec [where rnd = rnd, OF inv rnd])
       (auto intro!: kept_moved simp: mka_step_simps mka_identity_def mka_new_sak_def)
qed (simp add: ensure_sak_spec [where rnd = rnd, OF inv rnd])

lemma kept_flags [simp]:
  "mka_kept ctx (macsec_mka_raise_events c e) = mka_kept ctx c"
  "mka_kept ctx (macsec_mka_schedule_tx c r) = mka_kept ctx c"
  by (simp_all add: mka_kept_def tx_single_def tx_reported_def mka_step_simps mka_identity_def)

lemma kept_start_rekey:
  assumes inv: "mka_inv ctx" and rnd: "length (rnd 16) = 16"
  shows "mka_kept ctx (snd (macsec_mka_start_rekey rnd ctx))"
proof -
  obtain r1 c1 where m: "(if ms_lifecycle_state (mk_latest_sak ctx) \<noteq> MACSEC_MKA_SAK_STATE_NONE
      then macsec_mka_move_latest_to_old ctx else (MACSEC_ERR_OK, ctx)) = (r1, c1)" "mka_inv c1" "mka_kept ctx c1"
    using move_latest_to_old_inv [OF inv] kept_move_latest [OF inv] inv by (metis kept_refl prod.collapse snd_conv)
  obtain r2 c2 where e: "(if mp_valid (mk_peer c1) \<and> mp_live (mk_peer c1)
      then macsec_mka_key_server_ensure_sak rnd c1 else (MACSEC_ERR_OK, c1)) = (r2, c2)" "mka_kept c1 c2"
    using kept_ensure_sak [where rnd = rnd, OF m(2) rnd] by (metis kept_refl prod.collapse snd_conv)
  have "mka_kept ctx c2" using m(3) e(2) by (rule kept_trans)
  with m(3) show ?thesis
    unfolding macsec_mka_start_rekey_def Let_def m(1) prod.case e(1) by simp
qed

lemma kept_input:
  assumes inv: "mka_inv ctx" and rnd: "length (rnd 16) = 16"
    and r: "macsec_mka_input rnd ctx frame now = Some (ret, ctx')"
  shows "mka_kept ctx ctx'"
proof (cases rule: input_steps [where rnd = rnd and frame = frame and now = now, OF inv rnd, case_names dropped passed])
  case (dropped ret work c valid)
  with r show ?thesis by (auto intro!: kept_same simp: mka_scratch_def mka_identity_def)
next
  case (passed b work c c1 r2 c2 changed live seen c4 r5 c5 r6 c6 e1 e2 e3)
  have "mka_kept ctx c1" by (auto intro!: kept_same simp: passed(1) mka_scratch_def mka_identity_def)
  also have "mka_kept c1 c2"
  proof (cases rule: parse_distributed_sak_effect [OF passed(2), of frame, case_names kept stored])
    case (kept ret aes i)
    with passed(3) show ?thesis by (auto intro!: kept_same simp: mka_identity_def)
  next
    case (stored pos flags body_len aes old key)
    with passed(3) passed(2) show ?thesis
      by (auto intro!: kept_moved [OF _ _ _ passed(2)] simp: mka_identity_def mka_received_sak_def mka_step_simps)
  qed
  finally have k2: "mka_kept ctx c2" .
  also have "mka_kept c2 c4"
    using input_peer_identity(1) [of c2 b changed live seen now] input_peer_fields(9,10) [of c2 b changed live seen now]
    unfolding passed(5) by (intro kept_same) (simp_all add: mka_identity_def)
  also have "mka_kept c4 c5"
    using passed(7) kept_start_rekey [where rnd = rnd, OF passed(6) rnd] by (metis kept_refl snd_conv)
  finally have k5: "mka_kept ctx c5" .
  also have "mka_kept c5 c6"
  proof (cases rule: parse_sak_use_effect [OF passed(8), of frame, case_names ignored confirmed])
    case (confirmed tx rx)
    with passed(9) have "c6 = macsec_mka_raise_events (c5\<lparr>mk_latest_sak := mka_confirm (mk_latest_sak c5) tx rx\<rparr>)
        (mka_confirm_events c5 tx rx)" by simp
    then show ?thesis by (auto intro!: kept_same simp: mka_identity_def mka_confirm_def mka_sak_key_def)
  qed (use passed(9) in simp)
  finally have k6: "mka_kept ctx c6" .
  have "mka_kept c6 (mka_input_events c6 changed e1 e2 e3)"
    using input_events_fields(2,3) [of c6 changed e1 e2 e3] input_events_reasons(2) [OF refl] by (intro kept_same) simp_all
  with k6 have "mka_kept ctx (mka_input_events c6 changed e1 e2 e3)" by (rule kept_trans)
  with k2 k5 k6 passed(11) r show ?thesis by auto
qed

lemma kept_tick: "mka_inv ctx \<Longrightarrow> mka_kept ctx (snd (macsec_mka_tick ctx now))"
  using tick_spec(7-9) [of ctx now] by (intro kept_same) simp_all

lemma kept_build:
  assumes inv: "mka_inv ctx" and rnd: "length (rnd 16) = 16" and room: "max_len \<le> length frame"
    and build: "macsec_mka_build_tx_frame rnd ctx frame frame_len max_len meta = Some (ret, ctx', out)"
  shows "mka_kept ctx ctx'"
proof -
  let ?d = "snd (mka_tx_prepare rnd ctx)"
  have d: "mka_kept ctx ?d"
    using kept_ensure_sak [where rnd = rnd, OF inv rnd] by (simp add: mka_tx_prepare_def)
  show ?thesis
  proof (cases rule: build_tx_frame_spec [where rnd = rnd, OF inv rnd room, of frame_len meta, case_names idle no_sak too_long built])
    case (built c)
    have "mk_crypto ?d = mk_crypto ctx" by (rule tx_prepare_keeps)
    with built(6,7) have "mka_kept ?d (?d\<lparr>mk_crypto := c\<rparr>)" by (intro kept_same) (simp_all add: mka_identity_def)
    with d have "mka_kept ctx (?d\<lparr>mk_crypto := c\<rparr>)" by (rule kept_trans)
    with built(4) build show ?thesis by simp
  qed (use d build in auto)
qed

lemma kept_tx_success: "mka_kept ctx (snd (macsec_mka_notify_tx_success ctx meta now))"
proof -
  have "mka_kept ctx (snd (mka_commit_distribution ctx))"
    unfolding mka_commit_distribution_def Let_def
    by (intro kept_same) (simp_all add: identity_calls saks_calls)
  then obtain r c where rc: "(if mt_contains_distributed_sak meta then
       (if \<not> mka_sak_distributable (mk_latest_sak ctx) \<or>
           ms_origin (mk_latest_sak ctx) \<noteq> MACSEC_MKA_SAK_ORIGIN_LOCAL_KEY_SERVER \<or>
           ms_key_number (mk_latest_sak ctx) \<noteq> mt_distributed_key_number meta \<or>
           ms_an (mk_latest_sak ctx) \<noteq> mt_distributed_an meta
        then (MACSEC_ERR_STATE, ctx)
        else if ms_lifecycle_state (mk_latest_sak ctx) = MACSEC_MKA_SAK_STATE_DISTRIBUTION_PENDING
        then mka_commit_distribution ctx
        else (MACSEC_ERR_OK, ctx))
     else (MACSEC_ERR_OK, ctx)) = (r, c)" "mka_kept ctx c"
    by (metis kept_refl prod.collapse snd_conv)
  have fin: "mka_kept ctx (c\<lparr>mk_local_mn := n, mk_last_tx_ms := t, mk_tx_reasons := q\<rparr>)" for n t q
    by (rule kept_trans [OF rc(2)], rule kept_same) (simp_all add: mka_identity_def)
  show ?thesis
    unfolding macsec_mka_notify_tx_success_def Let_def rc(1) prod.case using rc(2) by (auto simp: fin)
qed

lemma kept_others:
  "mka_kept ctx (macsec_mka_notify_tx_failure ctx meta)" "mka_kept ctx (snd (macsec_mka_take_events ctx))"
  "mka_inv ctx \<Longrightarrow> mka_kept ctx (snd (snd (macsec_mka_take_sak_for_install ctx)))"
  by (auto simp: macsec_mka_notify_tx_failure_def macsec_mka_take_events_def take_sak_spec Let_def mka_identity_def
      mka_sak_key_def intro!: kept_same)

lemma kept_retired: "mka_kept ctx (snd (macsec_mka_notify_sak_retired ctx key_number an))"
proof -
  have "mka_kept ctx (ctx\<lparr>mk_old_sak := macsec_mka_sak_clear\<rparr>)"
    by (simp add: mka_kept_def tx_single_def tx_reported_def mka_identity_def macsec_mka_sak_clear_def)
  then show ?thesis
    by (cases "ms_lifecycle_state (mk_old_sak ctx)")
       (simp_all add: macsec_mka_notify_sak_retired_def Let_def set_sak_state_update)
qed

text \<open>Only the report of an installation for transmission changes the reported SAK, to the latest one.\<close>

lemma installed_reported:
  fixes ctx :: macsec_mka_ctx and key_number :: u32 and an dirs :: u8 and lowest_pn :: u32
  assumes inv: "mka_inv ctx"
  defines "ctx' \<equiv> snd (macsec_mka_notify_sak_installed ctx key_number an dirs lowest_pn)"
  shows "mka_identity ctx' = mka_identity ctx"
    "mka_kept ctx ctx' \<or> (dirs AND MACSEC_MKA_INSTALL_TX \<noteq> 0 \<and> tx_single ctx' \<and> tx_reported ctx' = Some (mka_sak_key (mk_latest_sak ctx)))"
proof -
  define c where "c = ctx\<lparr>mk_old_sak := mka_stop_old_tx (mk_old_sak ctx) dirs,
                   mk_latest_sak := mka_mark_installed (mk_latest_sak ctx) dirs lowest_pn\<rparr>"
  have both: "mka_identity (snd (mka_sak_both_installed c)) = mka_identity c"
      "mk_old_sak (snd (mka_sak_both_installed c)) = mk_old_sak c"
      "ms_tx_installed (mk_latest_sak (snd (mka_sak_both_installed c))) = ms_tx_installed (mk_latest_sak c)"
      "mka_sak_key (mk_latest_sak (snd (mka_sak_both_installed c))) = mka_sak_key (mk_latest_sak c)"
    by (simp_all add: mka_sak_both_installed_def Let_def identity_calls saks_calls)
  have cases: "ctx' = ctx \<or> ctx' = c \<or> ctx' = snd (mka_sak_both_installed c)"
    unfolding ctx'_def notify_sak_installed_spec Let_def c_def [symmetric] by auto
  have ident: "mka_identity c = mka_identity ctx" by (simp add: c_def mka_identity_def)
  show "mka_identity ctx' = mka_identity ctx" using cases both(1) ident by auto
  have eff: "tx_reported ctx' = tx_reported c \<and> tx_single ctx' = tx_single c \<and> mka_identity ctx' = mka_identity c" if "ctx' \<noteq> ctx"
    using cases that both by (auto simp: tx_reported_def tx_single_def)
  show "mka_kept ctx ctx' \<or> (dirs AND MACSEC_MKA_INSTALL_TX \<noteq> 0 \<and> tx_single ctx' \<and> tx_reported ctx' = Some (mka_sak_key (mk_latest_sak ctx)))"
  proof (cases "ctx' = ctx")
    case False
    note eff = eff [OF False]
    show ?thesis
    proof (cases "dirs AND MACSEC_MKA_INSTALL_TX = 0")
      case True
      then have "mka_kept ctx c"
        by (intro kept_same ident) (simp_all add: c_def mka_mark_installed_def mka_stop_old_tx_def mka_sak_key_def)
      with eff show ?thesis by (simp add: mka_kept_def)
    next
      case tx: False
      have "\<not> ms_tx_installed (mk_old_sak c)"
      proof (cases "ms_lifecycle_state (mk_old_sak ctx) = MACSEC_MKA_SAK_STATE_RETIRING")
        case False
        with inv show ?thesis by (auto simp: c_def mka_stop_old_tx_def mka_inv_def mka_old_ok_def mka_sak_ok_def macsec_mka_sak_clear_def)
      qed (use tx in \<open>simp add: c_def mka_stop_old_tx_def\<close>)
      moreover have "ms_tx_installed (mk_latest_sak c)" "mka_sak_key (mk_latest_sak c) = mka_sak_key (mk_latest_sak ctx)"
        using tx by (simp_all add: c_def mka_mark_installed_def mka_sak_key_def)
      ultimately show ?thesis using tx eff by (simp add: tx_reported_def tx_single_def)
    qed
  qed simp
qed

lemma step_identity:
  assumes "mka_inv ctx" "mka_step ctx ctx'" shows "mka_identity ctx' = mka_identity ctx"
  using assms(2)
proof cases
  case (step_input rnd frame now ret)
  then show ?thesis using kept_input [where rnd = rnd, OF assms(1)] by (simp add: mka_kept_def)
next
  case (step_build rnd max_len frame frame_len meta ret out)
  then show ?thesis using kept_build [where rnd = rnd, OF assms(1)] by (simp add: mka_kept_def)
next
  case (step_tick now ret)
  then show ?thesis using kept_tick [OF assms(1), of now] by (simp add: mka_kept_def)
next
  case (step_tx_success meta now ret)
  then show ?thesis using kept_tx_success [of ctx meta now] by (simp add: mka_kept_def)
next
  case (step_retired key_number an ret)
  then show ?thesis using kept_retired [of ctx key_number an] by (simp add: mka_kept_def)
next
  case (step_rekey rnd ret)
  then show ?thesis using kept_start_rekey [where rnd = rnd, OF assms(1)] by (simp add: mka_kept_def)
next
  case (step_installed key_number an dirs lowest_pn ret)
  then show ?thesis using installed_reported(1) [OF assms(1), of key_number an dirs lowest_pn] by simp
qed (use kept_others [of ctx] assms(1) in \<open>simp_all add: mka_kept_def\<close>)

text \<open>
  C25. A participant keeps its identity: whatever frames it receives and whatever
  is reported to it, its MAC address, SCI and member identifier, its priority, the ICK and KEK, the
  pre-shared key and the transmit interval are those of its initialization.
\<close>

theorem mka_identity_for_life:
  assumes "mka_reachable ctx" "mka_step\<^sup>*\<^sup>* ctx ctx'"
  shows "mka_identity ctx' = mka_identity ctx"
  using assms(2)
proof (induction rule: rtranclp_induct)
  case (step c c')
  have "mka_inv c" by (rule mka.reach_path [OF assms(1) step(1)])
  from step_identity [OF this step(2)] step(3) show ?case by simp
qed simp

theorem mka_identity_for_life_witness:
  "\<exists>ctx. mka_step (sample_mka 1) ctx \<and> ctx \<noteq> sample_mka 1 \<and> mka_identity ctx = mka_identity (sample_mka 1)"
proof -
  have s: "mka_step (sample_mka 1) (snd (macsec_mka_take_events (sample_mka 1)))"
    by (rule step_take_events [of _ "fst (macsec_mka_take_events (sample_mka 1))"]) simp
  moreover have "mk_pending_events (sample_mka 1) = MACSEC_MKA_EVENT_TX_INITIAL"
    by (rule sample_mka_spec [of 1]) simp
  then have "snd (macsec_mka_take_events (sample_mka 1)) \<noteq> sample_mka 1"
    by (auto simp: macsec_mka_take_events_def mka_flags dest: arg_cong [of _ _ mk_pending_events])
  moreover have "mka_identity (snd (macsec_mka_take_events (sample_mka 1))) = mka_identity (sample_mka 1)"
    by (rule mka_identity_for_life [OF sample_mka_reachable r_into_rtranclp [where r = mka_step, OF s]])
  ultimately show ?thesis by blast
qed

end
