(* ===== verification/Port.thy ===== *)
theory Port
  imports MkaProperties MkaKept
begin

text \<open>
  The random sources of the two ports. \<open>port/embedded/port.c\<close> is a linear feedback shift register
  whose state is one global word; \<open>port/linux/port.c\<close> asks the kernel until it has all bytes. The
  stack takes random bytes through a parameter everywhere else, so this theory also says what becomes of
  two participants that draw from the same generator state.
\<close>

subsection \<open>The generator of the embedded port\<close>

definition embedded_random_seed :: u32 where
  "embedded_random_seed = 0x12345678"

definition embedded_macsec_randomInit :: "u32 \<Rightarrow> u32" where
  "embedded_macsec_randomInit seed = (let seed = (if seed = 0 then 0x12345678 else seed) in seed)"

text \<open>One step of the register, and the byte taken from it.\<close>

definition lfsr_step :: "u32 \<Rightarrow> u32" where
  "lfsr_step lfsr =
     (let lfsr = (if lfsr = 0 then 1 else lfsr)
      in if lfsr AND 1 \<noteq> 0 then drop_bit 1 lfsr XOR 0xD0000001 else drop_bit 1 lfsr)"

definition lfsr_byte :: "u32 \<Rightarrow> u8" where
  "lfsr_byte lfsr = ucast (drop_bit 24 lfsr XOR drop_bit 16 lfsr XOR drop_bit 8 lfsr XOR lfsr)"

text \<open>The bytes of one call and the state of the register after it.\<close>

primrec embedded_random_loop :: "u32 \<Rightarrow> nat \<Rightarrow> bytes \<times> u32" where
  "embedded_random_loop lfsr 0 = ([], lfsr)"
| "embedded_random_loop lfsr (Suc count) =
     (let lfsr = lfsr_step lfsr; (bytes, last) = embedded_random_loop lfsr count
      in (lfsr_byte lfsr # bytes, last))"

definition embedded_macsec_random :: "u32 \<Rightarrow> nat \<Rightarrow> bytes \<times> u32" where
  "embedded_macsec_random seed count = embedded_random_loop seed count"

lemma length_embedded_random: "length (fst (embedded_macsec_random seed count)) = count"
proof -
  have "length (fst (embedded_random_loop seed count)) = count" for seed
    by (induction count arbitrary: seed) (simp_all add: Let_def split_beta)
  then show ?thesis by (simp add: embedded_macsec_random_def)
qed

text \<open>
  The register never stands still: from a state other than 0 it never reaches 0, and no two states
  have the same successor, so every sequence of states returns to where it began.
\<close>

lemma lfsr_top_bit: "s \<noteq> 0 \<Longrightarrow> bit (lfsr_step s) 31 \<longleftrightarrow> bit s 0"
  by (auto simp: lfsr_step_def Let_def bit_simps and_one_eq odd_iff_mod_2_eq_one [symmetric] bit_0 dest: bit_imp_le_length)

lemma shift_up_bit: "bit (push_bit 1 x) (Suc n) \<longleftrightarrow> Suc n < 32 \<and> bit x n" for x :: u32
  by (simp only: bit_push_bit_iff) (auto dest: bit_imp_le_length)

lemma lfsr_step_inverse:
  assumes "s \<noteq> 0"
  shows "s = (if bit (lfsr_step s) 31 then push_bit 1 (lfsr_step s XOR 0xD0000001) OR 1 else push_bit 1 (lfsr_step s))"
proof (rule bit_word_eqI)
  fix n assume n: "n < LENGTH(32)"
  have odd: "s AND 1 \<noteq> 0 \<longleftrightarrow> bit s 0" by (simp add: and_one_eq odd_iff_mod_2_eq_one [symmetric] bit_0)
  show "bit s n = bit (if bit (lfsr_step s) 31 then push_bit 1 (lfsr_step s XOR 0xD0000001) OR 1 else push_bit 1 (lfsr_step s)) n"
  proof (cases "bit s 0")
    case True
    then have "lfsr_step s XOR 0xD0000001 = drop_bit 1 s"
      using assms odd by (simp add: lfsr_step_def xor.assoc)
    then show ?thesis using True assms n lfsr_top_bit [OF assms] by (cases n) (simp_all add: bit_or_iff bit_xor_iff bit_1_iff shift_up_bit bit_drop_bit_eq bit_push_bit_iff del: push_bit_Suc)
  next
    case False
    then have "lfsr_step s = drop_bit 1 s" using assms odd by (simp add: lfsr_step_def)
    then show ?thesis using False assms n lfsr_top_bit [OF assms] by (cases n) (simp_all add: bit_or_iff bit_xor_iff bit_1_iff shift_up_bit bit_drop_bit_eq bit_push_bit_iff del: push_bit_Suc)
  qed
qed

lemma lfsr_step_injective: "s \<noteq> 0 \<Longrightarrow> t \<noteq> 0 \<Longrightarrow> lfsr_step s = lfsr_step t \<Longrightarrow> s = t"
  by (metis lfsr_step_inverse)

lemma lfsr_step_not_zero: "lfsr_step s \<noteq> 0"
proof (cases "s = 0")
  case True
  then show ?thesis by (simp add: lfsr_step_def)
next
  case False
  show ?thesis
  proof
    assume zero: "lfsr_step s = 0"
    with False have "\<not> bit s 0" using lfsr_top_bit by fastforce
    with lfsr_step_inverse [OF False] zero False show False by simp
  qed
qed
subsection \<open>The generator of the Linux port\<close>

text \<open>
  \<open>getrandom\<close> is a system call, so it is a parameter: the answer to the \<open>k\<close>-th call of a run that asks for
  \<open>n\<close> bytes. A failed call with \<open>EINTR\<close> is repeated; any other failure ends in \<open>macsec_sysPanic\<close>,
  which is \<open>Inl\<close> here. A run that never ends is \<open>None\<close>.
\<close>

datatype getrandom_result = Random_bytes bytes | Random_interrupted | Random_failed

partial_function (option) linux_random_loop ::
  "(nat \<Rightarrow> nat \<Rightarrow> getrandom_result) \<Rightarrow> nat \<Rightarrow> bytes \<Rightarrow> nat \<Rightarrow> (unit + bytes) option" where
  "linux_random_loop getrandom k bytes count =
     (if \<not> length bytes < count then Some (Inr bytes)
      else
        case getrandom k (count - length bytes) of
          Random_bytes got \<Rightarrow>
            if length got > 0 then linux_random_loop getrandom (Suc k) (bytes @ got) count else Some (Inl ())
        | Random_interrupted \<Rightarrow> linux_random_loop getrandom (Suc k) bytes count
        | Random_failed \<Rightarrow> Some (Inl ()))"

definition linux_macsec_random :: "(nat \<Rightarrow> nat \<Rightarrow> getrandom_result) \<Rightarrow> nat \<Rightarrow> (unit + bytes) option" where
  "linux_macsec_random getrandom count = linux_random_loop getrandom 0 [] count"

text \<open>
  What \<open>getrandom(2)\<close> documents: a call that succeeds delivers between one and the requested number of
  bytes, and for any call a later one is not interrupted.
\<close>

definition getrandom_ok :: "(nat \<Rightarrow> nat \<Rightarrow> getrandom_result) \<Rightarrow> bool" where
  "getrandom_ok getrandom \<longleftrightarrow>
     (\<forall>k n. n > 0 \<longrightarrow> getrandom k n = Random_interrupted \<or> (\<exists>got. getrandom k n = Random_bytes got \<and> 0 < length got \<and> length got \<le> n)) \<and>
     (\<forall>k. \<exists>m \<ge> k. \<forall>n. getrandom m n \<noteq> Random_interrupted)"

lemma linux_random_uninterrupted:
  assumes ok: "getrandom_ok getrandom" and less: "length bytes < count"
  obtains m got where "linux_random_loop getrandom k bytes count = linux_random_loop getrandom (Suc m) (bytes @ got) count"
    "0 < length got" "length bytes + length got \<le> count"
proof -
  have calls: "getrandom j (count - length bytes) = Random_interrupted \<or>
      (\<exists>got. getrandom j (count - length bytes) = Random_bytes got \<and> 0 < length got \<and> length got \<le> count - length bytes)" for j
    using ok less by (simp add: getrandom_ok_def)
  obtain m where m: "k \<le> m" "\<forall>n. getrandom m n \<noteq> Random_interrupted" using ok unfolding getrandom_ok_def by blast
  then have "\<exists>m got. linux_random_loop getrandom k bytes count = linux_random_loop getrandom (Suc m) (bytes @ got) count \<and>
      0 < length got \<and> length bytes + length got \<le> count"
  proof (induction k rule: inc_induct)
    case base
    from calls [of m] m(2) obtain got where "getrandom m (count - length bytes) = Random_bytes got" "0 < length got"
        "length got \<le> count - length bytes" by blast
    with less show ?case
      by (intro exI [of _ m] exI [of _ got]) (simp add: linux_random_loop.simps [of getrandom m bytes])
  next
    case (step j)
    show ?case
    proof (cases "getrandom j (count - length bytes) = Random_interrupted")
      case True
      with less have "linux_random_loop getrandom j bytes count = linux_random_loop getrandom (Suc j) bytes count"
        by (simp add: linux_random_loop.simps [of getrandom j bytes])
      with step show ?thesis by simp
    next
      case False
      with calls [of j] obtain got where "getrandom j (count - length bytes) = Random_bytes got" "0 < length got"
          "length got \<le> count - length bytes" by blast
      with less show ?thesis
        by (intro exI [of _ j] exI [of _ got]) (simp add: linux_random_loop.simps [of getrandom j bytes])
    qed
  qed
  with that show thesis by blast
qed

lemma linux_random_loop_total:
  assumes ok: "getrandom_ok getrandom" and "length bytes \<le> count"
  shows "\<exists>out. linux_random_loop getrandom k bytes count = Some (Inr (bytes @ out)) \<and> length (bytes @ out) = count"
  using assms(2)
proof (induction "count - length bytes" arbitrary: bytes k rule: less_induct)
  case less
  show ?case
  proof (cases "length bytes < count")
    case False
    with less.prems show ?thesis by (intro exI [of _ "[]"]) (simp add: linux_random_loop.simps [of getrandom k bytes])
  next
    case True
    obtain m got where g: "linux_random_loop getrandom k bytes count = linux_random_loop getrandom (Suc m) (bytes @ got) count"
        "0 < length got" "length bytes + length got \<le> count"
      by (rule linux_random_uninterrupted [OF ok True])
    have "count - length (bytes @ got) < count - length bytes" "length (bytes @ got) \<le> count" using g(2,3) True by (simp_all add: less_diff_conv2 flip: length_greater_0_conv)
    from less.hyps [OF this, of "Suc m"] g(1) show ?thesis by auto
  qed
qed

text \<open>Under these conditions the Linux port delivers as many bytes as the stack asks for, and otherwise none at all.\<close>

lemma linux_random_total:
  "getrandom_ok getrandom \<Longrightarrow> \<exists>bytes. linux_macsec_random getrandom count = Some (Inr bytes) \<and> length bytes = count"
  using linux_random_loop_total [of getrandom "[]" count 0] by (simp add: linux_macsec_random_def)

subsection \<open>Two participants with the same generator state\<close>

lemma identity_path:
  assumes "mka_step\<^sup>*\<^sup>* a a'" "mka_inv a"
  shows "mka_inv a' \<and> mka_identity a' = mka_identity a"
  using assms(1)
proof (induction rule: rtranclp_induct)
  case base
  then show ?case using assms(2) by simp
next
  case (step b c)
  then show ?case using step_identity [of b c] mka_step_inv [of b c] by simp
qed

text \<open>A participant takes a frame with its own member identifier as its own and drops it.\<close>

lemma own_mi_dropped:
  assumes a: "mka_inv a" and b: "mka_inv b" and mi: "mk_local_mi a = mk_local_mi b"
  shows "macsec_mka_input rnd b (mka_tx_frame a) now = Some (MACSEC_ERR_OK, b)"
proof (rule tx_frame_parses [OF a, of mka_basic_zero], goal_cases)
  case (1 basic)
  have "macsec_mka_is_eapol_mka (mka_tx_frame a) = Some True"
    using tx_frame_parts(2,3) [OF a] length_tx_frame [OF a] by (simp add: is_eapol_mka_spec)
  with 1(1,5) mi show ?case
    by (simp add: macsec_mka_input_def mka_input_authenticate_def)
qed

text \<open>
  C40. No file of the stack calls \<open>macsec_randomInit\<close>, and \<open>macsec_init\<close> ignores the \<open>seed\<close> of its
  configuration, so boards with the embedded port start from the same generator state. Two participants
  whose member identifiers are drawn from the same state, whatever their addresses and keys, never hear each
  other: at any later time, each takes every MKPDU of the other as its own and drops it, and no link comes up.
\<close>

theorem default_seed_no_link:
  assumes a: "macsec_mka_init (\<lambda>n. fst (embedded_macsec_random seed n)) cak ckn mac port prio interval = (MACSEC_ERR_OK, a)" "length mac = 6"
    and b: "macsec_mka_init (\<lambda>n. fst (embedded_macsec_random seed n)) cak' ckn' mac' port' prio' interval' = (MACSEC_ERR_OK, b)" "length mac' = 6"
    and later: "mka_step\<^sup>*\<^sup>* a a1" "mka_step\<^sup>*\<^sup>* b b1"
    and rnd: "length (rnd 16) = 16" and room: "max_len \<le> length frame"
    and build: "macsec_mka_build_tx_frame rnd a1 frame frame_len max_len meta = Some (MACSEC_ERR_OK, a2, out, n, meta')"
  shows "macsec_mka_input rnd' b1 (take n out) now = Some (MACSEC_ERR_OK, b1)"
proof -
  have r: "length (fst (embedded_macsec_random seed 12)) = 12" by (rule length_embedded_random)
  have mi: "mk_local_mi m = fst (embedded_macsec_random seed 12)" "mka_inv m"
    if "macsec_mka_init (\<lambda>n. fst (embedded_macsec_random seed n)) cak ckn mac port prio interval = (MACSEC_ERR_OK, m)" "length mac = 6"
    for cak ckn mac port prio interval m
  proof -
    have "length cak = 16 \<or> length cak = 32" "0 < length ckn" "length ckn \<le> 32" using mka_init_fails [OF that(1)] by auto
    note lens = this
    show "mk_local_mi m = fst (embedded_macsec_random seed 12)"
      by (rule mka_init_spec [where rnd = "\<lambda>n. fst (embedded_macsec_random seed n)", OF that(2) r lens, of port prio interval])
         (use that(1) in simp)
    show "mka_inv m" by (rule mka_init_inv [where rnd = "\<lambda>n. fst (embedded_macsec_random seed n)", OF that r])
  qed
  have a1: "mka_inv a1" "mk_local_mi a1 = mk_local_mi b1" and b1: "mka_inv b1"
    using identity_path [OF later(1) mi(2) [OF a]] identity_path [OF later(2) mi(2) [OF b]] mi(1) [OF a] mi(1) [OF b]
    by (simp_all add: mka_identity_def)
  define d where "d = snd (mka_tx_prepare rnd a1)"
  have d: "mka_inv d" "mk_local_mi d = mk_local_mi b1"
    using tx_prepare_inv [where rnd = rnd, OF a1(1) rnd] a1(2) by (simp_all add: d_def tx_prepare_keeps)
  have "take n out = mka_tx_frame d"
    by (cases rule: build_tx_frame_spec [where rnd = rnd, OF a1(1) rnd room, of frame_len meta, folded d_def, case_names idle no_sak too_long built])
       (use build length_tx_frame [OF d(1)] in auto)
  then show ?thesis using own_mi_dropped [OF d(1) b1 d(2)] by simp
qed

theorem default_seed_no_link_witness:
  "\<exists>a b a' out n meta'. macsec_mka_init (\<lambda>n. fst (embedded_macsec_random embedded_random_seed n)) (replicate 16 1) [2, 3, 4, 5] (replicate 6 1) 1 1 0 =
      (MACSEC_ERR_OK, a) \<and>
    macsec_mka_init (\<lambda>n. fst (embedded_macsec_random embedded_random_seed n)) (replicate 16 1) [2, 3, 4, 5] (replicate 6 2) 1 2 0 = (MACSEC_ERR_OK, b) \<and>
    macsec_mka_build_tx_frame (\<lambda>n. replicate n 7) a (replicate 512 0) 0 512 mka_meta_zero = Some (MACSEC_ERR_OK, a', out, n, meta') \<and>
    macsec_mka_input (\<lambda>n. []) b (take n out) 5 = Some (MACSEC_ERR_OK, b)"
proof -
  let ?rnd = "\<lambda>n. fst (embedded_macsec_random embedded_random_seed n)"
  have r: "length (?rnd 12) = 12" by (rule length_embedded_random)
  have l: "length (replicate 6 (i::u8)) = 6" "length (replicate 16 (1::u8)) = 16 \<or> length (replicate 16 (1::u8)) = 32"
      "0 < length [2, 3, 4, 5 :: u8]" "length [2, 3, 4, 5 :: u8] \<le> 32" for i by simp_all
  obtain a where a: "macsec_mka_init ?rnd (replicate 16 1) [2, 3, 4, 5] (replicate 6 1) 1 1 0 = (MACSEC_ERR_OK, a)"
      "mk_tx_reasons a = MACSEC_MKA_TX_REASON_INITIAL" "\<not> mp_live (mk_peer a)"
    by (rule mka_init_spec [where rnd = ?rnd, OF l(1) r l(2-4), of 1 1 1 0]) (auto simp: mka_ctx_zero_def mka_peer_zero_def)
  obtain b where b: "macsec_mka_init ?rnd (replicate 16 1) [2, 3, 4, 5] (replicate 6 2) 1 2 0 = (MACSEC_ERR_OK, b)"
    by (rule mka_init_spec [where rnd = ?rnd, OF l(1) r l(2-4), of 2 1 2 0]) auto
  have inv: "mka_inv a" by (rule mka_init_inv [where rnd = ?rnd, OF a(1) l(1) r])
  have h: "length ((\<lambda>n. replicate n (7::u8)) 16) = 16" "(512::nat) \<le> length (replicate 512 (0::u8))" "(210::nat) \<le> 512" by simp_all
  obtain a' out n meta' where build: "macsec_mka_build_tx_frame (\<lambda>n. replicate n 7) a (replicate 512 0) 0 512 mka_meta_zero =
      Some (MACSEC_ERR_OK, a', out, n, meta')"
    by (rule build_succeeds [where rnd = "\<lambda>n. replicate n 7" and ctx = a and frame_len = 0 and meta = mka_meta_zero, OF inv h])
       (use a that in \<open>auto simp: mka_flags\<close>)
  from default_seed_no_link [where rnd = "\<lambda>n. replicate n 7", OF a(1) l(1) b l(1) rtranclp.rtrancl_refl rtranclp.rtrancl_refl h(1,2) build] a(1) b build
  show ?thesis by blast
qed

end
