(* ===== verification/Macsec.thy ===== *)
theory Macsec
  imports FrameCrypto MkaTx
begin

text \<open>
  \<open>macsec.c\<close> and \<open>macsec.h\<close>: the top level. The context joins the configuration, the frame layer, the
  MKA participant and the metadata of the control frame in flight; the operations route received
  and sent frames, drive the timer, hand SAKs from MKA to the frame layer and remove retired ones.
  A received frame whose handling panics or leaves a buffer is \<open>None\<close>.
\<close>

subsection \<open>Data\<close>

text \<open>The mode is a C enumeration read from the configuration, so any integer may occur.\<close>

type_synonym macsec_mode = u32

definition MACSEC_MODE_DISABLED :: macsec_mode where "MACSEC_MODE_DISABLED = 0"
definition MACSEC_MODE_STATIC_SAK :: macsec_mode where "MACSEC_MODE_STATIC_SAK = 1"
definition MACSEC_MODE_MKA_PSK :: macsec_mode where "MACSEC_MODE_MKA_PSK = 2"

definition MACSEC_ETHERTYPE_EAPOL :: u16 where "MACSEC_ETHERTYPE_EAPOL = 0x888E"

datatype macsec_state =
    MACSEC_STATE_INIT | MACSEC_STATE_WAIT_MKA | MACSEC_STATE_SECURED | MACSEC_STATE_ERROR

record macsec_config =
  cf_mode :: macsec_mode
  cf_local_mac :: bytes
  cf_port_id :: u16
  cf_cak :: bytes
  cf_cak_len :: nat
  cf_ckn :: bytes
  cf_ckn_len :: nat
  cf_static_sak :: bytes
  cf_static_sak_len :: nat
  cf_static_an :: u8
  cf_replay_protect :: bool
  cf_replay_window :: u32
  cf_seed :: u32
  cf_key_server_priority :: u8
  cf_mka_tx_interval_ms :: u32

record macsec_ctx =
  mx_cfg :: macsec_config
  mx_state :: macsec_state
  mx_frame_crypto :: macsec_frame_crypto_ctx
  mx_mka :: macsec_mka_ctx
  mx_last_tick_ms :: u32
  mx_pending_mka_tx_meta :: macsec_mka_tx_meta
  mx_pending_mka_tx_valid :: bool

definition macsec_config_zero :: macsec_config where
  "macsec_config_zero = \<lparr>cf_mode = MACSEC_MODE_DISABLED, cf_local_mac = replicate 6 0, cf_port_id = 0,
     cf_cak = replicate 32 0, cf_cak_len = 0, cf_ckn = replicate 32 0, cf_ckn_len = 0,
     cf_static_sak = replicate 32 0, cf_static_sak_len = 0, cf_static_an = 0,
     cf_replay_protect = False, cf_replay_window = 0, cf_seed = 0, cf_key_server_priority = 0,
     cf_mka_tx_interval_ms = 0\<rparr>"

definition macsec_ctx_zero :: macsec_ctx where
  "macsec_ctx_zero = \<lparr>mx_cfg = macsec_config_zero, mx_state = MACSEC_STATE_INIT,
     mx_frame_crypto = frame_ctx_zero, mx_mka = mka_ctx_zero, mx_last_tick_ms = 0,
     mx_pending_mka_tx_meta = mka_meta_zero, mx_pending_mka_tx_valid = False\<rparr>"

subsection \<open>Installing and removing keys\<close>

definition macsec_build_sci :: "bytes \<Rightarrow> u16 \<Rightarrow> bytes" where
  "macsec_build_sci mac port_id = take 6 mac @ macsec_wr_be16 port_id"

definition macsec_sak_equal :: "macsec_frame_sak \<Rightarrow> bytes \<Rightarrow> nat \<Rightarrow> bool" where
  "macsec_sak_equal sak key key_len \<longleftrightarrow>
     fs_valid sak \<and> unat (fs_key_len sak) = key_len \<and> macsec_compare (fs_key sak) key key_len = 0"

definition macsec_install_rx_sak ::
  "macsec_ctx \<Rightarrow> bytes \<Rightarrow> nat \<Rightarrow> u8 \<Rightarrow> u32 \<Rightarrow> macsec_ret \<times> macsec_ctx" where
  "macsec_install_rx_sak ctx sak_key sak_len an lowest_pn =
     (if \<not> (sak_len = 16 \<or> sak_len = 32) then (MACSEC_ERR_PARAM, ctx)
      else if \<not> unat an < MACSEC_FRAME_MAX_SA then (MACSEC_ERR_PARAM, ctx)
      else
        let lowest_pn = (if lowest_pn = 0 then 1 else lowest_pn) in
        if macsec_sak_equal (fc_rx_sak (mx_frame_crypto ctx) ! unat an) sak_key sak_len
        then (MACSEC_ERR_OK, ctx)
        else
          let sak = frame_sak_zero
                \<lparr>fs_key := arr_put (fs_key frame_sak_zero) (take sak_len sak_key),
                 fs_key_len := of_nat sak_len, fs_an := an,
                 fs_lowest_acceptable_pn := lowest_pn, fs_next_pn := 1, fs_valid := True\<rparr>;
              (ret, frame_crypto) = macsec_frame_crypto_set_rx_sak (mx_frame_crypto ctx) sak;
              ctx = ctx\<lparr>mx_frame_crypto := frame_crypto\<rparr>
          in if ret \<noteq> MACSEC_ERR_OK then (MACSEC_ERR_CRYPTO, ctx) else (MACSEC_ERR_OK, ctx))"

definition macsec_install_tx_sak ::
  "macsec_ctx \<Rightarrow> bytes \<Rightarrow> nat \<Rightarrow> u8 \<Rightarrow> macsec_ret \<times> macsec_ctx" where
  "macsec_install_tx_sak ctx sak_key sak_len an =
     (if \<not> (sak_len = 16 \<or> sak_len = 32) then (MACSEC_ERR_PARAM, ctx)
      else if \<not> unat an < MACSEC_FRAME_MAX_SA then (MACSEC_ERR_PARAM, ctx)
      else
        let tx_sak = fc_tx_sak (mx_frame_crypto ctx) in
        if macsec_sak_equal tx_sak sak_key sak_len \<and> fs_an tx_sak AND 0x03 = an
        then (MACSEC_ERR_OK, ctx)
        else
          let sak = frame_sak_zero
                \<lparr>fs_key := arr_put (fs_key frame_sak_zero) (take sak_len sak_key),
                 fs_key_len := of_nat sak_len, fs_an := an, fs_next_pn := 1,
                 fs_lowest_acceptable_pn := 1, fs_valid := True\<rparr>;
              (ret, frame_crypto) = macsec_frame_crypto_set_tx_sak (mx_frame_crypto ctx) sak;
              ctx = ctx\<lparr>mx_frame_crypto := frame_crypto\<rparr>
          in if ret \<noteq> MACSEC_ERR_OK then (MACSEC_ERR_CRYPTO, ctx) else (MACSEC_ERR_OK, ctx))"

definition macsec_remove_mka_old_sak :: "macsec_ctx \<Rightarrow> macsec_ret \<times> macsec_ctx" where
  "macsec_remove_mka_old_sak ctx =
     (let sak = mk_old_sak (mx_mka ctx) in
      if ms_lifecycle_state sak = MACSEC_MKA_SAK_STATE_NONE then (MACSEC_ERR_OK, ctx)
      else if ms_lifecycle_state sak \<noteq> MACSEC_MKA_SAK_STATE_RETIRING then (MACSEC_ERR_STATE, ctx)
      else
        let (ret, frame_crypto) =
              (if ms_rx_installed sak
               then macsec_frame_crypto_remove_rx_sak (mx_frame_crypto ctx) (unat (ms_an sak))
               else (MACSEC_ERR_OK, mx_frame_crypto ctx));
            ctx = ctx\<lparr>mx_frame_crypto := frame_crypto\<rparr>
        in if ret \<noteq> MACSEC_ERR_OK then (ret, ctx)
           else
             let tx_sak = fc_tx_sak (mx_frame_crypto ctx);
                 (ret, frame_crypto) =
                   (if ms_tx_installed sak \<and> macsec_sak_equal tx_sak (ms_sak sak) (ms_sak_len sak) \<and>
                       fs_an tx_sak AND 0x03 = ms_an sak AND 0x03
                    then macsec_frame_crypto_remove_tx_sak (mx_frame_crypto ctx)
                    else (MACSEC_ERR_OK, mx_frame_crypto ctx));
                 ctx = ctx\<lparr>mx_frame_crypto := frame_crypto\<rparr>
             in if ret \<noteq> MACSEC_ERR_OK then (ret, ctx)
                else
                  let (ret, mka) = macsec_mka_notify_sak_retired (mx_mka ctx) (ms_key_number sak) (ms_an sak)
                  in (ret, ctx\<lparr>mx_mka := mka\<rparr>))"

definition macsec_install_static_sak :: "macsec_ctx \<Rightarrow> macsec_ret \<times> macsec_ctx" where
  "macsec_install_static_sak ctx =
     (let cfg = mx_cfg ctx; an = cf_static_an cfg in
      if \<not> unat (cf_static_an cfg) < MACSEC_FRAME_MAX_SA then (MACSEC_ERR_PARAM, ctx)
      else
        let (ret, ctx) = macsec_install_rx_sak ctx (cf_static_sak cfg) (cf_static_sak_len cfg) an 1
        in if ret \<noteq> MACSEC_ERR_OK then (ret, ctx)
           else
             let (ret, ctx) = macsec_install_tx_sak ctx (cf_static_sak cfg) (cf_static_sak_len cfg) an
             in if ret \<noteq> MACSEC_ERR_OK then (ret, ctx)
                else (MACSEC_ERR_OK, ctx\<lparr>mx_state := MACSEC_STATE_SECURED\<rparr>))"

subsection \<open>Service of the MKA participant\<close>

text \<open>The two blocks of \<open>macsec_process_mka_sak_install\<close>, for receive and for transmit.\<close>

definition mka_install_rx :: "macsec_ctx \<Rightarrow> macsec_mka_sak \<Rightarrow> macsec_ret \<times> macsec_ctx" where
  "mka_install_rx ctx sak =
     (if ms_rx_installed sak then (MACSEC_ERR_OK, ctx)
      else
        let (ret, ctx) = macsec_install_rx_sak ctx (ms_sak sak) (ms_sak_len sak) (ms_an sak) (ms_lowest_pn sak)
        in if ret \<noteq> MACSEC_ERR_OK then (ret, ctx)
           else
             let (ret, mka) = macsec_mka_notify_sak_installed (mx_mka ctx) (ms_key_number sak) (ms_an sak)
                                MACSEC_MKA_INSTALL_RX (ms_lowest_pn sak)
             in (ret, ctx\<lparr>mx_mka := mka\<rparr>))"

definition mka_install_tx :: "macsec_ctx \<Rightarrow> macsec_mka_sak \<Rightarrow> macsec_ret \<times> macsec_ctx" where
  "mka_install_tx ctx sak =
     (if ms_tx_installed sak then (MACSEC_ERR_OK, ctx)
      else
        let (ret, ctx) = macsec_install_tx_sak ctx (ms_sak sak) (ms_sak_len sak) (ms_an sak)
        in if ret \<noteq> MACSEC_ERR_OK then (ret, ctx)
           else
             let (ret, mka) = macsec_mka_notify_sak_installed (mx_mka ctx) (ms_key_number sak) (ms_an sak)
                                MACSEC_MKA_INSTALL_TX (ms_lowest_pn sak)
             in (ret, ctx\<lparr>mx_mka := mka\<rparr>))"

definition macsec_process_mka_sak_install :: "macsec_ctx \<Rightarrow> macsec_ret \<times> macsec_ctx" where
  "macsec_process_mka_sak_install ctx =
     (let (ret, sak, mka) = macsec_mka_take_sak_for_install (mx_mka ctx);
          ctx = ctx\<lparr>mx_mka := mka\<rparr>
      in if ret = MACSEC_ERR_NOT_READY then (MACSEC_ERR_OK, ctx)
         else if ret \<noteq> MACSEC_ERR_OK then (ret, ctx)
         else if ms_lifecycle_state sak \<noteq> MACSEC_MKA_SAK_STATE_INSTALL_PENDING \<or>
                 (ms_sak_len sak \<noteq> 16 \<and> ms_sak_len sak \<noteq> 32) \<or>
                 unat (ms_an sak) \<ge> MACSEC_FRAME_MAX_SA
         then (MACSEC_ERR_STATE, ctx)
         else
           let (ret, ctx) = mka_install_rx ctx sak
           in if ret \<noteq> MACSEC_ERR_OK then (ret, ctx)
              else
                let (ret, ctx) = mka_install_tx ctx sak
                in if ret \<noteq> MACSEC_ERR_OK then (ret, ctx) else (MACSEC_ERR_OK, ctx))"

definition macsec_process_mka_events :: "macsec_ctx \<Rightarrow> macsec_ret \<times> macsec_ctx" where
  "macsec_process_mka_events ctx =
     (let (events, mka) = macsec_mka_take_events (mx_mka ctx);
          ctx = ctx\<lparr>mx_mka := mka\<rparr>
      in if events = MACSEC_MKA_EVENT_NONE then (MACSEC_ERR_OK, ctx)
         else if events AND MACSEC_MKA_EVENT_ERROR \<noteq> 0
         then (MACSEC_ERR_STATE, ctx\<lparr>mx_state := MACSEC_STATE_ERROR\<rparr>)
         else
           let ctx = (if events AND MACSEC_MKA_EVENT_PEER_LOST \<noteq> 0
                      then ctx\<lparr>mx_state := MACSEC_STATE_WAIT_MKA\<rparr> else ctx);
               ctx = (if events AND MACSEC_MKA_EVENT_SAK_ACTIVE \<noteq> 0
                      then ctx\<lparr>mx_state := MACSEC_STATE_SECURED\<rparr> else ctx)
           in if events AND MACSEC_MKA_EVENT_SAK_RETIRE_REQUIRED \<noteq> 0 then
                let (ret, ctx) = macsec_remove_mka_old_sak ctx
                in if ret \<noteq> MACSEC_ERR_OK then (ret, ctx) else (MACSEC_ERR_OK, ctx)
              else (MACSEC_ERR_OK, ctx))"

definition macsec_service_mka :: "macsec_ctx \<Rightarrow> macsec_ret \<times> macsec_ctx" where
  "macsec_service_mka ctx =
     (let (ret, ctx) = macsec_process_mka_events ctx in
      if ret \<noteq> MACSEC_ERR_OK then (ret, ctx)
      else
        let (ret, ctx) = macsec_process_mka_sak_install ctx in
        if ret \<noteq> MACSEC_ERR_OK then (ret, ctx)
        else
          let (ret, ctx) = macsec_process_mka_events ctx in
          if ret \<noteq> MACSEC_ERR_OK then (ret, ctx) else (MACSEC_ERR_OK, ctx))"

subsection \<open>Life of a context\<close>

definition macsec_init_frame_crypto :: "macsec_ctx \<Rightarrow> macsec_ret \<times> macsec_ctx" where
  "macsec_init_frame_crypto ctx =
     (let sci = macsec_build_sci (cf_local_mac (mx_cfg ctx)) (cf_port_id (mx_cfg ctx));
          (ret, frame_crypto) = macsec_frame_crypto_init sci;
          ctx = ctx\<lparr>mx_frame_crypto := frame_crypto\<rparr>
      in if ret \<noteq> MACSEC_ERR_OK then (ret, ctx)
         else (MACSEC_ERR_OK,
               ctx\<lparr>mx_frame_crypto := frame_crypto
                     \<lparr>fc_replay_protect := cf_replay_protect (mx_cfg ctx),
                      fc_replay_window := cf_replay_window (mx_cfg ctx)\<rparr>\<rparr>))"

text \<open>
  \<open>n\<close> bytes at the start of an array: what a callee sees that takes a pointer and a length. The
  callee here checks the length before it reads, so the bytes after the array do not matter.
\<close>

definition macsec_bytes_at :: "bytes \<Rightarrow> nat \<Rightarrow> bytes" where
  "macsec_bytes_at a n = take n a @ replicate (n - length a) 0"

definition macsec_init_mka :: "(nat \<Rightarrow> bytes) \<Rightarrow> macsec_ctx \<Rightarrow> macsec_ret \<times> macsec_ctx" where
  "macsec_init_mka rnd ctx =
     (let cfg = mx_cfg ctx;
          (ret, mka) = macsec_mka_init rnd (macsec_bytes_at (cf_cak cfg) (cf_cak_len cfg))
                         (macsec_bytes_at (cf_ckn cfg) (cf_ckn_len cfg)) (cf_local_mac cfg)
                         (cf_port_id cfg) (cf_key_server_priority cfg) (cf_mka_tx_interval_ms cfg)
      in (ret, ctx\<lparr>mx_mka := mka\<rparr>))"

definition macsec_init :: "(nat \<Rightarrow> bytes) \<Rightarrow> macsec_config \<Rightarrow> macsec_ret \<times> macsec_ctx" where
  "macsec_init rnd cfg =
     (let ctx = macsec_ctx_zero\<lparr>mx_cfg := cfg, mx_state := MACSEC_STATE_INIT\<rparr>;
          ctx = (if cf_port_id (mx_cfg ctx) = 0
                 then ctx\<lparr>mx_cfg := (mx_cfg ctx)\<lparr>cf_port_id := 1\<rparr>\<rparr> else ctx);
          (ret, ctx) = macsec_init_frame_crypto ctx
      in if ret \<noteq> MACSEC_ERR_OK then (ret, ctx\<lparr>mx_state := MACSEC_STATE_ERROR\<rparr>)
         else if cf_mode (mx_cfg ctx) = MACSEC_MODE_DISABLED
         then (MACSEC_ERR_OK, ctx\<lparr>mx_state := MACSEC_STATE_SECURED\<rparr>)
         else if cf_mode (mx_cfg ctx) = MACSEC_MODE_STATIC_SAK then
           let (ret, ctx) = macsec_install_static_sak ctx
           in if ret \<noteq> MACSEC_ERR_OK then (ret, ctx\<lparr>mx_state := MACSEC_STATE_ERROR\<rparr>)
              else (MACSEC_ERR_OK, ctx)
         else if cf_mode (mx_cfg ctx) = MACSEC_MODE_MKA_PSK then
           let (ret, ctx) = macsec_init_mka rnd ctx
           in if ret \<noteq> MACSEC_ERR_OK then (ret, ctx\<lparr>mx_state := MACSEC_STATE_ERROR\<rparr>)
              else (MACSEC_ERR_OK, ctx\<lparr>mx_state := MACSEC_STATE_WAIT_MKA\<rparr>)
         else (MACSEC_ERR_UNSUPPORTED, ctx\<lparr>mx_state := MACSEC_STATE_ERROR\<rparr>))"

text \<open>The final erasure sets every field, whatever the two calls before it leave.\<close>

definition macsec_clear :: "macsec_ctx \<Rightarrow> macsec_ctx" where
  "macsec_clear ctx = macsec_ctx_zero"

definition macsec_get_state :: "macsec_ctx \<Rightarrow> macsec_state" where
  "macsec_get_state ctx = mx_state ctx"

definition macsec_is_secured :: "macsec_ctx \<Rightarrow> bool" where
  "macsec_is_secured ctx \<longleftrightarrow> mx_state ctx = MACSEC_STATE_SECURED"

subsection \<open>Frames\<close>

text \<open>
  The result is the code, the context, the output buffer, the stored output length and the flag
  \<open>pass_to_stack\<close>. \<open>macsec_input_mka\<close> is the branch for an MKPDU.
\<close>

definition macsec_input_mka ::
  "(nat \<Rightarrow> bytes) \<Rightarrow> macsec_ctx \<Rightarrow> bytes \<Rightarrow> (macsec_ret \<times> macsec_ctx) option" where
  "macsec_input_mka rnd ctx rx_frame = do {
     (ret, mka) \<leftarrow> macsec_mka_input rnd (mx_mka ctx) rx_frame (mx_last_tick_ms ctx);
     let ctx = ctx\<lparr>mx_mka := mka\<rparr>;
     if ret \<noteq> MACSEC_ERR_OK then Some (ret, ctx\<lparr>mx_state := MACSEC_STATE_ERROR\<rparr>)
     else
       let (ret, ctx) = macsec_service_mka ctx
       in if ret \<noteq> MACSEC_ERR_OK then Some (ret, ctx\<lparr>mx_state := MACSEC_STATE_ERROR\<rparr>)
          else Some (MACSEC_ERR_OK, ctx)
   }"

definition macsec_input ::
  "(nat \<Rightarrow> bytes) \<Rightarrow> macsec_ctx \<Rightarrow> bytes \<Rightarrow> bytes \<Rightarrow> nat \<Rightarrow>
     (macsec_ret \<times> macsec_ctx \<times> bytes \<times> nat \<times> bool) option" where
  "macsec_input rnd ctx rx_frame plain_frame plain_max_len =
     (if cf_mode (mx_cfg ctx) = MACSEC_MODE_DISABLED then
        (if \<not> length rx_frame \<le> plain_max_len then Some (MACSEC_ERR_BUFFER, ctx, plain_frame, 0, False)
         else do {
           plain_frame \<leftarrow> buf_put plain_frame 0 rx_frame;
           Some (MACSEC_ERR_OK, ctx, plain_frame, length rx_frame, True)
         })
      else do {
        is_mka \<leftarrow> macsec_mka_is_eapol_mka rx_frame;
        if is_mka then do {
          (ret, ctx) \<leftarrow> macsec_input_mka rnd ctx rx_frame;
          Some (ret, ctx, plain_frame, 0, False)
        }
        else do {
          is_macsec \<leftarrow> macsec_frame_is_macsec rx_frame;
          if is_macsec then
            (if mx_state ctx \<noteq> MACSEC_STATE_SECURED
             then Some (MACSEC_ERR_NOT_READY, ctx, plain_frame, 0, False)
             else do {
               (ret, frame_crypto, plain_frame, plain_len) \<leftarrow>
                 macsec_frame_decrypt (mx_frame_crypto ctx) rx_frame plain_frame plain_max_len;
               let ctx = ctx\<lparr>mx_frame_crypto := frame_crypto\<rparr>;
               if ret \<noteq> MACSEC_ERR_OK then Some (ret, ctx, plain_frame, plain_len, False)
               else Some (MACSEC_ERR_OK, ctx, plain_frame, plain_len, True)
             })
          else if 14 \<le> length rx_frame then do {
            t \<leftarrow> buf_at rx_frame 12 2;
            Some (if macsec_rd_be16 t = MACSEC_ETHERTYPE_EAPOL then MACSEC_ERR_UNSUPPORTED
                  else MACSEC_ERR_AUTH, ctx, plain_frame, 0, False)
          }
          else Some (MACSEC_ERR_AUTH, ctx, plain_frame, 0, False)
        }
      })"

definition macsec_output ::
  "macsec_ctx \<Rightarrow> bytes \<Rightarrow> bytes \<Rightarrow> nat \<Rightarrow> (macsec_ret \<times> macsec_ctx \<times> bytes \<times> nat) option" where
  "macsec_output ctx plain_frame tx_frame tx_max_len =
     (if cf_mode (mx_cfg ctx) = MACSEC_MODE_DISABLED then
        (if \<not> length plain_frame \<le> tx_max_len then Some (MACSEC_ERR_BUFFER, ctx, tx_frame, 0)
         else do {
           tx_frame \<leftarrow> buf_put tx_frame 0 plain_frame;
           Some (MACSEC_ERR_OK, ctx, tx_frame, length plain_frame)
         })
      else if mx_state ctx \<noteq> MACSEC_STATE_SECURED then Some (MACSEC_ERR_NOT_READY, ctx, tx_frame, 0)
      else if \<not> fs_valid (fc_tx_sak (mx_frame_crypto ctx)) then Some (MACSEC_ERR_NOT_READY, ctx, tx_frame, 0)
      else do {
        (ret, frame_crypto, tx_frame, tx_len) \<leftarrow>
          macsec_frame_encrypt (mx_frame_crypto ctx) plain_frame tx_frame tx_max_len;
        let ctx = ctx\<lparr>mx_frame_crypto := frame_crypto\<rparr>;
        if ret \<noteq> MACSEC_ERR_OK then Some (ret, ctx, tx_frame, tx_len)
        else Some (MACSEC_ERR_OK, ctx, tx_frame, tx_len)
      })"

subsection \<open>Timer and control frames\<close>

definition macsec_tick :: "macsec_ctx \<Rightarrow> u32 \<Rightarrow> macsec_ret \<times> macsec_ctx" where
  "macsec_tick ctx now_ms =
     (let ctx = ctx\<lparr>mx_last_tick_ms := now_ms\<rparr> in
      if cf_mode (mx_cfg ctx) = MACSEC_MODE_MKA_PSK then
        let (ret, mka) = macsec_mka_tick (mx_mka ctx) now_ms;
            ctx = ctx\<lparr>mx_mka := mka\<rparr>
        in if ret \<noteq> MACSEC_ERR_OK then (ret, ctx\<lparr>mx_state := MACSEC_STATE_ERROR\<rparr>)
           else
             let (ret, ctx) = macsec_service_mka ctx
             in if ret \<noteq> MACSEC_ERR_OK then (ret, ctx\<lparr>mx_state := MACSEC_STATE_ERROR\<rparr>)
                else (MACSEC_ERR_OK, ctx)
      else (MACSEC_ERR_OK, ctx))"

text \<open>\<open>tx_len\<close> is cleared first, so the length stored by the caller does not matter.\<close>

definition macsec_build_control_frame ::
  "(nat \<Rightarrow> bytes) \<Rightarrow> macsec_ctx \<Rightarrow> bytes \<Rightarrow> nat \<Rightarrow> (macsec_ret \<times> macsec_ctx \<times> bytes \<times> nat) option" where
  "macsec_build_control_frame rnd ctx tx_frame tx_max_len =
     (if cf_mode (mx_cfg ctx) \<noteq> MACSEC_MODE_MKA_PSK then Some (MACSEC_ERR_STATE, ctx, tx_frame, 0)
      else if mx_pending_mka_tx_valid ctx then Some (MACSEC_ERR_BUSY, ctx, tx_frame, 0)
      else do {
        let ctx = ctx\<lparr>mx_pending_mka_tx_meta := mka_meta_zero\<rparr>;
        (ret, mka, tx_frame, tx_len, meta) \<leftarrow>
          macsec_mka_build_tx_frame rnd (mx_mka ctx) tx_frame 0 tx_max_len (mx_pending_mka_tx_meta ctx);
        let ctx = ctx\<lparr>mx_mka := mka, mx_pending_mka_tx_meta := meta\<rparr>;
        if ret \<noteq> MACSEC_ERR_OK
        then Some (ret, ctx\<lparr>mx_pending_mka_tx_meta := mka_meta_zero\<rparr>, tx_frame, tx_len)
        else Some (MACSEC_ERR_OK, ctx\<lparr>mx_pending_mka_tx_valid := True\<rparr>, tx_frame, tx_len)
      })"

definition macsec_notify_control_tx_success :: "macsec_ctx \<Rightarrow> u32 \<Rightarrow> macsec_ret \<times> macsec_ctx" where
  "macsec_notify_control_tx_success ctx now_ms =
     (if cf_mode (mx_cfg ctx) \<noteq> MACSEC_MODE_MKA_PSK then (MACSEC_ERR_STATE, ctx)
      else if \<not> mx_pending_mka_tx_valid ctx then (MACSEC_ERR_NOT_READY, ctx)
      else
        let (ret, mka) = macsec_mka_notify_tx_success (mx_mka ctx) (mx_pending_mka_tx_meta ctx) now_ms;
            ctx = ctx\<lparr>mx_mka := mka\<rparr>
        in if ret \<noteq> MACSEC_ERR_OK then (ret, ctx\<lparr>mx_state := MACSEC_STATE_ERROR\<rparr>)
           else
             let ctx = ctx\<lparr>mx_pending_mka_tx_meta := mka_meta_zero, mx_pending_mka_tx_valid := False\<rparr>;
                 (ret, ctx) = macsec_service_mka ctx
             in if ret \<noteq> MACSEC_ERR_OK then (ret, ctx\<lparr>mx_state := MACSEC_STATE_ERROR\<rparr>)
                else (MACSEC_ERR_OK, ctx))"

definition macsec_notify_control_tx_failure :: "macsec_ctx \<Rightarrow> macsec_ret \<times> macsec_ctx" where
  "macsec_notify_control_tx_failure ctx =
     (if cf_mode (mx_cfg ctx) \<noteq> MACSEC_MODE_MKA_PSK then (MACSEC_ERR_STATE, ctx)
      else if \<not> mx_pending_mka_tx_valid ctx then (MACSEC_ERR_NOT_READY, ctx)
      else
        let mka = macsec_mka_notify_tx_failure (mx_mka ctx) (mx_pending_mka_tx_meta ctx)
        in (MACSEC_ERR_OK,
            ctx\<lparr>mx_mka := mka, mx_pending_mka_tx_meta := mka_meta_zero, mx_pending_mka_tx_valid := False\<rparr>))"

end
