(* ===== verification/MacsecInv.thy ===== *)
theory MacsecInv
  imports MkaKept Macsec FrameTrace
begin

text \<open>
  The invariant of the top level: the frame layer is well formed, the MKA participant satisfies its
  own invariant, and the data plane transmits with the SAK that the control plane reports as
  installed for transmission. Under it, the service of the participant never fails.
\<close>

subsection \<open>Installing keys\<close>

text \<open>The frame layer holds a key for transmission, or for reception.\<close>

definition tx_key_ok :: "macsec_frame_crypto_ctx \<Rightarrow> bytes \<times> nat \<times> u8 \<Rightarrow> bool" where
  "tx_key_ok fc k \<longleftrightarrow> (case k of (key, len, an) \<Rightarrow> macsec_sak_equal (fc_tx_sak fc) key len \<and> fs_an (fc_tx_sak fc) = an)"

definition rx_key_ok :: "macsec_frame_crypto_ctx \<Rightarrow> bytes \<times> nat \<times> u8 \<Rightarrow> bool" where
  "rx_key_ok fc k \<longleftrightarrow> (case k of (key, len, an) \<Rightarrow> macsec_sak_equal (fc_rx_sak fc ! unat an) key len)"

text \<open>What the operations on keys leave as it is.\<close>

definition fc_settings :: "macsec_frame_crypto_ctx \<Rightarrow> bytes \<times> bool \<times> bool \<times> u32" where
  "fc_settings fc = (fc_local_sci fc, fc_encrypt fc, fc_replay_protect fc, fc_replay_window fc)"

text \<open>A new secure association, with the lowest packet number that it accepts.\<close>

definition fresh_sa :: "bytes \<Rightarrow> nat \<Rightarrow> u8 \<Rightarrow> u32 \<Rightarrow> macsec_frame_sak" where
  "fresh_sa key len an lowest_pn = frame_sak_zero\<lparr>fs_key := arr_put (replicate 32 0) (take len key),
     fs_key_len := of_nat len, fs_an := an, fs_next_pn := 1, fs_lowest_acceptable_pn := lowest_pn,
     fs_highest_received_pn := (if lowest_pn > 1 then lowest_pn - 1 else 0), fs_valid := True\<rparr>"

lemma fresh_sa_fields:
  assumes "len = 16 \<or> len = 32" "length key = 32"
  shows "length (fs_key (fresh_sa key len an pn)) = 32" "take len (fs_key (fresh_sa key len an pn)) = take len key"
    "unat (fs_key_len (fresh_sa key len an pn)) = len" "macsec_frame_key_len_valid (fs_key_len (fresh_sa key len an pn))"
    "fs_valid (fresh_sa key len an pn)" "fs_an (fresh_sa key len an pn) = an" "macsec_sak_equal (fresh_sa key len an pn) key len"
    "fs_next_pn (fresh_sa key len an pn) = 1" "\<not> fs_replay_exhausted (fresh_sa key len an pn)"
  using assms by (auto simp: fresh_sa_def frame_sak_zero_def macsec_sak_equal_def macsec_compare_take arr_put_def
      macsec_frame_key_len_valid_def)

lemma frame_wf_key_gone:
  "frame_wf fc \<Longrightarrow> length cached = 32 \<Longrightarrow> length (fs_key tx) = 32 \<Longrightarrow> length rx = 4 \<Longrightarrow>
     \<forall>s \<in> set rx. length (fs_key s) = 32 \<Longrightarrow>
   frame_wf (fc\<lparr>fc_tx_sak := tx, fc_rx_sak := rx, fc_current_gcm_key := cached, fc_current_gcm_key_len := 0,
     fc_current_gcm_key_valid := False\<rparr>)"
  by (simp add: frame_wf_def)

lemma frame_wf_tx: "frame_wf fc \<Longrightarrow> length (fs_key tx) = 32 \<Longrightarrow> frame_wf (fc\<lparr>fc_tx_sak := tx\<rparr>)"
  by (simp add: frame_wf_def)

lemma install_rx_spec:
  assumes wf: "frame_wf (mx_frame_crypto c)" and key: "len = 16 \<or> len = 32" "length key = 32" and an: "an < 4"
  shows "macsec_install_rx_sak c key len an lowest_pn = (MACSEC_ERR_OK, c\<lparr>mx_frame_crypto := (mx_frame_crypto c)
    \<lparr>fc_rx_sak := (fc_rx_sak (mx_frame_crypto c))[unat an :=
       (if macsec_sak_equal (fc_rx_sak (mx_frame_crypto c) ! unat an) key len
        then fc_rx_sak (mx_frame_crypto c) ! unat an
        else fresh_sa key len an (if lowest_pn = 0 then 1 else lowest_pn))]\<rparr>\<rparr>)"
proof (cases "macsec_sak_equal (fc_rx_sak (mx_frame_crypto c) ! unat an) key len")
  case True
  then show ?thesis using key an by (auto simp: macsec_install_rx_sak_def Let_def word_less_nat_alt)
next
  case False
  define pn where "pn = (if lowest_pn = 0 then 1 else lowest_pn)"
  define sak where "sak = frame_sak_zero\<lparr>fs_key := arr_put (fs_key frame_sak_zero) (take len key), fs_key_len := of_nat len,
      fs_an := an, fs_lowest_acceptable_pn := pn, fs_next_pn := 1, fs_valid := True\<rparr>"
  have pn: "pn \<noteq> 0" by (simp add: pn_def)
  have "macsec_frame_crypto_set_rx_sak (mx_frame_crypto c) sak = (MACSEC_ERR_OK,
      (mx_frame_crypto c)\<lparr>fc_rx_sak := (fc_rx_sak (mx_frame_crypto c))[unat an := fresh_sa key len an pn]\<rparr>)"
    using key an pn by (auto simp: macsec_frame_crypto_set_rx_sak_def Let_def word_less_nat_alt sak_def fresh_sa_def
        frame_sak_zero_def macsec_frame_key_len_valid_def)
  then show ?thesis
    using False key an by (auto simp: macsec_install_rx_sak_def Let_def word_less_nat_alt sak_def [symmetric] pn_def [symmetric])
qed

lemma install_tx_spec:
  fixes c :: macsec_ctx
  assumes key: "len = 16 \<or> len = 32" "length key = 32" and an: "an < 4"
  defines "tx \<equiv> fc_tx_sak (mx_frame_crypto c)"
  shows "macsec_install_tx_sak c key len an = (MACSEC_ERR_OK, c\<lparr>mx_frame_crypto := (mx_frame_crypto c)
    \<lparr>fc_tx_sak := (if macsec_sak_equal tx key len \<and> fs_an tx AND 3 = an then tx else fresh_sa key len an 1)\<rparr>\<rparr>)"
proof (cases "macsec_sak_equal tx key len \<and> fs_an tx AND 3 = an")
  case True
  then show ?thesis using key an by (auto simp: macsec_install_tx_sak_def Let_def word_less_nat_alt tx_def)
next
  case False
  have "macsec_frame_crypto_set_tx_sak (mx_frame_crypto c) (fresh_sa key len an 1) = (MACSEC_ERR_OK,
      (mx_frame_crypto c)\<lparr>fc_tx_sak := fresh_sa key len an 1\<rparr>)"
    using fresh_sa_fields [OF key, of an] an
    by (simp add: macsec_frame_crypto_set_tx_sak_def Let_def word_less_nat_alt) (simp add: fresh_sa_def frame_sak_zero_def)
  moreover have "frame_sak_zero\<lparr>fs_key := arr_put (fs_key frame_sak_zero) (take len key), fs_key_len := of_nat len,
      fs_an := an, fs_next_pn := 1, fs_lowest_acceptable_pn := 1, fs_valid := True\<rparr> = fresh_sa key len an 1"
    by (simp add: fresh_sa_def frame_sak_zero_def)
  ultimately show ?thesis
    using False key an by (auto simp: macsec_install_tx_sak_def Let_def word_less_nat_alt tx_def)
qed

lemma install_rx_wf:
  assumes wf: "frame_wf fc" and key: "len = 16 \<or> len = 32" "length key = 32" and an: "an < 4"
  shows "frame_wf (fc\<lparr>fc_rx_sak := (fc_rx_sak fc)[unat an := (if p then fc_rx_sak fc ! unat an else fresh_sa key len an pn)]\<rparr>)"
proof -
  have l: "length (fc_rx_sak fc) = 4" "\<forall>s \<in> set (fc_rx_sak fc). length (fs_key s) = 32"
    using wf by (auto simp: frame_wf_def)
  then have "length (fs_key (if p then fc_rx_sak fc ! unat an else fresh_sa key len an pn)) = 32"
    using fresh_sa_fields(1) [OF key] an by (auto simp: word_less_nat_alt)
  from frame_wf_rx [OF wf this l] show ?thesis .
qed

subsection \<open>The invariant\<close>

text \<open>
  The data plane transmits with the key that MKA reports as installed for transmission, if there is
  one, and there is at most one.
\<close>

definition data_plane_ok :: "macsec_frame_crypto_ctx \<Rightarrow> macsec_mka_ctx \<Rightarrow> bool" where
  "data_plane_ok fc mka \<longleftrightarrow> tx_single mka \<and> (\<forall>k. tx_reported mka = Some k \<longrightarrow> tx_key_ok fc k)"

text \<open>Without MKA the participant stays as the erasure of the context leaves it: no keys and no SAK.\<close>

definition mka_idle :: "macsec_mka_ctx \<Rightarrow> bool" where
  "mka_idle mka \<longleftrightarrow> mk_latest_sak mka = macsec_mka_sak_clear \<and> mk_old_sak mka = macsec_mka_sak_clear \<and>
     \<not> keys_valid (mc_keys (mk_crypto mka)) \<and> \<not> mk_verify_icv mka"

definition tx_an_ok :: "macsec_frame_crypto_ctx \<Rightarrow> bool" where
  "tx_an_ok fc \<longleftrightarrow> fs_an (fc_tx_sak fc) < 4"

definition macsec_inv :: "macsec_ctx \<Rightarrow> bool" where
  "macsec_inv ctx \<longleftrightarrow> frame_wf (mx_frame_crypto ctx) \<and> tx_an_ok (mx_frame_crypto ctx) \<and>
     (if cf_mode (mx_cfg ctx) = MACSEC_MODE_MKA_PSK
      then mka_inv (mx_mka ctx) \<and> data_plane_ok (mx_frame_crypto ctx) (mx_mka ctx)
      else mka_idle (mx_mka ctx))"

lemma data_plane_kept: "data_plane_ok fc mka \<Longrightarrow> mka_kept mka mka' \<Longrightarrow> data_plane_ok fc mka'"
  by (auto simp: data_plane_ok_def mka_kept_def)

lemma macsec_inv_mka:
  "macsec_inv ctx \<Longrightarrow> cf_mode (mx_cfg ctx) = MACSEC_MODE_MKA_PSK \<Longrightarrow> mka_inv mka \<Longrightarrow> mka_kept (mx_mka ctx) mka \<Longrightarrow>
     macsec_inv (ctx\<lparr>mx_mka := mka\<rparr>)"
  by (auto simp: macsec_inv_def intro: data_plane_kept)

lemma macsec_inv_bookkeeping [simp]:
  "macsec_inv (ctx\<lparr>mx_state := s\<rparr>) = macsec_inv ctx" "macsec_inv (ctx\<lparr>mx_last_tick_ms := t\<rparr>) = macsec_inv ctx"
  "macsec_inv (ctx\<lparr>mx_pending_mka_tx_meta := m\<rparr>) = macsec_inv ctx" "macsec_inv (ctx\<lparr>mx_pending_mka_tx_valid := v\<rparr>) = macsec_inv ctx"
  by (simp_all add: macsec_inv_def)

lemma tx_key_ok_cong: "fc_tx_sak fc' = fc_tx_sak fc \<Longrightarrow> data_plane_ok fc' mka = data_plane_ok fc mka"
  by (simp add: data_plane_ok_def tx_key_ok_def)

subsection \<open>Removing the old SAK\<close>

lemma remove_old_sak_spec:
  assumes inv: "macsec_inv ctx" and mode: "cf_mode (mx_cfg ctx) = MACSEC_MODE_MKA_PSK"
  obtains fc mka where "macsec_remove_mka_old_sak ctx = (MACSEC_ERR_OK, ctx\<lparr>mx_frame_crypto := fc, mx_mka := mka\<rparr>)"
    "macsec_inv (ctx\<lparr>mx_frame_crypto := fc, mx_mka := mka\<rparr>)" "mk_latest_sak mka = mk_latest_sak (mx_mka ctx)"
    "mk_peer mka = mk_peer (mx_mka ctx)" "mk_old_sak mka = macsec_mka_sak_clear" "mka_kept (mx_mka ctx) mka"
    "fc_settings fc = fc_settings (mx_frame_crypto ctx)" "mk_local_key_server mka = mk_local_key_server (mx_mka ctx)"
    "mk_tx_reasons mka = mk_tx_reasons (mx_mka ctx)" "mk_local_mn mka = mk_local_mn (mx_mka ctx)"
    "\<exists>e \<in> {0, MACSEC_MKA_EVENT_SAK_RETIRED}. mk_pending_events mka = mk_pending_events (mx_mka ctx) OR e"
    "mk_old_sak (mx_mka ctx) = macsec_mka_sak_clear \<Longrightarrow> fc = mx_frame_crypto ctx \<and> mka = mx_mka ctx"
proof -
  define sak where "sak = mk_old_sak (mx_mka ctx)"
  define fc where "fc = mx_frame_crypto ctx"
  have wf: "frame_wf fc" "mka_inv (mx_mka ctx)" "data_plane_ok fc (mx_mka ctx)" "tx_an_ok fc"
    using inv mode by (simp_all add: macsec_inv_def fc_def)
  have ok: "mka_old_ok sak" using wf(2) by (simp add: mka_inv_def sak_def)
  show thesis
  proof (cases "ms_lifecycle_state sak = MACSEC_MKA_SAK_STATE_NONE")
    case True
    with ok have "sak = macsec_mka_sak_clear" by (simp add: mka_old_ok_def mka_sak_ok_def)
    with True inv show thesis
      by (intro that [where fc = fc and mka = "mx_mka ctx"]) (simp_all add: macsec_remove_mka_old_sak_def sak_def [symmetric] fc_def)
  next
    case False
    with ok have r: "ms_lifecycle_state sak = MACSEC_MKA_SAK_STATE_RETIRING" "ms_an sak < 4"
        "ms_sak_len sak = 16 \<or> ms_sak_len sak = 32" "length (ms_sak sak) = 32"
      by (auto simp: mka_old_ok_def mka_sak_ok_def)
    define fc1 where "fc1 = (if ms_rx_installed sak then snd (macsec_frame_crypto_remove_rx_sak fc (unat (ms_an sak))) else fc)"
    define fc2 where "fc2 = (if ms_tx_installed sak \<and> macsec_sak_equal (fc_tx_sak fc1) (ms_sak sak) (ms_sak_len sak) \<and>
        fs_an (fc_tx_sak fc1) AND 0x03 = ms_an sak AND 0x03 then snd (macsec_frame_crypto_remove_tx_sak fc1) else fc1)"
    define mka where "mka = snd (macsec_mka_notify_sak_retired (mx_mka ctx) (ms_key_number sak) (ms_an sak))"
    have zero: "length (fs_key frame_sak_zero) = 32" by (simp add: frame_sak_zero_def)
    have fc1: "frame_wf fc1" "fc_tx_sak fc1 = fc_tx_sak fc" "fc_settings fc1 = fc_settings fc"
      using wf(1) r(2) zero by (auto simp: fc1_def macsec_frame_crypto_remove_rx_sak_def frame_wf_def word_less_nat_alt
          fc_settings_def macsec_zeroize_eq dest!: set_update_subset_insert [THEN subsetD])
    have fc2: "frame_wf fc2" "fc_settings fc2 = fc_settings fc" "tx_an_ok fc2"
      using fc1 zero wf(4) by (auto simp: tx_an_ok_def frame_sak_zero_def fc2_def macsec_frame_crypto_remove_tx_sak_def frame_wf_def fc_settings_def macsec_zeroize_eq)
    have retired: "macsec_mka_notify_sak_retired (mx_mka ctx) (ms_key_number sak) (ms_an sak) = (MACSEC_ERR_OK, mka)"
      "mka = macsec_mka_raise_events ((mx_mka ctx)\<lparr>mk_old_sak := macsec_mka_sak_clear\<rparr>) MACSEC_MKA_EVENT_SAK_RETIRED"
      using r(1) by (simp_all add: mka_def macsec_mka_notify_sak_retired_def Let_def set_sak_state_update sak_def [symmetric])
    have m: "mka_inv mka" "mka_kept (mx_mka ctx) mka"
      unfolding mka_def by (rule notify_sak_retired_inv [OF wf(2)], rule kept_retired)
    have plane: "data_plane_ok fc2 mka"
    proof (cases "ms_tx_installed sak")
      case True
      then have "\<not> ms_tx_installed (mk_latest_sak (mx_mka ctx))"
        using wf(3) by (auto simp: data_plane_ok_def tx_single_def sak_def)
      then have "tx_reported mka = None" "tx_single mka"
        by (simp_all add: retired(2) tx_reported_def tx_single_def mka_step_simps macsec_mka_sak_clear_def)
      then show ?thesis by (simp add: data_plane_ok_def)
    next
      case False
      then have "fc_tx_sak fc2 = fc_tx_sak fc" using fc1(2) by (simp add: fc2_def)
      with data_plane_kept [OF wf(3) m(2)] tx_key_ok_cong [of fc2 fc] show ?thesis by simp
    qed
    have eq: "macsec_remove_mka_old_sak ctx = (MACSEC_ERR_OK, ctx\<lparr>mx_frame_crypto := fc2, mx_mka := mka\<rparr>)"
    proof -
      have s1: "(if ms_rx_installed sak then macsec_frame_crypto_remove_rx_sak fc (unat (ms_an sak)) else (MACSEC_ERR_OK, fc)) =
          (MACSEC_ERR_OK, fc1)"
        using r(2) by (simp add: fc1_def macsec_frame_crypto_remove_rx_sak_def word_less_nat_alt)
      show ?thesis
        using r(1) unfolding macsec_remove_mka_old_sak_def Let_def sak_def [symmetric] fc_def [symmetric] s1
        by (simp add: fc2_def macsec_frame_crypto_remove_tx_sak_def retired(1))
    qed
    from r(1) have "sak \<noteq> macsec_mka_sak_clear" by auto
    then show thesis
      using eq m fc2 plane retired(2) mode
      by (intro that [where fc = fc2 and mka = mka]) (simp_all add: macsec_inv_def mka_step_simps fc_def [symmetric] sak_def [symmetric])
  qed
qed

subsection \<open>Events\<close>

text \<open>What the service leaves of a context.\<close>

definition macsec_rest :: "macsec_ctx \<Rightarrow> macsec_config \<times> u32 \<times> macsec_mka_tx_meta \<times> bool \<times> bytes \<times> bool \<times> bool \<times> u32" where
  "macsec_rest ctx = (mx_cfg ctx, mx_last_tick_ms ctx, mx_pending_mka_tx_meta ctx, mx_pending_mka_tx_valid ctx,
     fc_settings (mx_frame_crypto ctx))"

definition macsec_event_state :: "u32 \<Rightarrow> macsec_state \<Rightarrow> macsec_state" where
  "macsec_event_state events s = (if events AND MACSEC_MKA_EVENT_SAK_ACTIVE \<noteq> 0 then MACSEC_STATE_SECURED
     else if events AND MACSEC_MKA_EVENT_PEER_LOST \<noteq> 0 then MACSEC_STATE_WAIT_MKA else s)"

lemma event_state_quiet:
  "macsec_event_state 0 = (\<lambda>s. s)" "macsec_event_state MACSEC_MKA_EVENT_SAK_RETIRED = (\<lambda>s. s)"
  by (simp_all add: macsec_event_state_def mka_flags fun_eq_iff)

lemma no_error_event: "mka_inv mka \<Longrightarrow> mk_pending_events mka AND MACSEC_MKA_EVENT_ERROR = 0"
  using and_exp_eq_0_iff_not_bit [of "mk_pending_events mka" 31] by (simp add: MACSEC_MKA_EVENT_ERROR_def mka_inv_def)

lemma process_events_spec:
  assumes inv: "macsec_inv ctx" and mode: "cf_mode (mx_cfg ctx) = MACSEC_MODE_MKA_PSK"
  defines "mka \<equiv> mx_mka ctx"
  obtains c where "macsec_process_mka_events ctx = (MACSEC_ERR_OK, c)" "macsec_inv c" "macsec_rest c = macsec_rest ctx"
    "mx_state c = macsec_event_state (mk_pending_events mka) (mx_state ctx)"
    "mk_latest_sak (mx_mka c) = mk_latest_sak mka" "mk_peer (mx_mka c) = mk_peer mka" "mka_kept mka (mx_mka c)"
    "mk_local_key_server (mx_mka c) = mk_local_key_server mka" "mk_tx_reasons (mx_mka c) = mk_tx_reasons mka"
    "mk_local_mn (mx_mka c) = mk_local_mn mka" "mk_old_sak (mx_mka c) \<in> {mk_old_sak mka, macsec_mka_sak_clear}"
    "mk_old_sak mka = macsec_mka_sak_clear \<Longrightarrow> mx_frame_crypto c = mx_frame_crypto ctx"
    "macsec_event_state (mk_pending_events (mx_mka c)) = (\<lambda>s. s)"
proof -
  have m: "mka_inv mka" using inv mode by (simp add: macsec_inv_def mka_def)
  define e where "e = mk_pending_events mka"
  define d where "d = ctx\<lparr>mx_mka := mka\<lparr>mk_pending_events := 0\<rparr>, mx_state := macsec_event_state e (mx_state ctx)\<rparr>"
  have d: "macsec_inv d" "macsec_rest d = macsec_rest ctx" "cf_mode (mx_cfg d) = MACSEC_MODE_MKA_PSK"
      "mka_kept mka (mx_mka d)" "mk_latest_sak (mx_mka d) = mk_latest_sak mka" "mk_old_sak (mx_mka d) = mk_old_sak mka"
      "mk_peer (mx_mka d) = mk_peer mka" "mk_tx_reasons (mx_mka d) = mk_tx_reasons mka" "mk_local_mn (mx_mka d) = mk_local_mn mka"
      "mk_local_key_server (mx_mka d) = mk_local_key_server mka" "mx_state d = macsec_event_state e (mx_state ctx)"
      "mk_pending_events (mx_mka d) = 0" "mx_frame_crypto d = mx_frame_crypto ctx"
  proof -
    have k: "mka_kept mka (mka\<lparr>mk_pending_events := 0\<rparr>)" by (rule kept_same) (simp_all add: mka_identity_def)
    then show "mka_kept mka (mx_mka d)" by (simp add: d_def)
    have "macsec_inv (ctx\<lparr>mx_mka := mka\<lparr>mk_pending_events := 0\<rparr>\<rparr>)"
      using k by (intro macsec_inv_mka [OF inv mode] mka_inv_bookkeeping m) (simp add: mka_def)
    then show "macsec_inv d" by (simp add: d_def)
  qed (use mode in \<open>simp_all add: d_def macsec_rest_def\<close>)
  have no: "e AND MACSEC_MKA_EVENT_ERROR = 0" unfolding e_def by (rule no_error_event [OF m])
  have step: "macsec_process_mka_events ctx = (if e AND MACSEC_MKA_EVENT_SAK_RETIRE_REQUIRED \<noteq> 0
      then macsec_remove_mka_old_sak d else (MACSEC_ERR_OK, d))"
    using no
    by (auto simp: macsec_process_mka_events_def Let_def macsec_mka_take_events_def mka_def [symmetric] e_def [symmetric]
        d_def macsec_event_state_def MACSEC_MKA_EVENT_NONE_def prod_eq_iff split_beta)
  show thesis
  proof (cases "e AND MACSEC_MKA_EVENT_SAK_RETIRE_REQUIRED = 0")
    case True
    with step d show thesis by (intro that [of d]) (simp_all add: e_def event_state_quiet)
  next
    case False
    show thesis
    proof (rule remove_old_sak_spec [OF d(1,3)], goal_cases)
      case (1 fc mka')
      note r = 1
      show thesis
      proof (rule that [of "d\<lparr>mx_frame_crypto := fc, mx_mka := mka'\<rparr>"], goal_cases)
        case 1
        show ?case using False r(1) step by simp
      next
        case 2
        show ?case by (rule r(2))
      next
        case 3
        show ?case using d(2) r(7) by (simp add: macsec_rest_def)
      next
        case 7
        show ?case using kept_trans [OF d(4) r(6)] by simp
      next
        case 13
        show ?case using r(11) d(12) by (auto simp: event_state_quiet)
      qed (use r d in \<open>auto simp: e_def\<close>)
    qed
  qed
qed

subsection \<open>Installing the latest SAK\<close>

lemma notify_installed_ok:
  fixes m :: macsec_mka_ctx and dirs :: u8 and pn :: u32
  defines "sak \<equiv> mk_latest_sak m"
  defines "m' \<equiv> snd (macsec_mka_notify_sak_installed m (ms_key_number sak) (ms_an sak) dirs pn)"
  defines "both \<equiv> ms_rx_installed (mk_latest_sak m') \<and> ms_tx_installed (mk_latest_sak m')"
  assumes inv: "mka_inv m" and pending: "ms_lifecycle_state sak = MACSEC_MKA_SAK_STATE_INSTALL_PENDING"
    and dirs: "dirs = MACSEC_MKA_INSTALL_RX \<or> dirs = MACSEC_MKA_INSTALL_TX"
  shows "fst (macsec_mka_notify_sak_installed m (ms_key_number sak) (ms_an sak) dirs pn) = MACSEC_ERR_OK" "mka_inv m'"
    "mka_sak_key (mk_latest_sak m') = mka_sak_key sak" "ms_key_number (mk_latest_sak m') = ms_key_number sak"
    "ms_rx_installed (mk_latest_sak m') \<longleftrightarrow> ms_rx_installed sak \<or> dirs = MACSEC_MKA_INSTALL_RX"
    "ms_tx_installed (mk_latest_sak m') \<longleftrightarrow> ms_tx_installed sak \<or> dirs = MACSEC_MKA_INSTALL_TX"
    "\<not> both \<Longrightarrow> ms_lifecycle_state (mk_latest_sak m') = MACSEC_MKA_SAK_STATE_INSTALL_PENDING \<and> mk_pending_events m' = mk_pending_events m"
    "both \<Longrightarrow> mk_pending_events m' AND MACSEC_MKA_EVENT_SAK_ACTIVE \<noteq> 0"
    "mk_peer m' = mk_peer m" "mk_local_key_server m' = mk_local_key_server m" "mk_local_mn m' = mk_local_mn m"
    "mka_reasons_ok (mk_tx_reasons m) \<Longrightarrow> mka_reasons_ok (mk_tx_reasons m')"
    "mk_old_sak m = macsec_mka_sak_clear \<Longrightarrow> mk_old_sak m' = macsec_mka_sak_clear"
    "ms_origin (mk_latest_sak m') = ms_origin sak"
proof -
  define c where "c = m\<lparr>mk_old_sak := mka_stop_old_tx (mk_old_sak m) dirs, mk_latest_sak := mka_mark_installed sak dirs pn\<rparr>"
  define b where "b = ((ms_rx_installed sak \<or> dirs = MACSEC_MKA_INSTALL_RX) \<and> (ms_tx_installed sak \<or> dirs = MACSEC_MKA_INSTALL_TX))"
  have known: "dirs \<noteq> 0" "dirs AND NOT (MACSEC_MKA_INSTALL_RX OR MACSEC_MKA_INSTALL_TX) = 0"
      "dirs AND MACSEC_MKA_INSTALL_RX \<noteq> 0 \<longleftrightarrow> dirs = MACSEC_MKA_INSTALL_RX" "dirs AND MACSEC_MKA_INSTALL_TX \<noteq> 0 \<longleftrightarrow> dirs = MACSEC_MKA_INSTALL_TX"
    using dirs by (auto simp: MACSEC_MKA_INSTALL_RX_def MACSEC_MKA_INSTALL_TX_def)
  have flags: "ms_rx_installed (mk_latest_sak c) \<longleftrightarrow> ms_rx_installed sak \<or> dirs = MACSEC_MKA_INSTALL_RX"
      "ms_tx_installed (mk_latest_sak c) \<longleftrightarrow> ms_tx_installed sak \<or> dirs = MACSEC_MKA_INSTALL_TX"
    using known(3,4) by (auto simp: c_def mka_mark_installed_def)
  have eq: "macsec_mka_notify_sak_installed m (ms_key_number sak) (ms_an sak) dirs pn =
      (if b then mka_sak_both_installed c else (MACSEC_ERR_OK, c))"
    using pending known(1,2) flags
    by (simp add: notify_sak_installed_spec sak_def [symmetric] c_def [symmetric] Let_def b_def)
  have st: "mka_state_ok (mk_state c) (mk_peer c)" using inv by (simp add: mka_inv_def c_def)
  show "mka_inv m'" unfolding m'_def by (rule notify_sak_installed_inv [OF inv])
  define act where "act = mka_activated (mk_latest_sak c)"
  have both: "mka_sak_both_installed c = (MACSEC_ERR_OK, macsec_mka_raise_events (macsec_mka_schedule_tx
      (c\<lparr>mk_latest_sak := act, mk_state := (if mp_valid (mk_peer c) \<and> mp_live (mk_peer c)
           then MACSEC_MKA_STATE_OPERATIONAL else mk_state c)\<rparr>) MACSEC_MKA_TX_REASON_SAK_USE)
      (mka_active_events (mk_latest_sak c) (mk_old_sak c)))" if b
    unfolding act_def
    by (rule both_installed_spec [OF st]) (use that flags pending in \<open>auto simp: b_def c_def mka_mark_installed_def\<close>)
  have m': "m' = (if b then snd (mka_sak_both_installed c) else c)" by (simp add: m'_def eq)
  have act: "mka_sak_key act = mka_sak_key sak" "ms_key_number act = ms_key_number sak" "ms_rx_installed act" "ms_tx_installed act"
      "ms_origin act = ms_origin sak"
    by (simp_all add: act_def c_def mka_activated_def mka_mark_installed_def mka_sak_key_def)
  have lc: "mka_sak_key (mk_latest_sak c) = mka_sak_key sak" "ms_key_number (mk_latest_sak c) = ms_key_number sak"
      "ms_origin (mk_latest_sak c) = ms_origin sak" "ms_lifecycle_state (mk_latest_sak c) = ms_lifecycle_state sak"
    by (simp_all add: c_def mka_mark_installed_def mka_sak_key_def)
  show "fst (macsec_mka_notify_sak_installed m (ms_key_number sak) (ms_an sak) dirs pn) = MACSEC_ERR_OK"
    using both by (simp add: eq)
  show "mka_sak_key (mk_latest_sak m') = mka_sak_key sak" "ms_key_number (mk_latest_sak m') = ms_key_number sak"
    "ms_origin (mk_latest_sak m') = ms_origin sak"
    using both act lc by (simp_all add: m' mka_step_simps)
  show rx: "ms_rx_installed (mk_latest_sak m') \<longleftrightarrow> ms_rx_installed sak \<or> dirs = MACSEC_MKA_INSTALL_RX"
    and tx: "ms_tx_installed (mk_latest_sak m') \<longleftrightarrow> ms_tx_installed sak \<or> dirs = MACSEC_MKA_INSTALL_TX"
    using both act flags by (auto simp: m' mka_step_simps b_def)
  have b: "both = b" by (simp add: both_def rx tx b_def)
  show "\<not> both \<Longrightarrow> ms_lifecycle_state (mk_latest_sak m') = MACSEC_MKA_SAK_STATE_INSTALL_PENDING \<and> mk_pending_events m' = mk_pending_events m"
    using lc(4) pending by (simp add: b m' c_def)
  show "both \<Longrightarrow> mk_pending_events m' AND MACSEC_MKA_EVENT_SAK_ACTIVE \<noteq> 0"
    using both by (auto simp: b m' mka_step_simps mka_active_events_def bit.conj_disj_distrib2 or_eq_0_iff mka_flags)
  show "mk_peer m' = mk_peer m" "mk_local_key_server m' = mk_local_key_server m" "mk_local_mn m' = mk_local_mn m"
    using both by (simp_all add: m' mka_step_simps c_def)
  show "mka_reasons_ok (mk_tx_reasons m) \<Longrightarrow> mka_reasons_ok (mk_tx_reasons m')"
    using both by (simp add: m' mka_step_simps c_def reasons_ok_or) (simp add: mka_flags mka_reasons_ok_def)
  show "mk_old_sak m = macsec_mka_sak_clear \<Longrightarrow> mk_old_sak m' = macsec_mka_sak_clear"
    using both by (simp add: m' mka_step_simps c_def mka_stop_old_tx_def)
qed

text \<open>The frame layer after a key was handed to it for reception, and for transmission.\<close>

definition fc_with_rx :: "macsec_frame_crypto_ctx \<Rightarrow> bytes \<Rightarrow> nat \<Rightarrow> u8 \<Rightarrow> u32 \<Rightarrow> macsec_frame_crypto_ctx" where
  "fc_with_rx fc key len an pn = fc\<lparr>fc_rx_sak := (fc_rx_sak fc)[unat an :=
     (if macsec_sak_equal (fc_rx_sak fc ! unat an) key len then fc_rx_sak fc ! unat an
      else fresh_sa key len an (if pn = 0 then 1 else pn))]\<rparr>"

definition fc_with_tx :: "macsec_frame_crypto_ctx \<Rightarrow> bytes \<Rightarrow> nat \<Rightarrow> u8 \<Rightarrow> macsec_frame_crypto_ctx" where
  "fc_with_tx fc key len an = fc\<lparr>fc_tx_sak := (if macsec_sak_equal (fc_tx_sak fc) key len \<and> fs_an (fc_tx_sak fc) AND 3 = an
     then fc_tx_sak fc else fresh_sa key len an 1)\<rparr>"

lemma fc_with_rx_facts:
  assumes wf: "frame_wf fc" and key: "len = 16 \<or> len = 32" "length key = 32" and an: "an < 4"
  shows "frame_wf (fc_with_rx fc key len an pn)" "fc_tx_sak (fc_with_rx fc key len an pn) = fc_tx_sak fc"
    "fc_settings (fc_with_rx fc key len an pn) = fc_settings fc" "rx_key_ok (fc_with_rx fc key len an pn) (key, len, an)"
proof -
  show "frame_wf (fc_with_rx fc key len an pn)" unfolding fc_with_rx_def by (rule install_rx_wf [OF wf key an])
  have "unat an < length (fc_rx_sak fc)" using wf an by (simp add: frame_wf_def word_less_nat_alt)
  then show "rx_key_ok (fc_with_rx fc key len an pn) (key, len, an)"
    using fresh_sa_fields(7) [OF key] by (simp add: rx_key_ok_def fc_with_rx_def)
qed (simp_all add: fc_with_rx_def fc_settings_def)

lemma fc_with_tx_facts:
  assumes wf: "frame_wf fc" and key: "len = 16 \<or> len = 32" "length key = 32" and an: "an < 4"
    and tx: "tx_an_ok fc"
  shows "frame_wf (fc_with_tx fc key len an)" "fc_rx_sak (fc_with_tx fc key len an) = fc_rx_sak fc"
    "fc_settings (fc_with_tx fc key len an) = fc_settings fc" "tx_key_ok (fc_with_tx fc key len an) (key, len, an)"
    "tx_an_ok (fc_with_tx fc key len an)"
proof -
  have "length (fs_key (fc_tx_sak (fc_with_tx fc key len an))) = 32"
    using wf fresh_sa_fields(1) [OF key] by (simp add: fc_with_tx_def frame_wf_def)
  then show "frame_wf (fc_with_tx fc key len an)" using frame_wf_tx [OF wf] by (simp add: fc_with_tx_def)
  show "tx_key_ok (fc_with_tx fc key len an) (key, len, an)" "tx_an_ok (fc_with_tx fc key len an)"
    using tx fresh_sa_fields(6,7) [OF key] an an_id by (auto simp: tx_key_ok_def fc_with_tx_def macsec_sak_equal_def tx_an_ok_def)
qed (simp_all add: fc_with_tx_def fc_settings_def)

text \<open>What the installation of a SAK leaves of the participant.\<close>

definition mka_rest :: "macsec_mka_ctx \<Rightarrow> macsec_mka_peer \<times> bool \<times> u32 \<times> (bytes \<times> nat \<times> u8) \<times> u32 \<times> macsec_mka_sak_origin" where
  "mka_rest mka = (mk_peer mka, mk_local_key_server mka, mk_local_mn mka, mka_sak_key (mk_latest_sak mka),
     ms_key_number (mk_latest_sak mka), ms_origin (mk_latest_sak mka))"

lemma install_rx_step:
  fixes ctx :: macsec_ctx and sak :: macsec_mka_sak
  assumes inv: "macsec_inv ctx" and mode: "cf_mode (mx_cfg ctx) = MACSEC_MODE_MKA_PSK"
    and pending: "ms_lifecycle_state (mk_latest_sak (mx_mka ctx)) = MACSEC_MKA_SAK_STATE_INSTALL_PENDING"
  defines "sak \<equiv> mk_latest_sak (mx_mka ctx)"
  assumes rx: "\<not> ms_rx_installed sak"
  obtains mka where "mka_install_rx ctx sak = (MACSEC_ERR_OK, ctx\<lparr>mx_frame_crypto :=
      fc_with_rx (mx_frame_crypto ctx) (ms_sak sak) (ms_sak_len sak) (ms_an sak) (ms_lowest_pn sak), mx_mka := mka\<rparr>)"
    "macsec_inv (ctx\<lparr>mx_frame_crypto :=
      fc_with_rx (mx_frame_crypto ctx) (ms_sak sak) (ms_sak_len sak) (ms_an sak) (ms_lowest_pn sak), mx_mka := mka\<rparr>)"
    "mka_rest mka = mka_rest (mx_mka ctx)" "ms_rx_installed (mk_latest_sak mka)"
    "ms_tx_installed (mk_latest_sak mka) = ms_tx_installed sak"
    "\<not> ms_tx_installed sak \<Longrightarrow> ms_lifecycle_state (mk_latest_sak mka) = MACSEC_MKA_SAK_STATE_INSTALL_PENDING \<and>
       mk_pending_events mka = mk_pending_events (mx_mka ctx)"
    "ms_tx_installed sak \<Longrightarrow> mk_pending_events mka AND MACSEC_MKA_EVENT_SAK_ACTIVE \<noteq> 0"
    "mka_identity mka = mka_identity (mx_mka ctx)"
    "mka_reasons_ok (mk_tx_reasons (mx_mka ctx)) \<Longrightarrow> mka_reasons_ok (mk_tx_reasons mka)"
    "mk_old_sak (mx_mka ctx) = macsec_mka_sak_clear \<Longrightarrow> mk_old_sak mka = macsec_mka_sak_clear"
proof -
  define m where "m = mx_mka ctx"
  have i: "mka_inv m" "frame_wf (mx_frame_crypto ctx)" "tx_an_ok (mx_frame_crypto ctx)" "data_plane_ok (mx_frame_crypto ctx) m"
    using inv mode by (simp_all add: macsec_inv_def m_def)
  have k: "ms_sak_len sak = 16 \<or> ms_sak_len sak = 32" "length (ms_sak sak) = 32" "ms_an sak < 4"
    using i(1) pending by (auto simp: mka_inv_def mka_latest_ok_def mka_sak_ok_def sak_def m_def)
  define m' where "m' = snd (macsec_mka_notify_sak_installed m (ms_key_number sak) (ms_an sak) MACSEC_MKA_INSTALL_RX (ms_lowest_pn sak))"
  have p: "ms_lifecycle_state (mk_latest_sak m) = MACSEC_MKA_SAK_STATE_INSTALL_PENDING" using pending by (simp add: m_def)
  note n = notify_installed_ok [OF i(1) p disjI1 [OF refl], of "ms_lowest_pn sak"]
  have sm: "mk_latest_sak m = sak" by (simp add: m_def sak_def)
  note n = n [unfolded sm, folded m'_def]
  note r = installed_reported [OF i(1), of "ms_key_number sak" "ms_an sak" MACSEC_MKA_INSTALL_RX "ms_lowest_pn sak", folded m'_def]
  have "MACSEC_MKA_INSTALL_RX AND MACSEC_MKA_INSTALL_TX = 0" by (simp add: MACSEC_MKA_INSTALL_RX_def MACSEC_MKA_INSTALL_TX_def)
  with r(2) have kept: "mka_kept m m'" by simp
  note f = fc_with_rx_facts [OF i(2) k, of "ms_lowest_pn sak"]
  define fc where "fc = fc_with_rx (mx_frame_crypto ctx) (ms_sak sak) (ms_sak_len sak) (ms_an sak) (ms_lowest_pn sak)"
  have eq: "mka_install_rx ctx sak = (MACSEC_ERR_OK, ctx\<lparr>mx_frame_crypto := fc, mx_mka := m'\<rparr>)"
  proof -
    have "macsec_install_rx_sak ctx (ms_sak sak) (ms_sak_len sak) (ms_an sak) (ms_lowest_pn sak) = (MACSEC_ERR_OK, ctx\<lparr>mx_frame_crypto := fc\<rparr>)"
      unfolding fc_def fc_with_rx_def by (rule install_rx_spec [OF i(2) k])
    moreover have "macsec_mka_notify_sak_installed m (ms_key_number sak) (ms_an sak) MACSEC_MKA_INSTALL_RX (ms_lowest_pn sak) = (MACSEC_ERR_OK, m')"
      using n(1) by (simp add: m'_def prod_eq_iff)
    ultimately show ?thesis using rx by (simp add: mka_install_rx_def m_def [symmetric])
  qed
  have plane: "data_plane_ok fc m'"
    using data_plane_kept [OF i(4) kept] f(2) tx_key_ok_cong [of fc "mx_frame_crypto ctx"] by (simp add: fc_def)
  have "tx_an_ok fc" using i(3) f(2) by (simp add: tx_an_ok_def fc_def)
  with plane f(1) n(2) have "macsec_inv (ctx\<lparr>mx_frame_crypto := fc, mx_mka := m'\<rparr>)"
    using mode by (simp add: macsec_inv_def fc_def)
  with eq n r(1) rx show thesis
    unfolding fc_def
    by (intro that [of m']) (auto simp: mka_rest_def m_def [symmetric] sm MACSEC_MKA_INSTALL_RX_def MACSEC_MKA_INSTALL_TX_def)
qed

lemma install_tx_step:
  fixes ctx :: macsec_ctx and sak :: macsec_mka_sak
  assumes inv: "macsec_inv ctx" and mode: "cf_mode (mx_cfg ctx) = MACSEC_MODE_MKA_PSK"
    and pending: "ms_lifecycle_state (mk_latest_sak (mx_mka ctx)) = MACSEC_MKA_SAK_STATE_INSTALL_PENDING"
    and sak: "mka_sak_key sak = mka_sak_key (mk_latest_sak (mx_mka ctx))" "ms_key_number sak = ms_key_number (mk_latest_sak (mx_mka ctx))"
      "\<not> ms_tx_installed sak" and rx: "ms_rx_installed (mk_latest_sak (mx_mka ctx))"
  obtains mka where "mka_install_tx ctx sak = (MACSEC_ERR_OK, ctx\<lparr>mx_frame_crypto :=
      fc_with_tx (mx_frame_crypto ctx) (ms_sak sak) (ms_sak_len sak) (ms_an sak), mx_mka := mka\<rparr>)"
    "macsec_inv (ctx\<lparr>mx_frame_crypto :=
      fc_with_tx (mx_frame_crypto ctx) (ms_sak sak) (ms_sak_len sak) (ms_an sak), mx_mka := mka\<rparr>)"
    "mka_rest mka = mka_rest (mx_mka ctx)" "ms_rx_installed (mk_latest_sak mka)" "ms_tx_installed (mk_latest_sak mka)"
    "mk_pending_events mka AND MACSEC_MKA_EVENT_SAK_ACTIVE \<noteq> 0" "mka_identity mka = mka_identity (mx_mka ctx)"
    "mka_reasons_ok (mk_tx_reasons (mx_mka ctx)) \<Longrightarrow> mka_reasons_ok (mk_tx_reasons mka)"
    "mk_old_sak (mx_mka ctx) = macsec_mka_sak_clear \<Longrightarrow> mk_old_sak mka = macsec_mka_sak_clear"
proof -
  define m where "m = mx_mka ctx"
  define l where "l = mk_latest_sak m"
  have same: "ms_sak sak = ms_sak l" "ms_sak_len sak = ms_sak_len l" "ms_an sak = ms_an l" "ms_key_number sak = ms_key_number l"
    using sak(1,2) by (simp_all add: mka_sak_key_def l_def m_def)
  have i: "mka_inv m" "frame_wf (mx_frame_crypto ctx)" "tx_an_ok (mx_frame_crypto ctx)" "data_plane_ok (mx_frame_crypto ctx) m"
    using inv mode by (simp_all add: macsec_inv_def m_def)
  have k: "ms_sak_len l = 16 \<or> ms_sak_len l = 32" "length (ms_sak l) = 32" "ms_an l < 4"
    using i(1) pending by (auto simp: mka_inv_def mka_latest_ok_def mka_sak_ok_def m_def l_def)
  define m' where "m' = snd (macsec_mka_notify_sak_installed m (ms_key_number l) (ms_an l) MACSEC_MKA_INSTALL_TX (ms_lowest_pn sak))"
  have p: "ms_lifecycle_state (mk_latest_sak m) = MACSEC_MKA_SAK_STATE_INSTALL_PENDING" using pending by (simp add: m_def)
  note n = notify_installed_ok [OF i(1) p disjI2 [OF refl], of "ms_lowest_pn sak", folded l_def, folded m'_def]
  note r = installed_reported [OF i(1), of "ms_key_number l" "ms_an l" MACSEC_MKA_INSTALL_TX "ms_lowest_pn sak", folded m'_def]
  note f = fc_with_tx_facts [OF i(2) k i(3)]
  define fc where "fc = fc_with_tx (mx_frame_crypto ctx) (ms_sak sak) (ms_sak_len sak) (ms_an sak)"
  have eq: "mka_install_tx ctx sak = (MACSEC_ERR_OK, ctx\<lparr>mx_frame_crypto := fc, mx_mka := m'\<rparr>)"
  proof -
    have "macsec_install_tx_sak ctx (ms_sak sak) (ms_sak_len sak) (ms_an sak) = (MACSEC_ERR_OK, ctx\<lparr>mx_frame_crypto := fc\<rparr>)"
      unfolding fc_def fc_with_tx_def same by (rule install_tx_spec [OF k])
    moreover have "macsec_mka_notify_sak_installed m (ms_key_number sak) (ms_an sak) MACSEC_MKA_INSTALL_TX (ms_lowest_pn sak) = (MACSEC_ERR_OK, m')"
      using n(1) by (simp add: m'_def prod_eq_iff same)
    ultimately show ?thesis using sak(3) by (simp add: mka_install_tx_def m_def [symmetric])
  qed
  have both: "ms_rx_installed (mk_latest_sak m')" "ms_tx_installed (mk_latest_sak m')"
    using n(5,6) rx by (simp_all add: l_def m_def)
  have "tx_single m" using i(4) by (simp add: data_plane_ok_def)
  then have "tx_single m'" using r(2) by (auto simp: mka_kept_def)
  moreover have "tx_reported m' = Some (mka_sak_key l)" using both(2) n(3) by (simp add: tx_reported_def)
  ultimately have "data_plane_ok fc m'"
    using f(4) by (simp add: data_plane_ok_def fc_def same mka_sak_key_def)
  then have "macsec_inv (ctx\<lparr>mx_frame_crypto := fc, mx_mka := m'\<rparr>)"
    using f n(2) mode by (simp add: macsec_inv_def fc_def same)
  with eq n both r(1) show thesis
    unfolding fc_def by (intro that [of m']) (auto simp: mka_rest_def m_def [symmetric] l_def [symmetric])
qed

lemma process_install_spec:
  assumes inv: "macsec_inv ctx" and mode: "cf_mode (mx_cfg ctx) = MACSEC_MODE_MKA_PSK"
  defines "mka \<equiv> mx_mka ctx" and "sak \<equiv> mk_latest_sak (mx_mka ctx)" and "fc \<equiv> mx_frame_crypto ctx"
  obtains c where "macsec_process_mka_sak_install ctx = (MACSEC_ERR_OK, c)" "macsec_inv c" "macsec_rest c = macsec_rest ctx"
    "mx_state c = mx_state ctx" "mka_rest (mx_mka c) = mka_rest mka" "mka_identity (mx_mka c) = mka_identity mka"
    "mka_reasons_ok (mk_tx_reasons mka) \<Longrightarrow> mka_reasons_ok (mk_tx_reasons (mx_mka c))"
    "mk_old_sak mka = macsec_mka_sak_clear \<Longrightarrow> mk_old_sak (mx_mka c) = macsec_mka_sak_clear"
    "\<not> mka_sak_available sak \<Longrightarrow> c = ctx"
    "mka_sak_available sak \<Longrightarrow> ms_rx_installed (mk_latest_sak (mx_mka c)) \<and> ms_tx_installed (mk_latest_sak (mx_mka c)) \<and>
       mk_pending_events (mx_mka c) AND MACSEC_MKA_EVENT_SAK_ACTIVE \<noteq> 0"
    "mka_sak_available sak \<Longrightarrow> \<not> ms_rx_installed sak \<Longrightarrow> \<not> ms_tx_installed sak \<Longrightarrow> mx_frame_crypto c =
       fc_with_tx (fc_with_rx fc (ms_sak sak) (ms_sak_len sak) (ms_an sak) (ms_lowest_pn sak)) (ms_sak sak) (ms_sak_len sak) (ms_an sak)"
proof -
  have i: "mka_inv mka" "frame_wf fc" "data_plane_ok fc mka"
    using inv mode by (simp_all add: macsec_inv_def mka_def fc_def)
  have latest: "mk_latest_sak mka = sak" by (simp add: sak_def mka_def)
  show thesis
  proof (cases "mka_sak_available sak")
    case False
    then have "macsec_process_mka_sak_install ctx = (MACSEC_ERR_OK, ctx)"
      by (simp add: macsec_process_mka_sak_install_def mka_def [symmetric] take_sak_spec [OF i(1)] latest)
    with False inv show thesis by (intro that [of ctx]) (simp_all add: mka_def)
  next
    case True
    define sak' where "sak' = sak\<lparr>ms_lifecycle_state := MACSEC_MKA_SAK_STATE_INSTALL_PENDING\<rparr>"
    define ctx0 where "ctx0 = ctx\<lparr>mx_mka := mka\<lparr>mk_latest_sak := sak'\<rparr>\<rparr>"
    have take: "macsec_mka_take_sak_for_install mka = (MACSEC_ERR_OK, sak', mka\<lparr>mk_latest_sak := sak'\<rparr>)"
      using True by (simp add: take_sak_spec [OF i(1)] latest sak'_def Let_def)
    have "mka_inv (mka\<lparr>mk_latest_sak := sak'\<rparr>)" "mka_kept mka (mka\<lparr>mk_latest_sak := sak'\<rparr>)"
      using take_sak_for_install_inv [OF i(1)] kept_others(3) [OF i(1)] unfolding take by simp_all
    then have inv0: "macsec_inv ctx0" unfolding ctx0_def
      by (intro macsec_inv_mka [OF inv mode]) (simp_all add: mka_def)
    have k: "ms_sak_len sak' = 16 \<or> ms_sak_len sak' = 32" "ms_an sak' < 4" "\<not> (ms_rx_installed sak' \<and> ms_tx_installed sak')"
      using inv0 mode unfolding ctx0_def sak'_def
      by (auto simp: macsec_inv_def mka_inv_def mka_latest_ok_def mka_sak_ok_def)
    have c0: "mk_latest_sak (mx_mka ctx0) = sak'" "cf_mode (mx_cfg ctx0) = MACSEC_MODE_MKA_PSK" "mx_frame_crypto ctx0 = fc"
        "mka_rest (mx_mka ctx0) = mka_rest mka" "mka_identity (mx_mka ctx0) = mka_identity mka" "macsec_rest ctx0 = macsec_rest ctx"
        "mk_tx_reasons (mx_mka ctx0) = mk_tx_reasons mka" "mk_old_sak (mx_mka ctx0) = mk_old_sak mka" "mx_state ctx0 = mx_state ctx"
        "ms_lifecycle_state sak' = MACSEC_MKA_SAK_STATE_INSTALL_PENDING"
      using mode by (simp_all add: ctx0_def sak'_def mka_rest_def mka_sak_key_def latest mka_identity_def macsec_rest_def fc_def)
    have step: "macsec_process_mka_sak_install ctx =
        (let (ret, ctx) = mka_install_rx ctx0 sak' in if ret \<noteq> MACSEC_ERR_OK then (ret, ctx)
         else let (ret, ctx) = mka_install_tx ctx sak' in if ret \<noteq> MACSEC_ERR_OK then (ret, ctx) else (MACSEC_ERR_OK, ctx))"
      using k(1,2) c0(10)
      by (auto simp: macsec_process_mka_sak_install_def mka_def [symmetric] take ctx0_def word_less_nat_alt)
    have p: "ms_lifecycle_state (mk_latest_sak (mx_mka ctx0)) = MACSEC_MKA_SAK_STATE_INSTALL_PENDING"
        "ms_lifecycle_state (mk_latest_sak (mx_mka ctx0)) = MACSEC_MKA_SAK_STATE_INSTALL_PENDING" using c0 by simp_all
    have flags: "ms_rx_installed sak' = ms_rx_installed sak" "ms_tx_installed sak' = ms_tx_installed sak" "mka_sak_key sak' = mka_sak_key sak"
        "ms_lowest_pn sak' = ms_lowest_pn sak" "ms_sak sak' = ms_sak sak" "ms_sak_len sak' = ms_sak_len sak" "ms_an sak' = ms_an sak"
      by (simp_all add: sak'_def mka_sak_key_def)
    show thesis
    proof (cases "ms_rx_installed sak'")
      case True
      then have tx: "\<not> ms_tx_installed sak'" using k(3) by simp
      have rx: "mka_install_rx ctx0 sak' = (MACSEC_ERR_OK, ctx0)" using True by (simp add: mka_install_rx_def)
      show thesis
      proof (rule install_tx_step [OF inv0 c0(2) p(1), of sak'], goal_cases)
        case (5 m)
        with rx True flags c0 show thesis
          by (intro that [of "ctx0\<lparr>mx_frame_crypto := fc_with_tx (mx_frame_crypto ctx0) (ms_sak sak') (ms_sak_len sak') (ms_an sak'),
                mx_mka := m\<rparr>"]) (simp_all add: step macsec_rest_def fc_with_tx_def fc_settings_def \<open>mka_sak_available sak\<close>)
      qed (use c0 tx True in simp_all)
    next
      case False
      then have rx': "\<not> ms_rx_installed (mk_latest_sak (mx_mka ctx0))" using c0(1) by simp
      show thesis
      proof (rule install_rx_step [OF inv0 c0(2) p(1) rx'], unfold c0(1), goal_cases)
        case (1 m)
        define ctx1 where "ctx1 = ctx0\<lparr>mx_frame_crypto := fc_with_rx (mx_frame_crypto ctx0) (ms_sak sak') (ms_sak_len sak') (ms_an sak') (ms_lowest_pn sak'),
            mx_mka := m\<rparr>"
        note rx = 1 [folded ctx1_def]
        have c1: "mx_mka ctx1 = m" "cf_mode (mx_cfg ctx1) = MACSEC_MODE_MKA_PSK" "mx_state ctx1 = mx_state ctx"
            "macsec_rest ctx1 = macsec_rest ctx"
            "mx_frame_crypto ctx1 = fc_with_rx fc (ms_sak sak) (ms_sak_len sak) (ms_an sak) (ms_lowest_pn sak)"
          using c0 flags by (simp_all add: ctx1_def macsec_rest_def fc_with_rx_def fc_settings_def)
        show thesis
        proof (cases "ms_tx_installed sak'")
          case True
          then have "mka_install_tx ctx1 sak' = (MACSEC_ERR_OK, ctx1)" by (simp add: mka_install_tx_def)
          with rx True flags c0 c1 show thesis
            by (intro that [of ctx1]) (simp_all add: step \<open>mka_sak_available sak\<close>)
        next
          case notx: False
          have key: "mka_sak_key sak' = mka_sak_key (mk_latest_sak (mx_mka ctx1))" "ms_key_number sak' = ms_key_number (mk_latest_sak (mx_mka ctx1))"
            using rx(3) c0(1) by (simp_all add: mka_rest_def c1(1))
          have p1: "ms_lifecycle_state (mk_latest_sak (mx_mka ctx1)) = MACSEC_MKA_SAK_STATE_INSTALL_PENDING"
              "ms_rx_installed (mk_latest_sak (mx_mka ctx1))"
            using rx(4,6) notx by (simp_all add: c1(1))
          show thesis
          proof (rule install_tx_step [OF rx(2) c1(2) p1(1) key notx p1(2)], goal_cases)
            case (1 m2)
            with rx c0 c1 flags notx show thesis
              by (intro that [of "ctx1\<lparr>mx_frame_crypto := fc_with_tx (mx_frame_crypto ctx1) (ms_sak sak') (ms_sak_len sak') (ms_an sak'),
                    mx_mka := m2\<rparr>"]) (simp_all add: step macsec_rest_def fc_with_tx_def fc_settings_def \<open>mka_sak_available sak\<close>)
          qed
        qed
      qed
    qed
  qed
qed

subsection \<open>The service never fails\<close>

lemma service_spec:
  assumes inv: "macsec_inv ctx" and mode: "cf_mode (mx_cfg ctx) = MACSEC_MODE_MKA_PSK"
  defines "mka \<equiv> mx_mka ctx" and "sak \<equiv> mk_latest_sak (mx_mka ctx)" and "fc \<equiv> mx_frame_crypto ctx"
  obtains c where "macsec_service_mka ctx = (MACSEC_ERR_OK, c)" "macsec_inv c" "macsec_rest c = macsec_rest ctx"
    "mka_rest (mx_mka c) = mka_rest mka" "mka_identity (mx_mka c) = mka_identity mka"
    "mka_reasons_ok (mk_tx_reasons mka) \<Longrightarrow> mka_reasons_ok (mk_tx_reasons (mx_mka c))"
    "mk_old_sak mka = macsec_mka_sak_clear \<Longrightarrow> mk_old_sak (mx_mka c) = macsec_mka_sak_clear"
    "mka_sak_available sak \<Longrightarrow> ms_rx_installed (mk_latest_sak (mx_mka c)) \<and> ms_tx_installed (mk_latest_sak (mx_mka c)) \<and>
       mx_state c = MACSEC_STATE_SECURED"
    "mka_sak_available sak \<Longrightarrow> \<not> ms_rx_installed sak \<Longrightarrow> \<not> ms_tx_installed sak \<Longrightarrow> mk_old_sak mka = macsec_mka_sak_clear \<Longrightarrow>
     mx_frame_crypto c =
       fc_with_tx (fc_with_rx fc (ms_sak sak) (ms_sak_len sak) (ms_an sak) (ms_lowest_pn sak)) (ms_sak sak) (ms_sak_len sak) (ms_an sak)"
    "\<not> mka_sak_available sak \<Longrightarrow> mk_latest_sak (mx_mka c) = sak \<and> mk_tx_reasons (mx_mka c) = mk_tx_reasons mka \<and>
       mx_state c = macsec_event_state (mk_pending_events mka) (mx_state ctx)"
    "\<not> mka_sak_available sak \<Longrightarrow> mk_old_sak mka = macsec_mka_sak_clear \<Longrightarrow> mx_frame_crypto c = fc"
proof -
  show thesis
  proof (rule process_events_spec [OF inv mode], goal_cases)
  case (1 c1)
  note e1 = 1
  have m1: "cf_mode (mx_cfg c1) = MACSEC_MODE_MKA_PSK" using e1(3) mode by (simp add: macsec_rest_def)
  have r1: "mka_rest (mx_mka c1) = mka_rest mka" using e1(5,6,8,10) by (simp add: mka_rest_def mka_def)
  show thesis
  proof (rule process_install_spec [OF e1(2) m1], goal_cases)
    case (1 c2)
    note p = 1
    have m2: "cf_mode (mx_cfg c2) = MACSEC_MODE_MKA_PSK" using p(3) m1 by (simp add: macsec_rest_def)
    show thesis
    proof (rule process_events_spec [OF p(2) m2], goal_cases)
      case (1 c3)
      note e2 = 1
      have run: "macsec_service_mka ctx = (MACSEC_ERR_OK, c3)"
        using e1(1) p(1) e2(1) by (simp add: macsec_service_mka_def)
      have l1: "mk_latest_sak (mx_mka c1) = sak" using e1(5) by (simp add: sak_def)
      have r2: "mka_rest (mx_mka c3) = mka_rest mka"
        using e2(5,6,8,10) p(5) r1 by (simp add: mka_rest_def)
      have id: "mka_identity (mx_mka c3) = mka_identity mka"
        using e1(7) e2(7) p(6) by (simp add: mka_kept_def mka_def)
      have old: "mk_old_sak (mx_mka c3) = macsec_mka_sak_clear \<and> mk_old_sak (mx_mka c2) = macsec_mka_sak_clear \<and>
          mk_old_sak (mx_mka c1) = macsec_mka_sak_clear" if "mk_old_sak mka = macsec_mka_sak_clear"
        using that e1(11) p(8) e2(11) by (auto simp: mka_def)
      have ready: "mx_state c3 = MACSEC_STATE_SECURED" if "mka_sak_available sak"
        using p(10) that l1 e2(4) by (simp add: macsec_event_state_def)
      have idle: "mx_state c3 = macsec_event_state (mk_pending_events mka) (mx_state ctx)" if "\<not> mka_sak_available sak"
        using p(9) that l1 e2(4) e1(4,13) by (simp add: mka_def)
      show thesis
      proof (rule that [OF run e2(2) _ r2 id], goal_cases)
        case 1
        show ?case using e1(3) p(3) e2(3) by simp
      next
        case 2
        then show ?case using e1(9) p(7) e2(9) by (simp add: mka_def)
      next
        case 4
        then show ?case using ready p(10) l1 e2(5) by simp
      next
        case 5
        then show ?case using p(11) l1 e1(12) old [OF 5(4)] e2(12) by (simp add: fc_def mka_def)
      next
        case 6
        then show ?case using p(9) l1 idle e1(9) e2(5,9) by (simp add: mka_def)
      next
        case 7
        then show ?case using p(9) l1 old [OF 7(2)] e1(12) e2(12) by (simp add: fc_def mka_def)
      qed (use old in simp)
    qed
  qed
  qed
qed

subsection \<open>The participant without keys\<close>

lemma idle_dist:
  assumes idle: "mka_idle m"
  obtains ret where "macsec_mka_parse_distributed_sak m frame = Some (ret, m)" "ret \<noteq> MACSEC_ERR_OK"
proof (cases rule: param_find_total [of frame MACSEC_MKA_PARAM_DISTRIBUTED_SAK])
  case (stop ret)
  then show thesis by (intro that [of ret]) (auto simp: macsec_mka_parse_distributed_sak_def)
next
  case (found pos flags body_len)
  have kek: "\<not> macsec_mka_kek_ready (mk_crypto m)" using idle by (simp add: mka_idle_def macsec_mka_kek_ready_def)
  show thesis
  proof (cases "body_len < 28 \<or> macsec_rd_be32 (take 4 (drop (pos + 4) frame)) = 0 \<or> body_len - 4 \<noteq> 24 \<and> body_len - 4 \<noteq> 40")
    case True
    with found show thesis
      by (intro that [of MACSEC_ERR_BUFFER]) (auto simp: macsec_mka_parse_distributed_sak_def buf_simps Let_def)
  next
    case False
    with found kek show thesis
      by (intro that [of MACSEC_ERR_STATE])
         (auto simp: macsec_mka_parse_distributed_sak_def buf_simps Let_def macsec_mka_crypto_unwrap_sak_def)
  qed
qed

lemma idle_sak_use:
  assumes idle: "mka_idle m"
  obtains ret where "macsec_mka_parse_sak_use m frame = Some (ret, m)" "ret \<noteq> MACSEC_ERR_OK"
proof (cases rule: param_find_total [of frame MACSEC_MKA_PARAM_SAK_USE])
  case (stop ret)
  then show thesis by (intro that [of ret]) (auto simp: macsec_mka_parse_sak_use_def)
next
  case (found pos flags body_len)
  with idle show thesis
    by (intro that [of "if body_len < 40 then MACSEC_ERR_BUFFER else MACSEC_ERR_NOT_READY"])
       (auto simp: macsec_mka_parse_sak_use_def buf_simps Let_def mka_idle_def macsec_mka_sak_clear_def)
qed

lemma idle_cong:
  "mk_latest_sak m' = mk_latest_sak m \<Longrightarrow> mk_old_sak m' = mk_old_sak m \<Longrightarrow> mk_crypto m' = mk_crypto m \<Longrightarrow>
     mk_verify_icv m' = mk_verify_icv m \<Longrightarrow> mka_idle m' = mka_idle m"
  by (simp add: mka_idle_def)

text \<open>
  What a frame does to a participant without keys: it returns an error, or the frame is one that the
  participant takes as its own, or a forbidden transition out of \<open>MACSEC_MKA_STATE_INIT\<close> raises the
  error event.
\<close>

lemma idle_input:
  assumes idle: "mka_idle m"
  obtains ret m' where "macsec_mka_input rnd m frame now = Some (ret, m')" "mka_idle m'"
    "ret = MACSEC_ERR_OK \<Longrightarrow> mk_state m = MACSEC_MKA_STATE_INIT \<Longrightarrow> \<not> mp_valid (mk_peer m) \<Longrightarrow>
      (\<exists>b. macsec_mka_parse_basic frame mka_basic_zero = Some (MACSEC_ERR_OK, b) \<and> mka_own_frame m b) \<or>
      mk_pending_events m' AND MACSEC_MKA_EVENT_ERROR \<noteq> 0"
proof -
  obtain mka where mka: "macsec_mka_is_eapol_mka frame = Some mka" by (simp add: is_eapol_mka_spec)
  show thesis
  proof (rule parse_basic_total [of frame mka_basic_zero], goal_cases)
    case (1 pret b)
    define c1 where "c1 = m\<lparr>mk_last_icv_valid := False, mk_last_basic := b, mk_last_rx_ms := now\<rparr>"
    have c1: "mka_idle c1" using idle idle_cong [of c1 m] by (simp add: c1_def)
    show thesis
    proof (cases "\<not> mka \<or> pret \<noteq> MACSEC_ERR_OK \<or> mka_own_frame m b")
      case True
      with mka 1 idle show thesis
        by (intro that [of "if \<not> mka then MACSEC_ERR_PARAM else if pret \<noteq> MACSEC_ERR_OK then pret else MACSEC_ERR_OK" m])
           (auto simp: macsec_mka_input_def mka_input_authenticate_def mka_own_frame_def Let_def split: if_splits)
    next
      case False
      then have auth: "mka_input_authenticate m frame = Some (Inr b, m\<lparr>mk_last_icv_valid := False\<rparr>)"
        using mka 1 idle by (auto simp: mka_input_authenticate_def mka_own_frame_def Let_def mka_idle_def)
      obtain dret where d: "macsec_mka_parse_distributed_sak c1 frame = Some (dret, c1)" "dret \<noteq> MACSEC_ERR_OK" by (rule idle_dist [OF c1])
      obtain seen mn type where seen: "macsec_mka_frame_contains_peer_entry frame (mk_local_mi c1) = Some (seen, mn, type)"
        using contains_peer_total by (metis not_None_eq surj_pair)
      define changed where "changed \<longleftrightarrow> \<not> mp_valid (mk_peer c1) \<or>
        macsec_compare (mp_mi (mk_peer c1)) (mb_actor_mi b) 12 \<noteq> 0 \<or>
        macsec_compare (mp_sci (mk_peer c1)) (mb_sci b) 8 \<noteq> 0 \<or>
        macsec_compare (mp_mac (mk_peer c1)) (mb_src_mac b) 6 \<noteq> 0"
      define c3 where "c3 = mka_input_peer c1 b changed (mp_live (mk_peer c1)) seen now"
      define c4 where "c4 = c3\<lparr>mk_local_key_server := macsec_mka_local_wins_key_server c3\<rparr>"
      note f3 = input_peer_fields(9,10,13) [of c1 b changed "mp_live (mk_peer c1)" seen now, folded c3_def]
      have "mk_verify_icv c3 = mk_verify_icv c1"
        by (simp add: c3_def mka_input_peer_def Let_def macsec_mka_set_state_def macsec_mka_raise_events_def)
      with f3 c1 idle_cong [of c4 c1] have c4: "mka_idle c4" by (simp add: c4_def)
      obtain uret where u: "macsec_mka_parse_sak_use c4 frame = Some (uret, c4)" "uret \<noteq> MACSEC_ERR_OK" by (rule idle_sak_use [OF c4])
      have none: "ms_lifecycle_state (mk_latest_sak c4) = MACSEC_MKA_SAK_STATE_NONE" using c4 by (simp add: mka_idle_def)
      have r: "(if changed \<and> mk_local_key_server c4 \<and> ms_lifecycle_state (mk_latest_sak c4) \<noteq> MACSEC_MKA_SAK_STATE_NONE
          then macsec_mka_start_rekey rnd c4 else (MACSEC_ERR_OK, c4)) = (MACSEC_ERR_OK, c4)" using none by simp
      define m' where "m' = mka_input_events c4 changed (\<not> mp_live (mk_peer c1) \<and> mp_live (mk_peer c3))
        (\<not> changed \<and> mp_live (mk_peer c1) \<and> \<not> mp_live (mk_peer c3)) (mk_local_key_server c1 \<noteq> mk_local_key_server c4)"
      note f5 = input_events_fields [of c4 changed "\<not> mp_live (mk_peer c1) \<and> mp_live (mk_peer c3)"
        "\<not> changed \<and> mp_live (mk_peer c1) \<and> \<not> mp_live (mk_peer c3)" "mk_local_key_server c1 \<noteq> mk_local_key_server c4", folded m'_def]
      have m': "mka_idle m'"
        using c4 f5(2,3) by (simp add: mka_idle_def) (simp add: m'_def mka_input_events_def Let_def mka_step_simps)
      have run: "macsec_mka_input rnd m frame now = (if dret \<noteq> MACSEC_ERR_NOT_READY then Some (dret, c1)
          else if uret \<noteq> MACSEC_ERR_NOT_READY then Some (uret, c4) else Some (MACSEC_ERR_OK, m'))"
        using d(2) u(2)
        unfolding macsec_mka_input_def Let_def auth bind.bind_lunit prod.case sum.case c1_def [symmetric]
          changed_def [symmetric] d(1) seen c3_def [symmetric] c4_def [symmetric] r u(1) m'_def [symmetric]
        by simp
      have err: "mk_pending_events m' AND MACSEC_MKA_EVENT_ERROR \<noteq> 0" if "mk_state m = MACSEC_MKA_STATE_INIT" "\<not> mp_valid (mk_peer m)"
      proof -
        have "changed" using that(2) by (simp add: changed_def c1_def)
        moreover have "mk_state c1 = MACSEC_MKA_STATE_INIT" using that(1) by (simp add: c1_def)
        ultimately have "mk_pending_events c3 AND MACSEC_MKA_EVENT_ERROR \<noteq> 0"
          by (simp add: c3_def mka_input_peer_def Let_def macsec_mka_set_state_def macsec_mka_raise_events_def
              mka_flags bit.conj_disj_distrib2 or_eq_0_iff)
        then show ?thesis using f5(7) by (auto simp: c4_def)
      qed
      show thesis
      proof (cases "dret = MACSEC_ERR_NOT_READY \<and> uret = MACSEC_ERR_NOT_READY")
        case True
        with run m' err False show thesis by (intro that [of MACSEC_ERR_OK m']) simp_all
      next
        case other: False
        with run c1 c4 d(2) u(2) show thesis
          by (intro that [of "if dret \<noteq> MACSEC_ERR_NOT_READY then dret else uret" "if dret \<noteq> MACSEC_ERR_NOT_READY then c1 else c4"]) auto
      qed
    qed
  qed
qed

lemma idle_service:
  assumes inv: "macsec_inv ctx" and mode: "cf_mode (mx_cfg ctx) \<noteq> MACSEC_MODE_MKA_PSK"
  obtains ret c where "macsec_service_mka ctx = (ret, c)" "macsec_inv c" "macsec_rest c = macsec_rest ctx"
    "mx_frame_crypto c = mx_frame_crypto ctx"
    "mk_pending_events (mx_mka ctx) AND MACSEC_MKA_EVENT_ERROR \<noteq> 0 \<Longrightarrow> ret \<noteq> MACSEC_ERR_OK"
proof -
  have idle: "mka_idle (mx_mka ctx)" using inv mode by (simp add: macsec_inv_def)
  have events: "\<exists>ret c. macsec_process_mka_events d = (ret, c) \<and> macsec_inv c \<and> macsec_rest c = macsec_rest d \<and>
      mx_frame_crypto c = mx_frame_crypto d \<and>
      (mk_pending_events (mx_mka d) AND MACSEC_MKA_EVENT_ERROR \<noteq> 0 \<longrightarrow> ret \<noteq> MACSEC_ERR_OK)"
    if d: "macsec_inv d" "cf_mode (mx_cfg d) \<noteq> MACSEC_MODE_MKA_PSK" for d
  proof -
    have id: "mka_idle (mx_mka d)" using d by (simp add: macsec_inv_def)
    define m where "m = (mx_mka d)\<lparr>mk_pending_events := 0\<rparr>"
    have "mka_idle m" using id by (simp add: m_def mka_idle_def)
    then have inv': "macsec_inv (d\<lparr>mx_mka := m, mx_state := s\<rparr>)" "macsec_inv (d\<lparr>mx_mka := m\<rparr>)" for s
      using d by (simp_all add: macsec_inv_def)
    have old: "macsec_remove_mka_old_sak (d\<lparr>mx_mka := m, mx_state := s\<rparr>) = (MACSEC_ERR_OK, d\<lparr>mx_mka := m, mx_state := s\<rparr>)"
      "macsec_remove_mka_old_sak (d\<lparr>mx_mka := m\<rparr>) = (MACSEC_ERR_OK, d\<lparr>mx_mka := m\<rparr>)" for s
      using id by (simp_all add: macsec_remove_mka_old_sak_def mka_idle_def m_def)
    have double: "d\<lparr>mx_mka := m, mx_state := s, mx_state := t\<rparr> = d\<lparr>mx_mka := m, mx_state := t\<rparr>" for s t by simp
    show ?thesis
      using inv' old
      by (cases "mk_pending_events (mx_mka d) AND MACSEC_MKA_EVENT_ERROR = 0";
          cases "mk_pending_events (mx_mka d) AND MACSEC_MKA_EVENT_PEER_LOST = 0";
          cases "mk_pending_events (mx_mka d) AND MACSEC_MKA_EVENT_SAK_ACTIVE = 0")
         (auto simp: macsec_process_mka_events_def macsec_mka_take_events_def Let_def m_def [symmetric] macsec_rest_def
            MACSEC_MKA_EVENT_NONE_def)
  qed
  have install: "macsec_process_mka_sak_install d = (MACSEC_ERR_OK, d)" if "mka_idle (mx_mka d)" for d
    using that by (simp add: macsec_process_mka_sak_install_def macsec_mka_take_sak_for_install_def mka_idle_def)
  from events [OF inv mode] obtain r1 c1 where e1: "macsec_process_mka_events ctx = (r1, c1)" "macsec_inv c1"
      "macsec_rest c1 = macsec_rest ctx" "mx_frame_crypto c1 = mx_frame_crypto ctx"
      "mk_pending_events (mx_mka ctx) AND MACSEC_MKA_EVENT_ERROR \<noteq> 0 \<longrightarrow> r1 \<noteq> MACSEC_ERR_OK" by blast
  have m1: "cf_mode (mx_cfg c1) \<noteq> MACSEC_MODE_MKA_PSK" using e1(3) mode by (simp add: macsec_rest_def)
  then have i1: "mka_idle (mx_mka c1)" using e1(2) by (simp add: macsec_inv_def)
  show thesis
  proof (cases "r1 = MACSEC_ERR_OK")
    case False
    with e1 show thesis by (intro that [of r1 c1]) (simp_all add: macsec_service_mka_def)
  next
    case True
    from events [OF e1(2) m1] obtain r2 c2 where e2: "macsec_process_mka_events c1 = (r2, c2)" "macsec_inv c2"
        "macsec_rest c2 = macsec_rest c1" "mx_frame_crypto c2 = mx_frame_crypto c1" by blast
    with e1 True i1 show thesis
      by (intro that [of r2 c2]) (simp_all add: macsec_service_mka_def install)
  qed
qed

subsection \<open>Operations\<close>

text \<open>What every operation leaves: the configuration and the settings of the frame layer.\<close>

definition macsec_fixed :: "macsec_ctx \<Rightarrow> macsec_config \<times> bytes \<times> bool \<times> bool \<times> u32" where
  "macsec_fixed ctx = (mx_cfg ctx, fc_settings (mx_frame_crypto ctx))"

lemma rest_fixed: "macsec_rest c = macsec_rest d \<Longrightarrow> macsec_fixed c = macsec_fixed d"
  by (simp add: macsec_rest_def macsec_fixed_def)

lemma fixed_simps [simp]:
  "macsec_fixed (ctx\<lparr>mx_state := s\<rparr>) = macsec_fixed ctx" "macsec_fixed (ctx\<lparr>mx_last_tick_ms := t\<rparr>) = macsec_fixed ctx"
  "macsec_fixed (ctx\<lparr>mx_pending_mka_tx_meta := m\<rparr>) = macsec_fixed ctx" "macsec_fixed (ctx\<lparr>mx_mka := mka\<rparr>) = macsec_fixed ctx"
  "macsec_fixed (ctx\<lparr>mx_pending_mka_tx_valid := v\<rparr>) = macsec_fixed ctx"
  by (simp_all add: macsec_fixed_def)

lemma service_total:
  assumes inv: "macsec_inv ctx"
  obtains ret c where "macsec_service_mka ctx = (ret, c)" "macsec_inv c" "macsec_rest c = macsec_rest ctx"
    "cf_mode (mx_cfg ctx) = MACSEC_MODE_MKA_PSK \<Longrightarrow> ret = MACSEC_ERR_OK \<and> (mx_state c = MACSEC_STATE_ERROR \<longrightarrow> mx_state ctx = MACSEC_STATE_ERROR)"
proof (cases "cf_mode (mx_cfg ctx) = MACSEC_MODE_MKA_PSK")
  case True
  show thesis
  proof (rule service_spec [OF inv True], goal_cases)
    case (1 c)
    have "mx_state c = MACSEC_STATE_ERROR \<longrightarrow> mx_state ctx = MACSEC_STATE_ERROR"
      using 1(8,10) by (cases "mka_sak_available (mk_latest_sak (mx_mka ctx))") (simp_all add: macsec_event_state_def)
    then show ?case by (intro that [OF 1(1-3)]) simp
  qed
next
  case False
  show thesis
  proof (rule idle_service [OF inv False], goal_cases)
    case (1 ret c)
    show ?case by (rule that [OF 1(1-3)]) (use False in simp)
  qed
qed

lemma input_mka_total:
  assumes inv: "macsec_inv ctx" and rnd: "length (rnd 16) = 16"
  obtains ret c where "macsec_input_mka rnd ctx frame = Some (ret, c)" "macsec_inv c" "macsec_fixed c = macsec_fixed ctx"
    "ret \<noteq> MACSEC_ERR_OK \<Longrightarrow> mx_state c = MACSEC_STATE_ERROR"
proof -
  obtain ret mka where in_: "macsec_mka_input rnd (mx_mka ctx) frame (mx_last_tick_ms ctx) = Some (ret, mka)"
      "macsec_inv (ctx\<lparr>mx_mka := mka\<rparr>)"
  proof (cases "cf_mode (mx_cfg ctx) = MACSEC_MODE_MKA_PSK")
    case True
    then have m: "mka_inv (mx_mka ctx)" using inv by (simp add: macsec_inv_def)
    show thesis
    proof (rule input_total [where rnd = rnd and frame = frame and now = "mx_last_tick_ms ctx", OF m rnd], goal_cases)
      case (1 ret c)
      then show thesis
        using kept_input [where rnd = rnd, OF m rnd] by (intro that [OF 1(1)] macsec_inv_mka [OF inv True])
    qed
  next
    case False
    then have m: "mka_idle (mx_mka ctx)" using inv by (simp add: macsec_inv_def)
    show thesis
      by (rule idle_input [where rnd = rnd and frame = frame and now = "mx_last_tick_ms ctx", OF m], rule that)
         (use inv False in \<open>simp_all add: macsec_inv_def\<close>)
  qed
  show thesis
  proof (cases "ret = MACSEC_ERR_OK")
    case False
    with in_ show thesis
      by (intro that [of ret "ctx\<lparr>mx_mka := mka, mx_state := MACSEC_STATE_ERROR\<rparr>"]) (simp_all add: macsec_input_mka_def Let_def)
  next
    case True
    show thesis
    proof (rule service_total [OF in_(2)], goal_cases)
      case (1 sret c)
      with True in_ rest_fixed [OF 1(3)] show thesis
        by (intro that [of sret "if sret = MACSEC_ERR_OK then c else c\<lparr>mx_state := MACSEC_STATE_ERROR\<rparr>"])
           (simp_all add: macsec_input_mka_def Let_def)
    qed
  qed
qed

end
