(* ===== verification/MacsecMachine.thy ===== *)
theory MacsecMachine
  imports MacsecInv
begin

text \<open>
  The top level as a machine: an initial context for every successful \<open>macsec_init\<close>, and one step for
  every call of an operation of \<open>macsec.h\<close> with any frame, buffer, time and random bytes. Its
  invariant is \<open>macsec_inv\<close>; the interpretation of \<open>safe_machine\<close> on it gives the properties of all
  reachable contexts.
\<close>

subsection \<open>The data plane\<close>

lemma macsec_inv_frame:
  assumes inv: "macsec_inv ctx" and fc: "frame_wf fc" "fs_an (fc_tx_sak fc) = fs_an (fc_tx_sak (mx_frame_crypto ctx))"
      "\<And>key len. macsec_sak_equal (fc_tx_sak fc) key len = macsec_sak_equal (fc_tx_sak (mx_frame_crypto ctx)) key len"
  shows "macsec_inv (ctx\<lparr>mx_frame_crypto := fc\<rparr>)"
proof -
  have "tx_key_ok fc k = tx_key_ok (mx_frame_crypto ctx) k" for k
    using fc by (simp add: tx_key_ok_def split: prod.splits)
  then have "data_plane_ok fc m = data_plane_ok (mx_frame_crypto ctx) m" for m by (simp add: data_plane_ok_def)
  with inv fc show ?thesis by (auto simp: macsec_inv_def tx_an_ok_def)
qed

lemma macsec_input_total:
  assumes inv: "macsec_inv ctx" and rnd: "length (rnd 16) = 16" and room: "max_len \<le> length plain"
  obtains ret c plain' n pass where "macsec_input rnd ctx f plain max_len = Some (ret, c, plain', n, pass)"
    "macsec_inv c" "macsec_fixed c = macsec_fixed ctx" "length plain' = length plain" "n \<le> max_len"
    "pass = (ret = MACSEC_ERR_OK \<and> (cf_mode (mx_cfg ctx) = MACSEC_MODE_DISABLED \<or> macsec_mka_is_eapol_mka f = Some False))"
    "\<not> pass \<Longrightarrow> n = 0" "ret \<noteq> MACSEC_ERR_OK \<Longrightarrow> mx_state c = MACSEC_STATE_ERROR \<or> mx_state c = mx_state ctx"
proof (cases "cf_mode (mx_cfg ctx) = MACSEC_MODE_DISABLED")
  case True
  show thesis
  proof (cases "length f \<le> max_len")
    case False
    with True inv show thesis
      by (intro that [of MACSEC_ERR_BUFFER ctx plain 0 False]) (simp_all add: macsec_input_def)
  next
    case fits: True
    with True inv room show thesis
      by (intro that [of MACSEC_ERR_OK ctx "f @ drop (length f) plain" "length f" True])
         (simp_all add: macsec_input_def buf_put_def)
  qed
next
  case protected: False
  obtain mka where mka: "macsec_mka_is_eapol_mka f = Some mka" by (simp add: is_eapol_mka_spec)
  show thesis
  proof (cases mka)
    case True
    show thesis
    proof (rule input_mka_total [where rnd = rnd, OF inv rnd, of f], goal_cases)
      case (1 ret c)
      with protected mka True show thesis
        by (intro that [of ret c plain 0 False]) (simp_all add: macsec_input_def)
    qed
  next
    case False
    note nomka = this
    show thesis
    proof (cases "macsec_frame_is_macsec f = Some True")
      case True
      show thesis
      proof (cases "mx_state ctx = MACSEC_STATE_SECURED")
        case False
        with protected mka nomka True inv show thesis
          by (intro that [of MACSEC_ERR_NOT_READY ctx plain 0 False]) (simp_all add: macsec_input_def)
      next
        case secured: True
        have wf: "frame_wf (mx_frame_crypto ctx)" using inv by (simp add: macsec_inv_def)
        have step: "macsec_input rnd ctx f plain max_len = (case macsec_frame_decrypt (mx_frame_crypto ctx) f plain max_len of
            None \<Rightarrow> None | Some (ret, fc, plain', n) \<Rightarrow> Some (ret, ctx\<lparr>mx_frame_crypto := fc\<rparr>, plain', n, ret = MACSEC_ERR_OK))"
          using protected mka nomka True secured
          by (auto simp: macsec_input_def Let_def split: option.splits)
        note outcome = frame_decrypt_outcome [OF wf room, where f = f, case_names early forged accepted]
        show thesis
        proof (cases rule: outcome)
          case (early e)
          with step inv mka nomka show thesis by (intro that [of e ctx plain 0 False]) simp_all
        next
          case (forged g)
          with step mka nomka frame_rx_guard_NoneD(1,3) [OF forged(1)] room show thesis
            by (intro that [of MACSEC_ERR_AUTH "ctx\<lparr>mx_frame_crypto := g\<rparr>" "replicate (length f - 32) 0 @ drop (length f - 32) plain" 0 False]
                macsec_inv_frame [OF inv]) (simp_all add: frame_same_def macsec_fixed_def fc_settings_def)
        next
          case (accepted g p sak)
          with step mka nomka frame_rx_guard_NoneD(1,3) [OF accepted(1)] room show thesis
            by (intro that [of MACSEC_ERR_OK "ctx\<lparr>mx_frame_crypto := g\<lparr>fc_rx_sak := (fc_rx_sak (mx_frame_crypto ctx))[frame_an f := sak]\<rparr>\<rparr>"
                  "take 12 f @ p @ drop (length f - 32) plain" "length f - 32" True]
                macsec_inv_frame [OF inv]) (simp_all add: frame_same_def macsec_fixed_def fc_settings_def)
        qed
      qed
    next
      case False
      define ret where "ret = (if 14 \<le> length f \<and> macsec_rd_be16 (take 2 (drop 12 f)) = MACSEC_ETHERTYPE_EAPOL
        then MACSEC_ERR_UNSUPPORTED else MACSEC_ERR_AUTH)"
      have "macsec_frame_is_macsec f = Some False" using False by (simp add: frame_is_macsec_eq)
      with protected mka nomka have "macsec_input rnd ctx f plain max_len = Some (ret, ctx, plain, 0, False)"
        by (auto simp: macsec_input_def ret_def buf_simps)
      with inv show thesis by (intro that [of ret ctx plain 0 False]) (simp_all add: ret_def)
    qed
  qed
qed

lemma macsec_output_total:
  assumes inv: "macsec_inv ctx" and room: "max_len \<le> length out"
  obtains ret c out' n where "macsec_output ctx plain out max_len = Some (ret, c, out', n)"
    "macsec_inv c" "macsec_fixed c = macsec_fixed ctx" "length out' = length out" "n \<le> max_len"
    "mx_state c = mx_state ctx" "ret \<noteq> MACSEC_ERR_OK \<Longrightarrow> n = 0 \<and> out' = out \<and> c = ctx"
    "ret = MACSEC_ERR_OK \<Longrightarrow> cf_mode (mx_cfg ctx) \<noteq> MACSEC_MODE_DISABLED \<Longrightarrow> mx_state ctx = MACSEC_STATE_SECURED \<and>
       n = length plain + 32 \<and>
       take n out' = frame_seal (fc_tx_sak (mx_frame_crypto ctx)) (fc_local_sci (mx_frame_crypto ctx)) plain"
proof (cases "cf_mode (mx_cfg ctx) = MACSEC_MODE_DISABLED")
  case True
  show thesis
  proof (cases "length plain \<le> max_len")
    case False
    with True inv show thesis by (intro that [of MACSEC_ERR_BUFFER ctx out 0]) (simp_all add: macsec_output_def)
  next
    case fits: True
    with True inv room show thesis
      by (intro that [of MACSEC_ERR_OK ctx "plain @ drop (length plain) out" "length plain"])
         (simp_all add: macsec_output_def buf_put_def)
  qed
next
  case protected: False
  define fc where "fc = mx_frame_crypto ctx"
  show thesis
  proof (cases "mx_state ctx = MACSEC_STATE_SECURED \<and> fs_valid (fc_tx_sak fc)")
    case False
    with protected inv show thesis
      by (intro that [of MACSEC_ERR_NOT_READY ctx out 0]) (auto simp: macsec_output_def fc_def)
  next
    case ready: True
    have wf: "frame_wf fc" using inv by (simp add: macsec_inv_def fc_def)
    have step: "macsec_output ctx plain out max_len = (case macsec_frame_encrypt fc plain out max_len of
        None \<Rightarrow> None | Some (ret, fc, out', n) \<Rightarrow> Some (ret, ctx\<lparr>mx_frame_crypto := fc\<rparr>, out', n))"
      using protected ready by (auto simp: macsec_output_def Let_def fc_def split: option.splits)
    show thesis
    proof (cases rule: frame_encrypt_outcome [OF wf room, of plain, case_names early sent])
      case (early e)
      with step inv show thesis by (intro that [of e ctx out 0]) (simp_all add: fc_def)
    next
      case (sent g)
      define fc' where "fc' = g\<lparr>fc_tx_sak := (fc_tx_sak fc)\<lparr>fs_next_pn := frame_next_pn (fs_next_pn (fc_tx_sak fc))\<rparr>\<rparr>"
      have len: "14 \<le> length plain" "length plain + 32 \<le> max_len" using sent(1) by (auto simp: frame_tx_guard_def split: if_splits)
      then have seal: "length (frame_seal (fc_tx_sak fc) (fc_local_sci fc) plain) = length plain + 32"
        using wf by (intro length_frame_seal) (simp_all add: frame_wf_def)
      have "macsec_inv (ctx\<lparr>mx_frame_crypto := fc'\<rparr>)"
        using sent(5) by (intro macsec_inv_frame [OF inv]) (simp_all add: fc'_def fc_def macsec_sak_equal_def)
      with sent(3,4) step ready seal len room show thesis
        by (intro that [of MACSEC_ERR_OK "ctx\<lparr>mx_frame_crypto := fc'\<rparr>"
              "frame_seal (fc_tx_sak fc) (fc_local_sci fc) plain @ drop (length plain + 32) out" "length plain + 32"])
           (simp_all add: frame_same_def macsec_fixed_def fc_settings_def fc_def fc'_def)
    qed
  qed
qed

subsection \<open>The control plane\<close>

lemma macsec_tick_total:
  assumes inv: "macsec_inv ctx"
  obtains c where "macsec_tick ctx now = (MACSEC_ERR_OK, c)" "macsec_inv c" "macsec_fixed c = macsec_fixed ctx"
    "mx_pending_mka_tx_valid c = mx_pending_mka_tx_valid ctx" "mx_pending_mka_tx_meta c = mx_pending_mka_tx_meta ctx"
    "mx_state c = MACSEC_STATE_ERROR \<Longrightarrow> mx_state ctx = MACSEC_STATE_ERROR"
proof (cases "cf_mode (mx_cfg ctx) = MACSEC_MODE_MKA_PSK")
  case False
  with inv show thesis by (intro that [of "ctx\<lparr>mx_last_tick_ms := now\<rparr>"]) (simp_all add: macsec_tick_def)
next
  case True
  define ctx0 where "ctx0 = ctx\<lparr>mx_last_tick_ms := now\<rparr>"
  define mka where "mka = snd (macsec_mka_tick (mx_mka ctx) now)"
  have m: "mka_inv (mx_mka ctx)" using inv True by (simp add: macsec_inv_def)
  have t: "macsec_mka_tick (mx_mka ctx) now = (MACSEC_ERR_OK, mka)" using tick_spec(1) [OF m, of now] by (simp add: mka_def prod_eq_iff)
  have "macsec_inv ctx0" using inv by (simp add: ctx0_def)
  then have "macsec_inv (ctx0\<lparr>mx_mka := mka\<rparr>)"
    using True tick_inv [OF m] kept_tick [OF m] by (intro macsec_inv_mka) (simp_all add: ctx0_def mka_def)
  then show thesis
  proof (rule service_total, goal_cases)
    case (1 ret c)
    then show thesis
      using t True rest_fixed [OF 1(3)]
      by (intro that [of c]) (simp_all add: macsec_tick_def Let_def ctx0_def macsec_rest_def)
  qed
qed

lemma macsec_build_total:
  assumes inv: "macsec_inv ctx" and rnd: "length (rnd 16) = 16" and room: "max_len \<le> length frame"
  obtains ret c out n where "macsec_build_control_frame rnd ctx frame max_len = Some (ret, c, out, n)" "macsec_inv c"
    "macsec_fixed c = macsec_fixed ctx" "mx_state c = mx_state ctx" "mx_frame_crypto c = mx_frame_crypto ctx"
    "mx_pending_mka_tx_valid c \<longleftrightarrow> mx_pending_mka_tx_valid ctx \<or> ret = MACSEC_ERR_OK"
    "ret = MACSEC_ERR_OK \<Longrightarrow> 0 < n \<and> n \<le> max_len \<and> n \<le> 210" "ret \<noteq> MACSEC_ERR_OK \<Longrightarrow> n = 0 \<and> out = frame"
    "length out = length frame"
proof (cases "cf_mode (mx_cfg ctx) = MACSEC_MODE_MKA_PSK \<and> \<not> mx_pending_mka_tx_valid ctx")
  case False
  with inv show thesis
    by (intro that [of "if cf_mode (mx_cfg ctx) = MACSEC_MODE_MKA_PSK then MACSEC_ERR_BUSY else MACSEC_ERR_STATE" ctx frame 0])
       (auto simp: macsec_build_control_frame_def split: if_splits)
next
  case True
  then have m: "mka_inv (mx_mka ctx)" using inv by (simp add: macsec_inv_def)
  define d where "d = snd (mka_tx_prepare rnd (mx_mka ctx))"
  have d: "mka_inv d" unfolding d_def by (rule tx_prepare_inv [where rnd = rnd, OF m rnd])
  note len = length_tx_frame [OF d] mka_eapol_len_bounds [OF d]
  obtain ret mka out n meta where b: "macsec_mka_build_tx_frame rnd (mx_mka ctx) frame 0 max_len mka_meta_zero = Some (ret, mka, out, n, meta)"
      "length out = length frame" "ret = MACSEC_ERR_OK \<Longrightarrow> 0 < n \<and> n \<le> max_len \<and> n \<le> 210"
      "ret \<noteq> MACSEC_ERR_OK \<Longrightarrow> n = 0 \<and> out = frame"
  proof (cases rule: build_tx_frame_spec [where rnd = rnd, OF m rnd room, of 0 mka_meta_zero, folded d_def, case_names idle no_sak too_long built])
    case idle
    show thesis by (rule that [OF idle(2)]) simp_all
  next
    case no_sak
    show thesis by (rule that [OF no_sak(3)]) (use no_sak(2) in simp_all)
  next
    case (too_long meta')
    show thesis by (rule that [OF too_long(4)]) simp_all
  next
    case (built c)
    show thesis by (rule that [OF built(4)]) (use built(3) len room in simp_all)
  qed
  have k: "mka_kept (mx_mka ctx) mka" "mka_inv mka"
    using kept_build [where rnd = rnd, OF m rnd room b(1)] build_tx_frame_inv [where rnd = rnd, OF m rnd room b(1)] by simp_all
  have "macsec_inv (ctx\<lparr>mx_mka := mka\<rparr>)" using True by (intro macsec_inv_mka [OF inv _ k(2,1)]) simp
  then have i: "macsec_inv (ctx\<lparr>mx_pending_mka_tx_meta := t, mx_mka := mka, mx_pending_mka_tx_meta := meta'\<rparr>)" for t meta'
    using True by (simp add: macsec_inv_def)
  show thesis
  proof (cases "ret = MACSEC_ERR_OK")
    case True': True
    with True b i show thesis
      by (intro that [of MACSEC_ERR_OK "ctx\<lparr>mx_pending_mka_tx_meta := mka_meta_zero, mx_mka := mka, mx_pending_mka_tx_meta := meta,
            mx_pending_mka_tx_valid := True\<rparr>" out n]) (simp_all add: macsec_build_control_frame_def Let_def)
  next
    case False
    with True b i show thesis
      by (intro that [of ret "ctx\<lparr>mx_pending_mka_tx_meta := mka_meta_zero, mx_mka := mka, mx_pending_mka_tx_meta := meta,
            mx_pending_mka_tx_meta := mka_meta_zero\<rparr>" out n]) (simp_all add: macsec_build_control_frame_def Let_def)
  qed
qed

lemma macsec_sent_total:
  assumes inv: "macsec_inv ctx"
  obtains ret c where "macsec_notify_control_tx_success ctx now = (ret, c)" "macsec_inv c" "macsec_fixed c = macsec_fixed ctx"
proof (cases "cf_mode (mx_cfg ctx) = MACSEC_MODE_MKA_PSK \<and> mx_pending_mka_tx_valid ctx")
  case False
  with inv show thesis
    by (intro that [of "if cf_mode (mx_cfg ctx) = MACSEC_MODE_MKA_PSK then MACSEC_ERR_NOT_READY else MACSEC_ERR_STATE" ctx])
       (auto simp: macsec_notify_control_tx_success_def)
next
  case True
  then have m: "mka_inv (mx_mka ctx)" using inv by (simp add: macsec_inv_def)
  obtain r mka where n: "macsec_mka_notify_tx_success (mx_mka ctx) (mx_pending_mka_tx_meta ctx) now = (r, mka)" by (metis surj_pair)
  then have k: "mka_inv mka" "mka_kept (mx_mka ctx) mka"
    using notify_tx_success_inv [OF m, of "mx_pending_mka_tx_meta ctx" now] kept_tx_success [of "mx_mka ctx" "mx_pending_mka_tx_meta ctx" now]
    by simp_all
  have i: "macsec_inv (ctx\<lparr>mx_mka := mka\<rparr>)" using True by (intro macsec_inv_mka [OF inv _ k]) simp
  show thesis
  proof (cases "r = MACSEC_ERR_OK")
    case False
    with True n i show thesis
      by (intro that [of r "ctx\<lparr>mx_mka := mka, mx_state := MACSEC_STATE_ERROR\<rparr>"])
         (simp_all add: macsec_notify_control_tx_success_def Let_def)
  next
    case ok: True
    define c0 where "c0 = ctx\<lparr>mx_mka := mka, mx_pending_mka_tx_meta := mka_meta_zero, mx_pending_mka_tx_valid := False\<rparr>"
    have "macsec_inv c0" using i by (simp add: c0_def)
    then show thesis
    proof (rule service_total, goal_cases)
      case (1 s c)
      with True n ok rest_fixed [OF 1(3)] show thesis
        by (intro that [of s "if s = MACSEC_ERR_OK then c else c\<lparr>mx_state := MACSEC_STATE_ERROR\<rparr>"])
           (simp_all add: macsec_notify_control_tx_success_def Let_def c0_def)
    qed
  qed
qed

lemma macsec_not_sent_inv:
  assumes inv: "macsec_inv ctx"
  shows "macsec_inv (snd (macsec_notify_control_tx_failure ctx))"
    "macsec_fixed (snd (macsec_notify_control_tx_failure ctx)) = macsec_fixed ctx"
proof -
  have "macsec_inv (ctx\<lparr>mx_mka := macsec_mka_notify_tx_failure (mx_mka ctx) m\<rparr>)" if "cf_mode (mx_cfg ctx) = MACSEC_MODE_MKA_PSK" for m
    using that inv by (intro macsec_inv_mka [OF inv that] notify_tx_failure_inv kept_others(1)) (simp add: macsec_inv_def)
  with inv show "macsec_inv (snd (macsec_notify_control_tx_failure ctx))"
    by (auto simp: macsec_notify_control_tx_failure_def Let_def)
  show "macsec_fixed (snd (macsec_notify_control_tx_failure ctx)) = macsec_fixed ctx"
    by (simp add: macsec_notify_control_tx_failure_def Let_def)
qed

subsection \<open>The machine\<close>

inductive macsec_step :: "macsec_ctx \<Rightarrow> macsec_ctx \<Rightarrow> bool" where
  macsec_step_input: "length (rnd 16) = 16 \<Longrightarrow> max_len \<le> length plain \<Longrightarrow>
    macsec_input rnd ctx frame plain max_len = Some (ret, ctx', out) \<Longrightarrow> macsec_step ctx ctx'"
| macsec_step_output: "max_len \<le> length out \<Longrightarrow>
    macsec_output ctx plain out max_len = Some (ret, ctx', out') \<Longrightarrow> macsec_step ctx ctx'"
| macsec_step_tick: "macsec_tick ctx now = (ret, ctx') \<Longrightarrow> macsec_step ctx ctx'"
| macsec_step_build: "length (rnd 16) = 16 \<Longrightarrow> max_len \<le> length frame \<Longrightarrow>
    macsec_build_control_frame rnd ctx frame max_len = Some (ret, ctx', out) \<Longrightarrow> macsec_step ctx ctx'"
| macsec_step_sent: "macsec_notify_control_tx_success ctx now = (ret, ctx') \<Longrightarrow> macsec_step ctx ctx'"
| macsec_step_not_sent: "macsec_notify_control_tx_failure ctx = (ret, ctx') \<Longrightarrow> macsec_step ctx ctx'"

text \<open>The arrays of a configuration have their declared sizes.\<close>

definition macsec_config_ok :: "macsec_config \<Rightarrow> bool" where
  "macsec_config_ok cfg \<longleftrightarrow> length (cf_local_mac cfg) = 6 \<and> length (cf_cak cfg) = 32 \<and>
     length (cf_ckn cfg) = 32 \<and> length (cf_static_sak cfg) = 32"

definition macsec_start :: "macsec_ctx \<Rightarrow> bool" where
  "macsec_start ctx \<longleftrightarrow> (\<exists>rnd cfg. macsec_config_ok cfg \<and> length (rnd 12) = 12 \<and>
     macsec_init rnd cfg = (MACSEC_ERR_OK, ctx))"

text \<open>The context of \<open>macsec_init\<close> with the frame layer initialized.\<close>

definition macsec_blank :: "macsec_config \<Rightarrow> macsec_ctx" where
  "macsec_blank cfg = (let cfg = (if cf_port_id cfg = 0 then cfg\<lparr>cf_port_id := 1\<rparr> else cfg) in
     macsec_ctx_zero\<lparr>mx_cfg := cfg, mx_state := MACSEC_STATE_INIT, mx_frame_crypto := frame_ctx_zero
       \<lparr>fc_local_sci := macsec_build_sci (cf_local_mac cfg) (cf_port_id cfg), fc_encrypt := True,
        fc_replay_protect := cf_replay_protect cfg, fc_replay_window := cf_replay_window cfg,
        fc_gcm := math_gcm_init, fc_gcm_initialized := True\<rparr>\<rparr>)"

lemma macsec_init_unfold:
  "macsec_init rnd cfg = (let ctx = macsec_blank cfg in
     if cf_mode cfg = MACSEC_MODE_DISABLED then (MACSEC_ERR_OK, ctx\<lparr>mx_state := MACSEC_STATE_SECURED\<rparr>)
     else if cf_mode cfg = MACSEC_MODE_STATIC_SAK then
       let (ret, ctx) = macsec_install_static_sak ctx
       in if ret \<noteq> MACSEC_ERR_OK then (ret, ctx\<lparr>mx_state := MACSEC_STATE_ERROR\<rparr>) else (MACSEC_ERR_OK, ctx)
     else if cf_mode cfg = MACSEC_MODE_MKA_PSK then
       let (ret, ctx) = macsec_init_mka rnd ctx
       in if ret \<noteq> MACSEC_ERR_OK then (ret, ctx\<lparr>mx_state := MACSEC_STATE_ERROR\<rparr>)
          else (MACSEC_ERR_OK, ctx\<lparr>mx_state := MACSEC_STATE_WAIT_MKA\<rparr>)
     else (MACSEC_ERR_UNSUPPORTED, ctx\<lparr>mx_state := MACSEC_STATE_ERROR\<rparr>))"
proof -
  have frame: "macsec_init_frame_crypto (macsec_ctx_zero\<lparr>mx_cfg := cfg', mx_state := MACSEC_STATE_INIT\<rparr>) =
      (MACSEC_ERR_OK, macsec_ctx_zero\<lparr>mx_cfg := cfg', mx_state := MACSEC_STATE_INIT, mx_frame_crypto := frame_ctx_zero
       \<lparr>fc_local_sci := macsec_build_sci (cf_local_mac cfg') (cf_port_id cfg'), fc_encrypt := True,
        fc_replay_protect := cf_replay_protect cfg', fc_replay_window := cf_replay_window cfg',
        fc_gcm := math_gcm_init, fc_gcm_initialized := True\<rparr>\<rparr>)" for cfg'
    by (simp add: macsec_init_frame_crypto_def Let_def macsec_frame_crypto_init_def)
  define cfg' where "cfg' = (if cf_port_id cfg = 0 then cfg\<lparr>cf_port_id := 1\<rparr> else cfg)"
  have start: "(if cf_port_id (mx_cfg (macsec_ctx_zero\<lparr>mx_cfg := cfg, mx_state := MACSEC_STATE_INIT\<rparr>)) = 0
       then macsec_ctx_zero\<lparr>mx_cfg := cfg, mx_state := MACSEC_STATE_INIT, mx_cfg :=
         (mx_cfg (macsec_ctx_zero\<lparr>mx_cfg := cfg, mx_state := MACSEC_STATE_INIT\<rparr>))\<lparr>cf_port_id := 1\<rparr>\<rparr>
       else macsec_ctx_zero\<lparr>mx_cfg := cfg, mx_state := MACSEC_STATE_INIT\<rparr>) =
      macsec_ctx_zero\<lparr>mx_cfg := cfg', mx_state := MACSEC_STATE_INIT\<rparr>"
    by (simp add: cfg'_def)
  have mode: "cf_mode (mx_cfg (macsec_blank cfg)) = cf_mode cfg" by (simp add: macsec_blank_def Let_def)
  have blank: "macsec_init_frame_crypto (macsec_ctx_zero\<lparr>mx_cfg := cfg', mx_state := MACSEC_STATE_INIT\<rparr>) =
      (MACSEC_ERR_OK, macsec_blank cfg)"
    unfolding frame macsec_blank_def Let_def cfg'_def ..
  show ?thesis
    unfolding macsec_init_def Let_def start blank prod.case mode by simp
qed

lemma blank_fields:
  fixes cfg :: macsec_config
  defines "port \<equiv> (if cf_port_id cfg = 0 then 1 else cf_port_id cfg)"
  shows "mx_frame_crypto (macsec_blank cfg) = frame_ctx_zero
       \<lparr>fc_local_sci := macsec_build_sci (cf_local_mac cfg) port, fc_encrypt := True,
        fc_replay_protect := cf_replay_protect cfg, fc_replay_window := cf_replay_window cfg,
        fc_gcm := math_gcm_init, fc_gcm_initialized := True\<rparr>"
    "mx_mka (macsec_blank cfg) = mka_ctx_zero" "mx_state (macsec_blank cfg) = MACSEC_STATE_INIT"
    "mx_cfg (macsec_blank cfg) = cfg\<lparr>cf_port_id := port\<rparr>" "\<not> mx_pending_mka_tx_valid (macsec_blank cfg)"
    "mx_pending_mka_tx_meta (macsec_blank cfg) = mka_meta_zero" "mx_last_tick_ms (macsec_blank cfg) = 0"
  by (simp_all add: macsec_blank_def Let_def macsec_ctx_zero_def port_def)

lemma blank_ok:
  assumes "macsec_config_ok cfg"
  shows "frame_wf (mx_frame_crypto (macsec_blank cfg))" "tx_an_ok (mx_frame_crypto (macsec_blank cfg))" "mka_idle mka_ctx_zero"
proof -
  have sci: "length (macsec_build_sci (cf_local_mac cfg) p) = 8" for p
    using assms by (simp add: macsec_config_ok_def macsec_build_sci_def)
  have z: "length (fs_key (fc_tx_sak frame_ctx_zero)) = 32" "fc_rx_sak frame_ctx_zero = replicate 4 frame_sak_zero"
      "length (fs_key frame_sak_zero) = 32" "length (fc_current_gcm_key frame_ctx_zero) = 32"
      "\<not> fc_current_gcm_key_valid frame_ctx_zero" "fs_an (fc_tx_sak frame_ctx_zero) = 0"
    by (simp_all add: frame_ctx_zero_def frame_sak_zero_def)
  then show "frame_wf (mx_frame_crypto (macsec_blank cfg))" "tx_an_ok (mx_frame_crypto (macsec_blank cfg))"
    using sci by (simp_all add: blank_fields frame_wf_def tx_an_ok_def)
  show "mka_idle mka_ctx_zero"
    by (simp add: mka_idle_def mka_ctx_zero_def macsec_mka_crypto_clear_def mka_keys_zero_def)
qed

text \<open>A successful initialization in each mode.\<close>

lemma static_init:
  assumes cfg: "macsec_config_ok cfg" "cf_mode cfg = MACSEC_MODE_STATIC_SAK"
    and key: "cf_static_sak_len cfg = 16 \<or> cf_static_sak_len cfg = 32" "cf_static_an cfg < 4"
  defines "sa \<equiv> fresh_sa (cf_static_sak cfg) (cf_static_sak_len cfg) (cf_static_an cfg) 1"
  shows "macsec_init rnd cfg = (MACSEC_ERR_OK, (macsec_blank cfg)\<lparr>mx_frame_crypto := (mx_frame_crypto (macsec_blank cfg))
      \<lparr>fc_rx_sak := (replicate 4 frame_sak_zero)[unat (cf_static_an cfg) := sa], fc_tx_sak := sa\<rparr>,
      mx_state := MACSEC_STATE_SECURED\<rparr>)"
proof -
  define c where "c = macsec_blank cfg"
  have len: "length (cf_static_sak cfg) = 32" using cfg by (simp add: macsec_config_ok_def)
  have blank: "fc_rx_sak (mx_frame_crypto c) = replicate 4 frame_sak_zero" "fc_tx_sak (mx_frame_crypto c) = frame_sak_zero"
      "frame_wf (mx_frame_crypto c)" "mx_cfg c = cfg\<lparr>cf_port_id := cf_port_id (mx_cfg c)\<rparr>"
    using blank_ok(1) [OF cfg(1)] by (simp_all add: c_def blank_fields frame_ctx_zero_def)
  have none: "\<not> macsec_sak_equal frame_sak_zero k n" for k n by (simp add: macsec_sak_equal_def frame_sak_zero_def)
  have an: "unat (cf_static_an cfg) < 4" using key(2) by (simp add: word_less_nat_alt)
  have rx: "macsec_install_rx_sak c (cf_static_sak cfg) (cf_static_sak_len cfg) (cf_static_an cfg) 1 = (MACSEC_ERR_OK,
      c\<lparr>mx_frame_crypto := (mx_frame_crypto c)\<lparr>fc_rx_sak := (replicate 4 frame_sak_zero)[unat (cf_static_an cfg) := sa]\<rparr>\<rparr>)"
    using an by (simp add: install_rx_spec [OF blank(3) key(1) len key(2)] blank(1) none sa_def)
  have fields: "cf_static_sak (mx_cfg c) = cf_static_sak cfg" "cf_static_sak_len (mx_cfg c) = cf_static_sak_len cfg"
      "cf_static_an (mx_cfg c) = cf_static_an cfg"
    by (simp_all add: c_def blank_fields)
  have "macsec_install_static_sak c = (MACSEC_ERR_OK, c\<lparr>mx_frame_crypto := (mx_frame_crypto c)
      \<lparr>fc_rx_sak := (replicate 4 frame_sak_zero)[unat (cf_static_an cfg) := sa], fc_tx_sak := sa\<rparr>,
      mx_state := MACSEC_STATE_SECURED\<rparr>)"
    using an unfolding macsec_install_static_sak_def Let_def fields
    by (simp add: rx install_tx_spec [OF key(1) len key(2)] blank(2) none sa_def)
  then show ?thesis
    using cfg(2) by (simp add: macsec_init_unfold Let_def c_def MACSEC_MODE_DISABLED_def MACSEC_MODE_STATIC_SAK_def)
qed

lemma macsec_start_inv:
  assumes "macsec_start ctx" shows "macsec_inv ctx"
proof -
  obtain rnd cfg where s: "macsec_config_ok cfg" "length (rnd 12) = 12" "macsec_init rnd cfg = (MACSEC_ERR_OK, ctx)"
    using assms by (auto simp: macsec_start_def)
  note ok = blank_ok [OF s(1)]
  note modes = MACSEC_MODE_DISABLED_def MACSEC_MODE_STATIC_SAK_def MACSEC_MODE_MKA_PSK_def
  consider (disabled) "cf_mode cfg = MACSEC_MODE_DISABLED" | (static) "cf_mode cfg = MACSEC_MODE_STATIC_SAK"
    | (mka) "cf_mode cfg = MACSEC_MODE_MKA_PSK"
    using s(3) by (auto simp: macsec_init_unfold Let_def split: if_splits)
  then show ?thesis
  proof cases
    case disabled
    with s(3) have "ctx = (macsec_blank cfg)\<lparr>mx_state := MACSEC_STATE_SECURED\<rparr>" by (simp add: macsec_init_unfold Let_def)
    with ok disabled show ?thesis by (simp add: macsec_inv_def blank_fields(2,4) modes)
  next
    case static
    have key: "cf_static_sak_len cfg = 16 \<or> cf_static_sak_len cfg = 32" "cf_static_an cfg < 4"
      using s(3) static
      by (auto simp: macsec_init_unfold Let_def modes macsec_install_static_sak_def blank_fields(4) macsec_install_rx_sak_def
          word_less_nat_alt split: if_splits prod.splits)
    have len: "length (cf_static_sak cfg) = 32" using s(1) by (simp add: macsec_config_ok_def)
    note sa = fresh_sa_fields(1,6) [OF key(1) len, of "cf_static_an cfg" 1]
    define fc where "fc = mx_frame_crypto (macsec_blank cfg)"
    have rx: "fc_rx_sak fc = replicate 4 frame_sak_zero" by (simp add: fc_def blank_fields frame_ctx_zero_def)
    have "frame_wf (fc\<lparr>fc_rx_sak := (fc_rx_sak fc)[unat (cf_static_an cfg) :=
        fresh_sa (cf_static_sak cfg) (cf_static_sak_len cfg) (cf_static_an cfg) 1]\<rparr>)"
      by (rule frame_wf_rx) (use ok(1) sa in \<open>simp_all add: fc_def [symmetric] rx frame_sak_zero_def\<close>)
    from frame_wf_tx [OF this sa(1)] s(3) static ok key sa(2) static_init [OF s(1) static key, of rnd] show ?thesis
      by (auto simp: macsec_inv_def fc_def [symmetric] rx blank_fields(2,4) modes tx_an_ok_def)
  next
    case mka
    define p where "p = cf_port_id (mx_cfg (macsec_blank cfg))"
    obtain m where m: "macsec_mka_init rnd (macsec_bytes_at (cf_cak cfg) (cf_cak_len cfg))
        (macsec_bytes_at (cf_ckn cfg) (cf_ckn_len cfg)) (cf_local_mac cfg) p (cf_key_server_priority cfg)
        (cf_mka_tx_interval_ms cfg) = (MACSEC_ERR_OK, m)" "ctx = (macsec_blank cfg)\<lparr>mx_mka := m, mx_state := MACSEC_STATE_WAIT_MKA\<rparr>"
    proof -
      obtain r m where m: "macsec_mka_init rnd (macsec_bytes_at (cf_cak cfg) (cf_cak_len cfg))
        (macsec_bytes_at (cf_ckn cfg) (cf_ckn_len cfg)) (cf_local_mac cfg) p (cf_key_server_priority cfg)
        (cf_mka_tx_interval_ms cfg) = (r, m)" by (metis surj_pair)
      have "macsec_init_mka rnd (macsec_blank cfg) = (r, (macsec_blank cfg)\<lparr>mx_mka := m\<rparr>)"
        using m by (simp add: macsec_init_mka_def Let_def p_def) (simp add: blank_fields(4))
      with s(3) mka have "r = MACSEC_ERR_OK" "ctx = (macsec_blank cfg)\<lparr>mx_mka := m, mx_state := MACSEC_STATE_WAIT_MKA\<rparr>"
        by (auto simp: macsec_init_unfold Let_def modes split: if_splits)
      with m show thesis by (intro that [of m]) simp_all
    qed
    have inv: "mka_inv m" using mka_init_inv [where rnd = rnd, OF m(1)] s(1,2) by (simp add: macsec_config_ok_def)
    have "\<not> ms_tx_installed (mk_latest_sak m)" "\<not> ms_tx_installed (mk_old_sak m)"
    proof -
      have "length (macsec_bytes_at (cf_cak cfg) (cf_cak_len cfg)) = 16 \<or> length (macsec_bytes_at (cf_cak cfg) (cf_cak_len cfg)) = 32"
          "0 < length (macsec_bytes_at (cf_ckn cfg) (cf_ckn_len cfg))" "length (macsec_bytes_at (cf_ckn cfg) (cf_ckn_len cfg)) \<le> 32"
        using mka_init_fails [OF m(1)] by auto
      note init = this
      have mac: "length (cf_local_mac cfg) = 6" using s(1) by (simp add: macsec_config_ok_def)
      have "mk_latest_sak m = mk_latest_sak mka_ctx_zero \<and> mk_old_sak m = mk_old_sak mka_ctx_zero"
        by (rule mka_init_spec [where rnd = rnd, OF mac s(2) init, of p "cf_key_server_priority cfg" "cf_mka_tx_interval_ms cfg"])
           (use trans [OF m(1) [symmetric]] in auto)
      then show "\<not> ms_tx_installed (mk_latest_sak m)" "\<not> ms_tx_installed (mk_old_sak m)"
        by (simp_all add: mka_ctx_zero_def macsec_mka_sak_clear_def)
    qed
    then have "data_plane_ok fc m" for fc by (simp add: data_plane_ok_def tx_single_def tx_reported_def)
    with inv ok(1,2) mka show ?thesis by (simp add: macsec_inv_def m(2) blank_fields(4))
  qed
qed

lemma macsec_step_inv:
  assumes inv: "macsec_inv ctx" and step: "macsec_step ctx ctx'"
  shows "macsec_inv ctx' \<and> macsec_fixed ctx' = macsec_fixed ctx"
  using step
proof cases
  case (macsec_step_input rnd max_len plain frame ret out)
  show ?thesis
    by (rule macsec_input_total [where rnd = rnd and f = frame, OF inv macsec_step_input(1,2)]) (use macsec_step_input(3) in auto)
next
  case (macsec_step_output max_len out plain ret out')
  show ?thesis
    by (rule macsec_output_total [OF inv macsec_step_output(1), of plain]) (use macsec_step_output(2) in auto)
next
  case (macsec_step_tick now ret)
  show ?thesis by (rule macsec_tick_total [OF inv, of now]) (use macsec_step_tick in auto)
next
  case (macsec_step_build rnd max_len frame ret out)
  show ?thesis
    by (rule macsec_build_total [where rnd = rnd, OF inv macsec_step_build(1,2)]) (use macsec_step_build(3) in auto)
next
  case (macsec_step_sent now ret)
  show ?thesis by (rule macsec_sent_total [OF inv, of now]) (use macsec_step_sent in auto)
next
  case (macsec_step_not_sent ret)
  with macsec_not_sent_inv [OF inv] show ?thesis by simp
qed

interpretation macsec: safe_machine macsec_start macsec_step macsec_inv
  by unfold_locales (use macsec_start_inv macsec_step_inv in blast)+

abbreviation macsec_reachable :: "macsec_ctx \<Rightarrow> bool" where
  "macsec_reachable \<equiv> machine_reach macsec_start macsec_step"

end
