(* ===== verification/MacsecProperties.thy ===== *)
theory MacsecProperties
  imports MacsecMachine
begin

text \<open>
  Properties of the top level: what every reachable context satisfies, what the data plane lets in
  and out, the two keying modes end to end, and what a frame from the outside can do.
\<close>

subsection \<open>Delivery\<close>

text \<open>A frame that one context protects with a new SAK is delivered by one that has it for reception.\<close>

lemma macsec_deliver:
  fixes a b :: macsec_ctx
  defines "fa \<equiv> mx_frame_crypto a" and "fb \<equiv> mx_frame_crypto b"
  assumes inv: "macsec_inv a" "macsec_inv b"
    and on: "cf_mode (mx_cfg a) \<noteq> MACSEC_MODE_DISABLED" "cf_mode (mx_cfg b) \<noteq> MACSEC_MODE_DISABLED"
      "mx_state a = MACSEC_STATE_SECURED" "mx_state b = MACSEC_STATE_SECURED"
    and sa: "fc_tx_sak fa = fresh_sa key len an 1" "fc_rx_sak fb ! unat an = fresh_sa key len an 1"
    and key: "len = 16 \<or> len = 32" "length key = 32" "an < 4"
    and set: "fc_encrypt fa" "fc_replay_protect fb \<Longrightarrow> unat (fc_replay_window fb) \<le> 64"
    and plain: "14 \<le> length plain" "length plain \<le> 1600"
    and room: "length plain + 32 \<le> max_len" "max_len \<le> length out" "length plain \<le> max_len'" "max_len' \<le> length out'"
  obtains a' sent b' got where "macsec_output a plain out max_len = Some (MACSEC_ERR_OK, a', sent, length plain + 32)"
    "\<And>rnd. macsec_input rnd b (take (length plain + 32) sent) out' max_len' = Some (MACSEC_ERR_OK, b', got, length plain, True)"
    "take (length plain) got = plain"
proof -
  note f = fresh_sa_fields [OF key(1,2), of an 1]
  have wf: "frame_wf fa" "frame_wf fb" using inv by (simp_all add: macsec_inv_def fa_def fb_def)
  have an: "unat an < 4" using key(3) by (simp add: word_less_nat_alt)
  have tx: "macsec_frame_crypto_ready_tx fa" using f by (simp add: macsec_frame_crypto_ready_tx_def sa(1))
  have rx: "macsec_frame_crypto_ready_rx fb (unat an)" using f an by (simp add: macsec_frame_crypto_ready_rx_def sa(2))
  have replay: "macsec_frame_replay_check fb (fresh_sa key len an 1) 1 = MACSEC_ERR_OK"
    using set(2) by (auto simp: macsec_frame_replay_check_def fresh_sa_def frame_sak_zero_def)
  have guard: "frame_tx_guard fa plain max_len = None"
    using set(1) tx plain room by (simp add: frame_tx_guard_def)
  obtain fa' sent where enc: "macsec_frame_encrypt fa plain out max_len = Some (MACSEC_ERR_OK, fa', sent, length plain + 32)"
    by (cases rule: frame_encrypt_outcome [OF wf(1) room(2), of plain]) (use guard in auto)
  have "\<exists>fb' got. macsec_frame_decrypt fb (take (length plain + 32) sent) out' max_len' =
      Some (MACSEC_ERR_OK, fb', got, length plain) \<and> take (length plain) got = plain"
    by (rule frame_round_trip_lemma [OF wf room(2,4) enc _ refl])
       (use an rx replay room(3) f in \<open>simp_all add: sa\<close>)
  then obtain fb' got where dec: "macsec_frame_decrypt fb (take (length plain + 32) sent) out' max_len' =
      Some (MACSEC_ERR_OK, fb', got, length plain)" "take (length plain) got = plain" by blast
  have "frame_rx_guard fb (take (length plain + 32) sent) max_len' = None"
    by (cases rule: frame_decrypt_outcome [OF wf(2) room(4), where f = "take (length plain + 32) sent"]) (use dec(1) in auto)
  then have type: "macsec_mka_is_eapol_mka (take (length plain + 32) sent) = Some False"
      "macsec_frame_is_macsec (take (length plain + 32) sent) = Some True"
    by (auto simp: frame_rx_guard_def is_eapol_mka_spec frame_is_macsec_eq MACSEC_FRAME_ETHERTYPE_def MACSEC_MKA_ETHERTYPE_EAPOL_def
        split: if_splits)
  have send: "macsec_output a plain out max_len = Some (MACSEC_ERR_OK, a\<lparr>mx_frame_crypto := fa'\<rparr>, sent, length plain + 32)"
    using on(1,3) enc f(5) by (simp add: macsec_output_def fa_def [symmetric] sa(1) Let_def)
  have receive: "macsec_input rnd b (take (length plain + 32) sent) out' max_len' =
      Some (MACSEC_ERR_OK, b\<lparr>mx_frame_crypto := fb'\<rparr>, got, length plain, True)" for rnd
    using on(2,4) dec(1) type by (simp add: macsec_input_def fb_def [symmetric] Let_def)
  show thesis by (rule that [OF send receive dec(2)])
qed

subsection \<open>Concrete contexts\<close>

definition sample_cfg :: "macsec_mode \<Rightarrow> nat \<Rightarrow> macsec_config" where
  "sample_cfg mode i = macsec_config_zero\<lparr>cf_mode := mode, cf_local_mac := replicate 6 (of_nat i), cf_port_id := 1,
     cf_cak := replicate 16 1 @ replicate 16 0, cf_cak_len := 16, cf_ckn := [2, 3, 4, 5] @ replicate 28 0, cf_ckn_len := 4,
     cf_static_sak := replicate 16 7 @ replicate 16 0, cf_static_sak_len := 16, cf_static_an := 1,
     cf_replay_protect := True, cf_key_server_priority := of_nat i\<rparr>"

lemma sample_cfg_ok: "macsec_config_ok (sample_cfg mode i)"
  by (simp add: macsec_config_ok_def sample_cfg_def)

definition sample_macsec :: "macsec_mode \<Rightarrow> nat \<Rightarrow> macsec_ctx" where
  "sample_macsec mode i = snd (macsec_init (\<lambda>n. replicate n (of_nat i)) (sample_cfg mode i))"

lemma sample_static:
  "macsec_init (\<lambda>n. replicate n (of_nat i)) (sample_cfg MACSEC_MODE_STATIC_SAK i) = (MACSEC_ERR_OK, sample_macsec MACSEC_MODE_STATIC_SAK i)"
  using static_init [OF sample_cfg_ok [of MACSEC_MODE_STATIC_SAK i], of "\<lambda>n. replicate n (of_nat i)"]
  by (simp add: sample_macsec_def sample_cfg_def)

lemma sample_macsec_init:
  "macsec_init (\<lambda>n. replicate n (of_nat i)) (sample_cfg MACSEC_MODE_MKA_PSK i) = (MACSEC_ERR_OK, sample_macsec MACSEC_MODE_MKA_PSK i)"
  "mx_mka (sample_macsec MACSEC_MODE_MKA_PSK i) = sample_mka i" "mx_state (sample_macsec MACSEC_MODE_MKA_PSK i) = MACSEC_STATE_WAIT_MKA"
  "cf_mode (mx_cfg (sample_macsec MACSEC_MODE_MKA_PSK i)) = MACSEC_MODE_MKA_PSK"
proof -
  have "macsec_mka_init (\<lambda>n. replicate n (of_nat i)) (replicate 16 1) [2, 3, 4, 5] (replicate 6 (of_nat i)) 1 (of_nat i) 0 =
      (MACSEC_ERR_OK, sample_mka i)" by (rule sample_mka_spec)
  then have "macsec_init_mka (\<lambda>n. replicate n (of_nat i)) (macsec_blank (sample_cfg MACSEC_MODE_MKA_PSK i)) =
      (MACSEC_ERR_OK, (macsec_blank (sample_cfg MACSEC_MODE_MKA_PSK i))\<lparr>mx_mka := sample_mka i\<rparr>)"
    by (simp add: macsec_init_mka_def Let_def blank_fields) (simp add: sample_cfg_def macsec_bytes_at_def macsec_config_zero_def)
  then have e: "macsec_init (\<lambda>n. replicate n (of_nat i)) (sample_cfg MACSEC_MODE_MKA_PSK i) =
      (MACSEC_ERR_OK, (macsec_blank (sample_cfg MACSEC_MODE_MKA_PSK i))\<lparr>mx_mka := sample_mka i, mx_state := MACSEC_STATE_WAIT_MKA\<rparr>)"
    by (simp add: macsec_init_unfold Let_def)
       (simp add: sample_cfg_def MACSEC_MODE_DISABLED_def MACSEC_MODE_STATIC_SAK_def MACSEC_MODE_MKA_PSK_def)
  then show "macsec_init (\<lambda>n. replicate n (of_nat i)) (sample_cfg MACSEC_MODE_MKA_PSK i) = (MACSEC_ERR_OK, sample_macsec MACSEC_MODE_MKA_PSK i)"
    "mx_mka (sample_macsec MACSEC_MODE_MKA_PSK i) = sample_mka i" "mx_state (sample_macsec MACSEC_MODE_MKA_PSK i) = MACSEC_STATE_WAIT_MKA"
    "cf_mode (mx_cfg (sample_macsec MACSEC_MODE_MKA_PSK i)) = MACSEC_MODE_MKA_PSK"
    by (simp_all add: sample_macsec_def) (simp add: blank_fields sample_cfg_def)
qed

lemma sample_macsec_reachable:
  "macsec_reachable (sample_macsec MACSEC_MODE_MKA_PSK i)" "macsec_reachable (sample_macsec MACSEC_MODE_STATIC_SAK i)"
proof -
  have rnd: "length ((\<lambda>n. replicate n (of_nat i :: u8)) 12) = 12" by simp
  show "macsec_reachable (sample_macsec MACSEC_MODE_MKA_PSK i)" "macsec_reachable (sample_macsec MACSEC_MODE_STATIC_SAK i)"
    by (rule reach_start; unfold macsec_start_def; rule exI [of _ "\<lambda>n. replicate n (of_nat i :: u8)"];
        use sample_cfg_ok rnd sample_static sample_macsec_init(1) in blast)+
qed
subsection \<open>Every reachable context\<close>

text \<open>
  C6. In MKA mode the two planes agree in every reachable context: at most
  one SAK is marked as installed for transmission, the frame layer transmits with exactly that
  key, length and association number, and the participant never is in its error state.
\<close>

theorem macsec_data_plane_consistent:
  fixes ctx :: macsec_ctx
  defines "tx \<equiv> fc_tx_sak (mx_frame_crypto ctx)" and "mka \<equiv> mx_mka ctx"
  assumes reach: "macsec_reachable ctx" and mode: "cf_mode (mx_cfg ctx) = MACSEC_MODE_MKA_PSK"
    and sak: "sak = mk_latest_sak mka \<or> sak = mk_old_sak mka" "ms_tx_installed sak"
  shows "\<not> (ms_tx_installed (mk_latest_sak mka) \<and> ms_tx_installed (mk_old_sak mka)) \<and>
    fs_valid tx \<and> unat (fs_key_len tx) = ms_sak_len sak \<and>
    take (ms_sak_len sak) (fs_key tx) = take (ms_sak_len sak) (ms_sak sak) \<and> fs_an tx = ms_an sak \<and>
    mk_state mka \<noteq> MACSEC_MKA_STATE_ERROR"
proof -
  have inv: "macsec_inv ctx" by (rule macsec.reach_inv [OF reach])
  then have m: "mka_inv mka" and d: "data_plane_ok (mx_frame_crypto ctx) mka" and wf: "frame_wf (mx_frame_crypto ctx)"
    using mode by (simp_all add: macsec_inv_def mka_def)
  from d have one: "tx_single mka" and key: "\<And>k. tx_reported mka = Some k \<Longrightarrow> tx_key_ok (mx_frame_crypto ctx) k"
    by (simp_all add: data_plane_ok_def)
  have k: "tx_key_ok (mx_frame_crypto ctx) (mka_sak_key sak)"
    using sak one by (intro key) (auto simp: tx_reported_def tx_single_def)
  have "mka_sak_ok sak" using m sak(1) by (auto simp: mka_inv_def mka_latest_ok_def mka_old_ok_def)
  then have "length (ms_sak sak) = 32" "ms_sak_len sak \<le> 32" by (auto simp: mka_sak_ok_def macsec_mka_sak_clear_def split: if_splits)
  moreover have "length (fs_key tx) = 32" using wf by (simp add: frame_wf_def tx_def)
  ultimately have len: "length (ms_sak sak) = 32" "length (fs_key tx) = 32" "ms_sak_len sak \<le> 32" by simp_all
  from k have "macsec_compare (fs_key tx) (ms_sak sak) (ms_sak_len sak) = 0"
    by (simp add: tx_key_ok_def mka_sak_key_def macsec_sak_equal_def tx_def)
  then have "take (ms_sak_len sak) (fs_key tx) = take (ms_sak_len sak) (ms_sak sak)"
    using len by (simp add: macsec_compare_take)
  with k one m show ?thesis
    by (simp add: tx_key_ok_def mka_sak_key_def macsec_sak_equal_def tx_def tx_single_def mka_inv_def mka_state_ok_def split: macsec_mka_state.splits)
qed

text \<open>
  C18. In every reachable context and for every time \<open>macsec_tick\<close> returns
  \<open>MACSEC_ERR_OK\<close>, in a reachable context again with the same configuration; it never enters the
  error state.
\<close>

theorem macsec_tick_never_fails:
  assumes "macsec_reachable ctx"
  shows "\<exists>ctx'. macsec_tick ctx now = (MACSEC_ERR_OK, ctx') \<and> macsec_reachable ctx' \<and> mx_cfg ctx' = mx_cfg ctx \<and>
    (mx_state ctx' = MACSEC_STATE_ERROR \<longrightarrow> mx_state ctx = MACSEC_STATE_ERROR)"
proof (rule macsec_tick_total [OF macsec.reach_inv [OF assms], of now])
  fix c assume c: "macsec_tick ctx now = (MACSEC_ERR_OK, c)" "macsec_fixed c = macsec_fixed ctx"
    "mx_state c = MACSEC_STATE_ERROR \<Longrightarrow> mx_state ctx = MACSEC_STATE_ERROR"
  with c reach_step [OF assms macsec_step_tick [OF c(1)]] show ?thesis by (auto simp: macsec_fixed_def)
qed

theorem macsec_tick_never_fails_witness:
  "\<exists>ctx'. macsec_tick (sample_macsec MACSEC_MODE_MKA_PSK 1) 6000 = (MACSEC_ERR_OK, ctx') \<and> macsec_reachable ctx'"
  using macsec_tick_never_fails [OF sample_macsec_reachable(1) [of 1], of 6000] by blast

text \<open>
  C17. No received frame, of whatever length and content, makes \<open>macsec_input\<close>
  panic or leave a buffer, in any mode and state. The output buffer keeps its size, the stored length
  is within the limit and is 0 unless a frame is passed to the stack, MKPDUs are never passed,
  and the context stays reachable with its configuration and replay settings.
\<close>

theorem macsec_input_returns:
  assumes reach: "macsec_reachable ctx" and rnd: "length (rnd 16) = 16" and room: "max_len \<le> length plain"
  shows "\<exists>ret ctx' plain' n pass. macsec_input rnd ctx frame plain max_len = Some (ret, ctx', plain', n, pass) \<and>
    length plain' = length plain \<and> n \<le> max_len \<and> (pass \<longrightarrow> ret = MACSEC_ERR_OK) \<and> (\<not> pass \<longrightarrow> n = 0) \<and>
    (cf_mode (mx_cfg ctx) \<noteq> MACSEC_MODE_DISABLED \<longrightarrow> macsec_mka_is_eapol_mka frame = Some True \<longrightarrow> \<not> pass) \<and>
    macsec_reachable ctx' \<and> macsec_fixed ctx' = macsec_fixed ctx"
proof (rule macsec_input_total [where rnd = rnd, OF macsec.reach_inv [OF reach] rnd room, of frame], goal_cases)
  case (1 ret c plain' n pass)
  have "macsec_reachable c" by (rule reach_step [OF reach macsec_step_input [where rnd = rnd, OF rnd room 1(1)]])
  with 1 show ?case by auto
qed

theorem macsec_input_returns_witness:
  "\<exists>ret ctx' plain' n pass. macsec_input (\<lambda>n. replicate n 0) (sample_macsec MACSEC_MODE_MKA_PSK 1) [0x88] (replicate 64 0) 64 =
     Some (ret, ctx', plain', n, pass) \<and> length plain' = 64"
proof -
  have h: "length ((\<lambda>n. replicate n (0::u8)) 16) = 16" "(64::nat) \<le> length (replicate 64 (0::u8))" by simp_all
  from macsec_input_returns [where rnd = "\<lambda>n. replicate n 0", OF sample_macsec_reachable(1) [of 1] h, of "[0x88]"]
  show ?thesis by auto
qed

subsection \<open>What the data plane lets through\<close>

text \<open>
  C5. Except in the disabled mode, what \<open>macsec_output\<close> hands to the network is
  protected: in every reachable context it returns \<open>MACSEC_ERR_OK\<close> only when the port is secured, and then
  the frame is the sealed one under the installed transmit SAK with the local SCI. On every other
  result the output buffer and the context stay as they were and the length is 0.
\<close>

theorem no_plaintext_out:
  assumes reach: "macsec_reachable ctx" and mode: "cf_mode (mx_cfg ctx) \<noteq> MACSEC_MODE_DISABLED" and room: "max_len \<le> length out"
  shows "\<exists>ret ctx' out' n. macsec_output ctx plain out max_len = Some (ret, ctx', out', n) \<and>
    (if ret = MACSEC_ERR_OK
     then mx_state ctx = MACSEC_STATE_SECURED \<and> n = length plain + 32 \<and> n \<le> max_len \<and>
       take n out' = frame_seal (fc_tx_sak (mx_frame_crypto ctx)) (fc_local_sci (mx_frame_crypto ctx)) plain
     else n = 0 \<and> out' = out \<and> ctx' = ctx)"
proof (rule macsec_output_total [OF macsec.reach_inv [OF reach] room, of plain], goal_cases)
  case (1 ret c out' n)
  with mode show ?case by auto
qed

lemma passed_is_authentic:
  assumes inv: "macsec_inv ctx" and mode: "cf_mode (mx_cfg ctx) \<noteq> MACSEC_MODE_DISABLED"
    and rnd: "length (rnd 16) = 16" and room: "max_len \<le> length plain"
    and passed: "macsec_input rnd ctx frame plain max_len = Some (ret, ctx', plain', n, True)"
  defines "sak \<equiv> fc_rx_sak (mx_frame_crypto ctx) ! frame_an frame"
  shows "ret = MACSEC_ERR_OK \<and> mx_state ctx = MACSEC_STATE_SECURED \<and> macsec_frame_is_macsec frame = Some True \<and>
    fs_valid sak \<and> macsec_frame_replay_check (mx_frame_crypto ctx) sak (frame_pn frame) = MACSEC_ERR_OK \<and>
    (\<exists>p. frame_open sak frame = Some p \<and> take n plain' = take 12 frame @ p)"
proof -
  have wf: "frame_wf (mx_frame_crypto ctx)" using inv by (simp add: macsec_inv_def)
  have base: "mx_state ctx = MACSEC_STATE_SECURED" "macsec_frame_is_macsec frame = Some True" "ret = MACSEC_ERR_OK"
    and "\<exists>fc'. macsec_frame_decrypt (mx_frame_crypto ctx) frame plain max_len = Some (MACSEC_ERR_OK, fc', plain', n)"
    using passed mode by (auto simp: macsec_input_def Let_def split: if_splits bind_splits)
  then obtain fc' where dec: "macsec_frame_decrypt (mx_frame_crypto ctx) frame plain max_len = Some (MACSEC_ERR_OK, fc', plain', n)" by blast
  show ?thesis
  proof (cases rule: frame_decrypt_outcome [OF wf room, where f = frame, case_names early forged accepted])
    case (accepted g p sak')
    note G = frame_rx_guard_NoneD [OF accepted(1)]
    have "length (take 12 frame @ p) = length frame - 32" using G(1) accepted(5) by simp
    with accepted dec base G show ?thesis by (auto simp: sak_def macsec_frame_crypto_ready_rx_def)
  qed (use dec in auto)
qed

text \<open>
  C4. Except in the disabled mode, a frame reaches the stack only when the port is
  secured, the frame is a MACsec frame that opens under the receive SAK of its association
  number, and its packet number passes the replay check; the stack gets the two addresses of the frame and
  the decrypted rest.
\<close>

theorem only_authentic_in:
  assumes reach: "macsec_reachable ctx" and mode: "cf_mode (mx_cfg ctx) \<noteq> MACSEC_MODE_DISABLED"
    and rnd: "length (rnd 16) = 16" and room: "max_len \<le> length plain"
    and passed: "macsec_input rnd ctx frame plain max_len = Some (ret, ctx', plain', n, True)"
  defines "sak \<equiv> fc_rx_sak (mx_frame_crypto ctx) ! frame_an frame"
  shows "ret = MACSEC_ERR_OK \<and> mx_state ctx = MACSEC_STATE_SECURED \<and> macsec_frame_is_macsec frame = Some True \<and>
    fs_valid sak \<and> macsec_frame_replay_check (mx_frame_crypto ctx) sak (frame_pn frame) = MACSEC_ERR_OK \<and>
    (\<exists>p. frame_open sak frame = Some p \<and> take n plain' = take 12 frame @ p)"
  unfolding sak_def by (rule passed_is_authentic [where rnd = rnd, OF macsec.reach_inv [OF reach] mode rnd room passed])

subsection \<open>Static keys\<close>

text \<open>What a successful initialization with a static key requires.\<close>

lemma static_init_key:
  assumes "cf_mode cfg = MACSEC_MODE_STATIC_SAK" "macsec_init rnd cfg = (MACSEC_ERR_OK, ctx)"
  shows "cf_static_sak_len cfg = 16 \<or> cf_static_sak_len cfg = 32" "cf_static_an cfg < 4"
  using assms
  by (auto simp: macsec_init_unfold Let_def MACSEC_MODE_DISABLED_def MACSEC_MODE_STATIC_SAK_def MACSEC_MODE_MKA_PSK_def
      macsec_install_static_sak_def blank_fields(4) macsec_install_rx_sak_def word_less_nat_alt split: if_splits prod.splits)

lemma static_start:
  assumes cfg: "macsec_config_ok cfg" "cf_mode cfg = MACSEC_MODE_STATIC_SAK" and init: "macsec_init rnd cfg = (MACSEC_ERR_OK, ctx)"
    and rnd: "length (rnd 12) = 12"
  defines "sa \<equiv> fresh_sa (cf_static_sak cfg) (cf_static_sak_len cfg) (cf_static_an cfg) 1"
  shows "macsec_reachable ctx" "macsec_inv ctx" "cf_mode (mx_cfg ctx) = MACSEC_MODE_STATIC_SAK" "mx_state ctx = MACSEC_STATE_SECURED"
    "fc_tx_sak (mx_frame_crypto ctx) = sa" "fc_rx_sak (mx_frame_crypto ctx) ! unat (cf_static_an cfg) = sa" "fc_encrypt (mx_frame_crypto ctx)"
    "fc_replay_protect (mx_frame_crypto ctx) = cf_replay_protect cfg" "fc_replay_window (mx_frame_crypto ctx) = cf_replay_window cfg"
    "mx_mka ctx = mka_ctx_zero"
proof -
  have start: "macsec_start ctx" unfolding macsec_start_def by (rule exI [of _ rnd]) (use cfg init rnd in blast)
  then show "macsec_reachable ctx" "macsec_inv ctx" by (rule reach_start, rule macsec_start_inv)
  note key = static_init_key [OF cfg(2) init]
  have an: "unat (cf_static_an cfg) < 4" using key(2) by (simp add: word_less_nat_alt)
  have c: "ctx = (macsec_blank cfg)\<lparr>mx_frame_crypto := (mx_frame_crypto (macsec_blank cfg))
      \<lparr>fc_rx_sak := (replicate 4 frame_sak_zero)[unat (cf_static_an cfg) := sa], fc_tx_sak := sa\<rparr>,
      mx_state := MACSEC_STATE_SECURED\<rparr>"
    using init static_init [OF cfg key, of rnd] by (simp add: sa_def)
  show "cf_mode (mx_cfg ctx) = MACSEC_MODE_STATIC_SAK" "mx_state ctx = MACSEC_STATE_SECURED"
    "fc_tx_sak (mx_frame_crypto ctx) = sa" "fc_rx_sak (mx_frame_crypto ctx) ! unat (cf_static_an cfg) = sa" "fc_encrypt (mx_frame_crypto ctx)"
    "fc_replay_protect (mx_frame_crypto ctx) = cf_replay_protect cfg" "fc_replay_window (mx_frame_crypto ctx) = cf_replay_window cfg"
    "mx_mka ctx = mka_ctx_zero"
    using an cfg(2) by (simp_all add: c blank_fields)
qed

text \<open>
  C34. Two ports with the same static key, key length and association number talk to
  each other without any exchange: a frame of 14 to 1600 bytes that the one sends first arrives at the other
  as it was handed in, whatever the MAC addresses are. The receiver must not be configured with a
  replay window above 64. The two ports may be the same one: a frame that is sent back to its sender is
  accepted there.
\<close>

theorem static_delivery:
  assumes a: "macsec_config_ok cfg" "cf_mode cfg = MACSEC_MODE_STATIC_SAK" "macsec_init rnd cfg = (MACSEC_ERR_OK, a)" "length (rnd 12) = 12"
    and b: "macsec_config_ok cfg'" "cf_mode cfg' = MACSEC_MODE_STATIC_SAK" "macsec_init rnd' cfg' = (MACSEC_ERR_OK, b)" "length (rnd' 12) = 12"
    and same: "cf_static_sak cfg' = cf_static_sak cfg" "cf_static_sak_len cfg' = cf_static_sak_len cfg" "cf_static_an cfg' = cf_static_an cfg"
    and window: "cf_replay_protect cfg' \<Longrightarrow> unat (cf_replay_window cfg') \<le> 64"
    and plain: "14 \<le> length plain" "length plain \<le> 1600"
    and room: "length plain + 32 \<le> max_len" "max_len \<le> length out" "length plain \<le> max_len'" "max_len' \<le> length out'"
  shows "\<exists>a' sent b' got. macsec_output a plain out max_len = Some (MACSEC_ERR_OK, a', sent, length plain + 32) \<and>
    macsec_input rnd'' b (take (length plain + 32) sent) out' max_len' = Some (MACSEC_ERR_OK, b', got, length plain, True) \<and>
    take (length plain) got = plain"
proof -
  note A = static_start [where rnd = rnd, OF a] and B = static_start [where rnd = rnd', OF b]
  note key = static_init_key [where rnd = rnd, OF a(2,3)]
  have len: "length (cf_static_sak cfg) = 32" using a(1) by (simp add: macsec_config_ok_def)
  have on: "cf_mode (mx_cfg a) \<noteq> MACSEC_MODE_DISABLED" "cf_mode (mx_cfg b) \<noteq> MACSEC_MODE_DISABLED"
    using A(3) B(3) by (simp_all add: MACSEC_MODE_DISABLED_def MACSEC_MODE_STATIC_SAK_def)
  show ?thesis
    by (rule macsec_deliver [OF A(2) B(2) on A(4) B(4) A(5) B(6) [unfolded same] key(1) len key(2) A(7) _ plain room])
       (use window B(8,9) in auto)
qed

theorem static_delivery_witness:
  "\<exists>a' sent b' got. macsec_output (sample_macsec MACSEC_MODE_STATIC_SAK 1) (replicate 60 9) (replicate 200 0) 200 =
      Some (MACSEC_ERR_OK, a', sent, 92) \<and>
    macsec_input (\<lambda>n. []) (sample_macsec MACSEC_MODE_STATIC_SAK 2) (take 92 sent) (replicate 100 0) 100 =
      Some (MACSEC_ERR_OK, b', got, 60, True) \<and> take 60 got = replicate 60 9"
proof -
  have m: "cf_mode (sample_cfg MACSEC_MODE_STATIC_SAK i) = MACSEC_MODE_STATIC_SAK" for i by (simp add: sample_cfg_def)
  have r: "length (replicate 12 (of_nat i :: u8)) = 12" for i by simp
  have same: "cf_static_sak (sample_cfg MACSEC_MODE_STATIC_SAK 2) = cf_static_sak (sample_cfg MACSEC_MODE_STATIC_SAK 1)"
    "cf_static_sak_len (sample_cfg MACSEC_MODE_STATIC_SAK 2) = cf_static_sak_len (sample_cfg MACSEC_MODE_STATIC_SAK 1)"
    "cf_static_an (sample_cfg MACSEC_MODE_STATIC_SAK 2) = cf_static_an (sample_cfg MACSEC_MODE_STATIC_SAK 1)"
    "cf_replay_protect (sample_cfg MACSEC_MODE_STATIC_SAK 2) \<Longrightarrow> unat (cf_replay_window (sample_cfg MACSEC_MODE_STATIC_SAK 2)) \<le> 64"
    by (simp_all add: sample_cfg_def macsec_config_zero_def)
  have sizes: "(14::nat) \<le> length (replicate 60 (9::u8))" "length (replicate 60 (9::u8)) \<le> 1600"
    "length (replicate 60 (9::u8)) + 32 \<le> 200" "(200::nat) \<le> length (replicate 200 (0::u8))"
    "length (replicate 60 (9::u8)) \<le> 100" "(100::nat) \<le> length (replicate 100 (0::u8))" by simp_all
  from static_delivery [where rnd = "\<lambda>n. replicate n (of_nat 1)" and rnd' = "\<lambda>n. replicate n (of_nat 2)" and rnd'' = "\<lambda>n. []",
      OF sample_cfg_ok m sample_static r sample_cfg_ok m sample_static r same sizes]
  show ?thesis by simp
qed
text \<open>A port with a static key that has sent a frame, and the port that accepts it.\<close>

lemma sample_static_deliver:
  obtains a' sent b' got where "macsec_output (sample_macsec MACSEC_MODE_STATIC_SAK 1) (replicate 60 9) (replicate 200 0) 200 =
      Some (MACSEC_ERR_OK, a', sent, 92)"
    "macsec_input (\<lambda>n. replicate n 0) (sample_macsec MACSEC_MODE_STATIC_SAK 2) (take 92 sent) (replicate 100 0) 100 =
      Some (MACSEC_ERR_OK, b', got, 60, True)"
proof -
  have m: "cf_mode (sample_cfg MACSEC_MODE_STATIC_SAK i) = MACSEC_MODE_STATIC_SAK" for i by (simp add: sample_cfg_def)
  have r: "length (replicate 12 (of_nat i :: u8)) = 12" for i by simp
  note s = static_start [where rnd = "\<lambda>n. replicate n (of_nat i)" for i, OF sample_cfg_ok m sample_static r]
  have on: "cf_mode (mx_cfg (sample_macsec MACSEC_MODE_STATIC_SAK i)) \<noteq> MACSEC_MODE_DISABLED" for i
    unfolding s(3) by (simp add: MACSEC_MODE_DISABLED_def MACSEC_MODE_STATIC_SAK_def)
  have fields: "cf_static_sak (sample_cfg m i) = replicate 16 7 @ replicate 16 0" "cf_static_sak_len (sample_cfg m i) = 16"
      "cf_static_an (sample_cfg m i) = 1" "cf_replay_window (sample_cfg m i) = 0" for m i
    by (simp_all add: sample_cfg_def macsec_config_zero_def)
  show thesis
  proof (rule macsec_deliver [where a = "sample_macsec MACSEC_MODE_STATIC_SAK 1" and b = "sample_macsec MACSEC_MODE_STATIC_SAK 2"
          and plain = "replicate 60 9" and out = "replicate 200 0" and max_len = 200 and out' = "replicate 100 0" and max_len' = 100,
        OF s(2) s(2) on on s(4) s(4) s(5) [unfolded fields] s(6) [unfolded fields]], goal_cases)
    case (12 a' sent b' got)
    with that show thesis by simp
  qed (use s(7,9) fields in auto)
qed

theorem no_plaintext_out_witness:
  "\<exists>ctx' out' n. macsec_output (sample_macsec MACSEC_MODE_STATIC_SAK 1) (replicate 60 9) (replicate 200 0) 200 =
      Some (MACSEC_ERR_OK, ctx', out', n) \<and>
    take n out' = frame_seal (fc_tx_sak (mx_frame_crypto (sample_macsec MACSEC_MODE_STATIC_SAK 1)))
      (fc_local_sci (mx_frame_crypto (sample_macsec MACSEC_MODE_STATIC_SAK 1))) (replicate 60 9)"
proof (rule sample_static_deliver)
  fix a' sent assume s: "macsec_output (sample_macsec MACSEC_MODE_STATIC_SAK 1) (replicate 60 9) (replicate 200 0) 200 =
      Some (MACSEC_ERR_OK, a', sent, 92)"
  have mode: "cf_mode (mx_cfg (sample_macsec MACSEC_MODE_STATIC_SAK 1)) \<noteq> MACSEC_MODE_DISABLED"
    using static_start(3) [where rnd = "\<lambda>n. replicate n (of_nat 1)", OF sample_cfg_ok _ sample_static]
    by (simp add: sample_cfg_def MACSEC_MODE_DISABLED_def MACSEC_MODE_STATIC_SAK_def)
  have room: "(200::nat) \<le> length (replicate 200 (0::u8))" by simp
  from no_plaintext_out [OF sample_macsec_reachable(2) mode room, of "replicate 60 9"] s show ?thesis by auto
qed

theorem only_authentic_in_witness:
  "\<exists>frame ctx' plain' n p. macsec_input (\<lambda>n. replicate n 0) (sample_macsec MACSEC_MODE_STATIC_SAK 2) frame (replicate 100 0) 100 =
      Some (MACSEC_ERR_OK, ctx', plain', n, True) \<and>
    frame_open (fc_rx_sak (mx_frame_crypto (sample_macsec MACSEC_MODE_STATIC_SAK 2)) ! frame_an frame) frame = Some p"
proof (rule sample_static_deliver)
  fix sent b' got assume s: "macsec_input (\<lambda>n. replicate n 0) (sample_macsec MACSEC_MODE_STATIC_SAK 2) (take 92 sent) (replicate 100 0) 100 =
      Some (MACSEC_ERR_OK, b', got, 60, True)"
  have mode: "cf_mode (mx_cfg (sample_macsec MACSEC_MODE_STATIC_SAK 2)) \<noteq> MACSEC_MODE_DISABLED"
    using static_start(3) [where rnd = "\<lambda>n. replicate n (of_nat 2)", OF sample_cfg_ok _ sample_static]
    by (simp add: sample_cfg_def MACSEC_MODE_DISABLED_def MACSEC_MODE_STATIC_SAK_def)
  have h: "length ((\<lambda>n. replicate n (0::u8)) 16) = 16" "(100::nat) \<le> length (replicate 100 (0::u8))" by simp_all
  from only_authentic_in [where rnd = "\<lambda>n. replicate n 0", OF sample_macsec_reachable(2) mode h s] s show ?thesis by blast
qed

subsection \<open>What a frame from the outside can do\<close>

text \<open>An MKPDU of 18 bytes that nobody with a key sent.\<close>

definition sample_forged :: bytes where
  "sample_forged = replicate 12 9 @ [0x88, 0x8E, 3, 5, 0, 60]"

lemma sample_forged:
  "macsec_mka_is_eapol_mka sample_forged = Some True" "length sample_forged = 18" "take 6 (drop 6 sample_forged) = replicate 6 9"
  "take 8 (drop 22 sample_forged) = []" "take 12 (drop 30 sample_forged) = []"
  "unat (macsec_rd_be16 (take 2 (drop 16 sample_forged))) = 60"
  by (simp_all add: is_eapol_mka_spec sample_forged_def macsec_rd_be16_def MACSEC_MKA_ETHERTYPE_EAPOL_def
      MACSEC_MKA_EAPOL_TYPE_MKA_def nth_append)

lemma authenticate_own:
  assumes "mka_input_authenticate ctx frame = Some (Inl MACSEC_ERR_OK, c)"
  shows "\<exists>b. macsec_mka_parse_basic frame mka_basic_zero = Some (MACSEC_ERR_OK, b) \<and> mka_own_frame ctx b"
  using assms by (auto simp: mka_input_authenticate_def mka_own_frame_def Let_def split: if_splits bind_splits)

text \<open>A frame with a source address, an SCI and an MI that differ from those of the participant is not its own.\<close>

lemma not_own_frame:
  assumes "length (mk_local_mac ctx) = 6" "length (mk_local_sci ctx) = 8" "length (mk_local_mi ctx) = 12"
    and "take 6 (drop 6 frame) \<noteq> mk_local_mac ctx" "take 8 (drop 22 frame) \<noteq> mk_local_sci ctx" "take 12 (drop 30 frame) \<noteq> mk_local_mi ctx"
    and "macsec_mka_parse_basic frame mka_basic_zero = Some (MACSEC_ERR_OK, b)"
  shows "\<not> mka_own_frame ctx b"
proof -
  have ok: "mka_basic_ok frame b"
    by (rule parse_basic_total [of frame mka_basic_zero]) (use assms(7) in auto)
  then have n: "66 \<le> length frame" by (simp add: mka_basic_ok_def)
  have b: "mb_src_mac b = take 6 (drop 6 frame)" "mb_sci b = take 8 (drop 22 frame)" "mb_actor_mi b = take 12 (drop 30 frame)"
    using ok by (simp_all add: mka_basic_ok_def)
  have "macsec_compare (mb_src_mac b) (mk_local_mac ctx) 6 \<noteq> 0" "macsec_compare (mb_sci b) (mk_local_sci ctx) 8 \<noteq> 0"
      "macsec_compare (mb_actor_mi b) (mk_local_mi ctx) 12 \<noteq> 0"
    unfolding b using n assms(1-6) by (simp_all add: macsec_compare_take)
  then show ?thesis by (simp add: mka_own_frame_def)
qed

text \<open>
  C35. One MKPDU whose ICV is wrong stops a secured port. In MKA mode a frame that claims to
  come from another participant and is not authentic makes \<open>macsec_input\<close> return an error; the
  participant keeps its peer, its SAKs and its events, but the port is in its error state and
  \<open>macsec_output\<close> refuses every frame with \<open>MACSEC_ERR_NOT_READY\<close>.
\<close>

theorem forged_mkpdu_stops_data:
  fixes ctx :: macsec_ctx
  defines "mka \<equiv> mx_mka ctx"
  assumes reach: "macsec_reachable ctx" and mode: "cf_mode (mx_cfg ctx) = MACSEC_MODE_MKA_PSK"
    and frame: "macsec_mka_is_eapol_mka frame = Some True" "\<not> mka_authentic (mk_crypto mka) frame"
    and other: "take 6 (drop 6 frame) \<noteq> mk_local_mac mka" "take 8 (drop 22 frame) \<noteq> mk_local_sci mka"
      "take 12 (drop 30 frame) \<noteq> mk_local_mi mka"
  shows "\<exists>ret ctx'. macsec_input rnd ctx frame plain max_len = Some (ret, ctx', plain, 0, False) \<and> ret \<noteq> MACSEC_ERR_OK \<and>
    mk_peer (mx_mka ctx') = mk_peer mka \<and> mk_latest_sak (mx_mka ctx') = mk_latest_sak mka \<and>
    mk_pending_events (mx_mka ctx') = mk_pending_events mka \<and> mx_state ctx' = MACSEC_STATE_ERROR \<and>
    macsec_output ctx' data out out_max = Some (MACSEC_ERR_NOT_READY, ctx', out, 0)"
proof -
  have inv: "mka_inv mka" using macsec.reach_inv [OF reach] mode by (simp add: macsec_inv_def mka_def)
  then have arrays: "length (mk_local_mac mka) = 6" "length (mk_local_sci mka) = 8" "length (mk_local_mi mka) = 12" "mk_verify_icv mka"
    by (simp_all add: mka_inv_def mka_arrays_ok_def)
  obtain ret m where r: "macsec_mka_input rnd mka frame (mx_last_tick_ms ctx) = Some (ret, m)" "ret \<noteq> MACSEC_ERR_OK"
      "mk_peer m = mk_peer mka" "mk_latest_sak m = mk_latest_sak mka" "mk_pending_events m = mk_pending_events mka"
  proof (cases rule: authenticate_effect [OF inv, of frame, case_names dropped passed])
    case (dropped ret work c valid)
    with authenticate_own [of mka frame] not_own_frame [OF arrays(1-3) other] have "ret \<noteq> MACSEC_ERR_OK" by blast
    with dropped show thesis by (intro that [of ret "mka_scratch mka work c valid"]) (simp_all add: macsec_mka_input_def mka_scratch_def)
  next
    case passed
    with arrays(4) frame(2) show thesis by blast
  qed
  define ctx' where "ctx' = ctx\<lparr>mx_mka := m, mx_state := MACSEC_STATE_ERROR\<rparr>"
  have m: "cf_mode (mx_cfg ctx) \<noteq> MACSEC_MODE_DISABLED" using mode by (simp add: MACSEC_MODE_DISABLED_def MACSEC_MODE_MKA_PSK_def)
  have "macsec_input rnd ctx frame plain max_len = Some (ret, ctx', plain, 0, False)"
    using m frame(1) r(1,2) by (simp add: macsec_input_def macsec_input_mka_def Let_def mka_def ctx'_def)
  moreover have "macsec_output ctx' data out out_max = Some (MACSEC_ERR_NOT_READY, ctx', out, 0)"
    using m by (simp add: macsec_output_def ctx'_def)
  ultimately show ?thesis using r(2-5) by (auto simp: ctx'_def)
qed

theorem forged_mkpdu_stops_data_witness:
  "\<exists>ret ctx'. macsec_input (\<lambda>n. []) (sample_macsec MACSEC_MODE_MKA_PSK 1) sample_forged (replicate 64 0) 64 =
      Some (ret, ctx', replicate 64 0, 0, False) \<and> mx_state ctx' = MACSEC_STATE_ERROR \<and>
    macsec_output ctx' (replicate 60 9) (replicate 200 0) 200 = Some (MACSEC_ERR_NOT_READY, ctx', replicate 200 0, 0)"
proof -
  have "\<not> mka_authentic c sample_forged" for c unfolding mka_authentic_def Let_def sample_forged by simp
  moreover have "take 6 (drop 6 sample_forged) \<noteq> mk_local_mac (sample_mka 1)" "take 8 (drop 22 sample_forged) \<noteq> mk_local_sci (sample_mka 1)"
      "take 12 (drop 30 sample_forged) \<noteq> mk_local_mi (sample_mka 1)"
    by (simp_all add: sample_forged sample_mka_fields)
  ultimately show ?thesis
    using forged_mkpdu_stops_data [OF sample_macsec_reachable(1) [of 1] sample_macsec_init(4) [of 1], of sample_forged "\<lambda>n. []" "replicate 64 0" 64
        "replicate 60 9" "replicate 200 0" 200]
    by (auto simp: sample_macsec_init(2) sample_forged(1))
qed

text \<open>
  C36. In static mode no MKA runs, but an MKPDU is still handed to the participant,
  which has no keys and checks no ICV. Any frame of the EAPOL-MKA type whose addresses are not all zero,
  however malformed and without any key, puts a port with a static key into its error state, and it
  stops sending.
\<close>

theorem static_mode_eapol_stops_data:
  assumes cfg: "macsec_config_ok cfg" "cf_mode cfg = MACSEC_MODE_STATIC_SAK" and init: "macsec_init rnd cfg = (MACSEC_ERR_OK, ctx)"
    and rnd: "length (rnd 12) = 12"
    and frame: "macsec_mka_is_eapol_mka frame = Some True" "take 6 (drop 6 frame) \<noteq> replicate 6 0"
      "take 8 (drop 22 frame) \<noteq> replicate 8 0" "take 12 (drop 30 frame) \<noteq> replicate 12 0"
  shows "\<exists>ret ctx'. macsec_input rnd' ctx frame plain max_len = Some (ret, ctx', plain, 0, False) \<and> ret \<noteq> MACSEC_ERR_OK \<and>
    mx_state ctx = MACSEC_STATE_SECURED \<and> mx_state ctx' = MACSEC_STATE_ERROR \<and> mx_frame_crypto ctx' = mx_frame_crypto ctx \<and>
    macsec_output ctx' data out out_max = Some (MACSEC_ERR_NOT_READY, ctx', out, 0)"
proof -
  note s = static_start [where rnd = rnd, OF cfg init rnd]
  have zero: "length (mk_local_mac mka_ctx_zero) = 6" "length (mk_local_sci mka_ctx_zero) = 8" "length (mk_local_mi mka_ctx_zero) = 12"
      "mk_local_mac mka_ctx_zero = replicate 6 0" "mk_local_sci mka_ctx_zero = replicate 8 0" "mk_local_mi mka_ctx_zero = replicate 12 0"
      "mk_state mka_ctx_zero = MACSEC_MKA_STATE_INIT" "\<not> mp_valid (mk_peer mka_ctx_zero)"
    by (simp_all add: mka_ctx_zero_def mka_peer_zero_def)
  have modes: "cf_mode (mx_cfg ctx) \<noteq> MACSEC_MODE_DISABLED" "cf_mode (mx_cfg ctx) \<noteq> MACSEC_MODE_MKA_PSK"
    unfolding s(3) by (simp_all add: MACSEC_MODE_DISABLED_def MACSEC_MODE_STATIC_SAK_def MACSEC_MODE_MKA_PSK_def)
  have idle: "mka_idle mka_ctx_zero" using s(2) modes(2) by (simp add: macsec_inv_def s(10))
  obtain ret m where m: "macsec_mka_input rnd' mka_ctx_zero frame (mx_last_tick_ms ctx) = Some (ret, m)" "mka_idle m"
      "ret = MACSEC_ERR_OK \<Longrightarrow> mk_pending_events m AND MACSEC_MKA_EVENT_ERROR \<noteq> 0"
  proof (rule idle_input [where rnd = rnd' and frame = frame and now = "mx_last_tick_ms ctx", OF idle], goal_cases)
    case (1 ret m)
    then show thesis using not_own_frame [OF zero(1-3), of frame] frame(2-4) zero by (intro that [of ret m]) auto
  qed
  have inv: "macsec_inv (ctx\<lparr>mx_mka := m\<rparr>)" using s(2) modes(2) m(2) by (simp add: macsec_inv_def)
  have service: "mx_frame_crypto (snd (macsec_service_mka (ctx\<lparr>mx_mka := m\<rparr>))) = mx_frame_crypto ctx \<and>
      mx_cfg (snd (macsec_service_mka (ctx\<lparr>mx_mka := m\<rparr>))) = mx_cfg ctx \<and>
      (ret = MACSEC_ERR_OK \<longrightarrow> fst (macsec_service_mka (ctx\<lparr>mx_mka := m\<rparr>)) \<noteq> MACSEC_ERR_OK)"
    by (rule idle_service [OF inv]) (use modes(2) m(3) in \<open>auto simp: macsec_rest_def\<close>)
  define ctx' where "ctx' = (if ret = MACSEC_ERR_OK then snd (macsec_service_mka (ctx\<lparr>mx_mka := m\<rparr>)) else ctx\<lparr>mx_mka := m\<rparr>)
      \<lparr>mx_state := MACSEC_STATE_ERROR\<rparr>"
  define ret' where "ret' = (if ret = MACSEC_ERR_OK then fst (macsec_service_mka (ctx\<lparr>mx_mka := m\<rparr>)) else ret)"
  have in_: "macsec_input rnd' ctx frame plain max_len = Some (ret', ctx', plain, 0, False)" "ret' \<noteq> MACSEC_ERR_OK"
    using modes(1) frame(1) m(1) service
    by (auto simp: macsec_input_def macsec_input_mka_def Let_def s(10) ctx'_def ret'_def split_beta)
  moreover have "mx_frame_crypto ctx' = mx_frame_crypto ctx" "mx_cfg ctx' = mx_cfg ctx" "mx_state ctx' = MACSEC_STATE_ERROR"
    using service by (simp_all add: ctx'_def)
  moreover from this have "macsec_output ctx' data out out_max = Some (MACSEC_ERR_NOT_READY, ctx', out, 0)"
    using modes(1) by (simp add: macsec_output_def)
  ultimately show ?thesis using s(4) by blast
qed

theorem static_mode_eapol_stops_data_witness:
  "\<exists>ret ctx'. macsec_input (\<lambda>n. []) (sample_macsec MACSEC_MODE_STATIC_SAK 1) sample_forged (replicate 64 0) 64 =
      Some (ret, ctx', replicate 64 0, 0, False) \<and> mx_state ctx' = MACSEC_STATE_ERROR \<and>
    macsec_output ctx' (replicate 60 9) (replicate 200 0) 200 = Some (MACSEC_ERR_NOT_READY, ctx', replicate 200 0, 0)"
proof -
  have f: "macsec_mka_is_eapol_mka sample_forged = Some True" "take 6 (drop 6 sample_forged) \<noteq> replicate 6 0"
      "take 8 (drop 22 sample_forged) \<noteq> replicate 8 0" "take 12 (drop 30 sample_forged) \<noteq> replicate 12 0"
    by (simp_all add: sample_forged)
  have r: "length ((\<lambda>n. replicate n (of_nat 1 :: u8)) 12) = 12" and m: "cf_mode (sample_cfg MACSEC_MODE_STATIC_SAK 1) = MACSEC_MODE_STATIC_SAK"
    by (simp_all add: sample_cfg_def)
  show ?thesis
    using static_mode_eapol_stops_data [where rnd = "\<lambda>n. replicate n (of_nat 1)" and rnd' = "\<lambda>n. []",
        OF sample_cfg_ok m sample_static r f, of "replicate 64 0" 64 "replicate 60 9" "replicate 200 0" 200]
    by auto
qed

end
