(* ===== verification/MacsecHandshake.thy ===== *)
theory MacsecHandshake
  imports MacsecProperties MkaProperties
begin

text \<open>
  The whole stack on both ends of a link: two ports in MKA mode that share a CAK exchange three
  control frames, after which both are secured with the same SAK and deliver each other's frames.
\<close>

subsection \<open>A port after initialization\<close>

definition hs_port :: "macsec_ctx \<Rightarrow> bool" where
  "hs_port ctx \<longleftrightarrow> macsec_inv ctx \<and> cf_mode (mx_cfg ctx) = MACSEC_MODE_MKA_PSK \<and> \<not> mx_pending_mka_tx_valid ctx \<and>
     mk_old_sak (mx_mka ctx) = macsec_mka_sak_clear \<and> mka_reasons_ok (mk_tx_reasons (mx_mka ctx))"

text \<open>The keys that a participant derives from the configuration.\<close>

definition hs_keys :: "macsec_config \<Rightarrow> macsec_mka_keys" where
  "hs_keys cfg = mc_keys (snd (macsec_mka_crypto_derive_ick_kek (snd (macsec_mka_crypto_set_psk (snd macsec_mka_crypto_init)
     (macsec_bytes_at (cf_cak cfg) (cf_cak_len cfg)) (macsec_bytes_at (cf_ckn cfg) (cf_ckn_len cfg))))))"

lemma mka_start:
  assumes cfg: "macsec_config_ok cfg" "cf_mode cfg = MACSEC_MODE_MKA_PSK" and init: "macsec_init rnd cfg = (MACSEC_ERR_OK, ctx)"
    and rnd: "length (rnd 12) = 12"
  shows "hs_port ctx" "mx_frame_crypto ctx = mx_frame_crypto (macsec_blank cfg)" "\<not> mp_valid (mk_peer (mx_mka ctx))"
    "\<not> mp_live (mk_peer (mx_mka ctx))"
    "mk_latest_sak (mx_mka ctx) = macsec_mka_sak_clear" "mk_tx_reasons (mx_mka ctx) \<noteq> MACSEC_MKA_TX_REASON_NONE"
    "mc_keys (mk_crypto (mx_mka ctx)) = hs_keys cfg" "length (mka_ckn (mx_mka ctx)) = cf_ckn_len cfg"
    "mk_local_mac (mx_mka ctx) = cf_local_mac cfg" "mk_local_mi (mx_mka ctx) = rnd 12"
    "take 6 (mk_local_sci (mx_mka ctx)) = cf_local_mac cfg" "mk_key_server_priority (mx_mka ctx) = cf_key_server_priority cfg"
    "mka_ckn (mx_mka ctx) = macsec_bytes_at (cf_ckn cfg) (cf_ckn_len cfg)"
proof -
  define port where "port = cf_port_id (mx_cfg (macsec_blank cfg))"
  define cak where "cak = macsec_bytes_at (cf_cak cfg) (cf_cak_len cfg)"
  define ckn where "ckn = macsec_bytes_at (cf_ckn cfg) (cf_ckn_len cfg)"
  obtain r m where m: "macsec_mka_init rnd cak ckn (cf_local_mac cfg) port (cf_key_server_priority cfg) (cf_mka_tx_interval_ms cfg) = (r, m)"
    by (metis surj_pair)
  have run: "macsec_init_mka rnd (macsec_blank cfg) = (r, (macsec_blank cfg)\<lparr>mx_mka := m\<rparr>)"
    using m by (simp add: macsec_init_mka_def Let_def port_def cak_def ckn_def) (simp add: blank_fields(4))
  note modes = MACSEC_MODE_DISABLED_def MACSEC_MODE_STATIC_SAK_def MACSEC_MODE_MKA_PSK_def
  have ctx: "r = MACSEC_ERR_OK" "ctx = (macsec_blank cfg)\<lparr>mx_mka := m, mx_state := MACSEC_STATE_WAIT_MKA\<rparr>"
    using init cfg(2) run by (auto simp: macsec_init_unfold Let_def modes split: if_splits)
  have len: "length cak = 16 \<or> length cak = 32" "0 < length ckn" "length ckn \<le> 32" and mac: "length (cf_local_mac cfg) = 6"
    using mka_init_fails [OF m [unfolded ctx(1)]] cfg(1) by (auto simp: macsec_config_ok_def)
  have ckn_len: "length ckn = cf_ckn_len cfg" using cfg(1) by (simp add: ckn_def macsec_bytes_at_def macsec_config_ok_def)
  have start: "macsec_start ctx" unfolding macsec_start_def by (rule exI [of _ rnd]) (use cfg init rnd in blast)
  have mka: "mk_peer m = mka_peer_zero" "mk_latest_sak m = macsec_mka_sak_clear" "mk_old_sak m = macsec_mka_sak_clear"
      "mk_tx_reasons m = MACSEC_MKA_TX_REASON_INITIAL" "mc_keys (mk_crypto m) = hs_keys cfg" "mka_ckn m = ckn"
      "mk_local_mac m = cf_local_mac cfg" "mk_local_mi m = rnd 12" "take 6 (mk_local_sci m) = cf_local_mac cfg"
      "mk_key_server_priority m = cf_key_server_priority cfg"
    by (rule mka_init_spec [where rnd = rnd, OF mac rnd len, of port "cf_key_server_priority cfg" "cf_mka_tx_interval_ms cfg"],
        use m mac in \<open>auto simp: mka_ctx_zero_def hs_keys_def cak_def [symmetric] ckn_def [symmetric] mka_ckn_def\<close>)+
  show "hs_port ctx" "mx_frame_crypto ctx = mx_frame_crypto (macsec_blank cfg)" "\<not> mp_valid (mk_peer (mx_mka ctx))"
    "\<not> mp_live (mk_peer (mx_mka ctx))"
    "mk_latest_sak (mx_mka ctx) = macsec_mka_sak_clear" "mk_tx_reasons (mx_mka ctx) \<noteq> MACSEC_MKA_TX_REASON_NONE"
    "mc_keys (mk_crypto (mx_mka ctx)) = hs_keys cfg" "length (mka_ckn (mx_mka ctx)) = cf_ckn_len cfg"
    "mk_local_mac (mx_mka ctx) = cf_local_mac cfg" "mk_local_mi (mx_mka ctx) = rnd 12"
    "take 6 (mk_local_sci (mx_mka ctx)) = cf_local_mac cfg" "mk_key_server_priority (mx_mka ctx) = cf_key_server_priority cfg"
    "mka_ckn (mx_mka ctx) = macsec_bytes_at (cf_ckn cfg) (cf_ckn_len cfg)"
    using macsec_start_inv [OF start] cfg(2)
    by (simp_all add: hs_port_def ctx(2) mka mka_flags mka_peer_zero_def ckn_len blank_fields(4,5) mka_reasons_ok_def ckn_def [symmetric])
qed
subsection \<open>Sending and receiving a control frame\<close>

lemma hs_sent:
  fixes ctx :: macsec_ctx and rnd :: "nat \<Rightarrow> bytes" and now :: u32 and out :: bytes and max_len :: nat
  defines "mka \<equiv> mx_mka ctx" and "fc \<equiv> mx_frame_crypto ctx"
  defines "d \<equiv> snd (mka_tx_prepare rnd mka)"
  defines "sak \<equiv> mk_latest_sak d"
  defines "commit \<equiv> mka_include_distributed_sak d \<and> ms_lifecycle_state sak = MACSEC_MKA_SAK_STATE_DISTRIBUTION_PENDING"
  assumes port: "hs_port ctx" and rnd: "length (rnd 16) = 16" and room: "max_len \<le> length out" "210 \<le> max_len"
    and reasons: "mk_tx_reasons mka \<noteq> MACSEC_MKA_TX_REASON_NONE"
    and none: "ms_lifecycle_state (mk_latest_sak mka) = MACSEC_MKA_SAK_STATE_NONE"
  obtains ctx1 frame n ctx2 where "macsec_build_control_frame rnd ctx out max_len = Some (MACSEC_ERR_OK, ctx1, frame, n)"
    "take n frame = mka_tx_frame d" "macsec_notify_control_tx_success ctx1 now = (MACSEC_ERR_OK, ctx2)" "hs_port ctx2" "mka_inv d"
    "mka_identity (mx_mka ctx2) = mka_identity mka" "mk_peer (mx_mka ctx2) = mk_peer mka"
    "mk_local_key_server (mx_mka ctx2) = mk_local_key_server mka" "macsec_fixed ctx2 = macsec_fixed ctx"
    "ms_lifecycle_state sak = MACSEC_MKA_SAK_STATE_NONE \<Longrightarrow> mk_latest_sak (mx_mka ctx2) = sak \<and> mx_frame_crypto ctx2 = fc"
    "commit \<Longrightarrow> \<not> ms_rx_installed sak \<Longrightarrow> \<not> ms_tx_installed sak \<Longrightarrow> ms_tx_installed (mk_latest_sak (mx_mka ctx2)) \<and> mx_state ctx2 = MACSEC_STATE_SECURED \<and> mx_frame_crypto ctx2 =
       fc_with_tx (fc_with_rx fc (ms_sak sak) (ms_sak_len sak) (ms_an sak) (ms_lowest_pn sak)) (ms_sak sak) (ms_sak_len sak) (ms_an sak)"
proof -
  have inv: "macsec_inv ctx" and mode: "cf_mode (mx_cfg ctx) = MACSEC_MODE_MKA_PSK" and free: "\<not> mx_pending_mka_tx_valid ctx"
    and old: "mk_old_sak mka = macsec_mka_sak_clear" and rok: "mka_reasons_ok (mk_tx_reasons mka)"
    using port by (simp_all add: hs_port_def mka_def)
  have m: "mka_inv mka" using inv mode by (simp add: macsec_inv_def mka_def)
  have d: "mk_tx_reasons d \<noteq> MACSEC_MKA_TX_REASON_NONE" "mka_reasons_ok (mk_tx_reasons d)" "mk_old_sak d = macsec_mka_sak_clear"
      "mk_peer d = mk_peer mka" "mk_local_key_server d = mk_local_key_server mka" "mka_identity d = mka_identity mka" "mk_crypto d = mk_crypto mka"
    using reasons rok old
    by (auto simp: d_def mka_tx_prepare_def ensure_sak_spec [where rnd = rnd, OF m rnd] mka_step_simps reasons_ok_or
        mka_flags or_eq_0_iff mka_identity_def) (simp_all add: mka_reasons_ok_def)
  show thesis
  proof (rule build_succeeds [where rnd = rnd and frame = out and max_len = max_len and frame_len = 0 and meta = mka_meta_zero,
        OF m rnd room reasons, folded d_def], goal_cases)
    case 1
    with none show ?case by simp
  next
    case (2 c frame n)
    note built = 2
    define ctx1 where "ctx1 = ctx\<lparr>mx_pending_mka_tx_meta := mka_meta_zero, mx_mka := d\<lparr>mk_crypto := c\<rparr>,
      mx_pending_mka_tx_meta := mka_tx_meta d, mx_pending_mka_tx_valid := True\<rparr>"
    have b: "macsec_build_control_frame rnd ctx out max_len = Some (MACSEC_ERR_OK, ctx1, frame, n)"
      using mode free built(1) by (simp add: macsec_build_control_frame_def Let_def mka_def ctx1_def)
    show thesis
    proof (rule tx_committed [where now = now, OF built(4) d(1,2) built(5,6) [folded d(7)]], goal_cases)
      case (1 x)
      note x = 1
      define y where "y = ctx1\<lparr>mx_mka := x, mx_pending_mka_tx_meta := mka_meta_zero, mx_pending_mka_tx_valid := False\<rparr>"
      have kd: "mka_kept mka (d\<lparr>mk_crypto := c\<rparr>)"
        using kept_build [where rnd = rnd, OF m rnd room(1) built(1)] .
      have "mka_kept (d\<lparr>mk_crypto := c\<rparr>) x" using kept_tx_success [of "d\<lparr>mk_crypto := c\<rparr>" "mka_tx_meta d" now] x(1) by simp
      from kept_trans [OF kd this] have "macsec_inv (ctx\<lparr>mx_mka := x\<rparr>)" by (intro macsec_inv_mka [OF inv mode x(2)]) (simp add: mka_def)
      then have y: "macsec_inv y" "cf_mode (mx_cfg y) = MACSEC_MODE_MKA_PSK" "mx_frame_crypto y = fc" "mx_mka y = x"
          "macsec_fixed y = macsec_fixed ctx" "\<not> mx_pending_mka_tx_valid y"
        using mode by (simp_all add: y_def ctx1_def macsec_inv_def fc_def macsec_fixed_def)
      show thesis
      proof (rule service_spec [OF y(1,2)], goal_cases)
        case (1 z)
        note z = 1
        have "mka_sak_available (mk_latest_sak x) \<longleftrightarrow> commit \<or> mka_sak_available sak"
          by (auto simp: x(3) commit_def sak_def mka_sak_available_def)
        note av = this
        have n: "macsec_notify_control_tx_success ctx1 now = (MACSEC_ERR_OK, z)"
          using mode x(1) z(1) by (simp add: macsec_notify_control_tx_success_def Let_def ctx1_def y_def)
        have same: "mk_peer (mx_mka z) = mk_peer mka" "mk_local_key_server (mx_mka z) = mk_local_key_server mka"
            "mka_identity (mx_mka z) = mka_identity mka"
          using z(4,5) x(5,6,7) d(4,5,6) by (simp_all add: mka_rest_def y(4))
        have p: "hs_port z"
          using z(2,3,6,7) y x(4,8) d(3) by (simp add: hs_port_def macsec_rest_def)
        show thesis
        proof (rule that [OF b built(2) n p built(3) same(3) same(1,2)], goal_cases)
          case 1
          show ?case using rest_fixed [OF z(3)] y(5) by simp
        next
          case 2
          then have "\<not> commit" "\<not> mka_sak_available sak" by (simp_all add: commit_def mka_sak_available_def)
          then show ?case using z(10,11) av x(3,4) d(3) y(3,4) by (simp add: sak_def commit_def)
        next
          case 3
          then have "mka_sak_available (mk_latest_sak x)" by (simp add: av)
          then show ?case using z(8,9) x(3,4) 3 d(3) y(3,4) by (simp add: sak_def commit_def)
        qed
      qed
    qed
  qed
qed
text \<open>A received MKPDU that the participant accepts, followed by the service of the participant.\<close>

lemma hs_receive:
  fixes ctx :: macsec_ctx and b' :: macsec_mka_ctx
  defines "sak \<equiv> mk_latest_sak b'" and "fc \<equiv> mx_frame_crypto ctx"
  assumes port: "hs_port ctx" and rnd: "length (rnd 16) = 16"
    and in_: "macsec_mka_input rnd (mx_mka ctx) frame (mx_last_tick_ms ctx) = Some (MACSEC_ERR_OK, b')"
    and b': "mk_old_sak b' = macsec_mka_sak_clear" "mka_reasons_ok (mk_tx_reasons b')"
  obtains ctx' where "\<And>plain max_len. macsec_input rnd ctx frame plain max_len = Some (MACSEC_ERR_OK, ctx', plain, 0, False)"
    "hs_port ctx'" "mka_identity (mx_mka ctx') = mka_identity b'" "mk_peer (mx_mka ctx') = mk_peer b'"
    "mk_local_key_server (mx_mka ctx') = mk_local_key_server b'" "macsec_fixed ctx' = macsec_fixed ctx"
    "ms_lifecycle_state sak = MACSEC_MKA_SAK_STATE_NONE \<Longrightarrow>
       mk_latest_sak (mx_mka ctx') = sak \<and> mk_tx_reasons (mx_mka ctx') = mk_tx_reasons b' \<and> mx_frame_crypto ctx' = fc"
    "ms_lifecycle_state sak = MACSEC_MKA_SAK_STATE_CANDIDATE \<Longrightarrow> \<not> ms_rx_installed sak \<Longrightarrow> \<not> ms_tx_installed sak \<Longrightarrow>
       ms_tx_installed (mk_latest_sak (mx_mka ctx')) \<and> mx_state ctx' = MACSEC_STATE_SECURED \<and> mx_frame_crypto ctx' =
       fc_with_tx (fc_with_rx fc (ms_sak sak) (ms_sak_len sak) (ms_an sak) (ms_lowest_pn sak)) (ms_sak sak) (ms_sak_len sak) (ms_an sak)"
proof -
  have inv: "macsec_inv ctx" and mode: "cf_mode (mx_cfg ctx) = MACSEC_MODE_MKA_PSK" and free: "\<not> mx_pending_mka_tx_valid ctx"
    using port by (simp_all add: hs_port_def)
  have m: "mka_inv (mx_mka ctx)" using inv mode by (simp add: macsec_inv_def)
  have i: "mka_inv b'" "mka_kept (mx_mka ctx) b'"
    using kept_input [where rnd = rnd, OF m rnd in_] input_total [where rnd = rnd, OF m rnd, of frame "mx_last_tick_ms ctx"] in_ by auto
  define y where "y = ctx\<lparr>mx_mka := b'\<rparr>"
  have y: "macsec_inv y" "cf_mode (mx_cfg y) = MACSEC_MODE_MKA_PSK" "mx_mka y = b'" "mx_frame_crypto y = fc" "macsec_fixed y = macsec_fixed ctx"
    using macsec_inv_mka [OF inv mode i] mode by (simp_all add: y_def fc_def)
  have mka: "macsec_mka_is_eapol_mka frame = Some True"
  proof (rule ccontr)
    assume "macsec_mka_is_eapol_mka frame \<noteq> Some True"
    then have "macsec_mka_is_eapol_mka frame = Some False" by (auto simp: is_eapol_mka_spec)
    with in_ show False by (simp add: macsec_mka_input_def mka_input_authenticate_def)
  qed
  show thesis
  proof (rule service_spec [OF y(1,2)], goal_cases)
    case (1 z)
    note z = 1
    have run: "macsec_input rnd ctx frame plain max_len = Some (MACSEC_ERR_OK, z, plain, 0, False)" for plain max_len
      using mode mka in_ z(1)
      by (simp add: macsec_input_def macsec_input_mka_def Let_def y_def MACSEC_MODE_DISABLED_def MACSEC_MODE_MKA_PSK_def)
    have p: "hs_port z"
      using z(2,3,6,7) y b' free by (simp add: hs_port_def macsec_rest_def) (simp add: y_def)
    show thesis
    proof (rule that [OF run p], goal_cases)
      case 4
      show ?case using rest_fixed [OF z(3)] y(5) by simp
    next
      case 5
      then have "\<not> mka_sak_available (mk_latest_sak b')" by (simp add: mka_sak_available_def sak_def)
      with z(10,11) y(3,4) b'(1) show ?case by (simp add: sak_def)
    next
      case 6
      then have "mka_sak_available (mk_latest_sak b')" by (simp add: mka_sak_available_def sak_def)
      with z(8,9) y(3,4) b'(1) 6 show ?case by (simp add: sak_def)
    qed (use z(4,5) y(3) in \<open>simp_all add: mka_rest_def\<close>)
  qed
qed

subsection \<open>The exchange\<close>

text \<open>
  One control frame over the link: the sender builds it and is told that it was sent, the receiver
  gets exactly that frame. \<open>None\<close> stands for a call that does not succeed.
\<close>

definition control_frame ::
  "(nat \<Rightarrow> bytes) \<Rightarrow> u32 \<Rightarrow> macsec_ctx \<times> macsec_ctx \<Rightarrow> (macsec_ctx \<times> macsec_ctx) option" where
  "control_frame rnd now l = do {
     (ret, a, frame, n) \<leftarrow> macsec_build_control_frame rnd (fst l) (replicate 512 0) 512;
     if ret \<noteq> MACSEC_ERR_OK then None
     else
       let (ret, a) = macsec_notify_control_tx_success a now
       in if ret \<noteq> MACSEC_ERR_OK then None
          else do {
            (ret, b, plain, len, pass) \<leftarrow> macsec_input rnd (snd l) (take n frame) (replicate 1600 0) 1600;
            if ret \<noteq> MACSEC_ERR_OK then None else Some (a, b)
          }
   }"

text \<open>A data frame over the link arrives as it was handed in.\<close>

definition delivers :: "macsec_ctx \<Rightarrow> macsec_ctx \<Rightarrow> bytes \<Rightarrow> bool" where
  "delivers a b plain \<longleftrightarrow> (\<exists>a' sent n b' got.
     macsec_output a plain (replicate 1700 0) 1700 = Some (MACSEC_ERR_OK, a', sent, n) \<and>
     macsec_input (\<lambda>n. replicate n 0) b (take n sent) (replicate 1600 0) 1600 = Some (MACSEC_ERR_OK, b', got, length plain, True) \<and>
     take (length plain) got = plain)"

lemma control_frame_steps:
  assumes "macsec_build_control_frame rnd a (replicate 512 0) 512 = Some (MACSEC_ERR_OK, a1, frame, n)"
    "macsec_notify_control_tx_success a1 now = (MACSEC_ERR_OK, a')" "take n frame = f"
    "\<And>plain max_len. macsec_input rnd b f plain max_len = Some (MACSEC_ERR_OK, b', plain, 0, False)"
  shows "control_frame rnd now (a, b) = Some (a', b')"
  using assms by (simp add: control_frame_def)
lemma identity_fields:
  assumes "mka_identity m' = mka_identity m"
  shows "mk_local_mac m' = mk_local_mac m" "mk_local_sci m' = mk_local_sci m" "mk_local_mi m' = mk_local_mi m"
    "mk_key_server_priority m' = mk_key_server_priority m" "mc_keys (mk_crypto m') = mc_keys (mk_crypto m)" "mka_ckn m' = mka_ckn m"
  using assms by (simp_all add: mka_identity_def mka_ckn_def)

text \<open>The data planes of both ports after the installation of a SAK that neither had.\<close>

definition hs_fc :: "macsec_frame_crypto_ctx \<Rightarrow> bytes \<Rightarrow> u8 \<Rightarrow> macsec_frame_crypto_ctx" where
  "hs_fc fc key an = fc_with_tx (fc_with_rx fc (key @ replicate 16 0) 16 an 1) (key @ replicate 16 0) 16 an"

lemma hs_fc_blank:
  fixes cfg :: macsec_config and key :: bytes and an :: u8
  assumes "length key = 16" "an < 4"
  defines "fc \<equiv> mx_frame_crypto (macsec_blank cfg)" and "sa \<equiv> fresh_sa (key @ replicate 16 0) 16 an 1"
  shows "fc_tx_sak (hs_fc fc key an) = sa" "fc_rx_sak (hs_fc fc key an) ! unat an = sa" "fc_encrypt (hs_fc fc key an)"
    "fc_replay_protect (hs_fc fc key an) = cf_replay_protect cfg" "fc_replay_window (hs_fc fc key an) = cf_replay_window cfg"
  using assms(2)
  by (simp_all add: hs_fc_def fc_with_tx_def fc_with_rx_def fc_def sa_def blank_fields frame_ctx_zero_def macsec_sak_equal_def
      frame_sak_zero_def word_less_nat_alt)

text \<open>What stays the same on a port while control frames are exchanged.\<close>

definition hs_same :: "macsec_ctx \<Rightarrow> macsec_ctx \<Rightarrow> bool" where
  "hs_same ctx ctx' \<longleftrightarrow> mka_identity (mx_mka ctx') = mka_identity (mx_mka ctx) \<and> hs_port ctx' \<and>
     mk_latest_sak (mx_mka ctx') = mk_latest_sak (mx_mka ctx) \<and> mx_frame_crypto ctx' = mx_frame_crypto ctx"

text \<open>The two ports of a link: the same keys, and different identities.\<close>

definition hs_link :: "macsec_ctx \<Rightarrow> macsec_ctx \<Rightarrow> bool" where
  "hs_link a b \<longleftrightarrow> hs_port a \<and> hs_port b \<and> mc_keys (mk_crypto (mx_mka a)) = mc_keys (mk_crypto (mx_mka b)) \<and>
     mk_local_mac (mx_mka a) \<noteq> mk_local_mac (mx_mka b) \<and> mk_local_sci (mx_mka a) \<noteq> mk_local_sci (mx_mka b) \<and>
     mk_local_mi (mx_mka a) \<noteq> mk_local_mi (mx_mka b) \<and>
     ms_lifecycle_state (mk_latest_sak (mx_mka a)) = MACSEC_MKA_SAK_STATE_NONE \<and>
     ms_lifecycle_state (mk_latest_sak (mx_mka b)) = MACSEC_MKA_SAK_STATE_NONE"

lemma hs_link_sym: "hs_link a b \<Longrightarrow> hs_link b a"
  by (auto simp: hs_link_def)

lemma hs_link_same: "hs_link a b \<Longrightarrow> hs_same a a' \<Longrightarrow> hs_same b b' \<Longrightarrow> hs_link a' b'"
  by (simp add: hs_link_def hs_same_def mka_identity_def)

lemma hs_port_facts:
  assumes "hs_port c"
  shows "mka_inv (mx_mka c)" "mk_old_sak (mx_mka c) = macsec_mka_sak_clear" "mka_reasons_ok (mk_tx_reasons (mx_mka c))"
  using assms by (simp_all add: hs_port_def macsec_inv_def)

text \<open>A frame without a SAK: the receiver knows the sender, and how it is listed there makes it live.\<close>

lemma hello_step:
  assumes link: "hs_link a b" and r: "length (rnd 16) = 16"
    and reasons: "mk_tx_reasons (mx_mka a) \<noteq> MACSEC_MKA_TX_REASON_NONE"
    and quiet: "\<not> mk_local_key_server (mx_mka a) \<or> \<not> mp_live (mk_peer (mx_mka a)) \<or> \<not> mp_valid (mk_peer (mx_mka a))"
    and lists: "mp_valid (mk_peer (mx_mka a)) \<Longrightarrow> mp_mi (mk_peer (mx_mka a)) = mk_local_mi (mx_mka b)"
      "mp_valid (mk_peer (mx_mka a)) \<Longrightarrow> 4 \<le> length (mka_ckn (mx_mka a))"
    and first: "\<not> mp_valid (mk_peer (mx_mka b))"
  obtains a' b' where "control_frame rnd now (a, b) = Some (a', b')" "hs_same a a'" "hs_same b b'" "hs_link a' b'"
    "mk_peer (mx_mka a') = mk_peer (mx_mka a)" "mk_local_key_server (mx_mka a') = mk_local_key_server (mx_mka a)"
    "mp_valid (mk_peer (mx_mka b'))" "mp_mi (mk_peer (mx_mka b')) = mk_local_mi (mx_mka a)"
    "mp_live (mk_peer (mx_mka b')) = mp_valid (mk_peer (mx_mka a))" "mk_tx_reasons (mx_mka b') \<noteq> MACSEC_MKA_TX_REASON_NONE"
    "mk_local_key_server (mx_mka b') \<longleftrightarrow> mk_key_server_priority (mx_mka b) < mk_key_server_priority (mx_mka a)"
proof -
  have l: "hs_port a" "hs_port b" "mc_keys (mk_crypto (mx_mka b)) = mc_keys (mk_crypto (mx_mka a))"
      "mk_local_mac (mx_mka a) \<noteq> mk_local_mac (mx_mka b)" "mk_local_sci (mx_mka a) \<noteq> mk_local_sci (mx_mka b)"
      "mk_local_mi (mx_mka a) \<noteq> mk_local_mi (mx_mka b)" "ms_lifecycle_state (mk_latest_sak (mx_mka a)) = MACSEC_MKA_SAK_STATE_NONE"
      "ms_lifecycle_state (mk_latest_sak (mx_mka b)) = MACSEC_MKA_SAK_STATE_NONE"
    using link by (simp_all add: hs_link_def)
  note pa = hs_port_facts [OF l(1)] and pb = hs_port_facts [OF l(2)]
  have room: "(512::nat) \<le> length (replicate 512 (0::u8))" "(210::nat) \<le> 512" by simp_all
  have d: "snd (mka_tx_prepare rnd (mx_mka a)) = mx_mka a" using quiet by (auto simp: mka_tx_prepare_def)
  show thesis
  proof (rule hs_sent [where rnd = rnd and now = now, OF l(1) r room reasons l(7)], unfold d, goal_cases)
    case (1 x f n a')
    note s = 1
    have old: "ms_lifecycle_state (mk_old_sak (mx_mka a)) = MACSEC_MKA_SAK_STATE_NONE" using pa(2) by simp
    show thesis
    proof (rule input_hello [where now = "mx_last_tick_ms b", OF s(5) pb(1) l(3-6,7) old l(8)], goal_cases)
      case (3 m)
      note h = 3
      show thesis
      proof (rule hs_receive [where rnd = rnd, OF l(2) r h(1)], goal_cases)
        case (3 b')
        note v = 3
        have same: "hs_same a a'" "hs_same b b'" using s(4,6,10) l(7,8) v(2,3,7) h(3,5) by (simp_all add: hs_same_def)
        show thesis
          by (rule that [OF control_frame_steps [OF s(1,3,2) v(1)] same hs_link_same [OF link same] s(7,8)])
             (use v h first l(8) in simp_all)
      qed (use h pb in simp_all)
    qed (use lists in simp_all)
  qed
qed

text \<open>A frame with the first SAK of a Key Server, after which both ports have it installed.\<close>

lemma distribution_step:
  assumes link: "hs_link a b" and r: "length (rnd 16) = 16"
    and reasons: "mk_tx_reasons (mx_mka a) \<noteq> MACSEC_MKA_TX_REASON_NONE"
    and server: "mk_local_key_server (mx_mka a)" "mp_live (mk_peer (mx_mka a))" "mp_valid (mk_peer (mx_mka a))"
    and prio: "mk_key_server_priority (mx_mka a) \<le> mk_key_server_priority (mx_mka b)"
  obtains a' b' an where "control_frame rnd now (a, b) = Some (a', b')" "hs_port a'" "hs_port b'" "an < 4"
    "mx_state a' = MACSEC_STATE_SECURED" "mx_state b' = MACSEC_STATE_SECURED"
    "mx_frame_crypto a' = hs_fc (mx_frame_crypto a) (rnd 16) an" "mx_frame_crypto b' = hs_fc (mx_frame_crypto b) (rnd 16) an"
    "ms_tx_installed (mk_latest_sak (mx_mka a'))" "ms_tx_installed (mk_latest_sak (mx_mka b'))"
proof -
  have l: "hs_port a" "hs_port b" "mc_keys (mk_crypto (mx_mka b)) = mc_keys (mk_crypto (mx_mka a))"
      "mk_local_mac (mx_mka a) \<noteq> mk_local_mac (mx_mka b)" "mk_local_sci (mx_mka a) \<noteq> mk_local_sci (mx_mka b)"
      "mk_local_mi (mx_mka a) \<noteq> mk_local_mi (mx_mka b)" "ms_lifecycle_state (mk_latest_sak (mx_mka a)) = MACSEC_MKA_SAK_STATE_NONE"
      "ms_lifecycle_state (mk_latest_sak (mx_mka b)) = MACSEC_MKA_SAK_STATE_NONE"
    using link by (simp_all add: hs_link_def)
  note pa = hs_port_facts [OF l(1)] and pb = hs_port_facts [OF l(2)]
  have room: "(512::nat) \<le> length (replicate 512 (0::u8))" "(210::nat) \<le> 512" by simp_all
  define d where "d = snd (mka_tx_prepare rnd (mx_mka a))"
  define sak where "sak = mka_new_sak (rnd 16) (mx_mka a)"
  have d: "d = macsec_mka_schedule_tx (macsec_mka_raise_events ((mx_mka a)\<lparr>mk_latest_sak := sak\<rparr>) MACSEC_MKA_EVENT_TX_DISTRIBUTE_SAK)
      MACSEC_MKA_TX_REASON_DISTRIBUTE_SAK"
    using server l(7) by (simp add: d_def mka_tx_prepare_def ensure_sak_spec [where rnd = rnd, OF pa(1) r] sak_def)
  have f: "mk_latest_sak d = sak" "mk_local_mac d = mk_local_mac (mx_mka a)" "mk_local_sci d = mk_local_sci (mx_mka a)"
      "mk_local_mi d = mk_local_mi (mx_mka a)" "mk_crypto d = mk_crypto (mx_mka a)" "mk_peer d = mk_peer (mx_mka a)"
      "mk_key_server_priority d = mk_key_server_priority (mx_mka a)" "mk_local_key_server d"
    using server by (simp_all add: d mka_step_simps)
  have sak: "ms_sak sak = rnd 16 @ replicate 16 0" "ms_sak_len sak = 16" "ms_lowest_pn sak = 1" "\<not> ms_rx_installed sak" "\<not> ms_tx_installed sak"
      "ms_lifecycle_state sak = MACSEC_MKA_SAK_STATE_DISTRIBUTION_PENDING" "ms_origin sak = MACSEC_MKA_SAK_ORIGIN_LOCAL_KEY_SERVER"
    by (simp_all add: sak_def mka_new_sak_def)
  have dist: "mka_include_distributed_sak d"
    using server sak f by (simp add: mka_include_distributed_sak_def mka_sak_distributable_def)
  show thesis
  proof (rule hs_sent [where rnd = rnd and now = now, OF l(1) r room reasons l(7)], fold d_def, unfold f(1), goal_cases)
    case (1 x fr n a')
    note s = 1
    have an: "ms_an sak < 4" using s(5) f(1) sak(6) by (auto simp: mka_inv_def mka_latest_ok_def mka_sak_ok_def)
    have sa: "ms_tx_installed (mk_latest_sak (mx_mka a'))" "mx_state a' = MACSEC_STATE_SECURED" "mx_frame_crypto a' = hs_fc (mx_frame_crypto a) (rnd 16) (ms_an sak)"
      using s(11) dist sak by (simp_all add: hs_fc_def)
    show thesis
    proof (rule input_distribution [where now = "mx_last_tick_ms b", OF s(5) pb(1)], goal_cases)
      case (8 m)
      note h = 8
      have got: "mk_latest_sak m = mka_received_sak (ms_key_number sak) (ms_an sak) (rnd 16)" using h(3) f(1) sak r by simp
      show thesis
      proof (rule hs_receive [where rnd = rnd, OF l(2) r h(1)], goal_cases)
        case (3 b')
        then show thesis
          using got r sak
          by (intro that [OF control_frame_steps [OF s(1,3,2) 3(1)] s(4) 3(2) an sa(2) _ sa(3) _ sa(1)])
             (simp_all add: mka_received_sak_def hs_fc_def)
      qed (use h pb in simp_all)
    qed (use l f prio dist in simp_all)
  qed
qed

text \<open>
  Three control frames bring the link up: the hello of the Key Server, the answer that makes its peer
  live, and the distribution of the SAK.
\<close>

lemma link_up:
  assumes a: "macsec_config_ok cfg" "cf_mode cfg = MACSEC_MODE_MKA_PSK" "macsec_init rnd cfg = (MACSEC_ERR_OK, a)" "length (rnd 12) = 12"
    and b: "macsec_config_ok cfg'" "cf_mode cfg' = MACSEC_MODE_MKA_PSK" "macsec_init rnd' cfg' = (MACSEC_ERR_OK, b)" "length (rnd' 12) = 12"
    and same: "cf_cak cfg' = cf_cak cfg" "cf_cak_len cfg' = cf_cak_len cfg" "cf_ckn cfg' = cf_ckn cfg" "cf_ckn_len cfg' = cf_ckn_len cfg"
    and other: "cf_local_mac cfg \<noteq> cf_local_mac cfg'" "rnd 12 \<noteq> rnd' 12" "4 \<le> cf_ckn_len cfg"
    and prio: "cf_key_server_priority cfg < cf_key_server_priority cfg'"
    and r: "length (r1 16) = 16" "length (r2 16) = 16" "length (r3 16) = 16"
  obtains a1 b1 a2 b2 a3 b3 an where "control_frame r1 t1 (a, b) = Some (a1, b1)" "control_frame r2 t2 (b1, a1) = Some (b2, a2)"
    "control_frame r3 t3 (a2, b2) = Some (a3, b3)" "hs_port a3" "hs_port b3" "an < 4"
    "mx_state a3 = MACSEC_STATE_SECURED" "mx_state b3 = MACSEC_STATE_SECURED"
    "mx_frame_crypto a3 = hs_fc (mx_frame_crypto (macsec_blank cfg)) (r3 16) an"
    "mx_frame_crypto b3 = hs_fc (mx_frame_crypto (macsec_blank cfg')) (r3 16) an"
    "ms_tx_installed (mk_latest_sak (mx_mka a3))"
proof -
  note A = mka_start [where rnd = rnd, OF a] and B = mka_start [where rnd = rnd', OF b]
  have link: "hs_link a b" using A B other same by (auto simp: hs_link_def hs_keys_def)
  show thesis
  proof (rule hello_step [where rnd = r1 and now = t1, OF link r(1) A(6)], goal_cases)
    case (5 a1 b1)
    note s1 = 5
    note ia = identity_fields [OF conjunct1 [OF s1(2) [unfolded hs_same_def]]]
      and ib = identity_fields [OF conjunct1 [OF s1(3) [unfolded hs_same_def]]]
    show thesis
    proof (rule hello_step [where rnd = r2 and now = t2, OF hs_link_sym [OF s1(4)] r(2) s1(10)], goal_cases)
      case (5 b2 a2)
      note s2 = 5
      note ia2 = identity_fields [OF conjunct1 [OF s2(3) [unfolded hs_same_def]]]
        and ib2 = identity_fields [OF conjunct1 [OF s2(2) [unfolded hs_same_def]]]
      show thesis
      proof (rule distribution_step [where rnd = r3 and now = t3, OF hs_link_sym [OF s2(4)] r(3) s2(10)], goal_cases)
        case (5 a3 b3 an)
        show thesis
          by (rule that [OF s1(1) s2(1) 5(1-6)]) (use 5(7-9) A(2) B(2) s1(2,3) s2(2,3) in \<open>simp_all add: hs_same_def\<close>)
      qed (use s1 s2 prio A(12) B(12) ia(4) ib(4) ia2(4) ib2(4) in simp_all)
    qed (use s1 A(3,12) B(12) prio ia ib B(8) other(3) same in simp_all)
  qed (use A(3) B(3) in simp_all)
qed

text \<open>
  C1. A link between two ports that are initialized in MKA mode with the same CAK
  and a CKN of at least 4 bytes, with different MAC addresses and member identifiers, comes up with three
  control frames when one priority is better: every call on the way returns \<open>MACSEC_ERR_OK\<close>, at any
  times, then both ports are secured, and every frame of 14 to 1600 bytes is delivered in both
  directions. Neither side may be configured with a replay window above 64.
\<close>

theorem mka_link_comes_up:
  assumes a: "macsec_config_ok cfg" "cf_mode cfg = MACSEC_MODE_MKA_PSK" "macsec_init rnd cfg = (MACSEC_ERR_OK, a)" "length (rnd 12) = 12"
    and b: "macsec_config_ok cfg'" "cf_mode cfg' = MACSEC_MODE_MKA_PSK" "macsec_init rnd' cfg' = (MACSEC_ERR_OK, b)" "length (rnd' 12) = 12"
    and same: "cf_cak cfg' = cf_cak cfg" "cf_cak_len cfg' = cf_cak_len cfg" "cf_ckn cfg' = cf_ckn cfg" "cf_ckn_len cfg' = cf_ckn_len cfg"
    and other: "cf_local_mac cfg \<noteq> cf_local_mac cfg'" "rnd 12 \<noteq> rnd' 12" "4 \<le> cf_ckn_len cfg"
    and prio: "cf_key_server_priority cfg < cf_key_server_priority cfg'"
    and window: "unat (cf_replay_window cfg) \<le> 64" "unat (cf_replay_window cfg') \<le> 64"
    and r: "length (r1 16) = 16" "length (r2 16) = 16" "length (r3 16) = 16"
  shows "\<exists>a1 b1 a2 b2 a3 b3. control_frame r1 t1 (a, b) = Some (a1, b1) \<and> control_frame r2 t2 (b1, a1) = Some (b2, a2) \<and>
    control_frame r3 t3 (a2, b2) = Some (a3, b3) \<and> mx_state a3 = MACSEC_STATE_SECURED \<and> mx_state b3 = MACSEC_STATE_SECURED \<and>
    (\<forall>plain. 14 \<le> length plain \<longrightarrow> length plain \<le> 1600 \<longrightarrow> delivers a3 b3 plain \<and> delivers b3 a3 plain)"
proof (rule link_up [where rnd = rnd and rnd' = rnd' and ?r1.0 = r1 and ?r2.0 = r2 and ?r3.0 = r3 and ?t1.0 = t1 and ?t2.0 = t2
      and ?t3.0 = t3, OF a b same other prio r], goal_cases)
  case (1 a1 b1 a2 b2 a3 b3 an)
  note up = 1
  note fa = hs_fc_blank [OF r(3) up(6), of cfg, folded up(9)] and fb = hs_fc_blank [OF r(3) up(6), of cfg', folded up(10)]
  have on: "cf_mode (mx_cfg c) \<noteq> MACSEC_MODE_DISABLED" if "hs_port c" for c
    using that by (simp add: hs_port_def MACSEC_MODE_DISABLED_def MACSEC_MODE_MKA_PSK_def)
  have inv: "macsec_inv a3" "macsec_inv b3" using up(4,5) by (simp_all add: hs_port_def)
  have key: "16 = 16 \<or> 16 = (32::nat)" "length (r3 16 @ replicate 16 0) = 32" using r(3) by simp_all
  have "delivers a3 b3 plain \<and> delivers b3 a3 plain" if p: "14 \<le> length plain" "length plain \<le> 1600" for plain
  proof
    show "delivers a3 b3 plain"
      by (rule macsec_deliver [where out = "replicate 1700 0" and max_len = 1700 and out' = "replicate 1600 0" and max_len' = 1600,
            OF inv on [OF up(4)] on [OF up(5)] up(7,8) fa(1) fb(2) key up(6) fa(3) _ p])
         (use window fb(4,5) p in \<open>auto simp: delivers_def\<close>)
    show "delivers b3 a3 plain"
      by (rule macsec_deliver [where out = "replicate 1700 0" and max_len = 1700 and out' = "replicate 1600 0" and max_len' = 1600,
            OF inv(2,1) on [OF up(5)] on [OF up(4)] up(8,7) fb(1) fa(2) key up(6) fb(3) _ p])
         (use window fa(4,5) p in \<open>auto simp: delivers_def\<close>)
  qed
  with up(1,2,3,7,8) show ?case by blast
qed
lemma sample_cfg_facts:
  "cf_mode (sample_cfg m i) = m" "cf_cak (sample_cfg m i) = cf_cak (sample_cfg m j)" "cf_cak_len (sample_cfg m i) = cf_cak_len (sample_cfg m j)"
  "cf_ckn (sample_cfg m i) = cf_ckn (sample_cfg m j)" "cf_ckn_len (sample_cfg m i) = cf_ckn_len (sample_cfg m j)"
  "unat (cf_replay_window (sample_cfg m i)) \<le> 64"
  "cf_local_mac (sample_cfg m 1) \<noteq> cf_local_mac (sample_cfg m 2)" "4 \<le> cf_ckn_len (sample_cfg m i)"
  "cf_key_server_priority (sample_cfg m 1) < cf_key_server_priority (sample_cfg m 2)"
  "(\<lambda>n. replicate n (of_nat 1 :: u8)) 12 \<noteq> (\<lambda>n. replicate n (of_nat 2)) 12"
  "length ((\<lambda>n. replicate n (x::u8)) k) = k"
  by (simp_all add: sample_cfg_def macsec_config_zero_def)

lemma sample_link:
  obtains a1 b1 a2 b2 a3 b3 an where
    "control_frame (\<lambda>n. replicate n 3) 10 (sample_macsec MACSEC_MODE_MKA_PSK 1, sample_macsec MACSEC_MODE_MKA_PSK 2) = Some (a1, b1)"
    "control_frame (\<lambda>n. replicate n 4) 20 (b1, a1) = Some (b2, a2)"
    "control_frame (\<lambda>n. replicate n 5) 30 (a2, b2) = Some (a3, b3)" "hs_port a3" "ms_tx_installed (mk_latest_sak (mx_mka a3))"
proof -
  note c = sample_cfg_facts
  show thesis
    by (rule link_up [where rnd = "\<lambda>n. replicate n (of_nat 1)" and rnd' = "\<lambda>n. replicate n (of_nat 2)" and ?r1.0 = "\<lambda>n. replicate n 3"
        and ?r2.0 = "\<lambda>n. replicate n 4" and ?r3.0 = "\<lambda>n. replicate n 5", OF sample_cfg_ok c(1) sample_macsec_init(1) c(11)
        sample_cfg_ok c(1) sample_macsec_init(1) c(11) c(2-5) c(7,10,8,9) c(11) c(11) c(11)])
       (rule that)
qed

theorem mka_link_comes_up_witness:
  "\<exists>a1 b1 a2 b2 a3 b3.
    control_frame (\<lambda>n. replicate n 3) 10 (sample_macsec MACSEC_MODE_MKA_PSK 1, sample_macsec MACSEC_MODE_MKA_PSK 2) = Some (a1, b1) \<and>
    control_frame (\<lambda>n. replicate n 4) 20 (b1, a1) = Some (b2, a2) \<and> control_frame (\<lambda>n. replicate n 5) 30 (a2, b2) = Some (a3, b3) \<and>
    delivers a3 b3 (replicate 60 9) \<and> delivers b3 a3 (replicate 60 9)"
proof -
  note c = sample_cfg_facts
  have p: "14 \<le> length (replicate 60 (9::u8))" "length (replicate 60 (9::u8)) \<le> 1600" by simp_all
  from mka_link_comes_up [where rnd = "\<lambda>n. replicate n (of_nat 1)" and rnd' = "\<lambda>n. replicate n (of_nat 2)" and ?r1.0 = "\<lambda>n. replicate n 3"
        and ?r2.0 = "\<lambda>n. replicate n 4" and ?r3.0 = "\<lambda>n. replicate n 5", OF sample_cfg_ok c(1) sample_macsec_init(1) c(11)
        sample_cfg_ok c(1) sample_macsec_init(1) c(11) c(2-5) c(7,10,8,9) c(6) c(6) c(11) c(11) c(11),
      of 10 20 30] p
  show ?thesis by meson
qed

lemma control_frame_reachable:
  assumes "control_frame rnd now (a, b) = Some (a', b')" "macsec_reachable a" "macsec_reachable b" "length (rnd 16) = 16"
  shows "macsec_reachable a' \<and> macsec_reachable b'"
proof -
  obtain a1 frame n plain len pass where s: "macsec_build_control_frame rnd a (replicate 512 0) 512 = Some (MACSEC_ERR_OK, a1, frame, n)"
      "macsec_notify_control_tx_success a1 now = (MACSEC_ERR_OK, a')"
      "macsec_input rnd b (take n frame) (replicate 1600 0) 1600 = Some (MACSEC_ERR_OK, b', plain, len, pass)"
    using assms(1) by (auto simp: control_frame_def Let_def split: if_splits bind_splits prod.splits)
  have room: "(512::nat) \<le> length (replicate 512 (0::u8))" "(1600::nat) \<le> length (replicate 1600 (0::u8))" by simp_all
  have r1: "macsec_reachable a1" by (rule reach_step [OF assms(2) macsec_step_build [where rnd = rnd, OF assms(4) room(1) s(1)]])
  have "macsec_reachable a'" by (rule reach_step [OF r1 macsec_step_sent [OF s(2)]])
  moreover have "macsec_reachable b'" by (rule reach_step [OF assms(3) macsec_step_input [where rnd = rnd, OF assms(4) room(2) s(3)]])
  ultimately show ?thesis by simp
qed

theorem macsec_data_plane_consistent_witness:
  "\<exists>ctx. macsec_reachable ctx \<and> ms_tx_installed (mk_latest_sak (mx_mka ctx)) \<and>
     fs_valid (fc_tx_sak (mx_frame_crypto ctx)) \<and> fs_an (fc_tx_sak (mx_frame_crypto ctx)) = ms_an (mk_latest_sak (mx_mka ctx))"
proof (rule sample_link)
  fix a1 b1 a2 b2 a3 b3
  assume up: "control_frame (\<lambda>n. replicate n 3) 10 (sample_macsec MACSEC_MODE_MKA_PSK 1, sample_macsec MACSEC_MODE_MKA_PSK 2) = Some (a1, b1)"
    "control_frame (\<lambda>n. replicate n 4) 20 (b1, a1) = Some (b2, a2)"
    "control_frame (\<lambda>n. replicate n 5) 30 (a2, b2) = Some (a3, b3)" "hs_port a3" "ms_tx_installed (mk_latest_sak (mx_mka a3))"
  have r: "length ((\<lambda>n. replicate n (i::u8)) 16) = 16" for i by simp
  note r1 = control_frame_reachable [where rnd = "\<lambda>n. replicate n 3", OF up(1) sample_macsec_reachable(1) sample_macsec_reachable(1) r]
  note r2 = control_frame_reachable [where rnd = "\<lambda>n. replicate n 4", OF up(2) conjunct2 [OF r1] conjunct1 [OF r1] r]
  note r3 = control_frame_reachable [where rnd = "\<lambda>n. replicate n 5", OF up(3) conjunct2 [OF r2] conjunct1 [OF r2] r]
  have reach: "macsec_reachable a3" and mode: "cf_mode (mx_cfg a3) = MACSEC_MODE_MKA_PSK"
    using r3 up(4) by (simp_all add: hs_port_def)
  from macsec_data_plane_consistent [OF reach mode _ up(5)] reach up(5) show ?thesis by blast
qed

end
