(* ===== verification/LinuxTapConfig.thy ===== *)
theory LinuxTapConfig
  imports MacsecHandshake
begin

text \<open>
  The configuration of the Linux TAP application in \<open>examples/linux_tap/main.c\<close>: the parsers of
  hexadecimal keys and of the priority, the configuration file, the static key of the command line, and
  the initialization of the stack from them. Text is the part of a C string before its final NUL.
  A parser returns 0 or -1 as the code does; what is printed is not modelled.
\<close>

subsection \<open>Data\<close>

datatype linux_tap_mode = LINUX_TAP_MODE_MKA_PSK | LINUX_TAP_MODE_STATIC_SAK

record linux_tap_config =
  lc_mode :: linux_tap_mode
  lc_cak :: bytes
  lc_cak_len :: nat
  lc_ckn :: bytes
  lc_ckn_len :: nat
  lc_mka_priority :: u8
  lc_static_sak :: bytes
  lc_static_sak_len :: nat
  lc_cak_set :: bool
  lc_ckn_set :: bool
  lc_priority_set :: bool

definition LINUX_TAP_CONFIG_LINE_MAX :: nat where "LINUX_TAP_CONFIG_LINE_MAX = 512"
definition LINUX_TAP_CKN_MAX_LEN :: nat where "LINUX_TAP_CKN_MAX_LEN = 32"
definition LINUX_TAP_STATIC_SAK_PREFIX :: string where "LINUX_TAP_STATIC_SAK_PREFIX = ''STATIC_SAK=''"

definition linux_tap_config_zero :: linux_tap_config where
  "linux_tap_config_zero = \<lparr>lc_mode = LINUX_TAP_MODE_MKA_PSK, lc_cak = replicate 32 0, lc_cak_len = 0,
     lc_ckn = replicate 32 0, lc_ckn_len = 0, lc_mka_priority = 0, lc_static_sak = replicate 32 0,
     lc_static_sak_len = 0, lc_cak_set = False, lc_ckn_set = False, lc_priority_set = False\<rparr>"

subsection \<open>Text\<close>

text \<open>\<open>isspace\<close> in the C locale.\<close>

definition c_isspace :: "char \<Rightarrow> bool" where
  "c_isspace c \<longleftrightarrow> c \<in> {CHR '' '', CHR 0x09, CHR 0x0A, CHR 0x0B, CHR 0x0C, CHR 0x0D}"

definition linux_tap_trim :: "string \<Rightarrow> string" where
  "linux_tap_trim text = (let text = dropWhile c_isspace text in rev (dropWhile c_isspace (rev text)))"

definition linux_tap_hex_value :: "char \<Rightarrow> int" where
  "linux_tap_hex_value c =
     (let v = of_char c :: int in
      if of_char (CHR ''0'') \<le> v \<and> v \<le> of_char (CHR ''9'') then v - of_char (CHR ''0'')
      else if of_char (CHR ''a'') \<le> v \<and> v \<le> of_char (CHR ''f'') then 10 + (v - of_char (CHR ''a''))
      else if of_char (CHR ''A'') \<le> v \<and> v \<le> of_char (CHR ''F'') then 10 + (v - of_char (CHR ''A''))
      else -1)"

text \<open>The loop over the pairs of digits: \<open>n\<close> bytes are left, \<open>i\<close> are stored.\<close>

primrec linux_tap_hex_loop :: "nat \<Rightarrow> string \<Rightarrow> nat \<Rightarrow> bytes \<Rightarrow> int \<times> bytes" where
  "linux_tap_hex_loop 0 text i out = (0, out)"
| "linux_tap_hex_loop (Suc n) text i out =
     (let high = linux_tap_hex_value (text ! (i * 2));
          low = linux_tap_hex_value (text ! (i * 2 + 1))
      in if high < 0 \<or> low < 0 then (-1, out)
         else linux_tap_hex_loop n text (i + 1) (out[i := word_of_int (push_bit 4 high OR low)]))"

text \<open>The result is the return value, the output array and the stored length.\<close>

definition linux_tap_parse_hex :: "string \<Rightarrow> bytes \<Rightarrow> nat \<Rightarrow> nat \<Rightarrow> int \<times> bytes \<times> nat" where
  "linux_tap_parse_hex text out output_capacity output_len =
     (let text_len = length text in
      if text_len = 0 \<or> text_len mod 2 \<noteq> 0 then (-1, out, output_len)
      else
        let byte_count = text_len div 2 in
        if byte_count > output_capacity then (-1, out, output_len)
        else
          let (ret, out) = linux_tap_hex_loop byte_count text 0 out
          in if ret \<noteq> 0 then (-1, out, output_len) else (0, out, byte_count))"

subsection \<open>The priority\<close>

text \<open>
  \<open>strtoul\<close> with base 10 on a 64-bit system: leading white space, an optional sign, digits. The result is
  the value, whether the range was left (\<open>errno\<close> is \<open>ERANGE\<close> and the value the largest one), and
  the rest of the text; without any digit the rest is the whole text. A minus sign negates the value
  in the unsigned type.
\<close>

definition c_isdigit :: "char \<Rightarrow> bool" where
  "c_isdigit c \<longleftrightarrow> of_char (CHR ''0'') \<le> (of_char c :: nat) \<and> (of_char c :: nat) \<le> of_char (CHR ''9'')"

definition decimal_value :: "string \<Rightarrow> nat" where
  "decimal_value digits = foldl (\<lambda>v c. v * 10 + (of_char c - of_char (CHR ''0''))) 0 digits"

definition c_strtoul :: "string \<Rightarrow> u64 \<times> bool \<times> string" where
  "c_strtoul text =
     (let body = dropWhile c_isspace text;
          (negative, body) = (case body of
             c # rest \<Rightarrow> if c = CHR ''-'' then (True, rest) else if c = CHR ''+'' then (False, rest) else (False, body)
           | [] \<Rightarrow> (False, body));
          digits = takeWhile c_isdigit body
      in if digits = [] then (0, False, text)
         else if decimal_value digits \<ge> 2 ^ 64 then (-1, True, drop (length digits) body)
         else let v = of_nat (decimal_value digits) in (if negative then - v else v, False, drop (length digits) body))"

definition linux_tap_parse_priority :: "string \<Rightarrow> u8 \<Rightarrow> int \<times> u8" where
  "linux_tap_parse_priority text priority =
     (let (result, range, rest) = c_strtoul text;
          value = (ucast result :: u32)
      in if range \<or> rest = text \<or> rest \<noteq> [] \<or> value > 255 then (-1, priority)
         else (0, ucast value))"
subsection \<open>The configuration file\<close>

text \<open>
  \<open>fgets\<close> with a buffer of \<open>n\<close> bytes: the characters read, what is left of the file, and whether the end
  of the file was met.
\<close>

definition c_fgets :: "nat \<Rightarrow> string \<Rightarrow> string \<times> string \<times> bool" where
  "c_fgets n content =
     (let chunk = take (n - 1) content;
          line = (if CHR 0x0A \<in> set chunk then takeWhile (\<lambda>c. c \<noteq> CHR 0x0A) chunk @ [CHR 0x0A] else chunk)
      in (line, drop (length line) content, CHR 0x0A \<notin> set chunk \<and> length chunk < n - 1))"

text \<open>The three options that a line may set; every other line is ignored.\<close>

definition linux_tap_config_cak :: "string \<Rightarrow> linux_tap_config \<Rightarrow> int \<times> linux_tap_config" where
  "linux_tap_config_cak value config =
     (if lc_cak_set config then (-1, config)
      else
        let (ret, cak, cak_len) = linux_tap_parse_hex value (lc_cak config) 32 (lc_cak_len config);
            config = config\<lparr>lc_cak := cak, lc_cak_len := cak_len\<rparr>
        in if ret < 0 then (-1, config)
           else if lc_cak_len config \<noteq> 16 \<and> lc_cak_len config \<noteq> 32 then (-1, config)
           else (0, config\<lparr>lc_cak_set := True\<rparr>))"

definition linux_tap_config_ckn :: "string \<Rightarrow> linux_tap_config \<Rightarrow> int \<times> linux_tap_config" where
  "linux_tap_config_ckn value config =
     (if lc_ckn_set config then (-1, config)
      else
        let (ret, ckn, ckn_len) = linux_tap_parse_hex value (lc_ckn config) 32 (lc_ckn_len config);
            config = config\<lparr>lc_ckn := ckn, lc_ckn_len := ckn_len\<rparr>
        in if ret < 0 then (-1, config)
           else if lc_ckn_len config = 0 \<or> lc_ckn_len config > LINUX_TAP_CKN_MAX_LEN then (-1, config)
           else (0, config\<lparr>lc_ckn_set := True\<rparr>))"

definition linux_tap_config_priority :: "string \<Rightarrow> linux_tap_config \<Rightarrow> int \<times> linux_tap_config" where
  "linux_tap_config_priority value config =
     (if lc_priority_set config then (-1, config)
      else
        let (ret, priority) = linux_tap_parse_priority value (lc_mka_priority config);
            config = config\<lparr>lc_mka_priority := priority\<rparr>
        in if ret < 0 then (-1, config) else (0, config\<lparr>lc_priority_set := True\<rparr>))"

text \<open>One line as \<open>fgets\<close> leaves it in the buffer.\<close>

definition linux_tap_config_line :: "string \<Rightarrow> bool \<Rightarrow> linux_tap_config \<Rightarrow> int \<times> linux_tap_config" where
  "linux_tap_config_line line eof config =
     (let line = takeWhile (\<lambda>c. c \<noteq> CHR 0x00) line in
      if CHR 0x0A \<notin> set line \<and> \<not> eof then (-1, config)
      else
        let text = linux_tap_trim (takeWhile (\<lambda>c. c \<noteq> CHR ''#'') line) in
        if text = [] then (0, config)
        else if take 8 text = ''mka_cak='' then linux_tap_config_cak (linux_tap_trim (drop 8 text)) config
        else if take 8 text = ''mka_ckn='' then linux_tap_config_ckn (linux_tap_trim (drop 8 text)) config
        else if take 13 text = ''mka_priority='' then linux_tap_config_priority (linux_tap_trim (drop 13 text)) config
        else (0, config))"

lemma fgets_shorter:
  assumes "c_fgets n content = (line, rest, eof)" "1 < n" "content \<noteq> []" shows "length rest < length content"
proof -
  have "take (n - 1) content \<noteq> []" using assms(2,3) by simp
  then have "line \<noteq> []" "rest = drop (length line) content" using assms(1) by (auto simp: c_fgets_def Let_def split: if_splits)
  with assms(3) show ?thesis by simp
qed

function linux_tap_config_lines :: "string \<Rightarrow> linux_tap_config \<Rightarrow> int \<times> linux_tap_config" where
  "linux_tap_config_lines content config =
     (if content = [] then (0, config)
      else
        let (line, rest, eof) = c_fgets LINUX_TAP_CONFIG_LINE_MAX content;
            (ret, config) = linux_tap_config_line line eof config
        in if ret < 0 then (-1, config) else linux_tap_config_lines rest config)"
  by auto
termination
proof (relation "measure (\<lambda>(content, config). length content)", goal_cases)
  case (2 content config x line y rest eof z ret config')
  have "c_fgets LINUX_TAP_CONFIG_LINE_MAX content = (line, rest, eof)" using 2(2,3,4) by simp
  from fgets_shorter [OF this _ 2(1)] show ?case by (simp add: LINUX_TAP_CONFIG_LINE_MAX_def)
qed simp

declare linux_tap_config_lines.simps [simp del]

text \<open>
  \<open>content\<close> is the content of the file, or \<open>None\<close> when it cannot be opened; \<open>read_error\<close> tells whether
  reading ended with an error.
\<close>

definition linux_tap_load_config :: "string option \<Rightarrow> bool \<Rightarrow> int \<times> linux_tap_config" where
  "linux_tap_load_config content read_error =
     (let config = linux_tap_config_zero\<lparr>lc_mode := LINUX_TAP_MODE_MKA_PSK\<rparr> in
      case content of None \<Rightarrow> (-1, config)
      | Some content \<Rightarrow>
          let (ret, config) = linux_tap_config_lines content config in
          if ret < 0 then (-1, config)
          else if read_error then (-1, config)
          else if \<not> lc_cak_set config then (-1, config)
          else if \<not> lc_ckn_set config then (-1, config)
          else if \<not> lc_priority_set config then (-1, config)
          else (0, config))"

definition linux_tap_parse_static_sak :: "string \<Rightarrow> linux_tap_config \<Rightarrow> int \<times> linux_tap_config" where
  "linux_tap_parse_static_sak argument config =
     (if take (length LINUX_TAP_STATIC_SAK_PREFIX) argument \<noteq> LINUX_TAP_STATIC_SAK_PREFIX then (-1, config)
      else
        let value = drop (length LINUX_TAP_STATIC_SAK_PREFIX) argument;
            config = linux_tap_config_zero\<lparr>lc_mode := LINUX_TAP_MODE_STATIC_SAK\<rparr>;
            (ret, sak, sak_len) = linux_tap_parse_hex value (lc_static_sak config) 32 (lc_static_sak_len config);
            config = config\<lparr>lc_static_sak := sak, lc_static_sak_len := sak_len\<rparr>
        in if ret < 0 then (-1, config)
           else if lc_static_sak_len config \<noteq> 16 \<and> lc_static_sak_len config \<noteq> 32 then (-1, config)
           else (0, config))"

text \<open>The configuration that \<open>main\<close> takes from its third argument, which is a key or the name of a file.\<close>

definition linux_tap_configure :: "string \<Rightarrow> string option \<Rightarrow> bool \<Rightarrow> int \<times> linux_tap_config" where
  "linux_tap_configure config_path content read_error =
     (if take (length LINUX_TAP_STATIC_SAK_PREFIX) config_path = LINUX_TAP_STATIC_SAK_PREFIX
      then linux_tap_parse_static_sak config_path linux_tap_config_zero
      else linux_tap_load_config content read_error)"

subsection \<open>Initialization of the stack\<close>

definition linux_tap_macsec_config :: "bytes \<Rightarrow> linux_tap_config \<Rightarrow> macsec_config" where
  "linux_tap_macsec_config local_mac config =
     (let cfg = macsec_config_zero\<lparr>cf_local_mac := take 6 local_mac, cf_port_id := 1,
            cf_replay_protect := False, cf_replay_window := 0\<rparr>
      in if lc_mode config = LINUX_TAP_MODE_STATIC_SAK
         then cfg\<lparr>cf_mode := MACSEC_MODE_STATIC_SAK,
                cf_static_sak := arr_put (cf_static_sak cfg) (take (lc_static_sak_len config) (lc_static_sak config)),
                cf_static_sak_len := lc_static_sak_len config, cf_static_an := 0\<rparr>
         else cfg\<lparr>cf_mode := MACSEC_MODE_MKA_PSK,
                cf_cak := arr_put (cf_cak cfg) (take (lc_cak_len config) (lc_cak config)), cf_cak_len := lc_cak_len config,
                cf_ckn := arr_put (cf_ckn cfg) (take (lc_ckn_len config) (lc_ckn config)), cf_ckn_len := lc_ckn_len config,
                cf_key_server_priority := lc_mka_priority config, cf_mka_tx_interval_ms := 2000\<rparr>)"

definition linux_tap_init_macsec ::
  "(nat \<Rightarrow> bytes) \<Rightarrow> bytes \<Rightarrow> linux_tap_config \<Rightarrow> macsec_ret \<times> macsec_ctx" where
  "linux_tap_init_macsec rnd local_mac config = macsec_init rnd (linux_tap_macsec_config local_mac config)"
subsection \<open>Accepted configurations\<close>

lemma hex_loop_length: "length (snd (linux_tap_hex_loop n text i out)) = length out"
  by (induction n arbitrary: i out) (simp_all add: Let_def)

lemma hex_loop_ret: "fst (linux_tap_hex_loop n text i out) \<in> {0, -1}"
  by (induction n arbitrary: i out) (simp_all add: Let_def)

lemma parse_hex_bounds:
  assumes "linux_tap_parse_hex text out capacity len = (ret, out', len')"
  shows "length out' = length out" "ret \<in> {0, -1}" "ret = 0 \<Longrightarrow> len' = length text div 2 \<and> len' \<le> capacity"
  using assms hex_loop_length [of "length text div 2" "text" 0 out] hex_loop_ret [of "length text div 2" "text" 0 out]
  by (auto simp: linux_tap_parse_hex_def Let_def split: if_splits prod.splits)

text \<open>What holds of the configuration between two lines of the file.\<close>

definition linux_tap_lines_ok :: "linux_tap_config \<Rightarrow> bool" where
  "linux_tap_lines_ok config \<longleftrightarrow> lc_mode config = LINUX_TAP_MODE_MKA_PSK \<and> length (lc_cak config) = 32 \<and>
     length (lc_ckn config) = 32 \<and> (lc_cak_set config \<longrightarrow> lc_cak_len config = 16 \<or> lc_cak_len config = 32) \<and>
     (lc_ckn_set config \<longrightarrow> 1 \<le> lc_ckn_len config \<and> lc_ckn_len config \<le> 32)"

lemma config_option_ok:
  assumes "linux_tap_lines_ok config"
  shows "linux_tap_config_cak v config = (ret, config') \<Longrightarrow> 0 \<le> ret \<Longrightarrow> linux_tap_lines_ok config'"
    "linux_tap_config_ckn v config = (ret, config') \<Longrightarrow> 0 \<le> ret \<Longrightarrow> linux_tap_lines_ok config'"
    "linux_tap_config_priority v config = (ret, config') \<Longrightarrow> 0 \<le> ret \<Longrightarrow> linux_tap_lines_ok config'"
proof -
  obtain r o' n where c: "linux_tap_parse_hex v (lc_cak config) 32 (lc_cak_len config) = (r, o', n)" by (metis surj_pair)
  show "linux_tap_config_cak v config = (ret, config') \<Longrightarrow> 0 \<le> ret \<Longrightarrow> linux_tap_lines_ok config'"
    using assms parse_hex_bounds [OF c] by (auto simp: linux_tap_config_cak_def Let_def c linux_tap_lines_ok_def split: if_splits)
next
  obtain r o' n where c: "linux_tap_parse_hex v (lc_ckn config) 32 (lc_ckn_len config) = (r, o', n)" by (metis surj_pair)
  show "linux_tap_config_ckn v config = (ret, config') \<Longrightarrow> 0 \<le> ret \<Longrightarrow> linux_tap_lines_ok config'"
    using assms parse_hex_bounds [OF c]
    by (auto simp: linux_tap_config_ckn_def Let_def c linux_tap_lines_ok_def LINUX_TAP_CKN_MAX_LEN_def split: if_splits)
next
  show "linux_tap_config_priority v config = (ret, config') \<Longrightarrow> 0 \<le> ret \<Longrightarrow> linux_tap_lines_ok config'"
    using assms by (auto simp: linux_tap_config_priority_def Let_def linux_tap_lines_ok_def split: if_splits prod.splits)
qed

lemma config_line_ok:
  assumes "linux_tap_lines_ok config" "linux_tap_config_line line eof config = (ret, config')" "0 \<le> ret"
  shows "linux_tap_lines_ok config'"
  using assms(2,3) config_option_ok [OF assms(1)] assms(1)
  by (auto simp: linux_tap_config_line_def Let_def split: if_splits)

lemma config_lines_ok:
  "linux_tap_lines_ok config \<Longrightarrow> linux_tap_config_lines content config = (ret, config') \<Longrightarrow> 0 \<le> ret \<Longrightarrow> linux_tap_lines_ok config'"
proof (induction content config arbitrary: ret config' rule: linux_tap_config_lines.induct)
  case (1 content config)
  show ?case
  proof (cases "content = []")
    case True
    with 1(2,3) show ?thesis by (simp add: linux_tap_config_lines.simps)
  next
    case False
    obtain line rest eof where g: "c_fgets LINUX_TAP_CONFIG_LINE_MAX content = (line, rest, eof)" by (metis surj_pair)
    obtain r c where l: "linux_tap_config_line line eof config = (r, c)" by (metis surj_pair)
    from 1(3,4) False g l have r: "\<not> r < 0" "linux_tap_config_lines rest c = (ret, config')"
      by (auto simp: linux_tap_config_lines.simps [of content] split: if_splits)
    have "linux_tap_lines_ok c" by (rule config_line_ok [OF 1(2) l]) (use r(1) in simp)
    from 1(1) [OF False refl g [symmetric] refl refl l [symmetric] r(1) this r(2) 1(4)] show ?thesis .
  qed
qed

text \<open>The configuration that a run of the application starts with.\<close>

definition linux_tap_config_ok :: "linux_tap_config \<Rightarrow> bool" where
  "linux_tap_config_ok config \<longleftrightarrow>
     (case lc_mode config of
        LINUX_TAP_MODE_MKA_PSK \<Rightarrow> length (lc_cak config) = 32 \<and> length (lc_ckn config) = 32 \<and>
          (lc_cak_len config = 16 \<or> lc_cak_len config = 32) \<and> 1 \<le> lc_ckn_len config \<and> lc_ckn_len config \<le> 32
      | LINUX_TAP_MODE_STATIC_SAK \<Rightarrow> length (lc_static_sak config) = 32 \<and>
          (lc_static_sak_len config = 16 \<or> lc_static_sak_len config = 32))"

lemma configure_ok:
  assumes "linux_tap_configure path content read_error = (0, config)"
  shows "linux_tap_config_ok config"
proof (cases "take (length LINUX_TAP_STATIC_SAK_PREFIX) path = LINUX_TAP_STATIC_SAK_PREFIX")
  case True
  obtain r o' n where p: "linux_tap_parse_hex (drop (length LINUX_TAP_STATIC_SAK_PREFIX) path) (replicate 32 0) 32 0 = (r, o', n)"
    by (metis surj_pair)
  show ?thesis
    using assms True parse_hex_bounds [OF p] p
    by (auto simp: linux_tap_configure_def linux_tap_parse_static_sak_def Let_def linux_tap_config_zero_def linux_tap_config_ok_def
        split: if_splits)
next
  case False
  then obtain lines r where c: "content = Some lines" "linux_tap_config_lines lines (linux_tap_config_zero\<lparr>lc_mode := LINUX_TAP_MODE_MKA_PSK\<rparr>) = (r, config)"
      "0 \<le> r" "lc_cak_set config" "lc_ckn_set config"
    using assms by (fastforce simp: linux_tap_configure_def linux_tap_load_config_def Let_def split: option.splits prod.splits if_splits)
  have "linux_tap_lines_ok (linux_tap_config_zero\<lparr>lc_mode := LINUX_TAP_MODE_MKA_PSK\<rparr>)"
    by (simp add: linux_tap_lines_ok_def linux_tap_config_zero_def)
  from config_lines_ok [OF this c(2,3)] c(4,5) show ?thesis by (simp add: linux_tap_lines_ok_def linux_tap_config_ok_def)
qed

lemma macsec_config_from_ok:
  assumes "linux_tap_config_ok config" "length mac = 6"
  shows "macsec_config_ok (linux_tap_macsec_config mac config)"
  using assms by (auto simp: linux_tap_config_ok_def linux_tap_macsec_config_def macsec_config_ok_def macsec_config_zero_def
      arr_put_def Let_def split: linux_tap_mode.splits)

lemma mka_init_succeeds:
  assumes "macsec_config_ok cfg" "cf_mode cfg = MACSEC_MODE_MKA_PSK" "length (rnd 12) = 12"
    and "cf_cak_len cfg = 16 \<or> cf_cak_len cfg = 32" "1 \<le> cf_ckn_len cfg" "cf_ckn_len cfg \<le> 32"
  shows "\<exists>ctx. macsec_init rnd cfg = (MACSEC_ERR_OK, ctx)"
proof -
  define port where "port = cf_port_id (mx_cfg (macsec_blank cfg))"
  have mac: "length (cf_local_mac cfg) = 6" using assms(1) by (simp add: macsec_config_ok_def)
  have len: "length (macsec_bytes_at (cf_cak cfg) (cf_cak_len cfg)) = 16 \<or> length (macsec_bytes_at (cf_cak cfg) (cf_cak_len cfg)) = 32"
      "0 < length (macsec_bytes_at (cf_ckn cfg) (cf_ckn_len cfg))" "length (macsec_bytes_at (cf_ckn cfg) (cf_ckn_len cfg)) \<le> 32"
    using assms by (auto simp: macsec_bytes_at_def macsec_config_ok_def)
  have "\<exists>m. macsec_mka_init rnd (macsec_bytes_at (cf_cak cfg) (cf_cak_len cfg)) (macsec_bytes_at (cf_ckn cfg) (cf_ckn_len cfg))
      (cf_local_mac cfg) port (cf_key_server_priority cfg) (cf_mka_tx_interval_ms cfg) = (MACSEC_ERR_OK, m)"
    by (rule mka_init_spec [where rnd = rnd, OF mac assms(3) len, of port "cf_key_server_priority cfg" "cf_mka_tx_interval_ms cfg"]) blast
  then obtain m where m: "macsec_mka_init rnd (macsec_bytes_at (cf_cak cfg) (cf_cak_len cfg)) (macsec_bytes_at (cf_ckn cfg) (cf_ckn_len cfg))
      (cf_local_mac cfg) port (cf_key_server_priority cfg) (cf_mka_tx_interval_ms cfg) = (MACSEC_ERR_OK, m)" by blast
  have "macsec_init_mka rnd (macsec_blank cfg) = (MACSEC_ERR_OK, (macsec_blank cfg)\<lparr>mx_mka := m\<rparr>)"
    using m by (simp add: macsec_init_mka_def Let_def port_def) (simp add: blank_fields(4))
  then show ?thesis
    using assms(2) by (simp add: macsec_init_unfold Let_def MACSEC_MODE_DISABLED_def MACSEC_MODE_STATIC_SAK_def MACSEC_MODE_MKA_PSK_def)
qed

lemma init_macsec_ok:
  assumes ok: "linux_tap_config_ok config" and mac: "length mac = 6" and rnd: "length (rnd 12) = 12"
  shows "\<exists>ctx. linux_tap_init_macsec rnd mac config = (MACSEC_ERR_OK, ctx) \<and> macsec_reachable ctx \<and> macsec_inv ctx \<and>
    cf_mode (mx_cfg ctx) = (if lc_mode config = LINUX_TAP_MODE_STATIC_SAK then MACSEC_MODE_STATIC_SAK else MACSEC_MODE_MKA_PSK) \<and>
    (if lc_mode config = LINUX_TAP_MODE_STATIC_SAK
     then mx_state ctx = MACSEC_STATE_SECURED \<and> fc_tx_sak (mx_frame_crypto ctx) = fresh_sa
       (take (lc_static_sak_len config) (lc_static_sak config) @ replicate (32 - lc_static_sak_len config) 0) (lc_static_sak_len config) 0 1
     else hs_port ctx \<and> mc_keys (mk_crypto (mx_mka ctx)) = hs_keys (linux_tap_macsec_config mac config))"
proof -
  define cfg where "cfg = linux_tap_macsec_config mac config"
  have c: "macsec_config_ok cfg" unfolding cfg_def by (rule macsec_config_from_ok [OF ok mac])
  show ?thesis
  proof (cases "lc_mode config = LINUX_TAP_MODE_STATIC_SAK")
    case True
    have f: "cf_mode cfg = MACSEC_MODE_STATIC_SAK" "cf_static_an cfg = 0" "cf_static_sak_len cfg = lc_static_sak_len config"
        "cf_static_sak cfg = take (lc_static_sak_len config) (lc_static_sak config) @ replicate (32 - lc_static_sak_len config) 0"
      using ok True by (auto simp: cfg_def linux_tap_macsec_config_def Let_def arr_put_def macsec_config_zero_def linux_tap_config_ok_def)
    have key: "cf_static_sak_len cfg = 16 \<or> cf_static_sak_len cfg = 32" "cf_static_an cfg < 4"
      using ok True by (simp_all add: f linux_tap_config_ok_def)
    obtain ctx where i: "macsec_init rnd cfg = (MACSEC_ERR_OK, ctx)" using static_init [OF c f(1) key, of rnd] by blast
    from static_start [where rnd = rnd, OF c f(1) i rnd] True show ?thesis
      by (intro exI [of _ ctx]) (simp add: linux_tap_init_macsec_def cfg_def [symmetric] i f)
  next
    case False
    have f: "cf_mode cfg = MACSEC_MODE_MKA_PSK" "cf_cak_len cfg = lc_cak_len config" "cf_ckn_len cfg = lc_ckn_len config"
      using False by (simp_all add: cfg_def linux_tap_macsec_config_def Let_def)
    have len: "cf_cak_len cfg = 16 \<or> cf_cak_len cfg = 32" "1 \<le> cf_ckn_len cfg" "cf_ckn_len cfg \<le> 32"
      using ok False by (simp_all add: f linux_tap_config_ok_def split: linux_tap_mode.splits)
    obtain ctx where i: "macsec_init rnd cfg = (MACSEC_ERR_OK, ctx)" using mka_init_succeeds [where rnd = rnd, OF c f(1) rnd len] by blast
    have start: "macsec_start ctx" unfolding macsec_start_def by (rule exI [of _ rnd]) (use c i rnd in blast)
    from mka_start(1,7) [where rnd = rnd, OF c f(1) i rnd] False reach_start [of macsec_start, OF start] show ?thesis
      by (intro exI [of _ ctx]) (simp add: linux_tap_init_macsec_def cfg_def [symmetric] i hs_port_def)
  qed
qed

text \<open>
  \<open>linux_tap_parse_priority\<close> narrows the result of \<open>strtoul\<close> to 32 bits before it checks the bound, so
  numbers above 32 bits are accepted as priorities.
\<close>

lemma priority_narrowed:
  "linux_tap_parse_priority ''4294967296'' p = (0, 0)" "linux_tap_parse_priority ''-4294967286'' p = (0, 10)"
  "linux_tap_parse_priority ''256'' p = (-1, p)"
  by (simp_all add: linux_tap_parse_priority_def c_strtoul_def decimal_value_def c_isspace_def c_isdigit_def Let_def)

end
