(* ===== verification/MacsecKept.thy ===== *)
theory MacsecKept
  imports MacsecMachine
begin

text \<open>
  What no operation of the top level changes: in MKA mode the identity of the participant, its keys included,
  and in the other modes the keys of the frame layer with their association numbers. So every context of a
  run is keyed as the one it started from.
\<close>

text \<open>The part of an SA that packets do not change.\<close>

definition sa_key :: "macsec_frame_sak \<Rightarrow> bool \<times> bytes \<times> u8 \<times> u8" where
  "sa_key sak = (fs_valid sak, fs_key sak, fs_key_len sak, fs_an sak)"

definition frame_keys :: "macsec_frame_crypto_ctx \<Rightarrow> (bool \<times> bytes \<times> u8 \<times> u8) \<times> (bool \<times> bytes \<times> u8 \<times> u8) list" where
  "frame_keys fc = (sa_key (fc_tx_sak fc), map sa_key (fc_rx_sak fc))"

definition macsec_keys_kept :: "macsec_ctx \<Rightarrow> macsec_ctx \<Rightarrow> bool" where
  "macsec_keys_kept ctx ctx' \<longleftrightarrow> mx_cfg ctx' = mx_cfg ctx \<and> fc_local_sci (mx_frame_crypto ctx') = fc_local_sci (mx_frame_crypto ctx) \<and>
     (if cf_mode (mx_cfg ctx) = MACSEC_MODE_MKA_PSK then mka_identity (mx_mka ctx') = mka_identity (mx_mka ctx)
      else frame_keys (mx_frame_crypto ctx') = frame_keys (mx_frame_crypto ctx))"

lemma keys_kept_refl [simp]: "macsec_keys_kept ctx ctx"
  by (simp add: macsec_keys_kept_def)

lemma keys_kept_trans [trans]: "macsec_keys_kept a b \<Longrightarrow> macsec_keys_kept b c \<Longrightarrow> macsec_keys_kept a c"
  by (auto simp: macsec_keys_kept_def split: if_splits)

lemma keys_kept_cong:
  "mx_cfg c' = mx_cfg c \<Longrightarrow> mx_frame_crypto c' = mx_frame_crypto c \<Longrightarrow> mx_mka c' = mx_mka c \<Longrightarrow> macsec_keys_kept c c'"
  by (simp add: macsec_keys_kept_def)

lemma keys_kept_mka:
  "mka_identity mka = mka_identity (mx_mka ctx) \<or> cf_mode (mx_cfg ctx) \<noteq> MACSEC_MODE_MKA_PSK \<Longrightarrow>
     mx_cfg c = mx_cfg ctx \<Longrightarrow> mx_frame_crypto c = mx_frame_crypto ctx \<Longrightarrow> mx_mka c = mka \<Longrightarrow> macsec_keys_kept ctx c"
  by (auto simp: macsec_keys_kept_def)

lemma commit_key: "frame_commit ctx sak pn = Some sak' \<Longrightarrow> sa_key sak' = sa_key sak"
  by (auto simp: frame_commit_def macsec_frame_replay_commit_def sa_key_def Let_def split: if_splits bind_splits option.splits)

lemma encrypt_keys:
  assumes wf: "frame_wf fc" and room: "max_len \<le> length out"
    and run: "macsec_frame_encrypt fc plain out max_len = Some (ret, fc', out', n)"
  shows "frame_keys fc' = frame_keys fc \<and> fc_local_sci fc' = fc_local_sci fc"
  by (cases rule: frame_encrypt_outcome [OF wf room, of plain, case_names early sent])
     (use run in \<open>auto simp: frame_keys_def frame_same_def sa_key_def\<close>)

lemma decrypt_keys:
  assumes wf: "frame_wf fc" and room: "max_len \<le> length plain"
    and run: "macsec_frame_decrypt fc frame plain max_len = Some (ret, fc', plain', n)"
  shows "frame_keys fc' = frame_keys fc \<and> fc_local_sci fc' = fc_local_sci fc"
proof (cases rule: frame_decrypt_outcome [OF wf room, where f = frame, case_names early forged accepted])
  case (accepted g p sak)
  have "(map sa_key (fc_rx_sak fc))[frame_an frame := sa_key sak] = map sa_key (fc_rx_sak fc)"
    using commit_key [OF accepted(3)] frame_an_less [of frame] wf by (simp add: frame_wf_def list_update_same_conv)
  with accepted run show ?thesis by (auto simp: frame_keys_def frame_same_def map_update)
qed (use run in \<open>auto simp: frame_keys_def frame_same_def\<close>)

lemma service_keys:
  assumes inv: "macsec_inv ctx" and run: "macsec_service_mka ctx = (ret, c)"
  shows "macsec_keys_kept ctx c"
proof (cases "cf_mode (mx_cfg ctx) = MACSEC_MODE_MKA_PSK")
  case True
  show ?thesis
    by (rule service_spec [OF inv True])
       (use run True in \<open>auto simp: macsec_keys_kept_def macsec_rest_def fc_settings_def\<close>)
next
  case False
  show ?thesis
    by (rule idle_service [OF inv False])
       (use run False in \<open>auto simp: macsec_keys_kept_def macsec_rest_def\<close>)
qed

lemma input_mka_keys:
  assumes inv: "macsec_inv ctx" and rnd: "length (rnd 16) = 16" and run: "macsec_input_mka rnd ctx frame = Some (ret, c)"
  shows "macsec_keys_kept ctx c"
proof -
  obtain r mka where m: "macsec_mka_input rnd (mx_mka ctx) frame (mx_last_tick_ms ctx) = Some (r, mka)"
    using run by (auto simp: macsec_input_mka_def split: bind_splits)
  define d where "d = ctx\<lparr>mx_mka := mka\<rparr>"
  have "mka_identity mka = mka_identity (mx_mka ctx) \<or> cf_mode (mx_cfg ctx) \<noteq> MACSEC_MODE_MKA_PSK"
    using kept_input [where rnd = rnd, OF _ rnd m] inv by (auto simp: macsec_inv_def mka_kept_def)
  then have d: "macsec_keys_kept ctx d" by (rule keys_kept_mka) (simp_all add: d_def)
  have "macsec_inv d"
  proof (cases "cf_mode (mx_cfg ctx) = MACSEC_MODE_MKA_PSK")
    case True
    then have i: "mka_inv (mx_mka ctx)" using inv by (simp add: macsec_inv_def)
    show ?thesis unfolding d_def
      by (rule input_total [where rnd = rnd and frame = frame and now = "mx_last_tick_ms ctx", OF i rnd])
         (use m kept_input [where rnd = rnd, OF i rnd m] in \<open>auto intro!: macsec_inv_mka [OF inv True]\<close>)
  next
    case False
    then have i: "mka_idle (mx_mka ctx)" using inv by (simp add: macsec_inv_def)
    show ?thesis
      by (rule idle_input [where rnd = rnd and frame = frame and now = "mx_last_tick_ms ctx", OF i])
         (use m inv False in \<open>auto simp: macsec_inv_def d_def\<close>)
  qed
  note inv_d = this
  obtain r2 c2 where v: "macsec_service_mka d = (r2, c2)" by (metis surj_pair)
  have kept: "macsec_keys_kept ctx c2" by (rule keys_kept_trans [OF d service_keys [OF inv_d v]])
  have "c \<in> {d\<lparr>mx_state := MACSEC_STATE_ERROR\<rparr>, c2\<lparr>mx_state := MACSEC_STATE_ERROR\<rparr>, c2}"
    using run m v by (auto simp: macsec_input_mka_def Let_def d_def [symmetric] split: if_splits)
  then consider "c = d\<lparr>mx_state := MACSEC_STATE_ERROR\<rparr>" | "c = c2\<lparr>mx_state := MACSEC_STATE_ERROR\<rparr>" | "c = c2" by blast
  then show ?thesis
    by cases (rule keys_kept_trans [OF d] keys_kept_trans [OF kept], rule keys_kept_cong; simp)+
qed

lemma input_keys:
  assumes inv: "macsec_inv ctx" and rnd: "length (rnd 16) = 16" and room: "max_len \<le> length plain"
    and run: "macsec_input rnd ctx frame plain max_len = Some (ret, c, out)"
  shows "macsec_keys_kept ctx c"
proof -
  have wf: "frame_wf (mx_frame_crypto ctx)" using inv by (simp add: macsec_inv_def)
  have cases: "c = ctx \<or> (\<exists>r. macsec_input_mka rnd ctx frame = Some (r, c)) \<or>
      (\<exists>r fc plain' n. macsec_frame_decrypt (mx_frame_crypto ctx) frame plain max_len = Some (r, fc, plain', n) \<and> c = ctx\<lparr>mx_frame_crypto := fc\<rparr>)"
    using run by (auto simp: macsec_input_def Let_def split: if_splits bind_splits)
  moreover have "mka_identity (mx_mka (ctx\<lparr>mx_frame_crypto := fc\<rparr>)) = mka_identity (mx_mka ctx)" for fc by simp
  ultimately show ?thesis
    using input_mka_keys [where rnd = rnd, OF inv rnd] decrypt_keys [OF wf room]
    by (elim disjE exE conjE) (auto simp: macsec_keys_kept_def)
qed

lemma output_keys:
  assumes inv: "macsec_inv ctx" and room: "max_len \<le> length out"
    and run: "macsec_output ctx plain out max_len = Some (ret, c, out')"
  shows "macsec_keys_kept ctx c"
proof -
  have wf: "frame_wf (mx_frame_crypto ctx)" using inv by (simp add: macsec_inv_def)
  have "c = ctx \<or> (\<exists>r fc out' n. macsec_frame_encrypt (mx_frame_crypto ctx) plain out max_len = Some (r, fc, out', n) \<and> c = ctx\<lparr>mx_frame_crypto := fc\<rparr>)"
    using run by (auto simp: macsec_output_def Let_def split: if_splits bind_splits)
  with encrypt_keys [OF wf room] show ?thesis by (elim disjE exE conjE) (auto simp: macsec_keys_kept_def)
qed

lemma tick_keys:
  assumes inv: "macsec_inv ctx" and run: "macsec_tick ctx now = (ret, c)"
  shows "macsec_keys_kept ctx c"
proof (cases "cf_mode (mx_cfg ctx) = MACSEC_MODE_MKA_PSK")
  case False
  with run show ?thesis by (intro keys_kept_cong) (auto simp: macsec_tick_def)
next
  case True
  then have m: "mka_inv (mx_mka ctx)" using inv by (simp add: macsec_inv_def)
  define mka where "mka = snd (macsec_mka_tick (mx_mka ctx) now)"
  have t: "macsec_mka_tick (mx_mka ctx) now = (MACSEC_ERR_OK, mka)" using tick_spec(1) [OF m, of now] by (simp add: mka_def prod_eq_iff)
  define d where "d = ctx\<lparr>mx_last_tick_ms := now, mx_mka := mka\<rparr>"
  have d: "macsec_keys_kept ctx d"
    by (rule keys_kept_mka [of mka]) (use kept_tick [OF m, of now] in \<open>simp_all add: d_def mka_def mka_kept_def\<close>)
  have "macsec_inv d" unfolding d_def mka_def
    using tick_inv [OF m, of now] kept_tick [OF m, of now] inv True by (intro macsec_inv_mka) simp_all
  moreover obtain r2 c2 where v: "macsec_service_mka d = (r2, c2)" by (metis surj_pair)
  ultimately have kept: "macsec_keys_kept ctx c2" using keys_kept_trans [OF d service_keys] by blast
  have "c = c2\<lparr>mx_state := MACSEC_STATE_ERROR\<rparr> \<or> c = c2"
    using run t v True by (auto simp: macsec_tick_def Let_def d_def [symmetric] split: if_splits)
  then show ?thesis
  proof
    assume "c = c2\<lparr>mx_state := MACSEC_STATE_ERROR\<rparr>"
    then show ?thesis by (intro keys_kept_trans [OF kept] keys_kept_cong) simp_all
  qed (use kept in simp)
qed

lemma build_keys:
  assumes inv: "macsec_inv ctx" and rnd: "length (rnd 16) = 16" and room: "max_len \<le> length frame"
    and run: "macsec_build_control_frame rnd ctx frame max_len = Some (ret, c, out)"
  shows "macsec_keys_kept ctx c"
proof -
  have "c = ctx \<or> cf_mode (mx_cfg ctx) = MACSEC_MODE_MKA_PSK \<and> (\<exists>r mka out meta. macsec_mka_build_tx_frame rnd (mx_mka ctx) frame 0 max_len mka_meta_zero = Some (r, mka, out, meta) \<and>
      mx_mka c = mka \<and> mx_cfg c = mx_cfg ctx \<and> mx_frame_crypto c = mx_frame_crypto ctx)"
    using run by (auto simp: macsec_build_control_frame_def Let_def split: if_splits bind_splits)
  then show ?thesis
  proof (elim disjE conjE exE)
    fix r mka out meta
    assume mode: "cf_mode (mx_cfg ctx) = MACSEC_MODE_MKA_PSK"
      and b: "macsec_mka_build_tx_frame rnd (mx_mka ctx) frame 0 max_len mka_meta_zero = Some (r, mka, out, meta)"
      and c: "mx_mka c = mka" "mx_cfg c = mx_cfg ctx" "mx_frame_crypto c = mx_frame_crypto ctx"
    have m: "mka_inv (mx_mka ctx)" using inv mode by (simp add: macsec_inv_def)
    from kept_build [where rnd = rnd, OF m rnd room b] c show ?thesis
      by (intro keys_kept_mka [of mka]) (simp_all add: mka_kept_def)
  qed simp
qed

lemma sent_keys:
  assumes inv: "macsec_inv ctx" and run: "macsec_notify_control_tx_success ctx now = (ret, c)"
  shows "macsec_keys_kept ctx c"
proof (cases "cf_mode (mx_cfg ctx) = MACSEC_MODE_MKA_PSK \<and> mx_pending_mka_tx_valid ctx")
  case False
  with run show ?thesis by (auto simp: macsec_notify_control_tx_success_def split: if_splits)
next
  case True
  then have m: "mka_inv (mx_mka ctx)" using inv by (simp add: macsec_inv_def)
  obtain r mka where n: "macsec_mka_notify_tx_success (mx_mka ctx) (mx_pending_mka_tx_meta ctx) now = (r, mka)" by (metis surj_pair)
  then have k: "mka_inv mka" "mka_kept (mx_mka ctx) mka"
    using notify_tx_success_inv [OF m, of "mx_pending_mka_tx_meta ctx" now] kept_tx_success [of "mx_mka ctx" "mx_pending_mka_tx_meta ctx" now]
    by simp_all
  define d where "d = ctx\<lparr>mx_mka := mka, mx_pending_mka_tx_meta := mka_meta_zero, mx_pending_mka_tx_valid := False\<rparr>"
  have d: "macsec_keys_kept ctx d" "macsec_keys_kept ctx (ctx\<lparr>mx_mka := mka, mx_state := MACSEC_STATE_ERROR\<rparr>)"
    by (rule keys_kept_mka [of mka]; use k(2) in \<open>simp add: d_def mka_kept_def\<close>)+
  have "macsec_inv (ctx\<lparr>mx_mka := mka\<rparr>)" using True by (intro macsec_inv_mka [OF inv _ k]) simp
  then have "macsec_inv d" by (simp add: d_def)
  moreover obtain r2 c2 where v: "macsec_service_mka d = (r2, c2)" by (metis surj_pair)
  ultimately have kept: "macsec_keys_kept ctx c2" using keys_kept_trans [OF d(1) service_keys] by blast
  then have err: "macsec_keys_kept ctx (c2\<lparr>mx_state := MACSEC_STATE_ERROR\<rparr>)"
    by (rule keys_kept_trans) (rule keys_kept_cong; simp)
  have "c = ctx\<lparr>mx_mka := mka, mx_state := MACSEC_STATE_ERROR\<rparr> \<or> c = c2\<lparr>mx_state := MACSEC_STATE_ERROR\<rparr> \<or> c = c2"
    using run n v True by (auto simp: macsec_notify_control_tx_success_def Let_def d_def [symmetric] split: if_splits)
  with d(2) kept err show ?thesis by blast
qed

lemma not_sent_keys:
  assumes inv: "macsec_inv ctx" and run: "macsec_notify_control_tx_failure ctx = (ret, c)"
  shows "macsec_keys_kept ctx c"
  using run kept_others(1) [of "mx_mka ctx" "mx_pending_mka_tx_meta ctx"]
  by (auto simp: macsec_notify_control_tx_failure_def Let_def macsec_keys_kept_def mka_kept_def split: if_splits)

lemma step_keys:
  assumes inv: "macsec_inv ctx" and step: "macsec_step ctx ctx'"
  shows "macsec_keys_kept ctx ctx'"
  using step
proof cases
  case (macsec_step_input rnd max_len plain frame ret out)
  then show ?thesis by (intro input_keys [where rnd = rnd, OF inv])
next
  case (macsec_step_output max_len out plain ret out')
  then show ?thesis by (intro output_keys [OF inv])
next
  case (macsec_step_tick now ret)
  then show ?thesis by (rule tick_keys [OF inv])
next
  case (macsec_step_build rnd max_len frame ret out)
  then show ?thesis by (intro build_keys [where rnd = rnd, OF inv])
next
  case (macsec_step_sent now ret)
  then show ?thesis by (rule sent_keys [OF inv])
next
  case (macsec_step_not_sent ret)
  then show ?thesis by (rule not_sent_keys [OF inv])
qed

text \<open>Any sequence of calls keeps the keys and the invariant.\<close>

lemma path_keys:
  assumes "macsec_step\<^sup>*\<^sup>* ctx ctx'" "macsec_inv ctx"
  shows "macsec_keys_kept ctx ctx' \<and> macsec_inv ctx'"
  using assms
proof (induction rule: rtranclp_induct)
  case base
  then show ?case by simp
next
  case (step c c')
  then have i: "macsec_inv c" and k: "macsec_keys_kept ctx c" by simp_all
  from keys_kept_trans [OF k step_keys [OF i step(2)]] macsec_step_inv [OF i step(2)] show ?case by simp
qed

end
