(* ===== verification/LinuxTapKeys.thy ===== *)
theory LinuxTapKeys
  imports LinuxTapConfig MacsecKept
begin

text \<open>
  The keys that a run of the Linux TAP application uses, stated from the text of its argument and of its
  file: which lines of a file set an option, what bytes a hexadecimal text stands for, and which ICK, KEK
  and SAK follow. None of the parsers of \<open>LinuxTapConfig\<close> and no conversion between configurations is used in
  these definitions (white space apart); the theorem at the end shows that the code agrees with them.
\<close>

subsection \<open>Hexadecimal text\<close>

definition hex_digit :: "char \<Rightarrow> u8 option" where
  "hex_digit c = map_of (zip ''0123456789abcdefABCDEF'' [0, 1, 2, 3, 4, 5, 6, 7, 8, 9, 10, 11, 12, 13, 14, 15, 10, 11, 12, 13, 14, 15]) c"

fun hex_bytes :: "string \<Rightarrow> bytes option" where
  "hex_bytes [] = Some []"
| "hex_bytes [c] = None"
| "hex_bytes (c # d # cs) = do {
     high \<leftarrow> hex_digit c;
     low \<leftarrow> hex_digit d;
     bs \<leftarrow> hex_bytes cs;
     Some ((16 * high + low) # bs)
   }"

lemma hex_digit_codes: "map char_of ([48..<58] @ [97..<103] @ [65..<71] :: nat list) = ''0123456789abcdefABCDEF''"
  by code_simp

lemma hex_value_digit:
  assumes "\<not> linux_tap_hex_value c < 0"
  shows "linux_tap_hex_value c < 16 \<and> hex_digit c = Some (word_of_int (linux_tap_hex_value c))"
proof -
  define n where "n = (of_char c :: nat)"
  have c: "c = char_of n" "(of_char c :: int) = int n" by (simp add: n_def) (simp add: n_def of_char_def del: char_of_eq_iff)
  have "48 \<le> n \<and> n \<le> 57 \<or> 97 \<le> n \<and> n \<le> 102 \<or> 65 \<le> n \<and> n \<le> 70"
    using assms by (auto simp: linux_tap_hex_value_def Let_def c(2) split: if_splits)
  then have "n \<in> set ([48..<58] @ [97..<103] @ [65..<71])" by (auto simp del: upt_rec_numeral)
  then have "c \<in> set (map char_of ([48..<58] @ [97..<103] @ [65..<71] :: nat list))" unfolding c(1) set_map by (rule imageI)
  then have "c \<in> set ''0123456789abcdefABCDEF''" unfolding hex_digit_codes .
  then show ?thesis by (auto simp: linux_tap_hex_value_def hex_digit_def)
qed

lemma hex_byte:
  assumes "\<not> linux_tap_hex_value c < 0" "\<not> linux_tap_hex_value d < 0"
  shows "\<exists>h l. hex_digit c = Some h \<and> hex_digit d = Some l \<and>
    (word_of_int (push_bit 4 (linux_tap_hex_value c) OR linux_tap_hex_value d) :: u8) = 16 * h + l"
proof -
  define h l where "h = linux_tap_hex_value c" and "l = linux_tap_hex_value d"
  have b: "0 \<le> h" "h < 16" "0 \<le> l" "l < 16" "hex_digit c = Some (word_of_int h)" "hex_digit d = Some (word_of_int l)"
    using hex_value_digit [OF assms(1)] hex_value_digit [OF assms(2)] assms by (simp_all add: h_def l_def)
  have "take_bit 4 l = l" using b by (simp add: take_bit_int_eq_self)
  then have "push_bit 4 h OR l = push_bit 4 h + l"
    by (intro disjunctive_add [symmetric]) (metis bit_push_bit_iff_int bit_take_bit_iff not_less)
  then have "(word_of_int (push_bit 4 h OR l) :: u8) = 16 * word_of_int h + word_of_int l"
    by (simp add: push_bit_eq_mult)
  with b show ?thesis by (simp add: h_def l_def)
qed

lemma hex_loop_bytes:
  "linux_tap_hex_loop n text i out = (0, out') \<Longrightarrow> length text = 2 * (i + n) \<Longrightarrow> i + n \<le> length out \<Longrightarrow>
     \<exists>bs. hex_bytes (drop (2 * i) text) = Some bs \<and> length bs = n \<and> take (i + n) out' = take i out @ bs"
proof (induction n arbitrary: i out)
  case 0
  then show ?case by simp
next
  case (Suc n)
  let ?c = "text ! (2 * i)" and ?d = "text ! (2 * i + 1)"
  let ?b = "word_of_int (push_bit 4 (linux_tap_hex_value ?c) OR linux_tap_hex_value ?d) :: u8"
  have v: "\<not> linux_tap_hex_value ?c < 0" "\<not> linux_tap_hex_value ?d < 0"
      "linux_tap_hex_loop n text (i + 1) (out[i := ?b]) = (0, out')"
    using Suc.prems(1) by (auto simp: Let_def mult.commute split: if_splits)
  have cut: "drop (2 * i) text = ?c # ?d # drop (2 * (i + 1)) text"
    using Suc.prems(2) by (simp add: Cons_nth_drop_Suc)
  obtain bs where bs: "hex_bytes (drop (2 * (i + 1)) text) = Some bs" "length bs = n" "take (i + 1 + n) out' = take (i + 1) (out[i := ?b]) @ bs"
    using Suc.IH [OF v(3)] Suc.prems(2,3) by auto
  have "take (i + 1) (out[i := ?b]) = take i out @ [?b]" using Suc.prems(3) by (simp add: take_Suc_conv_app_nth)
  with hex_byte [OF v(1,2)] bs cut show ?case by auto
qed

lemma parse_hex_bytes:
  assumes "linux_tap_parse_hex text out capacity n = (ret, out', n')" "\<not> ret < 0" "capacity \<le> length out"
  shows "hex_bytes text = Some (take n' out') \<and> 0 < n' \<and> n' \<le> length out' \<and> length out' = length out"
proof -
  obtain r o2 where l: "linux_tap_hex_loop (length text div 2) text 0 out = (r, o2)" by (metis surj_pair)
  have c: "r = 0" "out' = o2" "n' = length text div 2" "n' \<le> capacity" "text \<noteq> []" "length text mod 2 = 0"
    using assms(1,2) l by (auto simp: linux_tap_parse_hex_def Let_def split: if_splits)
  then have len: "length text = 2 * (0 + length text div 2)" "0 + length text div 2 \<le> length out" using assms(3) by auto
  have "length o2 = length out" using hex_loop_length [of "length text div 2" "text" 0 out] l by simp
  moreover have "0 < n'" using c(3,5) len(1) by (cases "length text div 2") auto
  moreover have "hex_bytes text = Some (take n' o2)" using hex_loop_bytes [OF l [unfolded c(1)] len] c(3) by auto
  ultimately show ?thesis using c len(2) by simp
qed
subsection \<open>Lines and options\<close>

text \<open>The lines of a text, without their ends.\<close>

function text_lines :: "string \<Rightarrow> string list" where
  "text_lines s = (if s = [] then []
     else takeWhile (\<lambda>c. c \<noteq> CHR 0x0A) s # text_lines (drop 1 (dropWhile (\<lambda>c. c \<noteq> CHR 0x0A) s)))"
  by auto
termination
proof (relation "measure length", goal_cases)
  case (2 s)
  then have "0 < length s" by simp
  with length_dropWhile_le [of "\<lambda>c. c \<noteq> CHR 0x0A" s] show ?case unfolding in_measure length_drop by linarith
qed simp

declare text_lines.simps [simp del]

definition stripped :: "string \<Rightarrow> string" where
  "stripped s = rev (dropWhile c_isspace (rev (dropWhile c_isspace s)))"

text \<open>The value that a line gives to a key: what follows it up to a comment, without the white space around.\<close>

definition config_value :: "string \<Rightarrow> string \<Rightarrow> string option" where
  "config_value key line =
     (let s = stripped (takeWhile (\<lambda>c. c \<noteq> CHR ''#'') (takeWhile (\<lambda>c. c \<noteq> CHR 0x00) line))
      in if take (length key) s = key then Some (stripped (drop (length key) s)) else None)"

definition config_values :: "string \<Rightarrow> string \<Rightarrow> string list" where
  "config_values key content = List.map_filter (config_value key) (text_lines content)"

lemma trim_stripped: "linux_tap_trim = stripped"
  by (rule ext) (simp add: linux_tap_trim_def stripped_def Let_def)

lemma stripped_newline: "stripped (l @ [CHR 0x0A]) = stripped l"
proof -
  have n: "c_isspace (CHR 0x0A)" by (simp add: c_isspace_def)
  show ?thesis
  proof (cases "\<forall>c \<in> set l. c_isspace c")
    case True
    then have "dropWhile c_isspace l = []" "dropWhile c_isspace (l @ [CHR 0x0A]) = []" using n by (simp_all add: dropWhile_eq_Nil_conv)
    then show ?thesis unfolding stripped_def by (simp only: rev.simps dropWhile.simps)
  next
    case False
    then have "dropWhile c_isspace (l @ [CHR 0x0A]) = dropWhile c_isspace l @ [CHR 0x0A]" by (simp add: dropWhile_append)
    then show ?thesis by (simp add: stripped_def n)
  qed
qed

lemma text_lines_newline: "CHR 0x0A \<notin> set l \<Longrightarrow> text_lines (l @ CHR 0x0A # rest) = l # text_lines rest"
  by (subst text_lines.simps) (auto simp: takeWhile_append dropWhile_append)

lemma text_lines_last: "CHR 0x0A \<notin> set l \<Longrightarrow> l \<noteq> [] \<Longrightarrow> text_lines l = [l]"
proof -
  assume l: "CHR 0x0A \<notin> set l" "l \<noteq> []"
  then have "takeWhile (\<lambda>c. c \<noteq> CHR 0x0A) l = l" "dropWhile (\<lambda>c. c \<noteq> CHR 0x0A) l = []" by (auto simp: takeWhile_eq_all_conv)
  with l(2) show ?thesis unfolding text_lines.simps [of l] by (simp only: drop_Nil text_lines.simps [of "[]"]) simp
qed

text \<open>
  What \<open>fgets\<close> delivers and \<open>linux_tap_config_line\<close> accepts is one of these lines: a line that is too long
  is rejected, and so is one whose end is behind a NUL.
\<close>

lemma fgets_line:
  assumes g: "c_fgets n content = (line, rest, eof)" and c: "content \<noteq> []"
    and a: "CHR 0x0A \<in> set (takeWhile (\<lambda>c. c \<noteq> CHR 0x00) line) \<or> eof"
  obtains l where "text_lines content = l # text_lines rest" "line = l @ [CHR 0x0A] \<or> line = l"
proof -
  define chunk where "chunk = take (n - 1) content"
  have r: "rest = drop (length line) content" using g by (auto simp: c_fgets_def Let_def)
  show thesis
  proof (cases "CHR 0x0A \<in> set chunk")
    case True
    define l where "l = takeWhile (\<lambda>c. c \<noteq> CHR 0x0A) chunk"
    have line: "line = l @ [CHR 0x0A]" using g True unfolding c_fgets_def Let_def chunk_def [symmetric] l_def by simp
    obtain tail where t: "chunk = l @ CHR 0x0A # tail"
      using split_list_first [OF True] by (auto simp: l_def takeWhile_append)
    have "content = chunk @ drop (n - 1) content" by (simp add: chunk_def)
    then have "content = l @ CHR 0x0A # (tail @ drop (n - 1) content)" by (simp add: t)
    then have s: "content = l @ CHR 0x0A # rest" using r line by (metis append.assoc append_Cons append_Nil append_eq_conv_conj)
    have "CHR 0x0A \<notin> set l" using set_takeWhileD by (fastforce simp: l_def)
    then have "text_lines content = l # text_lines rest" unfolding s by (rule text_lines_newline)
    with line show thesis using that by blast
  next
    case False
    have line: "line = chunk" "eof = (length chunk < n - 1)" using g False unfolding c_fgets_def Let_def chunk_def [symmetric] by auto
    have "CHR 0x0A \<notin> set (takeWhile (\<lambda>c. c \<noteq> CHR 0x00) line)" using False line(1) by (auto dest: set_takeWhileD)
    then have "length chunk < n - 1" using a line(2) by simp
    then have "chunk = content" by (simp add: chunk_def)
    then have "text_lines content = [line]" "rest = []" using text_lines_last [of content] False c line(1) r by auto
    then show thesis by (intro that [of line]) (simp_all add: text_lines.simps [of "[]"])
  qed
qed

text \<open>
  How a sequence of values is read into an option that may be set once: \<open>ok\<close> relates the text to what is stored.
\<close>

definition option_read :: "(string \<Rightarrow> 'a \<Rightarrow> bool) \<Rightarrow> string list \<Rightarrow> bool \<times> 'a \<Rightarrow> bool \<times> 'a \<Rightarrow> bool" where
  "option_read ok vs before after \<longleftrightarrow>
     (if vs = [] then after = before else \<not> fst before \<and> fst after \<and> (\<exists>v. vs = [v] \<and> ok v (snd after)))"

lemma option_read_none [simp]: "option_read ok [] s s' \<longleftrightarrow> s' = s"
  by (simp add: option_read_def)

lemma option_read_append: "option_read ok vs a b \<Longrightarrow> option_read ok ws b c \<Longrightarrow> option_read ok (vs @ ws) a c"
  by (auto simp: option_read_def split: if_splits)

lemma option_read_once: "option_read ok vs (False, x) (True, y) \<Longrightarrow> \<exists>v. vs = [v] \<and> ok v y"
  by (auto simp: option_read_def split: if_splits)

text \<open>A key is stored as the bytes of its hexadecimal text.\<close>

definition key_read :: "string \<Rightarrow> bytes \<times> nat \<Rightarrow> bool" where
  "key_read v = (\<lambda>(b, n). hex_bytes v = Some (take n b) \<and> n \<le> length b)"

text \<open>The number that a text of decimal digits stands for.\<close>

fun digits_number :: "nat \<Rightarrow> string \<Rightarrow> nat option" where
  "digits_number n [] = Some n"
| "digits_number n (c # cs) = do {
     d \<leftarrow> map_of (zip ''0123456789'' [0, 1, 2, 3, 4, 5, 6, 7, 8, 9]) c;
     digits_number (10 * n + d) cs
   }"

text \<open>
  A priority that is written in digits is stored as it is, unless it needs more than 32 bits: then
  \<open>linux_tap_parse_priority\<close> may accept a part of it (\<open>priority_narrowed\<close>).
\<close>

definition priority_read :: "string \<Rightarrow> u8 \<Rightarrow> bool" where
  "priority_read v p \<longleftrightarrow> (\<forall>n < 2 ^ 32. v \<noteq> [] \<and> digits_number 0 v = Some n \<longrightarrow> n < 256 \<and> p = of_nat n)"

lemma digit_code:
  assumes "map_of (zip ''0123456789'' [0, 1, 2, 3, 4, 5, 6, 7, 8, 9]) c = Some (d::nat)"
  shows "c_isdigit c \<and> of_char c - of_char (CHR ''0'') = d \<and> \<not> c_isspace c \<and> c \<noteq> CHR ''-'' \<and> c \<noteq> CHR ''+''"
  using map_of_SomeD [OF assms] by (auto simp: c_isdigit_def c_isspace_def)

lemma digits_value:
  "digits_number n v = Some m \<Longrightarrow>
     (\<forall>c \<in> set v. c_isdigit c) \<and> foldl (\<lambda>v c. v * 10 + (of_char c - of_char (CHR ''0''))) n v = m"
proof (induction v arbitrary: n)
  case Nil
  then show ?case by simp
next
  case (Cons c cs)
  then obtain d where d: "map_of (zip ''0123456789'' [0, 1, 2, 3, 4, 5, 6, 7, 8, 9]) c = Some d" "digits_number (10 * n + d) cs = Some m"
    by (auto split: bind_splits)
  from digit_code [OF d(1)] Cons.IH [OF d(2)] show ?case by (auto simp: mult.commute)
qed

lemma parse_priority_digits:
  assumes run: "linux_tap_parse_priority v q = (0, p)" and v: "v \<noteq> []" "digits_number 0 v = Some n" and n: "n < 2 ^ 32"
  shows "n < 256 \<and> p = of_nat n"
proof -
  have all: "\<forall>c \<in> set v. c_isdigit c" "decimal_value v = n"
    using digits_value [OF v(2)] by (simp_all add: decimal_value_def)
  obtain c cs where c: "v = c # cs" using v(1) by (cases v) auto
  then have "\<not> c_isspace c" "c \<noteq> CHR ''-''" "c \<noteq> CHR ''+''" using v(2) digit_code by (auto split: bind_splits)
  then have body: "dropWhile c_isspace v = v" "hd v \<noteq> CHR ''-''" "hd v \<noteq> CHR ''+''" using c by simp_all
  have "takeWhile c_isdigit v = v" using all(1) by (simp add: takeWhile_eq_all_conv)
  then have s: "c_strtoul v = (of_nat n, False, [])"
    using n c body all(2) by (simp add: c_strtoul_def Let_def)
  have bits: "take_bit 64 n = n" "take_bit 32 n = n" using n by (simp_all add: take_bit_nat_eq_self)
  then have "unat (of_nat n :: u32) = n" by (simp add: unsigned_of_nat)
  then have "\<not> (255::u32) < of_nat n \<longleftrightarrow> n < 256" by (auto simp: word_less_nat_alt)
  moreover have "(ucast (of_nat n :: u64) :: u32) = of_nat n" "(ucast (of_nat n :: u32) :: u8) = of_nat n"
    using bits by (simp_all add: unsigned_of_nat)
  ultimately show ?thesis
    using run v(1) s by (auto simp: linux_tap_parse_priority_def Let_def split: if_splits)
qed

definition options_read :: "(string \<Rightarrow> string list) \<Rightarrow> linux_tap_config \<Rightarrow> linux_tap_config \<Rightarrow> bool" where
  "options_read values c c' \<longleftrightarrow>
     option_read key_read (values ''mka_cak='') (lc_cak_set c, lc_cak c, lc_cak_len c) (lc_cak_set c', lc_cak c', lc_cak_len c') \<and>
     option_read key_read (values ''mka_ckn='') (lc_ckn_set c, lc_ckn c, lc_ckn_len c) (lc_ckn_set c', lc_ckn c', lc_ckn_len c') \<and>
     option_read priority_read (values ''mka_priority='') (lc_priority_set c, lc_mka_priority c) (lc_priority_set c', lc_mka_priority c')"

lemma options_read_none: "options_read (\<lambda>_. []) c c"
  by (simp add: options_read_def)

lemma options_read_append:
  "options_read vs a b \<Longrightarrow> options_read ws b c \<Longrightarrow> options_read (\<lambda>key. vs key @ ws key) a c"
  by (auto simp: options_read_def intro: option_read_append)

lemma cak_read:
  assumes ok: "linux_tap_lines_ok c" and run: "linux_tap_config_cak v c = (ret, c')" "0 \<le> ret"
  shows "options_read (\<lambda>key. if key = ''mka_cak='' then [v] else []) c c'"
proof -
  obtain r b n where p: "linux_tap_parse_hex v (lc_cak c) 32 (lc_cak_len c) = (r, b, n)" by (metis surj_pair)
  have c: "\<not> lc_cak_set c" "\<not> r < 0" "c' = c\<lparr>lc_cak := b, lc_cak_len := n, lc_cak_set := True\<rparr>"
    using run p by (auto simp: linux_tap_config_cak_def Let_def split: if_splits)
  have "hex_bytes v = Some (take n b) \<and> n \<le> length b"
    using parse_hex_bytes [OF p c(2)] ok by (simp add: linux_tap_lines_ok_def)
  with c show ?thesis by (simp add: options_read_def option_read_def key_read_def)
qed

lemma ckn_read:
  assumes ok: "linux_tap_lines_ok c" and run: "linux_tap_config_ckn v c = (ret, c')" "0 \<le> ret"
  shows "options_read (\<lambda>key. if key = ''mka_ckn='' then [v] else []) c c'"
proof -
  obtain r b n where p: "linux_tap_parse_hex v (lc_ckn c) 32 (lc_ckn_len c) = (r, b, n)" by (metis surj_pair)
  have c: "\<not> lc_ckn_set c" "\<not> r < 0" "c' = c\<lparr>lc_ckn := b, lc_ckn_len := n, lc_ckn_set := True\<rparr>"
    using run p by (auto simp: linux_tap_config_ckn_def Let_def split: if_splits)
  have "hex_bytes v = Some (take n b) \<and> n \<le> length b"
    using parse_hex_bytes [OF p c(2)] ok by (simp add: linux_tap_lines_ok_def)
  with c show ?thesis by (simp add: options_read_def option_read_def key_read_def)
qed

lemma prio_read:
  assumes run: "linux_tap_config_priority v c = (ret, c')" "0 \<le> ret"
  shows "options_read (\<lambda>key. if key = ''mka_priority='' then [v] else []) c c'"
proof -
  obtain r p where p: "linux_tap_parse_priority v (lc_mka_priority c) = (r, p)" by (metis surj_pair)
  have c: "\<not> lc_priority_set c" "\<not> r < 0" "c' = c\<lparr>lc_mka_priority := p, lc_priority_set := True\<rparr>"
    using run p by (auto simp: linux_tap_config_priority_def Let_def split: if_splits)
  have "r = 0" using p c(2) by (auto simp: linux_tap_parse_priority_def Let_def split: if_splits prod.splits)
  then have "priority_read v p" using parse_priority_digits p by (auto simp: priority_read_def)
  with c show ?thesis by (simp add: options_read_def option_read_def)
qed

subsection \<open>The whole file\<close>

lemma line_text:
  "stripped (takeWhile (\<lambda>c. c \<noteq> CHR ''#'') (takeWhile (\<lambda>c. c \<noteq> CHR 0x00) (l @ [CHR 0x0A]))) =
    stripped (takeWhile (\<lambda>c. c \<noteq> CHR ''#'') (takeWhile (\<lambda>c. c \<noteq> CHR 0x00) l))"
proof -
  show ?thesis
  proof (cases "\<forall>c \<in> set l. c \<noteq> CHR 0x00")
    case True
    then have nul: "takeWhile (\<lambda>c. c \<noteq> CHR 0x00) (l @ [CHR 0x0A]) = l @ [CHR 0x0A]" "takeWhile (\<lambda>c. c \<noteq> CHR 0x00) l = l"
      by (simp_all add: takeWhile_append takeWhile_eq_all_conv)
    show ?thesis
    proof (cases "\<forall>c \<in> set l. c \<noteq> CHR ''#''")
      case True
      then have "takeWhile (\<lambda>c. c \<noteq> CHR ''#'') (l @ [CHR 0x0A]) = l @ [CHR 0x0A]" "takeWhile (\<lambda>c. c \<noteq> CHR ''#'') l = l"
        by (simp_all add: takeWhile_append takeWhile_eq_all_conv)
      then show ?thesis by (simp only: nul stripped_newline)
    next
      case False
      then have "takeWhile (\<lambda>c. c \<noteq> CHR ''#'') (l @ [CHR 0x0A]) = takeWhile (\<lambda>c. c \<noteq> CHR ''#'') l" by (auto simp: takeWhile_append)
      then show ?thesis by (simp add: nul)
    qed
  next
    case False
    then have "takeWhile (\<lambda>c. c \<noteq> CHR 0x00) (l @ [CHR 0x0A]) = takeWhile (\<lambda>c. c \<noteq> CHR 0x00) l" by (auto simp: takeWhile_append)
    then show ?thesis by simp
  qed
qed

abbreviation line_values :: "string \<Rightarrow> string \<Rightarrow> string list" where
  "line_values line key \<equiv> (case config_value key line of None \<Rightarrow> [] | Some v \<Rightarrow> [v])"

lemma config_line_read:
  assumes ok: "linux_tap_lines_ok c" and run: "linux_tap_config_line line eof c = (ret, c')" "0 \<le> ret"
    and line: "line = l @ [CHR 0x0A] \<or> line = l"
  shows "options_read (line_values l) c c'"
proof -
  let ?s = "stripped (takeWhile (\<lambda>c. c \<noteq> CHR ''#'') (takeWhile (\<lambda>c. c \<noteq> CHR 0x00) l))"
  have t: "stripped (takeWhile (\<lambda>c. c \<noteq> CHR ''#'') (takeWhile (\<lambda>c. c \<noteq> CHR 0x00) line)) = ?s"
    using line line_text [of l] by auto
  have cv: "config_value key l = (if take (length key) ?s = key then Some (stripped (drop (length key) ?s)) else None)" for key
    by (simp add: config_value_def Let_def)
  define s where "s = ?s"
  have r: "(if s = [] then (0, c)
        else if take 8 s = ''mka_cak='' then linux_tap_config_cak (stripped (drop 8 s)) c
        else if take 8 s = ''mka_ckn='' then linux_tap_config_ckn (stripped (drop 8 s)) c
        else if take 13 s = ''mka_priority='' then linux_tap_config_priority (stripped (drop 13 s)) c
        else (0, c)) = (ret, c')"
    using run t by (auto simp: linux_tap_config_line_def Let_def trim_stripped s_def split: if_splits)
  have lens: "length ''mka_cak='' = 8" "length ''mka_ckn='' = 8" "length ''mka_priority='' = 13" by simp_all
  have v: "line_values l ''mka_cak='' = (if take 8 s = ''mka_cak='' then [stripped (drop 8 s)] else [])"
      "line_values l ''mka_ckn='' = (if take 8 s = ''mka_ckn='' then [stripped (drop 8 s)] else [])"
      "line_values l ''mka_priority='' = (if take 13 s = ''mka_priority='' then [stripped (drop 13 s)] else [])"
    unfolding cv lens s_def [symmetric] by simp_all
  have apart: "take 8 s = take 8 (take 13 s)" by simp
  consider (cak) "take 8 s = ''mka_cak=''" "take 13 s \<noteq> ''mka_priority=''"
    | (ckn) "take 8 s = ''mka_ckn=''" "take 13 s \<noteq> ''mka_priority=''"
    | (priority) "take 13 s = ''mka_priority=''" "take 8 s \<noteq> ''mka_cak=''" "take 8 s \<noteq> ''mka_ckn=''"
    | (other) "take 13 s \<noteq> ''mka_priority=''" "take 8 s \<noteq> ''mka_cak=''" "take 8 s \<noteq> ''mka_ckn=''"
    using apart by fastforce
  then show ?thesis
  proof cases
    case cak
    then have "linux_tap_config_cak (stripped (drop 8 s)) c = (ret, c')" using r by (auto split: if_splits)
    from cak_read [OF ok this run(2)] cak v show ?thesis by (simp add: options_read_def)
  next
    case ckn
    then have "linux_tap_config_ckn (stripped (drop 8 s)) c = (ret, c')" using r by (auto split: if_splits)
    from ckn_read [OF ok this run(2)] ckn v show ?thesis by (simp add: options_read_def)
  next
    case priority
    then have "linux_tap_config_priority (stripped (drop 13 s)) c = (ret, c')" using r by (auto split: if_splits)
    from prio_read [OF this run(2)] priority v show ?thesis by (simp add: options_read_def)
  next
    case other
    with r v show ?thesis by (auto simp: options_read_def split: if_splits)
  qed
qed

lemma config_lines_read:
  "linux_tap_lines_ok c \<Longrightarrow> linux_tap_config_lines content c = (ret, c') \<Longrightarrow> 0 \<le> ret \<Longrightarrow>
     options_read (\<lambda>key. config_values key content) c c'"
proof (induction content c arbitrary: ret c' rule: linux_tap_config_lines.induct)
  case (1 content c)
  show ?case
  proof (cases "content = []")
    case True
    with 1(3) show ?thesis
      by (simp add: linux_tap_config_lines.simps config_values_def text_lines.simps [of "[]"] List.map_filter_simps options_read_none)
  next
    case False
    obtain line rest eof where g: "c_fgets LINUX_TAP_CONFIG_LINE_MAX content = (line, rest, eof)" by (metis surj_pair)
    obtain r c1 where l: "linux_tap_config_line line eof c = (r, c1)" by (metis surj_pair)
    from 1(3,4) False g l have r: "\<not> r < 0" "linux_tap_config_lines rest c1 = (ret, c')"
      by (auto simp: linux_tap_config_lines.simps [of content] split: if_splits)
    have "CHR 0x0A \<in> set (takeWhile (\<lambda>c. c \<noteq> CHR 0x00) line) \<or> eof"
      using l r(1) by (auto simp: linux_tap_config_line_def Let_def split: if_splits)
    from fgets_line [OF g False this] obtain t where t: "text_lines content = t # text_lines rest" "line = t @ [CHR 0x0A] \<or> line = t" .
    have "linux_tap_lines_ok c1" by (rule config_line_ok [OF 1(2) l]) (use r(1) in simp)
    from 1(1) [OF False refl g [symmetric] refl refl l [symmetric] r(1) this r(2) 1(4)]
    have "options_read (\<lambda>key. config_values key rest) c1 c'" .
    moreover have "options_read (line_values t) c c1" by (rule config_line_read [OF 1(2) l _ t(2)]) (use r(1) in simp)
    moreover have "config_values key content = line_values t key @ config_values key rest" for key
      by (simp add: config_values_def t(1) List.map_filter_simps split: option.splits)
    ultimately show ?thesis using options_read_append by fastforce
  qed
qed

subsection \<open>The configured keys\<close>

text \<open>
  What a user configures: a pre-shared CAK with its CKN and the priority, each given exactly once in the file, or
  a static SAK as the argument.
\<close>

datatype tap_keys = Tap_psk (tap_cak: bytes) (tap_ckn: bytes) (tap_priority: string) | Tap_sak bytes

definition the_value :: "'a list \<Rightarrow> 'a option" where
  "the_value vs = (case vs of [v] \<Rightarrow> Some v | _ \<Rightarrow> None)"

definition configured_keys :: "string \<Rightarrow> string option \<Rightarrow> tap_keys option" where
  "configured_keys argument content =
     (if take 11 argument = ''STATIC_SAK='' then map_option Tap_sak (hex_bytes (drop 11 argument))
      else do {
        content \<leftarrow> content;
        cak \<leftarrow> the_value (config_values ''mka_cak='' content);
        cak \<leftarrow> hex_bytes cak;
        ckn \<leftarrow> the_value (config_values ''mka_ckn='' content);
        ckn \<leftarrow> hex_bytes ckn;
        priority \<leftarrow> the_value (config_values ''mka_priority='' content);
        Some (Tap_psk cak ckn priority)
      })"

fun tap_keys_ok :: "tap_keys \<Rightarrow> bool" where
  "tap_keys_ok (Tap_psk cak ckn priority) \<longleftrightarrow> (length cak = 16 \<or> length cak = 32) \<and> 1 \<le> length ckn \<and> length ckn \<le> 32"
| "tap_keys_ok (Tap_sak sak) \<longleftrightarrow> length sak = 16 \<or> length sak = 32"

text \<open>The configuration that \<open>main\<close> must end up with.\<close>

fun config_holds :: "tap_keys \<Rightarrow> linux_tap_config \<Rightarrow> bool" where
  "config_holds (Tap_psk cak ckn priority) config \<longleftrightarrow> lc_mode config = LINUX_TAP_MODE_MKA_PSK \<and>
     lc_cak_len config = length cak \<and> take (length cak) (lc_cak config) = cak \<and>
     lc_ckn_len config = length ckn \<and> take (length ckn) (lc_ckn config) = ckn \<and> priority_read priority (lc_mka_priority config)"
| "config_holds (Tap_sak sak) config \<longleftrightarrow> lc_mode config = LINUX_TAP_MODE_STATIC_SAK \<and>
     lc_static_sak_len config = length sak \<and> take (length sak) (lc_static_sak config) = sak"

lemma static_sak_prefix:
  "length LINUX_TAP_STATIC_SAK_PREFIX = 11" "take 11 s = LINUX_TAP_STATIC_SAK_PREFIX \<longleftrightarrow> take 11 s = ''STATIC_SAK=''"
  by (simp_all add: LINUX_TAP_STATIC_SAK_PREFIX_def)

lemma configure_holds:
  assumes run: "linux_tap_configure path content read_error = (0, config)"
  shows "\<exists>keys. configured_keys path content = Some keys \<and> tap_keys_ok keys \<and> config_holds keys config"
proof (cases "take 11 path = ''STATIC_SAK=''")
  case True
  obtain r o' n where p: "linux_tap_parse_hex (drop 11 path) (replicate 32 0) 32 0 = (r, o', n)" by (metis surj_pair)
  define z where "z = linux_tap_config_zero\<lparr>lc_mode := LINUX_TAP_MODE_STATIC_SAK\<rparr>"
  define c where "c = z\<lparr>lc_static_sak := o', lc_static_sak_len := n\<rparr>"
  have z: "lc_static_sak z = replicate 32 0" "lc_static_sak_len z = 0" "lc_mode z = LINUX_TAP_MODE_STATIC_SAK"
    by (simp_all add: z_def linux_tap_config_zero_def)
  have "take 11 path = LINUX_TAP_STATIC_SAK_PREFIX" using True static_sak_prefix(2) [of path] by blast
  then have "linux_tap_configure path content read_error =
      (if r < 0 then (-1, c) else if lc_static_sak_len c \<noteq> 16 \<and> lc_static_sak_len c \<noteq> 32 then (-1, c) else (0, c))"
    by (simp only: linux_tap_configure_def linux_tap_parse_static_sak_def static_sak_prefix(1) Let_def z_def [symmetric] z p c_def
        simp_thms if_True if_False prod.case)
  then have c: "\<not> r < 0" "n = 16 \<or> n = 32" "lc_mode config = LINUX_TAP_MODE_STATIC_SAK" "lc_static_sak config = o'" "lc_static_sak_len config = n"
    using run z(3) by (auto simp: c_def split: if_splits)
  have "hex_bytes (drop 11 path) = Some (take n o')" "n \<le> length o'" using parse_hex_bytes [OF p c(1)] by simp_all
  with True c show ?thesis by (intro exI [of _ "Tap_sak (take n o')"]) (auto simp: configured_keys_def)
next
  case False
  let ?zero = "linux_tap_config_zero\<lparr>lc_mode := LINUX_TAP_MODE_MKA_PSK\<rparr>"
  have "take (length LINUX_TAP_STATIC_SAK_PREFIX) path \<noteq> LINUX_TAP_STATIC_SAK_PREFIX"
    using False by (simp add: static_sak_prefix)
  then obtain lines r where c: "content = Some lines" "linux_tap_config_lines lines ?zero = (r, config)"
      "0 \<le> r" "lc_cak_set config" "lc_ckn_set config" "lc_priority_set config"
    using run by (fastforce simp: linux_tap_configure_def linux_tap_load_config_def Let_def split: option.splits prod.splits if_splits)
  have zero: "linux_tap_lines_ok ?zero" by (simp add: linux_tap_lines_ok_def linux_tap_config_zero_def)
  have ok: "linux_tap_lines_ok config" by (rule config_lines_ok [OF zero c(2,3)])
  have read: "options_read (\<lambda>key. config_values key lines) ?zero config" by (rule config_lines_read [OF zero c(2,3)])
  have unset: "\<not> lc_cak_set ?zero" "\<not> lc_ckn_set ?zero" "\<not> lc_priority_set ?zero" by (simp_all add: linux_tap_config_zero_def)
  obtain v where v: "config_values ''mka_cak='' lines = [v]" "key_read v (lc_cak config, lc_cak_len config)"
    using read unset(1) c(4) by (auto simp: options_read_def dest!: option_read_once)
  obtain w where w: "config_values ''mka_ckn='' lines = [w]" "key_read w (lc_ckn config, lc_ckn_len config)"
    using read unset(2) c(5) by (auto simp: options_read_def dest!: option_read_once)
  obtain q where q: "config_values ''mka_priority='' lines = [q]" "priority_read q (lc_mka_priority config)"
    using read unset(3) c(6) by (auto simp: options_read_def dest!: option_read_once)
  have "configured_keys path content = Some (Tap_psk (take (lc_cak_len config) (lc_cak config)) (take (lc_ckn_len config) (lc_ckn config)) q)"
    using False c(1) v w q(1) by (simp add: configured_keys_def the_value_def key_read_def)
  moreover have "length (take (lc_cak_len config) (lc_cak config)) = lc_cak_len config" "length (take (lc_ckn_len config) (lc_ckn config)) = lc_ckn_len config"
    using v(2) w(2) by (simp_all add: key_read_def)
  ultimately show ?thesis using ok c(4,5) q(2) by (auto simp: linux_tap_lines_ok_def)
qed

subsection \<open>The keys of the stack\<close>

text \<open>
  The ICK and the KEK of a CAK with its CKN, by the KDF of IEEE 802.1X; the key that a static SAK installs,
  for the association number 0; and what it means that a context holds the configured keys and no others.
\<close>

definition psk_keys :: "bytes \<Rightarrow> bytes \<Rightarrow> macsec_mka_keys" where
  "psk_keys cak ckn =
     (let zeros = replicate (32 - length cak) 0;
          E = aes_of_key (cak @ zeros) (length cak * 8)
      in \<lparr>keys_ick = kdf_spec E ''IEEE8021 ICK'' (mka_keyid ckn) (of_nat (length cak) * 8) @ zeros, keys_ick_len = of_nat (length cak),
          keys_kek = kdf_spec E ''IEEE8021 KEK'' (mka_keyid ckn) (of_nat (length cak) * 8) @ zeros, keys_kek_len = of_nat (length cak),
          keys_valid = True\<rparr>)"

definition static_sa_key :: "bytes \<Rightarrow> bool \<times> bytes \<times> u8 \<times> u8" where
  "static_sa_key sak = (True, sak @ replicate (32 - length sak) 0, of_nat (length sak), 0)"

fun tap_keyed :: "tap_keys \<Rightarrow> bytes \<Rightarrow> macsec_ctx \<Rightarrow> bool" where
  "tap_keyed (Tap_psk cak ckn priority) mac ctx \<longleftrightarrow>
     cf_mode (mx_cfg ctx) = MACSEC_MODE_MKA_PSK \<and> fc_local_sci (mx_frame_crypto ctx) = mac @ [0, 1] \<and>
     mc_keys (mk_crypto (mx_mka ctx)) = psk_keys cak ckn \<and> mka_ckn (mx_mka ctx) = ckn \<and> mk_local_mac (mx_mka ctx) = mac \<and>
     priority_read priority (mk_key_server_priority (mx_mka ctx))"
| "tap_keyed (Tap_sak sak) mac ctx \<longleftrightarrow>
     cf_mode (mx_cfg ctx) = MACSEC_MODE_STATIC_SAK \<and> fc_local_sci (mx_frame_crypto ctx) = mac @ [0, 1] \<and>
     sa_key (fc_tx_sak (mx_frame_crypto ctx)) = static_sa_key sak \<and>
     map sa_key (fc_rx_sak (mx_frame_crypto ctx)) = static_sa_key sak # replicate 3 (False, replicate 32 0, 0, 0)"

lemma keyed_kept: "macsec_keys_kept ctx ctx' \<Longrightarrow> tap_keyed keys mac ctx \<Longrightarrow> tap_keyed keys mac ctx'"
  by (cases keys) (auto simp: macsec_keys_kept_def mka_identity_def mka_ckn_def frame_keys_def MACSEC_MODE_MKA_PSK_def
      MACSEC_MODE_STATIC_SAK_def)

lemma hs_keys_spec:
  assumes "length (macsec_bytes_at (cf_cak cfg) (cf_cak_len cfg)) \<in> {16, 32}"
    and "1 \<le> length (macsec_bytes_at (cf_ckn cfg) (cf_ckn_len cfg))" "length (macsec_bytes_at (cf_ckn cfg) (cf_ckn_len cfg)) \<le> 32"
  shows "hs_keys cfg = psk_keys (macsec_bytes_at (cf_cak cfg) (cf_cak_len cfg)) (macsec_bytes_at (cf_ckn cfg) (cf_ckn_len cfg))"
proof -
  define cak where "cak = macsec_bytes_at (cf_cak cfg) (cf_cak_len cfg)"
  define ckn where "ckn = macsec_bytes_at (cf_ckn cfg) (cf_ckn_len cfg)"
  define p where "p = snd (macsec_mka_crypto_set_psk (snd macsec_mka_crypto_init) cak ckn)"
  have len: "length cak = 16 \<or> length cak = 32" "0 < length ckn" "length ckn \<le> 32" using assms by (auto simp: cak_def ckn_def)
  have p: "mka_crypto_wf p" "psk_valid (mc_psk p)"
    using len mka_crypto_init_wf
    by (auto simp: p_def macsec_mka_crypto_set_psk_def macsec_mka_key_len_valid_def mka_crypto_wf_def
        mka_psk_zero_def mka_keys_zero_def word_less_nat_alt unat_of_nat)
  have f: "psk_cak (mc_psk p) = cak @ replicate (32 - length cak) 0" "psk_cak_len (mc_psk p) = of_nat (length cak)"
      "unat (psk_cak_len (mc_psk p)) = length cak" "take (unat (psk_ckn_len (mc_psk p))) (psk_ckn (mc_psk p)) = ckn"
    using len by (auto simp: p_def macsec_mka_crypto_set_psk_def macsec_mka_key_len_valid_def arr_put_def unat_of_nat)
  have g: "unat (of_nat (length cak) :: u8) = length cak" "(ucast (of_nat (length cak) :: u8) :: u16) = of_nat (length cak)"
    using len by auto
  show ?thesis
    by (rule derive_ick_kek_spec [OF p, unfolded f])
       (simp add: g hs_keys_def cak_def [symmetric] ckn_def [symmetric] p_def [symmetric] psk_keys_def Let_def)
qed

lemma init_psk_keyed:
  assumes cfg: "macsec_config_ok (linux_tap_macsec_config mac config)" and holds: "config_holds (Tap_psk cak ckn priority) config"
    and ok: "tap_keys_ok (Tap_psk cak ckn priority)" and mac: "length mac = 6" and rnd: "length (rnd 12) = 12"
    and init: "linux_tap_init_macsec rnd mac config = (MACSEC_ERR_OK, ctx)"
  shows "tap_keyed (Tap_psk cak ckn priority) mac ctx \<and> mx_state ctx = MACSEC_STATE_WAIT_MKA"
proof -
  define c where "c = linux_tap_macsec_config mac config"
  have mode: "cf_mode c = MACSEC_MODE_MKA_PSK" and f: "cf_local_mac c = mac" "cf_port_id c = 1" "cf_key_server_priority c = lc_mka_priority config"
    using holds mac by (simp_all add: c_def linux_tap_macsec_config_def Let_def)
  have k: "macsec_bytes_at (cf_cak c) (cf_cak_len c) = cak" "macsec_bytes_at (cf_ckn c) (cf_ckn_len c) = ckn"
    using holds ok by (auto simp: c_def linux_tap_macsec_config_def Let_def macsec_bytes_at_def arr_put_def macsec_config_zero_def)
  have i: "macsec_init rnd c = (MACSEC_ERR_OK, ctx)" using init by (simp add: linux_tap_init_macsec_def c_def)
  note s = mka_start [where rnd = rnd, OF cfg [folded c_def] mode i rnd]
  have "hs_keys c = psk_keys cak ckn" using hs_keys_spec [of c] ok by (auto simp: k)
  moreover have "fc_local_sci (mx_frame_crypto ctx) = mac @ [0, 1]"
    using mac by (simp add: s(2) blank_fields f macsec_build_sci_def macsec_wr_be16_def)
  moreover have "mx_state ctx = MACSEC_STATE_WAIT_MKA"
    using i mode by (auto simp: macsec_init_unfold Let_def MACSEC_MODE_DISABLED_def MACSEC_MODE_STATIC_SAK_def MACSEC_MODE_MKA_PSK_def
        split: if_splits prod.splits)
  ultimately show ?thesis using s(1,7,9,12,13) holds f k by (simp add: hs_port_def)
qed

lemma init_sak_keyed:
  assumes cfg: "macsec_config_ok (linux_tap_macsec_config mac config)" and holds: "config_holds (Tap_sak sak) config"
    and ok: "tap_keys_ok (Tap_sak sak)" and mac: "length mac = 6"
    and init: "linux_tap_init_macsec rnd mac config = (MACSEC_ERR_OK, ctx)"
  shows "tap_keyed (Tap_sak sak) mac ctx \<and> mx_state ctx = MACSEC_STATE_SECURED \<and>
    fc_tx_sak (mx_frame_crypto ctx) = fresh_sa (sak @ replicate (32 - length sak) 0) (length sak) 0 1"
proof -
  define c where "c = linux_tap_macsec_config mac config"
  define key where "key = sak @ replicate (32 - length sak) 0"
  have f: "cf_mode c = MACSEC_MODE_STATIC_SAK" "cf_local_mac c = mac" "cf_port_id c = 1" "cf_static_an c = 0" "cf_static_sak c = key"
      "cf_static_sak_len c = length sak"
    using holds mac ok by (auto simp: c_def key_def linux_tap_macsec_config_def Let_def arr_put_def macsec_config_zero_def)
  have len: "cf_static_sak_len c = 16 \<or> cf_static_sak_len c = 32" "cf_static_an c < 4" using ok by (simp_all add: f)
  have i: "macsec_init rnd c = (MACSEC_ERR_OK, ctx)" using init by (simp add: linux_tap_init_macsec_def c_def)
  define sa where "sa = fresh_sa key (length sak) 0 1"
  have ctx: "ctx = (macsec_blank c)\<lparr>mx_frame_crypto := (mx_frame_crypto (macsec_blank c))
      \<lparr>fc_rx_sak := (replicate 4 frame_sak_zero)[0 := sa], fc_tx_sak := sa\<rparr>, mx_state := MACSEC_STATE_SECURED\<rparr>"
    using i static_init [OF cfg [folded c_def] f(1) len, of rnd] by (simp add: f sa_def)
  have "sa_key sa = static_sa_key sak"
    using ok by (auto simp: sa_def sa_key_def static_sa_key_def fresh_sa_def key_def arr_put_def frame_sak_zero_def)
  moreover have "sa_key frame_sak_zero = (False, replicate 32 0, 0, 0)" by (simp add: sa_key_def frame_sak_zero_def)
  moreover have "(replicate 4 frame_sak_zero)[0 := sa] = sa # replicate 3 frame_sak_zero" by (simp add: numeral_eq_Suc)
  ultimately show ?thesis
    using mac by (simp add: ctx blank_fields f macsec_build_sci_def macsec_wr_be16_def sa_def [symmetric] key_def [symmetric])
qed

subsection \<open>The configuration is sound\<close>

lemma init_keyed:
  assumes config: "linux_tap_configure path content read_error = (0, config)" and mac: "length mac = 6" and rnd: "length (rnd 12) = 12"
  obtains keys ctx where "configured_keys path content = Some keys" "tap_keys_ok keys" "config_holds keys config"
    "linux_tap_init_macsec rnd mac config = (MACSEC_ERR_OK, ctx)" "macsec_reachable ctx" "tap_keyed keys mac ctx"
    "case keys of Tap_psk cak ckn priority \<Rightarrow> mx_state ctx = MACSEC_STATE_WAIT_MKA
     | Tap_sak sak \<Rightarrow> mx_state ctx = MACSEC_STATE_SECURED \<and>
         fc_tx_sak (mx_frame_crypto ctx) = fresh_sa (sak @ replicate (32 - length sak) 0) (length sak) 0 1"
proof -
  have ok: "linux_tap_config_ok config" by (rule configure_ok [OF config])
  obtain keys where k: "configured_keys path content = Some keys" "tap_keys_ok keys" "config_holds keys config"
    using configure_holds [OF config] by blast
  obtain ctx where i: "linux_tap_init_macsec rnd mac config = (MACSEC_ERR_OK, ctx)" "macsec_reachable ctx"
    using init_macsec_ok [where rnd = rnd, OF ok mac rnd] by blast
  have cfg: "macsec_config_ok (linux_tap_macsec_config mac config)" by (rule macsec_config_from_ok [OF ok mac])
  show thesis
  proof (cases keys)
    case (Tap_psk cak ckn priority)
    have "tap_keyed keys mac ctx \<and> mx_state ctx = MACSEC_STATE_WAIT_MKA" unfolding Tap_psk
      by (rule init_psk_keyed [where rnd = rnd, OF cfg k(3) [unfolded Tap_psk] k(2) [unfolded Tap_psk] mac rnd i(1)])
    with Tap_psk show thesis by (intro that [OF k i]) simp_all
  next
    case (Tap_sak sak)
    note start = init_sak_keyed [where rnd = rnd, OF cfg k(3) [unfolded Tap_sak] k(2) [unfolded Tap_sak] mac i(1)]
    show thesis
    proof (rule that [OF k i])
      show "tap_keyed keys mac ctx" unfolding Tap_sak by (rule conjunct1 [OF start])
    qed (simp add: Tap_sak conjunct2 [OF start])
  qed
qed

text \<open>Whatever calls follow, the keys stay: no context of the run has other ones.\<close>

lemma keyed_path:
  assumes "macsec_reachable ctx" "tap_keyed keys mac ctx" "macsec_step\<^sup>*\<^sup>* ctx ctx'"
  shows "tap_keyed keys mac ctx'"
  using path_keys [OF assms(3) macsec.reach_inv [OF assms(1)]] keyed_kept [OF _ assms(2)] by blast

text \<open>
  C39. The keys that are in use are the configured ones. A configuration that is accepted has a single CAK, CKN and
  priority in its file, or a static SAK as its argument, of a permitted length, and with it the
  initialization of the stack cannot fail. From then on every context that any calls lead to is keyed as
  configured: in MKA mode the ICK and the KEK are those of the CAK and CKN written in the file, the CKN and
  the priority are those of the file (a priority written in digits, below 2^32), and the SCI is
  the MAC address with the port 1; in static mode the SAs for sending and receiving with the association
  number 0 have the SAK written in the argument and every other one is invalid. A port with a static SAK is secured at once and
  sends from packet number 1. The disabled mode cannot be configured.
\<close>

theorem linux_tap_config_sound:
  assumes "linux_tap_configure path content read_error = (0, config)" "length mac = 6" "length (rnd 12) = 12"
  shows "\<exists>keys ctx. configured_keys path content = Some keys \<and> tap_keys_ok keys \<and> linux_tap_config_ok config \<and>
    linux_tap_init_macsec rnd mac config = (MACSEC_ERR_OK, ctx) \<and> macsec_reachable ctx \<and>
    (\<forall>ctx'. macsec_step\<^sup>*\<^sup>* ctx ctx' \<longrightarrow> tap_keyed keys mac ctx' \<and> cf_mode (mx_cfg ctx') \<noteq> MACSEC_MODE_DISABLED) \<and>
    (case keys of Tap_psk cak ckn priority \<Rightarrow> mx_state ctx = MACSEC_STATE_WAIT_MKA
     | Tap_sak sak \<Rightarrow> mx_state ctx = MACSEC_STATE_SECURED \<and>
         fc_tx_sak (mx_frame_crypto ctx) = fresh_sa (sak @ replicate (32 - length sak) 0) (length sak) 0 1)"
proof (rule init_keyed [where rnd = rnd, OF assms], goal_cases)
  case (1 keys ctx)
  have "tap_keyed keys mac c \<Longrightarrow> cf_mode (mx_cfg c) \<noteq> MACSEC_MODE_DISABLED" for c
    by (cases keys) (simp_all add: MACSEC_MODE_DISABLED_def MACSEC_MODE_STATIC_SAK_def MACSEC_MODE_MKA_PSK_def)
  with 1 configure_ok [OF assms(1)] keyed_path [OF 1(5,6)] show ?case by blast
qed

text \<open>A file with a comment and blanks in it.\<close>

definition sample_tap_file :: string where
  "sample_tap_file = concat (map (\<lambda>l. l @ [CHR 0x0A])
     [''mka_cak=000102030405060708090A0b0c0d0e0f'', '' mka_ckn= c0ffee01 # name'', ''mka_priority= 16''])"

lemma sample_tap_file_keys:
  "configured_keys ''tap.conf'' (Some sample_tap_file) =
     Some (Tap_psk [0, 1, 2, 3, 4, 5, 6, 7, 8, 9, 10, 11, 12, 13, 14, 15] [0xC0, 0xFF, 0xEE, 0x01] ''16'')"
proof -
  have "config_values ''mka_cak='' sample_tap_file = [''000102030405060708090A0b0c0d0e0f'']"
    "config_values ''mka_ckn='' sample_tap_file = [''c0ffee01'']" "config_values ''mka_priority='' sample_tap_file = [''16'']"
    by code_simp+
  then show ?thesis by (simp add: configured_keys_def the_value_def hex_digit_def)
qed

lemma sample_tap_file_accepted: "\<exists>config. linux_tap_configure ''tap.conf'' (Some sample_tap_file) False = (0, config)"
proof -
  let ?l1 = "''mka_cak=000102030405060708090A0b0c0d0e0f'' @ [CHR 0x0A]" and ?l2 = "'' mka_ckn= c0ffee01 # name'' @ [CHR 0x0A]"
    and ?l3 = "''mka_priority= 16'' @ [CHR 0x0A]"
  define c1 where "c1 = linux_tap_config_zero\<lparr>lc_mode := LINUX_TAP_MODE_MKA_PSK, lc_cak := map of_nat [0..<16] @ replicate 16 0, lc_cak_len := 16, lc_cak_set := True\<rparr>"
  define c2 where "c2 = c1\<lparr>lc_ckn := [0xC0, 0xFF, 0xEE, 0x01] @ replicate 28 0, lc_ckn_len := 4, lc_ckn_set := True\<rparr>"
  define c3 where "c3 = c2\<lparr>lc_mka_priority := 16, lc_priority_set := True\<rparr>"
  have g: "c_fgets 512 sample_tap_file = (?l1, ?l2 @ ?l3, False)" "c_fgets 512 (?l2 @ ?l3) = (?l2, ?l3, False)" "c_fgets 512 ?l3 = (?l3, [], False)"
    by code_simp+
  have l1: "linux_tap_config_line ?l1 False (linux_tap_config_zero\<lparr>lc_mode := LINUX_TAP_MODE_MKA_PSK\<rparr>) = (0, c1)" unfolding c1_def by code_simp
  have l2: "linux_tap_config_line ?l2 False c1 = (0, c2)" unfolding c2_def c1_def by code_simp
  have "linux_tap_trim (takeWhile (\<lambda>c. c \<noteq> CHR ''#'') (takeWhile (\<lambda>c. c \<noteq> CHR 0x00) ?l3)) = ''mka_priority= 16''" "linux_tap_trim '' 16'' = ''16''"
    by code_simp+
  moreover have "linux_tap_parse_priority ''16'' q = (0, 16)" for q
    by (simp add: linux_tap_parse_priority_def c_strtoul_def decimal_value_def c_isspace_def c_isdigit_def Let_def)
  moreover have "\<not> lc_priority_set c2" by (simp add: c2_def c1_def linux_tap_config_zero_def)
  ultimately have l3: "linux_tap_config_line ?l3 False c2 = (0, c3)"
    by (simp add: linux_tap_config_line_def linux_tap_config_priority_def Let_def c3_def)
  have ne: "sample_tap_file \<noteq> []" by (simp add: sample_tap_file_def)
  have "linux_tap_config_lines sample_tap_file (linux_tap_config_zero\<lparr>lc_mode := LINUX_TAP_MODE_MKA_PSK\<rparr>) = linux_tap_config_lines (?l2 @ ?l3) c1"
    by (subst linux_tap_config_lines.simps) (use ne g(1) l1 in \<open>simp add: LINUX_TAP_CONFIG_LINE_MAX_def\<close>)
  also have "\<dots> = linux_tap_config_lines ?l3 c2"
    by (subst linux_tap_config_lines.simps) (use g(2) l2 in \<open>simp add: LINUX_TAP_CONFIG_LINE_MAX_def\<close>)
  also have "\<dots> = linux_tap_config_lines [] c3"
    by (subst linux_tap_config_lines.simps) (use g(3) l3 in \<open>simp add: LINUX_TAP_CONFIG_LINE_MAX_def\<close>)
  finally have "linux_tap_config_lines sample_tap_file (linux_tap_config_zero\<lparr>lc_mode := LINUX_TAP_MODE_MKA_PSK\<rparr>) = (0, c3)"
    by (simp add: linux_tap_config_lines.simps [of "[]"])
  moreover have "lc_cak_set c3" "lc_ckn_set c3" "lc_priority_set c3" by (simp_all add: c3_def c2_def c1_def)
  ultimately show ?thesis by (simp add: linux_tap_configure_def linux_tap_load_config_def LINUX_TAP_STATIC_SAK_PREFIX_def Let_def)
qed

theorem linux_tap_config_sound_witness:
  "\<exists>config ctx. linux_tap_configure ''tap.conf'' (Some sample_tap_file) False = (0, config) \<and>
     linux_tap_init_macsec (\<lambda>n. replicate n 5) (replicate 6 2) config = (MACSEC_ERR_OK, ctx) \<and>
     mc_keys (mk_crypto (mx_mka ctx)) = psk_keys [0, 1, 2, 3, 4, 5, 6, 7, 8, 9, 10, 11, 12, 13, 14, 15] [0xC0, 0xFF, 0xEE, 0x01] \<and>
     mk_key_server_priority (mx_mka ctx) = 16"
proof -
  obtain config where c: "linux_tap_configure ''tap.conf'' (Some sample_tap_file) False = (0, config)"
    using sample_tap_file_accepted by blast
  have l: "length (replicate 6 (2::u8)) = 6" "length ((\<lambda>n. replicate n (5::u8)) 12) = 12" by simp_all
  obtain ctx where t: "linux_tap_init_macsec (\<lambda>n. replicate n 5) (replicate 6 2) config = (MACSEC_ERR_OK, ctx)"
      "tap_keyed (Tap_psk [0, 1, 2, 3, 4, 5, 6, 7, 8, 9, 10, 11, 12, 13, 14, 15] [0xC0, 0xFF, 0xEE, 0x01] ''16'') (replicate 6 2) ctx"
    using linux_tap_config_sound [where rnd = "\<lambda>n. replicate n 5", OF c l] unfolding sample_tap_file_keys by blast
  have "digits_number 0 ''16'' = Some 16" by simp
  then have "mk_key_server_priority (mx_mka ctx) = 16" using t(2) by (auto simp: priority_read_def)
  with c t show ?thesis by auto
qed

end
