(* ===== verification/LinuxTap.thy ===== *)
theory LinuxTap
  imports LinuxTapKeys
begin

text \<open>
  The event loop of the Linux TAP application: \<open>raw_socket.c\<close>, \<open>tap.c\<close> and the loop of
  \<open>main.c\<close>. System calls are parameters: what they return is an input of the model, and what they
  are given is its output. The output of one iteration is a list of the frames handed to \<open>sendto\<close> and
  \<open>write\<close>. A panic of the stack is \<open>None\<close>.
\<close>

subsection \<open>System calls\<close>

text \<open>What a system call returns: its result, a temporary condition (\<open>EAGAIN\<close> or \<open>EINTR\<close>), or another error.\<close>

datatype 'a sys_result = Sys_done 'a | Sys_again | Sys_error

text \<open>What the application hands to the network and to the TAP device.\<close>

datatype linux_tap_output = Raw_sent bytes | Tap_written bytes

record linux_tap_stats =
  st_tap_rx :: u64
  st_raw_tx :: u64
  st_raw_tx_dropped :: u64
  st_mka_rx :: u64
  st_macsec_rx :: u64
  st_tap_tx :: u64
  st_tap_tx_dropped :: u64
  st_encrypt_errors :: u64
  st_decrypt_errors :: u64

definition linux_tap_stats_zero :: linux_tap_stats where
  "linux_tap_stats_zero = \<lparr>st_tap_rx = 0, st_raw_tx = 0, st_raw_tx_dropped = 0, st_mka_rx = 0, st_macsec_rx = 0,
     st_tap_tx = 0, st_tap_tx_dropped = 0, st_encrypt_errors = 0, st_decrypt_errors = 0\<rparr>"

definition LINUX_TAP_FRAME_MAX :: nat where "LINUX_TAP_FRAME_MAX = 2048"

definition ETH_P_MACSEC :: u16 where "ETH_P_MACSEC = 0x88E5"
definition ETH_P_PAE :: u16 where "ETH_P_PAE = 0x888E"
definition ETH_HLEN :: nat where "ETH_HLEN = 14"

subsection \<open>The packet socket\<close>

definition linux_raw_get_ethertype :: "bytes \<Rightarrow> u16" where
  "linux_raw_get_ethertype frame =
     (if length frame < ETH_HLEN then 0 else push_bit 8 (ucast (frame ! 12)) OR ucast (frame ! 13))"

text \<open>
  The loop of \<open>linux_raw_receive\<close> over the calls of \<open>recvfrom\<close>: each delivers a frame, cut to the capacity, and
  whether it is an outgoing one. When the list is used up the queue is empty, and \<open>recvfrom\<close> of a
  non-blocking socket reports \<open>EAGAIN\<close>. The result is the return value, the frame, and the calls that are left.
\<close>

fun linux_raw_receive :: "(bool \<times> bytes) sys_result list \<Rightarrow> nat \<Rightarrow> int \<times> bytes \<times> (bool \<times> bytes) sys_result list" where
  "linux_raw_receive [] frame_capacity = (0, [], [])"
| "linux_raw_receive (Sys_again # queue) frame_capacity = (0, [], queue)"
| "linux_raw_receive (Sys_error # queue) frame_capacity = (-1, [], queue)"
| "linux_raw_receive (Sys_done (outgoing, packet) # queue) frame_capacity =
     (let frame = take frame_capacity packet in
      if outgoing then linux_raw_receive queue frame_capacity
      else if length frame > 2147483647 then (-1, frame, queue)
      else
        let ether_type = linux_raw_get_ethertype frame in
        if ether_type \<noteq> ETH_P_MACSEC \<and> ether_type \<noteq> ETH_P_PAE then linux_raw_receive queue frame_capacity
        else (int (length frame), frame, queue))"

text \<open>
  \<open>sent\<close> is the result of \<open>sendto\<close>, the number of bytes it took. The frame is an output whatever the
  result: once handed to the kernel it may be on the wire.
\<close>

definition linux_raw_send :: "bytes \<Rightarrow> nat sys_result \<Rightarrow> int \<times> linux_tap_output list" where
  "linux_raw_send frame sent =
     (if length frame < ETH_HLEN then (-1, [])
      else (case sent of
              Sys_again \<Rightarrow> 0
            | Sys_error \<Rightarrow> -1
            | Sys_done n \<Rightarrow> if n \<noteq> length frame then -1 else int n, [Raw_sent frame]))"

subsection \<open>The TAP device\<close>

definition linux_tap_read :: "bytes sys_result \<Rightarrow> nat \<Rightarrow> int \<times> bytes" where
  "linux_tap_read result frame_capacity =
     (if frame_capacity = 0 then (-1, [])
      else case result of
        Sys_again \<Rightarrow> (0, [])
      | Sys_error \<Rightarrow> (-1, [])
      | Sys_done packet \<Rightarrow>
          let frame = take frame_capacity packet
          in if length frame > 2147483647 then (-1, frame) else (int (length frame), frame))"

definition linux_tap_write :: "bytes \<Rightarrow> nat sys_result \<Rightarrow> int \<times> linux_tap_output list" where
  "linux_tap_write frame written =
     (if length frame = 0 then (-1, [])
      else (case written of
              Sys_again \<Rightarrow> 0
            | Sys_error \<Rightarrow> -1
            | Sys_done n \<Rightarrow> if n \<noteq> length frame then -1 else int n, [Tap_written frame]))"

subsection \<open>From the TAP device to the network\<close>

text \<open>
  The buffers on the stack are not initialized; the stack writes the bytes that are used, so they are
  filled with 0 here. The result is the return value, the stack, the counters and the output.
\<close>

definition linux_tap_process_plain ::
  "macsec_ctx \<Rightarrow> bytes sys_result \<Rightarrow> nat sys_result \<Rightarrow> linux_tap_stats \<Rightarrow>
     (int \<times> macsec_ctx \<times> linux_tap_stats \<times> linux_tap_output list) option" where
  "linux_tap_process_plain macsec tap_in sent stats =
     (let (plain_len, plain) = linux_tap_read tap_in LINUX_TAP_FRAME_MAX in
      if plain_len < 0 then Some (-1, macsec, stats, [])
      else if plain_len = 0 then Some (0, macsec, stats, [])
      else do {
        let stats = stats\<lparr>st_tap_rx := st_tap_rx stats + 1\<rparr>;
        (ret, macsec, secure, secure_len) \<leftarrow>
          macsec_output macsec plain (replicate LINUX_TAP_FRAME_MAX 0) LINUX_TAP_FRAME_MAX;
        if ret \<noteq> MACSEC_ERR_OK
        then Some (0, macsec, stats\<lparr>st_encrypt_errors := st_encrypt_errors stats + 1\<rparr>, [])
        else
          let (send_ret, out) = linux_raw_send (take secure_len secure) sent
          in if send_ret < 0 then Some (-1, macsec, stats, out)
             else if send_ret = 0
             then Some (0, macsec, stats\<lparr>st_raw_tx_dropped := st_raw_tx_dropped stats + 1\<rparr>, out)
             else Some (0, macsec, stats\<lparr>st_raw_tx := st_raw_tx stats + 1\<rparr>, out)
      })"

subsection \<open>From the network to the TAP device\<close>

definition linux_tap_process_physical ::
  "(nat \<Rightarrow> bytes) \<Rightarrow> macsec_ctx \<Rightarrow> (bool \<times> bytes) sys_result list \<Rightarrow> nat sys_result \<Rightarrow> linux_tap_stats \<Rightarrow>
     (int \<times> macsec_ctx \<times> linux_tap_stats \<times> linux_tap_output list) option" where
  "linux_tap_process_physical rnd macsec queue written stats =
     (let (input_len, input, queue) = linux_raw_receive queue LINUX_TAP_FRAME_MAX in
      if input_len < 0 then Some (-1, macsec, stats, [])
      else if input_len = 0 then Some (0, macsec, stats, [])
      else if input_len < 14 then Some (0, macsec, stats, [])
      else do {
        let ether_type = (push_bit 8 (ucast (input ! 12)) OR ucast (input ! 13) :: u16);
        let stats = (if ether_type = 0x888E then stats\<lparr>st_mka_rx := st_mka_rx stats + 1\<rparr>
                     else if ether_type = 0x88E5 then stats\<lparr>st_macsec_rx := st_macsec_rx stats + 1\<rparr> else stats);
        (ret, macsec, plain, plain_len, pass_to_stack) \<leftarrow>
          macsec_input rnd macsec input (replicate LINUX_TAP_FRAME_MAX 0) LINUX_TAP_FRAME_MAX;
        if ret \<noteq> MACSEC_ERR_OK
        then Some (0, macsec, stats\<lparr>st_decrypt_errors := st_decrypt_errors stats + 1\<rparr>, [])
        else if \<not> pass_to_stack then Some (0, macsec, stats, [])
        else
          let (write_ret, out) = linux_tap_write (take plain_len plain) written
          in if write_ret < 0 then Some (-1, macsec, stats, out)
             else if write_ret = 0
             then Some (0, macsec, stats\<lparr>st_tap_tx_dropped := st_tap_tx_dropped stats + 1\<rparr>, out)
             else Some (0, macsec, stats\<lparr>st_tap_tx := st_tap_tx stats + 1\<rparr>, out)
      })"

subsection \<open>Time and control frames\<close>

text \<open>\<open>clock_gettime\<close> returns seconds and nanoseconds, or fails.\<close>

definition linux_tap_get_time_ms :: "(u64 \<times> u64) option \<Rightarrow> u32" where
  "linux_tap_get_time_ms clock = (case clock of
     None \<Rightarrow> 0
   | Some (sec, nsec) \<Rightarrow>
       let milliseconds = sec * 1000 + nsec div 1000000 in ucast milliseconds)"

definition linux_tap_macsec_control_service ::
  "(nat \<Rightarrow> bytes) \<Rightarrow> macsec_ctx \<Rightarrow> (u64 \<times> u64) option \<Rightarrow> nat sys_result \<Rightarrow>
     (int \<times> macsec_ctx \<times> linux_tap_output list) option" where
  "linux_tap_macsec_control_service rnd macsec clock sent =
     (let now_ms = linux_tap_get_time_ms clock;
          (ret, macsec) = macsec_tick macsec now_ms
      in if ret \<noteq> MACSEC_ERR_OK then Some (-1, macsec, [])
         else do {
           (ret, macsec, frame, frame_len) \<leftarrow>
             macsec_build_control_frame rnd macsec (replicate MACSEC_MKA_MAX_FRAME_LEN 0) MACSEC_MKA_MAX_FRAME_LEN;
           if ret = MACSEC_ERR_NOT_READY then Some (0, macsec, [])
           else if ret = MACSEC_ERR_BUSY then Some (-1, macsec, [])
           else if ret \<noteq> MACSEC_ERR_OK then Some (-1, macsec, [])
           else
             let (send_ret, out) = linux_raw_send (take frame_len frame) sent
             in if send_ret > 0 then
                  let (ret, macsec) = macsec_notify_control_tx_success macsec now_ms
                  in if ret \<noteq> MACSEC_ERR_OK then Some (-1, macsec, out) else Some (0, macsec, out)
                else
                  let (ret, macsec) = macsec_notify_control_tx_failure macsec
                  in if ret \<noteq> MACSEC_ERR_OK then Some (-1, macsec, out)
                     else if send_ret < 0 then Some (-1, macsec, out)
                     else Some (0, macsec, out)
         })"

subsection \<open>The loop\<close>

text \<open>
  What one iteration gets from the system: the result of \<open>poll\<close> (the number of ready descriptors, an
  interruption, or an error), the two sets of events, and the results of the calls it may make.
\<close>

record linux_tap_input =
  in_poll :: "nat sys_result"
  in_tap_revents :: u16
  in_raw_revents :: u16
  in_clock :: "(u64 \<times> u64) option"
  in_control_sent :: "nat sys_result"
  in_tap :: "bytes sys_result"
  in_data_sent :: "nat sys_result"
  in_raw :: "(bool \<times> bytes) sys_result list"
  in_written :: "nat sys_result"

definition POLLIN :: u16 where "POLLIN = 1"
definition POLL_FAILED :: u16 where "POLL_FAILED = 0x8 OR 0x10 OR 0x20"

record linux_tap_state =
  lt_macsec :: macsec_ctx
  lt_stats :: linux_tap_stats

text \<open>
  One iteration of the loop in \<open>main\<close>. The flag says whether the loop goes on; a break sets the exit code
  \<open>EXIT_FAILURE\<close>. An interrupted \<open>poll\<close> starts the next iteration, where the loop condition is tested. The
  stack may draw random bytes twice, for the control frame and for a received one.
\<close>

definition linux_tap_iteration ::
  "linux_tap_mode \<Rightarrow> (nat \<Rightarrow> bytes) \<Rightarrow> (nat \<Rightarrow> bytes) \<Rightarrow> linux_tap_input \<Rightarrow> linux_tap_state \<Rightarrow>
     (bool \<times> linux_tap_state \<times> linux_tap_output list) option" where
  "linux_tap_iteration mode rnd1 rnd2 i st = (case in_poll i of
     Sys_error \<Rightarrow> Some (False, st, [])
   | Sys_again \<Rightarrow> Some (True, st, [])
   | Sys_done ready \<Rightarrow> do {
       (ret, macsec, out1) \<leftarrow>
         (if mode = LINUX_TAP_MODE_MKA_PSK
          then linux_tap_macsec_control_service rnd1 (lt_macsec st) (in_clock i) (in_control_sent i)
          else Some (0, lt_macsec st, []));
       let st = st\<lparr>lt_macsec := macsec\<rparr>;
       if ret < 0 then Some (False, st, out1)
       else if ready = 0 then Some (True, st, out1)
       else if in_tap_revents i AND POLL_FAILED \<noteq> 0 then Some (False, st, out1)
       else if in_raw_revents i AND POLL_FAILED \<noteq> 0 then Some (False, st, out1)
       else do {
         (ret, macsec, stats, out2) \<leftarrow>
           (if in_tap_revents i AND POLLIN \<noteq> 0
            then linux_tap_process_plain (lt_macsec st) (in_tap i) (in_data_sent i) (lt_stats st)
            else Some (0, lt_macsec st, lt_stats st, []));
         let st = st\<lparr>lt_macsec := macsec, lt_stats := stats\<rparr>;
         if ret < 0 then Some (False, st, out1 @ out2)
         else do {
           (ret, macsec, stats, out3) \<leftarrow>
             (if in_raw_revents i AND POLLIN \<noteq> 0
              then linux_tap_process_physical rnd2 (lt_macsec st) (in_raw i) (in_written i) (lt_stats st)
              else Some (0, lt_macsec st, lt_stats st, []));
           let st = st\<lparr>lt_macsec := macsec, lt_stats := stats\<rparr>;
           Some (\<not> ret < 0, st, out1 @ out2 @ out3)
         }
       }
     })"
subsection \<open>Every call of the application\<close>

text \<open>
  Where an output of an iteration may come from, when the iteration starts with the stack in the context \<open>before\<close>, leaves
  it in \<open>after\<close> and draws the random bytes of the control frame from \<open>rnd\<close>: a context that the stack goes through
  in between explains it. A frame on the network is the MKPDU that the participant of this context builds, or the frame
  read from the TAP device, sealed under the transmit SAK and the SCI of this context. A frame on the TAP device is
  a received one, opened under the receive SAK of this context.
\<close>

definition linux_tap_output_ok ::
  "(nat \<Rightarrow> bytes) \<Rightarrow> macsec_ctx \<Rightarrow> linux_tap_input \<Rightarrow> linux_tap_output \<Rightarrow> macsec_ctx \<Rightarrow> bool" where
  "linux_tap_output_ok rnd before i out after \<longleftrightarrow>
     (\<exists>ctx. macsec_step\<^sup>*\<^sup>* before ctx \<and> macsec_step\<^sup>*\<^sup>* ctx after \<and> (case out of
        Raw_sent f \<Rightarrow>
          cf_mode (mx_cfg ctx) = MACSEC_MODE_MKA_PSK \<and> f = mka_tx_frame (snd (mka_tx_prepare rnd (mx_mka ctx))) \<or>
          (\<exists>packet. mx_state ctx = MACSEC_STATE_SECURED \<and> in_tap i = Sys_done packet \<and> fs_valid (fc_tx_sak (mx_frame_crypto ctx)) \<and>
             f = frame_seal (fc_tx_sak (mx_frame_crypto ctx)) (fc_local_sci (mx_frame_crypto ctx)) (take 2048 packet))
      | Tap_written p \<Rightarrow>
          (\<exists>packet rest. mx_state ctx = MACSEC_STATE_SECURED \<and> Sys_done (False, packet) \<in> set (in_raw i) \<and>
             (let frame = take 2048 packet; sak = fc_rx_sak (mx_frame_crypto ctx) ! frame_an frame in
              fs_valid sak \<and> frame_open sak frame = Some rest \<and> p = take 12 frame @ rest))))"

lemma output_ok_wider:
  "macsec_step\<^sup>*\<^sup>* a before \<Longrightarrow> macsec_step\<^sup>*\<^sup>* after b \<Longrightarrow> linux_tap_output_ok rnd before i out after \<Longrightarrow>
     linux_tap_output_ok rnd a i out b"
  unfolding linux_tap_output_ok_def by (meson rtranclp_trans)

lemma raw_receive_origin:
  "0 < fst (linux_raw_receive queue capacity) \<Longrightarrow>
     \<exists>packet. Sys_done (False, packet) \<in> set queue \<and> fst (snd (linux_raw_receive queue capacity)) = take capacity packet \<and>
       fst (linux_raw_receive queue capacity) = int (length (take capacity packet))"
  by (induction queue capacity rule: linux_raw_receive.induct) (auto simp: Let_def split: if_split_asm)

lemma control_frame_is_mka:
  assumes inv: "macsec_inv ctx" and rnd: "length (rnd 16) = 16" and room: "max_len \<le> length frame"
    and build: "macsec_build_control_frame rnd ctx frame max_len = Some (MACSEC_ERR_OK, ctx', out, n)"
  shows "cf_mode (mx_cfg ctx) = MACSEC_MODE_MKA_PSK \<and> take n out = mka_tx_frame (snd (mka_tx_prepare rnd (mx_mka ctx)))"
proof -
  have mode: "cf_mode (mx_cfg ctx) = MACSEC_MODE_MKA_PSK"
    using build by (auto simp: macsec_build_control_frame_def split: if_splits)
  then have m: "mka_inv (mx_mka ctx)" using inv by (simp add: macsec_inv_def)
  obtain mka meta meta' where b: "macsec_mka_build_tx_frame rnd (mx_mka ctx) frame 0 max_len meta = Some (MACSEC_ERR_OK, mka, out, n, meta')"
    using build mode by (auto simp: macsec_build_control_frame_def Let_def split: if_splits bind_splits)
  define d where "d = snd (mka_tx_prepare rnd (mx_mka ctx))"
  have d: "mka_inv d" unfolding d_def by (rule tx_prepare_inv [where rnd = rnd, OF m rnd])
  have "take n out = mka_tx_frame d"
    by (cases rule: build_tx_frame_spec [where rnd = rnd, OF m rnd room, of 0 meta, folded d_def, case_names idle no_sak too_long built])
       (use b length_tx_frame [OF d] in auto)
  with mode show ?thesis by (simp add: d_def)
qed

lemma raw_send_output: "o' \<in> set (snd (linux_raw_send frame sent)) \<Longrightarrow> o' = Raw_sent frame"
  by (auto simp: linux_raw_send_def split: if_splits)

lemma tap_write_output: "o' \<in> set (snd (linux_tap_write frame written)) \<Longrightarrow> o' = Tap_written frame"
  by (auto simp: linux_tap_write_def split: if_splits)

lemma process_plain_total:
  assumes inv: "macsec_inv ctx" and mode: "cf_mode (mx_cfg ctx) \<noteq> MACSEC_MODE_DISABLED"
  obtains ret ctx' stats' out where "linux_tap_process_plain ctx (in_tap i) sent stats = Some (ret, ctx', stats', out)"
    "macsec_step\<^sup>*\<^sup>* ctx ctx'" "\<forall>o' \<in> set out. linux_tap_output_ok rnd ctx i o' ctx'"
proof -
  obtain n plain where r: "linux_tap_read (in_tap i) LINUX_TAP_FRAME_MAX = (n, plain)" by (metis surj_pair)
  show thesis
  proof (cases "0 < n")
    case False
    with r show thesis
      by (intro that [of "if n < 0 then -1 else 0" ctx stats "[]"]) (auto simp: linux_tap_process_plain_def)
  next
    case True
    then obtain packet where p: "in_tap i = Sys_done packet" "plain = take 2048 packet"
      using r by (auto simp: linux_tap_read_def LINUX_TAP_FRAME_MAX_def Let_def split: sys_result.splits if_splits)
    have room: "LINUX_TAP_FRAME_MAX \<le> length (replicate LINUX_TAP_FRAME_MAX (0::u8))" by simp
    show thesis
    proof (rule macsec_output_total [OF inv room, of plain], goal_cases)
      case (1 ret c secure len)
      note o' = 1
      have run: "macsec_step\<^sup>*\<^sup>* ctx c" using macsec_step_output [OF room o'(1)] by blast
      define stats1 where "stats1 = stats\<lparr>st_tap_rx := st_tap_rx stats + 1\<rparr>"
      show thesis
      proof (cases "ret = MACSEC_ERR_OK")
        case False
        with r True o'(1) run show thesis
          by (intro that [of 0 c "stats1\<lparr>st_encrypt_errors := st_encrypt_errors stats1 + 1\<rparr>" "[]"])
             (simp_all add: linux_tap_process_plain_def stats1_def Let_def)
      next
        case ok: True
        obtain s out where s: "linux_raw_send (take len secure) sent = (s, out)" by (metis surj_pair)
        have valid: "fs_valid (fc_tx_sak (mx_frame_crypto ctx))"
          using o'(1) ok mode by (auto simp: macsec_output_def split: if_splits)
        have "linux_tap_output_ok rnd ctx i (Raw_sent (take len secure)) c"
          unfolding linux_tap_output_ok_def by (rule exI [of _ ctx]) (use o'(8) [OF ok mode] run valid p in auto)
        then have fine: "\<forall>o' \<in> set out. linux_tap_output_ok rnd ctx i o' c" using raw_send_output [of _ "take len secure" sent] s by auto
        show thesis
          using r True o'(1) ok s run fine
          by (intro that [of "if s < 0 then -1 else 0" c "if s < 0 then stats1 else if s = 0 then
                stats1\<lparr>st_raw_tx_dropped := st_raw_tx_dropped stats1 + 1\<rparr> else stats1\<lparr>st_raw_tx := st_raw_tx stats1 + 1\<rparr>" out])
             (simp_all add: linux_tap_process_plain_def stats1_def Let_def)
      qed
    qed
  qed
qed

lemma process_physical_total:
  assumes inv: "macsec_inv ctx" and mode: "cf_mode (mx_cfg ctx) \<noteq> MACSEC_MODE_DISABLED" and rnd: "length (rnd2 16) = 16"
  obtains ret ctx' stats' out where "linux_tap_process_physical rnd2 ctx (in_raw i) written stats = Some (ret, ctx', stats', out)"
    "macsec_step\<^sup>*\<^sup>* ctx ctx'" "\<forall>o' \<in> set out. linux_tap_output_ok rnd ctx i o' ctx'"
proof -
  obtain n frame queue where r: "linux_raw_receive (in_raw i) LINUX_TAP_FRAME_MAX = (n, frame, queue)" by (metis surj_pair)
  show thesis
  proof (cases "14 \<le> n")
    case False
    with r show thesis
      by (intro that [of "if n < 0 then -1 else 0" ctx stats "[]"]) (auto simp: linux_tap_process_physical_def)
  next
    case True
    then obtain packet where p: "Sys_done (False, packet) \<in> set (in_raw i)" "frame = take 2048 packet"
      using raw_receive_origin [of "in_raw i" LINUX_TAP_FRAME_MAX] r by (auto simp: LINUX_TAP_FRAME_MAX_def)
    define stats1 where "stats1 = (let ether_type = (push_bit 8 (ucast (frame ! 12)) OR ucast (frame ! 13) :: u16)
      in if ether_type = 0x888E then stats\<lparr>st_mka_rx := st_mka_rx stats + 1\<rparr>
         else if ether_type = 0x88E5 then stats\<lparr>st_macsec_rx := st_macsec_rx stats + 1\<rparr> else stats)"
    have room: "LINUX_TAP_FRAME_MAX \<le> length (replicate LINUX_TAP_FRAME_MAX (0::u8))" by simp
    show thesis
    proof (rule macsec_input_total [where rnd = rnd2, OF inv rnd room, of frame], goal_cases)
      case (1 ret c plain len pass)
      note i' = 1
      have run: "macsec_step\<^sup>*\<^sup>* ctx c" using macsec_step_input [where rnd = rnd2, OF rnd room i'(1)] by blast
      show thesis
      proof (cases "ret = MACSEC_ERR_OK \<and> pass")
        case False
        with r True i'(1) run show thesis
          by (intro that [of 0 c "if ret \<noteq> MACSEC_ERR_OK then stats1\<lparr>st_decrypt_errors := st_decrypt_errors stats1 + 1\<rparr> else stats1" "[]"])
             (auto simp: linux_tap_process_physical_def stats1_def Let_def)
      next
        case ok: True
        obtain w out where w: "linux_tap_write (take len plain) written = (w, out)" by (metis surj_pair)
        have passed: "macsec_input rnd2 ctx frame (replicate LINUX_TAP_FRAME_MAX 0) LINUX_TAP_FRAME_MAX = Some (ret, c, plain, len, True)"
          using i'(1) ok by simp
        have "linux_tap_output_ok rnd ctx i (Tap_written (take len plain)) c"
          unfolding linux_tap_output_ok_def
          by (rule exI [of _ ctx]) (use passed_is_authentic [where rnd = rnd2, OF inv mode rnd room passed] run p in \<open>auto simp: Let_def\<close>)
        then have fine: "\<forall>o' \<in> set out. linux_tap_output_ok rnd ctx i o' c" using tap_write_output [of _ "take len plain" written] w by auto
        show thesis
          using r True i'(1) ok w run fine
          by (intro that [of "if w < 0 then -1 else 0" c "if w < 0 then stats1 else if w = 0 then
                stats1\<lparr>st_tap_tx_dropped := st_tap_tx_dropped stats1 + 1\<rparr> else stats1\<lparr>st_tap_tx := st_tap_tx stats1 + 1\<rparr>" out])
             (simp_all add: linux_tap_process_physical_def stats1_def Let_def)
      qed
    qed
  qed
qed

lemma control_service_total:
  assumes inv: "macsec_inv ctx" and rnd: "length (rnd 16) = 16"
  obtains ret ctx' out where "linux_tap_macsec_control_service rnd ctx clock sent = Some (ret, ctx', out)"
    "macsec_step\<^sup>*\<^sup>* ctx ctx'" "\<forall>o' \<in> set out. linux_tap_output_ok rnd ctx i o' ctx'"
proof -
  let ?now = "linux_tap_get_time_ms clock"
  have room: "(512::nat) \<le> length (replicate 512 (0::u8))" by simp
  show thesis
  proof (rule macsec_tick_total [OF inv, of ?now], goal_cases)
    case (1 c1)
    note t = 1
    have r1: "macsec_step\<^sup>*\<^sup>* ctx c1" using macsec_step_tick [OF t(1)] by blast
    show thesis
    proof (rule macsec_build_total [where rnd = rnd, OF t(2) rnd room], goal_cases)
      case (1 bret c2 frame n)
      note b = 1
      have r2: "macsec_step c1 c2" by (rule macsec_step_build [where rnd = rnd, OF rnd room b(1)])
      show thesis
      proof (cases "bret = MACSEC_ERR_OK")
        case False
        with t(1) b(1) r1 r2 show thesis
          by (intro that [of "if bret = MACSEC_ERR_NOT_READY then 0 else -1" c2 "[]"])
             (auto simp: linux_tap_macsec_control_service_def Let_def)
      next
        case True
        obtain s out where s: "linux_raw_send (take n frame) sent = (s, out)" by (metis surj_pair)
        obtain nret c3 where n: "(if 0 < s then macsec_notify_control_tx_success c2 ?now else macsec_notify_control_tx_failure c2) = (nret, c3)"
          by (metis surj_pair)
        have r3: "macsec_step c2 c3"
          using n macsec_step_sent [of c2 ?now nret c3] macsec_step_not_sent [of c2 nret c3] by (auto split: if_splits)
        have run: "macsec_step\<^sup>*\<^sup>* c1 c3" "macsec_step\<^sup>*\<^sup>* ctx c3" using r1 r2 r3 by auto
        have "linux_tap_output_ok rnd ctx i (Raw_sent (take n frame)) c3"
          unfolding linux_tap_output_ok_def
          by (rule exI [of _ c1]) (use control_frame_is_mka [where rnd = rnd, OF t(2) rnd room b(1) [unfolded True]] r1 run(1) in simp)
        then have fine: "\<forall>o' \<in> set out. linux_tap_output_ok rnd ctx i o' c3" using raw_send_output [of _ "take n frame" sent] s by auto
        show thesis
          by (rule that [of "if nret \<noteq> MACSEC_ERR_OK \<or> s < 0 then -1 else 0" c3 out])
             (use t(1) b(1) True s n run(2) fine in \<open>auto simp: linux_tap_macsec_control_service_def Let_def split: if_splits\<close>)
      qed
    qed
  qed
qed

subsection \<open>Runs of the application\<close>

definition EXIT_SUCCESS :: int where "EXIT_SUCCESS = 0"
definition EXIT_FAILURE :: int where "EXIT_FAILURE = 1"

text \<open>
  The loop over the inputs of its iterations, with the random bytes at hand in each. The list ends when a
  signal has cleared \<open>linux_tap_running\<close>. The result is the exit code, the state, and a trace: for each
  iteration its input, the context of the stack before it, its output, and the context after it.
\<close>

type_synonym linux_tap_source = "(nat \<Rightarrow> bytes) \<times> (nat \<Rightarrow> bytes) \<times> linux_tap_input"

type_synonym linux_tap_trace = "(linux_tap_source \<times> macsec_ctx \<times> linux_tap_output list \<times> macsec_ctx) list"

fun linux_tap_main_loop ::
  "linux_tap_mode \<Rightarrow> linux_tap_source list \<Rightarrow> linux_tap_state \<Rightarrow> (int \<times> linux_tap_state \<times> linux_tap_trace) option" where
  "linux_tap_main_loop mode [] st = Some (EXIT_SUCCESS, st, [])"
| "linux_tap_main_loop mode ((rnd1, rnd2, i) # inputs) st = do {
     let before = lt_macsec st;
     (go_on, st, out) \<leftarrow> linux_tap_iteration mode rnd1 rnd2 i st;
     let entry = ((rnd1, rnd2, i), before, out, lt_macsec st);
     if \<not> go_on then Some (EXIT_FAILURE, st, [entry])
     else do {
       (exit_code, st, trace) \<leftarrow> linux_tap_main_loop mode inputs st;
       Some (exit_code, st, entry # trace)
     }
   }"

text \<open>
  A trace that begins with a context of the stack: every iteration starts where the one before ended, and goes from there to
  its end by calls of the stack that explain its output.
\<close>

fun linux_tap_trace_ok :: "macsec_ctx \<Rightarrow> linux_tap_trace \<Rightarrow> bool" where
  "linux_tap_trace_ok ctx [] \<longleftrightarrow> True"
| "linux_tap_trace_ok ctx (((rnd1, rnd2, i), before, out, after) # trace) \<longleftrightarrow>
     before = ctx \<and> macsec_step\<^sup>*\<^sup>* before after \<and> (\<forall>o' \<in> set out. linux_tap_output_ok rnd1 before i o' after) \<and>
     linux_tap_trace_ok after trace"

text \<open>The three parts of an iteration, each of which is made only under its condition.\<close>

lemma control_part:
  assumes inv: "macsec_inv ctx" and mode: "cf_mode (mx_cfg ctx) \<noteq> MACSEC_MODE_DISABLED" and rnd: "length (rnd 16) = 16"
  obtains r c out where "(if m = LINUX_TAP_MODE_MKA_PSK then linux_tap_macsec_control_service rnd ctx clock sent else Some (0, ctx, [])) = Some (r, c, out)"
    "macsec_step\<^sup>*\<^sup>* ctx c" "\<forall>o' \<in> set out. linux_tap_output_ok rnd ctx i o' c" "macsec_inv c" "cf_mode (mx_cfg c) \<noteq> MACSEC_MODE_DISABLED"
proof -
  obtain r c out where a: "(if m = LINUX_TAP_MODE_MKA_PSK then linux_tap_macsec_control_service rnd ctx clock sent else Some (0, ctx, [])) = Some (r, c, out)"
      "macsec_step\<^sup>*\<^sup>* ctx c" "\<forall>o' \<in> set out. linux_tap_output_ok rnd ctx i o' c"
  proof (cases "m = LINUX_TAP_MODE_MKA_PSK")
    case True
    show thesis by (rule control_service_total [where rnd = rnd and i = i, OF inv rnd, of clock sent], rule that) (use True in simp_all)
  next
    case False
    then show thesis by (intro that [of 0 ctx "[]"]) simp_all
  qed
  from that [OF a] path_keys [OF a(2) inv] mode show thesis by (simp add: macsec_keys_kept_def)
qed

lemma plain_part:
  assumes inv: "macsec_inv ctx" and mode: "cf_mode (mx_cfg ctx) \<noteq> MACSEC_MODE_DISABLED"
  obtains r c s out where "(if ready then linux_tap_process_plain ctx (in_tap i) sent stats else Some (0, ctx, stats, [])) = Some (r, c, s, out)"
    "macsec_step\<^sup>*\<^sup>* ctx c" "\<forall>o' \<in> set out. linux_tap_output_ok rnd ctx i o' c" "macsec_inv c" "cf_mode (mx_cfg c) \<noteq> MACSEC_MODE_DISABLED"
proof -
  obtain r c s out where a: "(if ready then linux_tap_process_plain ctx (in_tap i) sent stats else Some (0, ctx, stats, [])) = Some (r, c, s, out)"
      "macsec_step\<^sup>*\<^sup>* ctx c" "\<forall>o' \<in> set out. linux_tap_output_ok rnd ctx i o' c"
  proof (cases ready)
    case True
    show thesis by (rule process_plain_total [where i = i and rnd = rnd, OF inv mode, of sent stats], rule that) (use True in simp_all)
  next
    case False
    then show thesis by (intro that [of 0 ctx stats "[]"]) simp_all
  qed
  from that [OF a] path_keys [OF a(2) inv] mode show thesis by (simp add: macsec_keys_kept_def)
qed

lemma physical_part:
  assumes inv: "macsec_inv ctx" and mode: "cf_mode (mx_cfg ctx) \<noteq> MACSEC_MODE_DISABLED" and rnd: "length (rnd2 16) = 16"
  obtains r c s out where "(if ready then linux_tap_process_physical rnd2 ctx (in_raw i) written stats else Some (0, ctx, stats, [])) = Some (r, c, s, out)"
    "macsec_step\<^sup>*\<^sup>* ctx c" "\<forall>o' \<in> set out. linux_tap_output_ok rnd ctx i o' c"
proof (cases ready)
  case True
  show thesis
    by (rule process_physical_total [where ?rnd2.0 = rnd2 and i = i and rnd = rnd, OF inv mode rnd, of written stats], rule that) (use True in simp_all)
next
  case False
  then show thesis by (intro that [of 0 ctx stats "[]"]) simp_all
qed

lemma iteration_total:
  assumes inv: "macsec_inv (lt_macsec st)" and mode: "cf_mode (mx_cfg (lt_macsec st)) \<noteq> MACSEC_MODE_DISABLED"
    and rnd: "length (rnd1 16) = 16" "length (rnd2 16) = 16"
  obtains go_on st' out where "linux_tap_iteration m rnd1 rnd2 i st = Some (go_on, st', out)"
    "macsec_step\<^sup>*\<^sup>* (lt_macsec st) (lt_macsec st')" "\<forall>o' \<in> set out. linux_tap_output_ok rnd1 (lt_macsec st) i o' (lt_macsec st')"
proof (cases "in_poll i")
  case Sys_again
  show thesis by (rule that [of True st "[]"]) (simp_all add: Sys_again linux_tap_iteration_def)
next
  case Sys_error
  show thesis by (rule that [of False st "[]"]) (simp_all add: Sys_error linux_tap_iteration_def)
next
  case (Sys_done ready)
  let ?c0 = "lt_macsec st"
  obtain r1 c1 out1 where a: "(if m = LINUX_TAP_MODE_MKA_PSK then linux_tap_macsec_control_service rnd1 ?c0 (in_clock i) (in_control_sent i)
      else Some (0, ?c0, [])) = Some (r1, c1, out1)" "macsec_step\<^sup>*\<^sup>* ?c0 c1" "\<forall>o' \<in> set out1. linux_tap_output_ok rnd1 ?c0 i o' c1"
      and c1: "macsec_inv c1" "cf_mode (mx_cfg c1) \<noteq> MACSEC_MODE_DISABLED"
    by (rule control_part [where rnd = rnd1 and i = i, OF inv mode rnd(1)])
  obtain r2 c2 s2 out2 where b: "(if in_tap_revents i AND POLLIN \<noteq> 0 then linux_tap_process_plain c1 (in_tap i) (in_data_sent i) (lt_stats st)
      else Some (0, c1, lt_stats st, [])) = Some (r2, c2, s2, out2)" "macsec_step\<^sup>*\<^sup>* c1 c2" "\<forall>o' \<in> set out2. linux_tap_output_ok rnd1 c1 i o' c2"
      and c2: "macsec_inv c2" "cf_mode (mx_cfg c2) \<noteq> MACSEC_MODE_DISABLED"
    by (rule plain_part [where rnd = rnd1 and i = i, OF c1])
  obtain r3 c3 s3 out3 where c: "(if in_raw_revents i AND POLLIN \<noteq> 0 then linux_tap_process_physical rnd2 c2 (in_raw i) (in_written i) s2
      else Some (0, c2, s2, [])) = Some (r3, c3, s3, out3)" "macsec_step\<^sup>*\<^sup>* c2 c3" "\<forall>o' \<in> set out3. linux_tap_output_ok rnd1 c2 i o' c3"
    by (rule physical_part [where ?rnd2.0 = rnd2 and rnd = rnd1 and i = i, OF c2 rnd(2)])
  have path: "macsec_step\<^sup>*\<^sup>* ?c0 c2" "macsec_step\<^sup>*\<^sup>* ?c0 c3" "macsec_step\<^sup>*\<^sup>* c1 c3" using a(2) b(2) c(2) by auto
  have o2: "\<forall>o' \<in> set (out1 @ out2). linux_tap_output_ok rnd1 ?c0 i o' c2"
    using a(3) b(3) output_ok_wider [of ?c0 ?c0 c1 c2] output_ok_wider [of ?c0 c1 c2 c2] a(2) b(2) by auto
  have o3: "\<forall>o' \<in> set (out1 @ out2 @ out3). linux_tap_output_ok rnd1 ?c0 i o' c3"
    using o2 c(3) output_ok_wider [of ?c0 ?c0 c2 c3] output_ok_wider [of ?c0 c2 c3 c3] c(2) path(1) by auto
  define early where "early \<longleftrightarrow> r1 < 0 \<or> ready = 0 \<or> in_tap_revents i AND POLL_FAILED \<noteq> 0 \<or> in_raw_revents i AND POLL_FAILED \<noteq> 0"
  show thesis
  proof (cases early)
    case True
    show thesis
      by (rule that [of "\<not> r1 < 0 \<and> ready = 0" "st\<lparr>lt_macsec := c1\<rparr>" out1])
         (use True Sys_done a in \<open>auto simp: linux_tap_iteration_def early_def Let_def\<close>)
  next
    case False
    show thesis
      by (rule that [of "\<not> r2 < 0 \<and> \<not> r3 < 0" "if r2 < 0 then st\<lparr>lt_macsec := c2, lt_stats := s2\<rparr> else st\<lparr>lt_macsec := c3, lt_stats := s3\<rparr>"
            "if r2 < 0 then out1 @ out2 else out1 @ out2 @ out3"])
         (use False Sys_done a(1) b(1) c(1) path o2 o3 in \<open>auto simp: linux_tap_iteration_def early_def Let_def\<close>)
  qed
qed

lemma main_loop_total:
  assumes "macsec_inv (lt_macsec st)" "cf_mode (mx_cfg (lt_macsec st)) \<noteq> MACSEC_MODE_DISABLED"
    and "\<forall>(rnd1, rnd2, i) \<in> set inputs. length (rnd1 16) = 16 \<and> length (rnd2 16) = 16"
  shows "\<exists>exit_code st' trace. linux_tap_main_loop m inputs st = Some (exit_code, st', trace) \<and>
    (exit_code = EXIT_SUCCESS \<longrightarrow> map fst trace = inputs) \<and> linux_tap_trace_ok (lt_macsec st) trace"
  using assms
proof (induction inputs arbitrary: st)
  case Nil
  then show ?case by simp
next
  case (Cons input inputs)
  obtain rnd1 rnd2 i where i: "input = (rnd1, rnd2, i)" "length (rnd1 16) = 16" "length (rnd2 16) = 16" using Cons.prems(3) by (cases input) simp
  show ?case
  proof (rule iteration_total [where ?rnd1.0 = rnd1 and ?rnd2.0 = rnd2 and m = m and i = i, OF Cons.prems(1,2) i(2,3)], goal_cases)
    case (1 go_on st1 out)
    have "macsec_inv (lt_macsec st1)" "cf_mode (mx_cfg (lt_macsec st1)) \<noteq> MACSEC_MODE_DISABLED"
      using path_keys [OF 1(2) Cons.prems(1)] Cons.prems(2) by (simp_all add: macsec_keys_kept_def)
    from Cons.IH [OF this] Cons.prems(3) obtain code st2 trace where "linux_tap_main_loop m inputs st1 = Some (code, st2, trace)"
        "code = EXIT_SUCCESS \<longrightarrow> map fst trace = inputs" "linux_tap_trace_ok (lt_macsec st1) trace" by auto
    with 1 i(1) show ?case by (cases go_on) (simp_all add: EXIT_SUCCESS_def EXIT_FAILURE_def)
  qed
qed

text \<open>
  From any accepted configuration, whatever the network, the TAP device and the system calls deliver, the
  loop never panics, every context it goes through is keyed as configured, and every output is explained by the context
  it comes from. The exit code is \<open>EXIT_SUCCESS\<close> only when every iteration until the signal was made.
\<close>

lemma linux_tap_confidential:
  assumes config: "linux_tap_configure path content read_error = (0, config)" and mac: "length mac = 6" and rnd: "length (rnd 12) = 12"
    and random: "\<forall>(rnd1, rnd2, i) \<in> set inputs. length (rnd1 16) = 16 \<and> length (rnd2 16) = 16"
  obtains keys ctx exit_code st trace where "configured_keys path content = Some keys" "tap_keys_ok keys" "config_holds keys config"
    "linux_tap_init_macsec rnd mac config = (MACSEC_ERR_OK, ctx)" "\<forall>ctx'. macsec_step\<^sup>*\<^sup>* ctx ctx' \<longrightarrow> tap_keyed keys mac ctx'"
    "linux_tap_main_loop (lc_mode config) inputs \<lparr>lt_macsec = ctx, lt_stats = linux_tap_stats_zero\<rparr> = Some (exit_code, st, trace)"
    "exit_code = EXIT_SUCCESS \<longrightarrow> map fst trace = inputs" "linux_tap_trace_ok ctx trace"
proof -
  obtain keys ctx where k: "configured_keys path content = Some keys" "tap_keys_ok keys" "config_holds keys config"
      "linux_tap_init_macsec rnd mac config = (MACSEC_ERR_OK, ctx)" "macsec_reachable ctx" "tap_keyed keys mac ctx"
    by (rule init_keyed [where rnd = rnd, OF config mac rnd])
  have "cf_mode (mx_cfg ctx) \<noteq> MACSEC_MODE_DISABLED"
    using k(6) by (cases keys) (simp_all add: MACSEC_MODE_DISABLED_def MACSEC_MODE_STATIC_SAK_def MACSEC_MODE_MKA_PSK_def)
  with main_loop_total [of "\<lparr>lt_macsec = ctx, lt_stats = linux_tap_stats_zero\<rparr>" inputs "lc_mode config"] macsec.reach_inv [OF k(5)] random
  obtain code st trace where "linux_tap_main_loop (lc_mode config) inputs \<lparr>lt_macsec = ctx, lt_stats = linux_tap_stats_zero\<rparr> = Some (code, st, trace)"
      "code = EXIT_SUCCESS \<longrightarrow> map fst trace = inputs" "linux_tap_trace_ok ctx trace" by auto
  with k(1-4) keyed_path [OF k(5,6)] show thesis by (intro that) blast+
qed

end
