(* ===== verification/LinuxTapMain.thy ===== *)
theory LinuxTapMain
  imports LinuxTap
begin

text \<open>
  The Linux TAP application from its arguments to its exit code: the signal handlers, the packet socket
  (\<open>raw_socket.c\<close>), the TAP device (\<open>tap.c\<close>) and \<open>main\<close> of \<open>main.c\<close> with its clean-up. What the kernel
  answers is a record that the definitions take; what it is asked for is a list of calls, so that it can
  be said which descriptors are open after each of them. The data path and the loop are in \<open>LinuxTap\<close>.
\<close>

subsection \<open>Calls to the kernel\<close>

text \<open>The calls that set the devices up, each with the descriptor it goes through.\<close>

datatype linux_call =
    Descriptor_opened int
  | Descriptor_closed int
  | Interface_queried int string
  | Outgoing_ignored int
  | Socket_bound int u32
  | Tun_attached int string u16
  | Mac_assigned int string bytes
  | Mtu_assigned int string int
  | Flags_assigned int string u16

text \<open>\<open>setsockopt\<close> can fail because the kernel does not know the option (\<open>ENOPROTOOPT\<close>).\<close>

datatype sockopt_result = Option_set | Option_unknown | Option_failed

text \<open>
  The answers of the kernel, in the order of the calls. Descriptors are negative when the call failed; the
  results of \<open>ioctl\<close> that only have a status are kept as they are, the others are \<open>None\<close> on failure.
\<close>

record linux_kernel =
  k_sigemptyset :: int
  k_sigint :: int
  k_sigterm :: int
  k_raw_socket :: int
  k_raw_ifindex :: "u32 option"
  k_raw_hwaddr :: "bytes option"
  k_ignore_outgoing :: sockopt_result
  k_bind :: int
  k_tun :: int
  k_tun_name :: "string option"
  k_mac_socket :: int
  k_set_mac :: int
  k_mtu_socket :: int
  k_set_mtu :: int
  k_up_socket :: int
  k_get_flags :: "u16 option"
  k_set_flags :: int

definition IFNAMSIZ :: nat where "IFNAMSIZ = 16"
definition LINUX_TAP_NAME_MAX :: nat where "LINUX_TAP_NAME_MAX = 16"
definition LINUX_TAP_PHYSICAL_MTU :: int where "LINUX_TAP_PHYSICAL_MTU = 1500"
definition LINUX_TAP_MACSEC_OVERHEAD :: int where "LINUX_TAP_MACSEC_OVERHEAD = 32"
definition LINUX_TAP_MTU :: int where "LINUX_TAP_MTU = LINUX_TAP_PHYSICAL_MTU - LINUX_TAP_MACSEC_OVERHEAD"

definition linux_tap_install_signal_handlers :: "linux_kernel \<Rightarrow> int" where
  "linux_tap_install_signal_handlers k =
     (if k_sigemptyset k < 0 then -1
      else if k_sigint k < 0 then -1
      else if k_sigterm k < 0 then -1
      else 0)"

subsection \<open>The packet socket\<close>

record linux_raw_socket =
  raw_fd :: int
  raw_ifindex :: u32
  raw_mac :: bytes

definition linux_raw_closed :: linux_raw_socket where
  "linux_raw_closed = \<lparr>raw_fd = -1, raw_ifindex = 0, raw_mac = replicate 6 0\<rparr>"

definition linux_raw_get_interface ::
  "linux_kernel \<Rightarrow> int \<Rightarrow> string \<Rightarrow> linux_raw_socket \<Rightarrow> int \<times> linux_raw_socket \<times> linux_call list" where
  "linux_raw_get_interface k fd ifname raw =
     (if length ifname \<ge> IFNAMSIZ then (-1, raw, [])
      else case k_raw_ifindex k of
        None \<Rightarrow> (-1, raw, [Interface_queried fd ifname])
      | Some ifindex \<Rightarrow>
          let raw = raw\<lparr>raw_ifindex := ifindex\<rparr>
          in case k_raw_hwaddr k of
               None \<Rightarrow> (-1, raw, [Interface_queried fd ifname, Interface_queried fd ifname])
             | Some sa_data \<Rightarrow>
                 (0, raw\<lparr>raw_mac := take 6 sa_data\<rparr>, [Interface_queried fd ifname, Interface_queried fd ifname]))"

text \<open>\<open>PACKET_IGNORE_OUTGOING\<close> is taken to be defined, as it is since Linux 4.20.\<close>

definition linux_raw_open :: "linux_kernel \<Rightarrow> string \<Rightarrow> int \<times> linux_raw_socket \<times> linux_call list" where
  "linux_raw_open k ifname =
     (let raw = linux_raw_closed; fd = k_raw_socket k in
      if fd < 0 then (-1, raw, [])
      else
        let (ret, raw, queries) = linux_raw_get_interface k fd ifname raw;
            calls = Descriptor_opened fd # queries
        in if ret < 0 then (-1, raw, calls @ [Descriptor_closed fd])
           else
             let calls = calls @ [Outgoing_ignored fd]
             in if k_ignore_outgoing k = Option_failed then (-1, raw, calls @ [Descriptor_closed fd])
                else
                  let calls = calls @ [Socket_bound fd (raw_ifindex raw)]
                  in if k_bind k < 0 then (-1, raw, calls @ [Descriptor_closed fd])
                     else (0, raw\<lparr>raw_fd := fd\<rparr>, calls))"

definition linux_raw_close :: "linux_raw_socket \<Rightarrow> linux_raw_socket \<times> linux_call list" where
  "linux_raw_close raw = (linux_raw_closed, if raw_fd raw \<ge> 0 then [Descriptor_closed (raw_fd raw)] else [])"

subsection \<open>The TAP device\<close>

text \<open>The name in a request, or \<open>None\<close> when it does not fit.\<close>

definition linux_tap_copy_name :: "string \<Rightarrow> string option" where
  "linux_tap_copy_name name = (if length name \<ge> IFNAMSIZ then None else Some name)"

definition IFF_TAP :: u16 where "IFF_TAP = 0x0002"
definition IFF_NO_PI :: u16 where "IFF_NO_PI = 0x1000"
definition IFF_UP :: u16 where "IFF_UP = 0x1"
definition IFF_RUNNING :: u16 where "IFF_RUNNING = 0x40"

text \<open>The result is the descriptor and the name the kernel gave to the device; the empty name lets it choose.\<close>

definition linux_tap_open :: "linux_kernel \<Rightarrow> string \<Rightarrow> nat \<Rightarrow> int \<times> string \<times> linux_call list" where
  "linux_tap_open k name name_size =
     (if name_size = 0 then (-1, name, [])
      else if length name \<ge> IFNAMSIZ then (-1, name, [])
      else
        let fd = k_tun k in
        if fd < 0 then (-1, name, [])
        else
          let calls = [Descriptor_opened fd, Tun_attached fd name (IFF_TAP OR IFF_NO_PI)]
          in case k_tun_name k of
               None \<Rightarrow> (-1, name, calls @ [Descriptor_closed fd])
             | Some ifr_name \<Rightarrow>
                 if length ifr_name + 1 > name_size then (-1, name, calls @ [Descriptor_closed fd])
                 else (fd, ifr_name, calls))"

definition linux_tap_set_mac :: "linux_kernel \<Rightarrow> string \<Rightarrow> bytes \<Rightarrow> int \<times> linux_call list" where
  "linux_tap_set_mac k name mac =
     (let fd = k_mac_socket k in
      if fd < 0 then (-1, [])
      else case linux_tap_copy_name name of
        None \<Rightarrow> (-1, [Descriptor_opened fd, Descriptor_closed fd])
      | Some ifr_name \<Rightarrow>
          (k_set_mac k, [Descriptor_opened fd, Mac_assigned fd ifr_name (take 6 mac), Descriptor_closed fd]))"

definition linux_tap_set_mtu :: "linux_kernel \<Rightarrow> string \<Rightarrow> int \<Rightarrow> int \<times> linux_call list" where
  "linux_tap_set_mtu k name mtu =
     (if mtu \<le> 0 then (-1, [])
      else
        let fd = k_mtu_socket k in
        if fd < 0 then (-1, [])
        else case linux_tap_copy_name name of
          None \<Rightarrow> (-1, [Descriptor_opened fd, Descriptor_closed fd])
        | Some ifr_name \<Rightarrow>
            (k_set_mtu k, [Descriptor_opened fd, Mtu_assigned fd ifr_name mtu, Descriptor_closed fd]))"

definition linux_tap_set_up :: "linux_kernel \<Rightarrow> string \<Rightarrow> int \<times> linux_call list" where
  "linux_tap_set_up k name =
     (let fd = k_up_socket k in
      if fd < 0 then (-1, [])
      else case linux_tap_copy_name name of
        None \<Rightarrow> (-1, [Descriptor_opened fd, Descriptor_closed fd])
      | Some ifr_name \<Rightarrow>
          case k_get_flags k of
            None \<Rightarrow> (-1, [Descriptor_opened fd, Interface_queried fd ifr_name, Descriptor_closed fd])
          | Some flags \<Rightarrow>
              (k_set_flags k, [Descriptor_opened fd, Interface_queried fd ifr_name,
                 Flags_assigned fd ifr_name (flags OR IFF_UP OR IFF_RUNNING), Descriptor_closed fd]))"

subsection \<open>The main function\<close>

text \<open>The arguments: the physical interface, the name of the TAP device and the configuration.\<close>

definition linux_tap_arguments :: "string list \<Rightarrow> (string \<times> string \<times> string) option" where
  "linux_tap_arguments argv =
     (if length argv < 2 \<or> length argv > 4 then None
      else if length argv \<ge> 3 \<and> length (argv ! 2) \<ge> LINUX_TAP_NAME_MAX then None
      else Some (argv ! 1, if length argv \<ge> 3 then argv ! 2 else ''tap0'',
                 if length argv \<ge> 4 then argv ! 3 else ''linux_tap.conf''))"

text \<open>
  The calls between the configuration and the initialization of the stack. The flag says whether all
  succeeded; otherwise \<open>main\<close> goes to its clean-up, with the descriptors that are open by then.
\<close>

definition linux_tap_devices ::
  "linux_kernel \<Rightarrow> string \<Rightarrow> string \<Rightarrow> bool \<times> linux_raw_socket \<times> int \<times> linux_call list" where
  "linux_tap_devices k physical_name tap_name =
     (if linux_tap_install_signal_handlers k < 0 then (False, linux_raw_closed, -1, [])
      else
        let (ret, raw, calls1) = linux_raw_open k physical_name in
        if ret < 0 then (False, raw, -1, calls1)
        else
          let (tap_fd, tap_name, calls2) = linux_tap_open k tap_name LINUX_TAP_NAME_MAX in
          if tap_fd < 0 then (False, raw, tap_fd, calls1 @ calls2)
          else
            let (ret, calls3) = linux_tap_set_mac k tap_name (raw_mac raw) in
            if ret < 0 then (False, raw, tap_fd, calls1 @ calls2 @ calls3)
            else
              let (ret, calls4) = linux_tap_set_mtu k tap_name LINUX_TAP_MTU in
              if ret < 0 then (False, raw, tap_fd, calls1 @ calls2 @ calls3 @ calls4)
              else
                let (ret, calls5) = linux_tap_set_up k tap_name in
                (\<not> ret < 0, raw, tap_fd, calls1 @ calls2 @ calls3 @ calls4 @ calls5))"

definition linux_tap_cleanup ::
  "linux_raw_socket \<Rightarrow> int \<Rightarrow> bool \<Rightarrow> macsec_ctx \<Rightarrow> macsec_ctx \<times> linux_call list" where
  "linux_tap_cleanup raw tap_fd macsec_initialized macsec =
     (if macsec_initialized then macsec_clear macsec else macsec,
      (if tap_fd \<ge> 0 then [Descriptor_closed tap_fd] else []) @ snd (linux_raw_close raw))"

text \<open>
  The result is the exit code, what the variables \<open>config\<close> and \<open>macsec\<close> hold at exit, the calls, and the trace of the
  loop. The list of inputs ends when a signal has cleared \<open>linux_tap_running\<close>.
\<close>

definition linux_tap_main ::
  "string list \<Rightarrow> string option \<Rightarrow> bool \<Rightarrow> linux_kernel \<Rightarrow> (nat \<Rightarrow> bytes) \<Rightarrow> linux_tap_source list \<Rightarrow>
     (int \<times> linux_tap_config \<times> macsec_ctx \<times> linux_call list \<times> linux_tap_trace) option" where
  "linux_tap_main argv content read_error k rnd inputs =
     (case linux_tap_arguments argv of
        None \<Rightarrow> Some (EXIT_FAILURE, linux_tap_config_zero, macsec_ctx_zero, [], [])
      | Some (physical_name, tap_name, config_path) \<Rightarrow>
          let (ret, config) = linux_tap_configure config_path content read_error in
          if ret < 0 then Some (EXIT_FAILURE, config, macsec_ctx_zero, [], [])
          else
            let (devices_ok, raw, tap_fd, calls) = linux_tap_devices k physical_name tap_name in
            if \<not> devices_ok then
              let (macsec, closing) = linux_tap_cleanup raw tap_fd False macsec_ctx_zero
              in Some (EXIT_FAILURE, config, macsec, calls @ closing, [])
            else
              let (ret, macsec) = linux_tap_init_macsec rnd (raw_mac raw) config in
              if ret \<noteq> MACSEC_ERR_OK then
                let (macsec, closing) = linux_tap_cleanup raw tap_fd False macsec
                in Some (EXIT_FAILURE, config, macsec, calls @ closing, [])
              else do {
                (exit_code, st, trace) \<leftarrow>
                  linux_tap_main_loop (lc_mode config) inputs \<lparr>lt_macsec = macsec, lt_stats = linux_tap_stats_zero\<rparr>;
                let (macsec, closing) = linux_tap_cleanup raw tap_fd True (lt_macsec st);
                Some (exit_code, config, macsec, calls @ closing, trace)
              })"
subsection \<open>Descriptors\<close>

text \<open>
  The descriptors that are open after a sequence of calls, or \<open>None\<close> when a call goes through one that
  is not open, or opens one that is.
\<close>

fun descriptors_after :: "int set \<Rightarrow> linux_call list \<Rightarrow> int set option" where
  "descriptors_after held [] = Some held"
| "descriptors_after held (Descriptor_opened fd # calls) =
     (if fd \<in> held then None else descriptors_after (insert fd held) calls)"
| "descriptors_after held (Descriptor_closed fd # calls) =
     (if fd \<in> held then descriptors_after (held - {fd}) calls else None)"
| "descriptors_after held (Interface_queried fd ifname # calls) = (if fd \<in> held then descriptors_after held calls else None)"
| "descriptors_after held (Outgoing_ignored fd # calls) = (if fd \<in> held then descriptors_after held calls else None)"
| "descriptors_after held (Socket_bound fd ifindex # calls) = (if fd \<in> held then descriptors_after held calls else None)"
| "descriptors_after held (Tun_attached fd ifname flags # calls) = (if fd \<in> held then descriptors_after held calls else None)"
| "descriptors_after held (Mac_assigned fd ifname mac # calls) = (if fd \<in> held then descriptors_after held calls else None)"
| "descriptors_after held (Mtu_assigned fd ifname mtu # calls) = (if fd \<in> held then descriptors_after held calls else None)"
| "descriptors_after held (Flags_assigned fd ifname flags # calls) = (if fd \<in> held then descriptors_after held calls else None)"

lemma descriptors_append:
  "descriptors_after held (calls @ rest) = Option.bind (descriptors_after held calls) (\<lambda>held. descriptors_after held rest)"
  by (induction held calls rule: descriptors_after.induct) simp_all

text \<open>
  What the kernel promises: a descriptor it returns is not one that is open, and a hardware address
  is the 14 bytes of \<open>sa_data\<close>.
\<close>

definition linux_kernel_ok :: "linux_kernel \<Rightarrow> bool" where
  "linux_kernel_ok k \<longleftrightarrow>
     k_raw_socket k \<notin> {k_tun k, k_mac_socket k, k_mtu_socket k, k_up_socket k} \<and>
     k_tun k \<notin> {k_mac_socket k, k_mtu_socket k, k_up_socket k} \<and>
     (case k_raw_hwaddr k of None \<Rightarrow> True | Some sa_data \<Rightarrow> length sa_data = 14)"

lemma raw_open_cases:
  assumes "linux_raw_open k ifname = (ret, raw, calls)"
  obtains (failed) "ret < 0" "raw_fd raw = -1" "descriptors_after {} calls = Some {}"
    | (opened) sa_data where "ret = 0" "raw_fd raw = k_raw_socket k" "0 \<le> raw_fd raw" "descriptors_after {} calls = Some {raw_fd raw}"
        "k_raw_hwaddr k = Some sa_data" "raw_mac raw = take 6 sa_data" "Socket_bound (raw_fd raw) (raw_ifindex raw) \<in> set calls"
        "k_raw_ifindex k = Some (raw_ifindex raw)"
  using assms
  by (auto simp: linux_raw_open_def linux_raw_get_interface_def linux_raw_closed_def Let_def
      split: if_splits option.splits)

lemma tap_open_cases:
  assumes "linux_tap_open k name capacity = (fd, name', calls)" "k_tun k \<notin> held"
  obtains (failed) "fd = -1" "descriptors_after held calls = Some held"
    | (opened) "fd = k_tun k" "0 \<le> fd" "k_tun_name k = Some name'" "length name' < capacity"
        "descriptors_after held calls = Some (insert fd held)" "Tun_attached fd name (IFF_TAP OR IFF_NO_PI) \<in> set calls"
  using assms by (auto simp: linux_tap_open_def Let_def split: if_splits option.splits)

lemma tap_set_keeps:
  "k_mac_socket k \<notin> held \<Longrightarrow> descriptors_after held (snd (linux_tap_set_mac k name mac)) = Some held"
  "k_mtu_socket k \<notin> held \<Longrightarrow> descriptors_after held (snd (linux_tap_set_mtu k name mtu)) = Some held"
  "k_up_socket k \<notin> held \<Longrightarrow> descriptors_after held (snd (linux_tap_set_up k name)) = Some held"
  by (auto simp: linux_tap_set_mac_def linux_tap_set_mtu_def linux_tap_set_up_def linux_tap_copy_name_def Let_def
      split: option.splits)

text \<open>A status that is not negative means that the request was made.\<close>

lemma tap_set_done:
  "linux_tap_set_mac k name mac = (ret, calls) \<Longrightarrow> \<not> ret < 0 \<Longrightarrow> \<exists>fd. Mac_assigned fd name (take 6 mac) \<in> set calls"
  "linux_tap_set_mtu k name mtu = (ret, calls) \<Longrightarrow> \<not> ret < 0 \<Longrightarrow> \<exists>fd. Mtu_assigned fd name mtu \<in> set calls"
  "linux_tap_set_up k name = (ret, calls) \<Longrightarrow> \<not> ret < 0 \<Longrightarrow>
     \<exists>fd flags. k_get_flags k = Some flags \<and> Flags_assigned fd name (flags OR IFF_UP OR IFF_RUNNING) \<in> set calls"
  by (auto simp: linux_tap_set_mac_def linux_tap_set_mtu_def linux_tap_set_up_def linux_tap_copy_name_def Let_def
      split: option.splits if_splits)

text \<open>Exactly the descriptors that \<open>main\<close> knows are open after the devices have been set up, or have not.\<close>

definition main_descriptors :: "linux_raw_socket \<Rightarrow> int \<Rightarrow> int set" where
  "main_descriptors raw tap_fd = (if 0 \<le> raw_fd raw then {raw_fd raw} else {}) \<union> (if 0 \<le> tap_fd then {tap_fd} else {})"

lemma devices_descriptors:
  assumes "linux_tap_devices k physical tap = (ok, raw, tap_fd, calls)" "linux_kernel_ok k"
  shows "descriptors_after {} calls = Some (main_descriptors raw tap_fd) \<and> (0 \<le> raw_fd raw \<longrightarrow> raw_fd raw \<noteq> tap_fd)"
proof (cases "linux_tap_install_signal_handlers k < 0")
  case True
  with assms show ?thesis by (auto simp: linux_tap_devices_def linux_raw_closed_def main_descriptors_def)
next
  case False
  obtain r1 raw1 calls1 where a: "linux_raw_open k physical = (r1, raw1, calls1)" by (metis surj_pair)
  obtain fd name calls2 where b: "linux_tap_open k tap LINUX_TAP_NAME_MAX = (fd, name, calls2)" by (metis surj_pair)
  obtain r3 calls3 where c: "linux_tap_set_mac k name (raw_mac raw1) = (r3, calls3)" by (metis surj_pair)
  obtain r4 calls4 where d: "linux_tap_set_mtu k name LINUX_TAP_MTU = (r4, calls4)" by (metis surj_pair)
  obtain r5 calls5 where e: "linux_tap_set_up k name = (r5, calls5)" by (metis surj_pair)
  have k: "k_raw_socket k \<notin> {k_tun k, k_mac_socket k, k_mtu_socket k, k_up_socket k}" "k_tun k \<notin> {k_mac_socket k, k_mtu_socket k, k_up_socket k}"
    using assms(2) by (simp_all add: linux_kernel_ok_def)
  show ?thesis
  proof (cases rule: raw_open_cases [OF a, case_names failed opened])
    case failed
    with assms(1) False a show ?thesis by (auto simp: linux_tap_devices_def main_descriptors_def)
  next
    case (opened sa_data)
    have tun: "k_tun k \<notin> {raw_fd raw1}" using k opened by auto
    show ?thesis
    proof (cases rule: tap_open_cases [OF b tun, case_names failed opened])
      case failed
      with assms(1) False a b opened show ?thesis
        by (auto simp: linux_tap_devices_def main_descriptors_def descriptors_append)
    next
      case o': opened
      have "descriptors_after (insert fd {raw_fd raw1}) calls3 = Some (insert fd {raw_fd raw1})"
          "descriptors_after (insert fd {raw_fd raw1}) calls4 = Some (insert fd {raw_fd raw1})"
          "descriptors_after (insert fd {raw_fd raw1}) calls5 = Some (insert fd {raw_fd raw1})"
        using tap_set_keeps [of k "insert fd {raw_fd raw1}" name] c d e k opened(2) o'(1)
        by (metis insertE singletonD insertCI snd_conv)+
      with assms(1) False a b c d e opened o' k show ?thesis
        by (auto simp: linux_tap_devices_def main_descriptors_def descriptors_append split: if_splits)
    qed
  qed
qed

lemma cleanup_descriptors:
  assumes "0 \<le> raw_fd raw \<longrightarrow> raw_fd raw \<noteq> tap_fd" "descriptors_after {} calls = Some (main_descriptors raw tap_fd)"
  shows "descriptors_after {} (calls @ snd (linux_tap_cleanup raw tap_fd initialized macsec)) = Some {}"
  using assms by (auto simp: linux_tap_cleanup_def linux_raw_close_def main_descriptors_def descriptors_append)

subsection \<open>The whole application\<close>

text \<open>
  The requests that make the TAP device stand in for the interface: the socket is bound to the
  interface, and the device has its hardware address, the reduced MTU and is up.
\<close>

definition tap_stands_in :: "linux_kernel \<Rightarrow> linux_call list \<Rightarrow> bool" where
  "tap_stands_in k calls \<longleftrightarrow>
     (\<exists>ifindex sa_data name flags. k_raw_ifindex k = Some ifindex \<and> k_raw_hwaddr k = Some sa_data \<and> k_tun_name k = Some name \<and>
        k_get_flags k = Some flags \<and> Socket_bound (k_raw_socket k) ifindex \<in> set calls \<and>
        (\<exists>fd. Mac_assigned fd name (take 6 sa_data) \<in> set calls) \<and> (\<exists>fd. Mtu_assigned fd name 1468 \<in> set calls) \<and>
        (\<exists>fd. Flags_assigned fd name (flags OR IFF_UP OR IFF_RUNNING) \<in> set calls))"

lemma devices_ready:
  assumes "linux_tap_devices k physical tap = (True, raw, tap_fd, calls)"
  shows "tap_stands_in k calls \<and> (\<exists>sa_data. k_raw_hwaddr k = Some sa_data \<and> raw_mac raw = take 6 sa_data)"
proof -
  obtain r1 raw1 calls1 where a: "linux_raw_open k physical = (r1, raw1, calls1)" by (metis surj_pair)
  obtain fd name calls2 where b: "linux_tap_open k tap LINUX_TAP_NAME_MAX = (fd, name, calls2)" by (metis surj_pair)
  obtain r3 calls3 where c: "linux_tap_set_mac k name (raw_mac raw1) = (r3, calls3)" by (metis surj_pair)
  obtain r4 calls4 where d: "linux_tap_set_mtu k name LINUX_TAP_MTU = (r4, calls4)" by (metis surj_pair)
  obtain r5 calls5 where e: "linux_tap_set_up k name = (r5, calls5)" by (metis surj_pair)
  have r: "\<not> r1 < 0" "\<not> fd < 0" "\<not> r3 < 0" "\<not> r4 < 0" "\<not> r5 < 0" "raw = raw1" "calls = calls1 @ calls2 @ calls3 @ calls4 @ calls5"
    using assms a b c d e by (auto simp: linux_tap_devices_def split: if_splits)
  show ?thesis
  proof (cases rule: raw_open_cases [OF a, case_names failed opened])
    case failed
    with r show ?thesis by simp
  next
    case (opened sa_data)
    have "k_tun_name k = Some name"
      using tap_open_cases [OF b, of "{}"] r(2) by (metis empty_iff neg_less_0_iff_less zero_less_one)
    with opened r(6,7) tap_set_done(1) [OF c r(3)] tap_set_done(2) [OF d r(4)] tap_set_done(3) [OF e r(5)] show ?thesis
      by (auto simp: tap_stands_in_def LINUX_TAP_MTU_def LINUX_TAP_PHYSICAL_MTU_def LINUX_TAP_MACSEC_OVERHEAD_def)
  qed
qed

lemma configure_ret: "linux_tap_configure path content read_error = (ret, config) \<Longrightarrow> \<not> ret < 0 \<Longrightarrow> ret = 0"
  by (auto simp: linux_tap_configure_def linux_tap_parse_static_sak_def linux_tap_load_config_def Let_def
      split: if_splits option.splits prod.splits)

text \<open>With that MTU a protected frame fits the physical interface.\<close>

lemma tap_mtu_fits:
  assumes "12 \<le> length plain" "length sci = 8" "int (length plain) \<le> LINUX_TAP_MTU + int ETH_HLEN"
  shows "int (length (frame_seal sak sci plain)) \<le> LINUX_TAP_PHYSICAL_MTU + int ETH_HLEN"
  using assms by (simp add: length_frame_seal LINUX_TAP_MTU_def LINUX_TAP_MACSEC_OVERHEAD_def)

lemma arguments_path:
  "linux_tap_arguments argv = Some (physical, tap, path) \<Longrightarrow> path = (if length argv \<ge> 4 then argv ! 3 else ''linux_tap.conf'')"
  by (auto simp: linux_tap_arguments_def split: if_splits)

text \<open>
  C38. Whatever the arguments, the configuration, the answers of the kernel and the traffic are, the
  application ends without a panic, every descriptor it opened is closed exactly once and used only while it is
  open, and the context of the stack is all zero at exit. An exit with success means that every
  iteration until the signal was made. The loop runs only when the TAP device stands in for the interface
  and the configuration is accepted; then it is confined to the configured keys. The stack starts from a context \<open>ctx\<close> for the MAC
  address of the interface, every context that it can reach from there is keyed with the CAK and CKN of the file, or with the static
  SAK of the argument (\<open>tap_keyed\<close>), and each iteration goes on from the context that the one before left. Each frame that
  it hands to the network is the MKPDU of the participant in a context that the iteration goes through, or the
  frame read from the TAP device sealed under the valid transmit SAK and the SCI of such a context, when it is secured;
  each frame that it hands to the TAP device is a received one that opens under the valid receive SAK of its association
  number in such a context, when it is secured. The erased context is not the only place of the keys: \<open>main\<close> does not erase
  \<open>config\<close>, which still holds them at exit (\<open>config_holds\<close>).
\<close>

theorem linux_tap_main_confined:
  assumes kernel: "linux_kernel_ok k" and random: "length (rnd 12) = 12" "\<forall>(rnd1, rnd2, i) \<in> set inputs. length (rnd1 16) = 16 \<and> length (rnd2 16) = 16"
  shows "\<exists>exit_code config calls trace.
    linux_tap_main argv content read_error k rnd inputs = Some (exit_code, config, macsec_ctx_zero, calls, trace) \<and>
    descriptors_after {} calls = Some {} \<and>
    (exit_code = EXIT_SUCCESS \<longrightarrow> map fst trace = inputs) \<and>
    (trace \<noteq> [] \<longrightarrow> tap_stands_in k calls \<and>
      (\<exists>keys sa_data ctx. configured_keys (if length argv \<ge> 4 then argv ! 3 else ''linux_tap.conf'') content = Some keys \<and>
         tap_keys_ok keys \<and> config_holds keys config \<and> k_raw_hwaddr k = Some sa_data \<and>
         linux_tap_init_macsec rnd (take 6 sa_data) config = (MACSEC_ERR_OK, ctx) \<and>
         (\<forall>ctx'. macsec_step\<^sup>*\<^sup>* ctx ctx' \<longrightarrow> tap_keyed keys (take 6 sa_data) ctx') \<and>
         linux_tap_trace_ok ctx trace))"
proof (cases "linux_tap_arguments argv")
  case None
  then show ?thesis by (simp add: linux_tap_main_def EXIT_SUCCESS_def EXIT_FAILURE_def)
next
  case (Some args)
  obtain physical tap path where args: "args = (physical, tap, path)" by (cases args)
  have path: "path = (if length argv \<ge> 4 then argv ! 3 else ''linux_tap.conf'')" using arguments_path Some args by blast
  obtain cret config where c: "linux_tap_configure path content read_error = (cret, config)" by (metis surj_pair)
  obtain ok raw tap_fd calls where d: "linux_tap_devices k physical tap = (ok, raw, tap_fd, calls)" by (metis surj_pair)
  note fds = devices_descriptors [OF d kernel]
  note closed = cleanup_descriptors [OF conjunct2 [OF fds] conjunct1 [OF fds]]
  show ?thesis
  proof (cases "cret < 0 \<or> \<not> ok")
    case True
    then show ?thesis
      using Some args c d closed [of False macsec_ctx_zero]
      by (auto simp: linux_tap_main_def EXIT_SUCCESS_def EXIT_FAILURE_def linux_tap_cleanup_def)
  next
    case False
    then have c0: "linux_tap_configure path content read_error = (0, config)" and d0: "linux_tap_devices k physical tap = (True, raw, tap_fd, calls)"
      using c d configure_ret [OF c] by auto
    obtain sa_data where mac: "k_raw_hwaddr k = Some sa_data" "raw_mac raw = take 6 sa_data" "length sa_data = 14" and ready: "tap_stands_in k calls"
      using devices_ready [OF d0] kernel by (auto simp: linux_kernel_ok_def)
    have len: "length (raw_mac raw) = 6" by (simp add: mac)
    obtain keys ctx code st trace where l: "configured_keys path content = Some keys" "tap_keys_ok keys" "config_holds keys config"
        "linux_tap_init_macsec rnd (raw_mac raw) config = (MACSEC_ERR_OK, ctx)"
        "\<forall>ctx'. macsec_step\<^sup>*\<^sup>* ctx ctx' \<longrightarrow> tap_keyed keys (raw_mac raw) ctx'"
        "linux_tap_main_loop (lc_mode config) inputs \<lparr>lt_macsec = ctx, lt_stats = linux_tap_stats_zero\<rparr> = Some (code, st, trace)"
        "code = EXIT_SUCCESS \<longrightarrow> map fst trace = inputs" "linux_tap_trace_ok ctx trace"
      by (rule linux_tap_confidential [where rnd = rnd, OF c0 len random])
    let ?closing = "snd (linux_tap_cleanup raw tap_fd True (lt_macsec st))"
    have "linux_tap_main argv content read_error k rnd inputs = Some (code, config, macsec_ctx_zero, calls @ ?closing, trace)"
      using Some args c0 d0 l(4,6) by (simp add: linux_tap_main_def linux_tap_cleanup_def macsec_clear_def)
    moreover have "tap_stands_in k (calls @ ?closing)" using ready by (auto simp: tap_stands_in_def)
    ultimately show ?thesis using closed l mac(1) unfolding mac(2) path by blast
  qed
qed

text \<open>A kernel that grants every request, and an iteration in which the TAP device delivers a frame and the network two.\<close>

definition sample_kernel :: linux_kernel where
  "sample_kernel = \<lparr>k_sigemptyset = 0, k_sigint = 0, k_sigterm = 0, k_raw_socket = 3, k_raw_ifindex = Some 2,
     k_raw_hwaddr = Some (replicate 14 2), k_ignore_outgoing = Option_unknown, k_bind = 0, k_tun = 4, k_tun_name = Some ''tap0'',
     k_mac_socket = 5, k_set_mac = 0, k_mtu_socket = 5, k_set_mtu = 0, k_up_socket = 5, k_get_flags = Some 0x1002, k_set_flags = 0\<rparr>"

definition sample_input :: linux_tap_input where
  "sample_input = \<lparr>in_poll = Sys_done 2, in_tap_revents = POLLIN, in_raw_revents = POLLIN, in_clock = Some (7, 0),
     in_control_sent = Sys_again, in_tap = Sys_done (replicate 60 9), in_data_sent = Sys_done 92,
     in_raw = [Sys_done (True, replicate 60 1), Sys_done (False, replicate 12 1 @ [0x88, 0xE5] @ replicate 46 3)],
     in_written = Sys_done 28\<rparr>"

definition sample_argv :: "string list" where
  "sample_argv = [''linux_tap'', ''eth0'', ''tap0'', ''tap.conf'']"

text \<open>
  With that kernel the application gets as far as the loop. A failed \<open>bind\<close> leaves nothing open, a
  failed MTU request the two descriptors that the clean-up then closes.
\<close>

lemma sample_devices:
  "\<exists>raw calls. linux_tap_devices sample_kernel ''eth0'' ''tap0'' = (True, raw, 4, calls) \<and> raw_fd raw = 3"
  "\<exists>raw calls. linux_tap_devices (sample_kernel\<lparr>k_bind := -1\<rparr>) ''eth0'' ''tap0'' = (False, raw, -1, calls) \<and> descriptors_after {} calls = Some {}"
  "\<exists>raw calls. linux_tap_devices (sample_kernel\<lparr>k_set_mtu := -1\<rparr>) ''eth0'' ''tap0'' = (False, raw, 4, calls) \<and>
     descriptors_after {} calls = Some {3, 4}"
  by (simp_all add: linux_tap_devices_def linux_tap_install_signal_handlers_def linux_raw_open_def linux_raw_get_interface_def
      linux_raw_closed_def linux_tap_open_def linux_tap_set_mac_def linux_tap_set_mtu_def linux_tap_set_up_def linux_tap_copy_name_def
      sample_kernel_def IFNAMSIZ_def LINUX_TAP_NAME_MAX_def LINUX_TAP_MTU_def LINUX_TAP_PHYSICAL_MTU_def LINUX_TAP_MACSEC_OVERHEAD_def
      Let_def) auto

lemma loop_entered:
  assumes "linux_tap_arguments argv = Some (physical, tap, path)" "linux_tap_configure path content read_error = (0, config)"
    and "linux_tap_devices k physical tap = (True, raw, tap_fd, calls)" "linux_tap_init_macsec rnd (raw_mac raw) config = (MACSEC_ERR_OK, ctx)"
    and run: "linux_tap_main argv content read_error k rnd (input # inputs) = Some (exit_code, config', macsec, calls', trace)"
  shows "trace \<noteq> []"
proof -
  obtain st where "linux_tap_main_loop (lc_mode config) (input # inputs) \<lparr>lt_macsec = ctx, lt_stats = linux_tap_stats_zero\<rparr> = Some (exit_code, st, trace)"
    using assms by (auto simp: linux_tap_main_def Let_def split: bind_splits prod.splits)
  then show ?thesis by (cases input) (auto simp: Let_def split: bind_splits if_splits)
qed

theorem linux_tap_main_confined_witness:
  "\<exists>exit_code config calls trace ctx.
     linux_tap_main sample_argv (Some sample_tap_file) False sample_kernel (\<lambda>n. replicate n 5)
       [(\<lambda>n. replicate n 6, \<lambda>n. replicate n 7, sample_input)] = Some (exit_code, config, macsec_ctx_zero, calls, trace) \<and>
     trace \<noteq> [] \<and> descriptors_after {} calls = Some {} \<and> tap_stands_in sample_kernel calls \<and>
     take 4 (lc_ckn config) = [0xC0, 0xFF, 0xEE, 0x01] \<and> linux_tap_trace_ok ctx trace \<and>
     mc_keys (mk_crypto (mx_mka ctx)) = psk_keys [0, 1, 2, 3, 4, 5, 6, 7, 8, 9, 10, 11, 12, 13, 14, 15] [0xC0, 0xFF, 0xEE, 0x01]"
proof -
  let ?rnd = "\<lambda>n. replicate n (5::u8)" and ?inputs = "[(\<lambda>n. replicate n (6::u8), \<lambda>n. replicate n (7::u8), sample_input)]"
  let ?keys = "Tap_psk [0, 1, 2, 3, 4, 5, 6, 7, 8, 9, 10, 11, 12, 13, 14, 15] [0xC0, 0xFF, 0xEE, 0x01] ''16''"
  have k: "linux_kernel_ok sample_kernel" by (simp add: linux_kernel_ok_def sample_kernel_def)
  have r: "length (?rnd 12) = 12" "\<forall>(rnd1, rnd2, i) \<in> set ?inputs. length (rnd1 16) = 16 \<and> length (rnd2 16) = 16" by simp_all
  have arg: "linux_tap_arguments sample_argv = Some (''eth0'', ''tap0'', ''tap.conf'')" "length sample_argv \<ge> 4" "sample_argv ! 3 = ''tap.conf''"
    by (simp_all add: linux_tap_arguments_def sample_argv_def LINUX_TAP_NAME_MAX_def)
  obtain config where c: "linux_tap_configure ''tap.conf'' (Some sample_tap_file) False = (0, config)"
    using sample_tap_file_accepted by blast
  obtain raw calls where d: "linux_tap_devices sample_kernel ''eth0'' ''tap0'' = (True, raw, 4, calls)" using sample_devices(1) by blast
  have mac: "length (raw_mac raw) = 6" using devices_ready [OF d] by (auto simp: sample_kernel_def)
  obtain ctx where i: "linux_tap_init_macsec ?rnd (raw_mac raw) config = (MACSEC_ERR_OK, ctx)"
    using init_macsec_ok [where rnd = ?rnd, OF configure_ok [OF c] mac r(1)] by blast
  obtain code config' calls' trace where m: "linux_tap_main sample_argv (Some sample_tap_file) False sample_kernel ?rnd ?inputs =
        Some (code, config', macsec_ctx_zero, calls', trace)" "descriptors_after {} calls' = Some {}"
      "trace \<noteq> [] \<longrightarrow> tap_stands_in sample_kernel calls' \<and>
        (\<exists>keys sa_data ctx. configured_keys (if length sample_argv \<ge> 4 then sample_argv ! 3 else ''linux_tap.conf'') (Some sample_tap_file) = Some keys \<and>
           tap_keys_ok keys \<and> config_holds keys config' \<and> k_raw_hwaddr sample_kernel = Some sa_data \<and>
           linux_tap_init_macsec ?rnd (take 6 sa_data) config' = (MACSEC_ERR_OK, ctx) \<and>
           (\<forall>ctx'. macsec_step\<^sup>*\<^sup>* ctx ctx' \<longrightarrow> tap_keyed keys (take 6 sa_data) ctx') \<and> linux_tap_trace_ok ctx trace)"
    using linux_tap_main_confined [where rnd = ?rnd, OF k r, of sample_argv "Some sample_tap_file" False] by blast
  have ne: "trace \<noteq> []" by (rule loop_entered [where rnd = ?rnd, OF arg(1) c d i m(1)])
  then obtain sa_data ctx where t: "config_holds ?keys config'" "tap_keyed ?keys (take 6 sa_data) ctx" "linux_tap_trace_ok ctx trace"
    using m(3) arg(2,3) sample_tap_file_keys by auto
  have "take 4 (lc_ckn config') = [0xC0, 0xFF, 0xEE, 0x01]" using t(1) by (simp add: numeral_eq_Suc)
  with m ne t(2,3) show ?thesis by auto
qed

end
