(* ===== verification/GcmMemory.thy ===== *)
theory GcmMemory
  imports GcmSpec
begin

text \<open>
  \<open>gcm_update\<close> on one memory. Its pointers \<open>input\<close> and \<open>output\<close> may point into the same object, and the
  function refuses only an output that starts inside the input. Here the bytes are read and written one
  by one in a memory that both share. The result is the one of \<open>gcm_update\<close> in theory \<open>Gcm\<close>, whose input
  and output are separate: the test of the source refuses every overlap that would matter (and
  decryption in place is right).
\<close>

text \<open>One round of the inner loop: the source reads \<open>p[i]\<close> twice, the second time for the output.\<close>

definition gcm_memory_byte :: "int \<Rightarrow> bytes \<Rightarrow> nat \<Rightarrow> nat \<Rightarrow> nat \<Rightarrow> bytes \<times> bytes \<Rightarrow> bytes \<times> bytes" where
  "gcm_memory_byte mode ectr p out_p i = (\<lambda>(buf, m).
     let buf = (if mode = MATH_GCM_DECRYPT then buf[i := buf ! i XOR m ! (p + i)] else buf);
         m = m[out_p + i := ectr ! i XOR m ! (p + i)];
         buf = (if mode = MATH_GCM_ENCRYPT then buf[i := buf ! i XOR m ! (out_p + i)] else buf)
     in (buf, m))"

function gcm_update_memory_loop :: "math_gcm_context \<Rightarrow> bytes \<Rightarrow> nat \<Rightarrow> nat \<Rightarrow> nat \<Rightarrow> int \<times> math_gcm_context \<times> bytes" where
  "gcm_update_memory_loop ctx m p out_p left =
     (if left = 0 then (0, ctx, m)
      else
        let use_len = (if left < 16 then left else 16);
            ctx = ctx\<lparr>gcm_y := gcm_increment_counter (gcm_y ctx)\<rparr>;
            (ret, ectr) = gcm_aes_encrypt_block ctx (gcm_y ctx)
        in if ret \<noteq> 0 then (ret, ctx, m)
           else
             let (buf, m) = fold (gcm_memory_byte (gcm_mode ctx) ectr p out_p) [0..<use_len] (gcm_buf ctx, m);
                 ctx = ctx\<lparr>gcm_buf := buf\<rparr>;
                 ctx = (if use_len = 16 then ctx\<lparr>gcm_buf := gcm_mult ctx (gcm_buf ctx)\<rparr> else ctx);
                 ctx = ctx\<lparr>gcm_len := gcm_len ctx + of_nat use_len\<rparr>
             in gcm_update_memory_loop ctx m (p + use_len) (out_p + use_len) (left - use_len))"
  by pat_completeness auto
termination by (relation "measure (\<lambda>(ctx, m, p, out_p, left). left)") auto

declare gcm_update_memory_loop.simps [simp del]

definition gcm_update_memory :: "math_gcm_context \<Rightarrow> bytes \<Rightarrow> nat \<Rightarrow> nat \<Rightarrow> nat \<Rightarrow> int \<times> math_gcm_context \<times> bytes" where
  "gcm_update_memory ctx m input output count =
     (if count \<noteq> 0 \<and> output > input \<and> output - input < count then (MATH_ERR_GCM_BAD_INPUT, ctx, m)
      else if gcm_len ctx + of_nat count < gcm_len ctx \<or> gcm_len ctx + of_nat count > 0xFFFFFFFE0
      then (MATH_ERR_GCM_BAD_INPUT, ctx, m)
      else gcm_update_memory_loop ctx m input output count)"

subsection \<open>One block\<close>

text \<open>The bytes of the output replace those at \<open>out_p\<close>.\<close>

definition memory_put :: "bytes \<Rightarrow> nat \<Rightarrow> bytes \<Rightarrow> bytes" where
  "memory_put m i bs = take i m @ bs @ drop (i + length bs) m"

lemma length_memory_put [simp]: "i + length bs \<le> length m \<Longrightarrow> length (memory_put m i bs) = length m"
  by (simp add: memory_put_def)

lemma nth_memory_put:
  "i + length bs \<le> length m \<Longrightarrow> j < length m \<Longrightarrow> memory_put m i bs ! j = (if i \<le> j \<and> j < i + length bs then bs ! (j - i) else m ! j)"
  by (auto simp: memory_put_def nth_append min_def not_less)

lemma memory_put_snoc:
  "i + length bs < length m \<Longrightarrow> (memory_put m i bs)[i + length bs := b] = memory_put m i (bs @ [b])"
  by (simp add: memory_put_def list_update_append not_le Cons_nth_drop_Suc [symmetric])

lemma memory_put_append:
  "i + length bs + length cs \<le> length m \<Longrightarrow> memory_put (memory_put m i bs) (i + length bs) cs = memory_put m i (bs @ cs)"
  by (simp add: memory_put_def ac_simps)

lemma memory_put_outside:
  assumes "i + length bs \<le> length m" "p + n \<le> length m" "i + length bs \<le> p \<or> p + n \<le> i"
  shows "take n (drop p (memory_put m i bs)) = take n (drop p m)"
  using assms by (intro nth_equalityI) (auto simp: nth_memory_put)

lemma arr_xor_snoc:
  assumes "length x < length a"
  shows "(arr_xor a x)[length x := a ! length x XOR b] = arr_xor a (x @ [b])"
proof (intro nth_equalityI)
  fix i assume "i < length ((arr_xor a x)[length x := a ! length x XOR b])"
  then have "i < length a" using assms by simp
  then show "(arr_xor a x)[length x := a ! length x XOR b] ! i = arr_xor a (x @ [b]) ! i"
    using assms by (auto simp: nth_list_update arr_xor_def nth_append nth_xor_bytes)
qed (use assms in simp)

text \<open>What the inner loop leaves, with the bytes \<open>x\<close> of the input as they were before it.\<close>

lemma memory_block:
  assumes mode: "mode = MATH_GCM_DECRYPT \<or> mode = MATH_GCM_ENCRYPT" and len: "length buf = 16" "length ectr = 16" "n \<le> 16"
    and room: "p + n \<le> length m" "out_p + n \<le> length m" and apart: "out_p \<le> p \<or> p + n \<le> out_p"
  defines "x \<equiv> take n (drop p m)"
  shows "fold (gcm_memory_byte mode ectr p out_p) [0..<n] (buf, m) =
    (arr_xor buf (if mode = MATH_GCM_DECRYPT then x else xor_bytes (take n ectr) x), memory_put m out_p (xor_bytes (take n ectr) x))"
  using len(3) room apart unfolding x_def
proof (induction n)
  case 0
  then show ?case by (simp add: arr_xor_def xor_bytes_def memory_put_def)
next
  case (Suc k)
  define x where "x = take k (drop p m)"
  define o' where "o' = xor_bytes (take k ectr) x"
  have x: "length x = k" "take (Suc k) (drop p m) = x @ [m ! (p + k)]"
    using Suc.prems by (simp_all add: x_def take_Suc_conv_app_nth)
  have o': "length o' = k" "xor_bytes (take (Suc k) ectr) (x @ [m ! (p + k)]) = o' @ [ectr ! k XOR m ! (p + k)]"
    using Suc.prems len(2) x(1) by (simp_all add: o'_def take_Suc_conv_app_nth xor_bytes_def)
  have IH: "fold (gcm_memory_byte mode ectr p out_p) [0..<k] (buf, m) =
      (arr_xor buf (if mode = MATH_GCM_DECRYPT then x else o'), memory_put m out_p o')"
  proof -
    have "out_p \<le> p \<or> p + k \<le> out_p" using Suc.prems(4) by auto
    with Suc.IH Suc.prems(1-3) show ?thesis by (simp add: x_def o'_def)
  qed
  have same: "memory_put m out_p o' ! (p + k) = m ! (p + k)"
    using Suc.prems o'(1) by (auto simp: nth_memory_put)
  have next_m: "(memory_put m out_p o')[out_p + k := ectr ! k XOR m ! (p + k)] = memory_put m out_p (o' @ [ectr ! k XOR m ! (p + k)])"
    using memory_put_snoc [of out_p o' m] o'(1) Suc.prems by simp
  have wrote: "memory_put m out_p (o' @ [ectr ! k XOR m ! (p + k)]) ! (out_p + k) = ectr ! k XOR m ! (p + k)"
    using Suc.prems o'(1) by (simp add: nth_memory_put nth_append)
  have keep: "arr_xor buf y ! k = buf ! k" if "length y = k" for y
    using that len(1) Suc.prems(1) by (simp add: arr_xor_def nth_append)
  have "(arr_xor buf x)[k := buf ! k XOR m ! (p + k)] = arr_xor buf (x @ [m ! (p + k)])"
    "(arr_xor buf o')[k := buf ! k XOR (ectr ! k XOR m ! (p + k))] = arr_xor buf (o' @ [ectr ! k XOR m ! (p + k)])"
    using arr_xor_snoc [of x buf] arr_xor_snoc [of o' buf] x(1) o'(1) len(1) Suc.prems(1) by simp_all
  note buf_step = this
  from mode have "gcm_memory_byte mode ectr p out_p k (arr_xor buf (if mode = MATH_GCM_DECRYPT then x else o'), memory_put m out_p o') =
      (arr_xor buf (if mode = MATH_GCM_DECRYPT then x @ [m ! (p + k)] else o' @ [ectr ! k XOR m ! (p + k)]),
       memory_put m out_p (o' @ [ectr ! k XOR m ! (p + k)]))"
  proof
    assume "mode = MATH_GCM_DECRYPT"
    then show ?thesis using buf_step(1) keep [OF x(1)] by (simp add: gcm_memory_byte_def Let_def same next_m MATH_GCM_DECRYPT_def MATH_GCM_ENCRYPT_def)
  next
    assume "mode = MATH_GCM_ENCRYPT"
    then show ?thesis using buf_step(2) keep [OF o'(1)] by (simp add: gcm_memory_byte_def Let_def same next_m wrote MATH_GCM_DECRYPT_def MATH_GCM_ENCRYPT_def)
  qed
  then show ?case by (simp add: IH x(2) o'(2))
qed

subsection \<open>All blocks\<close>

lemma update_memory_loop:
  assumes mode: "gcm_mode ctx = MATH_GCM_DECRYPT \<or> gcm_mode ctx = MATH_GCM_ENCRYPT" and buf: "length (gcm_buf ctx) = 16"
    and room: "p + n \<le> length m" "out_p + n \<le> length m" and apart: "out_p \<le> p \<or> p + n \<le> out_p"
  shows "\<exists>ctx' out. gcm_update_loop ctx (take n (drop p m)) = (0, ctx', out) \<and> length out = n \<and>
    gcm_update_memory_loop ctx m p out_p n = (0, ctx', memory_put m out_p out)"
  using assms
proof (induction n arbitrary: ctx m p out_p rule: less_induct)
  case (less n)
  show ?case
  proof (cases "n = 0")
    case True
    then show ?thesis by (simp add: gcm_update_loop.simps gcm_update_memory_loop.simps memory_put_def)
  next
    case False
    define u where "u = (if n < 16 then n else 16)"
    have u: "0 < u" "u \<le> n" "u \<le> 16" using False by (simp_all add: u_def)
    define c where "c = ctx\<lparr>gcm_y := gcm_increment_counter (gcm_y ctx)\<rparr>"
    define e where "e = aes_block c (gcm_y c)"
    define x where "x = take u (drop p m)"
    define o1 where "o1 = xor_bytes (take u e) x"
    define b where "b = arr_xor (gcm_buf ctx) (if gcm_mode ctx = MATH_GCM_DECRYPT then x else o1)"
    define c1 where "c1 = c\<lparr>gcm_buf := (if u = 16 then gcm_mult c b else b), gcm_len := gcm_len ctx + of_nat u\<rparr>"
    define m1 where "m1 = memory_put m out_p o1"
    have len: "length x = u" "length o1 = u" "length e = 16"
      using u less.prems(3) by (simp_all add: x_def o1_def e_def)
    have enc: "gcm_aes_encrypt_block c (gcm_y c) = (0, e)" by (simp add: gcm_aes_encrypt_block_eq e_def)
    have block: "fold (gcm_memory_byte (gcm_mode ctx) e p out_p) [0..<u] (gcm_buf ctx, m) = (b, m1)"
      using memory_block [OF less.prems(1,2) len(3) u(3), of p m out_p] less.prems(3-5) u(2) by (auto simp: x_def o1_def b_def m1_def)
    have mult: "gcm_mult (c\<lparr>gcm_buf := z\<rparr>) w = gcm_mult c w" for z w by (simp add: gcm_mult_def)
    have c: "gcm_mode c = gcm_mode ctx" "gcm_buf c = gcm_buf ctx" "gcm_len c = gcm_len ctx" by (simp_all add: c_def)
    define X where "X = take n (drop p m)"
    have X: "X \<noteq> []" "length X = n" "take u X = x" "drop u X = take (n - u) (drop (p + u) m)"
      using False less.prems(3) u(2) by (auto simp: X_def x_def drop_take min_def add.commute)
    have modes: "MATH_GCM_DECRYPT \<noteq> MATH_GCM_ENCRYPT" by (simp add: MATH_GCM_ENCRYPT_def MATH_GCM_DECRYPT_def)
    have plain: "gcm_update_loop ctx X = (let (ret, ctx', rest) = gcm_update_loop c1 (drop u X) in (ret, ctx', o1 @ rest))"
    proof (subst gcm_update_loop.simps, unfold X(2) u_def [symmetric] c_def [symmetric] X(3) Let_def, goal_cases)
      case 1
      from less.prems(1) modes show ?case
        by (elim disjE; cases "u = 16") (simp_all add: X(1) enc c o1_def b_def c1_def mult)
    qed
    have memory: "gcm_update_memory_loop ctx m p out_p n = gcm_update_memory_loop c1 m1 (p + u) (out_p + u) (n - u)"
    proof (subst gcm_update_memory_loop.simps, unfold u_def [symmetric] c_def [symmetric] Let_def, goal_cases)
      case 1
      show ?case by (simp add: False enc c block c1_def mult)
    qed
    have m1: "length m1 = length m" using less.prems(4) u(2) len(2) by (simp add: m1_def)
    have rest: "take (n - u) (drop (p + u) m1) = take (n - u) (drop (p + u) m)"
      unfolding m1_def using less.prems(3-5) u(2) len(2) by (intro memory_put_outside) auto
    have "length (gcm_buf c1) = 16" using less.prems(2) len u(3) by (simp add: c1_def b_def)
    moreover have "gcm_mode c1 = MATH_GCM_DECRYPT \<or> gcm_mode c1 = MATH_GCM_ENCRYPT" using less.prems(1) by (simp add: c1_def c_def)
    ultimately obtain ctx' out where IH: "gcm_update_loop c1 (take (n - u) (drop (p + u) m1)) = (0, ctx', out)" "length out = n - u"
        "gcm_update_memory_loop c1 m1 (p + u) (out_p + u) (n - u) = (0, ctx', memory_put m1 (out_p + u) out)"
      using less.IH [of "n - u" c1 "p + u" m1 "out_p + u"] less.prems(3-5) u m1 by auto
    have "memory_put m1 (out_p + u) out = memory_put m out_p (o1 @ out)"
      using memory_put_append [of out_p o1 out m] IH(2) len(2) less.prems(4) u(2) by (simp add: m1_def)
    with IH rest plain memory len(2) u(2) X(4) show ?thesis by (simp add: X_def [symmetric])
  qed
qed

text \<open>
  For all positions of input and output in one memory, the function behaves as on separate buffers with
  the contents that they have before the call; the flag \<open>overlap\<close> is the test of the source.
\<close>

lemma gcm_update_memory_eq:
  assumes mode: "gcm_mode ctx = MATH_GCM_DECRYPT \<or> gcm_mode ctx = MATH_GCM_ENCRYPT" and buf: "length (gcm_buf ctx) = 16"
    and room: "input + n \<le> length m" "output + n \<le> length m"
  shows "gcm_update_memory ctx m input output n =
    (let (ret, ctx', out) = gcm_update (input < output \<and> output < input + n) ctx (take n (drop input m)) (take n (drop output m))
     in (ret, ctx', memory_put m output out))"
proof -
  have same: "memory_put m output (take n (drop output m)) = m"
    using room(2) by (simp add: memory_put_def) (metis append_take_drop_id drop_drop add.commute)
  have len: "length (take n (drop input m)) = n" using room(1) by simp
  show ?thesis
  proof (cases "input < output \<and> output < input + n")
    case True
    then have "n \<noteq> 0" "output > input \<and> output - input < n" by auto
    with True same len show ?thesis by (simp only: gcm_update_memory_def gcm_update_def) simp
  next
    case False
    then have apart: "output \<le> input \<or> input + n \<le> output" and guard: "\<not> (output > input \<and> output - input < n)" by auto
    obtain ctx' out where l: "gcm_update_loop ctx (take n (drop input m)) = (0, ctx', out)" "length out = n"
        "gcm_update_memory_loop ctx m input output n = (0, ctx', memory_put m output out)"
      using update_memory_loop [OF mode buf room apart] by blast
    have put: "arr_put (take n (drop output m)) out = out" using l(2) room(2) by (simp add: arr_put_def)
    define x y where "x = take n (drop input m)" and "y = take n (drop output m)"
    have "length x = n" using len by (simp add: x_def)
    with False guard l same put show ?thesis
      unfolding x_def [symmetric] y_def [symmetric]
      by (simp add: gcm_update_memory_def gcm_update_def) auto
  qed
qed

end
