(* ===== verification/MemUsage.thy ===== *)
theory MemUsage
  imports LinuxTapConfig GcmMemory
begin

text \<open>
  The measurement harness \<open>examples/mem_usage_stm32\<close>: the memory functions of its \<open>runtime.c\<close>, which the
  stack is linked with there, and the runs that \<open>main.c\<close> makes in its minimal profile (the frame layer alone)
  and its full profile (the whole stack). Its \<open>port.c\<close> has the generator of \<open>port/embedded/port.c\<close>, which is in
  \<open>Port\<close>.
\<close>

subsection \<open>Memory functions\<close>

text \<open>A pointer is a buffer and an offset; an access outside the buffer is \<open>None\<close>.\<close>

fun runtime_memset :: "bytes \<Rightarrow> nat \<Rightarrow> u32 \<Rightarrow> nat \<Rightarrow> bytes option" where
  "runtime_memset destination dst fill 0 = Some destination"
| "runtime_memset destination dst fill (Suc count) =
     (if dst < length destination then runtime_memset (destination[dst := ucast fill]) (dst + 1) fill count else None)"

fun runtime_memcpy :: "bytes \<Rightarrow> nat \<Rightarrow> bytes \<Rightarrow> nat \<Rightarrow> nat \<Rightarrow> bytes option" where
  "runtime_memcpy destination dst source src 0 = Some destination"
| "runtime_memcpy destination dst source src (Suc count) =
     (if dst < length destination \<and> src < length source
      then runtime_memcpy (destination[dst := source ! src]) (dst + 1) source (src + 1) count else None)"

fun runtime_memcmp :: "bytes \<Rightarrow> bytes \<Rightarrow> nat \<Rightarrow> int option" where
  "runtime_memcmp a b 0 = Some 0"
| "runtime_memcmp (x # a) (y # b) (Suc count) = (if x \<noteq> y then Some (if x < y then -1 else 1) else runtime_memcmp a b count)"
| "runtime_memcmp a b (Suc count) = None"

text \<open>
  They are the operations on buffers by which the other theories model \<open>memset\<close> and \<open>memcpy\<close>; the copy is
  one between separate objects.
\<close>

lemma take_update_append:
  "dst < length m \<Longrightarrow> take (Suc dst) (m[dst := v]) = take dst m @ [v]"
  by (simp add: take_Suc_conv_app_nth)

lemma runtime_memset_put:
  "dst \<le> length m \<Longrightarrow> runtime_memset m dst fill count = buf_put m dst (replicate count (ucast fill))"
  by (induction m dst fill count rule: runtime_memset.induct) (auto simp: buf_put_def take_update_append)

lemma runtime_memcpy_put:
  "dst \<le> length m \<Longrightarrow> src + count \<le> length s \<Longrightarrow> runtime_memcpy m dst s src count = buf_put m dst (take count (drop src s))"
  by (induction m dst s src count rule: runtime_memcpy.induct)
     (auto simp: buf_put_def take_update_append Cons_nth_drop_Suc [symmetric])

lemma runtime_memcmp_equal:
  "count \<le> length a \<Longrightarrow> count \<le> length b \<Longrightarrow> \<exists>r. runtime_memcmp a b count = Some r \<and> (r = 0 \<longleftrightarrow> take count a = take count b)"
  by (induction a b count rule: runtime_memcmp.induct) auto

subsection \<open>The run of the minimal profile\<close>

definition memusage_fill_plain_frame :: "bytes \<Rightarrow> (bytes \<times> nat) option" where
  "memusage_fill_plain_frame frame = do {
     frame \<leftarrow> buf_put frame 0 [0x02, 0, 0, 0, 0, 0x02];
     frame \<leftarrow> buf_put frame 6 [0x02, 0, 0, 0, 0, 0x01];
     frame \<leftarrow> buf_put frame 12 [0x08, 0x00];
     frame \<leftarrow> buf_put frame 14 (map of_nat [14..<64]);
     Some (frame, 64)
   }"

definition memusage_sak :: macsec_frame_sak where
  "memusage_sak = frame_sak_zero
     \<lparr>fs_key := arr_put (fs_key frame_sak_zero)
        [0x00, 0x11, 0x22, 0x33, 0x44, 0x55, 0x66, 0x77, 0x88, 0x99, 0xAA, 0xBB, 0xCC, 0xDD, 0xEE, 0xFF],
      fs_key_len := 16, fs_an := 0, fs_next_pn := 1, fs_lowest_acceptable_pn := 1, fs_valid := True\<rparr>"

text \<open>
  The work buffer is a union of 512 bytes that holds the protected frame and then, from the same address, the
  decrypted one: the frame is decrypted in place. The bytes of the payload are written 16 below those they are
  read from, an overlap that \<open>gcm_update\<close> admits and that does not matter (\<open>gcm_update_memory_eq\<close>); the
  addresses at the start are copied to themselves. The result is the return value, the context, and the
  decrypted frame.
\<close>

definition memusage_run_minimal :: "(macsec_ret \<times> macsec_frame_crypto_ctx \<times> bytes) option" where
  "memusage_run_minimal = do {
     let sci = [0x02, 0x00, 0x00, 0x00, 0x00, 0x01, 0x00, 0x01];
     (plain, plain_len) \<leftarrow> memusage_fill_plain_frame (replicate 64 0);
     let (ret, ctx) = macsec_frame_crypto_init sci;
     if ret \<noteq> MACSEC_ERR_OK then Some (ret, ctx, [])
     else
       let (ret, ctx) = macsec_frame_crypto_set_tx_sak ctx memusage_sak
       in if ret \<noteq> MACSEC_ERR_OK then Some (ret, macsec_frame_crypto_clear ctx, [])
          else
            let (ret, ctx) = macsec_frame_crypto_set_rx_sak ctx memusage_sak
            in if ret \<noteq> MACSEC_ERR_OK then Some (ret, macsec_frame_crypto_clear ctx, [])
               else do {
                 (ret, ctx, work, secure_len) \<leftarrow> macsec_frame_encrypt ctx (take plain_len plain) (replicate 512 0) 128;
                 if ret \<noteq> MACSEC_ERR_OK then Some (ret, macsec_frame_crypto_clear ctx, [])
                 else do {
                   (ret, ctx, work, decrypted_len) \<leftarrow> macsec_frame_decrypt ctx (take secure_len work) work 64;
                   Some (ret, macsec_frame_crypto_clear ctx, take decrypted_len work)
                 }
               }
   }"

text \<open>The frame layer seals the frame and opens it again; the decrypted frame is the plain one.\<close>

lemma memusage_run_minimal_ok:
  "\<exists>plain. memusage_fill_plain_frame (replicate 64 0) = Some (plain, 64) \<and>
     memusage_run_minimal = Some (MACSEC_ERR_OK, frame_ctx_zero, plain)"
proof -
  obtain plain where p: "memusage_fill_plain_frame (replicate 64 0) = Some (plain, 64)" "length plain = 64"
    by (simp add: memusage_fill_plain_frame_def buf_put_def)
  let ?sci = "[0x02, 0x00, 0x00, 0x00, 0x00, 0x01, 0x00, 0x01] :: bytes"
  have sak: "fs_valid memusage_sak" "fs_key_len memusage_sak = 16" "fs_an memusage_sak = 0" "fs_next_pn memusage_sak = 1"
      "fs_lowest_acceptable_pn memusage_sak = 1" "\<not> fs_replay_exhausted memusage_sak" "length (fs_key memusage_sak) = 32"
    by (simp_all add: memusage_sak_def frame_sak_zero_def arr_put_def)
  have key: "macsec_frame_key_len_valid 16" by (simp add: macsec_frame_key_len_valid_def)
  define base where "base = snd (macsec_frame_crypto_init ?sci)"
  define ctx where "ctx = base\<lparr>fc_tx_sak := memusage_sak, fc_rx_sak := (fc_rx_sak base)[0 := memusage_sak]\<rparr>"
  have init: "macsec_frame_crypto_init ?sci = (MACSEC_ERR_OK, base)" by (simp add: base_def macsec_frame_crypto_init_def)
  have tx: "macsec_frame_crypto_set_tx_sak base memusage_sak = (MACSEC_ERR_OK, base\<lparr>fc_tx_sak := memusage_sak\<rparr>)"
    by (simp add: macsec_frame_crypto_set_tx_sak_def memusage_sak_def frame_sak_zero_def key Let_def)
  have rx: "macsec_frame_crypto_set_rx_sak (base\<lparr>fc_tx_sak := memusage_sak\<rparr>) memusage_sak = (MACSEC_ERR_OK, ctx)"
    by (simp add: macsec_frame_crypto_set_rx_sak_def sak key Let_def ctx_def)
  have base: "fc_rx_sak base = replicate 4 frame_sak_zero" "fc_local_sci base = ?sci" "fc_encrypt base" "fc_replay_window base = 0"
      "\<not> fc_current_gcm_key_valid base" "length (fc_current_gcm_key base) = 32"
    by (simp_all add: base_def macsec_frame_crypto_init_def frame_ctx_zero_def)
  have wf: "frame_wf ctx" by (simp add: frame_wf_def ctx_def base sak) (simp add: numeral_eq_Suc frame_sak_zero_def sak [unfolded numeral_eq_Suc])
  have room: "(128::nat) \<le> length (replicate 512 (0::u8))" by simp
  have guard: "frame_tx_guard ctx plain 128 = None"
    using p(2) by (simp add: frame_tx_guard_def macsec_frame_crypto_ready_tx_def ctx_def base sak key)
  obtain ctx1 work where e: "macsec_frame_encrypt ctx plain (replicate 512 0) 128 = Some (MACSEC_ERR_OK, ctx1, work, 96)"
      "frame_wf ctx1" "fc_rx_sak ctx1 = fc_rx_sak ctx" "fc_replay_window ctx1 = 0" "length work = 512"
    using guard p(2) length_frame_seal [of plain ?sci memusage_sak]
    by (cases rule: frame_encrypt_outcome [OF wf room, of plain]) (auto simp: frame_same_def ctx_def base)
  have work: "64 \<le> length work" using e(5) by simp
  have sa: "fc_rx_sak ctx1 ! 0 = memusage_sak" "fc_tx_sak ctx = memusage_sak" by (simp_all add: e(3) ctx_def base)
  have "macsec_frame_crypto_ready_rx ctx1 0" "macsec_frame_replay_check ctx1 memusage_sak 1 = MACSEC_ERR_OK"
    by (simp_all add: macsec_frame_crypto_ready_rx_def macsec_frame_replay_check_def sa sak key e(4))
  then obtain ctx2 out where d: "macsec_frame_decrypt ctx1 (take 96 work) work 64 = Some (MACSEC_ERR_OK, ctx2, out, 64)" "take 64 out = plain"
    using frame_round_trip_lemma [OF wf e(2) room work e(1), of memusage_sak] p(2) by (auto simp: sa sak)
  show ?thesis
    by (intro exI [of _ plain])
       (simp add: p memusage_run_minimal_def Let_def init tx rx e(1) d macsec_frame_crypto_clear_def)
qed

subsection \<open>The run of the full profile\<close>

definition memusage_cak :: bytes where
  "memusage_cak = [0x00, 0x11, 0x22, 0x33, 0x44, 0x55, 0x66, 0x77, 0x88, 0x99, 0xAA, 0xBB, 0xCC, 0xDD, 0xEE, 0xFF,
     0x00, 0x11, 0x22, 0x33, 0x44, 0x55, 0x66, 0x77, 0x88, 0x99, 0xAA, 0xBB, 0xCC, 0xDD, 0xEE, 0xFF]"

definition memusage_ckn :: bytes where
  "memusage_ckn = [0x00, 0x11, 0x22, 0x33, 0x44, 0x55, 0x66, 0x77, 0x88, 0x99, 0xAA, 0xBB, 0xCC, 0xDD, 0xEE, 0xFF,
     0x00, 0x11, 0x22, 0x33, 0x44, 0x55, 0x66, 0x77]"

definition memusage_prepare_config :: macsec_config where
  "memusage_prepare_config = macsec_config_zero
     \<lparr>cf_mode := MACSEC_MODE_MKA_PSK, cf_local_mac := [0x02, 0, 0, 0, 0, 0x01], cf_port_id := 1,
      cf_cak := arr_put (cf_cak macsec_config_zero) memusage_cak, cf_cak_len := 32,
      cf_ckn := arr_put (cf_ckn macsec_config_zero) memusage_ckn, cf_ckn_len := 24,
      cf_replay_protect := True, cf_replay_window := 0, cf_key_server_priority := 10, cf_mka_tx_interval_ms := 2000\<rparr>"

text \<open>
  The work buffer is a union of 512 bytes: each call writes its start, after the results of the call
  before are no longer used. The result is the return value, the context and the codes of the two last
  calls, which are added to \<open>g_memusage_result\<close>. Each call that may draw random bytes has its own source.
\<close>

definition memusage_run_full :: "(nat \<Rightarrow> bytes) \<Rightarrow> (nat \<Rightarrow> bytes) \<Rightarrow> (nat \<Rightarrow> bytes) \<Rightarrow> (macsec_ret \<times> macsec_ctx \<times> macsec_ret list) option" where
  "memusage_run_full rnd1 rnd2 rnd3 = do {
     (plain, plain_len) \<leftarrow> memusage_fill_plain_frame (replicate 64 0);
     let (ret, ctx) = macsec_init rnd1 memusage_prepare_config;
     if ret \<noteq> MACSEC_ERR_OK then Some (ret, ctx, [])
     else
       let (ret, ctx) = macsec_tick ctx 2000
       in if ret \<noteq> MACSEC_ERR_OK then Some (ret, macsec_clear ctx, [])
          else do {
            (ret, ctx, work, output_len) \<leftarrow> macsec_build_control_frame rnd2 ctx (replicate 512 0) 512;
            if ret \<noteq> MACSEC_ERR_OK \<and> ret \<noteq> MACSEC_ERR_NOT_READY then Some (ret, macsec_clear ctx, [])
            else do {
              (ret_in, ctx, work, output_len, pass_to_stack) \<leftarrow> macsec_input rnd3 ctx (take plain_len plain) work 64;
              (ret_out, ctx, work, output_len) \<leftarrow> macsec_output ctx (take plain_len plain) work 128;
              Some (MACSEC_ERR_OK, macsec_clear ctx, [ret_in, ret_out])
            }
          }
   }"

lemma memusage_frame:
  "\<exists>plain. memusage_fill_plain_frame (replicate 64 0) = Some (plain, 64) \<and> length plain = 64 \<and>
     macsec_mka_is_eapol_mka plain = Some False \<and> macsec_frame_is_macsec plain = Some False \<and> buf_at plain 12 2 = Some [0x08, 0x00]"
proof -
  let ?h = "[0x02, 0, 0, 0, 0, 0x02, 0x02, 0, 0, 0, 0, 0x01, 0x08, 0x00] :: bytes" and ?b = "map of_nat [14..<64] :: bytes"
  have f: "memusage_fill_plain_frame (replicate 64 0) = Some (?h @ ?b, 64)"
    by (simp add: memusage_fill_plain_frame_def buf_put_def)
  have e: "buf_at (?h @ ?b) 12 2 = Some [0x08, 0x00]" by (simp add: buf_at_def)
  have "macsec_mka_is_eapol_mka (?h @ ?b) = Some False" "macsec_frame_is_macsec (?h @ ?b) = Some False"
    using e by (simp_all add: macsec_mka_is_eapol_mka_def macsec_frame_is_macsec_def macsec_rd_be16_def
        MACSEC_MKA_ETHERTYPE_EAPOL_def MACSEC_FRAME_ETHERTYPE_def)
  with f e show ?thesis by (intro exI [of _ "?h @ ?b"]) simp
qed

lemma memusage_config_ok:
  "macsec_config_ok memusage_prepare_config" "cf_mode memusage_prepare_config = MACSEC_MODE_MKA_PSK"
  "cf_cak_len memusage_prepare_config = 32" "cf_ckn_len memusage_prepare_config = 24"
  by (simp_all add: memusage_prepare_config_def macsec_config_ok_def macsec_config_zero_def arr_put_def memusage_cak_def memusage_ckn_def)

lemma memusage_started:
  assumes rnd: "length (rnd 12) = 12"
  obtains ctx c where "macsec_init rnd memusage_prepare_config = (MACSEC_ERR_OK, ctx)" "macsec_tick ctx 2000 = (MACSEC_ERR_OK, c)"
    "macsec_inv c" "cf_mode (mx_cfg c) = MACSEC_MODE_MKA_PSK" "\<not> mx_pending_mka_tx_valid c" "\<not> mp_live (mk_peer (mx_mka c))"
    "\<not> fs_valid (fc_tx_sak (mx_frame_crypto c))"
proof -
  obtain ctx where i: "macsec_init rnd memusage_prepare_config = (MACSEC_ERR_OK, ctx)"
    using mka_init_succeeds [where rnd = rnd, OF memusage_config_ok(1,2) rnd] memusage_config_ok(3,4) by auto
  note s = mka_start [where rnd = rnd, OF memusage_config_ok(1,2) i rnd]
  have ctx: "macsec_inv ctx" "cf_mode (mx_cfg ctx) = MACSEC_MODE_MKA_PSK" "\<not> mx_pending_mka_tx_valid ctx" "mka_inv (mx_mka ctx)"
    using s(1) by (simp_all add: hs_port_def macsec_inv_def)
  define mka where "mka = snd (macsec_mka_tick (mx_mka ctx) 2000)"
  have mka: "mk_latest_sak mka = macsec_mka_sak_clear" "mk_old_sak mka = macsec_mka_sak_clear" "\<not> mp_live (mk_peer mka)"
    using tick_spec(3,7,8) [OF ctx(4), of 2000] s by (simp_all add: mka_def hs_port_def)
  have t: "macsec_mka_tick (mx_mka ctx) 2000 = (MACSEC_ERR_OK, mka)" using tick_spec(1) [OF ctx(4), of 2000] by (simp add: mka_def prod_eq_iff)
  define ctx1 where "ctx1 = ctx\<lparr>mx_last_tick_ms := 2000, mx_mka := mka\<rparr>"
  have inv1: "macsec_inv ctx1" "cf_mode (mx_cfg ctx1) = MACSEC_MODE_MKA_PSK" using ctx tick_inv [OF ctx(4), of 2000] kept_tick [OF ctx(4), of 2000]
    by (auto simp: ctx1_def mka_def intro!: macsec_inv_mka [of "ctx\<lparr>mx_last_tick_ms := 2000\<rparr>", simplified])
  show thesis
  proof (rule service_spec [OF inv1], goal_cases)
    case (1 c)
    have none: "\<not> mka_sak_available (mk_latest_sak (mx_mka ctx1))"
      by (simp add: ctx1_def mka mka_sak_available_def)
    have fc: "mx_frame_crypto c = mx_frame_crypto (macsec_blank memusage_prepare_config)"
      using 1(11) [OF none] s(2) by (simp add: ctx1_def mka)
    have peer: "mk_peer (mx_mka c) = mk_peer mka" using 1(4) by (simp add: mka_rest_def ctx1_def)
    have tick: "macsec_tick ctx 2000 = (MACSEC_ERR_OK, c)" using t ctx(2) 1(1) by (simp add: macsec_tick_def ctx1_def Let_def)
    have kept: "mx_cfg c = mx_cfg ctx" "mx_pending_mka_tx_valid c = mx_pending_mka_tx_valid ctx"
      using 1(3) by (simp_all add: macsec_rest_def ctx1_def)
    have "\<not> fs_valid (fc_tx_sak (mx_frame_crypto c))"
      by (simp add: fc macsec_blank_def Let_def frame_ctx_zero_def frame_sak_zero_def)
    with tick 1(2) ctx(2,3) peer mka(3) kept show thesis by (intro that [OF i]) simp_all
  qed
qed

text \<open>
  The harness runs to its end without a panic, whatever the random source yields: the timer and the
  control frame succeed, the unprotected frame is refused by \<open>macsec_input\<close>, nothing leaves through
  \<open>macsec_output\<close> while no key is agreed, and the context is cleared.
\<close>

lemma memusage_run_full_ok:
  assumes rnd: "length (rnd1 12) = 12" "length (rnd2 16) = 16"
  shows "memusage_run_full rnd1 rnd2 rnd3 = Some (MACSEC_ERR_OK, macsec_ctx_zero, [MACSEC_ERR_AUTH, MACSEC_ERR_NOT_READY])"
proof -
  obtain plain where p: "memusage_fill_plain_frame (replicate 64 0) = Some (plain, 64)" "length plain = 64"
      "macsec_mka_is_eapol_mka plain = Some False" "macsec_frame_is_macsec plain = Some False" "buf_at plain 12 2 = Some [0x08, 0x00]"
    using memusage_frame by blast
  show ?thesis
  proof (rule memusage_started [where rnd = rnd1, OF rnd(1)], goal_cases)
    case (1 ctx c)
    note c = 1
    have room: "(512::nat) \<le> length (replicate 512 (0::u8))" by simp
    have m: "mka_inv (mx_mka c)" using c(3,4) by (simp add: macsec_inv_def)
    have quiet: "mka_tx_prepare rnd2 (mx_mka c) = (MACSEC_ERR_OK, mx_mka c)" using c(6) by (simp add: mka_tx_prepare_def)
    obtain ret mka frame n meta where b:
        "macsec_mka_build_tx_frame rnd2 (mx_mka c) (replicate 512 0) 0 512 mka_meta_zero = Some (ret, mka, frame, n, meta)"
        "ret = MACSEC_ERR_OK \<or> ret = MACSEC_ERR_NOT_READY"
      by (cases rule: build_tx_frame_spec [where rnd = rnd2, OF m rnd(2) room, of 0 mka_meta_zero, case_names idle no_sak too_long built])
         (use quiet mka_eapol_len_bounds [OF m] in auto)
    obtain d where d: "macsec_build_control_frame rnd2 c (replicate 512 0) 512 = Some (ret, d, frame, n)"
        "mx_cfg d = mx_cfg c" "mx_state d = mx_state c" "mx_frame_crypto d = mx_frame_crypto c"
      using b c(4,5) by (auto simp: macsec_build_control_frame_def)
    have i: "macsec_input rnd3 d plain frame 64 = Some (MACSEC_ERR_AUTH, d, frame, 0, False)"
      using p c(4) d(2) by (simp add: macsec_input_def MACSEC_MODE_DISABLED_def MACSEC_MODE_MKA_PSK_def macsec_rd_be16_def MACSEC_ETHERTYPE_EAPOL_def)
    have o': "macsec_output d plain frame 128 = Some (MACSEC_ERR_NOT_READY, d, frame, 0)"
      using c(4,7) d by (simp add: macsec_output_def MACSEC_MODE_DISABLED_def MACSEC_MODE_MKA_PSK_def)
    show ?case
      using p(1,2) c(1,2) d(1) b(2) i o' by (auto simp: memusage_run_full_def macsec_clear_def)
  qed
qed

end
