(* ===== verification/Spec2Isabelle.thy ===== *)
theory Spec2Isabelle
  imports FrameTrace AesSpec SelfTest Port LinuxTapMain MemUsage
begin

text \<open>
  A verification development for a lightweight MACsec stack written in C.

  \<^bold>\<open>The program.\<close> The stack protects Ethernet frames as IEEE 802.1AE does and agrees on keys by the MACsec
  Key Agreement (MKA) of IEEE 802.1X with a pre-shared key. It has no threads and no heap; the state of a port
  is one context, and the application drives it by calls. From the bottom up: \<open>math/\<close> has AES, GCM and CMAC;
  \<open>frame_crypto.c\<close> seals and opens frames under the SAKs (secure association keys) it was given and keeps
  packet numbers and the replay window; \<open>mka_crypto.c\<close> derives the MKA keys, authenticates MKPDUs (the MKA
  frames) and wraps SAKs; \<open>mka.c\<close> is the MKA participant, two state machines with a parser and a
  transmitter; \<open>macsec.c\<close> joins both: it routes frames, drives the timer, takes a SAK that MKA announces, installs
  it in the frame layer, reports that back, and removes a SAK when MKA says that it is retired. Randomness comes from
  \<open>port/\<close>. \<open>examples/linux_tap\<close> runs a port between a TAP device and a network interface.

  \<^bold>\<open>Conventions.\<close> Structs are records, with a prefix for each (\<open>mk_\<close> for the participant, \<open>ms_\<close> for a SAK
  of MKA, \<open>fs_\<close> for one of the frame layer, \<open>mx_\<close> for the top level); enumerations are datatypes or
  named words. Machine integers are words of their width, so that sums wrap as in C; a \<open>size_t\<close> is a
  natural number, because it is always the length of an object or below one. A function that updates
  its context returns it beside the return code, the output buffer and the stored length. A buffer is a list of
  bytes passed with its old contents; an access outside it is \<open>None\<close>, and so is a failed
  assertion (\<open>macsec_sysPanic\<close> does not return). Return codes keep their names. Randomness is an
  argument: \<open>rnd n\<close> are the bytes that the only draw of the call yields. System calls of the application
  are arguments (what they return) and results (what they are given). Loops are structural recursions or \<open>function\<close>s with
  a measure, so they end by construction and there is no fuel; the one loop that may run for ever, the retry
  of \<open>getrandom\<close>, is a \<open>partial_function\<close>, and its result is proved for every sequence of answers that
  delivers the bytes. Left out everywhere: debug output, tests of pointers against NULL, and the erasure of local
  variables; the erasure of buffers and contexts that outlive a call is modelled.

  \<^bold>\<open>Theories.\<close> \<open>Prelude\<close> has the types, buffers and shared lemmas, \<open>Common\<close> models \<open>macsec_common.c\<close>.

  \<^item> AES, \<open>math/aes.c\<close>: \<open>AesTables\<close> (the tables, and that the generated ones are the ones in ROM), \<open>Aes\<close>
    (key schedules and block cipher), \<open>AesInverse\<close> (decryption undoes encryption), \<open>AesKeyed\<close> (the result depends on the
    key alone), \<open>AesSpec\<close> (FIPS 197, and that the table-driven cipher computes it).
  \<^item> GCM, \<open>math/gcm.c\<close>: \<open>Gcm\<close> (all operations), \<open>GcmSpec\<close> (NIST SP 800-38D, the 4-bit tables against the
    bit-serial product, the round trip), \<open>GcmMemory\<close> (input and output in one memory, byte by byte: the test of
    \<open>gcm_update\<close> refuses every overlap that matters).
  \<^item> CMAC, \<open>math/cmac.c\<close>: \<open>Cmac\<close>, \<open>CmacSpec\<close> (NIST SP 800-38B, any split of a message).
  \<^item> Frames, \<open>frame_crypto.c\<close>: \<open>FrameCrypto\<close> (all operations), \<open>FrameFacts\<close> (the outcomes of a call),
    \<open>FrameReplay\<close> (the bitmap window refines the set of accepted numbers), \<open>FrameTrace\<close> (runs: no number is
    accepted twice, no nonce is used twice).
  \<^item> MKA cryptography, \<open>mka_crypto.c\<close>: \<open>MkaCrypto\<close>, \<open>KeyWrap\<close> (RFC 3394 over the locale \<open>block_cipher\<close>, which AES
    interprets), \<open>MkaCryptoFacts\<close> (key derivation, ICV, wrapped SAKs).
  \<^item> Self tests of the modules above: \<open>MathSelfTest\<close>, \<open>SelfTest\<close>.
  \<^item> The participant, \<open>mka.c\<close>: \<open>Mka\<close> (data, transition tables, SAK lifecycle, timer, notifications), \<open>MkaParse\<close>
    (received MKPDUs), \<open>MkaTx\<close> (sent ones); \<open>MkaInv\<close>, \<open>MkaParseFacts\<close> and \<open>MkaTxFacts\<close> prove that each operation
    keeps the lifecycle invariant \<open>mka_inv\<close> and stays inside its buffers for every input; \<open>MkaMachine\<close> is the
    machine of all calls, with the reachable contexts by rule induction in the locale \<open>safe_machine\<close>;
    \<open>MkaExchange\<close> and \<open>MkaProperties\<close> are about two participants and about the timer, the election and rekeying;
    \<open>MkaKept\<close> is what no operation changes.
  \<^item> The top level, \<open>macsec.c\<close>: \<open>Macsec\<close> (all operations), \<open>MacsecInv\<close> (the invariant \<open>macsec_inv\<close>, with the
    agreement of control and data plane), \<open>MacsecMachine\<close> (\<open>safe_machine\<close> again), \<open>MacsecProperties\<close> (what is let in
    and out, static keys, what a stranger can do), \<open>MacsecKept\<close> (the keys that no sequence of calls changes),
    \<open>MacsecHandshake\<close> (two ports from start to protected traffic).
  \<^item> \<open>Port\<close>: the random sources of \<open>port/embedded\<close> and \<open>port/linux\<close>.
  \<^item> The application: \<open>LinuxTapConfig\<close> (keys and configuration file), \<open>LinuxTapKeys\<close> (which keys the text of a
    configuration stands for, stated without the parsers, and that the stack holds these in every context of a run),
    \<open>LinuxTap\<close> (both directions of the data path, control frames, event loop, and the trace of a run), \<open>LinuxTapMain\<close>
    (signal handlers, devices, \<open>main\<close> and its clean-up).
  \<^item> \<open>MemUsage\<close>: the measurement harness \<open>examples/mem_usage_stm32\<close>, its memory functions and its runs of the
    frame layer and of the whole stack.
\<close>

text \<open>
  \<^bold>\<open>What is proved.\<close> The block cipher, GCM, CMAC, the key derivation and the key wrap compute what the standards say. A
  sealed frame opens to what was sealed; whatever is accepted carries a tag of the standard under
  the installed key; a refused frame leaves nothing behind. Over every run of the frame layer packet numbers
  are accepted at most once and never reused for sending. The MKA participant and the top level handle every
  byte sequence without a panic or an access outside a buffer, in every reachable context, and keep their
  invariants; the data plane transmits with exactly the SAK that the control plane reports. Two ports with one
  CAK are secured after three control frames and deliver each other's frames. The TAP application
  is keyed with the CAK and CKN, or the static SAK, that the user wrote, from any arguments, files and answers of the
  kernel; it lets out nothing but MKPDUs and frames sealed under the SAKs of its own run, and lets in nothing but frames that
  open under them; it closes what it opened and erases the context of the stack (its parsed configuration it does not erase).

  Several theorems state behaviour that the code does not seem to mean: the tie-break of the Key Server election
  never holds (\<open>key_server_election\<close>), short key names keep two participants apart (\<open>short_ckn_never_live\<close>), one forged
  MKPDU stops the traffic of a port (\<open>forged_mkpdu_stops_data\<close>, \<open>static_mode_eapol_stops_data\<close>), a participant that
  becomes Key Server while it holds a foreign SAK is silent (\<open>participant_speaks\<close>), a frame sent back to its
  sender is accepted there (\<open>static_delivery\<close>), and boards with the default seed never connect (\<open>default_seed_no_link\<close>).

  \<^bold>\<open>Limits.\<close> The frame operations are modelled on input and output buffers that do not overlap. Overlaps are
  treated where the source does, in \<open>gcm_update\<close>: the outcome of its test is an argument of the model, and
  \<open>GcmMemory\<close> shows that the model is right for all positions of the two buffers. Security is functional: what is accepted carries the right tag; that tags cannot be guessed is no
  statement of this kind. Time is the 32-bit milliseconds that the application reports.

  \<^bold>\<open>Not modelled.\<close>

  \<^item> Debug printers, state names for messages, \<open>macsec_dump_hex\<close>, the usage text and the statistics output
    of the application: they write text and change no state.
  \<^item> \<open>macsec_config.h\<close>: preprocessor switches. The four table configurations of AES are covered by \<open>AesTables\<close>;
    the self tests are modelled as compiled in.
  \<^item> In \<open>mem_usage_stm32\<close> the self-test profile, which runs \<open>tests/\<close>, and the final loop that keeps the result
    observable; \<open>port.c\<close> there repeats the generator of \<open>port/embedded/port.c\<close>. The program only exists so that
    the size of its image can be measured.
  \<^item> \<open>examples/unit_tests\<close>: a third-party printf for debug output, and the entry point of the test runner.
  \<^item> \<open>tests/\<close>: drivers around the library.
\<close>

end
